(* ===== verification/Prelude.thy ===== *)
theory Prelude
  imports Complex_Main "HOL-Library.Word" "HOL-Library.Monad_Syntax" "HOL-Library.Char_ord"
    "HOL-Library.List_Lexorder" "HOL-Library.Product_Lexorder" "HOL-Library.Multiset" "HOL-Library.Code_Target_Numeral"
begin

text \<open>
  Shared vocabulary of the development: Rust's machine integers and the operations of the
  standard library that the sources use (saturating and checked arithmetic, slice indexing
  with its panic, \<open>partition_point\<close>, \<open>min_by_key\<close>, \<open>max_by_key\<close>, \<open>dedup\<close>, decimal parsing and
  printing, \<open>split\<close>), together with the generic lemmas the component theories rely on.

  A panic is the value \<^term>\<open>None\<close> of an option-valued definition. Overflow of the plain \<open>+\<close> and
  \<open>*\<close> on \<open>u32\<close> wraps, as in the release profile the container images are built with.
\<close>

section \<open>Integers\<close>

type_synonym u32 = "32 word"
type_synonym i32 = int
type_synonym usize = nat

named_theorems u32_arith

definition u32_MAX :: u32 where
  "u32_MAX = 4294967295"

definition usize_MAX :: usize where
  "usize_MAX = 18446744073709551615"

definition saturating_add :: "u32 \<Rightarrow> u32 \<Rightarrow> u32" where
  "saturating_add a b = (if unat a + unat b < 2 ^ 32 then a + b else u32_MAX)"

definition saturating_sub :: "u32 \<Rightarrow> u32 \<Rightarrow> u32" where
  "saturating_sub a b = (if a < b then 0 else a - b)"

definition checked_add :: "u32 \<Rightarrow> u32 \<Rightarrow> u32 option" where
  "checked_add a b = (if unat a + unat b < 2 ^ 32 then Some (a + b) else None)"

definition checked_sub :: "u32 \<Rightarrow> u32 \<Rightarrow> u32 option" where
  "checked_sub a b = (if a < b then None else Some (a - b))"

lemma unat_u32_MAX [simp]: "unat u32_MAX = 2 ^ 32 - 1"
  by (simp add: u32_MAX_def)

lemma unat_u32_bound: "unat (a :: u32) < 2 ^ 32"
  using unsigned_less [of a] by simp

lemma u32_le_MAX [simp]: "a \<le> u32_MAX"
  using unat_u32_bound [of a] by (simp add: word_le_nat_alt)

lemma u32_MAX_le_iff [simp]: "u32_MAX \<le> a \<longleftrightarrow> a = u32_MAX"
  by (auto intro: antisym)

lemma u32_MAX_not_less [simp]: "\<not> u32_MAX < a"
  by (simp add: not_less)

lemma u32_less_MAX_iff: "a < u32_MAX \<longleftrightarrow> a \<noteq> u32_MAX"
  by (simp add: order_less_le)

lemma unat_saturating_add [u32_arith]:
  "unat (saturating_add a b) = min (unat a + unat b) (2 ^ 32 - 1)"
  by (simp add: saturating_add_def unat_word_ariths)

lemma unat_saturating_sub [u32_arith]: "unat (saturating_sub a b) = unat a - unat b"
  by (auto simp: saturating_sub_def word_less_nat_alt unat_sub word_le_nat_alt)

lemma saturating_add_ge [simp]: "a \<le> saturating_add a b" "b \<le> saturating_add a b"
  using unat_u32_bound [of a] unat_u32_bound [of b]
  by (simp_all add: word_le_nat_alt u32_arith)

lemma saturating_sub_le [simp]: "saturating_sub a b \<le> a"
  by (simp add: word_le_nat_alt u32_arith)

lemma saturating_add_0 [simp]: "saturating_add a 0 = a" "saturating_add 0 a = a"
  using unat_u32_bound [of a] by (simp_all add: saturating_add_def)

lemma saturating_sub_0 [simp]: "saturating_sub a 0 = a"
  by (simp add: saturating_sub_def word_less_nat_alt)

lemma saturating_add_mono: "a \<le> a' \<Longrightarrow> b \<le> b' \<Longrightarrow> saturating_add a b \<le> saturating_add a' b'"
  by (simp add: word_le_nat_alt u32_arith)

lemma saturating_add_strict:
  "a < a' \<Longrightarrow> saturating_add a' d \<noteq> u32_MAX \<Longrightarrow> saturating_add a d < saturating_add a' d"
proof -
  assume "a < a'" and sat: "saturating_add a' d \<noteq> u32_MAX"
  then have "unat a < unat a'" by (simp add: word_less_nat_alt)
  moreover have "unat a' + unat d < 2 ^ 32 - 1"
  proof (rule ccontr)
    assume "\<not> ?thesis"
    then have "unat (saturating_add a' d) = unat u32_MAX" by (simp add: u32_arith)
    with sat show False by (metis word_unat_eq_iff)
  qed
  ultimately show ?thesis by (simp add: word_less_nat_alt u32_arith)
qed

lemma saturating_sub_le_iff: "saturating_sub a b \<le> c \<longleftrightarrow> unat a \<le> unat c + unat b"
  by (auto simp: word_le_nat_alt u32_arith)

lemma checked_sub_Some: "checked_sub a b = Some d \<longleftrightarrow> b \<le> a \<and> d = a - b"
  by (auto simp: checked_sub_def not_less)

lemma checked_add_Some: "checked_add a b = Some c \<Longrightarrow> unat c = unat a + unat b"
  by (auto simp: checked_add_def unat_word_ariths split: if_splits)

section \<open>Slices and vectors\<close>

text \<open>Indexing panics out of range; the read and the write say so.\<close>

definition idx :: "'a list \<Rightarrow> usize \<Rightarrow> 'a option" where
  "idx xs i = (if i < length xs then Some (xs ! i) else None)"

definition upd :: "'a list \<Rightarrow> usize \<Rightarrow> 'a \<Rightarrow> 'a list option" where
  "upd xs i v = (if i < length xs then Some (xs[i := v]) else None)"

lemma idx_Some [simp]: "idx xs i = Some x \<longleftrightarrow> i < length xs \<and> xs ! i = x"
  by (auto simp: idx_def)

lemma idx_None [simp]: "idx xs i = None \<longleftrightarrow> length xs \<le> i"
  by (auto simp: idx_def)

lemma idx_in_range [simp]: "i < length xs \<Longrightarrow> idx xs i = Some (xs ! i)"
  by simp

lemma upd_Some [simp]: "upd xs i v = Some ys \<longleftrightarrow> i < length xs \<and> ys = xs[i := v]"
  by (auto simp: upd_def)

lemma upd_None [simp]: "upd xs i v = None \<longleftrightarrow> length xs \<le> i"
  by (auto simp: upd_def)

lemma upd_in_range [simp]: "i < length xs \<Longrightarrow> upd xs i v = Some (xs[i := v])"
  by simp

text \<open>
  \<open>slice::partition_point\<close> on a slice that is partitioned by the predicate, the only case whose
  result the standard library specifies.
\<close>

definition partition_point :: "('a \<Rightarrow> bool) \<Rightarrow> 'a list \<Rightarrow> usize" where
  "partition_point p xs = length (takeWhile p xs)"

lemma drop_partition_point: "drop (partition_point p xs) xs = dropWhile p xs"
  by (simp add: partition_point_def dropWhile_eq_drop)

text \<open>\<open>Iterator::min_by_key\<close> keeps the first minimum, \<open>max_by_key\<close> the last maximum.\<close>

fun min_by_key :: "('a \<Rightarrow> 'k :: linorder) \<Rightarrow> 'a list \<Rightarrow> 'a option" where
  "min_by_key f [] = None"
| "min_by_key f (x # xs) = Some (foldl (\<lambda>m y. if f y < f m then y else m) x xs)"

fun max_by_key :: "('a \<Rightarrow> 'k :: linorder) \<Rightarrow> 'a list \<Rightarrow> 'a option" where
  "max_by_key f [] = None"
| "max_by_key f (x # xs) = Some (foldl (\<lambda>m y. if f m \<le> f y then y else m) x xs)"

lemma foldl_min_by_key:
  "foldl (\<lambda>m y. if f y < f m then y else m) x xs \<in> insert x (set xs) \<and>
   (\<forall>y \<in> insert x (set xs). f (foldl (\<lambda>m y. if f y < f m then y else m) x xs) \<le> (f y :: 'k :: linorder))"
proof (induction xs arbitrary: x)
  case Nil
  then show ?case by simp
next
  case (Cons a xs)
  show ?case using Cons.IH [of "if f a < f x then a else x"] by (auto split: if_splits)
qed

lemma foldl_max_by_key:
  "foldl (\<lambda>m y. if f m \<le> f y then y else m) x xs \<in> insert x (set xs) \<and>
   (\<forall>y \<in> insert x (set xs). (f y :: 'k :: linorder) \<le> f (foldl (\<lambda>m y. if f m \<le> f y then y else m) x xs))"
proof (induction xs arbitrary: x)
  case Nil
  then show ?case by simp
next
  case (Cons a xs)
  show ?case using Cons.IH [of "if f x \<le> f a then a else x"] by (auto split: if_splits)
qed

lemma min_by_key_None [simp]: "min_by_key f xs = None \<longleftrightarrow> xs = []"
  by (cases xs) auto

lemma max_by_key_None [simp]: "max_by_key f xs = None \<longleftrightarrow> xs = []"
  by (cases xs) auto

lemma min_by_key_Some:
  assumes "min_by_key f xs = Some m"
  shows "m \<in> set xs" and "y \<in> set xs \<Longrightarrow> f m \<le> f y"
  using assms foldl_min_by_key [of f] by (cases xs; fastforce)+

lemma max_by_key_Some:
  assumes "max_by_key f xs = Some m"
  shows "m \<in> set xs" and "y \<in> set xs \<Longrightarrow> f y \<le> f m"
  using assms foldl_max_by_key [of f] by (cases xs; fastforce)+

text \<open>\<open>slice::chunks\<close> of a size that is not zero.\<close>

fun chunks_of :: "nat \<Rightarrow> 'a list \<Rightarrow> 'a list list" where
  "chunks_of n [] = []"
| "chunks_of n (x # xs) = (if n = 0 then [] else take n (x # xs) # chunks_of n (drop n (x # xs)))"

lemma map_filter_set: "y \<in> set (List.map_filter f xs) \<longleftrightarrow> (\<exists>x \<in> set xs. f x = Some y)"
  by (induction xs) (auto simp: map_filter_simps split: option.splits)

lemma concat_chunks_of: "0 < n \<Longrightarrow> concat (chunks_of n xs) = xs"
  by (induction n xs rule: chunks_of.induct) auto

section \<open>Loops that may panic\<close>

text \<open>A \<open>for\<close> loop over a slice whose body may panic, and the mapping closure that may panic.\<close>

fun foldM :: "('s \<Rightarrow> 'a \<Rightarrow> 's option) \<Rightarrow> 's \<Rightarrow> 'a list \<Rightarrow> 's option" where
  "foldM f s [] = Some s"
| "foldM f s (x # xs) = (case f s x of None \<Rightarrow> None | Some s' \<Rightarrow> foldM f s' xs)"

fun mapM :: "('a \<Rightarrow> 'b option) \<Rightarrow> 'a list \<Rightarrow> 'b list option" where
  "mapM f [] = Some []"
| "mapM f (x # xs) = (case f x of None \<Rightarrow> None
     | Some y \<Rightarrow> (case mapM f xs of None \<Rightarrow> None | Some ys \<Rightarrow> Some (y # ys)))"

lemma foldM_append: "foldM f s (xs @ ys) = Option.bind (foldM f s xs) (\<lambda>s'. foldM f s' ys)"
  by (induction xs arbitrary: s) (auto split: option.splits)

lemma foldM_cong [fundef_cong]:
  assumes "s = s'" "xs = xs'" "\<And>a x. x \<in> set xs' \<Longrightarrow> f a x = f' a x"
  shows "foldM f s xs = foldM f' s' xs'"
  using assms(3) unfolding assms(1,2)
  by (induction xs' arbitrary: s') (auto split: option.splits)

text \<open>An invariant that knows which part of the slice has been processed and which remains.\<close>

lemma foldM_total:
  assumes "P [] xs s0"
    and "\<And>ys x zs s. xs = ys @ x # zs \<Longrightarrow> P ys (x # zs) s \<Longrightarrow> \<exists>s'. f s x = Some s' \<and> P (ys @ [x]) zs s'"
  shows "\<exists>s. foldM f s0 xs = Some s \<and> P xs [] s"
proof -
  have "\<exists>s. foldM f s1 zs = Some s \<and> P xs [] s" if "xs = ys @ zs" "P ys zs s1" for ys zs s1
    using that
  proof (induction zs arbitrary: ys s1)
    case (Cons z zs)
    from assms(2) [OF Cons.prems] obtain s' where "f s1 z = Some s'" "P (ys @ [z]) zs s'" by blast
    with Cons.IH [of "ys @ [z]" s'] Cons.prems(1) show ?case by simp
  qed simp
  from this [of "[]" xs s0] assms(1) show ?thesis by simp
qed

lemma foldM_invariant:
  assumes "foldM f s0 xs = Some s" and "P s0"
    and "\<And>x s s'. x \<in> set xs \<Longrightarrow> P s \<Longrightarrow> f s x = Some s' \<Longrightarrow> P s'"
  shows "P s"
  using assms
proof (induction xs arbitrary: s0)
  case (Cons x xs)
  from Cons.prems(1) obtain s1 where "f s0 x = Some s1" "foldM f s1 xs = Some s"
    by (auto split: option.splits)
  with Cons.prems(2,3) show ?case by (intro Cons.IH [of s1]) auto
qed simp

lemma foldM_total_simple:
  assumes "P s0" and "\<And>x s. x \<in> set xs \<Longrightarrow> P s \<Longrightarrow> \<exists>s'. f s x = Some s' \<and> P s'"
  shows "\<exists>s. foldM f s0 xs = Some s \<and> P s"
  using foldM_total [of "\<lambda>_ _. P" xs s0 f] assms by auto

lemma mapM_Some: "mapM f xs = Some ys \<longleftrightarrow> length ys = length xs \<and> (\<forall>i < length xs. f (xs ! i) = Some (ys ! i))"
proof (induction xs arbitrary: ys)
  case (Cons x xs)
  show ?case
  proof (cases ys)
    case (Cons y ys')
    then show ?thesis
      using Cons.IH [of ys'] by (auto simp: less_Suc_eq_0_disj split: option.splits)
  qed (auto split: option.splits)
qed auto

lemma mapM_total: "(\<And>x. x \<in> set xs \<Longrightarrow> f x = Some (g x)) \<Longrightarrow> mapM f xs = Some (map g xs)"
  by (induction xs) auto

lemma mapM_None: "mapM f xs = None \<longleftrightarrow> (\<exists>x \<in> set xs. f x = None)"
  by (induction xs) (auto split: option.splits)

lemma mapM_mem: "mapM f xs = Some ys \<Longrightarrow> y \<in> set ys \<Longrightarrow> \<exists>x \<in> set xs. f x = Some y"
  by (auto simp: mapM_Some in_set_conv_nth intro!: bexI [OF _ nth_mem])

section \<open>ASCII text\<close>

definition to_ascii_lowercase :: "string \<Rightarrow> string" where
  "to_ascii_lowercase s = map (\<lambda>c. let n = of_char c in if 65 \<le> n \<and> n \<le> (90 :: nat) then char_of (n + 32) else c) s"

section \<open>Floating point, JSON, time\<close>

text \<open>
  \<open>f64\<close> values are stored, passed on and compared by the modelled code; comparisons follow
  IEEE 754 (a NaN compares false with everything). No float arithmetic is modelled.
\<close>

datatype f64 = NaN | Infinity | NegInfinity | Finite real

fun f64_le :: "f64 \<Rightarrow> f64 \<Rightarrow> bool" where
  "f64_le NaN _ = False"
| "f64_le _ NaN = False"
| "f64_le NegInfinity _ = True"
| "f64_le _ Infinity = True"
| "f64_le Infinity _ = False"
| "f64_le _ NegInfinity = False"
| "f64_le (Finite a) (Finite b) = (a \<le> b)"

fun is_finite :: "f64 \<Rightarrow> bool" where
  "is_finite (Finite _) = True"
| "is_finite _ = False"

definition in_f64_range :: "real \<Rightarrow> real \<Rightarrow> f64 \<Rightarrow> bool" where
  "in_f64_range lo hi x = (f64_le (Finite lo) x \<and> f64_le x (Finite hi))"

lemma in_f64_range_Finite [simp]: "in_f64_range lo hi x \<longleftrightarrow> (\<exists>r. x = Finite r \<and> lo \<le> r \<and> r \<le> hi)"
  by (cases x) (auto simp: in_f64_range_def)

datatype json = JNull | JBool bool | JInt int | JFloat f64 | JString string
  | JArray "json list" | JObject "(string \<times> json) list"

type_synonym naive_date = int
type_synonym date_time = int
type_synonym uuid = nat

section \<open>Text\<close>

fun digit_val :: "char \<Rightarrow> nat option" where
  "digit_val c = (let n = of_char c in if 48 \<le> n \<and> n \<le> 57 then Some (n - 48) else None)"

definition digit_char :: "nat \<Rightarrow> char" where
  "digit_char d = char_of (48 + d)"

lemma digit_val_char [simp]: "d < 10 \<Longrightarrow> digit_val (digit_char d) = Some d"
  by (simp add: digit_char_def Let_def)

declare digit_val.simps [simp del]

text \<open>\<open>str::parse::<u32>\<close>: an optional \<open>+\<close>, then at least one digit, no overflow.\<close>

fun parse_digits :: "nat \<Rightarrow> string \<Rightarrow> nat option" where
  "parse_digits acc [] = Some acc"
| "parse_digits acc (c # cs) = (case digit_val c of None \<Rightarrow> None
     | Some d \<Rightarrow> if 10 * acc + d < 2 ^ 32 then parse_digits (10 * acc + d) cs else None)"

definition parse_u32 :: "string \<Rightarrow> u32 option" where
  "parse_u32 s = (case s of [] \<Rightarrow> None
     | c # cs \<Rightarrow> (let ds = (if c = CHR ''+'' then cs else s)
                  in if ds = [] then None else map_option of_nat (parse_digits 0 ds)))"

fun show_nat :: "nat \<Rightarrow> string" where
  "show_nat n = (if n < 10 then [digit_char n] else show_nat (n div 10) @ [digit_char (n mod 10)])"

declare show_nat.simps [simp del]

text \<open>\<open>{:02}\<close> pads with a zero to two characters.\<close>

definition show_02 :: "nat \<Rightarrow> string" where
  "show_02 n = (if n < 10 then CHR ''0'' # show_nat n else show_nat n)"

lemma parse_digits_append:
  "parse_digits acc (xs @ ys) = Option.bind (parse_digits acc xs) (\<lambda>a. parse_digits a ys)"
  by (induction xs arbitrary: acc) (auto split: option.splits)

lemma show_nat_nonempty [simp]: "show_nat n \<noteq> []"
  by (subst show_nat.simps) simp

lemma show_nat_digits: "c \<in> set (show_nat n) \<Longrightarrow> \<exists>d < 10. c = digit_char d"
proof (induction n rule: show_nat.induct)
  case (1 n)
  show ?case
  proof (cases "n < 10 \<or> c \<notin> set (show_nat (n div 10))")
    case True
    with "1.prems" show ?thesis
      by (subst (asm) show_nat.simps) (auto split: if_splits intro: exI [of _ "n mod 10"])
  qed (use 1 in auto)
qed

lemma digit_char_not_sign [simp]:
  "d < 10 \<Longrightarrow> digit_char d \<noteq> CHR ''+''" "d < 10 \<Longrightarrow> CHR ''+'' \<noteq> digit_char d"
  "d < 10 \<Longrightarrow> digit_char d \<noteq> CHR '':''" "d < 10 \<Longrightarrow> CHR '':'' \<noteq> digit_char d"
  by (auto simp: digit_char_def dest!: arg_cong [where f = "of_char :: char \<Rightarrow> nat"])

lemma parse_digits_show_nat: "n < 2 ^ 32 \<Longrightarrow> parse_digits 0 (show_nat n) = Some n"
proof (induction n rule: show_nat.induct)
  case (1 n)
  show ?case
  proof (cases "n < 10")
    case True
    then show ?thesis by (subst show_nat.simps) simp
  next
    case False
    then have "parse_digits 0 (show_nat (n div 10)) = Some (n div 10)" using 1 by simp
    with False "1.prems" show ?thesis
      by (subst show_nat.simps) (simp add: parse_digits_append)
  qed
qed

lemma parse_u32_no_sign:
  "s \<noteq> [] \<Longrightarrow> hd s \<noteq> CHR ''+'' \<Longrightarrow> parse_u32 s = map_option of_nat (parse_digits 0 s)"
  by (cases s) (auto simp: parse_u32_def)

lemma parse_u32_show_nat [simp]: "n < 2 ^ 32 \<Longrightarrow> parse_u32 (show_nat n) = Some (of_nat n)"
  using show_nat_digits [of "hd (show_nat n)" n]
  by (subst parse_u32_no_sign) (auto simp: parse_digits_show_nat)

lemma parse_u32_show_02 [simp]: "n < 2 ^ 32 \<Longrightarrow> parse_u32 (show_02 n) = Some (of_nat n)"
proof -
  assume n: "n < 2 ^ 32"
  have "digit_val (CHR ''0'') = Some 0" by (simp add: digit_val.simps Let_def)
  with n show ?thesis
    by (auto simp: show_02_def parse_u32_no_sign parse_digits_show_nat)
qed

text \<open>\<open>str::split\<close> on one character: never empty, one more piece than separators.\<close>

fun split_on :: "char \<Rightarrow> string \<Rightarrow> string list" where
  "split_on sep [] = [[]]"
| "split_on sep (c # cs) =
     (if c = sep then [] # split_on sep cs
      else (case split_on sep cs of [] \<Rightarrow> [[c]] | p # ps \<Rightarrow> (c # p) # ps))"

lemma split_on_nonempty [simp]: "split_on sep s \<noteq> []"
  by (induction s) (auto split: list.splits)

lemma split_on_no_sep: "sep \<notin> set s \<Longrightarrow> split_on sep s = [s]"
  by (induction s) auto

lemma split_on_append: "sep \<notin> set s \<Longrightarrow> split_on sep (s @ sep # t) = s # split_on sep t"
  by (induction s) auto

end
