(* ===== verification/Transit_Model.thy ===== *)
theory Transit_Model
  imports Prelude
begin

text \<open>
  \<^verbatim>\<open>crates/transit-model/src/lib.rs\<close>: the shared domain types and the four functions on names and
  times. Each struct is a record whose fields carry a prefix (\<open>st_\<close> for \<open>Stop\<close>, \<open>leg_\<close> for
  \<open>JourneyLeg\<close>, ...), since HOL keeps all field names in one space. Names of stops are
  processed character by character and are lists of Unicode scalar values (\<open>ustring\<close>); all other
  strings are byte strings.
\<close>

section \<open>Domain types\<close>

type_synonym ustring = "nat list"

datatype transport_mode = Train | Tram | Bus | Metro | Trolleybus | Ferry | CableCar | UnknownMode

text \<open>The mode that the API reads from a code of the database.\<close>

definition db_mode_to_model :: "string \<Rightarrow> transport_mode" where
  "db_mode_to_model mode =
     (if mode = ''train'' then Train else if mode = ''tram'' then Tram else if mode = ''bus'' then Bus
      else if mode = ''metro'' then Metro else if mode = ''trolleybus'' then Trolleybus
      else if mode = ''ferry'' then Ferry else if mode = ''cable_car'' then CableCar else UnknownMode)"

datatype stop_location_type = StopLocation | StationLocation | EntranceExit | GenericNode | BoardingArea

datatype accessibility_status = UnknownAccess | Accessible | Inaccessible

datatype coordinate_confidence = ExactConf | HighConf | MediumConf | LowConf | UnresolvedConf

record source_ref =
  sr_feed_id :: string
  sr_original_id :: string
  sr_import_run_id :: "uuid option"
  sr_priority :: i32
  sr_confidence :: "coordinate_confidence option"
  sr_suppressed_as_duplicate :: bool

record stop =
  st_id :: string
  st_source_ids :: "source_ref list"
  st_name :: ustring
  st_normalized_name :: ustring
  st_municipality :: "ustring option"
  st_district :: "ustring option"
  st_region :: "ustring option"
  st_lat :: "f64 option"
  st_lon :: "f64 option"
  st_geom :: "(f64 \<times> f64) option"
  st_coordinate_confidence :: coordinate_confidence
  st_coordinate_source :: "string option"
  st_stop_area_id :: "string option"
  st_platform_code :: "ustring option"
  st_location_type :: stop_location_type
  st_parent_station_id :: "string option"
  st_station_id :: "string option"
  st_complex_id :: "string option"
  st_has_station_layout :: bool
  st_station_layout_version :: "string option"
  st_wheelchair_boarding :: accessibility_status
  st_modes :: "transport_mode list"
  st_is_active :: bool

record agency =
  ag_id :: string
  ag_source_id :: string
  ag_name :: string
  ag_url :: "string option"
  ag_timezone :: "string option"

record stop_area =
  sa_id :: string
  sa_name :: ustring
  sa_lat :: "f64 option"
  sa_lon :: "f64 option"

record operator =
  opr_id :: string
  opr_name :: string
  opr_source_id :: "string option"

record trip =
  tri_id :: string
  tri_source_id :: string
  tri_route_id :: string
  tri_service_id :: string
  tri_headsign :: "string option"
  tri_direction_id :: "int option"
  tri_shape_id :: "string option"
  tri_restrictions :: json
  tri_raw_source_metadata :: json
  tri_source_priority :: i32

record route =
  ro_id :: string
  ro_source_id :: string
  ro_agency_id :: "string option"
  ro_operator_id :: "string option"
  ro_short_name :: "string option"
  ro_long_name :: "string option"
  ro_mode :: transport_mode
  ro_gtfs_route_type :: "i32 option"
  ro_color :: "string option"
  ro_text_color :: "string option"
  ro_source_priority :: i32
  ro_is_active :: bool

record stop_time =
  sti_trip_id :: string
  sti_stop_id :: string
  sti_stop_sequence :: u32
  sti_arrival_time :: u32
  sti_departure_time :: u32
  sti_pickup_type :: "int option"
  sti_drop_off_type :: "int option"
  sti_timepoint :: "bool option"
  sti_stop_headsign :: "string option"
  sti_platform :: "string option"
  sti_raw_notes :: "string option"

record calendar =
  cal_service_id :: string
  cal_monday :: bool
  cal_tuesday :: bool
  cal_wednesday :: bool
  cal_thursday :: bool
  cal_friday :: bool
  cal_saturday :: bool
  cal_sunday :: bool
  cal_start_date :: naive_date
  cal_end_date :: naive_date

record calendar_date =
  cd_service_id :: string
  cd_date :: naive_date
  cd_exception_type :: int

record transfer =
  tr_from_stop_id :: string
  tr_to_stop_id :: string
  tr_min_transfer_seconds :: u32
  tr_distance_meters :: "u32 option"
  tr_walking_geometry :: "json option"
  tr_confidence :: coordinate_confidence
  tr_accessibility_level :: "string option"
  tr_source :: string

datatype realtime_confidence = ExactRt | EstimatedRt | StaleConf | UnavailableConf

record realtime_record =
  rtu_id :: string
  rtu_trip_id :: "string option"
  rtu_route_id :: "string option"
  rtu_stop_id :: "string option"
  rtu_delay_seconds :: "i32 option"
  rtu_estimated_arrival :: "date_time option"
  rtu_estimated_departure :: "date_time option"
  rtu_cancellation_status :: "string option"
  rtu_platform_change :: "string option"
  rtu_vehicle_position :: "(f64 \<times> f64) option"
  rtu_source :: string
  rtu_fetched_at :: date_time
  rtu_valid_until :: "date_time option"
  rtu_confidence :: realtime_confidence

record offline_package =
  opk_id :: string
  opk_name_cs :: string
  opk_version :: string
  opk_checksum :: "string option"
  opk_valid_from :: "naive_date option"
  opk_valid_until :: "naive_date option"
  opk_size_bytes :: "nat option"
  opk_mock :: bool

record ticket_option =
  to_id :: string
  to_name_cs :: string
  to_provider :: string
  to_price_czk :: "f64 option"
  to_mock :: bool

datatype realtime_status = FullRt | PartialRt | UnavailableRt | StaleRt

record journey_leg =
  leg_from_stop_id :: string
  leg_to_stop_id :: string
  leg_route_id :: "string option"
  leg_trip_id :: "string option"
  leg_departure_time :: u32
  leg_arrival_time :: u32
  leg_mode :: transport_mode
  leg_warnings :: "string list"
  leg_geometry :: "json option"

record journey =
  j_id :: string
  j_legs :: "journey_leg list"
  j_departure_time :: u32
  j_arrival_time :: u32
  j_duration_seconds :: u32
  j_transfer_count :: u32
  j_walking_distance_meters :: u32
  j_realtime_status :: realtime_status
  j_risk_score :: f64
  j_labels :: "string list"

section \<open>Name normalisation\<close>

text \<open>\<open>char::is_whitespace\<close> (the Unicode White\_Space property) and \<open>str::trim\<close>.\<close>

definition is_whitespace :: "nat \<Rightarrow> bool" where
  "is_whitespace c \<longleftrightarrow> (9 \<le> c \<and> c \<le> 13) \<or> c = 0x20 \<or> c = 0x85 \<or> c = 0xA0 \<or> c = 0x1680 \<or>
     (0x2000 \<le> c \<and> c \<le> 0x200A) \<or> c = 0x2028 \<or> c = 0x2029 \<or> c = 0x202F \<or> c = 0x205F \<or> c = 0x3000"

definition trim :: "ustring \<Rightarrow> ustring" where
  "trim s = rev (dropWhile is_whitespace (rev (dropWhile is_whitespace s)))"

text \<open>Byte length in UTF-8, and the control characters.\<close>

definition utf8_len :: "ustring \<Rightarrow> nat" where
  "utf8_len s = sum_list (map (\<lambda>c. if c < 0x80 then 1 else if c < 0x800 then 2 else if c < 0x10000 then 3 else 4) s)"

text \<open>The UTF-8 bytes of a text.\<close>

definition utf8_char :: "nat \<Rightarrow> string" where
  "utf8_char c =
     map char_of (if c < 0x80 then [c]
       else if c < 0x800 then [0xC0 + c div 64, 0x80 + c mod 64]
       else if c < 0x10000 then [0xE0 + c div 4096, 0x80 + c div 64 mod 64, 0x80 + c mod 64]
       else [0xF0 + c div 262144, 0x80 + c div 4096 mod 64, 0x80 + c div 64 mod 64, 0x80 + c mod 64])"

definition utf8 :: "ustring \<Rightarrow> string" where
  "utf8 s = concat (map utf8_char s)"

definition is_control :: "nat \<Rightarrow> bool" where
  "is_control c \<longleftrightarrow> c < 0x20 \<or> (0x7F \<le> c \<and> c < 0xA0)"

definition is_ascii_alphanumeric :: "nat \<Rightarrow> bool" where
  "is_ascii_alphanumeric c \<longleftrightarrow> (48 \<le> c \<and> c \<le> 57) \<or> (65 \<le> c \<and> c \<le> 90) \<or> (97 \<le> c \<and> c \<le> 122)"

text \<open>The \<open>match\<close> on one lower-cased character; 97 is \<open>a\<close>.\<close>

definition folded_character :: "nat \<Rightarrow> nat option" where
  "folded_character c =
     (if c \<in> {0xE1, 0xE0, 0xE2, 0xE4} then Some 97
      else if c = 0x10D then Some 99
      else if c = 0x10F then Some 100
      else if c \<in> {0xE9, 0x11B, 0xE8, 0xEA, 0xEB} then Some 101
      else if c \<in> {0xED, 0xEC, 0xEE, 0xEF} then Some 105
      else if c = 0x148 then Some 110
      else if c \<in> {0xF3, 0xF2, 0xF4, 0xF6} then Some 111
      else if c = 0x159 then Some 114
      else if c = 0x161 then Some 115
      else if c = 0x165 then Some 116
      else if c \<in> {0xFA, 0x16F, 0xF9, 0xFB, 0xFC} then Some 117
      else if c \<in> {0xFD, 0xFF} then Some 121
      else if c = 0x17E then Some 122
      else if is_ascii_alphanumeric c then Some c
      else None)"

fun normalize_step :: "ustring \<times> bool \<Rightarrow> nat \<Rightarrow> ustring \<times> bool" where
  "normalize_step (normalized, previous_was_space) c =
     (case folded_character c of
        Some d \<Rightarrow> (normalized @ [d], False)
      | None \<Rightarrow> if \<not> previous_was_space then (normalized @ [32], True)
                else (normalized, previous_was_space))"

text \<open>\<open>str::to_lowercase\<close> rests on the Unicode tables and is the parameter \<open>lower\<close>.\<close>

definition normalize_czech_name :: "(ustring \<Rightarrow> ustring) \<Rightarrow> ustring \<Rightarrow> ustring" where
  "normalize_czech_name lower value =
     (let normalized = fst (foldl normalize_step ([], True) (lower (trim value)))
      in if normalized \<noteq> [] \<and> last normalized = 32 then butlast normalized else normalized)"

text \<open>
  The declarative reading: the maximal runs of foldable characters are the words, and the
  words are joined by single spaces.
\<close>

fun words_of :: "'a option list \<Rightarrow> 'a list list" where
  "words_of [] = []"
| "words_of (None # xs) = words_of xs"
| "words_of (Some a # xs) =
     (case xs of Some b # ys \<Rightarrow> (a # hd (words_of xs)) # tl (words_of xs)
      | _ \<Rightarrow> [a] # words_of xs)"

fun join_words :: "'a \<Rightarrow> 'a list list \<Rightarrow> 'a list" where
  "join_words sep [] = []"
| "join_words sep [w] = w"
| "join_words sep (w # v # ws) = w @ sep # join_words sep (v # ws)"

definition spec_normalize :: "(ustring \<Rightarrow> ustring) \<Rightarrow> ustring \<Rightarrow> ustring" where
  "spec_normalize lower value = join_words 32 (words_of (map folded_character (lower (trim value))))"

lemma words_of_Some_nonempty [simp]: "words_of (Some a # xs) \<noteq> []"
  by (auto split: list.splits option.splits)

lemma words_of_snoc_None: "words_of (xs @ [None]) = words_of xs"
proof (induction xs rule: words_of.induct)
  case (3 a xs)
  show ?case
  proof (cases xs)
    case (Cons b ys)
    then show ?thesis using 3 by (cases b) auto
  qed simp
qed auto

lemma words_of_Nil_iff: "words_of xs = [] \<longleftrightarrow> set xs \<subseteq> {None}"
  by (induction xs rule: words_of.induct) (simp_all split: list.splits option.splits)

lemma words_of_last_Some: "xs \<noteq> [] \<Longrightarrow> last xs = Some y \<Longrightarrow> words_of xs \<noteq> []"
  using last_in_set [of xs] by (auto simp: words_of_Nil_iff)

lemma words_of_snoc_Some:
  "words_of (xs @ [Some c]) =
     (if xs = [] \<or> last xs = None then words_of xs @ [[c]]
      else butlast (words_of xs) @ [last (words_of xs) @ [c]])"
proof (induction xs rule: words_of.induct)
  case (3 a xs)
  show ?case
  proof (cases xs)
    case Nil
    then show ?thesis by simp
  next
    case (Cons b ys)
    show ?thesis
    proof (cases b)
      case None
      with Cons 3 show ?thesis by (auto simp: words_of_last_Some)
    next
      case (Some d)
      obtain w ws where ws: "words_of (Some d # ys) = w # ws"
        using words_of_Some_nonempty [of d ys] by (cases "words_of (Some d # ys)") (simp_all del: words_of.simps)
      have IH: "words_of ((Some d # ys) @ [Some c]) =
         (if last (Some d # ys) = None then (w # ws) @ [[c]]
          else butlast (w # ws) @ [last (w # ws) @ [c]])"
        using 3(3) [of "Some d" ys d] Cons Some ws by auto
      have step: "words_of (Some a # Some d # zs)
          = (a # hd (words_of (Some d # zs))) # tl (words_of (Some d # zs))" for zs
        by simp
      show ?thesis
        unfolding Cons Some append_Cons step using IH ws
        by (auto simp: Cons Some simp del: words_of.simps split: list.splits)
    qed
  qed
qed auto

text \<open>
  What the loop has built after a prefix: the joined words, with one trailing space when the
  prefix ends in a separator after at least one word.
\<close>

definition rendered :: "nat option list \<Rightarrow> ustring \<times> bool" where
  "rendered xs = (join_words 32 (words_of xs) @ (if words_of xs \<noteq> [] \<and> last xs = None then [32] else []),
                  xs = [] \<or> last xs = None)"

lemma join_words_snoc: "ws \<noteq> [] \<Longrightarrow> join_words sep (ws @ [w]) = join_words sep ws @ sep # w"
  by (induction sep ws rule: join_words.induct) auto

lemma join_words_snoc_last:
  "ws \<noteq> [] \<Longrightarrow> join_words sep (butlast ws @ [last ws @ [c]]) = join_words sep ws @ [c]"
  by (induction sep ws rule: join_words.induct) (auto simp: neq_Nil_conv)

lemma words_of_last_None: "xs = [] \<or> last xs = None \<Longrightarrow> words_of xs = [] \<or> last xs = None"
  by auto

lemma normalize_step_rendered:
  "normalize_step (rendered (map folded_character cs)) c = rendered (map folded_character (cs @ [c]))"
proof (cases "folded_character c")
  case None
  then show ?thesis
    using words_of_last_Some [of "map folded_character cs"]
    by (cases "last (map folded_character cs)") (auto simp: rendered_def words_of_snoc_None)
next
  case (Some d)
  let ?xs = "map folded_character cs"
  show ?thesis
  proof (cases "cs = [] \<or> last ?xs = None")
    case True
    then show ?thesis using Some
      by (cases "words_of ?xs = []") (auto simp: rendered_def words_of_snoc_Some join_words_snoc)
  next
    case False
    then obtain y where "last ?xs = Some y" by auto
    with False have "words_of ?xs \<noteq> []" by (intro words_of_last_Some) auto
    with False Some show ?thesis
      by (auto simp: rendered_def words_of_snoc_Some join_words_snoc_last)
  qed
qed

lemma foldl_normalize_step:
  "foldl normalize_step ([], True) cs = rendered (map folded_character cs)"
proof (induction cs rule: rev_induct)
  case Nil
  show ?case by (simp add: rendered_def)
next
  case (snoc c cs)
  then show ?case by (simp del: normalize_step.simps add: normalize_step_rendered del: map_append)
qed

lemma folded_character_range:
  "folded_character c = Some d \<Longrightarrow> is_ascii_alphanumeric d"
  by (auto simp: folded_character_def is_ascii_alphanumeric_def split: if_splits)

lemma words_of_elems: "w \<in> set (words_of xs) \<Longrightarrow> w \<noteq> [] \<and> Some ` set w \<subseteq> set xs"
proof (induction xs arbitrary: w rule: words_of.induct)
  case (3 a xs)
  show ?case
  proof (cases "\<exists>b ys. xs = Some b # ys")
    case True
    then obtain b ys where xs: "xs = Some b # ys" by blast
    obtain v vs where vs: "words_of xs = v # vs" 
      using words_of_Some_nonempty [of b ys] by (cases "words_of xs") (simp_all add: xs del: words_of.simps)
    then have "words_of (Some a # xs) = (a # v) # vs" using xs by simp
    with 3 vs xs show ?thesis by fastforce
  next
    case False
    then have "words_of (Some a # xs) = [a] # words_of xs" by (auto split: list.splits option.splits)
    moreover have "w \<in> set (words_of xs) \<Longrightarrow> w \<noteq> [] \<and> Some ` set w \<subseteq> set xs"
      using False 3(1,2) by (cases xs) (auto split: option.splits)
    ultimately show ?thesis using 3 by auto
  qed
qed auto

lemma join_words_last:
  "\<forall>w \<in> set ws. w \<noteq> [] \<Longrightarrow> ws \<noteq> [] \<Longrightarrow> join_words sep ws \<noteq> [] \<and> last (join_words sep ws) = last (last ws)"
  by (induction sep ws rule: join_words.induct) auto

section \<open>Times of day\<close>

text \<open>The sum and products on \<open>u32\<close> wrap; the fields after the third are not looked at.\<close>

definition parse_gtfs_time :: "string \<Rightarrow> u32 option" where
  "parse_gtfs_time value =
     (case split_on (CHR '':'') value of
        h # m # s # _ \<Rightarrow> do {
          hours \<leftarrow> parse_u32 h; minutes \<leftarrow> parse_u32 m; seconds \<leftarrow> parse_u32 s;
          Some (hours * 3600 + minutes * 60 + seconds) }
      | _ \<Rightarrow> None)"

definition seconds_to_time :: "u32 \<Rightarrow> string" where
  "seconds_to_time value =
     show_02 (unat (value div 3600)) @ '':'' @ show_02 (unat (value mod 3600 div 60)) @ '':'' @ show_02 (unat (value mod 60))"

text \<open>A \<open>NaiveTime\<close> is the second of the day and the nanosecond in it.\<close>

type_synonym naive_time = "nat \<times> nat"

definition naive_time_to_seconds :: "naive_time \<Rightarrow> u32" where
  "naive_time_to_seconds value = of_nat (fst value)"

end
