(* ===== verification/Raptor_Model.thy ===== *)
theory Raptor_Model
  imports Transit_Model "HOL-Library.AList"
begin

text \<open>
  \<^verbatim>\<open>crates/routing-core/src/lib.rs\<close>, the data of the RAPTOR router: trips, routes, the indexed
  timetable, requests, parents of labels, and the realtime delays with their bounds.

  A \<open>HashMap\<close> that is only looked up is a map; one that is iterated or counted is an
  association list with distinct keys, whose order stands for the unspecified iteration order.
\<close>

section \<open>Trips, routes, timetable\<close>

record raptor_stop_time =
  rst_stop_id :: string
  rst_arrival_time :: u32
  rst_departure_time :: u32
  rst_pickup_allowed :: bool
  rst_drop_off_allowed :: bool

record raptor_trip =
  rt_trip_id :: string
  rt_route_id :: string
  rt_mode :: transport_mode
  rt_service_verified :: bool
  rt_stop_times :: "raptor_stop_time list"

record raptor_route =
  rr_trips :: "raptor_trip list"
  rr_stop_indices :: "usize list"
  rr_departures_by_stop_index :: "usize list list"
  rr_verified_departures_by_stop_index :: "usize list list"

record delay_bounds =
  db_max_positive_seconds :: u32
  db_max_early_seconds :: u32

record raptor_transfer =
  rx_from_stop_index :: usize
  rx_to_stop_index :: usize
  rx_min_transfer_seconds :: u32
  rx_distance_meters :: "u32 option"
  rx_walking_geometry :: "json option"
  rx_source :: string

record raptor_timetable =
  tt_stops :: "string list"
  tt_stop_indices :: "string \<rightharpoonup> usize"
  tt_routes :: "raptor_route list"
  tt_stop_routes :: "(usize \<times> usize) list list"
  tt_transfers_by_stop :: "raptor_transfer list list"
  tt_minimum_change_seconds_by_stop :: "u32 option list"
  tt_trip_route_indices :: "(string \<times> usize) list"
  tt_trip_count :: usize
  tt_has_unverified_services :: bool

section \<open>Realtime delays\<close>

record realtime_update =
  ru_trip_id :: string
  ru_stop_id :: "string option"
  ru_delay_seconds :: i32

record realtime_data =
  rd_delays_by_trip :: "(string \<times> i32) list"
  rd_delays_by_trip_stop :: "string \<rightharpoonup> (string \<rightharpoonup> i32)"
  rd_max_positive_delay_seconds :: u32
  rd_max_early_departure_seconds :: u32
  rd_delay_bounds_by_trip :: "(string \<times> delay_bounds) list"

definition MAX_REALTIME_ROUTING_DELAY_SECONDS :: i32 where
  "MAX_REALTIME_ROUTING_DELAY_SECONDS = 6 * 3600"

definition default_bounds :: delay_bounds where
  "default_bounds = \<lparr>db_max_positive_seconds = 0, db_max_early_seconds = 0\<rparr>"

definition default_realtime :: realtime_data where
  "default_realtime = \<lparr>rd_delays_by_trip = [], rd_delays_by_trip_stop = Map.empty,
     rd_max_positive_delay_seconds = 0, rd_max_early_departure_seconds = 0,
     rd_delay_bounds_by_trip = []\<rparr>"

text \<open>\<open>i32::clamp\<close>, the cast \<open>as u32\<close> of a non-negative value, \<open>entry().or_insert\<close>.\<close>

definition clamp_i32 :: "i32 \<Rightarrow> i32 \<Rightarrow> i32 \<Rightarrow> i32" where
  "clamp_i32 lo hi x = (if x < lo then lo else if hi < x then hi else x)"

definition or_insert :: "'k \<Rightarrow> 'v \<Rightarrow> ('k \<times> 'v) list \<Rightarrow> ('k \<times> 'v) list" where
  "or_insert k v al = (if map_of al k = None then al @ [(k, v)] else al)"

definition widen_bounds :: "i32 \<Rightarrow> delay_bounds \<Rightarrow> delay_bounds" where
  "widen_bounds d b = \<lparr>
     db_max_positive_seconds = max (db_max_positive_seconds b) (word_of_int (max d 0)),
     db_max_early_seconds = max (db_max_early_seconds b) (word_of_int (max (- d) 0))\<rparr>"

definition apply_update :: "realtime_data \<Rightarrow> realtime_update \<Rightarrow> realtime_data" where
  "apply_update data u =
     (let d = clamp_i32 (- MAX_REALTIME_ROUTING_DELAY_SECONDS) MAX_REALTIME_ROUTING_DELAY_SECONDS
                (ru_delay_seconds u);
          trip = ru_trip_id u;
          bounds = (case map_of (rd_delay_bounds_by_trip data) trip of
                      None \<Rightarrow> default_bounds | Some b \<Rightarrow> b);
          stops = (case rd_delays_by_trip_stop data trip of None \<Rightarrow> Map.empty | Some m \<Rightarrow> m)
      in \<lparr>rd_delays_by_trip = or_insert trip d (rd_delays_by_trip data),
          rd_delays_by_trip_stop =
            (case ru_stop_id u of
               None \<Rightarrow> rd_delays_by_trip_stop data
             | Some stop \<Rightarrow> (rd_delays_by_trip_stop data)
                 (trip \<mapsto> (if stops stop = None then stops(stop \<mapsto> d) else stops))),
          rd_max_positive_delay_seconds =
            max (rd_max_positive_delay_seconds data) (word_of_int (max d 0)),
          rd_max_early_departure_seconds =
            max (rd_max_early_departure_seconds data) (word_of_int (max (- d) 0)),
          rd_delay_bounds_by_trip =
            AList.update trip (widen_bounds d bounds) (rd_delay_bounds_by_trip data)\<rparr>)"

definition from_updates :: "realtime_update list \<Rightarrow> realtime_data" where
  "from_updates updates = foldl apply_update default_realtime updates"

definition realtime_is_empty :: "realtime_data \<Rightarrow> bool" where
  "realtime_is_empty data \<longleftrightarrow> rd_delays_by_trip data = []"

definition realtime_trip_count :: "realtime_data \<Rightarrow> usize" where
  "realtime_trip_count data = length (rd_delays_by_trip data)"

definition delay_seconds :: "realtime_data \<Rightarrow> string \<Rightarrow> string \<Rightarrow> i32" where
  "delay_seconds data trip_id stop_id =
     (case Option.bind (rd_delays_by_trip_stop data trip_id) (\<lambda>stops. stops stop_id) of
        Some d \<Rightarrow> d
      | None \<Rightarrow> (case map_of (rd_delays_by_trip data) trip_id of Some d \<Rightarrow> d | None \<Rightarrow> 0))"

definition apply_delay :: "u32 \<Rightarrow> i32 \<Rightarrow> u32" where
  "apply_delay scheduled_time d =
     (if 0 \<le> d then saturating_add scheduled_time (word_of_int d)
      else saturating_sub scheduled_time (word_of_int \<bar>d\<bar>))"

definition adjusted_time :: "realtime_data \<Rightarrow> string \<Rightarrow> string \<Rightarrow> u32 \<Rightarrow> u32" where
  "adjusted_time data trip_id stop_id scheduled_time =
     apply_delay scheduled_time (delay_seconds data trip_id stop_id)"

definition join_bounds :: "delay_bounds \<Rightarrow> delay_bounds \<Rightarrow> delay_bounds" where
  "join_bounds a b = \<lparr>
     db_max_positive_seconds = max (db_max_positive_seconds a) (db_max_positive_seconds b),
     db_max_early_seconds = max (db_max_early_seconds a) (db_max_early_seconds b)\<rparr>"

definition delay_bounds_by_route :: "realtime_data \<Rightarrow> raptor_timetable \<Rightarrow> delay_bounds list option" where
  "delay_bounds_by_route data tt =
     (if tt_trip_route_indices tt = [] then
        Some (replicate (length (tt_routes tt))
          \<lparr>db_max_positive_seconds = rd_max_positive_delay_seconds data,
           db_max_early_seconds = rd_max_early_departure_seconds data\<rparr>)
      else
        foldM (\<lambda>bounds_by_route (trip_id, trip_bounds).
            case map_of (tt_trip_route_indices tt) trip_id of
              None \<Rightarrow> Some bounds_by_route
            | Some route_index \<Rightarrow> do {
                route_bounds \<leftarrow> idx bounds_by_route route_index;
                upd bounds_by_route route_index (join_bounds route_bounds trip_bounds) })
          (replicate (length (tt_routes tt)) default_bounds) (rd_delay_bounds_by_trip data))"

end
