(* ===== verification/Raptor_Realtime.thy ===== *)
theory Raptor_Realtime
  imports Raptor_Model
begin

text \<open>
  The realtime delays (\<open>RaptorRealtimeData\<close>): every stored delay is clamped to six hours and
  lies inside the bounds recorded for its trip, and the bounds of a route cover its trips. The
  locale \<open>delay_source\<close> states what the two timetable scans rely on: how far a time can move.
\<close>

section \<open>Applying one delay\<close>

definition delay_within :: "delay_bounds \<Rightarrow> i32 \<Rightarrow> bool" where
  "delay_within b d \<longleftrightarrow> d \<le> uint (db_max_positive_seconds b) \<and> - d \<le> uint (db_max_early_seconds b)"

definition wider :: "delay_bounds \<Rightarrow> delay_bounds \<Rightarrow> bool" where
  "wider b c \<longleftrightarrow> db_max_positive_seconds c \<le> db_max_positive_seconds b \<and>
                db_max_early_seconds c \<le> db_max_early_seconds b"

lemma wider_refl [simp]: "wider b b"
  by (simp add: wider_def)

lemma wider_join [simp]: "wider (join_bounds a b) a" "wider (join_bounds a b) b"
  by (simp_all add: wider_def join_bounds_def)

lemma wider_trans: "wider a b \<Longrightarrow> wider b c \<Longrightarrow> wider a c"
  by (auto simp: wider_def)

lemma delay_within_wider: "wider b c \<Longrightarrow> delay_within c d \<Longrightarrow> delay_within b d"
  by (auto simp: wider_def delay_within_def word_le_def)

lemma delay_within_0 [simp]: "delay_within b 0"
  by (simp add: delay_within_def)

lemma uint_u32_bound: "uint (b :: u32) < 2 ^ 32"
  using uint_lt2p [of b] by simp

lemma unat_word_of_int_u32: "0 \<le> d \<Longrightarrow> d \<le> uint (b :: u32) \<Longrightarrow> unat (word_of_int d :: u32) = nat d"
  using uint_u32_bound [of b]
  by (simp add: unsigned_of_int take_bit_eq_mod nat_mod_as_int flip: nat_int_comparison)

lemma apply_delay_bounds:
  assumes "delay_within b d"
  shows "unat (apply_delay t d) \<le> unat t + unat (db_max_positive_seconds b)"
    and "unat t \<le> unat (apply_delay t d) + unat (db_max_early_seconds b)"
proof -
  let ?p = "db_max_positive_seconds b" and ?e = "db_max_early_seconds b"
  have p: "d \<le> uint ?p \<Longrightarrow> nat d \<le> unat ?p" and e: "- d \<le> uint ?e \<Longrightarrow> nat (- d) \<le> unat ?e"
    by (simp_all add: nat_le_iff)
  show "unat (apply_delay t d) \<le> unat t + unat ?p"
    using assms p unat_word_of_int_u32 [of d ?p]
    by (auto simp: apply_delay_def delay_within_def u32_arith)
  show "unat t \<le> unat (apply_delay t d) + unat ?e"
    using assms e unat_word_of_int_u32 [of "- d" ?e] unat_u32_bound [of t]
    by (auto simp: apply_delay_def delay_within_def u32_arith)
qed

section \<open>The interface: times move only within bounds\<close>

locale delay_source =
  fixes inv :: "'d \<Rightarrow> bool"
    and adjust :: "'d \<Rightarrow> string \<Rightarrow> string \<Rightarrow> u32 \<Rightarrow> u32"
    and bounds_of :: "'d \<Rightarrow> string \<Rightarrow> delay_bounds"
  assumes adjust_upper:
      "inv d \<Longrightarrow> unat (adjust d trip stop t) \<le> unat t + unat (db_max_positive_seconds (bounds_of d trip))"
    and adjust_lower:
      "inv d \<Longrightarrow> unat t \<le> unat (adjust d trip stop t) + unat (db_max_early_seconds (bounds_of d trip))"
begin

lemma departs_too_early:
  assumes "inv d" and "wider b (bounds_of d trip)"
    and "t < saturating_sub ready (db_max_positive_seconds b)"
  shows "adjust d trip stop t < ready"
  using adjust_upper [OF assms(1), of trip stop t] assms(2,3)
  by (auto simp: wider_def word_less_nat_alt word_le_nat_alt u32_arith)

lemma departs_no_earlier:
  assumes "inv d" and "wider b (bounds_of d trip)"
    and "best \<le> saturating_sub t (db_max_early_seconds b)"
  shows "best \<le> adjust d trip stop t"
  using adjust_lower [OF assms(1), of t trip stop] assms(2,3)
  by (auto simp: wider_def word_le_nat_alt u32_arith)

lemma departs_too_late:
  assumes "inv d" and "wider b (bounds_of d trip)"
    and "saturating_add latest (db_max_early_seconds b) < t"
  shows "latest < adjust d trip stop t"
  using adjust_lower [OF assms(1), of t trip stop] assms(2,3) unat_u32_bound [of t]
  by (auto simp: wider_def word_less_nat_alt word_le_nat_alt u32_arith)

lemma adjust_id:
  assumes "inv d" and "wider b (bounds_of d trip)"
    and "db_max_positive_seconds b = 0" and "db_max_early_seconds b = 0"
  shows "adjust d trip stop t = t"
  using adjust_lower [OF assms(1), of t trip stop] adjust_upper [OF assms(1), of trip stop t] assms(2-4)
  by (simp add: wider_def word_unat_eq_iff)

end

section \<open>The provider\<close>

definition trip_bounds :: "realtime_data \<Rightarrow> string \<Rightarrow> delay_bounds" where
  "trip_bounds data trip =
     (case map_of (rd_delay_bounds_by_trip data) trip of None \<Rightarrow> default_bounds | Some b \<Rightarrow> b)"

definition realtime_ok :: "realtime_data \<Rightarrow> bool" where
  "realtime_ok data \<longleftrightarrow>
     (\<forall>trip d. map_of (rd_delays_by_trip data) trip = Some d \<longrightarrow> delay_within (trip_bounds data trip) d) \<and>
     (\<forall>trip m stop d. rd_delays_by_trip_stop data trip = Some m \<and> m stop = Some d \<longrightarrow>
        delay_within (trip_bounds data trip) d) \<and>
     wider \<lparr>db_max_positive_seconds = rd_max_positive_delay_seconds data,
            db_max_early_seconds = rd_max_early_departure_seconds data\<rparr> default_bounds \<and>
     (\<forall>trip. wider \<lparr>db_max_positive_seconds = rd_max_positive_delay_seconds data,
            db_max_early_seconds = rd_max_early_departure_seconds data\<rparr> (trip_bounds data trip))"

lemma map_of_or_insert: "map_of (or_insert k v al) j = (if j = k \<and> map_of al k = None then Some v else map_of al j)"
  by (auto simp: or_insert_def map_add_def split: option.splits)

lemma clamp_range: "lo \<le> hi \<Longrightarrow> lo \<le> clamp_i32 lo hi x \<and> clamp_i32 lo hi x \<le> hi"
  by (simp add: clamp_i32_def)

lemma uint_word_of_int_small: "0 \<le> d \<Longrightarrow> d \<le> 21600 \<Longrightarrow> uint (word_of_int d :: u32) = d"
  by (simp add: unsigned_of_int take_bit_eq_mod)

lemma widen_bounds_wider [simp]: "wider (widen_bounds d b) b"
  by (simp add: wider_def widen_bounds_def)

lemma widen_bounds_covers:
  assumes "- 21600 \<le> d" and "d \<le> 21600"
  shows "delay_within (widen_bounds d b) d"
proof (cases "0 \<le> d")
  case True
  then have "word_of_int d \<le> db_max_positive_seconds (widen_bounds d b)"
    by (simp add: widen_bounds_def)
  with True assms uint_word_of_int_small [of d] show ?thesis
    by (simp add: delay_within_def word_le_def order_trans [of "- d" 0])
next
  case False
  then have "word_of_int (- d) \<le> db_max_early_seconds (widen_bounds d b)"
    by (simp add: widen_bounds_def)
  with False assms uint_word_of_int_small [of "- d"] show ?thesis
    by (simp add: delay_within_def word_le_def order_trans [of d 0])
qed

lemma trip_bounds_apply_update:
  "trip_bounds (apply_update data u) trip =
     (if trip = ru_trip_id u
      then widen_bounds (clamp_i32 (- MAX_REALTIME_ROUTING_DELAY_SECONDS)
             MAX_REALTIME_ROUTING_DELAY_SECONDS (ru_delay_seconds u)) (trip_bounds data trip)
      else trip_bounds data trip)"
  by (auto simp: trip_bounds_def apply_update_def Let_def update_conv)

lemma realtime_ok_default: "realtime_ok default_realtime"
  by (simp add: realtime_ok_def default_realtime_def trip_bounds_def wider_def default_bounds_def)

lemma realtime_ok_apply_update:
  assumes ok: "realtime_ok data"
  shows "realtime_ok (apply_update data u)"
proof -
  define d where "d = clamp_i32 (- MAX_REALTIME_ROUTING_DELAY_SECONDS)
             MAX_REALTIME_ROUTING_DELAY_SECONDS (ru_delay_seconds u)"
  have d: "- 21600 \<le> d" "d \<le> 21600"
    unfolding d_def using clamp_range [of "- 21600" 21600]
    by (simp_all add: MAX_REALTIME_ROUTING_DELAY_SECONDS_def)
  note cover = widen_bounds_covers [OF d]
  have tb: "trip_bounds (apply_update data u) trip =
     (if trip = ru_trip_id u then widen_bounds d (trip_bounds data trip) else trip_bounds data trip)" for trip
    by (simp add: trip_bounds_apply_update d_def)
  have keep: "wider (trip_bounds (apply_update data u) trip) (trip_bounds data trip)" for trip
    using cover by (simp add: tb)
  have new: "delay_within (trip_bounds (apply_update data u) (ru_trip_id u)) d"
    using cover by (simp add: tb)
  have old: "delay_within (trip_bounds data trip) x \<Longrightarrow>
      delay_within (trip_bounds (apply_update data u) trip) x" for trip x
    using keep delay_within_wider by blast
  have 1: "map_of (rd_delays_by_trip (apply_update data u)) trip = Some x \<Longrightarrow>
      delay_within (trip_bounds (apply_update data u) trip) x" for trip x
    using ok new old [of trip x]
    by (auto simp: apply_update_def Let_def d_def [symmetric] map_of_or_insert realtime_ok_def
        split: if_splits)
  have 2: "rd_delays_by_trip_stop (apply_update data u) trip = Some m \<Longrightarrow> m stop = Some x \<Longrightarrow>
      delay_within (trip_bounds (apply_update data u) trip) x" for trip m stop x
    using ok new old [of trip x]
    by (auto simp: apply_update_def Let_def d_def [symmetric] realtime_ok_def
        split: if_splits option.splits)
  have 3: "wider \<lparr>db_max_positive_seconds = rd_max_positive_delay_seconds (apply_update data u),
            db_max_early_seconds = rd_max_early_departure_seconds (apply_update data u)\<rparr>
          (trip_bounds (apply_update data u) trip)" for trip
  proof -
    have "rd_max_positive_delay_seconds (apply_update data u)
            = max (rd_max_positive_delay_seconds data) (word_of_int (max d 0))"
      and "rd_max_early_departure_seconds (apply_update data u)
            = max (rd_max_early_departure_seconds data) (word_of_int (max (- d) 0))"
      by (simp_all add: apply_update_def Let_def d_def)
    moreover have "db_max_positive_seconds (trip_bounds data trip) \<le> rd_max_positive_delay_seconds data"
      and "db_max_early_seconds (trip_bounds data trip) \<le> rd_max_early_departure_seconds data"
      using ok by (simp_all add: realtime_ok_def wider_def)
    ultimately show ?thesis
      by (cases "trip = ru_trip_id u")
         (simp_all add: tb wider_def widen_bounds_def max.mono max.coboundedI1 del: max.bounded_iff)
  qed
  show ?thesis
    unfolding realtime_ok_def using 1 2 3 ok
    by (auto simp: realtime_ok_def wider_def default_bounds_def)
qed

lemma realtime_ok_from_updates: "realtime_ok (from_updates us)"
proof -
  have "realtime_ok data \<Longrightarrow> realtime_ok (foldl apply_update data us)" for data
    by (induction us arbitrary: data) (auto intro: realtime_ok_apply_update)
  then show ?thesis by (simp add: from_updates_def realtime_ok_default)
qed

lemma delay_seconds_within: "realtime_ok data \<Longrightarrow> delay_within (trip_bounds data trip) (delay_seconds data trip stop)"
  by (auto simp: delay_seconds_def realtime_ok_def split: option.splits bind_splits)

interpretation rt: delay_source realtime_ok adjusted_time trip_bounds
  by unfold_locales (simp_all add: adjusted_time_def apply_delay_bounds delay_seconds_within)

end
