(* ===== verification/Raptor_Timetable.thy ===== *)
theory Raptor_Timetable
  imports Raptor_Model
begin

text \<open>
  \<open>RaptorTimetable::new\<close> with its helpers, step by step: stop numbering, grouping of trips by
  route, mode and stop sequence, partition into routes whose trips never overtake each other, the
  departure indices of every stop of a route, and the stop, transfer and trip indices.

  The groups leave a \<open>HashMap\<close> through \<open>into_values()\<close>; the order in which they come out is the
  parameter \<open>hash_order\<close>.
\<close>

section \<open>Stop numbering\<close>

fun intern_stop :: "(string \<rightharpoonup> usize) \<times> string list \<Rightarrow> string \<Rightarrow> (string \<rightharpoonup> usize) \<times> string list" where
  "intern_stop (stop_indices, stops) stop_id =
     (if stop_indices stop_id = None then (stop_indices(stop_id \<mapsto> length stops), stops @ [stop_id])
      else (stop_indices, stops))"

definition mentioned_stops :: "raptor_trip list \<Rightarrow> transfer list \<Rightarrow> string list" where
  "mentioned_stops trips transfers =
     concat (map (\<lambda>trip. map rst_stop_id (rt_stop_times trip)) trips) @
     concat (map (\<lambda>transfer. [tr_from_stop_id transfer, tr_to_stop_id transfer]) transfers)"

definition number_stops :: "raptor_trip list \<Rightarrow> transfer list \<Rightarrow> (string \<rightharpoonup> usize) \<times> string list" where
  "number_stops trips transfers = foldl intern_stop (Map.empty, []) (mentioned_stops trips transfers)"

section \<open>Grouping\<close>

type_synonym route_key = "string \<times> transport_mode \<times> string list"

definition trip_key :: "raptor_trip \<Rightarrow> route_key" where
  "trip_key trip = (rt_route_id trip, rt_mode trip, map rst_stop_id (rt_stop_times trip))"

fun add_to_group :: "raptor_trip \<Rightarrow> (route_key \<times> raptor_trip list) list \<Rightarrow> (route_key \<times> raptor_trip list) list" where
  "add_to_group trip [] = [(trip_key trip, [trip])]"
| "add_to_group trip ((key, trips) # groups) =
     (if key = trip_key trip then (key, trips @ [trip]) # groups
      else (key, trips) # add_to_group trip groups)"

definition group_trips :: "raptor_trip list \<Rightarrow> (route_key \<times> raptor_trip list) list" where
  "group_trips trips = foldl (\<lambda>groups trip. add_to_group trip groups) [] trips"

section \<open>Partition into non-overtaking routes\<close>

definition raptor_trip_precedes :: "raptor_trip \<Rightarrow> raptor_trip \<Rightarrow> bool" where
  "raptor_trip_precedes left right =
     list_all (\<lambda>(l, r). rst_arrival_time l \<le> rst_arrival_time r \<and> rst_departure_time l \<le> rst_departure_time r)
       (zip (rt_stop_times left) (rt_stop_times right))"

definition trip_sort_key :: "raptor_trip \<Rightarrow> u32 \<times> u32 \<times> string" where
  "trip_sort_key trip = (rst_departure_time (hd (rt_stop_times trip)),
     rst_arrival_time (hd (rt_stop_times trip)), rt_trip_id trip)"

text \<open>\<open>sort_by\<close> compares only when there are two elements or more; each then takes part in a
  comparison, which reads \<open>stop_times[0]\<close>.\<close>

definition sort_group :: "raptor_trip list \<Rightarrow> raptor_trip list option" where
  "sort_group trips =
     (if 2 \<le> length trips \<and> (\<exists>trip \<in> set trips. rt_stop_times trip = []) then None
      else Some (sort_key trip_sort_key trips))"

fun windows_all :: "('a \<Rightarrow> 'a \<Rightarrow> bool) \<Rightarrow> 'a list \<Rightarrow> bool" where
  "windows_all p (x # y # zs) = (p x y \<and> windows_all p (y # zs))"
| "windows_all p _ = True"

definition last_departure :: "raptor_trip list \<Rightarrow> u32" where
  "last_departure part =
     (case part of [] \<Rightarrow> 0
      | _ \<Rightarrow> (case rt_stop_times (last part) of [] \<Rightarrow> 0 | stop_time # _ \<Rightarrow> rst_departure_time stop_time))"

definition compatible_partition :: "raptor_trip list list \<Rightarrow> raptor_trip \<Rightarrow> usize option" where
  "compatible_partition partitions trip =
     max_by_key (\<lambda>index. last_departure (partitions ! index))
       (filter (\<lambda>index. partitions ! index \<noteq> [] \<and> raptor_trip_precedes (last (partitions ! index)) trip)
         [0..<length partitions])"

definition place_trip :: "raptor_trip list list \<Rightarrow> raptor_trip \<Rightarrow> raptor_trip list list" where
  "place_trip partitions trip =
     (case compatible_partition partitions trip of
        Some index \<Rightarrow> partitions[index := partitions ! index @ [trip]]
      | None \<Rightarrow> partitions @ [[trip]])"

definition partition_non_overtaking_trips :: "raptor_trip list \<Rightarrow> raptor_trip list list option" where
  "partition_non_overtaking_trips trips = do {
     trips \<leftarrow> sort_group trips;
     if windows_all raptor_trip_precedes trips then Some [trips]
     else Some (foldl place_trip [] trips) }"

section \<open>Routes\<close>

definition departure_at :: "raptor_trip list \<Rightarrow> usize \<Rightarrow> usize \<Rightarrow> u32" where
  "departure_at trips stop_index trip_index =
     rst_departure_time (rt_stop_times (trips ! trip_index) ! stop_index)"

definition route_departure_indices_by_stop_index :: "raptor_trip list \<Rightarrow> bool \<Rightarrow> usize list list option" where
  "route_departure_indices_by_stop_index trips verified_only =
     (let stop_count = (case trips of [] \<Rightarrow> 0 | trip # _ \<Rightarrow> length (rt_stop_times trip));
          indices = filter (\<lambda>i. \<not> verified_only \<or> rt_service_verified (trips ! i)) [0..<length trips]
      in mapM (\<lambda>stop_index.
           if 2 \<le> length indices \<and> (\<exists>i \<in> set indices. length (rt_stop_times (trips ! i)) \<le> stop_index)
           then None else Some (sort_key (departure_at trips stop_index) indices))
         [0..<stop_count])"

definition first_departure :: "raptor_trip \<Rightarrow> u32" where
  "first_departure trip =
     (case rt_stop_times trip of [] \<Rightarrow> u32_MAX | stop_time # _ \<Rightarrow> rst_departure_time stop_time)"

definition build_route :: "(string \<rightharpoonup> usize) \<Rightarrow> raptor_trip list \<Rightarrow> raptor_route option" where
  "build_route stop_indices trips = do {
     let trips = sort_key first_departure trips;
     departures_by_stop_index \<leftarrow> route_departure_indices_by_stop_index trips False;
     verified_departures_by_stop_index \<leftarrow> route_departure_indices_by_stop_index trips True;
     stop_indices_for_route \<leftarrow>
       mapM (\<lambda>stop_time. stop_indices (rst_stop_id stop_time))
         (case trips of [] \<Rightarrow> [] | trip # _ \<Rightarrow> rt_stop_times trip);
     Some \<lparr>rr_trips = trips, rr_stop_indices = stop_indices_for_route,
       rr_departures_by_stop_index = departures_by_stop_index,
       rr_verified_departures_by_stop_index = verified_departures_by_stop_index\<rparr> }"

definition route_sort_key :: "raptor_route \<Rightarrow> string \<times> string" where
  "route_sort_key route = (rt_route_id (hd (rr_trips route)), rt_trip_id (hd (rr_trips route)))"

definition sort_routes :: "raptor_route list \<Rightarrow> raptor_route list option" where
  "sort_routes routes =
     (if 2 \<le> length routes \<and> (\<exists>route \<in> set routes. rr_trips route = []) then None
      else Some (sort_key route_sort_key routes))"

definition build_routes ::
  "(raptor_trip list list \<Rightarrow> raptor_trip list list) \<Rightarrow> (string \<rightharpoonup> usize) \<Rightarrow> raptor_trip list \<Rightarrow> raptor_route list option" where
  "build_routes hash_order stop_indices trips = do {
     partitions \<leftarrow> mapM partition_non_overtaking_trips (hash_order (map snd (group_trips trips)));
     routes \<leftarrow> mapM (build_route stop_indices) (concat partitions);
     sort_routes routes }"

section \<open>Indices over the routes and the transfers\<close>

definition index_trips :: "raptor_route list \<Rightarrow> (string \<times> usize) list" where
  "index_trips routes =
     foldl (\<lambda>al (trip_id, route_index). AList.update trip_id route_index al) []
       (concat (map (\<lambda>(route_index, route). map (\<lambda>trip. (rt_trip_id trip, route_index)) (rr_trips route))
                 (List.enumerate 0 routes)))"

definition route_positions :: "raptor_route list \<Rightarrow> (usize \<times> usize \<times> usize) list" where
  "route_positions routes =
     concat (map (\<lambda>(route_index, route).
         map (\<lambda>(stop_index, stop). (stop, route_index, stop_index)) (List.enumerate 0 (rr_stop_indices route)))
       (List.enumerate 0 routes))"

definition push_at :: "'a list list \<Rightarrow> usize \<times> 'a \<Rightarrow> 'a list list option" where
  "push_at table entry = do {
     row \<leftarrow> idx table (fst entry);
     upd table (fst entry) (row @ [snd entry]) }"

definition index_stop_routes :: "usize \<Rightarrow> raptor_route list \<Rightarrow> (usize \<times> usize) list list option" where
  "index_stop_routes stop_count routes = foldM push_at (replicate stop_count []) (route_positions routes)"

definition add_transfer ::
  "(string \<rightharpoonup> usize) \<Rightarrow> raptor_transfer list list \<times> u32 option list \<Rightarrow> transfer
     \<Rightarrow> (raptor_transfer list list \<times> u32 option list) option" where
  "add_transfer stop_indices state transfer =
     (case (stop_indices (tr_from_stop_id transfer), stop_indices (tr_to_stop_id transfer)) of
        (Some from_stop_index, Some to_stop_index) \<Rightarrow>
          (if from_stop_index = to_stop_index then do {
             current \<leftarrow> idx (snd state) from_stop_index;
             minimum \<leftarrow> upd (snd state) from_stop_index
               (Some (case current of None \<Rightarrow> tr_min_transfer_seconds transfer
                      | Some seconds \<Rightarrow> min seconds (tr_min_transfer_seconds transfer)));
             Some (fst state, minimum) }
           else do {
             table \<leftarrow> push_at (fst state) (from_stop_index,
               \<lparr>rx_from_stop_index = from_stop_index, rx_to_stop_index = to_stop_index,
                rx_min_transfer_seconds = tr_min_transfer_seconds transfer,
                rx_distance_meters = tr_distance_meters transfer,
                rx_walking_geometry = tr_walking_geometry transfer,
                rx_source = tr_source transfer\<rparr>);
             Some (table, snd state) })
      | _ \<Rightarrow> Some state)"

definition index_transfers ::
  "(string \<rightharpoonup> usize) \<Rightarrow> usize \<Rightarrow> transfer list \<Rightarrow> (raptor_transfer list list \<times> u32 option list) option" where
  "index_transfers stop_indices stop_count transfers =
     foldM (add_transfer stop_indices) (replicate stop_count [], replicate stop_count None) transfers"

definition raptor_timetable_new ::
  "(raptor_trip list list \<Rightarrow> raptor_trip list list) \<Rightarrow> raptor_trip list \<Rightarrow> transfer list \<Rightarrow> raptor_timetable option" where
  "raptor_timetable_new hash_order trips transfers = do {
     let (stop_indices, stops) = number_stops trips transfers;
     routes \<leftarrow> build_routes hash_order stop_indices trips;
     stop_routes \<leftarrow> index_stop_routes (length stops) routes;
     tables \<leftarrow> index_transfers stop_indices (length stops) transfers;
     Some \<lparr>tt_stops = stops, tt_stop_indices = stop_indices, tt_routes = routes,
       tt_stop_routes = stop_routes, tt_transfers_by_stop = fst tables,
       tt_minimum_change_seconds_by_stop = snd tables,
       tt_trip_route_indices = index_trips routes, tt_trip_count = length trips,
       tt_has_unverified_services = list_ex (\<lambda>trip. \<not> rt_service_verified trip) trips\<rparr> }"

section \<open>Accessors\<close>

definition trip_count :: "raptor_timetable \<Rightarrow> usize" where
  "trip_count tt = tt_trip_count tt"

definition route_count :: "raptor_timetable \<Rightarrow> usize" where
  "route_count tt = length (tt_routes tt)"

definition max_route_trip_count :: "raptor_timetable \<Rightarrow> usize" where
  "max_route_trip_count tt = foldl max 0 (map (\<lambda>route. length (rr_trips route)) (tt_routes tt))"

definition has_unverified_services :: "raptor_timetable \<Rightarrow> bool" where
  "has_unverified_services tt = tt_has_unverified_services tt"

end
