(* ===== verification/Raptor_Timetable_Props.thy ===== *)
theory Raptor_Timetable_Props
  imports Raptor_Realtime Raptor_Timetable
begin

text \<open>
  Well-formedness of the indexed timetable and the proof that \<open>RaptorTimetable::new\<close> establishes
  it: stops are numbered bijectively, a route holds trips with one stop sequence that never
  overtake each other, its departure indices are sorted permutations, the stop index lists exactly
  the route positions of a stop, and no trip is lost. The locale \<open>departure_index\<close> is what the
  scans over a departure index rely on.
\<close>

section \<open>Sorted indices\<close>

lemma sorted_dropWhile_filter:
  "sorted (map f xs) \<Longrightarrow> dropWhile (\<lambda>x. f x < (t :: 'k :: linorder)) xs = filter (\<lambda>x. t \<le> f x) xs"
  by (induction xs) (auto simp: not_less intro!: filter_True [symmetric] intro: order_trans)

lemma sorted_takeWhile_filter:
  "sorted (map f xs) \<Longrightarrow> takeWhile (\<lambda>x. f x \<le> (t :: 'k :: linorder)) xs = filter (\<lambda>x. f x \<le> t) xs"
proof (induction xs)
  case (Cons a xs)
  show ?case
  proof (cases "f a \<le> t")
    case False
    with Cons.prems have "\<not> f x \<le> t" if "x \<in> set (a # xs)" for x using that by fastforce
    then have "filter (\<lambda>x. f x \<le> t) (a # xs) = []" by (simp only: filter_empty_conv) blast
    with False show ?thesis by simp
  qed (use Cons in auto)
qed simp

locale departure_index =
  fixes valid :: "'r \<Rightarrow> usize \<Rightarrow> bool"
    and index :: "'r \<Rightarrow> usize \<Rightarrow> usize list"
    and departure :: "'r \<Rightarrow> usize \<Rightarrow> usize \<Rightarrow> u32"
  assumes sorted_index: "valid r k \<Longrightarrow> sorted (map (departure r k) (index r k))"
begin

lemma departures_from:
  "valid r k \<Longrightarrow> drop (partition_point (\<lambda>i. departure r k i < t) (index r k)) (index r k)
     = filter (\<lambda>i. t \<le> departure r k i) (index r k)"
  by (simp add: drop_partition_point sorted_dropWhile_filter sorted_index)

lemma departures_from_sorted:
  "valid r k \<Longrightarrow> sorted (map (departure r k) (filter (\<lambda>i. t \<le> departure r k i) (index r k)))"
  by (rule sorted_filter) (rule sorted_index)

end

section \<open>Well-formed routes and timetables\<close>

definition stop_count_of :: "raptor_route \<Rightarrow> usize" where
  "stop_count_of route = length (rr_stop_indices route)"

definition index_ok :: "raptor_trip list \<Rightarrow> usize \<Rightarrow> (raptor_trip \<Rightarrow> bool) \<Rightarrow> usize list list \<Rightarrow> bool" where
  "index_ok trips n keep table \<longleftrightarrow> length table = n \<and>
     (\<forall>k < n. mset (table ! k) = mset (filter (\<lambda>i. keep (trips ! i)) [0..<length trips]) \<and>
        sorted (map (departure_at trips k) (table ! k)))"

definition route_indexed :: "raptor_route \<Rightarrow> bool" where
  "route_indexed route \<longleftrightarrow>
     index_ok (rr_trips route) (stop_count_of route) (\<lambda>_. True) (rr_departures_by_stop_index route) \<and>
     index_ok (rr_trips route) (stop_count_of route) rt_service_verified
       (rr_verified_departures_by_stop_index route)"

definition same_key :: "raptor_trip list \<Rightarrow> bool" where
  "same_key trips \<longleftrightarrow> (\<forall>trip \<in> set trips. trip_key trip = trip_key (hd trips))"

definition never_overtake :: "raptor_trip list \<Rightarrow> bool" where
  "never_overtake trips \<longleftrightarrow> sorted_wrt raptor_trip_precedes trips"

definition route_ok :: "(string \<rightharpoonup> usize) \<Rightarrow> raptor_route \<Rightarrow> bool" where
  "route_ok stop_indices route \<longleftrightarrow>
     rr_trips route \<noteq> [] \<and> same_key (rr_trips route) \<and> never_overtake (rr_trips route) \<and>
     route_indexed route \<and>
     map Some (rr_stop_indices route)
       = map (\<lambda>stop_time. stop_indices (rst_stop_id stop_time)) (rt_stop_times (hd (rr_trips route)))"

definition numbering_ok :: "(string \<rightharpoonup> usize) \<times> string list \<Rightarrow> bool" where
  "numbering_ok state \<longleftrightarrow> distinct (snd state) \<and>
     (\<forall>stop i. fst state stop = Some i \<longleftrightarrow> i < length (snd state) \<and> snd state ! i = stop)"

definition positions_ok :: "raptor_timetable \<Rightarrow> bool" where
  "positions_ok tt \<longleftrightarrow> length (tt_stop_routes tt) = length (tt_stops tt) \<and>
     (\<forall>stop < length (tt_stops tt). set (tt_stop_routes tt ! stop) =
        {(r, k). r < length (tt_routes tt) \<and> k < stop_count_of (tt_routes tt ! r) \<and>
                 rr_stop_indices (tt_routes tt ! r) ! k = stop})"

definition transfers_ok :: "raptor_timetable \<Rightarrow> bool" where
  "transfers_ok tt \<longleftrightarrow> length (tt_transfers_by_stop tt) = length (tt_stops tt) \<and>
     length (tt_minimum_change_seconds_by_stop tt) = length (tt_stops tt) \<and>
     (\<forall>stop < length (tt_stops tt). \<forall>x \<in> set (tt_transfers_by_stop tt ! stop).
        rx_from_stop_index x = stop \<and> rx_to_stop_index x < length (tt_stops tt) \<and> rx_to_stop_index x \<noteq> stop)"

definition timetable_ok :: "raptor_timetable \<Rightarrow> bool" where
  "timetable_ok tt \<longleftrightarrow>
     numbering_ok (tt_stop_indices tt, tt_stops tt) \<and>
     (\<forall>route \<in> set (tt_routes tt). route_ok (tt_stop_indices tt) route) \<and>
     positions_ok tt \<and> transfers_ok tt \<and>
     (\<forall>trip r. map_of (tt_trip_route_indices tt) trip = Some r \<longrightarrow> r < length (tt_routes tt))"

interpretation all_departures: departure_index
  "\<lambda>route k. route_indexed route \<and> k < stop_count_of route"
  "\<lambda>route k. rr_departures_by_stop_index route ! k" "\<lambda>route. departure_at (rr_trips route)"
  by unfold_locales (auto simp: route_indexed_def index_ok_def)

interpretation verified_departures: departure_index
  "\<lambda>route k. route_indexed route \<and> k < stop_count_of route"
  "\<lambda>route k. rr_verified_departures_by_stop_index route ! k" "\<lambda>route. departure_at (rr_trips route)"
  by unfold_locales (auto simp: route_indexed_def index_ok_def)

section \<open>Numbering the stops\<close>

lemma numbering_ok_intern: "numbering_ok state \<Longrightarrow> numbering_ok (intern_stop state stop)"
proof (cases state)
  case (Pair si ss)
  assume ok: "numbering_ok state"
  show ?thesis
  proof (cases "si stop")
    case None
    have old: "distinct ss" "\<And>s i. si s = Some i \<longleftrightarrow> i < length ss \<and> ss ! i = s"
      using ok Pair by (simp_all add: numbering_ok_def)
    have "stop \<notin> set ss"
    proof
      assume "stop \<in> set ss"
      then obtain i where "i < length ss" "ss ! i = stop" by (auto simp: in_set_conv_nth)
      with old(2) [of stop i] None show False by simp
    qed
    have "(si(stop \<mapsto> length ss)) s = Some i \<longleftrightarrow> i < length (ss @ [stop]) \<and> (ss @ [stop]) ! i = s" for s i
    proof (cases "s = stop")
      case True
      with \<open>stop \<notin> set ss\<close> show ?thesis by (auto simp: nth_append less_Suc_eq)
    next
      case False
      with old(2) [of s i] show ?thesis by (auto simp: nth_append less_Suc_eq)
    qed
    with old(1) \<open>stop \<notin> set ss\<close> None Pair show ?thesis by (simp add: numbering_ok_def)
  qed (use ok Pair in simp)
qed

lemma intern_stop_set: "numbering_ok state \<Longrightarrow> set (snd (intern_stop state stop)) = insert stop (set (snd state))"
  by (cases state) (auto simp: numbering_ok_def in_set_conv_nth)

lemma foldl_intern:
  "numbering_ok state \<Longrightarrow> numbering_ok (foldl intern_stop state ids) \<and>
     set (snd (foldl intern_stop state ids)) = set (snd state) \<union> set ids"
proof (induction ids arbitrary: state)
  case (Cons a ids)
  from numbering_ok_intern [OF Cons.prems, of a] Cons.IH [of "intern_stop state a"]
    intern_stop_set [OF Cons.prems, of a]
  show ?case by auto
qed simp

lemma number_stops_ok: "numbering_ok (number_stops trips transfers)"
  and number_stops_set: "set (snd (number_stops trips transfers)) = set (mentioned_stops trips transfers)"
  using foldl_intern [of "(Map.empty, [])" "mentioned_stops trips transfers"]
  by (simp_all add: number_stops_def numbering_ok_def)

lemma numbering_ok_total: "numbering_ok state \<Longrightarrow> stop \<in> set (snd state) \<Longrightarrow> \<exists>i < length (snd state). fst state stop = Some i"
  by (auto simp: numbering_ok_def in_set_conv_nth)

section \<open>Grouping\<close>

definition groups_ok :: "(route_key \<times> raptor_trip list) list \<Rightarrow> bool" where
  "groups_ok groups \<longleftrightarrow> distinct (map fst groups) \<and>
     (\<forall>(key, trips) \<in> set groups. trips \<noteq> [] \<and> (\<forall>trip \<in> set trips. trip_key trip = key))"

lemma groups_okD:
  "groups_ok groups \<Longrightarrow> (key, trips) \<in> set groups \<Longrightarrow> trips \<noteq> [] \<and> (\<forall>trip \<in> set trips. trip_key trip = key)"
  by (auto simp: groups_ok_def)

lemma fst_add_to_group: "fst ` set (add_to_group trip groups) = insert (trip_key trip) (fst ` set groups)"
  by (induction trip groups rule: add_to_group.induct) auto

lemma groups_ok_add: "groups_ok groups \<Longrightarrow> groups_ok (add_to_group trip groups)"
proof (induction trip groups rule: add_to_group.induct)
  case (2 trip key trips groups)
  then have "groups_ok groups" and "key \<notin> fst ` set groups"
    by (auto simp: groups_ok_def)
  with 2 show ?case by (cases "key = trip_key trip") (simp_all add: groups_ok_def fst_add_to_group)
qed (simp add: groups_ok_def)

lemma mset_add_to_group:
  "mset (concat (map snd (add_to_group trip groups))) = add_mset trip (mset (concat (map snd groups)))"
  by (induction trip groups rule: add_to_group.induct) auto

lemma group_trips_ok: "groups_ok (group_trips trips)"
  and mset_group_trips: "mset (concat (map snd (group_trips trips))) = mset trips"
proof -
  have "groups_ok groups \<Longrightarrow> groups_ok (foldl (\<lambda>groups trip. add_to_group trip groups) groups trips) \<and>
      mset (concat (map snd (foldl (\<lambda>groups trip. add_to_group trip groups) groups trips)))
        = mset (concat (map snd groups)) + mset trips" for groups
    by (induction trips arbitrary: groups) (auto simp: groups_ok_add mset_add_to_group)
  from this [of "[]"] show "groups_ok (group_trips trips)"
    and "mset (concat (map snd (group_trips trips))) = mset trips"
    by (simp_all add: group_trips_def groups_ok_def)
qed

section \<open>Partition\<close>

lemma precedes_refl [simp]: "raptor_trip_precedes t t"
  by (auto simp: raptor_trip_precedes_def list_all_iff zip_same)

lemma precedes_nth:
  assumes "length (rt_stop_times a) = length (rt_stop_times b)"
  shows "raptor_trip_precedes a b \<longleftrightarrow> (\<forall>k < length (rt_stop_times a).
     rst_arrival_time (rt_stop_times a ! k) \<le> rst_arrival_time (rt_stop_times b ! k) \<and>
     rst_departure_time (rt_stop_times a ! k) \<le> rst_departure_time (rt_stop_times b ! k))"
  using assms by (auto simp: raptor_trip_precedes_def list_all_length)

lemma precedes_trans:
  assumes "raptor_trip_precedes a b" and "raptor_trip_precedes b c"
    and "trip_key a = trip_key b" and "trip_key b = trip_key c"
  shows "raptor_trip_precedes a c"
proof -
  have "length (rt_stop_times a) = length (rt_stop_times b)" "length (rt_stop_times b) = length (rt_stop_times c)"
    using assms(3,4) by (auto simp: trip_key_def dest!: map_eq_imp_length_eq)
  with assms(1,2) show ?thesis by (fastforce simp: precedes_nth intro: order_trans)
qed

lemma windows_all_precedes:
  "windows_all raptor_trip_precedes trips \<Longrightarrow> (\<forall>t \<in> set trips. trip_key t = key) \<Longrightarrow> never_overtake trips"
proof (induction "raptor_trip_precedes" trips rule: windows_all.induct)
  case (1 x y zs)
  then have tail: "never_overtake (y # zs)" and xy: "raptor_trip_precedes x y" by simp_all
  have "raptor_trip_precedes x z" if "z \<in> set zs" for z
    using precedes_trans [OF xy, of z] tail that "1.prems" by (auto simp: never_overtake_def)
  with tail xy show ?case by (auto simp: never_overtake_def)
qed (auto simp: never_overtake_def)

definition partition_ok :: "route_key \<Rightarrow> raptor_trip list list \<Rightarrow> bool" where
  "partition_ok key parts \<longleftrightarrow> (\<forall>part \<in> set parts. part \<noteq> [] \<and> (\<forall>t \<in> set part. trip_key t = key) \<and> never_overtake part)"

lemma partition_okD:
  "partition_ok key parts \<Longrightarrow> i < length parts \<Longrightarrow>
     parts ! i \<noteq> [] \<and> (\<forall>t \<in> set (parts ! i). trip_key t = key) \<and> never_overtake (parts ! i)"
  unfolding partition_ok_def by (meson nth_mem)

lemma never_overtake_snoc:
  assumes "never_overtake part" and "part \<noteq> []" and "raptor_trip_precedes (last part) t"
    and key: "\<forall>u \<in> set part. trip_key u = trip_key t"
  shows "never_overtake (part @ [t])"
proof -
  obtain init z where part: "part = init @ [z]" using assms(2) by (cases part rule: rev_cases) auto
  have "raptor_trip_precedes u t" if "u \<in> set init" for u
    using precedes_trans [of u z t] assms(1,3) key part that by (auto simp: never_overtake_def sorted_wrt_append)
  with assms(1,3) part show ?thesis by (auto simp: never_overtake_def sorted_wrt_append)
qed

lemma place_trip_ok:
  assumes ok: "partition_ok key parts" and t: "trip_key t = key"
  shows "partition_ok key (place_trip parts t) \<and>
     mset (concat (place_trip parts t)) = add_mset t (mset (concat parts))"
proof (cases "compatible_partition parts t")
  case None
  with ok t show ?thesis by (auto simp: place_trip_def partition_ok_def never_overtake_def)
next
  case (Some i)
  from max_by_key_Some(1) [OF Some [unfolded compatible_partition_def]]
  have i: "i < length parts" "raptor_trip_precedes (last (parts ! i)) t" by auto
  have "never_overtake (parts ! i @ [t])"
    using partition_okD [OF ok i(1)] t i(2) by (intro never_overtake_snoc) auto
  with ok t partition_okD [OF ok i(1)] have "partition_ok key (parts[i := parts ! i @ [t]])"
    by (auto simp: partition_ok_def dest!: set_update_subset_insert [THEN subsetD])
  moreover have "mset (concat (parts[i := parts ! i @ [t]])) = add_mset t (mset (concat parts))"
    using i(1) by (simp add: upd_conv_take_nth_drop id_take_nth_drop [OF i(1), symmetric])
      (subst (3) id_take_nth_drop [OF i(1)], simp)
  ultimately show ?thesis by (simp add: place_trip_def Some)
qed

lemma foldl_place_trip:
  "partition_ok key parts \<Longrightarrow> (\<forall>t \<in> set trips. trip_key t = key) \<Longrightarrow>
     partition_ok key (foldl place_trip parts trips) \<and>
     mset (concat (foldl place_trip parts trips)) = mset (concat parts) + mset trips"
proof (induction trips arbitrary: parts)
  case (Cons t trips)
  from place_trip_ok [OF Cons.prems(1), of t] Cons.prems(2) Cons.IH [of "place_trip parts t"]
  show ?case by auto
qed simp

lemma partition_correct:
  assumes "partition_non_overtaking_trips trips = Some parts" and "\<forall>t \<in> set trips. trip_key t = key" and "trips \<noteq> []"
  shows "partition_ok key parts" and "mset (concat parts) = mset trips"
proof -
  let ?sorted = "sort_key trip_sort_key trips"
  have key: "\<forall>t \<in> set ?sorted. trip_key t = key" using assms(2) by simp
  from assms(1) consider
      "windows_all raptor_trip_precedes ?sorted" "parts = [?sorted]"
    | "parts = foldl place_trip [] ?sorted"
    by (auto simp: partition_non_overtaking_trips_def sort_group_def split: if_splits)
  then have "partition_ok key parts \<and> mset (concat parts) = mset trips"
  proof cases
    case 1
    have "?sorted \<noteq> []" using assms(3) by (metis length_0_conv length_sort)
    with windows_all_precedes [OF 1(1) key] key 1(2) show ?thesis by (simp add: partition_ok_def)
  next
    case 2
    with foldl_place_trip [of key "[]" ?sorted] key show ?thesis by (simp add: partition_ok_def)
  qed
  then show "partition_ok key parts" and "mset (concat parts) = mset trips" by auto
qed

lemma partition_total:
  "\<forall>t \<in> set trips. rt_stop_times t \<noteq> [] \<Longrightarrow> \<exists>parts. partition_non_overtaking_trips trips = Some parts"
  by (auto simp: partition_non_overtaking_trips_def sort_group_def)

section \<open>Building a route\<close>

lemma same_key_lengths:
  "same_key trips \<Longrightarrow> t \<in> set trips \<Longrightarrow> length (rt_stop_times t) = length (rt_stop_times (hd trips))"
  by (auto simp: same_key_def trip_key_def dest!: map_eq_imp_length_eq)

lemma precedes_first_departure:
  "raptor_trip_precedes a b \<Longrightarrow> length (rt_stop_times a) = length (rt_stop_times b) \<Longrightarrow>
     first_departure a \<le> first_departure b"
  by (cases "rt_stop_times a"; cases "rt_stop_times b")
     (auto simp: raptor_trip_precedes_def first_departure_def)

lemma never_overtake_first_departure:
  assumes "never_overtake trips" and "same_key trips"
  shows "sorted (map first_departure trips)"
proof -
  have "sorted_wrt (\<lambda>a b. first_departure a \<le> first_departure b) trips"
    by (rule sorted_wrt_mono_rel [OF _ assms(1) [unfolded never_overtake_def]])
       (metis assms(2) same_key_lengths precedes_first_departure)
  then show ?thesis by (simp add: sorted_map)
qed

lemma departure_indices_correct:
  assumes "same_key trips" and "trips \<noteq> []"
  shows "\<exists>table. route_departure_indices_by_stop_index trips verified_only = Some table \<and>
     index_ok trips (length (rt_stop_times (hd trips)))
       (\<lambda>t. \<not> verified_only \<or> rt_service_verified t) table"
proof -
  let ?n = "length (rt_stop_times (hd trips))"
  let ?indices = "filter (\<lambda>i. \<not> verified_only \<or> rt_service_verified (trips ! i)) [0..<length trips]"
  have "length (rt_stop_times (trips ! i)) = ?n" if "i \<in> set ?indices" for i
    using that same_key_lengths [OF assms(1), of "trips ! i"] by auto
  then have *: "mapM (\<lambda>k. if 2 \<le> length ?indices \<and> (\<exists>i \<in> set ?indices. length (rt_stop_times (trips ! i)) \<le> k)
      then None else Some (sort_key (departure_at trips k) ?indices)) [0..<?n]
    = Some (map (\<lambda>k. sort_key (departure_at trips k) ?indices) [0..<?n])"
    by (intro mapM_total) force
  from assms(2) have **: "(case trips of [] \<Rightarrow> 0 | trip # _ \<Rightarrow> length (rt_stop_times trip)) = ?n"
    by (cases trips) auto
  show ?thesis
    unfolding route_departure_indices_by_stop_index_def Let_def ** *
    by (simp add: index_ok_def)
qed

lemma build_route_correct:
  assumes part: "part \<noteq> []" "\<forall>t \<in> set part. trip_key t = key" "never_overtake part"
    and num: "\<forall>t \<in> set part. \<forall>st \<in> set (rt_stop_times t). stop_indices (rst_stop_id st) \<noteq> None"
  shows "\<exists>route. build_route stop_indices part = Some route \<and> rr_trips route = part \<and> route_ok stop_indices route"
proof -
  have same: "same_key part" using part(1,2) by (auto simp: same_key_def)
  have sorted: "sort_key first_departure part = part"
    using never_overtake_first_departure [OF part(3) same] by (rule sort_key_id_if_sorted)
  obtain t rest where cons: "part = t # rest" using part(1) by (cases part) auto
  obtain all where all: "route_departure_indices_by_stop_index part False = Some all"
      "index_ok part (length (rt_stop_times t)) (\<lambda>_. True) all"
    using departure_indices_correct [OF same part(1), of False] cons by auto
  obtain ver where ver: "route_departure_indices_by_stop_index part True = Some ver"
      "index_ok part (length (rt_stop_times t)) rt_service_verified ver"
    using departure_indices_correct [OF same part(1), of True] cons by auto
  let ?ids = "map (\<lambda>st. the (stop_indices (rst_stop_id st))) (rt_stop_times t)"
  have ids: "mapM (\<lambda>st. stop_indices (rst_stop_id st)) (rt_stop_times t) = Some ?ids"
    using num cons by (intro mapM_total) auto
  have "build_route stop_indices part = Some \<lparr>rr_trips = part, rr_stop_indices = ?ids,
      rr_departures_by_stop_index = all, rr_verified_departures_by_stop_index = ver\<rparr>"
    using all(1) ver(1) ids sorted cons by (simp add: build_route_def Let_def del: sort_key_simps)
  with part same all(2) ver(2) num cons show ?thesis
    by (auto simp: route_ok_def route_indexed_def stop_count_of_def)
qed

section \<open>The routes of a timetable\<close>

definition group_total :: "raptor_trip list \<Rightarrow> bool" where
  "group_total trips \<longleftrightarrow> (\<forall>t \<in> set trips. rt_stop_times t \<noteq> [])"

definition permuting :: "('a list \<Rightarrow> 'a list) \<Rightarrow> bool" where
  "permuting h \<longleftrightarrow> (\<forall>xs. mset (h xs) = mset xs)"

lemma mapM_collect:
  assumes "\<And>x. x \<in> set xs \<Longrightarrow> \<exists>y. f x = Some y \<and> P x y"
  shows "\<exists>ys. mapM f xs = Some ys \<and> list_all2 P xs ys"
  using assms
proof (induction xs)
  case (Cons x xs)
  from Cons.prems [of x] Cons.IH Cons.prems show ?case by fastforce
qed simp

lemma mset_concat_cong: "mset xss = mset yss \<Longrightarrow> mset (concat xss) = mset (concat yss)"
  by (simp add: mset_concat) (metis mset_map sum_mset_sum_list)

lemma partitions_correct:
  assumes "\<forall>trips \<in> set groups. trips \<noteq> [] \<and> group_total trips \<and> (\<exists>key. \<forall>t \<in> set trips. trip_key t = key)"
  shows "\<exists>parts. mapM partition_non_overtaking_trips groups = Some parts \<and>
     mset (concat (concat parts)) = mset (concat groups) \<and>
     (\<forall>part \<in> set (concat parts). part \<noteq> [] \<and> never_overtake part \<and> (\<exists>key. \<forall>t \<in> set part. trip_key t = key))"
  using assms
proof (induction groups)
  case (Cons trips groups)
  then obtain parts where IH: "mapM partition_non_overtaking_trips groups = Some parts"
     "mset (concat (concat parts)) = mset (concat groups)"
     "\<forall>part \<in> set (concat parts). part \<noteq> [] \<and> never_overtake part \<and> (\<exists>key. \<forall>t \<in> set part. trip_key t = key)"
    by auto
  from Cons.prems obtain key where key: "\<forall>t \<in> set trips. trip_key t = key" "trips \<noteq> []" by auto
  from Cons.prems partition_total [of trips] obtain ps where ps: "partition_non_overtaking_trips trips = Some ps"
    by (auto simp: group_total_def)
  note pc = partition_correct [OF ps key]
  have "\<forall>part \<in> set ps. part \<noteq> [] \<and> never_overtake part \<and> (\<exists>key. \<forall>t \<in> set part. trip_key t = key)"
    using pc(1) unfolding partition_ok_def by blast
  moreover have "mapM partition_non_overtaking_trips (trips # groups) = Some (ps # parts)"
    using ps IH(1) by simp
  moreover have "mset (concat (concat (ps # parts))) = mset (concat (trips # groups))"
    using IH(2) pc(2) by simp
  ultimately show ?case using IH(3) by (intro exI [of _ "ps # parts"]) (simp add: ball_Un)
qed simp

lemma build_routes_correct:
  assumes h: "permuting hash_order" and total: "group_total trips"
    and num: "\<forall>t \<in> set trips. \<forall>st \<in> set (rt_stop_times t). stop_indices (rst_stop_id st) \<noteq> None"
  shows "\<exists>routes. build_routes hash_order stop_indices trips = Some routes \<and>
     (\<forall>route \<in> set routes. route_ok stop_indices route) \<and>
     mset (concat (map rr_trips routes)) = mset trips \<and> sorted (map route_sort_key routes)"
proof -
  let ?groups = "hash_order (map snd (group_trips trips))"
  have ms: "mset ?groups = mset (map snd (group_trips trips))" using h by (simp add: permuting_def)
  then have set_eq: "set ?groups = snd ` set (group_trips trips)" by (metis mset_eq_setD set_map)
  have "mset (concat ?groups) = mset (concat (map snd (group_trips trips)))"
    using ms by (rule mset_concat_cong)
  then have conc: "mset (concat ?groups) = mset trips" by (simp add: mset_group_trips)
  then have mem: "set (concat ?groups) = set trips" by (metis mset_eq_setD)
  have "trips' \<noteq> [] \<and> group_total trips' \<and> (\<exists>key. \<forall>t \<in> set trips'. trip_key t = key)"
    if "trips' \<in> set ?groups" for trips'
  proof -
    have "set trips' \<subseteq> set trips" using mem that by auto
    from that set_eq have "trips' \<in> snd ` set (group_trips trips)" by simp
    then obtain entry where "entry \<in> set (group_trips trips)" "trips' = snd entry" by (rule imageE)
    then have "(fst entry, trips') \<in> set (group_trips trips)" by simp
    note groups_okD [OF group_trips_ok this]
    with \<open>set trips' \<subseteq> set trips\<close> total show ?thesis unfolding group_total_def by blast
  qed
  then obtain parts where parts: "mapM partition_non_overtaking_trips ?groups = Some parts"
     "mset (concat (concat parts)) = mset trips"
     "\<forall>part \<in> set (concat parts). part \<noteq> [] \<and> never_overtake part \<and> (\<exists>key. \<forall>t \<in> set part. trip_key t = key)"
    using partitions_correct [of ?groups] conc by auto
  have sub: "set part \<subseteq> set trips" if "part \<in> set (concat parts)" for part
    using parts(2) that by (metis UN_upper mset_eq_setD set_concat)
  have each: "\<exists>route. build_route stop_indices part = Some route \<and> (rr_trips route = part \<and> route_ok stop_indices route)"
    if "part \<in> set (concat parts)" for part
  proof -
    from parts(3) that obtain key where key: "part \<noteq> []" "\<forall>t \<in> set part. trip_key t = key" "never_overtake part"
      by blast
    have "\<forall>t \<in> set part. \<forall>st \<in> set (rt_stop_times t). stop_indices (rst_stop_id st) \<noteq> None"
      using num sub [OF that] by blast
    from build_route_correct [OF key this] show ?thesis .
  qed
  obtain routes where routes: "mapM (build_route stop_indices) (concat parts) = Some routes"
     "list_all2 (\<lambda>part route. rr_trips route = part \<and> route_ok stop_indices route) (concat parts) routes"
    using mapM_collect [of "concat parts" "build_route stop_indices"
        "\<lambda>part route. rr_trips route = part \<and> route_ok stop_indices route", OF each] by blast
  have ok: "\<forall>route \<in> set routes. route_ok stop_indices route"
    using routes(2) by (auto simp: list_all2_conv_all_nth in_set_conv_nth)
  have trips_eq: "map rr_trips routes = concat parts"
    using routes(2) by (auto simp: list_all2_conv_all_nth intro: nth_equalityI)
  have "sort_routes routes = Some (sort_key route_sort_key routes)"
    using ok by (auto simp: sort_routes_def route_ok_def)
  moreover have "mset (concat (map rr_trips (sort_key route_sort_key routes))) = mset trips"
    using parts(2) trips_eq by (metis mset_concat_cong mset_map mset_sort)
  ultimately show ?thesis using parts(1) routes(1) ok by (simp add: build_routes_def)
qed

section \<open>Indices\<close>

lemma foldM_push_at:
  assumes "\<forall>entry \<in> set entries. fst entry < length table"
  shows "\<exists>result. foldM push_at table entries = Some result \<and> length result = length table \<and>
     (\<forall>i < length table. result ! i = table ! i @ map snd (filter (\<lambda>entry. fst entry = i) entries))"
proof -
  let ?P = "\<lambda>done (rest :: (nat \<times> 'a) list) result. length result = length table \<and>
     (\<forall>i < length table. result ! i = table ! i @ map snd (filter (\<lambda>entry. fst entry = i) done))"
  have "\<exists>result. foldM push_at table entries = Some result \<and> ?P entries [] result"
  proof (rule foldM_total [where P = ?P])
    fix ys x zs s
    assume split: "entries = ys @ x # zs" and P: "?P ys (x # zs) s"
    then have "fst x < length s" using assms by simp
    with P show "\<exists>s'. push_at s x = Some s' \<and> ?P (ys @ [x]) zs s'"
      by (auto simp: push_at_def nth_list_update idx_def upd_def)
  qed simp
  then show ?thesis by simp
qed

lemma set_enumerate_0: "set (List.enumerate 0 xs) = (\<lambda>i. (i, xs ! i)) ` {..<length xs}"
  by (auto simp: in_set_enumerate_eq)

lemma set_route_positions:
  "(stop, r, k) \<in> set (route_positions routes) \<longleftrightarrow>
     r < length routes \<and> k < stop_count_of (routes ! r) \<and> rr_stop_indices (routes ! r) ! k = stop"
  by (auto simp: route_positions_def set_enumerate_0 stop_count_of_def image_image image_iff)

lemma map_of_index_trips_step:
  "map_of (foldl (\<lambda>al (k, v). AList.update k v al) al kvs) = map_of al ++ map_of (rev kvs)"
proof (induction kvs arbitrary: al)
  case (Cons kv kvs)
  then show ?case by (cases kv) (auto simp: update_conv' map_add_def fun_eq_iff split: option.splits)
qed simp

definition trip_entries :: "raptor_route list \<Rightarrow> (string \<times> usize) list" where
  "trip_entries routes = concat (map (\<lambda>(route_index, route). map (\<lambda>trip. (rt_trip_id trip, route_index)) (rr_trips route))
                 (List.enumerate 0 routes))"

lemma set_trip_entries:
  "(trip_id, r) \<in> set (trip_entries routes) \<longleftrightarrow>
     r < length routes \<and> (\<exists>trip \<in> set (rr_trips (routes ! r)). rt_trip_id trip = trip_id)"
  by (auto simp: trip_entries_def set_enumerate_0 image_image image_iff)

lemma map_of_index_trips: "map_of (index_trips routes) = map_of (rev (trip_entries routes))"
  by (simp add: index_trips_def trip_entries_def map_of_index_trips_step)

lemma index_trips_range: "map_of (index_trips routes) trip = Some r \<Longrightarrow> r < length routes"
  using set_trip_entries [of trip r routes] by (auto simp: map_of_index_trips dest!: map_of_SomeD)

lemma fst_trip_entries: "map fst (trip_entries routes) = map rt_trip_id (concat (map rr_trips routes))"
proof -
  have "map fst (concat (map (\<lambda>(i, route). map (\<lambda>trip. (rt_trip_id trip, i)) (rr_trips route)) (List.enumerate n routes)))
      = map rt_trip_id (concat (map rr_trips routes))" for n
    by (induction routes arbitrary: n) auto
  then show ?thesis by (simp add: trip_entries_def)
qed

lemma index_trips_unique:
  assumes "distinct (map rt_trip_id (concat (map rr_trips routes)))"
    and "r < length routes" and "trip \<in> set (rr_trips (routes ! r))"
  shows "map_of (index_trips routes) (rt_trip_id trip) = Some r"
proof -
  have "distinct (map fst (trip_entries routes))" using assms(1) by (simp add: fst_trip_entries)
  then have "distinct (map fst (rev (trip_entries routes)))" by (simp add: rev_map [symmetric])
  moreover have "(rt_trip_id trip, r) \<in> set (rev (trip_entries routes))"
    using assms(2,3) by (auto simp: set_trip_entries)
  ultimately show ?thesis by (simp add: map_of_index_trips)
qed

lemma index_transfers_ok:
  assumes num: "numbering_ok (stop_indices, stops)"
  shows "\<exists>tables. index_transfers stop_indices (length stops) transfers = Some tables \<and>
     length (fst tables) = length stops \<and> length (snd tables) = length stops \<and>
     (\<forall>stop < length stops. \<forall>x \<in> set (fst tables ! stop).
        rx_from_stop_index x = stop \<and> rx_to_stop_index x < length stops \<and> rx_to_stop_index x \<noteq> stop)"
proof -
  let ?P = "\<lambda>tables. length (fst tables) = length stops \<and> length (snd tables) = length stops \<and>
     (\<forall>stop < length stops. \<forall>x \<in> set (fst tables ! stop).
        rx_from_stop_index x = stop \<and> rx_to_stop_index x < length stops \<and> rx_to_stop_index x \<noteq> stop)"
  have range: "i < length stops" if "stop_indices stop = Some i" for stop i
    using num that by (simp add: numbering_ok_def)
  have "\<exists>tables. foldM (add_transfer stop_indices) (replicate (length stops) [], replicate (length stops) None)
      transfers = Some tables \<and> ?P tables"
  proof (rule foldM_total_simple)
    fix t and s :: "raptor_transfer list list \<times> u32 option list"
    assume P: "?P s"
    show "\<exists>s'. add_transfer stop_indices s t = Some s' \<and> ?P s'"
    proof (cases "stop_indices (tr_from_stop_id t)"; cases "stop_indices (tr_to_stop_id t)")
      fix i j assume ij: "stop_indices (tr_from_stop_id t) = Some i" "stop_indices (tr_to_stop_id t) = Some j"
      then have "i < length stops" "j < length stops" using range by auto
      with P ij show ?thesis
        by (auto simp: add_transfer_def push_at_def nth_list_update idx_def upd_def)
    qed (use P in \<open>simp_all add: add_transfer_def\<close>)
  qed simp
  then show ?thesis by (simp add: index_transfers_def)
qed

section \<open>Construction\<close>

lemma trip_stops_numbered:
  assumes "t \<in> set trips" and "st \<in> set (rt_stop_times t)"
  shows "fst (number_stops trips transfers) (rst_stop_id st) \<noteq> None"
proof -
  have "rst_stop_id st \<in> set (snd (number_stops trips transfers))"
    using assms by (auto simp: number_stops_set mentioned_stops_def)
  from numbering_ok_total [OF number_stops_ok this] show ?thesis by auto
qed

lemma timetable_new_exists:
  assumes h: "permuting hash_order" and total: "group_total trips"
  shows "\<exists>tt. raptor_timetable_new hash_order trips transfers = Some tt \<and> timetable_ok tt \<and>
     mset (concat (map rr_trips (tt_routes tt))) = mset trips \<and>
     tt_trip_route_indices tt = index_trips (tt_routes tt) \<and>
     set (tt_stops tt) = set (mentioned_stops trips transfers)"
proof -
  obtain si stops where ns: "number_stops trips transfers = (si, stops)" by fastforce
  have num: "numbering_ok (si, stops)" using number_stops_ok [of trips transfers] ns by simp
  have "\<forall>t \<in> set trips. \<forall>st \<in> set (rt_stop_times t). si (rst_stop_id st) \<noteq> None"
    using trip_stops_numbered [of _ trips _ transfers] ns by (metis fst_conv)
  from build_routes_correct [OF h total this] obtain routes where
    routes: "build_routes hash_order si trips = Some routes" "\<forall>route \<in> set routes. route_ok si route"
      "mset (concat (map rr_trips routes)) = mset trips" by blast
  have "rr_stop_indices (routes ! r) ! k < length stops"
    if "r < length routes" "k < stop_count_of (routes ! r)" for r k
  proof -
    have *: "map Some (rr_stop_indices (routes ! r))
        = map (\<lambda>st. si (rst_stop_id st)) (rt_stop_times (hd (rr_trips (routes ! r))))"
      using routes(2) that(1) by (simp add: route_ok_def)
    then have "k < length (rt_stop_times (hd (rr_trips (routes ! r))))"
      using that(2) by (metis length_map stop_count_of_def)
    with * that(2) have "si (rst_stop_id (rt_stop_times (hd (rr_trips (routes ! r))) ! k))
        = Some (rr_stop_indices (routes ! r) ! k)"
      by (metis nth_map stop_count_of_def)
    with num show ?thesis by (simp add: numbering_ok_def)
  qed
  then have "\<forall>entry \<in> set (route_positions routes). fst entry < length (replicate (length stops) [])"
    by (auto simp: set_route_positions)
  from foldM_push_at [OF this] obtain positions where
    positions: "index_stop_routes (length stops) routes = Some positions" "length positions = length stops"
      "\<forall>i < length stops. positions ! i = map snd (filter (\<lambda>entry. fst entry = i) (route_positions routes))"
    by (auto simp: index_stop_routes_def)
  have pos_set: "set (positions ! i) = {(r, k). r < length routes \<and> k < stop_count_of (routes ! r) \<and>
      rr_stop_indices (routes ! r) ! k = i}" if "i < length stops" for i
    using positions(3) that by (force simp: set_route_positions [symmetric] image_iff)
  from index_transfers_ok [OF num, of transfers] obtain tables where
    tables: "index_transfers si (length stops) transfers = Some tables"
      "length (fst tables) = length stops" "length (snd tables) = length stops"
      "\<forall>stop < length stops. \<forall>x \<in> set (fst tables ! stop).
        rx_from_stop_index x = stop \<and> rx_to_stop_index x < length stops \<and> rx_to_stop_index x \<noteq> stop"
    by blast
  have "set stops = set (mentioned_stops trips transfers)"
    using number_stops_set [of trips transfers] ns by simp
  with ns num routes positions(1,2) pos_set tables index_trips_range [of routes] show ?thesis
    by (simp add: raptor_timetable_new_def timetable_ok_def positions_ok_def transfers_ok_def)
qed

section \<open>Delay bounds of the routes\<close>

definition trips_indexed :: "raptor_timetable \<Rightarrow> bool" where
  "trips_indexed tt \<longleftrightarrow> (\<forall>r < length (tt_routes tt). \<forall>trip \<in> set (rr_trips (tt_routes tt ! r)).
     map_of (tt_trip_route_indices tt) (rt_trip_id trip) = Some r)"

definition bounds_sound :: "realtime_data \<Rightarrow> raptor_timetable \<Rightarrow> delay_bounds list \<Rightarrow> bool" where
  "bounds_sound data tt bounds \<longleftrightarrow> length bounds = length (tt_routes tt) \<and>
     (\<forall>r < length (tt_routes tt). \<forall>trip \<in> set (rr_trips (tt_routes tt ! r)).
        wider (bounds ! r) (trip_bounds data (rt_trip_id trip)))"

lemma wider_default [simp]: "wider b default_bounds"
  by (simp add: wider_def default_bounds_def)

lemma delay_bounds_by_route_sound:
  assumes ok: "timetable_ok tt" and data: "realtime_ok data" and indexed: "trips_indexed tt"
  shows "\<exists>bounds. delay_bounds_by_route data tt = Some bounds \<and> bounds_sound data tt bounds"
proof (cases "tt_trip_route_indices tt = []")
  case True
  then show ?thesis
    using data by (simp add: delay_bounds_by_route_def bounds_sound_def realtime_ok_def)
next
  case False
  let ?step = "\<lambda>bounds_by_route (trip_id, trip_bounds).
            case map_of (tt_trip_route_indices tt) trip_id of
              None \<Rightarrow> Some bounds_by_route
            | Some route_index \<Rightarrow> do {
                route_bounds \<leftarrow> idx bounds_by_route route_index;
                upd bounds_by_route route_index (join_bounds route_bounds trip_bounds) }"
  let ?P = "\<lambda>(done :: (string \<times> delay_bounds) list) (rest :: (string \<times> delay_bounds) list) bs.
     length bs = length (tt_routes tt) \<and>
     (\<forall>(trip, b) \<in> set done. \<forall>r. map_of (tt_trip_route_indices tt) trip = Some r \<longrightarrow> wider (bs ! r) b)"
  have "\<exists>bs. foldM ?step (replicate (length (tt_routes tt)) default_bounds) (rd_delay_bounds_by_trip data) = Some bs
      \<and> ?P (rd_delay_bounds_by_trip data) [] bs"
  proof (rule foldM_total [where P = ?P])
    fix ys zs :: "(string \<times> delay_bounds) list" and x :: "string \<times> delay_bounds" and bs
    assume P: "?P ys (x # zs) bs"
    obtain trip b where x: "x = (trip, b)" by (cases x)
    show "\<exists>bs'. ?step bs x = Some bs' \<and> ?P (ys @ [x]) zs bs'"
    proof (cases "map_of (tt_trip_route_indices tt) trip")
      case None
      with P x show ?thesis by auto
    next
      case (Some r)
      then have r: "r < length bs" using ok P by (simp add: timetable_ok_def)
      have "wider (bs[r := join_bounds (bs ! r) b] ! r') c" if "wider (bs ! r') c" for r' c
        using that r wider_trans [OF wider_join(1)] by (cases "r' = r") auto
      with P r Some x show ?thesis by (fastforce simp: idx_def upd_def)
    qed
  qed simp
  then obtain bs where bs: "delay_bounds_by_route data tt = Some bs" "?P (rd_delay_bounds_by_trip data) [] bs"
    using False by (auto simp: delay_bounds_by_route_def)
  have "wider (bs ! r) (trip_bounds data (rt_trip_id trip))"
    if "r < length (tt_routes tt)" "trip \<in> set (rr_trips (tt_routes tt ! r))" for r trip
    using bs(2) indexed that
    by (auto simp: trip_bounds_def trips_indexed_def split: option.splits dest!: map_of_SomeD)
  with bs show ?thesis by (auto simp: bounds_sound_def)
qed

section \<open>Independence of the hash order\<close>

lemma sort_key_mset_cong:
  assumes "mset xs = mset ys" and inj: "inj_on f (set xs)"
  shows "sort_key f xs = sort_key f ys"
proof (rule properties_for_sort_key)
  show "mset (sort_key f ys) = mset xs" using assms(1) by simp
  show "sorted (map f (sort_key f ys))" by simp
  have set_eq: "set xs = set ys" using assms(1) by (rule mset_eq_setD)
  fix k assume "k \<in> set (sort_key f ys)"
  then have k: "k \<in> set xs" using set_eq by simp
  have rep: "filter (\<lambda>x. f k = f x) zs = replicate (count (mset zs) k) k" if "set zs = set xs" for zs
  proof -
    have "filter (\<lambda>x. f k = f x) zs = filter (\<lambda>x. k = x) zs"
      using that inj k by (intro filter_cong) (auto dest: inj_onD)
    then show ?thesis by (simp add: replicate_count_mset_eq_filter_eq)
  qed
  show "filter (\<lambda>x. f k = f x) (sort_key f ys) = filter (\<lambda>x. f k = f x) xs"
    using rep [of xs] rep [of "sort_key f ys"] set_eq assms(1) by simp
qed

lemma mapM_fun: "mapM f xs = Some ys \<Longrightarrow> ys = map (\<lambda>x. the (f x)) xs"
  by (auto simp: mapM_Some intro: nth_equalityI)

lemma mapM_mset_None: "mset xs = mset ys \<Longrightarrow> mapM f xs = None \<longleftrightarrow> mapM f ys = None"
  by (simp add: mapM_None) (metis mset_eq_setD)

definition unique_trip_ids :: "raptor_trip list \<Rightarrow> bool" where
  "unique_trip_ids trips \<longleftrightarrow> distinct (map rt_trip_id trips)"

lemma unique_mset: "mset xs = mset ys \<Longrightarrow> unique_trip_ids xs \<Longrightarrow> unique_trip_ids ys"
  unfolding unique_trip_ids_def by (metis mset_eq_imp_distinct_iff mset_map)

lemma distinct_concat_disjoint:
  assumes "distinct (map g (concat xss))" and "xs \<in> set xss" "ys \<in> set xss" "x \<in> set xs" "y \<in> set ys" "g x = g y"
  shows "xs = ys"
  using assms
proof (induction xss)
  case (Cons zs xss)
  then show ?case by (fastforce simp: image_iff disjoint_iff)
qed simp

lemma route_key_inj:
  assumes "unique_trip_ids (concat (map rr_trips routes))" and "\<forall>route \<in> set routes. route_ok si route"
    and det: "\<And>r r'. r \<in> set routes \<Longrightarrow> r' \<in> set routes \<Longrightarrow> rr_trips r = rr_trips r' \<Longrightarrow> r = r'"
  shows "inj_on route_sort_key (set routes)"
proof (rule inj_onI)
  fix r r' assume r: "r \<in> set routes" "r' \<in> set routes" and "route_sort_key r = route_sort_key r'"
  then have ids: "rt_trip_id (hd (rr_trips r)) = rt_trip_id (hd (rr_trips r'))" by (simp add: route_sort_key_def)
  have "rr_trips r = rr_trips r'"
    by (rule distinct_concat_disjoint [OF assms(1) [unfolded unique_trip_ids_def], of _ _ "hd (rr_trips r)" "hd (rr_trips r')"])
       (use r ids assms(2) in \<open>auto simp: route_ok_def\<close>)
  then show "r = r'" by (rule det [OF r])
qed

lemma build_routes_Some:
  "build_routes h si trips = Some routes \<longleftrightarrow>
     (\<exists>parts rs. mapM partition_non_overtaking_trips (h (map snd (group_trips trips))) = Some parts \<and>
        mapM (build_route si) (concat parts) = Some rs \<and> sort_routes rs = Some routes)"
  by (simp add: build_routes_def bind_eq_Some_conv)

lemma build_route_trips: "build_route si part = Some r \<Longrightarrow> rr_trips r = sort_key first_departure part"
  by (auto simp: build_route_def Let_def bind_eq_Some_conv)

lemma build_route_det:
  assumes "build_route si p = Some r" and "build_route si p' = Some r'" and "rr_trips r = rr_trips r'"
  shows "r = r'"
proof -
  have "sort_key first_departure p = sort_key first_departure p'"
    using assms by (simp add: build_route_trips)
  then have "build_route si p = build_route si p'" by (simp add: build_route_def Let_def)
  with assms show ?thesis by simp
qed

lemma build_routes_order_independent:
  assumes h: "permuting h1" "permuting h2" and total: "group_total trips" and unique: "unique_trip_ids trips"
    and num: "\<forall>t \<in> set trips. \<forall>st \<in> set (rt_stop_times t). si (rst_stop_id st) \<noteq> None"
  shows "build_routes h1 si trips = build_routes h2 si trips"
proof -
  let ?g = "\<lambda>h. h (map snd (group_trips trips))"
  let ?F = "\<lambda>x. the (partition_non_overtaking_trips x)" and ?B = "\<lambda>x. the (build_route si x)"
  from build_routes_correct [OF h(1) total num] obtain routes where
    r: "build_routes h1 si trips = Some routes" "\<forall>route \<in> set routes. route_ok si route"
      "mset (concat (map rr_trips routes)) = mset trips" by blast
  from build_routes_correct [OF h(2) total num] obtain routes' where
    r': "build_routes h2 si trips = Some routes'" by blast
  from r(1) obtain parts rs where p: "mapM partition_non_overtaking_trips (?g h1) = Some parts"
      "mapM (build_route si) (concat parts) = Some rs" "sort_routes rs = Some routes"
    unfolding build_routes_Some by blast
  from r'(1) obtain parts' rs' where p': "mapM partition_non_overtaking_trips (?g h2) = Some parts'"
      "mapM (build_route si) (concat parts') = Some rs'" "sort_routes rs' = Some routes'"
    unfolding build_routes_Some by blast
  have s: "routes = sort_key route_sort_key rs" "routes' = sort_key route_sort_key rs'"
    using p(3) p'(3) by (auto simp: sort_routes_def split: if_splits)
  have "mset (?g h1) = mset (?g h2)" using h by (simp add: permuting_def)
  then have "mset parts = mset parts'" using mapM_fun [OF p(1)] mapM_fun [OF p'(1)] by simp
  then have "mset (concat parts) = mset (concat parts')" by (rule mset_concat_cong)
  then have ms: "mset rs = mset rs'" using mapM_fun [OF p(2)] mapM_fun [OF p'(2)] by simp
  have "unique_trip_ids (concat (map rr_trips routes))" using unique_mset [OF r(3) [symmetric] unique] .
  then have "inj_on route_sort_key (set routes)"
  proof (rule route_key_inj [OF _ r(2)])
    fix x y assume "x \<in> set routes" "y \<in> set routes" "rr_trips x = rr_trips y"
    then show "x = y" using mapM_mem [OF p(2)] s(1) build_route_det by (metis set_sort)
  qed
  then have "inj_on route_sort_key (set rs)" using s(1) by simp
  from sort_key_mset_cong [OF ms this] s r(1) r'(1) show ?thesis by simp
qed

end
