(* ===== verification/Raptor_Catch.thy ===== *)
theory Raptor_Catch
  imports Raptor_Timetable_Props
begin

text \<open>
  \<open>earliest_catchable_trip\<close>: the next departure of a route at a stop that a passenger who is ready
  at a given time can still board. The code scans a sorted departure index from the first entry
  that any delay could make catchable and stops at the first entry that no early departure could
  improve on; the theorems show that nothing is lost by either cut.

  A departure index with an entry outside the route counts as a panic here.
\<close>

section \<open>Model\<close>

type_synonym catch = "(raptor_trip \<times> u32) option"

definition call_at :: "raptor_trip list \<Rightarrow> usize \<Rightarrow> usize \<Rightarrow> raptor_stop_time" where
  "call_at trips stop_index trip_index = rt_stop_times (trips ! trip_index) ! stop_index"

definition effective_departure :: "realtime_data \<Rightarrow> raptor_trip \<Rightarrow> raptor_stop_time \<Rightarrow> u32" where
  "effective_departure data trip stop_time =
     adjusted_time data (rt_trip_id trip) (rst_stop_id stop_time) (rst_departure_time stop_time)"

definition effective_arrival :: "realtime_data \<Rightarrow> raptor_trip \<Rightarrow> raptor_stop_time \<Rightarrow> u32" where
  "effective_arrival data trip stop_time =
     adjusted_time data (rt_trip_id trip) (rst_stop_id stop_time) (rst_arrival_time stop_time)"

fun scan_departures ::
  "raptor_trip list \<Rightarrow> usize \<Rightarrow> u32 \<Rightarrow> realtime_data \<Rightarrow> delay_bounds \<Rightarrow> catch \<Rightarrow> usize list \<Rightarrow> catch" where
  "scan_departures trips stop_index ready_time data bounds best [] = best"
| "scan_departures trips stop_index ready_time data bounds best (trip_index # rest) =
     (let trip = trips ! trip_index;
          stop_time = call_at trips stop_index trip_index
      in if (case best of None \<Rightarrow> False
             | Some (_, best_departure) \<Rightarrow>
                 best_departure \<le> saturating_sub (rst_departure_time stop_time) (db_max_early_seconds bounds))
         then best
         else if \<not> rst_pickup_allowed stop_time
         then scan_departures trips stop_index ready_time data bounds best rest
         else (let departure = effective_departure data trip stop_time
               in if ready_time \<le> departure \<and>
                     (case best of None \<Rightarrow> True | Some (_, best_departure) \<Rightarrow> departure < best_departure)
                  then scan_departures trips stop_index ready_time data bounds (Some (trip, departure)) rest
                  else scan_departures trips stop_index ready_time data bounds best rest))"

text \<open>
  The guard on the whole departure table stands for the panics of \<open>trips[trip_index]\<close> and
  \<open>stop_times[stop_index]\<close>: it may report one where the binary search would have skipped the bad
  entry, never the other way round.
\<close>

definition earliest_catchable_trip ::
  "raptor_trip list \<Rightarrow> usize list list \<Rightarrow> usize \<Rightarrow> u32 \<Rightarrow> realtime_data \<Rightarrow> delay_bounds \<Rightarrow> catch option" where
  "earliest_catchable_trip trips departure_indices_by_stop_index stop_index ready_time data delay_bounds =
     (case idx departure_indices_by_stop_index stop_index of
        None \<Rightarrow> Some None
      | Some departure_indices \<Rightarrow>
          if \<exists>i \<in> set departure_indices. length trips \<le> i \<or> length (rt_stop_times (trips ! i)) \<le> stop_index then None
          else if db_max_positive_seconds delay_bounds = 0 \<and> db_max_early_seconds delay_bounds = 0 then
            (let first_candidate = partition_point
                   (\<lambda>i. departure_at trips stop_index i < ready_time) departure_indices
             in Some (map_option (\<lambda>i. (trips ! i, departure_at trips stop_index i))
                  (find (\<lambda>i. rst_pickup_allowed (call_at trips stop_index i))
                     (drop first_candidate departure_indices))))
          else
            (let earliest_scheduled_time = saturating_sub ready_time (db_max_positive_seconds delay_bounds);
                 first_candidate = partition_point
                   (\<lambda>i. departure_at trips stop_index i < earliest_scheduled_time) departure_indices
             in Some (scan_departures trips stop_index ready_time data delay_bounds None
                  (drop first_candidate departure_indices))))"

section \<open>Specification\<close>

text \<open>What "catchable" means, and the earliest of the catchable departures.\<close>

definition catchable :: "raptor_trip list \<Rightarrow> usize \<Rightarrow> u32 \<Rightarrow> realtime_data \<Rightarrow> usize \<Rightarrow> bool" where
  "catchable trips k ready data i \<longleftrightarrow> rst_pickup_allowed (call_at trips k i) \<and>
     ready \<le> effective_departure data (trips ! i) (call_at trips k i)"

definition is_earliest :: "raptor_trip list \<Rightarrow> usize \<Rightarrow> u32 \<Rightarrow> realtime_data \<Rightarrow> usize set \<Rightarrow> catch \<Rightarrow> bool" where
  "is_earliest trips k ready data candidates result \<longleftrightarrow>
     (case result of
        None \<Rightarrow> \<forall>i \<in> candidates. \<not> catchable trips k ready data i
      | Some (trip, departure) \<Rightarrow>
          (\<exists>i \<in> candidates. catchable trips k ready data i \<and> trip = trips ! i \<and>
             departure = effective_departure data (trips ! i) (call_at trips k i)) \<and>
          (\<forall>j \<in> candidates. catchable trips k ready data j \<longrightarrow>
             departure \<le> effective_departure data (trips ! j) (call_at trips k j)))"

lemma departure_at_call: "departure_at trips k i = rst_departure_time (call_at trips k i)"
  by (simp add: departure_at_def call_at_def)

section \<open>The scan\<close>

lemma is_earliest_extend:
  assumes "is_earliest trips k ready data seen best"
    and "\<And>j. j \<in> new \<Longrightarrow> catchable trips k ready data j \<Longrightarrow> (\<exists>t d. best = Some (t, d) \<and>
           d \<le> effective_departure data (trips ! j) (call_at trips k j))"
  shows "is_earliest trips k ready data (seen \<union> new) best"
  using assms by (cases best) (fastforce simp: is_earliest_def)+

lemma is_earliest_improve:
  assumes "is_earliest trips k ready data seen best" and "catchable trips k ready data i"
    and "\<And>t d. best = Some (t, d) \<Longrightarrow> effective_departure data (trips ! i) (call_at trips k i) < d"
  shows "is_earliest trips k ready data (seen \<union> {i})
     (Some (trips ! i, effective_departure data (trips ! i) (call_at trips k i)))"
  using assms by (cases best) (fastforce simp: is_earliest_def)+

lemma scan_departures_correct:
  assumes data: "realtime_ok data"
    and wide: "\<And>i. i \<in> set rest \<Longrightarrow> wider bounds (trip_bounds data (rt_trip_id (trips ! i)))"
    and sorted: "sorted (map (departure_at trips k) rest)"
    and seen: "is_earliest trips k ready data seen best"
  shows "is_earliest trips k ready data (seen \<union> set rest) (scan_departures trips k ready data bounds best rest)"
  using wide sorted seen
proof (induction rest arbitrary: best seen)
  case (Cons i rest)
  let ?call = "call_at trips k i"
  let ?dep = "effective_departure data (trips ! i) ?call"
  let ?stop = "case best of None \<Rightarrow> False | Some (_, best_departure) \<Rightarrow>
     best_departure \<le> saturating_sub (rst_departure_time ?call) (db_max_early_seconds bounds)"
  have next_IH: "is_earliest trips k ready data (seen \<union> {i}) best' \<Longrightarrow>
      is_earliest trips k ready data (seen \<union> set (i # rest)) (scan_departures trips k ready data bounds best' rest)" for best'
    using Cons.IH [of "seen \<union> {i}" best'] Cons.prems(1,2) by simp
  show ?case
  proof (cases ?stop)
    case True
    then obtain t d where best: "best = Some (t, d)"
      and le: "d \<le> saturating_sub (rst_departure_time ?call) (db_max_early_seconds bounds)"
      by (auto split: option.splits)
    have "d \<le> effective_departure data (trips ! j) (call_at trips k j)" if j: "j \<in> set (i # rest)" for j
    proof -
      have "rst_departure_time ?call \<le> rst_departure_time (call_at trips k j)"
        using j Cons.prems(2) by (auto simp: departure_at_call)
      then have "d \<le> saturating_sub (rst_departure_time (call_at trips k j)) (db_max_early_seconds bounds)"
        using le by (auto simp: word_le_nat_alt u32_arith)
      from rt.departs_no_earlier [OF data Cons.prems(1) [OF j] this] show ?thesis
        by (simp add: effective_departure_def)
    qed
    then have "is_earliest trips k ready data (seen \<union> set (i # rest)) best"
      using best by (intro is_earliest_extend [OF Cons.prems(3)]) auto
    with best le show ?thesis by simp
  next
    case go: False
    show ?thesis
    proof (cases "catchable trips k ready data i \<and>
        (case best of None \<Rightarrow> True | Some (_, best_departure) \<Rightarrow> ?dep < best_departure)")
      case True
      then have "is_earliest trips k ready data (seen \<union> {i}) (Some (trips ! i, ?dep))"
        by (intro is_earliest_improve [OF Cons.prems(3)]) auto
      from next_IH [OF this] go True show ?thesis
        by (auto simp: Let_def catchable_def split: option.splits)
    next
      case False
      then have "is_earliest trips k ready data (seen \<union> {i}) best"
        by (intro is_earliest_extend [OF Cons.prems(3)]) (auto simp: not_less split: option.splits)
      from next_IH [OF this] go False show ?thesis
        by (auto simp: Let_def catchable_def split: option.splits)
    qed
  qed
qed simp

lemma earliest_of_filter:
  assumes "is_earliest trips k ready data (set (filter P xs)) result"
    and "\<And>i. i \<in> set xs \<Longrightarrow> \<not> P i \<Longrightarrow> \<not> catchable trips k ready data i"
  shows "is_earliest trips k ready data (set xs) result"
  using assms by (cases result) (fastforce simp: is_earliest_def)+

lemma find_sorted_earliest:
  assumes "sorted (map f xs)"
  shows "case find P xs of None \<Rightarrow> \<forall>x \<in> set xs. \<not> P x
     | Some x \<Rightarrow> x \<in> set xs \<and> P x \<and> (\<forall>y \<in> set xs. P y \<longrightarrow> (f x :: 'k :: linorder) \<le> f y)"
  using assms by (induction xs) (auto split: option.splits)

lemma earliest_catchable_on_index:
  assumes data: "realtime_ok data" and k: "idx table k = Some indices"
    and range: "\<forall>i \<in> set indices. i < length trips \<and> k < length (rt_stop_times (trips ! i))"
    and wide: "\<forall>i \<in> set indices. wider bounds (trip_bounds data (rt_trip_id (trips ! i)))"
    and sorted: "sorted (map (departure_at trips k) indices)"
  shows "\<exists>result. earliest_catchable_trip trips table k ready data bounds = Some result \<and>
     is_earliest trips k ready data (set indices) result"
proof -
  have ok: "\<not> (\<exists>i \<in> set indices. length trips \<le> i \<or> length (rt_stop_times (trips ! i)) \<le> k)"
    using range by force
  show ?thesis
  proof (cases "db_max_positive_seconds bounds = 0 \<and> db_max_early_seconds bounds = 0")
    case True
    have same: "effective_departure data (trips ! i) (call_at trips k i) = departure_at trips k i"
      if "i \<in> set indices" for i
      using rt.adjust_id [OF data, of bounds "rt_trip_id (trips ! i)"] wide that True by (simp add: effective_departure_def departure_at_call)
    let ?from = "filter (\<lambda>i. ready \<le> departure_at trips k i) indices"
    let ?p = "\<lambda>i. rst_pickup_allowed (call_at trips k i)"
    have cut: "drop (partition_point (\<lambda>i. departure_at trips k i < ready) indices) indices = ?from"
      using sorted by (simp add: drop_partition_point sorted_dropWhile_filter)
    have "sorted (map (departure_at trips k) ?from)" using sorted by (rule sorted_filter)
    note first = find_sorted_earliest [OF this, of ?p]
    have "is_earliest trips k ready data (set ?from)
        (map_option (\<lambda>i. (trips ! i, departure_at trips k i)) (find ?p ?from))"
      using first same
      by (auto simp: is_earliest_def catchable_def split: option.splits)
    then have "is_earliest trips k ready data (set indices)
        (map_option (\<lambda>i. (trips ! i, departure_at trips k i)) (find ?p ?from))"
      by (rule earliest_of_filter) (auto simp: catchable_def same)
    with ok True show ?thesis unfolding earliest_catchable_trip_def k by (simp add: cut Let_def)
  next
    case False
    let ?t = "saturating_sub ready (db_max_positive_seconds bounds)"
    let ?from = "filter (\<lambda>i. ?t \<le> departure_at trips k i) indices"
    have cut: "drop (partition_point (\<lambda>i. departure_at trips k i < ?t) indices) indices = ?from"
      using sorted by (simp add: drop_partition_point sorted_dropWhile_filter)
    have "is_earliest trips k ready data ({} \<union> set ?from) (scan_departures trips k ready data bounds None ?from)"
      by (rule scan_departures_correct [OF data])
         (use wide sorted_filter [OF sorted] in \<open>auto simp: is_earliest_def\<close>)
    then have "is_earliest trips k ready data (set ?from) (scan_departures trips k ready data bounds None ?from)"
      by simp
    then have "is_earliest trips k ready data (set indices) (scan_departures trips k ready data bounds None ?from)"
    proof (rule earliest_of_filter)
      fix i assume i: "i \<in> set indices" "\<not> ?t \<le> departure_at trips k i"
      then have "adjusted_time data (rt_trip_id (trips ! i)) (rst_stop_id (call_at trips k i))
          (rst_departure_time (call_at trips k i)) < ready"
        using wide by (intro rt.departs_too_early [OF data]) (auto simp: departure_at_call)
      then show "\<not> catchable trips k ready data i" by (simp add: catchable_def effective_departure_def not_le)
    qed
    with ok False show ?thesis unfolding earliest_catchable_trip_def k by (auto simp: cut Let_def)
  qed
qed

end
