(* ===== verification/Raptor_Search.thy ===== *)
theory Raptor_Search
  imports Raptor_Catch
begin

text \<open>
  The round-based search \<open>raptor_with_stats_excluding_routes\<close> and its helpers. The local variables
  the rounds mutate (\<open>rounds\<close>, \<open>best\<close>, \<open>parents\<close>, \<open>marked\<close>, \<open>marked_flags\<close>,
  \<open>queued_route_positions\<close>, \<open>stats\<close>) are the record \<open>search_state\<close>; the ones fixed before the first
  round are the record \<open>search_env\<close>. Every slice access is written with its panic.
\<close>

section \<open>Requests, parents, state\<close>

record raptor_request =
  rq_from_stop_ids :: "string list"
  rq_to_stop_ids :: "string list"
  rq_extra_transfers :: "transfer list"
  rq_departure_time :: u32
  rq_max_transfers :: u32
  rq_min_transfer_seconds :: u32
  rq_transfer_buffer_seconds :: u32
  rq_modes :: "transport_mode list"
  rq_allow_unverified_services :: bool
  rq_realtime :: realtime_data

text \<open>
  \<open>Ride previous_stop previous_round trip_id route_id mode departure_time arrival_time
  used_official_change_time realtime_applied\<close> and \<open>Walk previous_stop departure_time arrival_time
  distance_meters geometry source\<close>.
\<close>

datatype raptor_parent =
    Ride usize usize string string transport_mode u32 u32 bool bool
  | Walk usize u32 u32 "u32 option" "json option" string

record search_stats =
  stat_rounds :: usize
  stat_routes_scanned :: usize
  stat_marked_stops :: usize

record search_state =
  ss_rounds :: "u32 list list"
  ss_best :: "u32 list"
  ss_parents :: "(usize \<rightharpoonup> raptor_parent) list"
  ss_marked :: "usize list"
  ss_marked_flags :: "bool list"
  ss_queued_route_positions :: "usize list"
  ss_stats :: search_stats

record search_env =
  se_timetable :: raptor_timetable
  se_request :: raptor_request
  se_bounds :: "delay_bounds list"
  se_excluded :: "string list"
  se_extra :: "usize \<rightharpoonup> raptor_transfer list"
  se_request_stop_ids :: "string list"
  se_origins :: "usize list"
  se_targets :: "usize list"
  se_stop_count :: usize
  se_max_rounds :: usize

section \<open>Resolving the stops of a request\<close>

type_synonym resolver = "string list \<times> (string \<rightharpoonup> usize)"

definition resolve_stop_index :: "raptor_timetable \<Rightarrow> resolver \<Rightarrow> string \<Rightarrow> usize \<times> resolver" where
  "resolve_stop_index tt state stop_id =
     (case tt_stop_indices tt stop_id of
        Some index \<Rightarrow> (index, state)
      | None \<Rightarrow> (case snd state stop_id of
            Some index \<Rightarrow> (index, state)
          | None \<Rightarrow> (let index = length (tt_stops tt) + length (fst state)
                     in (index, (fst state @ [stop_id], (snd state)(stop_id \<mapsto> index))))))"

fun resolve_stops :: "raptor_timetable \<Rightarrow> resolver \<Rightarrow> string list \<Rightarrow> usize list \<times> resolver" where
  "resolve_stops tt state [] = ([], state)"
| "resolve_stops tt state (stop_id # ids) =
     (let (index, state) = resolve_stop_index tt state stop_id;
          (indices, state) = resolve_stops tt state ids
      in (index # indices, state))"

fun resolve_transfers :: "raptor_timetable \<Rightarrow> resolver \<Rightarrow> transfer list \<Rightarrow> raptor_transfer list \<times> resolver" where
  "resolve_transfers tt state [] = ([], state)"
| "resolve_transfers tt state (transfer # transfers) =
     (let (from_stop_index, state) = resolve_stop_index tt state (tr_from_stop_id transfer);
          (to_stop_index, state) = resolve_stop_index tt state (tr_to_stop_id transfer);
          (pairs, state) = resolve_transfers tt state transfers
      in (\<lparr>rx_from_stop_index = from_stop_index, rx_to_stop_index = to_stop_index,
           rx_min_transfer_seconds = tr_min_transfer_seconds transfer,
           rx_distance_meters = tr_distance_meters transfer,
           rx_walking_geometry = tr_walking_geometry transfer,
           rx_source = tr_source transfer\<rparr> # pairs, state))"

definition push_extra :: "(usize \<rightharpoonup> raptor_transfer list) \<Rightarrow> raptor_transfer \<Rightarrow> (usize \<rightharpoonup> raptor_transfer list)" where
  "push_extra extra transfer =
     extra(rx_from_stop_index transfer \<mapsto>
       (case extra (rx_from_stop_index transfer) of None \<Rightarrow> [] | Some ts \<Rightarrow> ts) @ [transfer])"

definition search_setup :: "raptor_timetable \<Rightarrow> raptor_request \<Rightarrow> string list \<Rightarrow> search_env option" where
  "search_setup tt request excluded_route_ids = do {
     bounds \<leftarrow> delay_bounds_by_route (rq_realtime request) tt;
     let (from_stop_indices, state) = resolve_stops tt ([], Map.empty) (rq_from_stop_ids request);
     let (target_stops, state) = resolve_stops tt state (rq_to_stop_ids request);
     let (extra_transfer_pairs, state) = resolve_transfers tt state (rq_extra_transfers request);
     Some \<lparr>se_timetable = tt, se_request = request, se_bounds = bounds, se_excluded = excluded_route_ids,
       se_extra = foldl push_extra Map.empty extra_transfer_pairs,
       se_request_stop_ids = fst state,
       se_origins = from_stop_indices,
       se_targets = remdups_adj (sort target_stops),
       se_stop_count = length (tt_stops tt) + length (fst state),
       se_max_rounds = unat (rq_max_transfers request) + 1\<rparr> }"

section \<open>Labels\<close>

definition mark_raptor_stop :: "usize \<Rightarrow> search_state \<Rightarrow> search_state option" where
  "mark_raptor_stop stop st = do {
     flag \<leftarrow> idx (ss_marked_flags st) stop;
     if \<not> flag then do {
       flags \<leftarrow> upd (ss_marked_flags st) stop True;
       Some (st\<lparr>ss_marked_flags := flags, ss_marked := ss_marked st @ [stop]\<rparr>) }
     else Some st }"

definition label_at :: "search_state \<Rightarrow> usize \<Rightarrow> usize \<Rightarrow> u32 option" where
  "label_at st rnd stop = do { row \<leftarrow> idx (ss_rounds st) rnd; idx row stop }"

text \<open>\<open>rounds[round][stop] = time; best[stop] = time;\<close>\<close>

definition set_label :: "usize \<Rightarrow> usize \<Rightarrow> u32 \<Rightarrow> search_state \<Rightarrow> search_state option" where
  "set_label rnd stop time st = do {
     row \<leftarrow> idx (ss_rounds st) rnd;
     row \<leftarrow> upd row stop time;
     rounds \<leftarrow> upd (ss_rounds st) rnd row;
     best \<leftarrow> upd (ss_best st) stop time;
     Some (st\<lparr>ss_rounds := rounds, ss_best := best\<rparr>) }"

definition insert_parent :: "usize \<Rightarrow> usize \<Rightarrow> raptor_parent \<Rightarrow> search_state \<Rightarrow> search_state option" where
  "insert_parent rnd stop parent st = do {
     parents \<leftarrow> idx (ss_parents st) rnd;
     all_parents \<leftarrow> upd (ss_parents st) rnd (parents(stop \<mapsto> parent));
     Some (st\<lparr>ss_parents := all_parents\<rparr>) }"

definition initial_state :: "search_env \<Rightarrow> search_state" where
  "initial_state env = \<lparr>
     ss_rounds = replicate (se_max_rounds env + 1) (replicate (se_stop_count env) u32_MAX),
     ss_best = replicate (se_stop_count env) u32_MAX,
     ss_parents = replicate (se_max_rounds env + 1) Map.empty,
     ss_marked = [],
     ss_marked_flags = replicate (se_stop_count env) False,
     ss_queued_route_positions = replicate (length (tt_routes (se_timetable env))) usize_MAX,
     ss_stats = \<lparr>stat_rounds = 0, stat_routes_scanned = 0, stat_marked_stops = 0\<rparr>\<rparr>"

definition seed_origin :: "search_env \<Rightarrow> search_state \<Rightarrow> usize \<Rightarrow> search_state option" where
  "seed_origin env st stop = do {
     st \<leftarrow> set_label 0 stop (rq_departure_time (se_request env)) st;
     mark_raptor_stop stop st }"

section \<open>Walking transfers\<close>

definition transfers_from :: "search_env \<Rightarrow> usize \<Rightarrow> raptor_transfer list" where
  "transfers_from env stop =
     (case idx (tt_transfers_by_stop (se_timetable env)) stop of None \<Rightarrow> [] | Some ts \<Rightarrow> ts) @
     (case se_extra env stop of None \<Rightarrow> [] | Some ts \<Rightarrow> ts)"

definition relax_edge ::
  "usize \<Rightarrow> u32 \<Rightarrow> usize \<Rightarrow> u32 \<Rightarrow> usize list \<times> search_state \<Rightarrow> raptor_transfer \<Rightarrow> (usize list \<times> search_state) option" where
  "relax_edge rnd best_target from departure_time qs transfer =
     (let arrival_time = saturating_add departure_time (rx_min_transfer_seconds transfer);
          stop = rx_to_stop_index transfer; st = snd qs
      in if best_target \<le> arrival_time then Some qs
         else do {
           known \<leftarrow> idx (ss_best st) stop;
           if known \<le> arrival_time then Some qs
           else do {
             st \<leftarrow> set_label rnd stop arrival_time st;
             st \<leftarrow> mark_raptor_stop stop st;
             st \<leftarrow> insert_parent rnd stop
               (Walk from departure_time arrival_time (rx_distance_meters transfer)
                  (rx_walking_geometry transfer) (rx_source transfer)) st;
             Some (fst qs @ [stop], st) } })"

definition best_sum :: "search_state \<Rightarrow> nat" where
  "best_sum st = sum_list (map unat (ss_best st))"

lemma set_label_Some:
  "set_label rnd stop time st = Some st' \<longleftrightarrow>
     rnd < length (ss_rounds st) \<and> stop < length (ss_rounds st ! rnd) \<and> stop < length (ss_best st) \<and>
     st' = st\<lparr>ss_rounds := (ss_rounds st)[rnd := (ss_rounds st ! rnd)[stop := time]],
              ss_best := (ss_best st)[stop := time]\<rparr>"
  by (auto simp: set_label_def bind_eq_Some_conv)

lemma mark_raptor_stop_Some:
  "mark_raptor_stop stop st = Some st' \<longleftrightarrow> stop < length (ss_marked_flags st) \<and>
     st' = (if ss_marked_flags st ! stop then st
            else st\<lparr>ss_marked_flags := (ss_marked_flags st)[stop := True], ss_marked := ss_marked st @ [stop]\<rparr>)"
  by (auto simp: mark_raptor_stop_def bind_eq_Some_conv)

lemma insert_parent_Some:
  "insert_parent rnd stop parent st = Some st' \<longleftrightarrow> rnd < length (ss_parents st) \<and>
     st' = st\<lparr>ss_parents := (ss_parents st)[rnd := (ss_parents st ! rnd)(stop \<mapsto> parent)]\<rparr>"
  by (auto simp: insert_parent_def bind_eq_Some_conv)

lemmas label_ops_Some = set_label_Some mark_raptor_stop_Some insert_parent_Some

lemma sum_unat_update:
  "i < length xs \<Longrightarrow> x < xs ! i \<Longrightarrow> sum_list (map unat (xs[i := x])) < sum_list (map unat (xs :: u32 list))"
proof (induction xs arbitrary: i)
  case (Cons a xs)
  then show ?case by (cases i) (auto simp: word_less_nat_alt)
qed simp

lemma best_sum_set:
  "ss_best st' = (ss_best st)[i := x] \<Longrightarrow> i < length (ss_best st) \<Longrightarrow> x < ss_best st ! i \<Longrightarrow> best_sum st' < best_sum st"
  by (simp add: best_sum_def sum_unat_update)

lemma relax_edge_decreases:
  assumes "relax_edge rnd best_target from dep qs t = Some qs'"
  shows "qs' = qs \<or> best_sum (snd qs') < best_sum (snd qs)"
proof (cases "qs' = qs")
  case False
  define arr where "arr = saturating_add dep (rx_min_transfer_seconds t)"
  from assms False obtain s1 s2 s3 where steps:
      "rx_to_stop_index t < length (ss_best (snd qs))" "arr < ss_best (snd qs) ! rx_to_stop_index t"
      "set_label rnd (rx_to_stop_index t) arr (snd qs) = Some s1"
      "mark_raptor_stop (rx_to_stop_index t) s1 = Some s2"
      "insert_parent rnd (rx_to_stop_index t) (Walk from dep arr (rx_distance_meters t)
         (rx_walking_geometry t) (rx_source t)) s2 = Some s3" "snd qs' = s3"
    by (auto simp: relax_edge_def Let_def arr_def bind_eq_Some_conv not_le split: if_splits)
  then have "ss_best s3 = (ss_best (snd qs))[rx_to_stop_index t := arr]"
    by (auto simp: label_ops_Some)
  with steps best_sum_set [of s3 "snd qs"] show ?thesis by simp
qed simp

lemma relax_edges_decrease:
  assumes "foldM (relax_edge rnd best_target from dep) qs ts = Some qs'"
  shows "qs' = qs \<or> best_sum (snd qs') < best_sum (snd qs)"
  using assms
proof (rule foldM_invariant [where P = "\<lambda>s. s = qs \<or> best_sum (snd s) < best_sum (snd qs)"])
  fix t s s' assume "s = qs \<or> best_sum (snd s) < best_sum (snd qs)" "relax_edge rnd best_target from dep s t = Some s'"
  with relax_edge_decreases [of rnd best_target "from" dep s t s']
  show "s' = qs \<or> best_sum (snd s') < best_sum (snd qs)" by auto
qed simp

text \<open>
  The work list \<open>while let Some(from) = queue.pop()\<close>. Every edge that is taken lowers an entry of
  \<open>best\<close>; an element that lowers none leaves the queue shorter.
\<close>

function relax_loop ::
  "search_env \<Rightarrow> usize \<Rightarrow> u32 \<Rightarrow> usize list \<Rightarrow> search_state \<Rightarrow> search_state option" where
  "relax_loop env rnd best_target queue st =
     (if queue = [] then Some st
      else (case label_at st rnd (last queue) of
          None \<Rightarrow> None
        | Some departure_time \<Rightarrow>
            if departure_time = u32_MAX then relax_loop env rnd best_target (butlast queue) st
            else (case foldM (relax_edge rnd best_target (last queue) departure_time) (butlast queue, st)
                         (transfers_from env (last queue)) of
                None \<Rightarrow> None
              | Some (queue', st') \<Rightarrow> relax_loop env rnd best_target queue' st')))"
  by pat_completeness auto
termination
proof (relation "measures [\<lambda>(env, rnd, best_target, queue, st). best_sum st,
                           \<lambda>(env, rnd, best_target, queue, st). length queue]", goal_cases)
  case (3 env rnd best_target queue st departure_time pair queue' st')
  with relax_edges_decrease [OF 3(4)] show ?case by auto
qed auto

declare relax_loop.simps [simp del]

definition relax_raptor_transfers :: "search_env \<Rightarrow> usize \<Rightarrow> u32 \<Rightarrow> search_state \<Rightarrow> search_state option" where
  "relax_raptor_transfers env rnd best_target st = relax_loop env rnd best_target (ss_marked st) st"

section \<open>Scanning a route\<close>

type_synonym current_trip = "(raptor_trip \<times> usize \<times> bool) option"

definition try_alight ::
  "search_env \<Rightarrow> usize \<Rightarrow> u32 \<Rightarrow> raptor_route \<Rightarrow> usize \<Rightarrow> usize \<Rightarrow> current_trip \<Rightarrow> search_state \<Rightarrow> search_state option" where
  "try_alight env rnd best_target route index stop_index current st =
     (case current of
        None \<Rightarrow> Some st
      | Some (trip, board_index, used_official_change_time) \<Rightarrow> do {
          stop_time \<leftarrow> idx (rt_stop_times trip) index;
          if \<not> rst_drop_off_allowed stop_time then Some st
          else do {
            let arrival = effective_arrival (rq_realtime (se_request env)) trip stop_time;
            if \<not> arrival < best_target then Some st
            else do {
              known \<leftarrow> idx (ss_best st) stop_index;
              if \<not> arrival < known then Some st
              else do {
                boarded_at \<leftarrow> idx (rt_stop_times trip) board_index;
                let departure = effective_departure (rq_realtime (se_request env)) trip boarded_at;
                boarded_stop \<leftarrow> idx (rr_stop_indices route) board_index;
                st \<leftarrow> set_label rnd stop_index arrival st;
                st \<leftarrow> mark_raptor_stop stop_index st;
                insert_parent rnd stop_index
                  (Ride boarded_stop (rnd - 1) (rt_trip_id trip) (rt_route_id trip) (rt_mode trip)
                     (rst_departure_time boarded_at) (rst_arrival_time stop_time)
                     used_official_change_time
                     (departure \<noteq> rst_departure_time boarded_at \<or> arrival \<noteq> rst_arrival_time stop_time)) st } } } })"

definition minimum_change_seconds :: "raptor_timetable \<Rightarrow> usize \<Rightarrow> u32 option" where
  "minimum_change_seconds tt stop_index =
     (case idx (tt_minimum_change_seconds_by_stop tt) stop_index of None \<Rightarrow> None | Some seconds \<Rightarrow> seconds)"

definition transfer_slack :: "search_env \<Rightarrow> usize \<Rightarrow> usize \<Rightarrow> raptor_parent option \<Rightarrow> u32 \<times> bool" where
  "transfer_slack env rnd stop_index parent =
     (let buffer = rq_transfer_buffer_seconds (se_request env);
          minimum = rq_min_transfer_seconds (se_request env)
      in case parent of
        None \<Rightarrow> if rnd = 1 then (0, False) else (saturating_add minimum buffer, False)
      | Some (Walk _ _ _ _ _ _) \<Rightarrow> (buffer, False)
      | Some (Ride _ _ _ _ _ _ _ _ _) \<Rightarrow>
          (case minimum_change_seconds (se_timetable env) stop_index of
             Some seconds \<Rightarrow> (saturating_add seconds buffer, True)
           | None \<Rightarrow> (saturating_add minimum buffer, False)))"

definition departure_table :: "search_env \<Rightarrow> raptor_route \<Rightarrow> usize list list" where
  "departure_table env route =
     (if rq_allow_unverified_services (se_request env) then rr_departures_by_stop_index route
      else rr_verified_departures_by_stop_index route)"

definition try_board ::
  "search_env \<Rightarrow> usize \<Rightarrow> usize \<Rightarrow> raptor_route \<Rightarrow> usize \<Rightarrow> usize \<Rightarrow> search_state \<Rightarrow> current_trip \<Rightarrow> current_trip option" where
  "try_board env rnd route_index route index stop_index st current = do {
     previous_arrival \<leftarrow> label_at st (rnd - 1) stop_index;
     if previous_arrival = u32_MAX then Some current
     else do {
       parents \<leftarrow> idx (ss_parents st) (rnd - 1);
       let (slack, used_official_change_time) = transfer_slack env rnd stop_index (parents stop_index);
       let ready_time = saturating_add previous_arrival slack;
       bounds \<leftarrow> idx (se_bounds env) route_index;
       catch \<leftarrow> earliest_catchable_trip (rr_trips route) (departure_table env route) index ready_time
                 (rq_realtime (se_request env)) bounds;
       (case catch of
          None \<Rightarrow> Some current
        | Some (candidate, departure) \<Rightarrow>
            (case current of
               None \<Rightarrow> Some (Some (candidate, index, used_official_change_time))
             | Some (trip, _, _) \<Rightarrow> do {
                 current_stop_time \<leftarrow> idx (rt_stop_times trip) index;
                 if departure < effective_departure (rq_realtime (se_request env)) trip current_stop_time
                 then Some (Some (candidate, index, used_official_change_time))
                 else Some current })) } }"

definition scan_position ::
  "search_env \<Rightarrow> usize \<Rightarrow> u32 \<Rightarrow> usize \<Rightarrow> raptor_route \<Rightarrow> current_trip \<times> search_state \<Rightarrow> usize
     \<Rightarrow> (current_trip \<times> search_state) option" where
  "scan_position env rnd best_target route_index route state index = do {
     stop_index \<leftarrow> idx (rr_stop_indices route) index;
     st \<leftarrow> try_alight env rnd best_target route index stop_index (fst state) (snd state);
     current \<leftarrow> try_board env rnd route_index route index stop_index st (fst state);
     Some (current, st) }"

definition scan_route ::
  "search_env \<Rightarrow> usize \<Rightarrow> u32 \<Rightarrow> search_state \<Rightarrow> usize \<times> usize \<Rightarrow> search_state option" where
  "scan_route env rnd best_target st entry = do {
     let st = st\<lparr>ss_stats := (ss_stats st)\<lparr>stat_routes_scanned := stat_routes_scanned (ss_stats st) + 1\<rparr>\<rparr>;
     route \<leftarrow> idx (tt_routes (se_timetable env)) (fst entry);
     first \<leftarrow> idx (rr_trips route) 0;
     if rt_route_id first \<in> set (se_excluded env) then Some st
     else if rq_modes (se_request env) \<noteq> [] \<and> rt_mode first \<notin> set (rq_modes (se_request env)) then Some st
     else do {
       result \<leftarrow> foldM (scan_position env rnd best_target (fst entry) route) (None, st)
                  [snd entry..<length (rt_stop_times first)];
       Some (snd result) } }"

section \<open>Rounds\<close>

text \<open>One \<open>(route, position)\<close> of a marked stop: queue the route, or move its start forward.\<close>

definition queue_route ::
  "usize list \<times> (usize \<times> usize) list \<Rightarrow> usize \<times> usize \<Rightarrow> (usize list \<times> (usize \<times> usize) list) option" where
  "queue_route state entry =
     (let (queued, routes_to_scan) = state; (route_index, stop_index) = entry
      in do {
        position \<leftarrow> idx queued route_index;
        if position = usize_MAX then do {
          queued \<leftarrow> upd queued route_index (length routes_to_scan);
          Some (queued, routes_to_scan @ [(route_index, stop_index)]) }
        else do {
          known \<leftarrow> idx routes_to_scan position;
          if stop_index < snd known then do {
            routes_to_scan \<leftarrow> upd routes_to_scan position (fst known, stop_index);
            Some (queued, routes_to_scan) }
          else Some (queued, routes_to_scan) } })"

definition stop_routes_of :: "raptor_timetable \<Rightarrow> usize \<Rightarrow> (usize \<times> usize) list" where
  "stop_routes_of tt stop = (case idx (tt_stop_routes tt) stop of None \<Rightarrow> [] | Some entries \<Rightarrow> entries)"

definition collect_routes ::
  "search_env \<Rightarrow> usize list \<Rightarrow> usize list \<Rightarrow> (usize list \<times> (usize \<times> usize) list) option" where
  "collect_routes env previous_marked queued = do {
     (queued, routes_to_scan) \<leftarrow>
       foldM queue_route (queued, []) (concat (map (stop_routes_of (se_timetable env)) previous_marked));
     queued \<leftarrow> foldM (\<lambda>queued entry. upd queued (fst entry) usize_MAX) queued routes_to_scan;
     Some (queued, routes_to_scan) }"

definition best_target_time :: "search_env \<Rightarrow> search_state \<Rightarrow> u32 option" where
  "best_target_time env st =
     map_option (\<lambda>times. case min_by_key id times of None \<Rightarrow> u32_MAX | Some time \<Rightarrow> time)
       (mapM (idx (ss_best st)) (se_targets env))"

definition clear_marks :: "search_state \<Rightarrow> search_state option" where
  "clear_marks st = do {
     flags \<leftarrow> foldM (\<lambda>flags stop. upd flags stop False) (ss_marked_flags st) (ss_marked st);
     Some (st\<lparr>ss_marked := [], ss_marked_flags := flags\<rparr>) }"

definition raptor_round :: "search_env \<Rightarrow> usize \<Rightarrow> search_state \<Rightarrow> search_state option" where
  "raptor_round env rnd st = do {
     let st = st\<lparr>ss_stats := (ss_stats st)\<lparr>stat_rounds := stat_rounds (ss_stats st) + 1,
          stat_marked_stops := stat_marked_stops (ss_stats st) + length (ss_marked st)\<rparr>\<rparr>;
     let previous_marked = ss_marked st;
     st \<leftarrow> clear_marks st;
     (queued, routes_to_scan) \<leftarrow> collect_routes env previous_marked (ss_queued_route_positions st);
     let st = st\<lparr>ss_queued_route_positions := queued\<rparr>;
     best_target \<leftarrow> best_target_time env st;
     st \<leftarrow> foldM (scan_route env rnd best_target) st routes_to_scan;
     best_target \<leftarrow> best_target_time env st;
     relax_raptor_transfers env rnd best_target st }"

fun raptor_rounds :: "search_env \<Rightarrow> usize list \<Rightarrow> search_state \<Rightarrow> search_state option" where
  "raptor_rounds env [] st = Some st"
| "raptor_rounds env (rnd # rnds) st =
     (if ss_marked st = [] then Some st
      else (case raptor_round env rnd st of None \<Rightarrow> None | Some st' \<Rightarrow> raptor_rounds env rnds st'))"

definition raptor_search :: "search_env \<Rightarrow> search_state option" where
  "raptor_search env = do {
     st \<leftarrow> foldM (seed_origin env) (initial_state env) (se_origins env);
     st \<leftarrow> relax_raptor_transfers env 0 u32_MAX st;
     raptor_rounds env [1..<Suc (se_max_rounds env)] st }"

section \<open>Journeys\<close>

definition raptor_stop_id :: "raptor_timetable \<Rightarrow> string list \<Rightarrow> usize \<Rightarrow> string" where
  "raptor_stop_id tt request_stop_ids stop =
     (case idx (tt_stops tt) stop of
        Some stop_id \<Rightarrow> stop_id
      | None \<Rightarrow> (case idx request_stop_ids (stop - length (tt_stops tt)) of
            Some stop_id \<Rightarrow> stop_id | None \<Rightarrow> []))"

definition walk_warning :: "u32 option \<Rightarrow> string" where
  "walk_warning distance_meters =
     ''walking_transfer:'' @ show_nat (case distance_meters of None \<Rightarrow> 0 | Some d \<Rightarrow> unat d)"

fun parent_leg :: "raptor_timetable \<Rightarrow> string list \<Rightarrow> usize \<Rightarrow> raptor_parent \<Rightarrow> journey_leg" where
  "parent_leg tt request_stop_ids stop
     (Ride previous_stop previous_round trip_id route_id mode departure_time arrival_time official realtime) =
     \<lparr>leg_from_stop_id = raptor_stop_id tt request_stop_ids previous_stop,
      leg_to_stop_id = raptor_stop_id tt request_stop_ids stop,
      leg_route_id = Some route_id, leg_trip_id = Some trip_id,
      leg_departure_time = departure_time, leg_arrival_time = arrival_time, leg_mode = mode,
      leg_warnings = (if official then [''official_minimum_change_time''] else []) @
                     (if realtime then [''realtime_routing_applied''] else []),
      leg_geometry = None\<rparr>"
| "parent_leg tt request_stop_ids stop
     (Walk previous_stop departure_time arrival_time distance_meters geometry source) =
     \<lparr>leg_from_stop_id = raptor_stop_id tt request_stop_ids previous_stop,
      leg_to_stop_id = raptor_stop_id tt request_stop_ids stop,
      leg_route_id = None, leg_trip_id = None,
      leg_departure_time = departure_time, leg_arrival_time = arrival_time, leg_mode = UnknownMode,
      leg_warnings = [walk_warning distance_meters, ''walking_source:'' @ source],
      leg_geometry = geometry\<rparr>"

fun previous_label :: "usize \<Rightarrow> raptor_parent \<Rightarrow> usize \<times> usize" where
  "previous_label rnd (Ride previous_stop previous_round _ _ _ _ _ _ _) = (previous_round, previous_stop)"
| "previous_label rnd (Walk previous_stop _ _ _ _ _) = (rnd, previous_stop)"

definition parent_of :: "(usize \<rightharpoonup> raptor_parent) list \<Rightarrow> usize \<Rightarrow> usize \<Rightarrow> raptor_parent option" where
  "parent_of parents rnd stop = Option.bind (idx parents rnd) (\<lambda>row. row stop)"

text \<open>
  The \<open>while let\<close> that follows the parents may run forever on an arbitrary parent table; \<open>None\<close>
  is "does not return". The legs come out in travel order, as after the final \<open>reverse\<close>.
\<close>

partial_function (option) follow_parents ::
  "raptor_timetable \<Rightarrow> string list \<Rightarrow> (usize \<rightharpoonup> raptor_parent) list \<Rightarrow> usize \<Rightarrow> usize \<Rightarrow> journey_leg list
     \<Rightarrow> journey_leg list option" where
  "follow_parents tt request_stop_ids parents rnd stop legs =
     (case parent_of parents rnd stop of
        None \<Rightarrow> Some legs
      | Some parent \<Rightarrow>
          follow_parents tt request_stop_ids parents (fst (previous_label rnd parent))
            (snd (previous_label rnd parent)) (parent_leg tt request_stop_ids stop parent # legs))"

declare follow_parents.simps [code]

definition reconstruct_raptor_journey ::
  "raptor_timetable \<Rightarrow> string list \<Rightarrow> usize \<Rightarrow> usize \<Rightarrow> (usize \<rightharpoonup> raptor_parent) list
     \<Rightarrow> journey_leg list option option" where
  "reconstruct_raptor_journey tt request_stop_ids rnd target parents =
     map_option (\<lambda>legs. if legs = [] then None else Some legs)
       (follow_parents tt request_stop_ids parents rnd target [])"

definition is_walk :: "journey_leg \<Rightarrow> bool" where
  "is_walk leg \<longleftrightarrow> leg_route_id leg = None \<and> leg_trip_id leg = None"

definition strip_prefix :: "string \<Rightarrow> string \<Rightarrow> string option" where
  "strip_prefix prefix s = (if take (length prefix) s = prefix then Some (drop (length prefix) s) else None)"

text \<open>The sum of \<open>u32\<close> distances wraps.\<close>

definition journey_walking_distance_meters :: "journey_leg list \<Rightarrow> u32" where
  "journey_walking_distance_meters legs =
     sum_list (List.map_filter parse_u32 (List.map_filter (strip_prefix ''walking_transfer:'')
       (concat (map leg_warnings (filter is_walk legs)))))"

fun align_walks :: "u32 \<Rightarrow> (journey_leg \<times> u32) list \<Rightarrow> journey_leg list" where
  "align_walks next_departure [] = []"
| "align_walks next_departure ((leg, duration) # rest) =
     leg\<lparr>leg_arrival_time := next_departure, leg_departure_time := next_departure - duration\<rparr>
       # align_walks (next_departure - duration) rest"

definition align_leading_walk_to_first_transit_departure :: "journey_leg list \<Rightarrow> journey_leg list" where
  "align_leading_walk_to_first_transit_departure legs =
     (let walks = takeWhile is_walk legs; count = length walks
      in case drop count legs of
        [] \<Rightarrow> legs
      | first_transit # _ \<Rightarrow>
          if count = 0 then legs
          else (case mapM (\<lambda>leg. checked_sub (leg_arrival_time leg) (leg_departure_time leg)) walks of
              None \<Rightarrow> legs
            | Some durations \<Rightarrow>
                (case foldM checked_add 0 durations of
                   None \<Rightarrow> legs
                 | Some total_duration \<Rightarrow>
                     if leg_departure_time first_transit < total_duration then legs
                     else rev (align_walks (leg_departure_time first_transit) (rev (zip walks durations)))
                            @ drop count legs)))"

definition leg_effective_departure :: "search_env \<Rightarrow> journey_leg \<Rightarrow> u32" where
  "leg_effective_departure env leg =
     (case leg_trip_id leg of
        None \<Rightarrow> leg_departure_time leg
      | Some trip_id \<Rightarrow> adjusted_time (rq_realtime (se_request env)) trip_id (leg_from_stop_id leg) (leg_departure_time leg))"

definition round_journey :: "search_env \<Rightarrow> search_state \<Rightarrow> usize \<Rightarrow> journey list option" where
  "round_journey env st rnd = do {
     row \<leftarrow> idx (ss_rounds st) rnd;
     times \<leftarrow> mapM (\<lambda>stop. map_option (Pair stop) (idx row stop)) (se_targets env);
     (case min_by_key snd (filter (\<lambda>(_, time). time \<noteq> u32_MAX) times) of
        None \<Rightarrow> Some []
      | Some (target, arrival_time) \<Rightarrow> do {
          legs \<leftarrow> reconstruct_raptor_journey (se_timetable env) (se_request_stop_ids env) rnd target (ss_parents st);
          (case legs of
             None \<Rightarrow> Some []
           | Some legs \<Rightarrow>
               (let legs = align_leading_walk_to_first_transit_departure legs;
                    departure_time = (case legs of [] \<Rightarrow> rq_departure_time (se_request env)
                                      | leg # _ \<Rightarrow> leg_effective_departure env leg)
                in Some [\<lparr>j_id = [], j_legs = legs, j_departure_time = departure_time,
                     j_arrival_time = arrival_time,
                     j_duration_seconds = saturating_sub arrival_time departure_time,
                     j_transfer_count = of_nat (rnd - 1),
                     j_walking_distance_meters = journey_walking_distance_meters legs,
                     j_realtime_status = UnavailableRt, j_risk_score = Finite 0, j_labels = []\<rparr>])) }) }"

definition raptor_journeys :: "search_env \<Rightarrow> search_state \<Rightarrow> journey list option" where
  "raptor_journeys env st =
     map_option (\<lambda>js. sort_key (\<lambda>j. (j_arrival_time j, j_transfer_count j)) (concat js))
       (mapM (round_journey env st) [1..<Suc (se_max_rounds env)])"

definition raptor_with_stats_excluding_routes ::
  "raptor_timetable \<Rightarrow> raptor_request \<Rightarrow> string list \<Rightarrow> (journey list \<times> search_stats) option" where
  "raptor_with_stats_excluding_routes tt request excluded_route_ids = do {
     env \<leftarrow> search_setup tt request excluded_route_ids;
     st \<leftarrow> raptor_search env;
     journeys \<leftarrow> raptor_journeys env st;
     Some (journeys, ss_stats st) }"

definition raptor_with_stats :: "raptor_timetable \<Rightarrow> raptor_request \<Rightarrow> (journey list \<times> search_stats) option" where
  "raptor_with_stats tt request = raptor_with_stats_excluding_routes tt request []"

definition raptor :: "raptor_timetable \<Rightarrow> raptor_request \<Rightarrow> journey list option" where
  "raptor tt request = map_option fst (raptor_with_stats tt request)"

end
