(* ===== verification/Raptor_Sound.thy ===== *)
theory Raptor_Sound
  imports Raptor_Search
begin

text \<open>
  Soundness of the search. The inductive predicate \<open>reach\<close> says, without reference to the
  algorithm, at which times a passenger can be at which stop after how many rides, honouring
  boarding and alighting rules, modes, exclusions, realtime and the change times. Every label the
  rounds ever write satisfies it, and on a well-formed environment no step panics.
\<close>

section \<open>What can be reached\<close>

datatype arrival_kind = AtOrigin | ByWalk | ByRide

definition kind_of :: "raptor_parent option \<Rightarrow> arrival_kind" where
  "kind_of parent = (case parent of None \<Rightarrow> AtOrigin
     | Some (Walk _ _ _ _ _ _) \<Rightarrow> ByWalk | Some (Ride _ _ _ _ _ _ _ _ _) \<Rightarrow> ByRide)"

definition change_time :: "search_env \<Rightarrow> usize \<Rightarrow> arrival_kind \<Rightarrow> u32" where
  "change_time env stop kind =
     (let buffer = rq_transfer_buffer_seconds (se_request env)
      in case kind of AtOrigin \<Rightarrow> 0 | ByWalk \<Rightarrow> buffer
       | ByRide \<Rightarrow> saturating_add (case minimum_change_seconds (se_timetable env) stop of
             Some seconds \<Rightarrow> seconds | None \<Rightarrow> rq_min_transfer_seconds (se_request env)) buffer)"

definition trip_allowed :: "search_env \<Rightarrow> raptor_trip \<Rightarrow> bool" where
  "trip_allowed env trip \<longleftrightarrow> rt_route_id trip \<notin> set (se_excluded env) \<and>
     (rq_modes (se_request env) = [] \<or> rt_mode trip \<in> set (rq_modes (se_request env))) \<and>
     (rq_allow_unverified_services (se_request env) \<or> rt_service_verified trip)"

definition rideable :: "search_env \<Rightarrow> raptor_route \<Rightarrow> raptor_trip \<Rightarrow> usize \<Rightarrow> usize \<Rightarrow> bool" where
  "rideable env route trip board alight \<longleftrightarrow>
     route \<in> set (tt_routes (se_timetable env)) \<and> trip \<in> set (rr_trips route) \<and> trip_allowed env trip \<and>
     board < alight \<and> alight < length (rt_stop_times trip) \<and>
     rst_pickup_allowed (rt_stop_times trip ! board) \<and> rst_drop_off_allowed (rt_stop_times trip ! alight)"

abbreviation departs :: "search_env \<Rightarrow> raptor_trip \<Rightarrow> usize \<Rightarrow> u32" where
  "departs env trip k \<equiv> effective_departure (rq_realtime (se_request env)) trip (rt_stop_times trip ! k)"

abbreviation arrives :: "search_env \<Rightarrow> raptor_trip \<Rightarrow> usize \<Rightarrow> u32" where
  "arrives env trip k \<equiv> effective_arrival (rq_realtime (se_request env)) trip (rt_stop_times trip ! k)"

inductive reach :: "search_env \<Rightarrow> nat \<Rightarrow> usize \<Rightarrow> u32 \<Rightarrow> arrival_kind \<Rightarrow> bool" for env where
  reach_origin: "stop \<in> set (se_origins env) \<Longrightarrow> reach env 0 stop (rq_departure_time (se_request env)) AtOrigin"
| reach_walk: "reach env rides stop time kind \<Longrightarrow> x \<in> set (transfers_from env stop) \<Longrightarrow>
     reach env rides (rx_to_stop_index x) (saturating_add time (rx_min_transfer_seconds x)) ByWalk"
| reach_ride: "reach env rides stop time kind \<Longrightarrow> rideable env route trip board alight \<Longrightarrow>
     rr_stop_indices route ! board = stop \<Longrightarrow>
     saturating_add time (change_time env stop kind) \<le> departs env trip board \<Longrightarrow>
     reach env (Suc rides) (rr_stop_indices route ! alight) (arrives env trip alight) ByRide"

inductive_cases reach_origin_cases: "reach env rides stop time AtOrigin"

inductive_simps reach_walk_simp: "reach env rides stop time ByWalk"

lemma reach_origin_rides: "reach env rides stop time AtOrigin \<Longrightarrow> rides = 0"
  by (auto elim: reach_origin_cases)

lemma transfer_slack_change_time:
  assumes "reach env (rnd - 1) stop time (kind_of parent)" and "1 \<le> rnd"
  shows "fst (transfer_slack env rnd stop parent) = change_time env stop (kind_of parent)"
proof (cases parent)
  case None
  with assms(1) have "rnd - 1 = 0" by (auto simp: kind_of_def dest: reach_origin_rides)
  with assms(2) None show ?thesis by (simp add: transfer_slack_def change_time_def kind_of_def)
next
  case (Some p)
  then show ?thesis
    by (cases p) (auto simp: transfer_slack_def change_time_def kind_of_def Let_def split: option.splits)
qed

section \<open>Well-formed environments and states\<close>

definition env_ok :: "search_env \<Rightarrow> bool" where
  "env_ok env \<longleftrightarrow> timetable_ok (se_timetable env) \<and> realtime_ok (rq_realtime (se_request env)) \<and>
     bounds_sound (rq_realtime (se_request env)) (se_timetable env) (se_bounds env) \<and>
     length (tt_routes (se_timetable env)) < usize_MAX \<and>
     length (tt_stops (se_timetable env)) \<le> se_stop_count env \<and>
     set (se_origins env) \<subseteq> {..<se_stop_count env} \<and> set (se_targets env) \<subseteq> {..<se_stop_count env} \<and>
     (\<forall>stop x. x \<in> set (transfers_from env stop) \<longrightarrow> rx_to_stop_index x < se_stop_count env)"

definition dims :: "search_env \<Rightarrow> search_state \<Rightarrow> bool" where
  "dims env st \<longleftrightarrow> length (ss_rounds st) = se_max_rounds env + 1 \<and>
     (\<forall>r \<le> se_max_rounds env. length (ss_rounds st ! r) = se_stop_count env) \<and>
     length (ss_best st) = se_stop_count env \<and> length (ss_parents st) = se_max_rounds env + 1 \<and>
     length (ss_marked_flags st) = se_stop_count env \<and>
     ss_queued_route_positions st = replicate (length (tt_routes (se_timetable env))) usize_MAX \<and>
     set (ss_marked st) \<subseteq> {..<se_stop_count env}"

text \<open>
  \<open>link env st r s t parent\<close>: what the parent entry of a label \<open>t\<close> at stop \<open>s\<close> in round \<open>r\<close>
  promises about the label it points to.
\<close>

abbreviation label :: "search_state \<Rightarrow> usize \<Rightarrow> usize \<Rightarrow> u32" where
  "label st r stop \<equiv> ss_rounds st ! r ! stop"

abbreviation parent_at :: "search_state \<Rightarrow> usize \<Rightarrow> usize \<Rightarrow> raptor_parent option" where
  "parent_at st r stop \<equiv> (ss_parents st ! r) stop"

definition ready_at :: "search_env \<Rightarrow> search_state \<Rightarrow> usize \<Rightarrow> usize \<Rightarrow> u32" where
  "ready_at env st r stop = saturating_add (label st r stop) (change_time env stop (kind_of (parent_at st r stop)))"

definition ride_link :: "search_env \<Rightarrow> search_state \<Rightarrow> usize \<Rightarrow> raptor_route \<Rightarrow> raptor_trip \<Rightarrow> usize \<Rightarrow> bool" where
  "ride_link env st q route trip board \<longleftrightarrow> rr_stop_indices route ! board < se_stop_count env \<and>
     label st q (rr_stop_indices route ! board) \<noteq> u32_MAX \<and>
     ready_at env st q (rr_stop_indices route ! board) \<le> departs env trip board"

fun link :: "search_env \<Rightarrow> search_state \<Rightarrow> usize \<Rightarrow> usize \<Rightarrow> u32 \<Rightarrow> raptor_parent option \<Rightarrow> bool" where
  "link env st r s t None \<longleftrightarrow> r = 0 \<and> s \<in> set (se_origins env) \<and> t = rq_departure_time (se_request env)"
| "link env st r s t (Some (Walk p d a meters geometry source)) \<longleftrightarrow>
     p < se_stop_count env \<and> p \<noteq> s \<and> label st r p \<le> d \<and> d \<noteq> u32_MAX \<and> a = t \<and>
     (\<exists>x \<in> set (transfers_from env p). rx_to_stop_index x = s \<and> a = saturating_add d (rx_min_transfer_seconds x) \<and>
        meters = rx_distance_meters x \<and> geometry = rx_walking_geometry x \<and> source = rx_source x)"
| "link env st r s t (Some (Ride p q trip_id route_id mode dep arr official realtime)) \<longleftrightarrow>
     r = Suc q \<and> (\<exists>route trip board alight. rideable env route trip board alight \<and>
        rr_stop_indices route ! board = p \<and> rr_stop_indices route ! alight = s \<and>
        trip_id = rt_trip_id trip \<and> route_id = rt_route_id trip \<and> mode = rt_mode trip \<and>
        dep = rst_departure_time (rt_stop_times trip ! board) \<and> arr = rst_arrival_time (rt_stop_times trip ! alight) \<and>
        t = arrives env trip alight \<and>
        realtime = (departs env trip board \<noteq> dep \<or> t \<noteq> arr) \<and> ride_link env st q route trip board)"

definition reached :: "search_env \<Rightarrow> search_state \<Rightarrow> usize \<Rightarrow> usize \<Rightarrow> bool" where
  "reached env st r s \<longleftrightarrow> r \<le> se_max_rounds env \<and> s < se_stop_count env \<and> label st r s \<noteq> u32_MAX"

definition labels_sound :: "search_env \<Rightarrow> search_state \<Rightarrow> bool" where
  "labels_sound env st \<longleftrightarrow>
     (\<forall>r s. reached env st r s \<longrightarrow> reach env r s (label st r s) (kind_of (parent_at st r s)))"

definition linked :: "search_env \<Rightarrow> search_state \<Rightarrow> bool" where
  "linked env st \<longleftrightarrow> (\<forall>r s. reached env st r s \<longrightarrow> link env st r s (label st r s) (parent_at st r s))"

text \<open>No walk can be followed forever: labels do not rise along it, and ties follow a rank.\<close>

definition ranked :: "search_env \<Rightarrow> search_state \<Rightarrow> (usize \<Rightarrow> usize \<Rightarrow> nat) \<Rightarrow> bool" where
  "ranked env st rk \<longleftrightarrow> (\<forall>r s p d a meters geometry source. reached env st r s \<longrightarrow>
     parent_at st r s = Some (Walk p d a meters geometry source) \<longrightarrow>
     label st r p \<le> label st r s \<and> (label st r p = label st r s \<longrightarrow> rk r p < rk r s))"

definition bests_ok :: "search_env \<Rightarrow> search_state \<Rightarrow> bool" where
  "bests_ok env st \<longleftrightarrow> (\<forall>r \<le> se_max_rounds env. \<forall>s < se_stop_count env. ss_best st ! s \<le> label st r s)"

definition fresh_above :: "search_env \<Rightarrow> usize \<Rightarrow> search_state \<Rightarrow> bool" where
  "fresh_above env rnd st \<longleftrightarrow> (\<forall>r s. reached env st r s \<longrightarrow> r \<le> rnd)"

definition sound :: "search_env \<Rightarrow> usize \<Rightarrow> search_state \<Rightarrow> bool" where
  "sound env rnd st \<longleftrightarrow> dims env st \<and> labels_sound env st \<and> linked env st \<and> (\<exists>rk. ranked env st rk) \<and>
     bests_ok env st \<and> fresh_above env rnd st"

text \<open>The three writes that always go together.\<close>

definition put_label :: "usize \<Rightarrow> usize \<Rightarrow> u32 \<Rightarrow> raptor_parent \<Rightarrow> search_state \<Rightarrow> search_state option" where
  "put_label rnd stop time parent st = do {
     st \<leftarrow> set_label rnd stop time st;
     st \<leftarrow> mark_raptor_stop stop st;
     insert_parent rnd stop parent st }"

definition labelled :: "usize \<Rightarrow> usize \<Rightarrow> u32 \<Rightarrow> raptor_parent \<Rightarrow> search_state \<Rightarrow> search_state" where
  "labelled rnd stop time parent st = st\<lparr>
     ss_rounds := (ss_rounds st)[rnd := (ss_rounds st ! rnd)[stop := time]],
     ss_best := (ss_best st)[stop := time],
     ss_parents := (ss_parents st)[rnd := (ss_parents st ! rnd)(stop \<mapsto> parent)],
     ss_marked := (if ss_marked_flags st ! stop then ss_marked st else ss_marked st @ [stop]),
     ss_marked_flags := (ss_marked_flags st)[stop := True]\<rparr>"

lemma put_label_total:
  assumes "dims env st" and "rnd \<le> se_max_rounds env" and "stop < se_stop_count env"
  shows "put_label rnd stop time parent st = Some (labelled rnd stop time parent st)"
proof -
  have "rnd < length (ss_rounds st)" "stop < length (ss_rounds st ! rnd)" "stop < length (ss_best st)"
    "stop < length (ss_marked_flags st)" "rnd < length (ss_parents st)"
    using assms by (auto simp: dims_def)
  moreover have "ss_marked_flags st ! stop \<Longrightarrow> (ss_marked_flags st)[stop := True] = ss_marked_flags st"
    by (metis list_update_id)
  ultimately show ?thesis
    by (simp add: put_label_def labelled_def set_label_def mark_raptor_stop_def insert_parent_def)
qed

lemma dims_labelled:
  assumes "dims env st" and "rnd \<le> se_max_rounds env" and "stop < se_stop_count env"
  shows "dims env (labelled rnd stop time parent st)"
  using assms by (auto simp: dims_def labelled_def nth_list_update)

lemma label_labelled:
  assumes "dims env st" and "rnd \<le> se_max_rounds env" and "stop < se_stop_count env" and "r \<le> se_max_rounds env"
  shows "label (labelled rnd stop time parent st) r s = (if r = rnd \<and> s = stop then time else label st r s)"
    and "parent_at (labelled rnd stop time parent st) r s
      = (if r = rnd \<and> s = stop then Some parent else parent_at st r s)"
  using assms by (auto simp: labelled_def nth_list_update dims_def)

lemma ready_at_labelled:
  assumes "dims env st" and "rnd \<le> se_max_rounds env" and "stop < se_stop_count env" and "r < rnd"
  shows "ready_at env (labelled rnd stop time parent st) r s = ready_at env st r s"
    and "ride_link env (labelled rnd stop time parent st) r route trip board = ride_link env st r route trip board"
  using assms by (simp_all add: ready_at_def ride_link_def label_labelled [OF assms(1-3)])

lemma reached_labelled:
  assumes "dims env st" and "rnd \<le> se_max_rounds env" and "stop < se_stop_count env" and "time \<noteq> u32_MAX"
  shows "reached env (labelled rnd stop time parent st) r s \<longleftrightarrow> r = rnd \<and> s = stop \<or> reached env st r s"
  using assms by (auto simp: reached_def label_labelled split: if_splits)

text \<open>One improving write: its own promises, and everything that was promised before still holds.\<close>

lemma link_labelled:
  assumes d: "dims env st" "rnd \<le> se_max_rounds env" "stop < se_stop_count env"
    and lower: "time \<le> label st rnd stop" and r: "r \<le> rnd" and l: "link env st r s t p"
  shows "link env (labelled rnd stop time parent st) r s t p"
proof (cases p)
  case (Some parent')
  show ?thesis
  proof (cases parent')
    case (Walk p' d' a' meters g src)
    have "label (labelled rnd stop time parent st) r p' \<le> label st r p'"
      using label_labelled [OF d] r lower d(2) by auto
    with Walk Some l show ?thesis by auto
  next
    case (Ride p' q)
    with Some l r have "q < rnd" by auto
    note keep = ready_at_labelled(2) [OF d this]
    show ?thesis using l unfolding Some Ride link.simps keep .
  qed
qed (use l in simp)

lemma sound_labelled:
  assumes s: "sound env rnd st" and rnd: "rnd \<le> se_max_rounds env" and stop: "stop < se_stop_count env"
    and lower: "time < ss_best st ! stop"
    and reach: "reach env rnd stop time (kind_of (Some parent))"
    and l: "link env st rnd stop time (Some parent)"
  shows "sound env rnd (labelled rnd stop time parent st)"
proof -
  let ?st = "labelled rnd stop time parent st"
  have d: "dims env st" and ls: "labels_sound env st" and lk: "linked env st" and b: "bests_ok env st"
    and fr: "fresh_above env rnd st" using s by (simp_all add: sound_def)
  obtain rk where rk: "ranked env st rk" using s by (auto simp: sound_def)
  have less: "time < label st rnd stop" using b lower rnd stop by (auto simp: bests_ok_def intro: less_le_trans)
  have fin: "time \<noteq> u32_MAX" using lower by (metis u32_MAX_not_less)
  note lab = label_labelled [OF d rnd stop] and re = reached_labelled [OF d rnd stop fin]
  have old: "reached env st r s \<Longrightarrow> r \<le> se_max_rounds env \<and> r \<le> rnd" for r s
    using fr by (auto simp: reached_def fresh_above_def)
  have labels: "labels_sound env ?st"
    using ls reach rnd old by (auto simp: labels_sound_def re lab)
  have links: "linked env ?st"
    unfolding linked_def
  proof (intro allI impI)
    fix r s' assume "reached env ?st r s'"
    with re old rnd have r: "r \<le> rnd" "r \<le> se_max_rounds env" "(r = rnd \<and> s' = stop) \<or> reached env st r s'" by auto
    have keep: "link env ?st r s' t p" if "link env st r s' t p" for t p
      using link_labelled [OF d rnd stop less_imp_le [OF less] r(1) that] .
    show "link env ?st r s' (label ?st r s') (parent_at ?st r s')"
    proof (cases "r = rnd \<and> s' = stop")
      case True
      with keep [of time "Some parent"] l rnd show ?thesis by (simp add: lab)
    next
      case False
      with r have same: "label ?st r s' = label st r s'" "parent_at ?st r s' = parent_at st r s'" and "reached env st r s'"
        by (auto simp: lab)
      with lk keep show ?thesis unfolding same linked_def by blast
    qed
  qed
  define rk' where "rk' = (\<lambda>r s. if r = rnd \<and> s = stop then Suc (sum (rk rnd) {..<se_stop_count env}) else rk r s)"
  have rank: "ranked env ?st rk'"
    unfolding ranked_def
  proof (intro allI impI)
    fix r s' p dd a meters g src
    assume re1: "reached env ?st r s'" and par: "parent_at ?st r s' = Some (Walk p dd a meters g src)"
    from re1 re old rnd have r: "r \<le> se_max_rounds env" "(r = rnd \<and> s' = stop) \<or> reached env st r s'" by auto
    show "label ?st r p \<le> label ?st r s' \<and> (label ?st r p = label ?st r s' \<longrightarrow> rk' r p < rk' r s')"
    proof (cases "r = rnd \<and> s' = stop")
      case True
      with par r have parent: "parent = Walk p dd a meters g src" by (simp add: lab)
      with l have p: "p < se_stop_count env" "p \<noteq> stop" "label st rnd p \<le> dd" "dd \<le> time" by auto
      have "rk rnd p \<le> sum (rk rnd) {..<se_stop_count env}" using p(1) by (intro member_le_sum) auto
      with True p rnd show ?thesis by (auto simp: lab rk'_def)
    next
      case False
      with par r have old_par: "parent_at st r s' = Some (Walk p dd a meters g src)" "reached env st r s'" by (auto simp: lab)
      then have "label st r p \<le> label st r s' \<and> (label st r p = label st r s' \<longrightarrow> rk r p < rk r s')"
        using rk unfolding ranked_def by blast
      with False r(1) less show ?thesis by (auto simp: lab rk'_def)
    qed
  qed
  have "ss_best ?st = (ss_best st)[stop := time]" by (simp add: labelled_def)
  moreover have "time \<le> label st r stop" if "r \<le> se_max_rounds env" for r
    using b lower stop that unfolding bests_ok_def by (meson less_imp_le less_le_trans)
  ultimately have bests: "bests_ok env ?st"
    using b d stop by (auto simp: bests_ok_def lab nth_list_update dims_def)
  have "fresh_above env rnd ?st" using fr by (auto simp: fresh_above_def re)
  with dims_labelled [OF d rnd stop] labels links rank bests show ?thesis by (auto simp: sound_def)
qed

lemma label_at_total:
  "dims env st \<Longrightarrow> rnd \<le> se_max_rounds env \<Longrightarrow> stop < se_stop_count env \<Longrightarrow>
     label_at st rnd stop = Some (ss_rounds st ! rnd ! stop)"
  by (auto simp: label_at_def dims_def)

section \<open>Walking\<close>

lemma relax_edge_put:
  "relax_edge rnd best_target from dep (queue, st) x =
     (let arrival = saturating_add dep (rx_min_transfer_seconds x); stop = rx_to_stop_index x
      in if best_target \<le> arrival then Some (queue, st)
         else (case idx (ss_best st) stop of None \<Rightarrow> None
           | Some known \<Rightarrow> if known \<le> arrival then Some (queue, st)
               else map_option (Pair (queue @ [stop]))
                 (put_label rnd stop arrival (Walk from dep arrival (rx_distance_meters x)
                    (rx_walking_geometry x) (rx_source x)) st)))"
  by (cases "rx_to_stop_index x < length (ss_best st)")
     (simp_all add: idx_def relax_edge_def put_label_def Let_def map_conv_bind_option bind_assoc o_def)

text \<open>The rule for the work list: an invariant of queue and state, kept by every popped element.\<close>

lemma relax_loop_rule:
  assumes step: "\<And>queue st. P queue st \<Longrightarrow> queue \<noteq> [] \<Longrightarrow>
      \<exists>dep. label_at st rnd (last queue) = Some dep \<and>
        (dep = u32_MAX \<longrightarrow> P (butlast queue) st) \<and>
        (dep \<noteq> u32_MAX \<longrightarrow> (\<exists>queue' st'. foldM (relax_edge rnd best_target (last queue) dep) (butlast queue, st)
            (transfers_from env (last queue)) = Some (queue', st') \<and> P queue' st'))"
    and start: "P queue st"
  shows "\<exists>st'. relax_loop env rnd best_target queue st = Some st' \<and> P [] st'"
  using assms
proof (induction env rnd best_target queue st rule: relax_loop.induct)
  case (1 env rnd best_target queue st)
  show ?case
  proof (cases "queue = []")
    case True
    with "1.prems"(2) show ?thesis by (subst relax_loop.simps) simp
  next
    case False
    from "1.prems"(1) [OF "1.prems"(2) False] obtain dep where
      dep: "label_at st rnd (last queue) = Some dep" "dep = u32_MAX \<longrightarrow> P (butlast queue) st"
        "dep \<noteq> u32_MAX \<longrightarrow> (\<exists>queue' st'. foldM (relax_edge rnd best_target (last queue) dep) (butlast queue, st)
            (transfers_from env (last queue)) = Some (queue', st') \<and> P queue' st')" by blast
    show ?thesis
    proof (cases "dep = u32_MAX")
      case True
      with False dep "1.IH"(1) [OF False dep(1) True "1.prems"(1)] show ?thesis
        by (subst relax_loop.simps) simp
    next
      case unreached: False
      with dep(3) obtain queue' st' where edges: "foldM (relax_edge rnd best_target (last queue) dep)
          (butlast queue, st) (transfers_from env (last queue)) = Some (queue', st')" "P queue' st'" by blast
      with unreached False dep(1) "1.IH"(2) [OF False dep(1) unreached edges(1) refl "1.prems"(1) edges(2)]
      show ?thesis by (subst relax_loop.simps) simp
    qed
  qed
qed

definition walk_inv :: "search_env \<Rightarrow> usize \<Rightarrow> usize list \<Rightarrow> search_state \<Rightarrow> bool" where
  "walk_inv env rnd queue st \<longleftrightarrow> sound env rnd st \<and> set queue \<subseteq> {..<se_stop_count env}"

lemma relax_edge_sound:
  assumes ok: "env_ok env" and rnd: "rnd \<le> se_max_rounds env" and stop1: "from < se_stop_count env"
    and from_reach: "reach env rnd from dep kind" and dep: "dep \<noteq> u32_MAX" and x: "x \<in> set (transfers_from env from)"
    and inv: "walk_inv env rnd (fst qs) (snd qs)" and cur: "label (snd qs) rnd from \<le> dep"
  shows "\<exists>qs'. relax_edge rnd best_target from dep qs x = Some qs' \<and>
     walk_inv env rnd (fst qs') (snd qs') \<and> label (snd qs') rnd from \<le> dep"
proof -
  obtain queue st where qs: "qs = (queue, st)" by (cases qs)
  let ?stop = "rx_to_stop_index x" and ?arr = "saturating_add dep (rx_min_transfer_seconds x)"
  let ?p = "Walk from dep ?arr (rx_distance_meters x) (rx_walking_geometry x) (rx_source x)"
  have stop: "?stop < se_stop_count env" using ok x by (auto simp: env_ok_def)
  have dims: "dims env st" and snd: "sound env rnd st" and b: "bests_ok env st"
    using inv qs by (auto simp: walk_inv_def sound_def)
  have len: "?stop < length (ss_best st)" using dims stop by (simp add: dims_def)
  show ?thesis
  proof (cases "best_target \<le> ?arr \<or> ss_best st ! ?stop \<le> ?arr")
    case True
    with inv cur len show ?thesis by (auto simp: qs relax_edge_put Let_def)
  next
    case False
    then have lower: "?arr < ss_best st ! ?stop" by (simp add: not_le)
    also have "ss_best st ! ?stop \<le> label st rnd ?stop" using b rnd stop by (simp add: bests_ok_def)
    finally have less: "?arr < label st rnd ?stop" .
    have "label st rnd from \<le> dep" using cur by (simp add: qs)
    also have "dep \<le> ?arr" by simp
    also note less
    finally have "from \<noteq> ?stop" by auto
    then have "link env st rnd ?stop ?arr (Some ?p)" using stop1 cur dep x by (auto simp: qs)
    from sound_labelled [OF snd rnd stop lower _ this] reach_walk [OF from_reach x]
    have "walk_inv env rnd (queue @ [?stop]) (labelled rnd ?stop ?arr ?p st)"
      using inv stop qs by (auto simp: walk_inv_def kind_of_def)
    moreover have "label (labelled rnd ?stop ?arr ?p st) rnd from \<le> dep"
      using cur less rnd \<open>from \<noteq> ?stop\<close> by (simp add: label_labelled [OF dims rnd stop] qs)
    ultimately show ?thesis
      using False len put_label_total [OF dims rnd stop] by (simp add: qs relax_edge_put Let_def)
  qed
qed

lemma relax_step_sound:
  assumes ok: "env_ok env" and rnd: "rnd \<le> se_max_rounds env" and inv: "walk_inv env rnd queue st" and "queue \<noteq> []"
  shows "\<exists>dep. label_at st rnd (last queue) = Some dep \<and>
        (dep = u32_MAX \<longrightarrow> walk_inv env rnd (butlast queue) st) \<and>
        (dep \<noteq> u32_MAX \<longrightarrow> (\<exists>queue' st'. foldM (relax_edge rnd best_target (last queue) dep) (butlast queue, st)
            (transfers_from env (last queue)) = Some (queue', st') \<and> walk_inv env rnd queue' st'))"
proof -
  let ?from = "last queue"
  let ?dep = "label st rnd ?from"
  have "?from \<in> set queue" using assms(4) by (rule last_in_set)
  then have stop: "?from < se_stop_count env" using inv by (auto simp: walk_inv_def)
  have dims: "dims env st" and labels: "labels_sound env st" using inv by (auto simp: walk_inv_def sound_def)
  have rest: "walk_inv env rnd (butlast queue) st" using inv by (auto simp: walk_inv_def dest: in_set_butlastD)
  have "\<exists>queue' st'. foldM (relax_edge rnd best_target ?from ?dep) (butlast queue, st) (transfers_from env ?from)
      = Some (queue', st') \<and> walk_inv env rnd queue' st'" if fin: "?dep \<noteq> u32_MAX"
  proof -
    have reach: "reach env rnd ?from ?dep (kind_of (parent_at st rnd ?from))"
      using labels fin rnd stop by (simp add: labels_sound_def reached_def)
    have "\<exists>qs'. foldM (relax_edge rnd best_target ?from ?dep) (butlast queue, st) (transfers_from env ?from)
      = Some qs' \<and> walk_inv env rnd (fst qs') (snd qs') \<and> label (snd qs') rnd ?from \<le> ?dep"
      by (rule foldM_total_simple) (use rest relax_edge_sound [OF ok rnd stop reach fin] in auto)
    then show ?thesis by auto
  qed
  with label_at_total [OF dims rnd stop] rest show ?thesis by blast
qed

lemma relax_sound:
  assumes ok: "env_ok env" and rnd: "rnd \<le> se_max_rounds env" and "sound env rnd st"
  shows "\<exists>st'. relax_raptor_transfers env rnd best_target st = Some st' \<and> sound env rnd st'"
proof -
  have "walk_inv env rnd (ss_marked st) st" using assms(3) by (auto simp: walk_inv_def sound_def dims_def)
  from relax_loop_rule [where P = "walk_inv env rnd", OF relax_step_sound [OF ok rnd] this] show ?thesis
    by (auto simp: relax_raptor_transfers_def walk_inv_def)
qed

section \<open>Riding\<close>

text \<open>A boarded trip: at the boarding position the passenger was in time.\<close>

definition aboard :: "search_env \<Rightarrow> usize \<Rightarrow> search_state \<Rightarrow> raptor_route \<Rightarrow> raptor_trip \<Rightarrow> usize \<Rightarrow> bool" where
  "aboard env rnd st route trip board \<longleftrightarrow> trip \<in> set (rr_trips route) \<and> trip_allowed env trip \<and>
     board < length (rt_stop_times trip) \<and> rst_pickup_allowed (rt_stop_times trip ! board) \<and>
     ride_link env st (rnd - 1) route trip board"

definition current_ok :: "search_env \<Rightarrow> usize \<Rightarrow> search_state \<Rightarrow> raptor_route \<Rightarrow> usize \<Rightarrow> current_trip \<Rightarrow> bool" where
  "current_ok env rnd st route limit current \<longleftrightarrow>
     (case current of None \<Rightarrow> True | Some (trip, board, official) \<Rightarrow> aboard env rnd st route trip board \<and> board < limit)"

definition scannable :: "search_env \<Rightarrow> usize \<Rightarrow> raptor_route \<Rightarrow> bool" where
  "scannable env route_index route \<longleftrightarrow> route_index < length (tt_routes (se_timetable env)) \<and>
     route = tt_routes (se_timetable env) ! route_index \<and>
     rt_route_id (hd (rr_trips route)) \<notin> set (se_excluded env) \<and>
     (rq_modes (se_request env) = [] \<or> rt_mode (hd (rr_trips route)) \<in> set (rq_modes (se_request env)))"

lemma route_ok_lengths:
  fixes si :: "string \<rightharpoonup> usize"
  assumes "route_ok si route" and "trip \<in> set (rr_trips route)"
  shows "length (rt_stop_times trip) = length (rr_stop_indices route)"
    and "rt_route_id trip = rt_route_id (hd (rr_trips route))" and "rt_mode trip = rt_mode (hd (rr_trips route))"
proof -
  have si: "map Some (rr_stop_indices route) = map (\<lambda>st. si (rst_stop_id st)) (rt_stop_times (hd (rr_trips route)))"
    and same: "same_key (rr_trips route)" and ne: "rr_trips route \<noteq> []"
    using assms(1) unfolding route_ok_def by blast+
  have "length (rr_stop_indices route) = length (rt_stop_times (hd (rr_trips route)))"
    using arg_cong [OF si, of length] by simp
  moreover have "trip_key trip = trip_key (hd (rr_trips route))"
    using same assms(2) unfolding same_key_def by blast
  moreover from this have "length (rt_stop_times trip) = length (rt_stop_times (hd (rr_trips route)))"
    by (auto simp: trip_key_def dest: map_eq_imp_length_eq)
  ultimately show "length (rt_stop_times trip) = length (rr_stop_indices route)"
    and "rt_route_id trip = rt_route_id (hd (rr_trips route))" and "rt_mode trip = rt_mode (hd (rr_trips route))"
    by (simp_all add: trip_key_def)
qed

lemma route_stop_range:
  assumes "timetable_ok tt" and "route \<in> set (tt_routes tt)" and "k < length (rr_stop_indices route)"
  shows "rr_stop_indices route ! k < length (tt_stops tt)"
proof -
  have *: "map Some (rr_stop_indices route)
      = map (\<lambda>st. tt_stop_indices tt (rst_stop_id st)) (rt_stop_times (hd (rr_trips route)))"
    using assms(1,2) by (simp add: timetable_ok_def route_ok_def)
  then have "k < length (rt_stop_times (hd (rr_trips route)))" using assms(3) by (metis length_map)
  with * assms(3) have "tt_stop_indices tt (rst_stop_id (rt_stop_times (hd (rr_trips route)) ! k))
      = Some (rr_stop_indices route ! k)" by (metis nth_map)
  with assms(1) show ?thesis by (simp add: timetable_ok_def numbering_ok_def)
qed

lemma scannable_facts:
  assumes "env_ok env" and "scannable env route_index route"
  shows "route \<in> set (tt_routes (se_timetable env))" and "route_ok (tt_stop_indices (se_timetable env)) route"
    and "rr_trips route \<noteq> []"
    and "k < length (rr_stop_indices route) \<Longrightarrow> rr_stop_indices route ! k < se_stop_count env"
    and "\<And>trip. trip \<in> set (rr_trips route) \<Longrightarrow>
           trip_allowed env trip \<longleftrightarrow> rq_allow_unverified_services (se_request env) \<or> rt_service_verified trip"
proof -
  show r: "route \<in> set (tt_routes (se_timetable env))" using assms by (auto simp: scannable_def)
  show ok: "route_ok (tt_stop_indices (se_timetable env)) route"
    using assms(1) r by (simp add: env_ok_def timetable_ok_def)
  then show "rr_trips route \<noteq> []" by (simp add: route_ok_def)
  show "k < length (rr_stop_indices route) \<Longrightarrow> rr_stop_indices route ! k < se_stop_count env"
    using route_stop_range [OF _ r, of k] assms(1) by (fastforce simp: env_ok_def)
  show "trip_allowed env trip \<longleftrightarrow> rq_allow_unverified_services (se_request env) \<or> rt_service_verified trip"
    if "trip \<in> set (rr_trips route)" for trip
    using route_ok_lengths(2,3) [OF ok that] assms(2) by (auto simp: trip_allowed_def scannable_def)
qed

lemma departure_table_index:
  assumes ok: "env_ok env" and sc: "scannable env route_index route" and k: "k < length (rr_stop_indices route)"
  shows "\<exists>indices. idx (departure_table env route) k = Some indices \<and>
     (\<forall>i \<in> set indices. i < length (rr_trips route) \<and> trip_allowed env (rr_trips route ! i)) \<and>
     (\<forall>i < length (rr_trips route). trip_allowed env (rr_trips route ! i) \<longrightarrow> i \<in> set indices) \<and>
     sorted (map (departure_at (rr_trips route) k) indices)"
proof -
  let ?trips = "rr_trips route"
  have allowed: "trip_allowed env (?trips ! i) \<longleftrightarrow>
      rq_allow_unverified_services (se_request env) \<or> rt_service_verified (?trips ! i)"
    if "i < length ?trips" for i
    using scannable_facts(5) [OF ok sc] that by simp
  have ix: "index_ok ?trips (length (rr_stop_indices route)) (\<lambda>_. True) (rr_departures_by_stop_index route)"
     "index_ok ?trips (length (rr_stop_indices route)) rt_service_verified (rr_verified_departures_by_stop_index route)"
    using scannable_facts(2) [OF ok sc] by (simp_all add: route_ok_def route_indexed_def stop_count_of_def)
  define keep where "keep = (\<lambda>t :: raptor_trip. rq_allow_unverified_services (se_request env) \<or> rt_service_verified t)"
  have io: "index_ok ?trips (length (rr_stop_indices route)) keep (departure_table env route)"
    using ix by (cases "rq_allow_unverified_services (se_request env)") (auto simp: departure_table_def keep_def)
  then have ms: "mset (departure_table env route ! k) = mset (filter (\<lambda>i. keep (?trips ! i)) [0..<length ?trips])"
    and srt: "sorted (map (departure_at ?trips k) (departure_table env route ! k))"
    and len: "k < length (departure_table env route)"
    using k by (simp_all add: index_ok_def)
  from mset_eq_setD [OF ms] have "set (departure_table env route ! k) = {i. i < length ?trips \<and> keep (?trips ! i)}"
    by auto
  with srt len allowed show ?thesis by (auto simp: keep_def)
qed

text \<open>The catch at a position is the earliest allowed one, by the scan's correctness.\<close>

lemma catch_correct:
  assumes ok: "env_ok env" and sc: "scannable env route_index route" and k: "k < length (rr_stop_indices route)"
    and b: "b = se_bounds env ! route_index"
  shows "\<exists>result. earliest_catchable_trip (rr_trips route) (departure_table env route) k ready
       (rq_realtime (se_request env)) b = Some result \<and>
     is_earliest (rr_trips route) k ready (rq_realtime (se_request env))
       {i. i < length (rr_trips route) \<and> trip_allowed env (rr_trips route ! i)} result"
proof -
  from departure_table_index [OF ok sc k] obtain indices where ix:
    "idx (departure_table env route) k = Some indices"
    "\<forall>i \<in> set indices. i < length (rr_trips route) \<and> trip_allowed env (rr_trips route ! i)"
    "\<forall>i < length (rr_trips route). trip_allowed env (rr_trips route ! i) \<longrightarrow> i \<in> set indices"
    "sorted (map (departure_at (rr_trips route) k) indices)" by blast
  have data: "realtime_ok (rq_realtime (se_request env))" using ok by (simp add: env_ok_def)
  have "length (rt_stop_times (rr_trips route ! i)) = length (rr_stop_indices route)" if "i < length (rr_trips route)" for i
    using route_ok_lengths(1) [OF scannable_facts(2) [OF ok sc]] that by simp
  then have "\<forall>i \<in> set indices. i < length (rr_trips route) \<and> k < length (rt_stop_times (rr_trips route ! i))"
    using ix(2) k by simp
  moreover have "\<forall>i \<in> set indices. wider b (trip_bounds (rq_realtime (se_request env)) (rt_trip_id (rr_trips route ! i)))"
    using ok sc ix(2) by (auto simp: env_ok_def bounds_sound_def scannable_def b)
  moreover have "set indices = {i. i < length (rr_trips route) \<and> trip_allowed env (rr_trips route ! i)}"
    using ix(2,3) by auto
  ultimately show ?thesis using earliest_catchable_on_index [OF data ix(1) _ _ ix(4)] by metis
qed

lemma aboard_labelled:
  assumes "dims env st" and "rnd \<le> se_max_rounds env" and "stop < se_stop_count env" and "1 \<le> rnd"
  shows "aboard env rnd (labelled rnd stop time parent st) route trip board = aboard env rnd st route trip board"
    and "current_ok env rnd (labelled rnd stop time parent st) route limit current = current_ok env rnd st route limit current"
proof -
  have "rnd - 1 < rnd" using assms(4) by simp
  note keep = ready_at_labelled(2) [OF assms(1-3) this]
  show *: "aboard env rnd (labelled rnd stop time parent st) route trip board = aboard env rnd st route trip board"
    for trip board
    unfolding aboard_def keep ..
  show "current_ok env rnd (labelled rnd stop time parent st) route limit current = current_ok env rnd st route limit current"
    by (simp add: current_ok_def * split: option.splits)
qed

lemma current_ok_mono: "current_ok env rnd st route limit current \<Longrightarrow> limit \<le> limit' \<Longrightarrow> current_ok env rnd st route limit' current"
  by (auto simp: current_ok_def split: option.splits)

text \<open>Alighting: the label that is written is reachable, and its parent entry says how.\<close>

lemma try_alight_sound:
  assumes ok: "env_ok env" and rnd: "1 \<le> rnd" "rnd \<le> se_max_rounds env"
    and sc: "scannable env route_index route" and k: "k < length (rr_stop_indices route)"
    and s: "sound env rnd st" and cur: "current_ok env rnd st route k current"
  shows "\<exists>st'. try_alight env rnd best_target route k (rr_stop_indices route ! k) current st = Some st' \<and>
     sound env rnd st' \<and> current_ok env rnd st' route k current"
proof (cases current)
  case None
  with s cur show ?thesis by (simp add: try_alight_def)
next
  case (Some triple)
  then obtain trip board official where c: "current = Some (trip, board, official)" by (cases triple) auto
  with cur have ab: "aboard env rnd st route trip board" and bk: "board < k" by (simp_all add: current_ok_def)
  let ?stop = "rr_stop_indices route ! k" and ?call = "rt_stop_times trip ! k" and ?from = "rr_stop_indices route ! board"
  let ?arr = "arrives env trip k" and ?dep = "departs env trip board"
  have route: "route \<in> set (tt_routes (se_timetable env))" "route_ok (tt_stop_indices (se_timetable env)) route"
    using scannable_facts(1,2) [OF ok sc] by auto
  have trip: "trip \<in> set (rr_trips route)" "trip_allowed env trip" "board < length (rt_stop_times trip)"
      "rst_pickup_allowed (rt_stop_times trip ! board)" and rl: "ride_link env st (rnd - 1) route trip board"
    using ab by (simp_all add: aboard_def)
  have len: "length (rt_stop_times trip) = length (rr_stop_indices route)" using route_ok_lengths(1) [OF route(2) trip(1)] .
  have stop: "?stop < se_stop_count env" using scannable_facts(4) [OF ok sc k] .
  have d: "dims env st" and b: "bests_ok env st" and ls: "labels_sound env st" using s by (simp_all add: sound_def)
  have lens: "?stop < length (ss_best st)" using d stop by (simp add: dims_def)
  show ?thesis
  proof (cases "rst_drop_off_allowed ?call \<and> ?arr < best_target \<and> ?arr < ss_best st ! ?stop")
    case False
    with s cur k len lens show ?thesis by (auto simp: c try_alight_def Let_def)
  next
    case True
    let ?real = "?dep \<noteq> rst_departure_time (rt_stop_times trip ! board) \<or> ?arr \<noteq> rst_arrival_time ?call"
    let ?p = "Ride ?from (rnd - 1) (rt_trip_id trip) (rt_route_id trip) (rt_mode trip)
        (rst_departure_time (rt_stop_times trip ! board)) (rst_arrival_time ?call) official ?real"
    have ride: "rideable env route trip board k"
      using True route(1) trip bk k len by (simp add: rideable_def)
    have origin: "reached env st (rnd - 1) ?from" using rl rnd by (simp add: ride_link_def reached_def)
    have "reach env (Suc (rnd - 1)) ?stop ?arr ByRide"
    proof (rule reach_ride [OF _ ride refl])
      show "reach env (rnd - 1) ?from (label st (rnd - 1) ?from) (kind_of (parent_at st (rnd - 1) ?from))"
        using ls origin by (simp add: labels_sound_def)
      show "saturating_add (label st (rnd - 1) ?from)
         (change_time env ?from (kind_of (parent_at st (rnd - 1) ?from))) \<le> ?dep"
        using rl by (simp add: ride_link_def ready_at_def)
    qed
    then have reach: "reach env rnd ?stop ?arr (kind_of (Some ?p))" using rnd by (simp add: kind_of_def)
    have lk: "link env st rnd ?stop ?arr (Some ?p)"
      unfolding link.simps using rnd ride rl by (intro conjI exI [of _ route] exI [of _ trip] exI [of _ board] exI [of _ k]) auto
    have "try_alight env rnd best_target route k ?stop current st = put_label rnd ?stop ?arr ?p st"
      using True k len lens trip(3) by (simp add: c try_alight_def Let_def put_label_def)
    also have "\<dots> = Some (labelled rnd ?stop ?arr ?p st)" by (rule put_label_total [OF d rnd(2) stop])
    finally show ?thesis
      using sound_labelled [OF s rnd(2) stop _ reach lk] True cur aboard_labelled(2) [OF d rnd(2) stop rnd(1)] by auto
  qed
qed

text \<open>Boarding: whichever trip is kept, the passenger was in time for it.\<close>

lemma try_board_sound:
  assumes ok: "env_ok env" and rnd: "1 \<le> rnd" "rnd \<le> se_max_rounds env"
    and sc: "scannable env route_index route" and k: "k < length (rr_stop_indices route)"
    and s: "sound env rnd st" and cur: "current_ok env rnd st route k current"
  shows "\<exists>current'. try_board env rnd route_index route k (rr_stop_indices route ! k) st current = Some current' \<and>
     current_ok env rnd st route (Suc k) current'"
proof -
  let ?stop = "rr_stop_indices route ! k" and ?q = "rnd - 1"
  let ?prev = "label st ?q ?stop" and ?par = "parent_at st ?q ?stop"
  have stop: "?stop < se_stop_count env" using scannable_facts(4) [OF ok sc k] .
  have d: "dims env st" and ls: "labels_sound env st" using s by (simp_all add: sound_def)
  have q: "?q \<le> se_max_rounds env" using rnd by simp
  have lab: "label_at st ?q ?stop = Some ?prev" using label_at_total [OF d q stop] .
  have par: "?q < length (ss_parents st)" using d q by (simp add: dims_def)
  have keep: "current_ok env rnd st route (Suc k) current" using current_ok_mono [OF cur] by simp
  show ?thesis
  proof (cases "?prev = u32_MAX")
    case True
    with lab keep show ?thesis by (simp add: try_board_def)
  next
    case fin: False
    obtain slack official where slack: "transfer_slack env rnd ?stop ?par = (slack, official)" by fastforce
    have "reach env ?q ?stop ?prev (kind_of ?par)"
      using ls fin q stop by (simp add: labels_sound_def reached_def)
    from transfer_slack_change_time [OF this rnd(1)] slack have sl: "slack = change_time env ?stop (kind_of ?par)" by simp
    let ?ready = "saturating_add ?prev slack" and ?b = "se_bounds env ! route_index"
    have bounds: "route_index < length (se_bounds env)" using ok sc by (simp add: env_ok_def bounds_sound_def scannable_def)
    from catch_correct [OF ok sc k refl, of ?ready] obtain result where
      catch: "earliest_catchable_trip (rr_trips route) (departure_table env route) k ?ready
         (rq_realtime (se_request env)) ?b = Some result"
      and earliest: "is_earliest (rr_trips route) k ?ready (rq_realtime (se_request env))
         {i. i < length (rr_trips route) \<and> trip_allowed env (rr_trips route ! i)} result" by blast
    have unfolded: "try_board env rnd route_index route k ?stop st current = (case result of
        None \<Rightarrow> Some current
      | Some (candidate, departure) \<Rightarrow> (case current of
            None \<Rightarrow> Some (Some (candidate, k, official))
          | Some (trip, _, _) \<Rightarrow> Option.bind (idx (rt_stop_times trip) k) (\<lambda>call.
              if departure < effective_departure (rq_realtime (se_request env)) trip call
              then Some (Some (candidate, k, official)) else Some current)))"
      using lab fin par slack bounds catch unfolding try_board_def by (simp split: option.split)
    have lens: "length (rt_stop_times trip) = length (rr_stop_indices route)" if "trip \<in> set (rr_trips route)" for trip
      using route_ok_lengths(1) [OF scannable_facts(2) [OF ok sc] that] .
    show ?thesis
    proof (cases result)
      case None
      with unfolded keep show ?thesis by simp
    next
      case (Some pair)
      then obtain candidate departure where r: "result = Some (candidate, departure)" by (cases pair) auto
      with earliest obtain i where i: "i < length (rr_trips route)" "trip_allowed env (rr_trips route ! i)"
          "catchable (rr_trips route) k ?ready (rq_realtime (se_request env)) i" "candidate = rr_trips route ! i"
        by (auto simp: is_earliest_def)
      have "ride_link env st ?q route candidate k"
        using i fin stop sl by (simp add: ride_link_def ready_at_def catchable_def call_at_def)
      then have "aboard env rnd st route candidate k"
        using i k lens [of candidate] by (simp add: aboard_def catchable_def call_at_def)
      then have new: "current_ok env rnd st route (Suc k) (Some (candidate, k, official))" by (simp add: current_ok_def)
      show ?thesis
      proof (cases current)
        case None
        with unfolded r new show ?thesis by simp
      next
        case (Some triple)
        then obtain trip board off where c: "current = Some (trip, board, off)" by (cases triple) auto
        with cur have "trip \<in> set (rr_trips route)" by (simp add: current_ok_def aboard_def)
        with lens k have "k < length (rt_stop_times trip)" by simp
        with unfolded r new keep show ?thesis by (auto simp: c)
      qed
    qed
  qed
qed

lemma scan_position_sound:
  assumes "env_ok env" and "1 \<le> rnd" "rnd \<le> se_max_rounds env"
    and "scannable env route_index route" and k: "k < length (rr_stop_indices route)"
    and s: "sound env rnd (snd state)" and cur: "current_ok env rnd (snd state) route k (fst state)"
  shows "\<exists>state'. scan_position env rnd best_target route_index route state k = Some state' \<and>
     sound env rnd (snd state') \<and> current_ok env rnd (snd state') route (Suc k) (fst state')"
proof -
  from try_alight_sound [OF assms] obtain st' where a:
    "try_alight env rnd best_target route k (rr_stop_indices route ! k) (fst state) (snd state) = Some st'"
    "sound env rnd st'" "current_ok env rnd st' route k (fst state)" by blast
  from try_board_sound [OF assms(1-5) a(2,3)] obtain current' where
    "try_board env rnd route_index route k (rr_stop_indices route ! k) st' (fst state) = Some current'"
    "current_ok env rnd st' route (Suc k) current'" by blast
  with a k show ?thesis by (simp add: scan_position_def)
qed

text \<open>Marks, queue positions and counters play no part in soundness.\<close>

lemma link_cong:
  assumes "ss_rounds st' = ss_rounds st" and "ss_parents st' = ss_parents st"
  shows "link env st' r s t p = link env st r s t p"
proof -
  have ride: "ride_link env st' q route trip board = ride_link env st q route trip board" for q route trip board
    using assms by (simp add: ride_link_def ready_at_def)
  show ?thesis
  proof (cases p)
    case (Some parent)
    then show ?thesis by (cases parent) (simp_all only: link.simps assms ride)
  qed simp
qed

lemma sound_cong:
  assumes "sound env rnd st" and "ss_rounds st' = ss_rounds st" and "ss_parents st' = ss_parents st"
    and "ss_best st' = ss_best st" and "dims env st'"
  shows "sound env rnd st'"
proof -
  have "linked env st' = linked env st" by (simp add: linked_def link_cong [OF assms(2,3)] reached_def assms(2,3))
  then show ?thesis using assms
    by (simp add: sound_def labels_sound_def ranked_def bests_ok_def fresh_above_def reached_def)
qed

lemma current_ok_None [simp]: "current_ok env rnd st route k None"
  by (simp add: current_ok_def)

text \<open>A queued route is scanned from its position to its end.\<close>

lemma scan_route_sound:
  assumes ok: "env_ok env" and rnd: "1 \<le> rnd" "rnd \<le> se_max_rounds env"
    and route: "fst entry < length (tt_routes (se_timetable env))" and s: "sound env rnd st"
  shows "\<exists>st'. scan_route env rnd best_target st entry = Some st' \<and> sound env rnd st'"
proof -
  let ?route = "tt_routes (se_timetable env) ! fst entry"
  let ?st = "st\<lparr>ss_stats := (ss_stats st)\<lparr>stat_routes_scanned := stat_routes_scanned (ss_stats st) + 1\<rparr>\<rparr>"
  have s': "sound env rnd ?st" by (rule sound_cong [OF s]) (use s in \<open>auto simp: sound_def dims_def\<close>)
  have mem: "?route \<in> set (tt_routes (se_timetable env))" using route by simp
  then have rok: "route_ok (tt_stop_indices (se_timetable env)) ?route"
    using ok unfolding env_ok_def timetable_ok_def by blast
  then have ne: "rr_trips ?route \<noteq> []" by (simp add: route_ok_def)
  then have hd: "rr_trips ?route ! 0 = hd (rr_trips ?route)" "0 < length (rr_trips ?route)" by (auto simp: hd_conv_nth)
  show ?thesis
  proof (cases "rt_route_id (hd (rr_trips ?route)) \<in> set (se_excluded env) \<or>
      rq_modes (se_request env) \<noteq> [] \<and> rt_mode (hd (rr_trips ?route)) \<notin> set (rq_modes (se_request env))")
    case True
    with s' route hd show ?thesis by (auto simp: scan_route_def Let_def)
  next
    case False
    then have sc: "scannable env (fst entry) ?route" using route by (auto simp: scannable_def)
    have len: "length (rt_stop_times (hd (rr_trips ?route))) = length (rr_stop_indices ?route)"
      using route_ok_lengths(1) [OF rok hd_in_set [OF ne]] .
    let ?P = "\<lambda>ys zs (state :: current_trip \<times> search_state). sound env rnd (snd state) \<and>
       current_ok env rnd (snd state) ?route (snd entry + length (ys :: nat list)) (fst state)"
    have "\<exists>state. foldM (scan_position env rnd best_target (fst entry) ?route) (None, ?st)
        [snd entry..<length (rr_stop_indices ?route)] = Some state \<and>
        ?P [snd entry..<length (rr_stop_indices ?route)] [] state"
    proof (rule foldM_total [where P = ?P])
      show "?P [] [snd entry..<length (rr_stop_indices ?route)] (None, ?st)" using s' by simp
    next
      fix ys x zs state
      assume split: "[snd entry..<length (rr_stop_indices ?route)] = ys @ x # zs" and inv: "?P ys (x # zs) state"
      have "([snd entry..<length (rr_stop_indices ?route)]) ! length ys = x" unfolding split by simp
      moreover have "length ys < length [snd entry..<length (rr_stop_indices ?route)]" unfolding split by simp
      ultimately have x: "x = snd entry + length ys" "x < length (rr_stop_indices ?route)" by auto
      with inv show "\<exists>state'. scan_position env rnd best_target (fst entry) ?route state x = Some state' \<and> ?P (ys @ [x]) zs state'"
        using scan_position_sound [OF ok rnd sc, of x state best_target] by simp
    qed
    then obtain state where "foldM (scan_position env rnd best_target (fst entry) ?route) (None, ?st)
        [snd entry..<length (rr_stop_indices ?route)] = Some state" "sound env rnd (snd state)" by blast
    with False route hd len show ?thesis by (auto simp: scan_route_def Let_def)
  qed
qed

end
