(* ===== verification/Raptor_Rounds.thy ===== *)
theory Raptor_Rounds
  imports Raptor_Sound
begin

text \<open>
  The rounds as a whole: which routes a round scans and from where, that no step of the search
  panics, and the state it ends in. The environment \<open>search_setup\<close> builds is well formed.
\<close>

section \<open>Collecting the routes of the marked stops\<close>

definition queue_inv :: "usize \<Rightarrow> (usize \<times> usize) list \<Rightarrow> usize list \<times> (usize \<times> usize) list \<Rightarrow> bool" where
  "queue_inv n processed state \<longleftrightarrow> (let (queued, routes_to_scan) = state in
     length queued = n \<and> distinct (map fst routes_to_scan) \<and>
     (\<forall>i < length routes_to_scan. fst (routes_to_scan ! i) < n \<and> queued ! fst (routes_to_scan ! i) = i) \<and>
     (\<forall>r < n. queued ! r = usize_MAX \<or> (queued ! r < length routes_to_scan \<and> fst (routes_to_scan ! (queued ! r)) = r)) \<and>
     set routes_to_scan \<subseteq> set processed \<and>
     (\<forall>(r, k) \<in> set processed. \<exists>k' \<le> k. (r, k') \<in> set routes_to_scan))"

lemma queue_inv_length:
  assumes "queue_inv n processed (queued, routes_to_scan)"
  shows "length routes_to_scan \<le> n"
proof -
  have d: "distinct (map fst routes_to_scan)" and r: "\<forall>i < length routes_to_scan. fst (routes_to_scan ! i) < n"
    using assms by (auto simp: queue_inv_def)
  from r have "set (map fst routes_to_scan) \<subseteq> {..<n}"
    unfolding set_conv_nth by auto
  then have "card (set (map fst routes_to_scan)) \<le> card {..<n}" by (intro card_mono) auto
  with d show ?thesis using distinct_card by fastforce
qed

lemma queue_route_inv:
  assumes inv: "queue_inv n processed state" and r: "fst entry < n" and n: "n < usize_MAX"
  shows "\<exists>state'. queue_route state entry = Some state' \<and> queue_inv n (processed @ [entry]) state'"
proof -
  obtain queued rts where state: "state = (queued, rts)" by (cases state)
  obtain r k where entry: "entry = (r, k)" by (cases entry)
  have len: "length queued = n" and dist: "distinct (map fst rts)"
    and slots: "\<And>i. i < length rts \<Longrightarrow> fst (rts ! i) < n \<and> queued ! fst (rts ! i) = i"
    and fwd: "\<And>r. r < n \<Longrightarrow> queued ! r = usize_MAX \<or> (queued ! r < length rts \<and> fst (rts ! (queued ! r)) = r)"
    and sub: "set rts \<subseteq> set processed"
    and cover: "\<And>r k. (r, k) \<in> set processed \<Longrightarrow> \<exists>k' \<le> k. (r, k') \<in> set rts"
    using inv by (auto simp: queue_inv_def state)
  have short: "length rts < usize_MAX" using queue_inv_length [of n processed queued rts] inv n by (simp add: state)
  have rn: "r < n" using r by (simp add: entry)
  show ?thesis
  proof (cases "queued ! r = usize_MAX")
    case True
    have new: "r \<notin> fst ` set rts"
    proof
      assume "r \<in> fst ` set rts"
      then obtain i where "i < length rts" "fst (rts ! i) = r" by (auto simp: in_set_conv_nth)
      with slots [of i] True short show False by simp
    qed
    have "queue_inv n (processed @ [entry]) (queued[r := length rts], rts @ [(r, k)])"
      unfolding queue_inv_def
    proof (simp add: len dist new entry, intro conjI allI impI ballI)
      fix i assume i: "i < Suc (length rts)"
      show "fst ((rts @ [(r, k)]) ! i) < n" using i slots [of i] rn by (cases "i = length rts") (auto simp: nth_append)
      show "queued[r := length rts] ! fst ((rts @ [(r, k)]) ! i) = i"
      proof (cases "i = length rts")
        case False
        with i have "i < length rts" by simp
        moreover from this new have "fst (rts ! i) \<noteq> r" by (metis image_eqI nth_mem)
        ultimately show ?thesis using slots [of i] by (simp add: nth_append)
      qed (simp add: rn len)
    next
      fix r' assume r': "r' < n"
      show "queued[r := length rts] ! r' = usize_MAX \<or>
         queued[r := length rts] ! r' < Suc (length rts) \<and> fst ((rts @ [(r, k)]) ! (queued[r := length rts] ! r')) = r'"
        using fwd [OF r'] r' len by (cases "r' = r") (auto simp: nth_append)
    next
      show "set rts \<subseteq> insert (r, k) (set processed)" using sub by auto
    qed (use cover in fastforce)+
    with True rn len show ?thesis by (simp add: queue_route_def state entry)
  next
    case False
    let ?p = "queued ! r"
    have p: "?p < length rts" "fst (rts ! ?p) = r" using fwd [OF rn] False by auto
    show ?thesis
    proof (cases "k < snd (rts ! ?p)")
      case True
      let ?rts = "rts[?p := (r, k)]"
      have nths: "fst (?rts ! i) = fst (rts ! i)" if "i < length rts" for i
        using that p by (cases "i = ?p") simp_all
      then have fsts: "map fst ?rts = map fst rts" by (intro nth_equalityI) simp_all
      have here: "(r, k) \<in> set ?rts" using p(1) by (rule set_update_memI)
      have keep: "\<exists>k'' \<le> k'. (r', k'') \<in> set ?rts" if "(r', k') \<in> set rts" for r' k'
      proof -
        from that obtain i where i: "i < length rts" "rts ! i = (r', k')" by (auto simp: in_set_conv_nth)
        show ?thesis
        proof (cases "i = ?p")
          case True
          with i p have "r' = r" "k' = snd (rts ! ?p)" by auto
          with here \<open>k < snd (rts ! ?p)\<close> show ?thesis by (intro exI [of _ k]) simp
        next
          case False
          with i have "?rts ! i = (r', k')" by simp
          with i(1) show ?thesis by (metis le_refl length_list_update nth_mem)
        qed
      qed
      have sub': "set ?rts \<subseteq> insert (r, k) (set processed)"
        using set_update_subset_insert [of rts ?p "(r, k)"] sub by auto
      have cover': "\<exists>k'' \<le> k'. (r', k'') \<in> set ?rts" if "(r', k') \<in> set processed" for r' k'
        using cover [OF that] keep by (meson order_trans)
      have fwd': "queued ! r' = usize_MAX \<or> (queued ! r' < length rts \<and> fst (?rts ! (queued ! r')) = r')" if "r' < n" for r'
        using fwd [OF that] nths by auto
      have "queue_inv n (processed @ [entry]) (queued, rts[?p := (fst (rts ! ?p), k)])"
        unfolding queue_inv_def p(2) using len dist slots fwd' p sub' cover' here
        by (auto simp: fsts nths entry)
      with False True p rn len show ?thesis by (simp add: queue_route_def state entry)
    next
      case le: False
      have "(r, snd (rts ! ?p)) \<in> set rts" using p by (metis nth_mem prod.collapse)
      then have "queue_inv n (processed @ [entry]) (queued, rts)"
        unfolding queue_inv_def using len dist slots fwd sub cover le
        by (auto simp: entry not_less)
      with False le p rn len show ?thesis by (simp add: queue_route_def state entry)
    qed
  qed
qed

text \<open>
  The queue of a round: every route that serves a marked stop is scanned exactly once, from the
  earliest position at which a marked stop occurs on it; the slots are free again afterwards.
\<close>

definition marked_positions :: "search_env \<Rightarrow> usize list \<Rightarrow> (usize \<times> usize) list" where
  "marked_positions env marked = concat (map (stop_routes_of (se_timetable env)) marked)"

lemma collect_routes_correct:
  fixes env :: search_env
  defines "n \<equiv> length (tt_routes (se_timetable env))"
  assumes n: "n < usize_MAX" and range: "\<forall>entry \<in> set (marked_positions env marked). fst entry < n"
  shows "\<exists>routes_to_scan. collect_routes env marked (replicate n usize_MAX) = Some (replicate n usize_MAX, routes_to_scan) \<and>
     distinct (map fst routes_to_scan) \<and> set routes_to_scan \<subseteq> set (marked_positions env marked) \<and>
     (\<forall>(r, k) \<in> set (marked_positions env marked). \<exists>k' \<le> k. (r, k') \<in> set routes_to_scan)"
proof -
  let ?entries = "marked_positions env marked"
  have "\<exists>state. foldM queue_route (replicate n usize_MAX, []) ?entries = Some state \<and> queue_inv n ?entries state"
  proof (rule foldM_total [where P = "\<lambda>processed _. queue_inv n processed"])
    show "queue_inv n [] (replicate n usize_MAX, [])" by (simp add: queue_inv_def)
  next
    fix ys x zs state
    assume "?entries = ys @ x # zs" and inv: "queue_inv n ys state"
    then have "x \<in> set ?entries" by simp
    with range have "fst x < n" by blast
    from queue_route_inv [OF inv this n]
    show "\<exists>state'. queue_route state x = Some state' \<and> queue_inv n (ys @ [x]) state'" .
  qed
  then obtain queued rts where q: "foldM queue_route (replicate n usize_MAX, []) ?entries = Some (queued, rts)"
    and inv: "queue_inv n ?entries (queued, rts)" by auto
  have len: "length queued = n"
    and slots: "\<And>i. i < length rts \<Longrightarrow> fst (rts ! i) < n \<and> queued ! fst (rts ! i) = i"
    and fwd: "\<And>r. r < n \<Longrightarrow> queued ! r = usize_MAX \<or> (queued ! r < length rts \<and> fst (rts ! (queued ! r)) = r)"
    using inv by (auto simp: queue_inv_def)
  let ?P = "\<lambda>ys (zs :: (usize \<times> usize) list) queued'. length queued' = n \<and>
    (\<forall>r < n. queued' ! r = (if r \<in> fst ` set (ys :: (usize \<times> usize) list) then usize_MAX else queued ! r))"
  have "\<exists>queued'. foldM (\<lambda>queued entry. upd queued (fst entry) usize_MAX) queued rts = Some queued' \<and> ?P rts [] queued'"
  proof (rule foldM_total [where P = ?P])
    show "?P [] rts queued" using len by simp
  next
    fix ys x zs queued'
    assume split: "rts = ys @ x # zs" and P: "?P ys (x # zs) queued'"
    then have "fst x < n" using slots [of "length ys"] by simp
    with P show "\<exists>q. upd queued' (fst x) usize_MAX = Some q \<and> ?P (ys @ [x]) zs q"
      by (auto simp: nth_list_update)
  qed
  then obtain queued' where r: "foldM (\<lambda>queued entry. upd queued (fst entry) usize_MAX) queued rts = Some queued'"
    and q': "length queued' = n" "\<forall>r < n. queued' ! r = (if r \<in> fst ` set rts then usize_MAX else queued ! r)" by blast
  have "queued' ! r = usize_MAX" if "r < n" for r
    using q'(2) that fwd [OF that] by (auto simp: image_iff) (metis nth_mem)
  then have "queued' = replicate n usize_MAX" using q'(1) by (intro nth_equalityI) auto
  moreover have "collect_routes env marked (replicate n usize_MAX) = Some (queued', rts)"
    using q r by (simp add: collect_routes_def marked_positions_def)
  ultimately show ?thesis using inv by (auto simp: queue_inv_def)
qed

section \<open>Marks and targets\<close>

lemma clear_marks_total:
  assumes "dims env st"
  shows "\<exists>flags. clear_marks st = Some (st\<lparr>ss_marked := [], ss_marked_flags := flags\<rparr>) \<and> length flags = se_stop_count env"
proof -
  have "\<exists>flags. foldM (\<lambda>flags stop. upd flags stop False) (ss_marked_flags st) (ss_marked st) = Some flags \<and>
      length flags = se_stop_count env"
    by (rule foldM_total_simple) (use assms in \<open>auto simp: dims_def\<close>)
  then show ?thesis by (auto simp: clear_marks_def)
qed

lemma best_target_time_total: "dims env st \<Longrightarrow> env_ok env \<Longrightarrow> \<exists>time. best_target_time env st = Some time"
  by (auto simp: best_target_time_def dims_def env_ok_def mapM_total [where g = "\<lambda>i. ss_best st ! i"] subset_eq)

section \<open>A round\<close>

lemma sound_Suc: "sound env rnd st \<Longrightarrow> sound env (Suc rnd) st"
  by (auto simp: sound_def fresh_above_def intro: le_SucI)

lemma marked_positions_range:
  assumes "env_ok env"
  shows "\<forall>entry \<in> set (marked_positions env marked). fst entry < length (tt_routes (se_timetable env))"
proof -
  have "positions_ok (se_timetable env)" using assms by (simp add: env_ok_def timetable_ok_def)
  then show ?thesis
    by (auto simp: marked_positions_def stop_routes_of_def positions_ok_def idx_def split: if_splits)
qed

lemma raptor_round_sound:
  assumes ok: "env_ok env" and rnd: "1 \<le> rnd" "rnd \<le> se_max_rounds env" and s: "sound env rnd st"
  shows "\<exists>st'. raptor_round env rnd st = Some st' \<and> sound env rnd st'"
proof -
  let ?n = "length (tt_routes (se_timetable env))"
  let ?st = "st\<lparr>ss_stats := (ss_stats st)\<lparr>stat_rounds := stat_rounds (ss_stats st) + 1,
          stat_marked_stops := stat_marked_stops (ss_stats st) + length (ss_marked st)\<rparr>\<rparr>"
  have d: "dims env ?st" using s by (simp add: sound_def dims_def)
  from clear_marks_total [OF d] obtain flags where
    clear: "clear_marks ?st = Some (?st\<lparr>ss_marked := [], ss_marked_flags := flags\<rparr>)" "length flags = se_stop_count env"
    by blast
  let ?st1 = "?st\<lparr>ss_marked := [], ss_marked_flags := flags\<rparr>"
  have d1: "dims env ?st1" using d clear(2) by (simp add: dims_def)
  have n: "?n < usize_MAX" using ok by (simp add: env_ok_def)
  have q: "ss_queued_route_positions ?st1 = replicate ?n usize_MAX" using d1 by (simp add: dims_def)
  from collect_routes_correct [OF n marked_positions_range [OF ok], of "ss_marked st"] obtain rts where
    rts: "collect_routes env (ss_marked st) (replicate ?n usize_MAX) = Some (replicate ?n usize_MAX, rts)"
      "set rts \<subseteq> set (marked_positions env (ss_marked st))" by blast
  let ?st2 = "?st1\<lparr>ss_queued_route_positions := replicate ?n usize_MAX\<rparr>"
  have d2: "dims env ?st2" using d1 by (simp add: dims_def)
  have s2: "sound env rnd ?st2" by (rule sound_cong [OF s _ _ _ d2]) simp_all
  obtain best where best: "best_target_time env ?st2 = Some best" using best_target_time_total [OF d2 ok] by blast
  have range: "fst entry < ?n" if "entry \<in> set rts" for entry
    using that rts(2) marked_positions_range [OF ok, of "ss_marked st"] by blast
  have "\<exists>st'. foldM (scan_route env rnd best) ?st2 rts = Some st' \<and> sound env rnd st'"
  proof (rule foldM_total_simple [where P = "sound env rnd"])
    fix entry st' assume "entry \<in> set rts" "sound env rnd st'"
    with scan_route_sound [OF ok rnd range] show "\<exists>s. scan_route env rnd best st' entry = Some s \<and> sound env rnd s" by simp
  qed (rule s2)
  then obtain st3 where scan: "foldM (scan_route env rnd best) ?st2 rts = Some st3" and s3: "sound env rnd st3" by blast
  obtain best' where best': "best_target_time env st3 = Some best'"
    using best_target_time_total [OF _ ok, of st3] s3 by (auto simp: sound_def)
  from relax_sound [OF ok rnd(2) s3, of best'] obtain st4 where
    "relax_raptor_transfers env rnd best' st3 = Some st4" "sound env rnd st4" by blast
  with scan best best' rts(1) clear(1) q show ?thesis by (simp add: raptor_round_def Let_def)
qed

lemma raptor_rounds_sound:
  assumes ok: "env_ok env" and "sound env rnd st"
  shows "\<exists>st'. raptor_rounds env [Suc rnd..<Suc (se_max_rounds env)] st = Some st' \<and>
     sound env (max rnd (se_max_rounds env)) st'"
  using assms(2)
proof (induction "se_max_rounds env - rnd" arbitrary: rnd st)
  case 0
  then have "[Suc rnd..<Suc (se_max_rounds env)] = []" "max rnd (se_max_rounds env) = rnd" by simp_all
  with 0 show ?case by simp
next
  case (Suc n)
  then have le: "rnd < se_max_rounds env" by simp
  then have up: "[Suc rnd..<Suc (se_max_rounds env)] = Suc rnd # [Suc (Suc rnd)..<Suc (se_max_rounds env)]"
    by (simp add: upt_rec)
  have mono: "sound env (se_max_rounds env) st"
    using Suc.prems le by (auto simp: sound_def fresh_above_def dest: order.strict_implies_order order_trans)
  show ?case
  proof (cases "ss_marked st = []")
    case True
    with up mono le show ?thesis by (simp add: max_def)
  next
    case False
    from raptor_round_sound [OF ok _ _ sound_Suc [OF Suc.prems]] le obtain st' where
      "raptor_round env (Suc rnd) st = Some st'" "sound env (Suc rnd) st'" by auto
    with Suc.hyps(1) [of "Suc rnd" st'] Suc.hyps(2) up False le show ?thesis by (simp add: max_def split: if_splits)
  qed
qed

section \<open>Seeding the origins\<close>

definition seeded :: "search_env \<Rightarrow> search_state \<Rightarrow> bool" where
  "seeded env st \<longleftrightarrow> dims env st \<and> (\<forall>r \<le> se_max_rounds env. ss_parents st ! r = Map.empty) \<and> bests_ok env st \<and>
     (\<forall>r s. reached env st r s \<longrightarrow> r = 0 \<and> s \<in> set (se_origins env) \<and> label st r s = rq_departure_time (se_request env)) \<and>
     (\<forall>s < se_stop_count env. ss_best st ! s = label st 0 s)"

lemma seeded_sound:
  assumes "seeded env st"
  shows "sound env 0 st"
proof -
  have par: "parent_at st r s = None" if "reached env st r s" for r s
    using assms that by (simp add: seeded_def reached_def)
  have "ranked env st (\<lambda>_ _. 0)" using par by (auto simp: ranked_def)
  moreover have "linked env st" using assms par unfolding linked_def seeded_def by auto
  moreover have "labels_sound env st"
    unfolding labels_sound_def
  proof (intro allI impI)
    fix r s assume r: "reached env st r s"
    with assms have "r = 0" "s \<in> set (se_origins env)" "label st r s = rq_departure_time (se_request env)"
      unfolding seeded_def by auto
    with par [OF r] reach_origin [of s env] show "reach env r s (label st r s) (kind_of (parent_at st r s))"
      by (simp add: kind_of_def)
  qed
  moreover have "fresh_above env 0 st" using assms unfolding fresh_above_def seeded_def by auto
  ultimately show ?thesis using assms by (auto simp: sound_def seeded_def)
qed

lemma seeded_initial: "seeded env (initial_state env)"
  by (auto simp: seeded_def initial_state_def dims_def reached_def bests_ok_def nth_append simp del: replicate_Suc)

lemma seed_origin_seeded:
  assumes s: "seeded env st" and stop: "stop \<in> set (se_origins env)" "stop < se_stop_count env"
  shows "\<exists>st'. seed_origin env st stop = Some st' \<and> seeded env st'"
proof -
  let ?dep = "rq_departure_time (se_request env)"
  define st' where "st' = st\<lparr>ss_rounds := (ss_rounds st)[0 := (ss_rounds st ! 0)[stop := ?dep]], ss_best := (ss_best st)[stop := ?dep]\<rparr>"
  have d: "dims env st" using s by (simp add: seeded_def)
  then have set: "set_label 0 stop ?dep st = Some st'"
    using stop by (auto simp: label_ops_Some dims_def st'_def)
  have d': "dims env st'" using d by (auto simp: dims_def nth_list_update st'_def)
  have lab: "label st' r s = (if r = 0 \<and> s = stop then ?dep else label st r s)" if "s < se_stop_count env" for r s
    using that d by (auto simp: dims_def nth_list_update st'_def)
  have best: "ss_best st' ! s = (if s = stop then ?dep else ss_best st ! s)" if "s < se_stop_count env" for s
    using that d by (auto simp: dims_def nth_list_update st'_def)
  have par: "ss_parents st' = ss_parents st" by (simp add: st'_def)
  have unreached: "label st r s = u32_MAX" if "0 < r" "r \<le> se_max_rounds env" "s < se_stop_count env" for r s
    using s that unfolding seeded_def reached_def by blast
  have seeded: "seeded env st'"
    using s d' stop unreached unfolding seeded_def bests_ok_def reached_def
    by (auto simp: lab best par)
  have "stop < length (ss_marked_flags st')" using d' stop by (simp add: dims_def)
  then obtain st'' where mark: "mark_raptor_stop stop st' = Some st''" by (simp add: label_ops_Some)
  then have "seeded env st''"
    using seeded stop by (auto simp: label_ops_Some dims_def seeded_def bests_ok_def reached_def)
  with set mark show ?thesis by (auto simp: seed_origin_def)
qed

lemma raptor_search_sound:
  assumes ok: "env_ok env"
  shows "\<exists>st. raptor_search env = Some st \<and> sound env (se_max_rounds env) st"
proof -
  have "\<exists>st. foldM (seed_origin env) (initial_state env) (se_origins env) = Some st \<and> seeded env st"
    by (rule foldM_total_simple [where P = "seeded env"])
       (use seeded_initial seed_origin_seeded ok in \<open>auto simp: env_ok_def subset_eq\<close>)
  then obtain st0 where st0: "foldM (seed_origin env) (initial_state env) (se_origins env) = Some st0" "seeded env st0" by blast
  from relax_sound [OF ok _ seeded_sound [OF st0(2)], of u32_MAX] obtain st1 where
    st1: "relax_raptor_transfers env 0 u32_MAX st0 = Some st1" "sound env 0 st1" by auto
  from raptor_rounds_sound [OF ok st1(2)] st0(1) st1(1) show ?thesis by (simp add: raptor_search_def)
qed

section \<open>The environment of a request\<close>

definition resolver_ok :: "raptor_timetable \<Rightarrow> resolver \<Rightarrow> bool" where
  "resolver_ok tt state \<longleftrightarrow> distinct (fst state) \<and>
     (\<forall>stop i. snd state stop = Some i \<longleftrightarrow> tt_stop_indices tt stop = None \<and> length (tt_stops tt) \<le> i \<and>
        i < length (tt_stops tt) + length (fst state) \<and> fst state ! (i - length (tt_stops tt)) = stop) \<and>
     (\<forall>stop \<in> set (fst state). tt_stop_indices tt stop = None)"

definition resolver_bound :: "raptor_timetable \<Rightarrow> resolver \<Rightarrow> usize" where
  "resolver_bound tt state = length (tt_stops tt) + length (fst state)"

lemma resolve_stop_index_ok:
  assumes num: "numbering_ok (tt_stop_indices tt, tt_stops tt)" and r: "resolver_ok tt state"
    and res: "resolve_stop_index tt state stop = (i, state')"
  shows "resolver_ok tt state'" and "i < resolver_bound tt state'" and "resolver_bound tt state \<le> resolver_bound tt state'"
proof -
  obtain ids m where st: "state = (ids, m)" by (cases state)
  show "resolver_ok tt state'" and "i < resolver_bound tt state'" and "resolver_bound tt state \<le> resolver_bound tt state'"
  proof (atomize (full), cases "tt_stop_indices tt stop")
    case (Some j)
    with num res r show "resolver_ok tt state' \<and> i < resolver_bound tt state' \<and> resolver_bound tt state \<le> resolver_bound tt state'"
      by (auto simp: resolve_stop_index_def numbering_ok_def resolver_bound_def)
  next
    case none: None
    show "resolver_ok tt state' \<and> i < resolver_bound tt state' \<and> resolver_bound tt state \<le> resolver_bound tt state'"
    proof (cases "m stop")
      case (Some j)
      with none res r show ?thesis by (auto simp: resolve_stop_index_def resolver_bound_def resolver_ok_def st)
    next
      case None
      have fresh: "stop \<notin> set ids"
      proof
        assume "stop \<in> set ids"
        then obtain j where "j < length ids" "ids ! j = stop" by (auto simp: in_set_conv_nth)
        with r none have "m stop = Some (length (tt_stops tt) + j)" by (simp add: resolver_ok_def st)
        with None show False by simp
      qed
      let ?n = "length (tt_stops tt)"
      have new: "state' = (ids @ [stop], m(stop \<mapsto> ?n + length ids))" "i = ?n + length ids"
        using none None res by (auto simp: resolve_stop_index_def st Let_def)
      have known: "m s = Some j \<longleftrightarrow> tt_stop_indices tt s = None \<and> ?n \<le> j \<and> j < ?n + length ids \<and> ids ! (j - ?n) = s" for s j
        using r by (simp add: resolver_ok_def st)
      have "(m(stop \<mapsto> ?n + length ids)) s = Some j \<longleftrightarrow> tt_stop_indices tt s = None \<and> ?n \<le> j \<and>
          j < ?n + length (ids @ [stop]) \<and> (ids @ [stop]) ! (j - ?n) = s" for s j
      proof (cases "j = ?n + length ids")
        case True
        with none known [of s j] show ?thesis by auto
      next
        case False
        show ?thesis
        proof (cases "s = stop")
          case True
          have "ids ! (j - ?n) \<noteq> stop" if "?n \<le> j" "j < ?n + length ids"
          proof -
            from that have "j - ?n < length ids" by simp
            with fresh show ?thesis by (metis nth_mem)
          qed
          with True False show ?thesis by (auto simp: nth_append)
        next
          case other: False
          with known [of s j] False show ?thesis by (auto simp: nth_append)
        qed
      qed
      moreover have "distinct (ids @ [stop])" "\<forall>s \<in> set (ids @ [stop]). tt_stop_indices tt s = None"
        using r fresh none by (auto simp: resolver_ok_def st)
      ultimately have "resolver_ok tt state'" unfolding resolver_ok_def new fst_conv snd_conv by blast
      then show ?thesis by (simp add: new resolver_bound_def st)
    qed
  qed
qed

lemma resolve_stops_ok:
  assumes num: "numbering_ok (tt_stop_indices tt, tt_stops tt)"
  shows "resolver_ok tt state \<Longrightarrow> resolve_stops tt state ids = (indices, state') \<Longrightarrow>
     resolver_ok tt state' \<and> set indices \<subseteq> {..<resolver_bound tt state'} \<and> resolver_bound tt state \<le> resolver_bound tt state'"
proof (induction ids arbitrary: state indices)
  case (Cons stop ids)
  obtain i st1 where one: "resolve_stop_index tt state stop = (i, st1)" by (rule prod.exhaust)
  obtain rest st2 where two: "resolve_stops tt st1 ids = (rest, st2)" by (rule prod.exhaust)
  from Cons.prems one two have eq: "indices = i # rest" "state' = st2" by simp_all
  note r = resolve_stop_index_ok [OF num Cons.prems(1) one]
  from Cons.IH [OF r(1) two [folded eq(2)]] r eq show ?case by auto
qed simp

lemma resolve_transfers_ok:
  assumes num: "numbering_ok (tt_stop_indices tt, tt_stops tt)"
  shows "resolver_ok tt state \<Longrightarrow> resolve_transfers tt state ts = (pairs, state') \<Longrightarrow>
     resolver_ok tt state' \<and> (\<forall>x \<in> set pairs. rx_to_stop_index x < resolver_bound tt state') \<and>
     resolver_bound tt state \<le> resolver_bound tt state'"
proof (induction ts arbitrary: state pairs)
  case (Cons t ts)
  obtain i st1 where one: "resolve_stop_index tt state (tr_from_stop_id t) = (i, st1)" by (rule prod.exhaust)
  obtain j st2 where two: "resolve_stop_index tt st1 (tr_to_stop_id t) = (j, st2)" by (rule prod.exhaust)
  obtain rest st3 where three: "resolve_transfers tt st2 ts = (rest, st3)" by (rule prod.exhaust)
  note r1 = resolve_stop_index_ok [OF num Cons.prems(1) one]
  note r2 = resolve_stop_index_ok [OF num r1(1) two]
  from Cons.prems one two three have eq: "state' = st3" and to: "\<forall>x \<in> set pairs. rx_to_stop_index x = j \<or> x \<in> set rest"
    by auto
  from Cons.IH [OF r2(1) three [folded eq]] have ih: "resolver_ok tt state'"
    "\<And>x. x \<in> set rest \<Longrightarrow> rx_to_stop_index x < resolver_bound tt state'" "resolver_bound tt st2 \<le> resolver_bound tt state'"
    by blast+
  have "j < resolver_bound tt state'" using r2(2) ih(3) by simp
  with ih(2) to have "\<forall>x \<in> set pairs. rx_to_stop_index x < resolver_bound tt state'" by metis
  with ih r1(3) r2(3) show ?case by simp
qed simp

lemma push_extra_to:
  "foldl push_extra m pairs stop = Some ts \<Longrightarrow> x \<in> set ts \<Longrightarrow> x \<in> set pairs \<or> (\<exists>ts0. m stop = Some ts0 \<and> x \<in> set ts0)"
proof (induction pairs arbitrary: m)
  case (Cons p pairs)
  have one: "x = p \<or> (\<exists>ts0. m stop = Some ts0 \<and> x \<in> set ts0)" if "push_extra m p stop = Some ts1" "x \<in> set ts1" for ts1
    using that by (auto simp: push_extra_def split: if_splits option.splits)
  from Cons.IH [of "push_extra m p"] Cons.prems consider "x \<in> set pairs"
    | ts1 where "push_extra m p stop = Some ts1" "x \<in> set ts1" by auto
  then show ?case using one by cases auto
qed simp

lemma search_setup_ok:
  assumes tt: "timetable_ok tt" and rt: "realtime_ok (rq_realtime request)"
    and indexed: "trips_indexed tt"
    and few: "length (tt_routes tt) < usize_MAX"
  shows "\<exists>env. search_setup tt request excluded = Some env \<and> env_ok env \<and> se_timetable env = tt \<and> se_request env = request \<and>
     se_excluded env = excluded \<and> se_max_rounds env = unat (rq_max_transfers request) + 1"
proof -
  have num: "numbering_ok (tt_stop_indices tt, tt_stops tt)" using tt by (simp add: timetable_ok_def)
  obtain bounds where bounds: "delay_bounds_by_route (rq_realtime request) tt = Some bounds"
      "bounds_sound (rq_realtime request) tt bounds"
    using delay_bounds_by_route_sound [OF tt rt indexed] by blast
  obtain origins st1 where one: "resolve_stops tt ([], Map.empty) (rq_from_stop_ids request) = (origins, st1)" by (rule prod.exhaust)
  obtain targets st2 where two: "resolve_stops tt st1 (rq_to_stop_ids request) = (targets, st2)" by (rule prod.exhaust)
  obtain pairs st3 where three: "resolve_transfers tt st2 (rq_extra_transfers request) = (pairs, st3)" by (rule prod.exhaust)
  have "resolver_ok tt ([], Map.empty)" by (simp add: resolver_ok_def)
  note r1 = resolve_stops_ok [OF num this one]
  note r2 = resolve_stops_ok [OF num conjunct1 [OF r1] two]
  note r3 = resolve_transfers_ok [OF num conjunct1 [OF r2] three]
  let ?env = "\<lparr>se_timetable = tt, se_request = request, se_bounds = bounds, se_excluded = excluded,
       se_extra = foldl push_extra Map.empty pairs, se_request_stop_ids = fst st3, se_origins = origins,
       se_targets = remdups_adj (sort targets), se_stop_count = length (tt_stops tt) + length (fst st3),
       se_max_rounds = unat (rq_max_transfers request) + 1\<rparr>"
  have "rx_to_stop_index x < resolver_bound tt st3" if "x \<in> set (transfers_from ?env stop)" for stop x
  proof -
    from that consider ts where "idx (tt_transfers_by_stop tt) stop = Some ts" "x \<in> set ts"
      | ts where "foldl push_extra Map.empty pairs stop = Some ts" "x \<in> set ts"
      by (cases "idx (tt_transfers_by_stop tt) stop"; cases "foldl push_extra Map.empty pairs stop")
         (auto simp: transfers_from_def)
    then show ?thesis
    proof cases
      case 1
      with tt have "rx_to_stop_index x < length (tt_stops tt)" by (auto simp: timetable_ok_def transfers_ok_def)
      then show ?thesis by (simp add: resolver_bound_def)
    next
      case 2
      from push_extra_to [OF this] r3 show ?thesis by auto
    qed
  qed
  then have "env_ok ?env"
    using tt rt bounds(2) few r1 r2 r3 by (auto simp: env_ok_def resolver_bound_def subset_eq)
  then show ?thesis using bounds(1) one two three by (simp add: search_setup_def)
qed

end
