(* ===== verification/Raptor_Journeys.thy ===== *)
theory Raptor_Journeys
  imports Raptor_Rounds
begin

text \<open>
  From labels to journeys. Following the parents from any label that a sound search has written
  ends, and the legs it collects lead from a requested origin to the target, in order of time,
  with one transit leg per round. \<open>align_leading_walk_to_first_transit_departure\<close> keeps all of
  this and the durations.
\<close>

section \<open>Connected and chronological legs\<close>

fun connects :: "string \<Rightarrow> journey_leg list \<Rightarrow> string \<Rightarrow> bool" where
  "connects a [] b \<longleftrightarrow> a = b"
| "connects a (leg # legs) b \<longleftrightarrow> leg_from_stop_id leg = a \<and> connects (leg_to_stop_id leg) legs b"

lemma connects_append: "connects a (xs @ ys) b \<longleftrightarrow> (\<exists>c. connects a xs c \<and> connects c ys b)"
  by (induction xs arbitrary: a) auto

definition leg_effective_arrival :: "search_env \<Rightarrow> journey_leg \<Rightarrow> u32" where
  "leg_effective_arrival env leg =
     (case leg_trip_id leg of
        None \<Rightarrow> leg_arrival_time leg
      | Some trip_id \<Rightarrow> adjusted_time (rq_realtime (se_request env)) trip_id (leg_to_stop_id leg) (leg_arrival_time leg))"

fun chronological :: "search_env \<Rightarrow> u32 \<Rightarrow> journey_leg list \<Rightarrow> u32 \<Rightarrow> bool" where
  "chronological env t [] t' \<longleftrightarrow> t = t'"
| "chronological env t (leg # legs) t' \<longleftrightarrow>
     t \<le> leg_effective_departure env leg \<and> chronological env (leg_effective_arrival env leg) legs t'"

lemma chronological_append:
  "chronological env t (xs @ ys) t' \<longleftrightarrow> (\<exists>u. chronological env t xs u \<and> chronological env u ys t')"
  by (induction xs arbitrary: t) auto

text \<open>What a leg is made of.\<close>

definition stop_name :: "search_env \<Rightarrow> usize \<Rightarrow> string" where
  "stop_name env = raptor_stop_id (se_timetable env) (se_request_stop_ids env)"

definition transit_leg :: "search_env \<Rightarrow> journey_leg \<Rightarrow> bool" where
  "transit_leg env leg \<longleftrightarrow> (\<exists>route trip board alight. rideable env route trip board alight \<and>
     leg_trip_id leg = Some (rt_trip_id trip) \<and> leg_route_id leg = Some (rt_route_id trip) \<and> leg_mode leg = rt_mode trip \<and>
     leg_from_stop_id leg = rst_stop_id (rt_stop_times trip ! board) \<and>
     leg_to_stop_id leg = rst_stop_id (rt_stop_times trip ! alight) \<and>
     leg_departure_time leg = rst_departure_time (rt_stop_times trip ! board) \<and>
     leg_arrival_time leg = rst_arrival_time (rt_stop_times trip ! alight))"

definition walking_leg :: "search_env \<Rightarrow> journey_leg \<Rightarrow> bool" where
  "walking_leg env leg \<longleftrightarrow> is_walk leg \<and> leg_departure_time leg \<le> leg_arrival_time leg \<and>
     (\<exists>p. \<exists>x \<in> set (transfers_from env p). leg_from_stop_id leg = stop_name env p \<and>
        leg_to_stop_id leg = stop_name env (rx_to_stop_index x) \<and>
        leg_arrival_time leg - leg_departure_time leg \<le> rx_min_transfer_seconds x)"

lemma transit_leg_not_walk: "transit_leg env leg \<Longrightarrow> \<not> is_walk leg"
  by (auto simp: transit_leg_def is_walk_def)

section \<open>The name of a stop on a route\<close>

lemma stop_name_on_route:
  assumes ok: "env_ok env" and route: "route \<in> set (tt_routes (se_timetable env))" and trip: "trip \<in> set (rr_trips route)"
    and k: "k < length (rt_stop_times trip)"
  shows "stop_name env (rr_stop_indices route ! k) = rst_stop_id (rt_stop_times trip ! k)"
proof -
  let ?si = "tt_stop_indices (se_timetable env)" and ?hd = "hd (rr_trips route)"
  have num: "numbering_ok (?si, tt_stops (se_timetable env))" and rok: "route_ok ?si route"
    using ok route unfolding env_ok_def timetable_ok_def by blast+
  have len: "length (rt_stop_times trip) = length (rr_stop_indices route)" by (rule route_ok_lengths(1) [OF rok trip])
  have si: "map Some (rr_stop_indices route) = map (\<lambda>st. ?si (rst_stop_id st)) (rt_stop_times ?hd)"
    and same: "same_key (rr_trips route)" using rok unfolding route_ok_def by blast+
  have lhd: "length (rt_stop_times ?hd) = length (rr_stop_indices route)" using arg_cong [OF si, of length] by simp
  have "?si (rst_stop_id (rt_stop_times ?hd ! k)) = Some (rr_stop_indices route ! k)"
    using arg_cong [OF si, of "\<lambda>xs. xs ! k"] k len lhd by simp
  then have idx: "rr_stop_indices route ! k < length (tt_stops (se_timetable env))"
    "tt_stops (se_timetable env) ! (rr_stop_indices route ! k) = rst_stop_id (rt_stop_times ?hd ! k)"
    using num unfolding numbering_ok_def by auto
  have "trip_key trip = trip_key ?hd" using same trip unfolding same_key_def by blast
  then have "map rst_stop_id (rt_stop_times trip) = map rst_stop_id (rt_stop_times ?hd)" by (simp add: trip_key_def)
  from arg_cong [OF this, of "\<lambda>xs. xs ! k"] have "rst_stop_id (rt_stop_times trip ! k) = rst_stop_id (rt_stop_times ?hd ! k)"
    using k len lhd by simp
  with idx show ?thesis by (simp add: stop_name_def raptor_stop_id_def)
qed

section \<open>Following the parents\<close>

lemma follow_parents_step:
  "follow_parents tt ids parents rnd stop legs =
     (case parent_of parents rnd stop of None \<Rightarrow> Some legs
      | Some parent \<Rightarrow> follow_parents tt ids parents (fst (previous_label rnd parent))
            (snd (previous_label rnd parent)) (parent_leg tt ids stop parent # legs))"
  by (subst follow_parents.simps) (rule refl)

definition good_legs :: "search_env \<Rightarrow> search_state \<Rightarrow> usize \<Rightarrow> usize \<Rightarrow> journey_leg list \<Rightarrow> bool" where
  "good_legs env st r s legs \<longleftrightarrow>
     (\<exists>origin \<in> set (se_origins env). connects (stop_name env origin) legs (stop_name env s)) \<and>
     chronological env (rq_departure_time (se_request env)) legs (label st r s) \<and>
     (\<forall>leg \<in> set legs. transit_leg env leg \<or> walking_leg env leg) \<and>
     length (filter (\<lambda>leg. \<not> is_walk leg) legs) = r"

lemma good_legs_walk:
  assumes prev: "good_legs env st r p legs" and le: "label st r p \<le> d" and d: "d \<noteq> u32_MAX"
    and x: "x \<in> set (transfers_from env p)" and a: "label st r (rx_to_stop_index x) = saturating_add d (rx_min_transfer_seconds x)"
    and leg: "leg = parent_leg (se_timetable env) (se_request_stop_ids env) (rx_to_stop_index x)
        (Walk p d (saturating_add d (rx_min_transfer_seconds x)) m g src)"
  shows "good_legs env st r (rx_to_stop_index x) (legs @ [leg])"
proof -
  let ?a = "saturating_add d (rx_min_transfer_seconds x)"
  have walk: "is_walk leg" "leg_effective_departure env leg = d" "leg_effective_arrival env leg = ?a"
      "leg_departure_time leg = d" "leg_arrival_time leg = ?a"
      "leg_from_stop_id leg = stop_name env p" "leg_to_stop_id leg = stop_name env (rx_to_stop_index x)"
    by (simp_all add: leg is_walk_def leg_effective_departure_def leg_effective_arrival_def stop_name_def)
  have "unat (?a - d) = unat ?a - unat d" by (rule unat_sub) simp
  then have "?a - d \<le> rx_min_transfer_seconds x" by (simp add: word_le_nat_alt u32_arith)
  then have "walking_leg env leg" using walk x unfolding walking_leg_def by auto
  with prev walk le a show ?thesis
    by (auto simp: good_legs_def connects_append chronological_append)
qed

lemma good_legs_ride:
  assumes ok: "env_ok env" and prev: "good_legs env st q (rr_stop_indices route ! board) legs"
    and ride: "rideable env route trip board alight" and rl: "ride_link env st q route trip board"
    and a: "label st (Suc q) (rr_stop_indices route ! alight) = arrives env trip alight"
    and leg: "leg = parent_leg (se_timetable env) (se_request_stop_ids env) (rr_stop_indices route ! alight)
        (Ride (rr_stop_indices route ! board) q (rt_trip_id trip) (rt_route_id trip) (rt_mode trip)
           (rst_departure_time (rt_stop_times trip ! board)) (rst_arrival_time (rt_stop_times trip ! alight)) official realtime)"
  shows "good_legs env st (Suc q) (rr_stop_indices route ! alight) (legs @ [leg])"
proof -
  have r: "route \<in> set (tt_routes (se_timetable env))" "trip \<in> set (rr_trips route)"
      "board < length (rt_stop_times trip)" "alight < length (rt_stop_times trip)"
    using ride by (auto simp: rideable_def)
  note name = stop_name_on_route [OF ok r(1,2)]
  have f: "leg_from_stop_id leg = rst_stop_id (rt_stop_times trip ! board)"
    and t: "leg_to_stop_id leg = rst_stop_id (rt_stop_times trip ! alight)"
    using name [OF r(3)] name [OF r(4)] by (simp_all add: leg stop_name_def)
  have tl: "transit_leg env leg"
    unfolding transit_leg_def
    by (intro exI [of _ route] exI [of _ trip] exI [of _ board] exI [of _ alight]) (use ride f t in \<open>simp add: leg\<close>)
  have ea: "leg_effective_departure env leg = departs env trip board" "leg_effective_arrival env leg = arrives env trip alight"
    using f t by (simp_all add: leg leg_effective_departure_def leg_effective_arrival_def effective_departure_def effective_arrival_def)
  have "label st q (rr_stop_indices route ! board) \<le> ready_at env st q (rr_stop_indices route ! board)"
    by (simp add: ready_at_def)
  then have "label st q (rr_stop_indices route ! board) \<le> departs env trip board"
    using rl by (auto simp: ride_link_def)
  with prev tl ea a f t name [OF r(3)] name [OF r(4)] transit_leg_not_walk [OF tl] show ?thesis
    by (auto simp: good_legs_def connects_append chronological_append)
qed

theorem follow_parents_total:
  assumes ok: "env_ok env" and s: "sound env rnd st" and "reached env st r stop"
  shows "\<exists>legs. follow_parents (se_timetable env) (se_request_stop_ids env) (ss_parents st) r stop acc = Some (legs @ acc) \<and>
     good_legs env st r stop legs"
proof -
  from s obtain rk where rk: "ranked env st rk" by (auto simp: sound_def)
  have d: "dims env st" and lk: "linked env st" using s by (simp_all add: sound_def)
  show ?thesis using assms(3)
  proof (induction "(r, unat (label st r stop), rk r stop)" arbitrary: r stop acc
      rule: wf_induct_rule [OF wf_lex_prod [OF wf_less_than wf_lex_prod [OF wf_less_than wf_less_than]]])
    case 1
    note IH = "1.hyps" and re = "1.prems"
    have len: "r < length (ss_parents st)" using re d by (simp add: dims_def reached_def)
    have l: "link env st r stop (label st r stop) (parent_at st r stop)" using lk re by (simp add: linked_def)
    show ?case
    proof (cases "parent_at st r stop")
      case None
      with l len show ?thesis
        by (subst follow_parents_step) (auto simp: parent_of_def good_legs_def)
    next
      case (Some parent)
      let ?leg = "parent_leg (se_timetable env) (se_request_stop_ids env) stop parent"
      have step: "follow_parents (se_timetable env) (se_request_stop_ids env) (ss_parents st) r stop acc =
          follow_parents (se_timetable env) (se_request_stop_ids env) (ss_parents st)
            (fst (previous_label r parent)) (snd (previous_label r parent)) (?leg # acc)"
        using Some len by (subst follow_parents_step) (simp add: parent_of_def)
      show ?thesis
      proof (cases parent)
        case (Walk p dd a m g src)
        with l Some obtain x where p: "p < se_stop_count env" "label st r p \<le> dd" "dd \<noteq> u32_MAX"
          and x: "x \<in> set (transfers_from env p)" "rx_to_stop_index x = stop"
          and a: "a = label st r stop" "a = saturating_add dd (rx_min_transfer_seconds x)" by auto
        have rp: "reached env st r p" using re p by (auto simp: reached_def)
        have ord: "label st r p \<le> label st r stop \<and> (label st r p = label st r stop \<longrightarrow> rk r p < rk r stop)"
          using rk re Some Walk unfolding ranked_def by blast
        then have "((r, unat (label st r p), rk r p), (r, unat (label st r stop), rk r stop))
            \<in> less_than <*lex*> (less_than <*lex*> less_than)"
          by (auto simp: word_le_nat_alt word_unat_eq_iff)
        from IH [OF this rp, of "?leg # acc"] obtain legs where
          f: "follow_parents (se_timetable env) (se_request_stop_ids env) (ss_parents st) r p (?leg # acc) = Some (legs @ ?leg # acc)"
            "good_legs env st r p legs" by blast
        have "good_legs env st r (rx_to_stop_index x) (legs @ [?leg])"
          by (rule good_legs_walk [OF f(2) p(2,3) x(1)]) (use a x Walk in simp_all)
        with step f Walk x show ?thesis by (intro exI [of _ "legs @ [?leg]"]) simp
      next
        case (Ride p q trip_id route_id mode dep arr official realtime)
        with l Some obtain route trip board alight where ride: "rideable env route trip board alight" and rq: "r = Suc q"
          and p: "rr_stop_indices route ! board = p" "rr_stop_indices route ! alight = stop"
          and ids: "trip_id = rt_trip_id trip" "route_id = rt_route_id trip" "mode = rt_mode trip"
            "dep = rst_departure_time (rt_stop_times trip ! board)" "arr = rst_arrival_time (rt_stop_times trip ! alight)"
          and t: "label st r stop = arrives env trip alight" and rl: "ride_link env st q route trip board"
          by (auto simp del: not_not)
        have rp: "reached env st q p" using rl re p rq by (simp add: ride_link_def reached_def)
        have "((q, unat (label st q p), rk q p), (r, unat (label st r stop), rk r stop))
            \<in> less_than <*lex*> (less_than <*lex*> less_than)" by (simp add: rq)
        from IH [OF this rp, of "?leg # acc"] obtain legs where
          f: "follow_parents (se_timetable env) (se_request_stop_ids env) (ss_parents st) q p (?leg # acc) = Some (legs @ ?leg # acc)"
            "good_legs env st q p legs" by blast
        have "good_legs env st (Suc q) (rr_stop_indices route ! alight) (legs @ [?leg])"
          by (rule good_legs_ride [OF ok _ ride rl]) (use f(2) t rq p ids Ride in simp_all)
        with step f Ride p rq show ?thesis by (intro exI [of _ "legs @ [?leg]"]) simp
      qed
    qed
  qed
qed

section \<open>Aligning the leading walk\<close>

definition same_leg :: "journey_leg \<Rightarrow> journey_leg \<Rightarrow> bool" where
  "same_leg a b \<longleftrightarrow> a\<lparr>leg_departure_time := 0, leg_arrival_time := 0\<rparr> = b\<lparr>leg_departure_time := 0, leg_arrival_time := 0\<rparr> \<and>
     leg_arrival_time a - leg_departure_time a = leg_arrival_time b - leg_departure_time b"

lemma same_leg_refl [simp]: "same_leg a a"
  by (simp add: same_leg_def)

lemma same_legD:
  assumes "same_leg a b"
  shows "leg_from_stop_id b = leg_from_stop_id a" "leg_to_stop_id b = leg_to_stop_id a"
    "leg_trip_id b = leg_trip_id a" "leg_route_id b = leg_route_id a" "leg_mode b = leg_mode a"
    "leg_warnings b = leg_warnings a" "is_walk b = is_walk a"
  using assms by (cases a; cases b; simp add: same_leg_def is_walk_def)+

lemma connects_same: "list_all2 same_leg xs ys \<Longrightarrow> connects a ys b = connects a xs b"
  by (induction arbitrary: a rule: list_all2_induct) (auto simp: same_legD)

lemma filter_same: "list_all2 same_leg xs ys \<Longrightarrow> length (filter is_walk ys) = length (filter is_walk xs)"
  by (induction rule: list_all2_induct) (auto simp: same_legD)

lemma list_all2_same_refl [simp]: "list_all2 same_leg xs xs"
  by (simp add: list.rel_refl)

definition duration :: "journey_leg \<Rightarrow> u32" where
  "duration leg = leg_arrival_time leg - leg_departure_time leg"

lemma align_walks_same:
  "\<forall>(leg, d) \<in> set xs. d = duration leg \<Longrightarrow> list_all2 same_leg (map fst xs) (align_walks next xs)"
proof (induction xs arbitrary: "next")
  case (Cons x xs)
  obtain leg d where x: "x = (leg, d)" by (cases x)
  with Cons.prems have "d = leg_arrival_time leg - leg_departure_time leg" by (simp add: duration_def)
  then have "same_leg leg (leg\<lparr>leg_arrival_time := next, leg_departure_time := next - d\<rparr>)"
    by (cases leg) (simp add: same_leg_def)
  with Cons x show ?case by simp
qed simp

lemma align_walks_chronological:
  "\<forall>leg \<in> set (map fst xs). is_walk leg \<Longrightarrow>
     chronological env (next - sum_list (map snd xs)) (rev (align_walks next xs)) next"
proof (induction xs arbitrary: "next")
  case (Cons x xs)
  obtain leg d where x: "x = (leg, d)" by (cases x)
  have w: "leg_trip_id leg = None" using Cons.prems x by (simp add: is_walk_def)
  have "chronological env (next - d - sum_list (map snd xs)) (rev (align_walks (next - d) xs)) (next - d)"
    using Cons.IH [of "next - d"] Cons.prems by simp
  moreover have "next - sum_list (map snd (x # xs)) = next - d - sum_list (map snd xs)" by (simp add: x)
  ultimately show ?case
    by (auto simp: x chronological_append leg_effective_departure_def leg_effective_arrival_def w diff_diff_eq)
qed simp

lemma checked_durations:
  "mapM (\<lambda>leg. checked_sub (leg_arrival_time leg) (leg_departure_time leg)) walks = Some ds \<Longrightarrow> ds = map duration walks"
  by (auto simp: mapM_Some checked_sub_Some duration_def intro: nth_equalityI)

lemma align_cases:
  assumes "walks = takeWhile is_walk legs"
  obtains "align_leading_walk_to_first_transit_departure legs = legs"
  | first rest where "walks \<noteq> []" "legs = walks @ first # rest" "\<not> is_walk first"
      "align_leading_walk_to_first_transit_departure legs =
         rev (align_walks (leg_departure_time first) (rev (zip walks (map duration walks)))) @ first # rest"
proof (cases "drop (length walks) legs")
  case Nil
  then show thesis using that(1) assms by (simp add: align_leading_walk_to_first_transit_departure_def Let_def)
next
  case (Cons first rest)
  have split: "legs = walks @ first # rest"
    using Cons append_take_drop_id [of "length walks" legs] by (simp add: assms takeWhile_eq_take [symmetric])
  moreover have "\<not> is_walk first"
    using Cons assms by (metis hd_dropWhile dropWhile_eq_drop list.sel(1) list.distinct(1))
  moreover
  let ?subs = "mapM (\<lambda>leg. checked_sub (leg_arrival_time leg) (leg_departure_time leg)) walks"
  have eq: "align_leading_walk_to_first_transit_departure legs =
      (if walks = [] then legs else case ?subs of None \<Rightarrow> legs | Some ds \<Rightarrow>
         (case foldM checked_add 0 ds of None \<Rightarrow> legs | Some tot \<Rightarrow>
            if leg_departure_time first < tot then legs
            else rev (align_walks (leg_departure_time first) (rev (zip walks ds))) @ first # rest))"
    by (simp add: align_leading_walk_to_first_transit_departure_def Let_def assms [symmetric] Cons cong: option.case_cong if_cong)
  ultimately show thesis
  proof (cases "walks = [] \<or> ?subs = None \<or> foldM checked_add 0 (the ?subs) = None \<or>
      leg_departure_time first < the (foldM checked_add 0 (the ?subs))")
    case True
    then have "align_leading_walk_to_first_transit_departure legs = legs" unfolding eq by (auto split: option.split)
    then show thesis by (rule that(1))
  next
    case False
    then obtain ds tot where ds: "?subs = Some ds" "foldM checked_add 0 ds = Some tot"
      "\<not> leg_departure_time first < tot" "walks \<noteq> []" by auto
    with eq checked_durations [OF ds(1)]
    have "align_leading_walk_to_first_transit_departure legs =
         rev (align_walks (leg_departure_time first) (rev (zip walks (map duration walks)))) @ first # rest" by simp
    with ds(4) \<open>legs = walks @ first # rest\<close> \<open>\<not> is_walk first\<close> show thesis by (intro that(2))
  qed
qed

text \<open>Whatever the legs: the alignment only moves times, and keeps every duration.\<close>

lemma align_same: "list_all2 same_leg legs (align_leading_walk_to_first_transit_departure legs)"
proof (rule align_cases [OF refl, of legs])
  fix first rest
  let ?walks = "takeWhile is_walk legs"
  assume legs: "legs = ?walks @ first # rest"
    and eq: "align_leading_walk_to_first_transit_departure legs =
         rev (align_walks (leg_departure_time first) (rev (zip ?walks (map duration ?walks)))) @ first # rest"
  have "list_all2 same_leg (map fst (rev (zip ?walks (map duration ?walks))))
      (align_walks (leg_departure_time first) (rev (zip ?walks (map duration ?walks))))"
    by (rule align_walks_same) (auto simp: in_set_zip)
  then have "list_all2 same_leg (rev ?walks) (align_walks (leg_departure_time first) (rev (zip ?walks (map duration ?walks))))"
    by (simp add: rev_map [symmetric])
  then have "list_all2 same_leg ?walks (rev (align_walks (leg_departure_time first) (rev (zip ?walks (map duration ?walks)))))"
    by (metis list_all2_rev rev_rev_ident)
  then show ?thesis
    using legs unfolding eq by (subst (1) legs) (rule list_all2_appendI, simp_all)
qed simp

text \<open>The total walking time of a chronological walk.\<close>

lemma walks_total:
  assumes "chronological env t walks u" and "\<forall>leg \<in> set walks. is_walk leg \<and> leg_departure_time leg \<le> leg_arrival_time leg"
  shows "unat t + (\<Sum>leg\<leftarrow>walks. unat (duration leg)) \<le> unat u"
  using assms
proof (induction walks arbitrary: t)
  case (Cons leg walks)
  have w: "leg_trip_id leg = None" "leg_departure_time leg \<le> leg_arrival_time leg"
    using Cons.prems(2) by (auto simp: is_walk_def)
  then have c: "t \<le> leg_departure_time leg" "chronological env (leg_arrival_time leg) walks u"
    using Cons.prems(1) by (simp_all add: leg_effective_departure_def leg_effective_arrival_def)
  have "unat (leg_arrival_time leg) + (\<Sum>leg\<leftarrow>walks. unat (duration leg)) \<le> unat u"
    using Cons.IH [OF c(2)] Cons.prems(2) by simp
  moreover have "unat (duration leg) = unat (leg_arrival_time leg) - unat (leg_departure_time leg)"
    unfolding duration_def by (rule unat_sub [OF w(2)])
  ultimately show ?case using c(1) w(2) by (simp add: word_le_nat_alt)
qed simp

lemma foldM_checked_add:
  "unat a + sum_list (map unat ds) < 2 ^ 32 \<Longrightarrow>
     \<exists>total. foldM checked_add a ds = Some total \<and> unat total = unat a + sum_list (map unat ds) \<and> total = a + sum_list ds"
proof (induction ds arbitrary: a)
  case (Cons d ds)
  then have fits: "unat a + unat d < 2 ^ 32" by simp
  then have c: "checked_add a d = Some (a + d)" by (simp add: checked_add_def)
  have "unat (a + d) = unat a + unat d" using checked_add_Some [OF c] .
  with Cons.IH [of "a + d"] Cons.prems c show ?case by (simp add: add.assoc)
qed simp

lemma align_chronological:
  assumes ch: "chronological env t (walks @ first # rest) t'" and ne: "walks \<noteq> []"
    and walks: "\<forall>leg \<in> set walks. is_walk leg \<and> leg_departure_time leg \<le> leg_arrival_time leg"
    and first: "\<not> is_walk first" and undelayed: "leg_effective_departure env first = leg_departure_time first"
  shows "\<exists>u \<ge> t. chronological env u (align_leading_walk_to_first_transit_departure (walks @ first # rest)) t' \<and>
     u = leg_departure_time first - sum_list (map duration walks)"
proof -
  from ch obtain v where v: "chronological env t walks v" "v \<le> leg_departure_time first"
      "chronological env (leg_effective_arrival env first) rest t'"
    using undelayed by (auto simp: chronological_append)
  have total: "unat t + (\<Sum>leg\<leftarrow>walks. unat (duration leg)) \<le> unat v" by (rule walks_total [OF v(1) walks])
  let ?ds = "map duration walks"
  have "unat v < 2 ^ 32" by (rule unat_u32_bound)
  then have "unat (0 :: u32) + sum_list (map unat ?ds) < 2 ^ 32" using total by (simp add: o_def)
  from foldM_checked_add [OF this] obtain s where s: "foldM checked_add 0 ?ds = Some s"
      "unat s = sum_list (map unat ?ds)" "s = sum_list ?ds" by auto
  have subs: "mapM (\<lambda>leg. checked_sub (leg_arrival_time leg) (leg_departure_time leg)) walks = Some ?ds"
    using walks by (intro mapM_total) (auto simp: checked_sub_Some duration_def)
  have le: "unat t + unat s \<le> unat (leg_departure_time first)" using total s(2) v(2) by (simp add: o_def word_le_nat_alt)
  then have fits: "s \<le> leg_departure_time first" by (simp add: word_le_nat_alt)
  have tw: "takeWhile is_walk (walks @ first # rest) = walks" using walks first by (simp add: takeWhile_append2 takeWhile_tail)
  have eq: "align_leading_walk_to_first_transit_departure (walks @ first # rest) =
      rev (align_walks (leg_departure_time first) (rev (zip walks ?ds))) @ first # rest"
    using subs s(1) leD [OF fits] ne by (simp add: align_leading_walk_to_first_transit_departure_def Let_def tw)
  have "map snd (zip walks ?ds) = ?ds" by simp
  then have "sum_list (map snd (rev (zip walks ?ds))) = s" by (simp add: s(3) rev_map [symmetric])
  with align_walks_chronological [of "rev (zip walks ?ds)" env "leg_departure_time first"] walks
  have "chronological env (leg_departure_time first - s) (rev (align_walks (leg_departure_time first) (rev (zip walks ?ds))))
      (leg_departure_time first)" by (metis (no_types, lifting) list.set_map map_fst_zip length_map rev_map set_rev)
  with v(3) undelayed have c: "chronological env (leg_departure_time first - s)
      (align_leading_walk_to_first_transit_departure (walks @ first # rest)) t'"
    unfolding eq by (auto simp: chronological_append)
  have "unat (leg_departure_time first - s) = unat (leg_departure_time first) - unat s" by (rule unat_sub [OF fits])
  with le have "t \<le> leg_departure_time first - s" by (simp add: word_le_nat_alt)
  with c s(3) show ?thesis by auto
qed

section \<open>The journeys of a search\<close>

text \<open>
  What every journey that is returned promises: it leads from an origin to a target that were
  asked for, every leg is a ride on a real trip that is allowed or a known footpath, it has one
  transit leg more than it counts transfers, respects their maximum, and arrives when a label says.
\<close>

definition journey_ok :: "search_env \<Rightarrow> journey \<Rightarrow> bool" where
  "journey_ok env j \<longleftrightarrow>
     (\<exists>origin \<in> set (se_origins env). \<exists>target \<in> set (se_targets env). \<exists>kind.
        connects (stop_name env origin) (j_legs j) (stop_name env target) \<and>
        reach env (Suc (unat (j_transfer_count j))) target (j_arrival_time j) kind) \<and>
     length (filter (\<lambda>leg. \<not> is_walk leg) (j_legs j)) = Suc (unat (j_transfer_count j)) \<and>
     j_transfer_count j \<le> rq_max_transfers (se_request env) \<and>
     (\<exists>legs t. list_all2 same_leg legs (j_legs j) \<and> (\<forall>leg \<in> set legs. transit_leg env leg \<or> walking_leg env leg) \<and>
        t = rq_departure_time (se_request env) \<and> chronological env t legs (j_arrival_time j))"

lemma filter_not_same: "list_all2 same_leg xs ys \<Longrightarrow>
   length (filter (\<lambda>leg. \<not> is_walk leg) ys) = length (filter (\<lambda>leg. \<not> is_walk leg) xs)"
  by (induction rule: list_all2_induct) (auto simp: same_legD)

lemma round_journey_ok:
  assumes ok: "env_ok env" and s: "sound env k st" and rnd: "1 \<le> rnd" "rnd \<le> se_max_rounds env"
    and maxr: "se_max_rounds env = unat (rq_max_transfers (se_request env)) + 1"
  shows "\<exists>js. round_journey env st rnd = Some js \<and> (\<forall>j \<in> set js. journey_ok env j)"
proof -
  have d: "dims env st" and ls: "labels_sound env st" using s by (simp_all add: sound_def)
  let ?row = "ss_rounds st ! rnd"
  have row: "rnd < length (ss_rounds st)" "length ?row = se_stop_count env" using d rnd by (auto simp: dims_def)
  have targets: "\<forall>t \<in> set (se_targets env). t < se_stop_count env" using ok by (auto simp: env_ok_def)
  have times: "mapM (\<lambda>stop. map_option (Pair stop) (idx ?row stop)) (se_targets env)
      = Some (map (\<lambda>stop. (stop, ?row ! stop)) (se_targets env))"
    by (rule mapM_total) (use targets row in simp)
  let ?reached = "filter (\<lambda>(_, time). time \<noteq> u32_MAX) (map (\<lambda>stop. (stop, ?row ! stop)) (se_targets env))"
  show ?thesis
  proof (cases "min_by_key snd ?reached")
    case None
    with row times show ?thesis by (simp add: round_journey_def)
  next
    case (Some pair)
    then obtain target arrival where m: "min_by_key snd ?reached = Some (target, arrival)" by (cases pair) auto
    from min_by_key_Some(1) [OF m] have t: "target \<in> set (se_targets env)" "arrival = label st rnd target" "arrival \<noteq> u32_MAX"
      by auto
    have re: "reached env st rnd target" using t targets rnd by (simp add: reached_def)
    from follow_parents_total [OF ok s re, of "[]"] obtain legs where
      f: "follow_parents (se_timetable env) (se_request_stop_ids env) (ss_parents st) rnd target [] = Some legs"
      and g: "good_legs env st rnd target legs" by auto
    have ne: "legs \<noteq> []" using g rnd by (auto simp: good_legs_def)
    let ?aligned = "align_leading_walk_to_first_transit_departure legs"
    have tc: "unat (of_nat (rnd - 1) :: u32) = rnd - 1"
    proof -
      have "rnd - 1 < 2 ^ 32" using rnd maxr unat_u32_bound [of "rq_max_transfers (se_request env)"] by linarith
      then show ?thesis by (simp add: unat_of_nat)
    qed
    let ?dep = "case ?aligned of [] \<Rightarrow> rq_departure_time (se_request env) | leg # _ \<Rightarrow> leg_effective_departure env leg"
    let ?j = "\<lparr>j_id = [], j_legs = ?aligned, j_departure_time = ?dep, j_arrival_time = arrival,
                j_duration_seconds = saturating_sub arrival ?dep, j_transfer_count = of_nat (rnd - 1),
                j_walking_distance_meters = journey_walking_distance_meters ?aligned,
                j_realtime_status = UnavailableRt, j_risk_score = Finite 0, j_labels = []\<rparr>"
    have "round_journey env st rnd = Some [?j]"
      using row times m f ne by (simp add: round_journey_def reconstruct_raptor_journey_def Let_def)
    moreover have "journey_ok env ?j"
    proof -
      have "reach env rnd target arrival (kind_of (parent_at st rnd target))"
        using ls re t(2) by (simp add: labels_sound_def)
      moreover have "j_transfer_count ?j \<le> rq_max_transfers (se_request env)"
        using tc rnd maxr by (simp add: word_le_nat_alt)
      moreover obtain origin where "origin \<in> set (se_origins env)" "connects (stop_name env origin) legs (stop_name env target)"
        using g by (auto simp: good_legs_def)
      ultimately show ?thesis
        using g t tc rnd align_same [of legs] connects_same [OF align_same] filter_not_same [OF align_same, of legs]
        unfolding journey_ok_def good_legs_def by auto
    qed
    ultimately show ?thesis by simp
  qed
qed

lemma raptor_journeys_ok:
  assumes "env_ok env" and "sound env k st"
    and "se_max_rounds env = unat (rq_max_transfers (se_request env)) + 1"
  shows "\<exists>js. raptor_journeys env st = Some js \<and> (\<forall>j \<in> set js. journey_ok env j) \<and>
     sorted (map (\<lambda>j. (j_arrival_time j, j_transfer_count j)) js)"
proof -
  have all: "\<exists>js. mapM (round_journey env st) rnds = Some js \<and> (\<forall>j \<in> set (concat js). journey_ok env j)"
    if "\<forall>rnd \<in> set rnds. 1 \<le> rnd \<and> rnd \<le> se_max_rounds env" for rnds
    using that
  proof (induction rnds)
    case (Cons rnd rnds)
    from round_journey_ok [OF assms(1,2) _ _ assms(3), of rnd] Cons obtain js where
      "round_journey env st rnd = Some js" "\<forall>j \<in> set js. journey_ok env j" by auto
    with Cons show ?case by fastforce
  qed simp
  have "\<forall>rnd \<in> set [1..<Suc (se_max_rounds env)]. 1 \<le> rnd \<and> rnd \<le> se_max_rounds env" by auto
  from all [OF this] obtain js where
    "mapM (round_journey env st) [1..<Suc (se_max_rounds env)] = Some js" "\<forall>j \<in> set (concat js). journey_ok env j"
    by blast
  then show ?thesis by (simp add: raptor_journeys_def)
qed

section \<open>From a request to its journeys\<close>

lemma resolve_stop_index_name:
  assumes num: "numbering_ok (tt_stop_indices tt, tt_stops tt)" and r: "resolver_ok tt state"
    and res: "resolve_stop_index tt state stop = (i, state')"
  shows "raptor_stop_id tt (fst state' @ later) i = stop \<and> (\<exists>new. fst state' = fst state @ new)"
proof -
  obtain ids m where st: "state = (ids, m)" by (cases state)
  show ?thesis
  proof (cases "tt_stop_indices tt stop")
    case (Some j)
    with num res show ?thesis by (auto simp: resolve_stop_index_def numbering_ok_def raptor_stop_id_def)
  next
    case none: None
    show ?thesis
    proof (cases "m stop")
      case (Some j)
      then have j: "length (tt_stops tt) \<le> j" "j - length (tt_stops tt) < length ids" "ids ! (j - length (tt_stops tt)) = stop"
        using r by (auto simp: resolver_ok_def st)
      have "state' = (ids, m)" "i = j" using Some none res by (simp_all add: resolve_stop_index_def st)
      with j show ?thesis by (simp add: raptor_stop_id_def st idx_def nth_append)
    next
      case None
      with none res show ?thesis
        by (auto simp: resolve_stop_index_def st Let_def raptor_stop_id_def idx_def)
    qed
  qed
qed

lemma resolve_stops_names:
  assumes num: "numbering_ok (tt_stop_indices tt, tt_stops tt)"
  shows "resolver_ok tt state \<Longrightarrow> resolve_stops tt state ids = (indices, state') \<Longrightarrow>
     (\<forall>later. map (raptor_stop_id tt (fst state' @ later)) indices = ids) \<and> (\<exists>new. fst state' = fst state @ new)"
proof (induction ids arbitrary: state indices)
  case (Cons stop ids)
  obtain i st1 where one: "resolve_stop_index tt state stop = (i, st1)" by (rule prod.exhaust)
  obtain rest st2 where two: "resolve_stops tt st1 ids = (rest, st2)" by (rule prod.exhaust)
  from Cons.prems one two have eq: "indices = i # rest" "state' = st2" by simp_all
  note ok1 = resolve_stop_index_ok(1) [OF num Cons.prems(1) one]
  from Cons.IH [OF ok1 two [folded eq(2)]] obtain new where
    ih: "\<forall>later. map (raptor_stop_id tt (fst state' @ later)) rest = ids" "fst state' = fst st1 @ new" by blast
  have name: "raptor_stop_id tt (fst st1 @ later) i = stop" for later
    using resolve_stop_index_name [OF num Cons.prems(1) one] by blast
  obtain new1 where "fst st1 = fst state @ new1" using resolve_stop_index_name [OF num Cons.prems(1) one] by blast
  with ih name eq show ?case by simp
qed simp

lemma resolve_transfers_grow:
  assumes num: "numbering_ok (tt_stop_indices tt, tt_stops tt)"
  shows "resolver_ok tt state \<Longrightarrow> resolve_transfers tt state ts = (pairs, state') \<Longrightarrow> \<exists>new. fst state' = fst state @ new"
proof (induction ts arbitrary: state pairs)
  case (Cons t ts)
  obtain i st1 where one: "resolve_stop_index tt state (tr_from_stop_id t) = (i, st1)" by (rule prod.exhaust)
  obtain j st2 where two: "resolve_stop_index tt st1 (tr_to_stop_id t) = (j, st2)" by (rule prod.exhaust)
  obtain rest st3 where three: "resolve_transfers tt st2 ts = (rest, st3)" by (rule prod.exhaust)
  note ok1 = resolve_stop_index_ok(1) [OF num Cons.prems(1) one]
  note ok2 = resolve_stop_index_ok(1) [OF num ok1 two]
  from Cons.prems one two three have eq: "state' = st3" by simp
  from Cons.IH [OF ok2 three [folded eq]] resolve_stop_index_name [OF num Cons.prems(1) one]
    resolve_stop_index_name [OF num ok1 two] show ?case by force
qed simp

lemma search_setup_names:
  assumes tt: "timetable_ok tt" and env: "search_setup tt request excluded = Some env"
  shows "stop_name env ` set (se_origins env) \<subseteq> set (rq_from_stop_ids request)"
    and "stop_name env ` set (se_targets env) \<subseteq> set (rq_to_stop_ids request)"
proof -
  have num: "numbering_ok (tt_stop_indices tt, tt_stops tt)" using tt by (simp add: timetable_ok_def)
  obtain origins st1 where one: "resolve_stops tt ([], Map.empty) (rq_from_stop_ids request) = (origins, st1)" by (rule prod.exhaust)
  obtain targets st2 where two: "resolve_stops tt st1 (rq_to_stop_ids request) = (targets, st2)" by (rule prod.exhaust)
  obtain pairs st3 where three: "resolve_transfers tt st2 (rq_extra_transfers request) = (pairs, st3)" by (rule prod.exhaust)
  have start: "resolver_ok tt ([], Map.empty)" by (simp add: resolver_ok_def)
  note ok1 = conjunct1 [OF resolve_stops_ok [OF num start one]]
  note ok2 = conjunct1 [OF resolve_stops_ok [OF num ok1 two]]
  have e: "se_timetable env = tt" "se_origins env = origins" "se_targets env = remdups_adj (sort targets)"
      "se_request_stop_ids env = fst st3"
    using env one two three by (auto simp: search_setup_def bind_eq_Some_conv)
  obtain new where new: "fst st3 = fst st2 @ new" using resolve_transfers_grow [OF num ok2 three] by blast
  obtain new1 where new1: "fst st2 = fst st1 @ new1" and t: "\<And>later. map (raptor_stop_id tt (fst st2 @ later)) targets = rq_to_stop_ids request"
    using resolve_stops_names [OF num ok1 two] by blast
  have o: "\<And>later. map (raptor_stop_id tt (fst st1 @ later)) origins = rq_from_stop_ids request"
    using resolve_stops_names [OF num start one] by blast
  have "map (stop_name env) origins = rq_from_stop_ids request"
    using o [of "new1 @ new"] by (simp add: stop_name_def e new new1 [abs_def])
  moreover have "map (stop_name env) targets = rq_to_stop_ids request"
    using t [of new] by (simp add: stop_name_def e new)
  ultimately show "stop_name env ` set (se_origins env) \<subseteq> set (rq_from_stop_ids request)"
    and "stop_name env ` set (se_targets env) \<subseteq> set (rq_to_stop_ids request)"
    unfolding e(2,3) by (metis image_set order_refl, metis image_set order_refl remdups_adj_set set_sort)
qed

lemma routes_at_most_trips:
  assumes "\<forall>route \<in> set routes. rr_trips route \<noteq> []"
  shows "length routes \<le> length (concat (map rr_trips routes))"
  using assms
proof (induction routes)
  case (Cons route routes)
  then have "1 \<le> length (rr_trips route)" by (cases "rr_trips route") auto
  with Cons show ?case by simp
qed simp

text \<open>The trips of a constructed timetable carry their route in the trip index.\<close>

lemma constructed_timetable:
  assumes h: "permuting hash_order" and total: "group_total trips" and uniq: "unique_trip_ids trips"
    and few: "length trips < usize_MAX" and new: "raptor_timetable_new hash_order trips transfers = Some tt"
  shows "timetable_ok tt" and "trips_indexed tt" and "length (tt_routes tt) < usize_MAX"
proof -
  from timetable_new_exists [OF h total, of transfers] new have
    ok: "timetable_ok tt" and ms: "mset (concat (map rr_trips (tt_routes tt))) = mset trips"
    and ix: "tt_trip_route_indices tt = index_trips (tt_routes tt)" by auto
  show "timetable_ok tt" by (rule ok)
  have "unique_trip_ids (concat (map rr_trips (tt_routes tt)))" using unique_mset [OF ms [symmetric] uniq] .
  then show "trips_indexed tt" unfolding trips_indexed_def ix unique_trip_ids_def using index_trips_unique by blast
  have "\<forall>route \<in> set (tt_routes tt). rr_trips route \<noteq> []" using ok by (auto simp: timetable_ok_def route_ok_def)
  from routes_at_most_trips [OF this] mset_eq_length [OF ms] few show "length (tt_routes tt) < usize_MAX" by simp
qed

end
