(* ===== verification/Raptor_Correct.thy ===== *)
theory Raptor_Correct
  imports Raptor_Journeys
begin

text \<open>
  The properties of the RAPTOR router, from the trips and transfers handed to
  \<open>RaptorTimetable::new\<close> to the journeys that come out, with a small network on which each of
  them is applied.
\<close>

section \<open>A small network\<close>

definition sample_call :: "string \<Rightarrow> u32 \<Rightarrow> u32 \<Rightarrow> raptor_stop_time" where
  "sample_call stop arrival departure = \<lparr>rst_stop_id = stop, rst_arrival_time = arrival, rst_departure_time = departure,
     rst_pickup_allowed = True, rst_drop_off_allowed = True\<rparr>"

definition sample_trip :: "string \<Rightarrow> string \<Rightarrow> raptor_stop_time list \<Rightarrow> raptor_trip" where
  "sample_trip trip route calls = \<lparr>rt_trip_id = trip, rt_route_id = route, rt_mode = Train,
     rt_service_verified = True, rt_stop_times = calls\<rparr>"

definition sample_trips :: "raptor_trip list" where
  "sample_trips =
     [sample_trip ''t1'' ''r1'' [sample_call ''A'' 100 100, sample_call ''B'' 200 210, sample_call ''C'' 900 900],
      sample_trip ''t2'' ''r2'' [sample_call ''B'' 400 400, sample_call ''C'' 500 500],
      sample_trip ''t3'' ''r2'' [sample_call ''B'' 300 300, sample_call ''C'' 550 550]]"

definition sample_transfer :: "string \<Rightarrow> string \<Rightarrow> u32 \<Rightarrow> transfer" where
  "sample_transfer origin target seconds = \<lparr>tr_from_stop_id = origin, tr_to_stop_id = target,
     tr_min_transfer_seconds = seconds, tr_distance_meters = Some 80, tr_walking_geometry = None,
     tr_confidence = ExactConf, tr_accessibility_level = None, tr_source = ''gtfs''\<rparr>"

definition sample_timetable :: "raptor_timetable option" where
  "sample_timetable = raptor_timetable_new id sample_trips [sample_transfer ''X'' ''A'' 40, sample_transfer ''B'' ''B'' 30]"

definition sample_request :: "realtime_update list \<Rightarrow> raptor_request" where
  "sample_request updates = \<lparr>rq_from_stop_ids = [''X''], rq_to_stop_ids = [''C''], rq_extra_transfers = [],
     rq_departure_time = 50, rq_max_transfers = 2, rq_min_transfer_seconds = 60, rq_transfer_buffer_seconds = 0,
     rq_modes = [], rq_allow_unverified_services = True, rq_realtime = from_updates updates\<rparr>"

lemma sample_trips_ok: "group_total sample_trips" "unique_trip_ids sample_trips" "length sample_trips < usize_MAX"
  by (simp_all add: group_total_def unique_trip_ids_def sample_trips_def sample_trip_def sample_call_def usize_MAX_def)

lemma permuting_id: "permuting id"
  by (simp add: permuting_def)

lemma sample_timetable_exists: "sample_timetable \<noteq> None"
  using timetable_new_exists [OF permuting_id sample_trips_ok(1)] by (auto simp: sample_timetable_def)

text \<open>
  Walking 40 seconds from X to A reaches t1; its journey without a change arrives at 900, the one
  that changes at B (whose official change time is 30 seconds) at 500.
\<close>

lemma sample_journeys:
  "map_option (map (\<lambda>j. (map leg_trip_id (j_legs j), j_departure_time j, j_arrival_time j, j_transfer_count j)))
     (Option.bind sample_timetable (\<lambda>tt. raptor tt (sample_request [])))
   = Some [([None, Some ''t1'', Some ''t2''], 60, 500, 1), ([None, Some ''t1''], 60, 900, 0)]"
  by code_simp

section \<open>Journeys\<close>

lemma search_returns_journeys:
  assumes "permuting hash_order" and "group_total trips" and "unique_trip_ids trips" and "length trips < usize_MAX"
    and "raptor_timetable_new hash_order trips transfers = Some tt" and "rq_realtime request = from_updates updates"
  shows "\<exists>journeys stats. raptor_with_stats_excluding_routes tt request excluded = Some (journeys, stats) \<and>
     sorted (map (\<lambda>j. (j_arrival_time j, j_transfer_count j)) journeys) \<and>
     (\<forall>j \<in> set journeys.
        (\<exists>origin \<in> set (rq_from_stop_ids request). \<exists>target \<in> set (rq_to_stop_ids request).
           connects origin (j_legs j) target) \<and>
        length (filter (\<lambda>leg. \<not> is_walk leg) (j_legs j)) = Suc (unat (j_transfer_count j)) \<and>
        j_transfer_count j \<le> rq_max_transfers request)"
proof -
  note tt = constructed_timetable [OF assms(1-5)]
  have rt: "realtime_ok (rq_realtime request)" by (simp add: assms(6) realtime_ok_from_updates)
  from search_setup_ok [OF tt(1) rt tt(2,3), of excluded] obtain env where
    env: "search_setup tt request excluded = Some env" "env_ok env" "se_request env = request"
      "se_max_rounds env = unat (rq_max_transfers request) + 1" by blast
  from raptor_search_sound [OF env(2)] obtain st where
    st: "raptor_search env = Some st" "sound env (se_max_rounds env) st" by blast
  from raptor_journeys_ok [OF env(2) st(2)] env(3,4) obtain js where
    js: "raptor_journeys env st = Some js" "\<forall>j \<in> set js. journey_ok env j"
      "sorted (map (\<lambda>j. (j_arrival_time j, j_transfer_count j)) js)" by auto
  have "(\<exists>origin \<in> set (rq_from_stop_ids request). \<exists>target \<in> set (rq_to_stop_ids request). connects origin (j_legs j) target) \<and>
        length (filter (\<lambda>leg. \<not> is_walk leg) (j_legs j)) = Suc (unat (j_transfer_count j)) \<and>
        j_transfer_count j \<le> rq_max_transfers request" if "j \<in> set js" for j
  proof -
    have "journey_ok env j" using js(2) that by blast
    then obtain origin target where "origin \<in> set (se_origins env)" "target \<in> set (se_targets env)"
        "connects (stop_name env origin) (j_legs j) (stop_name env target)"
      and rest: "length (filter (\<lambda>leg. \<not> is_walk leg) (j_legs j)) = Suc (unat (j_transfer_count j))"
        "j_transfer_count j \<le> rq_max_transfers request"
      using env(3) by (auto simp: journey_ok_def)
    moreover have "stop_name env origin \<in> set (rq_from_stop_ids request)" "stop_name env target \<in> set (rq_to_stop_ids request)"
      using search_setup_names [OF tt(1) env(1)] calculation(1,2) by auto
    ultimately show ?thesis by blast
  qed
  then show ?thesis using env(1) st(1) js by (auto simp: raptor_with_stats_excluding_routes_def)
qed

text \<open>C1: For every set of trips with distinct ids and at least one call each, every set of footpaths,
  every realtime feed and every request, the search returns (no step panics, no loop runs forever),
  and every journey it returns connects a requested origin to a requested target stop by stop, has
  exactly one ride more than the transfers it counts, and stays within the requested maximum of
  transfers; the journeys are ordered by arrival and then by transfers.\<close>

theorem raptor_journeys_correct:
  assumes "permuting hash_order" and "group_total trips" and "unique_trip_ids trips" and "length trips < usize_MAX"
    and "raptor_timetable_new hash_order trips transfers = Some tt" and "rq_realtime request = from_updates updates"
  shows "\<exists>journeys stats. raptor_with_stats_excluding_routes tt request excluded = Some (journeys, stats) \<and>
     sorted (map (\<lambda>j. (j_arrival_time j, j_transfer_count j)) journeys) \<and>
     (\<forall>j \<in> set journeys.
        (\<exists>origin \<in> set (rq_from_stop_ids request). \<exists>target \<in> set (rq_to_stop_ids request).
           connects origin (j_legs j) target) \<and>
        length (filter (\<lambda>leg. \<not> is_walk leg) (j_legs j)) = Suc (unat (j_transfer_count j)) \<and>
        j_transfer_count j \<le> rq_max_transfers request)"
  by (rule search_returns_journeys [OF assms])

theorem raptor_journeys_correct_witness:
  "\<exists>journeys stats. raptor_with_stats_excluding_routes (the sample_timetable) (sample_request []) [] = Some (journeys, stats) \<and>
     (\<forall>j \<in> set journeys. connects ''X'' (j_legs j) ''C'')"
proof -
  have "raptor_timetable_new id sample_trips [sample_transfer ''X'' ''A'' 40, sample_transfer ''B'' ''B'' 30] = Some (the sample_timetable)"
    using sample_timetable_exists by (simp add: sample_timetable_def)
  from raptor_journeys_correct [OF permuting_id sample_trips_ok this, of "sample_request []" "[]" "[]"]
  show ?thesis by (auto simp: sample_request_def)
qed

text \<open>C2: Every label the search leaves behind is a time at which a passenger can really be at the stop
  after that many rides, as the inductive relation \<open>reach\<close> defines it from boarding and alighting
  permissions, allowed modes and services, excluded routes, realtime and change times. Following the
  parents from the label ends, and gives legs on permitted trips and known footpaths that start at
  an origin no earlier than requested, follow each other in time and arrive at the label.\<close>

theorem raptor_labels_reachable:
  assumes "permuting hash_order" and "group_total trips" and "unique_trip_ids trips" and "length trips < usize_MAX"
    and "raptor_timetable_new hash_order trips transfers = Some tt" and "rq_realtime request = from_updates updates"
  shows "\<exists>env st. search_setup tt request excluded = Some env \<and> raptor_search env = Some st \<and>
     (\<forall>rnd stop. reached env st rnd stop \<longrightarrow>
        (\<exists>kind. reach env rnd stop (label st rnd stop) kind) \<and>
        (\<exists>legs. follow_parents (se_timetable env) (se_request_stop_ids env) (ss_parents st) rnd stop [] = Some legs \<and>
           good_legs env st rnd stop legs))"
proof -
  note tt = constructed_timetable [OF assms(1-5)]
  have rt: "realtime_ok (rq_realtime request)" by (simp add: assms(6) realtime_ok_from_updates)
  from search_setup_ok [OF tt(1) rt tt(2,3), of excluded] obtain env where
    env: "search_setup tt request excluded = Some env" "env_ok env" by blast
  from raptor_search_sound [OF env(2)] obtain st where
    st: "raptor_search env = Some st" "sound env (se_max_rounds env) st" by blast
  have "labels_sound env st" using st(2) by (simp add: sound_def)
  then show ?thesis using env(1) st follow_parents_total [OF env(2) st(2), of _ _ "[]"]
    unfolding labels_sound_def by fastforce
qed

theorem raptor_labels_reachable_witness:
  "\<exists>env st. search_setup (the sample_timetable) (sample_request []) [] = Some env \<and> raptor_search env = Some st \<and>
     (\<forall>rnd stop. reached env st rnd stop \<longrightarrow> (\<exists>kind. reach env rnd stop (label st rnd stop) kind))"
proof -
  have "raptor_timetable_new id sample_trips [sample_transfer ''X'' ''A'' 40, sample_transfer ''B'' ''B'' 30] = Some (the sample_timetable)"
    using sample_timetable_exists by (simp add: sample_timetable_def)
  from raptor_labels_reachable [OF permuting_id sample_trips_ok this, of "sample_request []" "[]" "[]"]
  show ?thesis by (auto simp: sample_request_def)
qed

text \<open>Aligning the leading walk with the first departure moves nothing but times: every leg keeps its
  stops, trip, mode, warnings and duration, so the journey still connects the same stops.\<close>

theorem align_keeps_legs:
  "list_all2 same_leg legs (align_leading_walk_to_first_transit_departure legs) \<and>
   connects a (align_leading_walk_to_first_transit_departure legs) b = connects a legs b"
  using align_same connects_same [OF align_same] by blast


definition sample_leg :: "string \<Rightarrow> string \<Rightarrow> string option \<Rightarrow> u32 \<Rightarrow> u32 \<Rightarrow> journey_leg" where
  "sample_leg origin target trip departure arrival = \<lparr>leg_from_stop_id = origin, leg_to_stop_id = target,
     leg_route_id = trip, leg_trip_id = trip, leg_departure_time = departure, leg_arrival_time = arrival,
     leg_mode = (case trip of None \<Rightarrow> UnknownMode | Some _ \<Rightarrow> Train), leg_warnings = [], leg_geometry = None\<rparr>"

definition sample_env :: "realtime_update list \<Rightarrow> search_env" where
  "sample_env updates = the (search_setup (the sample_timetable) (sample_request updates) [])"

lemma sample_env_realtime: "rq_realtime (se_request (sample_env updates)) = from_updates updates"
proof -
  have new: "raptor_timetable_new id sample_trips [sample_transfer ''X'' ''A'' 40, sample_transfer ''B'' ''B'' 30] = Some (the sample_timetable)"
    using sample_timetable_exists by (simp add: sample_timetable_def)
  note tt = constructed_timetable [OF permuting_id sample_trips_ok new]
  have rt: "realtime_ok (rq_realtime (sample_request updates))" by (simp add: sample_request_def realtime_ok_from_updates)
  from search_setup_ok [OF tt(1) rt tt(2,3), of "[]"] show ?thesis by (auto simp: sample_env_def sample_request_def)
qed

lemmas leg_time_defs = leg_effective_departure_def leg_effective_arrival_def sample_leg_def sample_env_realtime


section \<open>What the search does not promise\<close>

text \<open>
  With the train one minute late, the walk is aligned with its scheduled departure: the journey
  leaves at 60, before the requested time 80, although the traveller needs to leave no earlier
  than at 80 to catch the train at 160.
\<close>

lemma late_train_journey_leaves_too_early:
  "map_option (map (\<lambda>j. (j_departure_time j, map (\<lambda>leg. (leg_departure_time leg, leg_arrival_time leg)) (j_legs j))))
     (Option.bind sample_timetable (\<lambda>tt. raptor tt ((sample_request [\<lparr>ru_trip_id = ''t1'', ru_stop_id = None, ru_delay_seconds = 60\<rparr>])
        \<lparr>rq_departure_time := 80, rq_max_transfers := 0\<rparr>)))
   = Some [(60, [(60, 100), (100, 900)])]"
  by code_simp

text \<open>
  A stop is reached by train at 100, and on foot at 101. A change from the train takes 60 seconds,
  one from the footpath none, so the connection at 120 can only be caught after the walk; but the
  label 100 suppresses the label 101 and no journey is found.
\<close>

definition shadow_trips :: "raptor_trip list" where
  "shadow_trips =
     [sample_trip ''t1'' ''r1'' [sample_call ''X'' 50 50, sample_call ''Y'' 90 90],
      sample_trip ''t2'' ''r2'' [sample_call ''X'' 50 50, sample_call ''S'' 100 100],
      sample_trip ''t3'' ''r3'' [sample_call ''S'' 120 120, sample_call ''C'' 200 200]]"

definition shadow_search :: "raptor_trip list \<Rightarrow> journey list option" where
  "shadow_search trips = Option.bind (raptor_timetable_new id trips [sample_transfer ''Y'' ''S'' 11])
     (\<lambda>tt. raptor tt ((sample_request [])\<lparr>rq_from_stop_ids := [''X'']\<rparr>))"

lemma walk_label_shadowed: "shadow_search shadow_trips = Some []"
  by code_simp

lemma walk_label_unshadowed:
  "map_option (map (\<lambda>j. (map leg_trip_id (j_legs j), j_arrival_time j))) (shadow_search [shadow_trips ! 0, shadow_trips ! 2])
     = Some [([Some ''t1'', None, Some ''t3''], 200)]"
  by code_simp

section \<open>The timetable and the boarding of a trip\<close>

text \<open>C4: When every trip has a call, \<open>RaptorTimetable::new\<close> does not panic; it keeps every trip exactly
  once, its routes hold trips of one line and stop sequence that never overtake one another, and the
  two departure tables of a route list, for each of its stops, all its trips and all its verified
  trips in order of scheduled departure.\<close>

theorem timetable_keeps_every_trip:
  assumes "permuting hash_order" and "group_total trips"
  shows "\<exists>tt. raptor_timetable_new hash_order trips transfers = Some tt \<and>
     mset (concat (map rr_trips (tt_routes tt))) = mset trips \<and>
     set (tt_stops tt) = set (mentioned_stops trips transfers) \<and> distinct (tt_stops tt) \<and>
     (\<forall>route \<in> set (tt_routes tt). same_key (rr_trips route) \<and> never_overtake (rr_trips route) \<and> route_indexed route)"
  using timetable_new_exists [OF assms, of transfers] by (auto simp: timetable_ok_def route_ok_def numbering_ok_def)

theorem timetable_keeps_every_trip_witness:
  "\<exists>tt. raptor_timetable_new rev sample_trips [] = Some tt \<and>
     mset (concat (map rr_trips (tt_routes tt))) = mset sample_trips"
  using timetable_keeps_every_trip [of rev sample_trips "[]"] sample_trips_ok(1) by (auto simp: permuting_def)

text \<open>C20: The order in which the hash map hands out the groups of trips does not show: the timetable is the
  same for every order when trip ids are distinct.\<close>

theorem timetable_independent_of_hash_order:
  assumes "permuting h1" and "permuting h2" and "group_total trips" and "unique_trip_ids trips"
  shows "raptor_timetable_new h1 trips transfers = raptor_timetable_new h2 trips transfers"
proof -
  obtain si stops where ns: "number_stops trips transfers = (si, stops)" by fastforce
  have "\<forall>t \<in> set trips. \<forall>st \<in> set (rt_stop_times t). si (rst_stop_id st) \<noteq> None"
    using trip_stops_numbered [of _ trips _ transfers] ns by (metis fst_conv)
  from build_routes_order_independent [OF assms this] show ?thesis by (simp add: raptor_timetable_new_def ns)
qed

theorem timetable_independent_of_hash_order_witness:
  "raptor_timetable_new rev sample_trips [] = raptor_timetable_new id sample_trips []"
  using timetable_independent_of_hash_order [OF _ permuting_id sample_trips_ok(1,2), of rev "[]"] by (simp add: permuting_def)

text \<open>Two trips of one line without calls are compared by their first call, and the indexing panics.\<close>

lemma timetable_panics_on_empty_trips:
  "raptor_timetable_new id [sample_trip ''t1'' ''r1'' [], sample_trip ''t2'' ''r1'' []] [] = None"
  by code_simp

text \<open>C3: On a departure table sorted by scheduled departure and with delay bounds that cover the realtime
  delays of its trips, \<open>earliest_catchable_trip\<close> returns the trip that departs first, realtime
  included, among those that allow boarding and leave at or after the ready time; it returns none
  only when there is none, and does not panic. Neither the binary search nor the early exit of the
  scan loses a trip.\<close>

theorem earliest_catchable_trip_correct:
  assumes "k < length table"
    and "\<forall>i \<in> set (table ! k). i < length trips \<and> k < length (rt_stop_times (trips ! i))"
    and "\<forall>i \<in> set (table ! k). wider bounds (trip_bounds (from_updates updates) (rt_trip_id (trips ! i)))"
    and "sorted (map (departure_at trips k) (table ! k))"
  shows "\<exists>result. earliest_catchable_trip trips table k ready (from_updates updates) bounds = Some result \<and>
     is_earliest trips k ready (from_updates updates) (set (table ! k)) result"
  using earliest_catchable_on_index [OF realtime_ok_from_updates _ assms(2-4), of table ready] assms(1) by simp

theorem earliest_catchable_trip_correct_witness:
  "\<exists>result. earliest_catchable_trip [sample_trips ! 2, sample_trips ! 1] [[0, 1]] 0 350
       (from_updates [\<lparr>ru_trip_id = ''t3'', ru_stop_id = None, ru_delay_seconds = 200\<rparr>])
       \<lparr>db_max_positive_seconds = 200, db_max_early_seconds = 0\<rparr> = Some result \<and>
     is_earliest [sample_trips ! 2, sample_trips ! 1] 0 350
       (from_updates [\<lparr>ru_trip_id = ''t3'', ru_stop_id = None, ru_delay_seconds = 200\<rparr>]) {0, 1} result"
proof -
  let ?trips = "[sample_trips ! 2, sample_trips ! 1]"
  let ?us = "[\<lparr>ru_trip_id = ''t3'', ru_stop_id = None, ru_delay_seconds = 200\<rparr>]"
  let ?b = "\<lparr>db_max_positive_seconds = 200, db_max_early_seconds = 0\<rparr>"
  have "\<forall>i \<in> set ([[0, 1]] ! 0). i < length ?trips \<and> 0 < length (rt_stop_times (?trips ! i))" by code_simp
  moreover have "\<forall>i \<in> set ([[0, 1]] ! 0). wider ?b (trip_bounds (from_updates ?us) (rt_trip_id (?trips ! i)))" by code_simp
  moreover have "sorted (map (departure_at ?trips 0) ([[0, 1]] ! 0))" by code_simp
  ultimately have "\<exists>result. earliest_catchable_trip ?trips [[0, 1]] 0 350 (from_updates ?us) ?b = Some result \<and>
     is_earliest ?trips 0 350 (from_updates ?us) (set ([[0, 1]] ! 0)) result"
    by (intro earliest_catchable_trip_correct) simp
  then show ?thesis by simp
qed

text \<open>The delay bounds that \<open>from_updates\<close> collects for a trip are right: whatever updates arrive, no
  realtime-adjusted time of the trip leaves the interval they span around the scheduled time.\<close>

theorem adjusted_time_within_bounds:
  fixes updates :: "realtime_update list"
  defines "data \<equiv> from_updates updates"
  shows "saturating_sub t (db_max_early_seconds (trip_bounds data trip)) \<le> adjusted_time data trip stop t \<and>
     adjusted_time data trip stop t \<le> saturating_add t (db_max_positive_seconds (trip_bounds data trip))"
  unfolding data_def
  using rt.adjust_upper [OF realtime_ok_from_updates, of updates trip stop t]
    rt.adjust_lower [OF realtime_ok_from_updates, of t updates trip stop]
    unat_u32_bound [of "adjusted_time (from_updates updates) trip stop t"]
  by (auto simp: word_le_nat_alt u32_arith)

text \<open>A round scans each route that serves a marked stop exactly once, no later than the first position
  at which a marked stop occurs on it, and leaves every queue slot free for the next round.\<close>

theorem round_queue_correct:
  assumes "length (tt_routes (se_timetable env)) < usize_MAX"
    and "\<forall>entry \<in> set (marked_positions env marked). fst entry < length (tt_routes (se_timetable env))"
  shows "\<exists>routes_to_scan. collect_routes env marked (replicate (length (tt_routes (se_timetable env))) usize_MAX)
       = Some (replicate (length (tt_routes (se_timetable env))) usize_MAX, routes_to_scan) \<and>
     distinct (map fst routes_to_scan) \<and> set routes_to_scan \<subseteq> set (marked_positions env marked) \<and>
     (\<forall>(r, k) \<in> set (marked_positions env marked). \<exists>k' \<le> k. (r, k') \<in> set routes_to_scan)"
  by (rule collect_routes_correct [OF assms])

lemma sample_env_ok: "env_ok (sample_env updates)"
proof -
  have new: "raptor_timetable_new id sample_trips [sample_transfer ''X'' ''A'' 40, sample_transfer ''B'' ''B'' 30] = Some (the sample_timetable)"
    using sample_timetable_exists by (simp add: sample_timetable_def)
  note tt = constructed_timetable [OF permuting_id sample_trips_ok new]
  have rt: "realtime_ok (rq_realtime (sample_request updates))" by (simp add: sample_request_def realtime_ok_from_updates)
  from search_setup_ok [OF tt(1) rt tt(2,3), of "[]"] show ?thesis by (auto simp: sample_env_def)
qed

theorem round_queue_correct_witness:
  "\<exists>queued routes_to_scan. collect_routes (sample_env []) [0, 1]
     (replicate (length (tt_routes (se_timetable (sample_env [])))) usize_MAX) = Some (queued, routes_to_scan) \<and>
     distinct (map fst routes_to_scan)"
  using round_queue_correct [OF _ marked_positions_range [OF sample_env_ok, of "[]"], of "[0, 1]"] sample_env_ok [of "[]"]
  by (auto simp: env_ok_def)

end
