(* ===== verification/Raptor_Window.thy ===== *)
theory Raptor_Window
  imports Raptor_Rounds
begin

text \<open>
  \<open>RaptorTimetable::departure_times_from_stops\<close>: the departures that a range search probes. The
  \<open>BTreeSet\<close> is the strictly increasing list of its elements, the \<open>HashMap\<close> of access times an
  association list, whose order does not matter as only a set is built from it.
\<close>

section \<open>Ordered sets\<close>

definition btree_set :: "'a :: linorder list \<Rightarrow> 'a list" where
  "btree_set xs = remdups_adj (sort xs)"

lemma set_btree_set [simp]: "set (btree_set xs) = set xs"
  by (simp add: btree_set_def)

lemma remdups_adj_strict: "sorted xs \<Longrightarrow> sorted_wrt (<) (remdups_adj xs)"
  by (induction xs rule: remdups_adj.induct) (auto simp: order_less_le)

lemma sorted_btree_set: "sorted_wrt (<) (btree_set xs)"
  by (simp add: btree_set_def remdups_adj_strict)

lemma btree_set_set: "set xs = set ys \<Longrightarrow> btree_set xs = btree_set ys"
  by (rule strict_sorted_equal) (simp_all add: sorted_btree_set)

section \<open>The function\<close>

definition origin_access :: "raptor_timetable \<Rightarrow> string list \<Rightarrow> transfer list \<Rightarrow> (usize \<times> u32) list" where
  "origin_access tt stop_ids access_transfers =
     (let own = foldl (\<lambda>access stop_id. case tt_stop_indices tt stop_id of
                None \<Rightarrow> access | Some stop \<Rightarrow> AList.update stop 0 access) [] stop_ids
      in foldl (\<lambda>access transfer.
            if tr_from_stop_id transfer \<notin> set stop_ids then access
            else (case tt_stop_indices tt (tr_to_stop_id transfer) of
                None \<Rightarrow> access
              | Some stop \<Rightarrow> (case map_of access stop of
                    Some known \<Rightarrow> AList.update stop (min known (tr_min_transfer_seconds transfer)) access
                  | None \<Rightarrow> AList.update stop (tr_min_transfer_seconds transfer) access)))
          own access_transfers)"

definition departure_indices :: "raptor_route \<Rightarrow> bool \<Rightarrow> usize \<Rightarrow> usize list option" where
  "departure_indices route allow_unverified_services position =
     idx (if allow_unverified_services then rr_departures_by_stop_index route
          else rr_verified_departures_by_stop_index route) position"

definition indices_panic :: "raptor_route \<Rightarrow> usize \<Rightarrow> usize list \<Rightarrow> bool" where
  "indices_panic route position indices \<longleftrightarrow>
     list_ex (\<lambda>i. length (rr_trips route) \<le> i \<or> length (rt_stop_times (rr_trips route ! i)) \<le> position) indices"

definition window_departures ::
  "raptor_timetable \<Rightarrow> transport_mode list \<Rightarrow> bool \<Rightarrow> u32 \<Rightarrow> u32 \<Rightarrow> u32 \<Rightarrow> usize \<times> usize \<Rightarrow> u32 list option" where
  "window_departures tt modes allow_unverified_services access earliest latest entry = do {
     route \<leftarrow> idx (tt_routes tt) (fst entry);
     first \<leftarrow> idx (rr_trips route) 0;
     if modes \<noteq> [] \<and> rt_mode first \<notin> set modes then Some []
     else (case departure_indices route allow_unverified_services (snd entry) of
         None \<Rightarrow> Some []
       | Some indices \<Rightarrow>
           if indices_panic route (snd entry) indices then None
           else (let call = (\<lambda>i. call_at (rr_trips route) (snd entry) i);
                     from_first = drop (partition_point (\<lambda>i. rst_departure_time (call i) < earliest) indices) indices;
                     in_window = takeWhile (\<lambda>i. rst_departure_time (call i) \<le> latest) from_first
                 in Some (map (\<lambda>i. saturating_sub (rst_departure_time (call i)) access)
                       (filter (\<lambda>i. rst_pickup_allowed (call i)) in_window)))) }"

definition sample_departures :: "usize \<Rightarrow> u32 list \<Rightarrow> u32 list" where
  "sample_departures max_departures departures =
     (if length departures \<le> max_departures then departures
      else map (\<lambda>sample_index. departures ! (sample_index * (length departures - 1) div (max_departures - 1)))
             [0..<max_departures])"

definition departure_times_from_stops ::
  "raptor_timetable \<Rightarrow> string list \<Rightarrow> transfer list \<Rightarrow> u32 \<Rightarrow> u32 \<Rightarrow> usize \<Rightarrow> transport_mode list \<Rightarrow> bool \<Rightarrow> u32 list option" where
  "departure_times_from_stops tt stop_ids access_transfers departure_time window_seconds max_departures modes
      allow_unverified_services =
     (let max_departures = max max_departures 1;
          latest_departure = saturating_add departure_time window_seconds
      in if window_seconds = 0 \<or> max_departures = 1 then Some [departure_time]
         else do {
           events \<leftarrow> mapM (\<lambda>(stop, access).
               map_option concat (mapM (window_departures tt modes allow_unverified_services access
                   (saturating_add departure_time access) (saturating_add latest_departure access))
                 (stop_routes_of tt stop)))
             (origin_access tt stop_ids access_transfers);
           Some (sample_departures max_departures (btree_set (departure_time # concat events))) })"

section \<open>What is probed\<close>

text \<open>
  A probe belongs to a boarding: at a stop that is an origin itself, or within a footpath of one, a
  trip that allows boarding departs the access time after the probe, within the window.
\<close>

definition accessible_in :: "raptor_timetable \<Rightarrow> string list \<Rightarrow> transfer list \<Rightarrow> usize \<Rightarrow> u32 \<Rightarrow> bool" where
  "accessible_in tt stop_ids access_transfers stop access \<longleftrightarrow>
     (access = 0 \<and> (\<exists>stop_id \<in> set stop_ids. tt_stop_indices tt stop_id = Some stop)) \<or>
     (\<exists>t \<in> set access_transfers. tr_from_stop_id t \<in> set stop_ids \<and>
        tt_stop_indices tt (tr_to_stop_id t) = Some stop \<and> tr_min_transfer_seconds t = access)"

definition probes_boarding :: "raptor_timetable \<Rightarrow> string list \<Rightarrow> transfer list \<Rightarrow> u32 \<Rightarrow> u32 \<Rightarrow> transport_mode list \<Rightarrow> bool \<Rightarrow> u32 \<Rightarrow> bool" where
  "probes_boarding tt stop_ids access_transfers departure_time window_seconds modes allow t \<longleftrightarrow>
     (\<exists>stop access route trip k. accessible_in tt stop_ids access_transfers stop access \<and>
        route \<in> set (tt_routes tt) \<and> trip \<in> set (rr_trips route) \<and> k < length (rt_stop_times trip) \<and>
        rr_stop_indices route ! k = stop \<and> (modes = [] \<or> rt_mode trip \<in> set modes) \<and>
        (allow \<or> rt_service_verified trip) \<and> rst_pickup_allowed (rt_stop_times trip ! k) \<and>
        saturating_add departure_time access \<le> rst_departure_time (rt_stop_times trip ! k) \<and>
        rst_departure_time (rt_stop_times trip ! k) \<le> saturating_add (saturating_add departure_time window_seconds) access \<and>
        t = saturating_sub (rst_departure_time (rt_stop_times trip ! k)) access)"

lemma in_update: "p \<in> set (AList.update k v al) \<Longrightarrow> p = (k, v) \<or> p \<in> set al"
  by (induction al) (auto split: if_splits)

lemma foldl_preserves: "P a \<Longrightarrow> (\<And>s x. x \<in> set xs \<Longrightarrow> P s \<Longrightarrow> P (f s x)) \<Longrightarrow> P (foldl f a xs)"
  by (induction xs arbitrary: a) auto

lemma origin_access_correct:
  assumes "(stop, access) \<in> set (origin_access tt stop_ids ts)"
  shows "accessible_in tt stop_ids ts stop access"
proof -
  let ?P = "\<lambda>al. \<forall>(stop, access) \<in> set al. accessible_in tt stop_ids ts stop access"
  have "?P (origin_access tt stop_ids ts)"
    unfolding origin_access_def Let_def
  proof (rule foldl_preserves, rule foldl_preserves)
    fix al id assume "id \<in> set stop_ids" "?P al"
    then show "?P (case tt_stop_indices tt id of None \<Rightarrow> al | Some stop \<Rightarrow> AList.update stop 0 al)"
      by (auto simp: accessible_in_def dest!: in_update split: option.splits)
  next
    fix al t assume t: "t \<in> set ts" and P: "?P al"
    show "?P (if tr_from_stop_id t \<notin> set stop_ids then al
            else (case tt_stop_indices tt (tr_to_stop_id t) of
                None \<Rightarrow> al
              | Some stop \<Rightarrow> (case map_of al stop of
                    Some known \<Rightarrow> AList.update stop (min known (tr_min_transfer_seconds t)) al
                  | None \<Rightarrow> AList.update stop (tr_min_transfer_seconds t) al)))"
    proof (cases "tr_from_stop_id t \<in> set stop_ids \<and> tt_stop_indices tt (tr_to_stop_id t) \<noteq> None")
      case True
      then obtain s where s: "tt_stop_indices tt (tr_to_stop_id t) = Some s" "tr_from_stop_id t \<in> set stop_ids" by auto
      have new: "accessible_in tt stop_ids ts s (tr_min_transfer_seconds t)" using t s by (auto simp: accessible_in_def)
      show ?thesis
      proof (cases "map_of al s")
        case None
        with s new P show ?thesis by (auto dest!: in_update)
      next
        case (Some known)
        then have "accessible_in tt stop_ids ts s known" using P map_of_SomeD by fastforce
        with new have "accessible_in tt stop_ids ts s (min known (tr_min_transfer_seconds t))" by (simp add: min_def)
        with s Some P show ?thesis by (auto dest!: in_update)
      qed
    qed (use P in auto)
  qed simp
  with assms show ?thesis by blast
qed

lemma stop_routes_entry:
  assumes ok: "timetable_ok tt" and "(r, k) \<in> set (stop_routes_of tt stop)"
  shows "r < length (tt_routes tt)" and "k < length (rr_stop_indices (tt_routes tt ! r))"
    and "rr_stop_indices (tt_routes tt ! r) ! k = stop"
proof -
  have p: "positions_ok tt" using ok by (simp add: timetable_ok_def)
  have "stop < length (tt_stop_routes tt)" "(r, k) \<in> set (tt_stop_routes tt ! stop)"
    using assms(2) by (auto simp: stop_routes_of_def idx_def split: if_splits)
  with p show "r < length (tt_routes tt)" and "k < length (rr_stop_indices (tt_routes tt ! r))"
    and "rr_stop_indices (tt_routes tt ! r) ! k = stop"
    by (auto simp: positions_ok_def stop_count_of_def)
qed

text \<open>The departure table of a route on a well-formed timetable.\<close>

lemma route_departure_indices:
  assumes ok: "route_ok si route" and k: "k < length (rr_stop_indices route)"
  shows "\<exists>indices. departure_indices route allow k = Some indices \<and> \<not> indices_panic route k indices \<and>
     set indices = {i. i < length (rr_trips route) \<and> (allow \<or> rt_service_verified (rr_trips route ! i))} \<and>
     sorted (map (departure_at (rr_trips route) k) indices)"
proof -
  let ?n = "length (rr_stop_indices route)" and ?trips = "rr_trips route"
  define keep where "keep = (\<lambda>t :: raptor_trip. allow \<or> rt_service_verified t)"
  define table where "table = (if allow then rr_departures_by_stop_index route else rr_verified_departures_by_stop_index route)"
  have "route_indexed route" using ok unfolding route_ok_def by blast
  then have "index_ok ?trips ?n keep table"
    by (cases allow) (auto simp: route_indexed_def stop_count_of_def keep_def table_def)
  then have t: "k < length table" "mset (table ! k) = mset (filter (\<lambda>i. keep (?trips ! i)) [0..<length ?trips])"
    "sorted (map (departure_at ?trips k) (table ! k))" using k by (simp_all add: index_ok_def)
  from mset_eq_setD [OF t(2)] have set: "set (table ! k) = {i. i < length ?trips \<and> keep (?trips ! i)}" by auto
  have "\<not> indices_panic route k (table ! k)"
    using set route_ok_lengths(1) [OF ok] k by (auto simp: indices_panic_def list_ex_iff not_le)
  with t set show ?thesis by (simp add: departure_indices_def table_def [symmetric] keep_def)
qed

lemma route_of_entry: "timetable_ok tt \<Longrightarrow> r < length (tt_routes tt) \<Longrightarrow> route_ok (tt_stop_indices tt) (tt_routes tt ! r)"
  unfolding timetable_ok_def by auto

lemma window_departures_correct:
  assumes ok: "timetable_ok tt" and e: "(r, k) \<in> set (stop_routes_of tt stop)"
  shows "\<exists>ts. window_departures tt modes allow access earliest latest (r, k) = Some ts \<and>
     (\<forall>t \<in> set ts. \<exists>trip \<in> set (rr_trips (tt_routes tt ! r)). (modes = [] \<or> rt_mode trip \<in> set modes) \<and>
        (allow \<or> rt_service_verified trip) \<and> k < length (rt_stop_times trip) \<and> rst_pickup_allowed (rt_stop_times trip ! k) \<and>
        earliest \<le> rst_departure_time (rt_stop_times trip ! k) \<and> rst_departure_time (rt_stop_times trip ! k) \<le> latest \<and>
        t = saturating_sub (rst_departure_time (rt_stop_times trip ! k)) access)"
proof -
  let ?route = "tt_routes tt ! r"
  note entry = stop_routes_entry [OF ok e]
  have rok: "route_ok (tt_stop_indices tt) ?route" by (rule route_of_entry [OF ok entry(1)])
  have ne: "rr_trips ?route \<noteq> []" using rok unfolding route_ok_def by blast
  then have hd: "idx (rr_trips ?route) 0 = Some (hd (rr_trips ?route))" by (simp add: hd_conv_nth)
  from route_departure_indices [OF rok entry(2), of allow] obtain indices where
    ix: "departure_indices ?route allow k = Some indices" "\<not> indices_panic ?route k indices"
      "set indices = {i. i < length (rr_trips ?route) \<and> (allow \<or> rt_service_verified (rr_trips ?route ! i))}"
      "sorted (map (departure_at (rr_trips ?route) k) indices)" by blast
  let ?call = "\<lambda>i. call_at (rr_trips ?route) k i"
  show ?thesis
  proof (cases "modes \<noteq> [] \<and> rt_mode (hd (rr_trips ?route)) \<notin> set modes")
    case True
    with entry(1) hd show ?thesis by (auto simp: window_departures_def)
  next
    case False
    let ?from = "drop (partition_point (\<lambda>i. rst_departure_time (?call i) < earliest) indices) indices"
    let ?in = "takeWhile (\<lambda>i. rst_departure_time (?call i) \<le> latest) ?from"
    have w: "window_departures tt modes allow access earliest latest (r, k) =
        Some (map (\<lambda>i. saturating_sub (rst_departure_time (?call i)) access) (filter (\<lambda>i. rst_pickup_allowed (?call i)) ?in))"
      using False entry(1) hd ix(1,2) by (auto simp: window_departures_def Let_def)
    have cut: "?from = filter (\<lambda>i. earliest \<le> departure_at (rr_trips ?route) k i) indices"
      using ix(4) by (simp add: drop_partition_point sorted_dropWhile_filter departure_at_call [symmetric])
    have "\<exists>trip \<in> set (rr_trips ?route). (modes = [] \<or> rt_mode trip \<in> set modes) \<and>
        (allow \<or> rt_service_verified trip) \<and> k < length (rt_stop_times trip) \<and> rst_pickup_allowed (rt_stop_times trip ! k) \<and>
        earliest \<le> rst_departure_time (rt_stop_times trip ! k) \<and> rst_departure_time (rt_stop_times trip ! k) \<le> latest \<and>
        t = saturating_sub (rst_departure_time (rt_stop_times trip ! k)) access"
      if i: "i \<in> set ?in" "rst_pickup_allowed (?call i)" "t = saturating_sub (rst_departure_time (?call i)) access" for i t
    proof -
      have "i \<in> set ?from" "rst_departure_time (?call i) \<le> latest" using i(1) by (auto dest: set_takeWhileD)
      then have "i \<in> set indices" "earliest \<le> rst_departure_time (?call i)" "rst_departure_time (?call i) \<le> latest"
        unfolding cut by (simp_all add: departure_at_call)
      with ix(3) have "rr_trips ?route ! i \<in> set (rr_trips ?route)" "allow \<or> rt_service_verified (rr_trips ?route ! i)"
        by simp_all
      moreover have "rt_mode (rr_trips ?route ! i) = rt_mode (hd (rr_trips ?route))"
        "k < length (rt_stop_times (rr_trips ?route ! i))"
        using route_ok_lengths(1,3) [OF rok calculation(1)] entry(2) by simp_all
      ultimately show ?thesis
        using i False \<open>earliest \<le> _\<close> \<open>_ \<le> latest\<close>
        by (intro bexI [of _ "rr_trips ?route ! i"]) (auto simp: call_at_def)
    qed
    then show ?thesis unfolding w by auto
  qed
qed

section \<open>Sampling\<close>

lemma sample_index_bound:
  fixes i m n :: nat
  assumes "1 < m" and "m < n" and "i < m"
  shows "i * (n - 1) div (m - 1) < n"
proof -
  have "i * (n - 1) \<le> (m - 1) * (n - 1)" using assms by (intro mult_le_mono1) simp
  then have "i * (n - 1) div (m - 1) \<le> (m - 1) * (n - 1) div (m - 1)" by (rule div_le_mono)
  also have "\<dots> = n - 1" using assms(1) by simp
  finally show ?thesis using assms by simp
qed

lemma sample_index_step:
  assumes "1 < m" and "m < n" and "i < j"
  shows "i * (n - 1) div (m - 1) < j * (n - (1::nat)) div (m - 1)"
proof -
  have "i * (n - 1) + (m - 1) \<le> i * (n - 1) + (n - 1)" using assms by simp
  also have "\<dots> = Suc i * (n - 1)" by simp
  also have "\<dots> \<le> j * (n - 1)" using assms(3) by (intro mult_le_mono1) simp
  finally have "(i * (n - 1) + (m - 1)) div (m - 1) \<le> j * (n - 1) div (m - 1)" by (rule div_le_mono)
  moreover have "(i * (n - 1) + (m - 1)) div (m - 1) = Suc (i * (n - 1) div (m - 1))"
    by (subst div_add_self2) (use assms(1) in simp_all)
  ultimately show ?thesis by simp
qed

lemma sample_departures_correct:
  assumes "sorted_wrt (<) ds" and "ds \<noteq> []" and "1 < m"
  shows "sorted_wrt (<) (sample_departures m ds)" and "length (sample_departures m ds) = min m (length ds)"
    and "set (sample_departures m ds) \<subseteq> set ds"
    and "hd (sample_departures m ds) = hd ds" and "last (sample_departures m ds) = last ds"
proof -
  let ?f = "\<lambda>i. i * (length ds - 1) div (m - 1)"
  show "length (sample_departures m ds) = min m (length ds)" by (simp add: sample_departures_def)
  show "sorted_wrt (<) (sample_departures m ds)"
  proof (cases "length ds \<le> m")
    case False
    have "ds ! ?f i < ds ! ?f j" if "i < j" "j < m" for i j
      using sorted_wrt_nth_less [OF assms(1) sample_index_step [OF assms(3) _ that(1)] sample_index_bound [OF assms(3) _ that(2)]]
        False by simp
    with False show ?thesis by (simp add: sample_departures_def sorted_wrt_iff_nth_less)
  qed (use assms in \<open>simp add: sample_departures_def\<close>)
  show "set (sample_departures m ds) \<subseteq> set ds"
    using sample_index_bound [OF assms(3), of "length ds"] by (auto simp: sample_departures_def)
  have ne: "[0..<m] \<noteq> []" and ends: "hd [0..<m] = 0" "last [0..<m] = m - 1" using assms(3) by simp_all
  have "?f (m - 1) = length ds - 1" using assms(3) by simp
  then have "last (map (\<lambda>i. ds ! ?f i) [0..<m]) = ds ! (length ds - 1)" unfolding last_map [OF ne] ends by simp
  then show "last (sample_departures m ds) = last ds" using assms(2) by (simp add: sample_departures_def last_conv_nth)
  have "hd (map (\<lambda>i. ds ! ?f i) [0..<m]) = ds ! 0" unfolding hd_map [OF ne] ends by simp
  then show "hd (sample_departures m ds) = hd ds" using assms(2) by (simp add: sample_departures_def hd_conv_nth)
qed

lemma departure_times_correct:
  assumes ok: "timetable_ok tt"
  shows "\<exists>ds. departure_times_from_stops tt stop_ids ts departure_time window maximum modes allow = Some ds \<and>
     sorted_wrt (<) ds \<and> ds \<noteq> [] \<and> length ds \<le> max maximum 1 \<and>
     (\<forall>t \<in> set ds. t = departure_time \<or> probes_boarding tt stop_ids ts departure_time window modes allow t)"
proof (cases "window = 0 \<or> max maximum 1 = 1")
  case True
  then show ?thesis by (simp add: departure_times_from_stops_def)
next
  case False
  let ?probe = "probes_boarding tt stop_ids ts departure_time window modes allow"
  let ?event = "\<lambda>(stop, access). map_option concat (mapM (window_departures tt modes allow access
                   (saturating_add departure_time access) (saturating_add (saturating_add departure_time window) access))
                 (stop_routes_of tt stop))"
  have event: "\<exists>es. ?event sa = Some es \<and> (\<forall>t \<in> set es. ?probe t)" if sa: "sa \<in> set (origin_access tt stop_ids ts)" for sa
  proof -
    obtain stop access where s: "sa = (stop, access)" by (cases sa)
    have acc: "accessible_in tt stop_ids ts stop access" using origin_access_correct sa s by simp
    let ?w = "window_departures tt modes allow access (saturating_add departure_time access)
        (saturating_add (saturating_add departure_time window) access)"
    have one: "\<exists>es. ?w entry = Some es \<and> (\<forall>t \<in> set es. ?probe t)" if e: "entry \<in> set (stop_routes_of tt stop)" for entry
    proof -
      obtain r k where rk: "entry = (r, k)" by (cases entry)
      note en = stop_routes_entry [OF ok e [unfolded rk]]
      from window_departures_correct [OF ok e [unfolded rk]] obtain es where w: "?w (r, k) = Some es" and
        m: "\<forall>t \<in> set es. \<exists>trip \<in> set (rr_trips (tt_routes tt ! r)). (modes = [] \<or> rt_mode trip \<in> set modes) \<and>
        (allow \<or> rt_service_verified trip) \<and> k < length (rt_stop_times trip) \<and> rst_pickup_allowed (rt_stop_times trip ! k) \<and>
        saturating_add departure_time access \<le> rst_departure_time (rt_stop_times trip ! k) \<and>
        rst_departure_time (rt_stop_times trip ! k) \<le> saturating_add (saturating_add departure_time window) access \<and>
        t = saturating_sub (rst_departure_time (rt_stop_times trip ! k)) access" by blast
      have "tt_routes tt ! r \<in> set (tt_routes tt)" using en(1) by simp
      then have "?probe t" if "t \<in> set es" for t
        unfolding probes_boarding_def using bspec [OF m that] acc en(3) by metis
      with w rk show ?thesis by blast
    qed
    then have "mapM ?w entries = Some (map (\<lambda>e. the (?w e)) entries) \<and>
        (\<forall>t \<in> set (concat (map (\<lambda>e. the (?w e)) entries)). ?probe t)"
      if "set entries \<subseteq> set (stop_routes_of tt stop)" for entries
      using that by (induction entries) fastforce+
    from this [of "stop_routes_of tt stop"] show ?thesis by (simp add: s)
  qed
  have "mapM ?event sas = Some (map (\<lambda>e. the (?event e)) sas) \<and> (\<forall>t \<in> set (concat (map (\<lambda>e. the (?event e)) sas)). ?probe t)"
    if "set sas \<subseteq> set (origin_access tt stop_ids ts)" for sas
    using that
  proof (induction sas)
    case (Cons sa sas)
    from event [of sa] Cons.prems obtain es where "?event sa = Some es" "\<forall>t \<in> set es. ?probe t" by auto
    with Cons show ?case by auto
  qed simp
  from this [OF order_refl] obtain events where
    ev: "mapM ?event (origin_access tt stop_ids ts) = Some events" "\<forall>t \<in> set (concat events). ?probe t" by blast
  let ?ds = "btree_set (departure_time # concat events)"
  have ne: "?ds \<noteq> []" by (metis list.distinct(1) set_btree_set set_empty)
  have m: "1 < max maximum 1" using False by (auto simp: max_def split: if_splits)
  note sd = sample_departures_correct [OF sorted_btree_set ne m]
  have "departure_times_from_stops tt stop_ids ts departure_time window maximum modes allow
      = Some (sample_departures (max maximum 1) ?ds)"
    using False ev(1) by (simp add: departure_times_from_stops_def Let_def)
  moreover have "sample_departures (max maximum 1) ?ds \<noteq> []" using sd(2) ne m by (metis length_0_conv less_numeral_extra(3) min_def not_one_less_zero)
  ultimately show ?thesis using sd ev(2) by (auto dest!: set_mp [OF sd(3)])
qed

end
