(* ===== verification/Direct_Journeys.thy ===== *)
theory Direct_Journeys
  imports Raptor_Window
begin

text \<open>
  \<open>direct_journeys\<close>: all rides without a change between the requested stops, capped, with one
  place kept for every line. Panics are \<open>None\<close>, as in the search.
\<close>

section \<open>The function\<close>

record direct_candidate =
  dc_trip_id :: string
  dc_route_id :: string
  dc_from_stop_id :: string
  dc_to_stop_id :: string
  dc_journey :: journey

type_synonym direct_key = "u32 \<times> u32 \<times> string \<times> string \<times> string \<times> string"

definition direct_sort_key :: "direct_candidate \<Rightarrow> direct_key" where
  "direct_sort_key c = (j_departure_time (dc_journey c), j_arrival_time (dc_journey c), dc_route_id c, dc_trip_id c,
     dc_from_stop_id c, dc_to_stop_id c)"

definition direct_identity :: "direct_candidate \<Rightarrow> string \<times> string \<times> string" where
  "direct_identity c = (dc_trip_id c, dc_from_stop_id c, dc_to_stop_id c)"

definition positions_of_stops :: "raptor_timetable \<Rightarrow> string list \<Rightarrow> (usize \<times> usize) list option" where
  "positions_of_stops tt stop_ids = map_option concat (mapM (\<lambda>stop_id. case tt_stop_indices tt stop_id of
       None \<Rightarrow> Some [] | Some stop \<Rightarrow> idx (tt_stop_routes tt) stop) stop_ids)"

definition endpoint_pairs :: "(usize \<times> usize) list \<Rightarrow> (usize \<times> usize) list \<Rightarrow> (usize \<times> usize \<times> usize) list" where
  "endpoint_pairs origins destinations = btree_set (concat (map (\<lambda>(r, board).
     map (\<lambda>(_, alight). (r, board, alight)) (filter (\<lambda>(r', alight). r' = r \<and> board + 1 \<le> alight) destinations)) origins))"

definition direct_journey_of :: "raptor_trip \<Rightarrow> raptor_stop_time \<Rightarrow> raptor_stop_time \<Rightarrow> u32 \<Rightarrow> u32 \<Rightarrow> journey" where
  "direct_journey_of trip boarded_at alighted_at departure_time arrival_time = \<lparr>
     j_id = [],
     j_legs = [\<lparr>leg_from_stop_id = rst_stop_id boarded_at, leg_to_stop_id = rst_stop_id alighted_at,
       leg_route_id = Some (rt_route_id trip), leg_trip_id = Some (rt_trip_id trip),
       leg_departure_time = rst_departure_time boarded_at, leg_arrival_time = rst_arrival_time alighted_at,
       leg_mode = rt_mode trip,
       leg_warnings = (if departure_time \<noteq> rst_departure_time boarded_at \<or> arrival_time \<noteq> rst_arrival_time alighted_at
                       then [''realtime_routing_applied''] else []),
       leg_geometry = None\<rparr>],
     j_departure_time = departure_time, j_arrival_time = arrival_time,
     j_duration_seconds = arrival_time - departure_time, j_transfer_count = 0, j_walking_distance_meters = 0,
     j_realtime_status = UnavailableRt, j_risk_score = Finite 0, j_labels = []\<rparr>"

text \<open>\<open>None\<close> is a \<open>continue\<close>.\<close>

definition direct_candidate_of :: "raptor_request \<Rightarrow> u32 \<Rightarrow> usize \<Rightarrow> usize \<Rightarrow> raptor_trip \<Rightarrow> direct_candidate option" where
  "direct_candidate_of request latest_departure board alight trip =
     (let boarded_at = rt_stop_times trip ! board; alighted_at = rt_stop_times trip ! alight;
          departure_time = effective_departure (rq_realtime request) trip boarded_at;
          arrival_time = effective_arrival (rq_realtime request) trip alighted_at
      in if \<not> rst_pickup_allowed boarded_at \<or> \<not> rst_drop_off_allowed alighted_at then None
         else if departure_time < rq_departure_time request \<or> latest_departure < departure_time then None
         else if arrival_time < departure_time then None
         else Some \<lparr>dc_trip_id = rt_trip_id trip, dc_route_id = rt_route_id trip,
           dc_from_stop_id = rst_stop_id boarded_at, dc_to_stop_id = rst_stop_id alighted_at,
           dc_journey = direct_journey_of trip boarded_at alighted_at departure_time arrival_time\<rparr>)"

definition keep_best :: "usize \<Rightarrow> direct_candidate list \<Rightarrow> direct_candidate \<Rightarrow> direct_candidate list" where
  "keep_best max_candidates best c = take max_candidates (sort_key direct_sort_key (best @ [c]))"

definition pair_candidates ::
  "raptor_timetable \<Rightarrow> raptor_request \<Rightarrow> u32 \<Rightarrow> usize \<Rightarrow> delay_bounds list \<Rightarrow> usize \<times> usize \<times> usize \<Rightarrow> direct_candidate list option" where
  "pair_candidates tt request latest_departure max_candidates bounds_by_route pair =
     (let (route_index, board, alight) = pair in do {
        route \<leftarrow> idx (tt_routes tt) route_index;
        first \<leftarrow> idx (rr_trips route) 0;
        if rq_modes request \<noteq> [] \<and> rt_mode first \<notin> set (rq_modes request) then Some []
        else do {
          departures \<leftarrow> departure_indices route (rq_allow_unverified_services request) board;
          bounds \<leftarrow> idx bounds_by_route route_index;
          if indices_panic route board departures \<or> indices_panic route alight departures then None
          else (let earliest_scheduled = saturating_sub (rq_departure_time request) (db_max_positive_seconds bounds);
                    latest_scheduled = saturating_add latest_departure (db_max_early_seconds bounds);
                    scheduled = (\<lambda>i. rst_departure_time (rt_stop_times (rr_trips route ! i) ! board));
                    cut = drop (partition_point (\<lambda>i. scheduled i < earliest_scheduled) departures) departures
                in Some (foldl (keep_best max_candidates) []
                     (List.map_filter (\<lambda>i. direct_candidate_of request latest_departure board alight (rr_trips route ! i))
                       (takeWhile (\<lambda>i. scheduled i \<le> latest_scheduled) cut)))) } })"

fun retain_first :: "('a \<Rightarrow> 'k) \<Rightarrow> 'k set \<Rightarrow> 'a list \<Rightarrow> 'a list" where
  "retain_first f seen [] = []"
| "retain_first f seen (x # xs) =
     (if f x \<in> seen then retain_first f seen xs else x # retain_first f (insert (f x) seen) xs)"

fun reserve_lines :: "usize \<Rightarrow> string set \<Rightarrow> usize list \<Rightarrow> usize \<Rightarrow> direct_candidate list \<Rightarrow> usize list" where
  "reserve_lines max_candidates routes selected index [] = selected"
| "reserve_lines max_candidates routes selected index (c # cs) =
     (if dc_route_id c \<in> routes then reserve_lines max_candidates routes selected (index + 1) cs
      else (let selected = selected @ [index]
            in if length selected = max_candidates then selected
               else reserve_lines max_candidates (insert (dc_route_id c) routes) selected (index + 1) cs))"

fun fill_selection :: "usize \<Rightarrow> usize list \<Rightarrow> usize list \<Rightarrow> usize list" where
  "fill_selection max_candidates selected [] = selected"
| "fill_selection max_candidates selected (i # is) =
     (if length selected = max_candidates then selected
      else fill_selection max_candidates (if i \<in> set selected then selected else selected @ [i]) is)"

definition select_candidates :: "usize \<Rightarrow> direct_candidate list \<Rightarrow> direct_candidate list" where
  "select_candidates max_candidates candidates =
     (let selected = fill_selection max_candidates (reserve_lines max_candidates {} [] 0 candidates) [0..<length candidates]
      in map snd (filter (\<lambda>(i, _). i \<in> set selected) (List.enumerate 0 candidates)))"

definition direct_journeys :: "raptor_timetable \<Rightarrow> raptor_request \<Rightarrow> u32 \<Rightarrow> usize \<Rightarrow> journey list option" where
  "direct_journeys tt request window_seconds max_candidates =
     (if max_candidates = 0 then Some []
      else do {
        let latest_departure = saturating_add (rq_departure_time request) window_seconds;
        bounds_by_route \<leftarrow> delay_bounds_by_route (rq_realtime request) tt;
        destinations \<leftarrow> positions_of_stops tt (rq_to_stop_ids request);
        origins \<leftarrow> positions_of_stops tt (rq_from_stop_ids request);
        found \<leftarrow> mapM (pair_candidates tt request latest_departure max_candidates bounds_by_route)
                   (endpoint_pairs origins destinations);
        let candidates = retain_first direct_identity {} (sort_key direct_sort_key (concat found));
        Some (map dc_journey (select_candidates max_candidates candidates)) })"

section \<open>What a direct journey is\<close>

definition direct_option :: "raptor_timetable \<Rightarrow> raptor_request \<Rightarrow> u32 \<Rightarrow> raptor_trip \<Rightarrow> usize \<Rightarrow> usize \<Rightarrow> bool" where
  "direct_option tt request latest_departure trip board alight \<longleftrightarrow>
     (\<exists>route \<in> set (tt_routes tt). trip \<in> set (rr_trips route)) \<and>
     (rq_modes request = [] \<or> rt_mode trip \<in> set (rq_modes request)) \<and>
     (rq_allow_unverified_services request \<or> rt_service_verified trip) \<and>
     board < alight \<and> alight < length (rt_stop_times trip) \<and>
     rst_stop_id (rt_stop_times trip ! board) \<in> set (rq_from_stop_ids request) \<and>
     rst_stop_id (rt_stop_times trip ! alight) \<in> set (rq_to_stop_ids request) \<and>
     rst_pickup_allowed (rt_stop_times trip ! board) \<and> rst_drop_off_allowed (rt_stop_times trip ! alight) \<and>
     rq_departure_time request \<le> effective_departure (rq_realtime request) trip (rt_stop_times trip ! board) \<and>
     effective_departure (rq_realtime request) trip (rt_stop_times trip ! board) \<le> latest_departure \<and>
     effective_departure (rq_realtime request) trip (rt_stop_times trip ! board)
       \<le> effective_arrival (rq_realtime request) trip (rt_stop_times trip ! alight)"

definition option_candidate :: "raptor_request \<Rightarrow> raptor_trip \<Rightarrow> usize \<Rightarrow> usize \<Rightarrow> direct_candidate" where
  "option_candidate request trip board alight =
     (let b = rt_stop_times trip ! board; a = rt_stop_times trip ! alight
      in \<lparr>dc_trip_id = rt_trip_id trip, dc_route_id = rt_route_id trip, dc_from_stop_id = rst_stop_id b,
          dc_to_stop_id = rst_stop_id a,
          dc_journey = direct_journey_of trip b a (effective_departure (rq_realtime request) trip b)
            (effective_arrival (rq_realtime request) trip a)\<rparr>)"

section \<open>Keeping the best of a pair\<close>

definition best_of :: "usize \<Rightarrow> direct_candidate list \<Rightarrow> direct_candidate list \<Rightarrow> bool" where
  "best_of n best processed \<longleftrightarrow> set best \<subseteq> set processed \<and> sorted (map direct_sort_key best) \<and>
     (\<forall>c \<in> set processed. c \<in> set best \<or> (length best = n \<and> (\<forall>b \<in> set best. direct_sort_key b \<le> direct_sort_key c)))"

lemma take_sorted_split:
  assumes "sorted (map f xs)" and "x \<in> set xs" and "x \<notin> set (take n xs)"
  shows "n < length xs \<and> (\<forall>b \<in> set (take n xs). (f b :: 'k :: linorder) \<le> f x)"
proof -
  have "x \<in> set (drop n xs)" using assms(2,3) by (metis Un_iff append_take_drop_id set_append)
  moreover have "sorted (map f (take n xs) @ map f (drop n xs))" using assms(1) by (metis append_take_drop_id map_append)
  ultimately show ?thesis by (fastforce simp: sorted_append intro: ccontr)
qed

lemma keep_best_of:
  assumes "best_of n best processed" and len: "length best \<le> n"
  shows "best_of n (keep_best n best c) (processed @ [c])" and "length (keep_best n best c) \<le> n"
proof -
  let ?s = "sort_key direct_sort_key (best @ [c])"
  have srt: "sorted (map direct_sort_key ?s)" by simp
  have set: "set ?s = insert c (set best)" by auto
  show "length (keep_best n best c) \<le> n" by (simp add: keep_best_def)
  have "x \<in> set (take n ?s) \<or> (length (take n ?s) = n \<and> (\<forall>b \<in> set (take n ?s). direct_sort_key b \<le> direct_sort_key x))"
    if x: "x \<in> set (processed @ [c])" for x
  proof (cases "x \<in> set ?s")
    case True
    with take_sorted_split [OF srt True, of n] show ?thesis by auto
  next
    case False
    with x have "x \<in> set processed" "x \<notin> set best" "x \<noteq> c" unfolding set by auto
    with assms(1) have full: "length best = n" "\<forall>b \<in> set best. direct_sort_key b \<le> direct_sort_key x"
      by (auto simp: best_of_def)
    have long: "length ?s = Suc n" using full(1) by simp
    have "take (Suc n) ?s = take n ?s @ [?s ! n]" by (rule take_Suc_conv_app_nth) (use full(1) in simp)
    moreover have "take (Suc n) ?s = ?s" by (rule take_all) (use full(1) in simp)
    ultimately obtain y where y: "?s = take n ?s @ [y]" by metis
    have le_y: "direct_sort_key b \<le> direct_sort_key y" if "b \<in> set (take n ?s)" for b
      using srt that by (subst (asm) y) (simp add: sorted_append)
    have "direct_sort_key b \<le> direct_sort_key x" if b: "b \<in> set (take n ?s)" for b
    proof (cases "y \<in> set best")
      case True
      with le_y [OF b] full(2) show ?thesis by (meson order_trans)
    next
      case False
      have "y \<in> set ?s" by (subst y) simp
      with False set have "y = c" by auto
      moreover have "mset (take n ?s) + {#y#} = mset best + {#c#}"
        using arg_cong [OF y, of mset] by simp
      ultimately have "mset (take n ?s) = mset best" by simp
      with b have "b \<in> set best" by (metis set_mset_mset)
      with full(2) show ?thesis by blast
    qed
    with long show ?thesis by auto
  qed
  moreover have "set (take n ?s) \<subseteq> set (processed @ [c])"
    using assms(1) set set_take_subset [of n ?s] by (auto simp: best_of_def)
  moreover have "sorted (map direct_sort_key (take n ?s))" using srt by (metis sorted_wrt_take take_map)
  ultimately show "best_of n (keep_best n best c) (processed @ [c])" by (simp add: best_of_def keep_best_def)
qed

lemma keep_best_all: "best_of n (foldl (keep_best n) [] cs) cs \<and> length (foldl (keep_best n) [] cs) \<le> n"
proof (induction cs rule: rev_induct)
  case Nil
  show ?case by (simp add: best_of_def)
next
  case (snoc c cs)
  then show ?case using keep_best_of [of n "foldl (keep_best n) [] cs" cs c] by simp
qed

section \<open>One pair of positions\<close>

definition pair_option ::
  "raptor_timetable \<Rightarrow> raptor_request \<Rightarrow> u32 \<Rightarrow> usize \<times> usize \<times> usize \<Rightarrow> raptor_trip \<Rightarrow> bool" where
  "pair_option tt request latest pair trip \<longleftrightarrow>
     trip \<in> set (rr_trips (tt_routes tt ! fst pair)) \<and> direct_option tt request latest trip (fst (snd pair)) (snd (snd pair))"

definition pair_ok :: "raptor_timetable \<Rightarrow> raptor_request \<Rightarrow> usize \<times> usize \<times> usize \<Rightarrow> bool" where
  "pair_ok tt request pair \<longleftrightarrow> (case pair of (r, b, a) \<Rightarrow>
     r < length (tt_routes tt) \<and> b < a \<and> a < length (rr_stop_indices (tt_routes tt ! r)) \<and>
     (\<forall>trip \<in> set (rr_trips (tt_routes tt ! r)).
        rst_stop_id (rt_stop_times trip ! b) \<in> set (rq_from_stop_ids request) \<and>
        rst_stop_id (rt_stop_times trip ! a) \<in> set (rq_to_stop_ids request)))"

lemma direct_candidate_of_Some:
  "direct_candidate_of request latest b a trip = Some c \<longleftrightarrow> c = option_candidate request trip b a \<and>
     rst_pickup_allowed (rt_stop_times trip ! b) \<and> rst_drop_off_allowed (rt_stop_times trip ! a) \<and>
     rq_departure_time request \<le> effective_departure (rq_realtime request) trip (rt_stop_times trip ! b) \<and>
     effective_departure (rq_realtime request) trip (rt_stop_times trip ! b) \<le> latest \<and>
     effective_departure (rq_realtime request) trip (rt_stop_times trip ! b)
       \<le> effective_arrival (rq_realtime request) trip (rt_stop_times trip ! a)"
  by (auto simp: direct_candidate_of_def option_candidate_def Let_def not_less)

text \<open>The window on scheduled times, widened by the delay bounds, loses no eligible ride.\<close>

lemma pair_candidates_correct:
  assumes ok: "timetable_ok tt" and rt: "realtime_ok (rq_realtime request)"
    and bounds: "bounds_sound (rq_realtime request) tt bs" and p: "pair_ok tt request pair"
  shows "\<exists>cs all. pair_candidates tt request latest n bs pair = Some cs \<and> best_of n cs all \<and>
     set all = {option_candidate request trip (fst (snd pair)) (snd (snd pair)) | trip. pair_option tt request latest pair trip}"
proof -
  obtain r b a where pair: "pair = (r, b, a)" by (cases pair)
  let ?route = "tt_routes tt ! r" and ?trips = "rr_trips (tt_routes tt ! r)" and ?bs = "bs ! r"
  have pos: "r < length (tt_routes tt)" "b < a" "a < length (rr_stop_indices ?route)" "b < length (rr_stop_indices ?route)"
    and ends: "\<forall>trip \<in> set ?trips. rst_stop_id (rt_stop_times trip ! b) \<in> set (rq_from_stop_ids request) \<and>
        rst_stop_id (rt_stop_times trip ! a) \<in> set (rq_to_stop_ids request)"
    using p by (auto simp: pair_ok_def pair)
  have rok: "route_ok (tt_stop_indices tt) ?route" by (rule route_of_entry [OF ok pos(1)])
  have ne: "?trips \<noteq> []" using rok unfolding route_ok_def by blast
  then have hd: "idx ?trips 0 = Some (hd ?trips)" by (simp add: hd_conv_nth)
  have mode: "rt_mode trip = rt_mode (hd ?trips)" and len: "length (rt_stop_times trip) = length (rr_stop_indices ?route)"
    if "trip \<in> set ?trips" for trip using route_ok_lengths [OF rok that] by simp_all
  show ?thesis
  proof (cases "rq_modes request \<noteq> [] \<and> rt_mode (hd ?trips) \<notin> set (rq_modes request)")
    case True
    then have "pair_candidates tt request latest n bs pair = Some []"
      using pos(1) hd by (simp add: pair_candidates_def pair)
    moreover have "\<not> pair_option tt request latest pair trip" for trip
      using True mode by (auto simp: pair_option_def direct_option_def pair)
    ultimately show ?thesis by (intro exI [of _ "[]"]) (simp add: best_of_def)
  next
    case False
    from route_departure_indices [OF rok pos(4), of "rq_allow_unverified_services request"] obtain indices where
      ix: "departure_indices ?route (rq_allow_unverified_services request) b = Some indices" "\<not> indices_panic ?route b indices"
      "set indices = {i. i < length ?trips \<and> (rq_allow_unverified_services request \<or> rt_service_verified (?trips ! i))}"
      "sorted (map (departure_at ?trips b) indices)" by blast
    have panic: "\<not> indices_panic ?route a indices"
      using ix(3) pos(3) len by (auto simp: indices_panic_def list_ex_iff not_le)
    have blen: "r < length bs" and wide: "\<And>trip. trip \<in> set ?trips \<Longrightarrow> wider ?bs (trip_bounds (rq_realtime request) (rt_trip_id trip))"
      using bounds pos(1) by (auto simp: bounds_sound_def)
    let ?sched = "\<lambda>i. rst_departure_time (rt_stop_times (?trips ! i) ! b)"
    let ?lo = "saturating_sub (rq_departure_time request) (db_max_positive_seconds ?bs)"
    let ?hi = "saturating_add latest (db_max_early_seconds ?bs)"
    let ?cut = "drop (partition_point (\<lambda>i. ?sched i < ?lo) indices) indices"
    let ?in = "takeWhile (\<lambda>i. ?sched i \<le> ?hi) ?cut"
    let ?cand = "\<lambda>i. direct_candidate_of request latest b a (?trips ! i)"
    have at: "?sched i = departure_at ?trips b i" for i by (simp add: departure_at_def)
    have cut: "?cut = filter (\<lambda>i. ?lo \<le> ?sched i) indices"
      using ix(4) by (simp add: drop_partition_point sorted_dropWhile_filter at)
    have "sorted (map (departure_at ?trips b) ?cut)" using ix(4) unfolding cut by (rule sorted_filter)
    then have "?in = filter (\<lambda>i. ?sched i \<le> ?hi) ?cut" unfolding at by (rule sorted_takeWhile_filter)
    then have window: "set ?in = {i \<in> set indices. ?lo \<le> ?sched i \<and> ?sched i \<le> ?hi}" unfolding cut by auto
    have all: "set (List.map_filter ?cand ?in) =
        {option_candidate request trip (fst (snd pair)) (snd (snd pair)) | trip. pair_option tt request latest pair trip}"
    proof (intro set_eqI iffI)
      fix c assume "c \<in> set (List.map_filter ?cand ?in)"
      then obtain i where i: "i \<in> set ?in" "?cand i = Some c" by (auto simp: map_filter_set)
      with window ix(3) have "?trips ! i \<in> set ?trips" "rq_allow_unverified_services request \<or> rt_service_verified (?trips ! i)"
        by auto
      with i(2) False mode len ends pos have "pair_option tt request latest pair (?trips ! i)"
        by (auto simp: pair_option_def direct_option_def pair direct_candidate_of_Some)
      with i(2) show "c \<in> {option_candidate request trip (fst (snd pair)) (snd (snd pair)) | trip. pair_option tt request latest pair trip}"
        by (auto simp: direct_candidate_of_Some pair)
    next
      fix c assume "c \<in> {option_candidate request trip (fst (snd pair)) (snd (snd pair)) | trip. pair_option tt request latest pair trip}"
      then obtain trip where c: "c = option_candidate request trip b a" and po: "pair_option tt request latest pair trip"
        by (auto simp: pair)
      then obtain i where i: "i < length ?trips" "?trips ! i = trip"
        by (auto simp: pair_option_def pair in_set_conv_nth)
      have d: "direct_option tt request latest trip b a" using po by (simp add: pair_option_def pair)
      have trip: "trip \<in> set ?trips" using i by auto
      let ?call = "rt_stop_times trip ! b"
      have lo: "?lo \<le> ?sched i"
      proof (rule ccontr)
        assume "\<not> ?lo \<le> ?sched i"
        then have "adjusted_time (rq_realtime request) (rt_trip_id trip) (rst_stop_id ?call) (rst_departure_time ?call) < rq_departure_time request"
          using i by (intro rt.departs_too_early [OF rt wide [OF trip]]) (simp add: not_le)
        with d show False by (auto simp: direct_option_def effective_departure_def)
      qed
      have hi: "?sched i \<le> ?hi"
      proof (rule ccontr)
        assume "\<not> ?sched i \<le> ?hi"
        then have "latest < adjusted_time (rq_realtime request) (rt_trip_id trip) (rst_stop_id ?call) (rst_departure_time ?call)"
          using i by (intro rt.departs_too_late [OF rt wide [OF trip]]) (simp add: not_le)
        with d show False by (auto simp: direct_option_def effective_departure_def)
      qed
      have "i \<in> set indices" using ix(3) i d by (auto simp: direct_option_def)
      with lo hi window have "i \<in> set ?in" by auto
      moreover have "?cand i = Some c" using d c i by (auto simp: direct_candidate_of_Some direct_option_def)
      ultimately show "c \<in> set (List.map_filter ?cand ?in)" by (auto simp: map_filter_set)
    qed
    have "pair_candidates tt request latest n bs pair = Some (foldl (keep_best n) [] (List.map_filter ?cand ?in))"
      using False pos(1) hd ix(1,2) panic blen by (auto simp: pair_candidates_def pair Let_def)
    then show ?thesis using keep_best_all [of n "List.map_filter ?cand ?in"] all by blast
  qed
qed

section \<open>The pairs of positions\<close>

lemma positions_of_stops_correct:
  assumes ok: "timetable_ok tt"
  shows "\<exists>ps. positions_of_stops tt ids = Some ps \<and>
     set ps = {(r, k). r < length (tt_routes tt) \<and> k < length (rr_stop_indices (tt_routes tt ! r)) \<and>
        (\<exists>stop_id \<in> set ids. tt_stop_indices tt stop_id = Some (rr_stop_indices (tt_routes tt ! r) ! k))}"
proof (induction ids)
  case Nil
  show ?case by (simp add: positions_of_stops_def)
next
  case (Cons stop_id ids)
  then obtain ps where ps: "mapM (\<lambda>stop_id. case tt_stop_indices tt stop_id of
       None \<Rightarrow> Some [] | Some stop \<Rightarrow> idx (tt_stop_routes tt) stop) ids = Some ps"
    "set (concat ps) = {(r, k). r < length (tt_routes tt) \<and> k < length (rr_stop_indices (tt_routes tt ! r)) \<and>
        (\<exists>stop_id \<in> set ids. tt_stop_indices tt stop_id = Some (rr_stop_indices (tt_routes tt ! r) ! k))}"
    by (auto simp: positions_of_stops_def)
  show ?case
  proof (cases "tt_stop_indices tt stop_id")
    case None
    with ps show ?thesis by (auto simp: positions_of_stops_def)
  next
    case (Some stop)
    then have "stop < length (tt_stops tt)" using ok by (simp add: timetable_ok_def numbering_ok_def)
    then have "idx (tt_stop_routes tt) stop = Some (tt_stop_routes tt ! stop)"
      "set (tt_stop_routes tt ! stop) = {(r, k). r < length (tt_routes tt) \<and> k < length (rr_stop_indices (tt_routes tt ! r)) \<and>
         rr_stop_indices (tt_routes tt ! r) ! k = stop}"
      using ok by (auto simp: timetable_ok_def positions_ok_def stop_count_of_def)
    with ps Some show ?thesis by (auto simp: positions_of_stops_def)
  qed
qed

lemma stop_of_position:
  assumes ok: "timetable_ok tt" and r: "r < length (tt_routes tt)" and trip: "trip \<in> set (rr_trips (tt_routes tt ! r))"
    and k: "k < length (rr_stop_indices (tt_routes tt ! r))"
  shows "tt_stop_indices tt stop_id = Some (rr_stop_indices (tt_routes tt ! r) ! k) \<longleftrightarrow> stop_id = rst_stop_id (rt_stop_times trip ! k)"
proof -
  let ?route = "tt_routes tt ! r"
  have rok: "route_ok (tt_stop_indices tt) ?route" by (rule route_of_entry [OF ok r])
  have num: "numbering_ok (tt_stop_indices tt, tt_stops tt)" using ok by (simp add: timetable_ok_def)
  have si: "map Some (rr_stop_indices ?route) = map (\<lambda>st. tt_stop_indices tt (rst_stop_id st)) (rt_stop_times (hd (rr_trips ?route)))"
    and same: "same_key (rr_trips ?route)" using rok unfolding route_ok_def by blast+
  have lhd: "length (rt_stop_times (hd (rr_trips ?route))) = length (rr_stop_indices ?route)" using arg_cong [OF si, of length] by simp
  have "trip_key trip = trip_key (hd (rr_trips ?route))" using same trip unfolding same_key_def by blast
  then have "map rst_stop_id (rt_stop_times trip) = map rst_stop_id (rt_stop_times (hd (rr_trips ?route)))" by (simp add: trip_key_def)
  from arg_cong [OF this, of "\<lambda>xs. xs ! k"] arg_cong [OF si, of "\<lambda>xs. xs ! k"]
  have "tt_stop_indices tt (rst_stop_id (rt_stop_times trip ! k)) = Some (rr_stop_indices ?route ! k)"
    using k lhd route_ok_lengths(1) [OF rok trip] by simp
  with num show ?thesis by (auto simp: numbering_ok_def)
qed

lemma endpoint_pairs_correct:
  assumes ok: "timetable_ok tt" and "positions_of_stops tt (rq_from_stop_ids request) = Some origins"
    and "positions_of_stops tt (rq_to_stop_ids request) = Some destinations"
  shows "pair \<in> set (endpoint_pairs origins destinations) \<Longrightarrow> pair_ok tt request pair"
    and "r < length (tt_routes tt) \<Longrightarrow> trip \<in> set (rr_trips (tt_routes tt ! r)) \<Longrightarrow> direct_option tt request latest trip b a \<Longrightarrow>
      (r, b, a) \<in> set (endpoint_pairs origins destinations)"
proof -
  note o = positions_of_stops_correct [OF ok, of "rq_from_stop_ids request", unfolded assms(2)]
  note d = positions_of_stops_correct [OF ok, of "rq_to_stop_ids request", unfolded assms(3)]
  have mem: "(r, b, a) \<in> set (endpoint_pairs origins destinations) \<longleftrightarrow> (r, b) \<in> set origins \<and> (r, a) \<in> set destinations \<and> b < a" for r b a
    unfolding endpoint_pairs_def set_btree_set by force
  show "pair_ok tt request pair" if "pair \<in> set (endpoint_pairs origins destinations)"
  proof -
    obtain r b a where pair: "pair = (r, b, a)" by (cases pair)
    with that mem have "(r, b) \<in> set origins" "(r, a) \<in> set destinations" "b < a" by auto
    with o d stop_of_position [OF ok, of r] show ?thesis unfolding pair_ok_def pair by fastforce
  qed
  assume r: "r < length (tt_routes tt)" and trip: "trip \<in> set (rr_trips (tt_routes tt ! r))" and opt: "direct_option tt request latest trip b a"
  have len: "length (rt_stop_times trip) = length (rr_stop_indices (tt_routes tt ! r))"
    by (rule route_ok_lengths(1) [OF route_of_entry [OF ok r] trip])
  have ab: "b < a" "a < length (rr_stop_indices (tt_routes tt ! r))" using opt len by (auto simp: direct_option_def)
  then have "tt_stop_indices tt (rst_stop_id (rt_stop_times trip ! b)) = Some (rr_stop_indices (tt_routes tt ! r) ! b)"
    "tt_stop_indices tt (rst_stop_id (rt_stop_times trip ! a)) = Some (rr_stop_indices (tt_routes tt ! r) ! a)"
    using stop_of_position [OF ok r trip] by auto
  with opt r ab have "(r, b) \<in> set origins" "(r, a) \<in> set destinations"
    using o d unfolding direct_option_def by auto
  with mem ab(1) show "(r, b, a) \<in> set (endpoint_pairs origins destinations)" by blast
qed

section \<open>Merging and selecting\<close>

lemma retain_first_subset: "set (retain_first f seen xs) \<subseteq> set xs"
  by (induction f seen xs rule: retain_first.induct) auto

lemma retain_first_sorted: "sorted_wrt P xs \<Longrightarrow> sorted_wrt P (retain_first f seen xs)"
  by (induction f seen xs rule: retain_first.induct) (auto dest: set_mp [OF retain_first_subset])

lemma retain_first_keeps:
  "sorted (map k xs) \<Longrightarrow> x \<in> set xs \<Longrightarrow> f x \<notin> seen \<Longrightarrow>
     \<exists>y \<in> set (retain_first f seen xs). f y = f x \<and> (k y :: 'k :: linorder) \<le> k x"
proof (induction f seen xs rule: retain_first.induct)
  case (2 f seen z zs)
  show ?case
  proof (cases "f z \<in> seen")
    case True
    with 2 show ?thesis by auto
  next
    case False
    show ?thesis
    proof (cases "f x = f z")
      case True
      with False 2 show ?thesis by (intro bexI [of _ z]) auto
    next
      case other: False
      with 2 False have "\<exists>y \<in> set (retain_first f (insert (f z) seen) zs). f y = f x \<and> k y \<le> k x" by auto
      with False show ?thesis by auto
    qed
  qed
qed simp

lemma reserve_lines_length: "length selected < m \<Longrightarrow> length (reserve_lines m R selected i cs) \<le> m"
  by (induction m R selected i cs rule: reserve_lines.induct) (auto simp: Let_def)

lemma reserve_lines_mono: "set selected \<subseteq> set (reserve_lines m R selected i cs)"
  by (induction m R selected i cs rule: reserve_lines.induct) (auto simp: Let_def)

lemma reserve_lines_keeps:
  "length selected < m \<Longrightarrow> card (dc_route_id ` set cs - R) + length selected \<le> m \<Longrightarrow> j < length cs \<Longrightarrow>
     dc_route_id (cs ! j) \<notin> R \<Longrightarrow>
     \<exists>k \<le> j. dc_route_id (cs ! k) = dc_route_id (cs ! j) \<and> i + k \<in> set (reserve_lines m R selected i cs)"
proof (induction cs arbitrary: R selected i j)
  case (Cons c cs)
  show ?case
  proof (cases "dc_route_id c \<in> R")
    case True
    have "dc_route_id ` set (c # cs) - R = dc_route_id ` set cs - R" using True by auto
    moreover from True Cons.prems obtain j' where j: "j = Suc j'" by (cases j) auto
    ultimately obtain k where "k \<le> j'" "dc_route_id (cs ! k) = dc_route_id (cs ! j')"
        "(i + 1) + k \<in> set (reserve_lines m R selected (i + 1) cs)"
      using Cons.IH [of selected R j' "i + 1"] Cons.prems by auto
    with True j show ?thesis by (intro exI [of _ "Suc k"]) simp
  next
    case False
    let ?sel = "selected @ [i]"
    let ?res = "reserve_lines m R selected i (c # cs)"
    have here: "i \<in> set ?res"
      using False reserve_lines_mono [of ?sel m "insert (dc_route_id c) R" "i + 1" cs] by (auto simp: Let_def)
    show ?thesis
    proof (cases "dc_route_id ((c # cs) ! j) = dc_route_id c")
      case True
      with here show ?thesis by (intro exI [of _ 0]) simp
    next
      case other: False
      then obtain j' where j: "j = Suc j'" by (cases j) auto
      have split: "dc_route_id ` set (c # cs) - R = insert (dc_route_id c) (dc_route_id ` set cs - insert (dc_route_id c) R)"
        using False by auto
      have "dc_route_id (cs ! j') \<in> dc_route_id ` set cs - insert (dc_route_id c) R"
        using other Cons.prems(3,4) j by auto
      then have "0 < card (dc_route_id ` set cs - insert (dc_route_id c) R)" by (auto simp: card_gt_0_iff)
      moreover have card: "card (dc_route_id ` set (c # cs) - R) = Suc (card (dc_route_id ` set cs - insert (dc_route_id c) R))"
        unfolding split by (rule card_insert_disjoint) auto
      ultimately have room: "length ?sel < m" using Cons.prems(2) by simp
      then have res: "?res = reserve_lines m (insert (dc_route_id c) R) ?sel (i + 1) cs" using False by (simp add: Let_def)
      from Cons.IH [OF room, of "insert (dc_route_id c) R" j' "i + 1"] Cons.prems card other j
      obtain k where "k \<le> j'" "dc_route_id (cs ! k) = dc_route_id (cs ! j')"
          "(i + 1) + k \<in> set (reserve_lines m (insert (dc_route_id c) R) ?sel (i + 1) cs)" by auto
      with j show ?thesis unfolding res by (intro exI [of _ "Suc k"]) simp
    qed
  qed
qed simp

lemma fill_selection_length: "length selected \<le> m \<Longrightarrow> length (fill_selection m selected is) \<le> m"
  by (induction m selected "is" rule: fill_selection.induct) auto

lemma fill_selection_mono: "set selected \<subseteq> set (fill_selection m selected is)"
  by (induction m selected "is" rule: fill_selection.induct) auto

definition chosen :: "usize \<Rightarrow> direct_candidate list \<Rightarrow> usize set" where
  "chosen m cs = set (fill_selection m (reserve_lines m {} [] 0 cs) [0..<length cs])"

lemma select_candidates_chosen: "select_candidates m cs = map ((!) cs) (filter (\<lambda>i. i \<in> chosen m cs) [0..<length cs])"
proof -
  have "List.enumerate 0 cs = map (\<lambda>i. (i, cs ! i)) [0..<length cs]"
    by (rule nth_equalityI) (simp_all add: nth_enumerate_eq)
  then show ?thesis by (simp add: select_candidates_def chosen_def Let_def filter_map o_def split_def)
qed

lemma select_candidates_correct:
  assumes "0 < m"
  shows "length (select_candidates m cs) \<le> m" and "set (select_candidates m cs) \<subseteq> set cs"
    and "sorted (map k cs) \<Longrightarrow> sorted (map (k :: _ \<Rightarrow> 'k :: linorder) (select_candidates m cs))"
    and "sorted (map k cs) \<Longrightarrow> card (dc_route_id ` set cs) \<le> m \<Longrightarrow> c \<in> set cs \<Longrightarrow>
      \<exists>d \<in> set (select_candidates m cs). dc_route_id d = dc_route_id c \<and> k d \<le> k c"
proof -
  have len: "length (fill_selection m (reserve_lines m {} [] 0 cs) [0..<length cs]) \<le> m"
    by (rule fill_selection_length, rule reserve_lines_length) (use assms in simp)
  have "length (select_candidates m cs) = card (chosen m cs \<inter> {0..<length cs})"
    by (simp add: select_candidates_chosen distinct_length_filter)
  also have "\<dots> \<le> card (chosen m cs)" by (intro card_mono) (auto simp: chosen_def)
  also have "\<dots> \<le> m" unfolding chosen_def using len card_length order_trans by blast
  finally show "length (select_candidates m cs) \<le> m" .
  show "set (select_candidates m cs) \<subseteq> set cs" by (auto simp: select_candidates_chosen)
  show "sorted (map k (select_candidates m cs))" if s: "sorted (map k cs)"
  proof -
    have "sorted (map (\<lambda>i. k (cs ! i)) [0..<length cs])"
      using s by (simp add: sorted_iff_nth_mono)
    then have "sorted (map (\<lambda>i. k (cs ! i)) (filter (\<lambda>i. i \<in> chosen m cs) [0..<length cs]))" by (rule sorted_filter)
    then show ?thesis by (simp add: select_candidates_chosen o_def)
  qed
  assume s: "sorted (map k cs)" and card: "card (dc_route_id ` set cs) \<le> m" and "c \<in> set cs"
  then obtain j where j: "j < length cs" "cs ! j = c" by (auto simp: in_set_conv_nth)
  from reserve_lines_keeps [of "[]" m cs "{}" j 0] assms card j obtain i where
    i: "i \<le> j" "dc_route_id (cs ! i) = dc_route_id c" "i \<in> set (reserve_lines m {} [] 0 cs)" by auto
  then have "i \<in> chosen m cs" using fill_selection_mono unfolding chosen_def by blast
  with i(1) j(1) have "cs ! i \<in> set (select_candidates m cs)" by (auto simp: select_candidates_chosen)
  moreover have "k (cs ! i) \<le> k c" using sorted_nth_mono [OF s i(1)] i(1) j by simp
  ultimately show "\<exists>d \<in> set (select_candidates m cs). dc_route_id d = dc_route_id c \<and> k d \<le> k c" using i(2) by blast
qed

end
