(* ===== verification/Direct_Correct.thy ===== *)
theory Direct_Correct
  imports Direct_Journeys Raptor_Correct
begin

text \<open>
  The properties of the departure window and of the direct journeys.
\<close>

section \<open>Assembling the candidates\<close>

lemma direct_option_route:
  assumes "direct_option tt request latest trip b a"
  obtains r where "r < length (tt_routes tt)" "trip \<in> set (rr_trips (tt_routes tt ! r))"
proof -
  from assms obtain route where "route \<in> set (tt_routes tt)" "trip \<in> set (rr_trips route)"
    unfolding direct_option_def by blast
  with that show thesis by (metis in_set_conv_nth)
qed

lemma direct_journeys_exist:
  fixes tt :: raptor_timetable and request :: raptor_request and window :: u32
  assumes ok: "timetable_ok tt" and rt: "realtime_ok (rq_realtime request)" and ix: "trips_indexed tt" and n: "0 < n"
  defines "latest \<equiv> saturating_add (rq_departure_time request) window"
  defines "options \<equiv> {(trip, b, a). direct_option tt request latest trip b a}"
  shows "\<exists>cs. direct_journeys tt request window n = Some (map dc_journey (select_candidates n cs)) \<and>
     sorted (map direct_sort_key cs) \<and>
     (\<forall>c \<in> set cs. \<exists>(trip, b, a) \<in> options. c = option_candidate request trip b a) \<and>
     (\<forall>(trip, b, a) \<in> options. \<exists>c \<in> set cs. dc_route_id c = rt_route_id trip \<and>
        direct_sort_key c \<le> direct_sort_key (option_candidate request trip b a))"
proof -
  from delay_bounds_by_route_sound [OF ok rt ix] obtain bs where
    bs: "delay_bounds_by_route (rq_realtime request) tt = Some bs" "bounds_sound (rq_realtime request) tt bs" by blast
  obtain ds where ds: "positions_of_stops tt (rq_to_stop_ids request) = Some ds" using positions_of_stops_correct [OF ok] by blast
  obtain os where os: "positions_of_stops tt (rq_from_stop_ids request) = Some os" using positions_of_stops_correct [OF ok] by blast
  let ?pairs = "endpoint_pairs os ds" and ?find = "pair_candidates tt request latest n bs"
  let ?all = "\<lambda>pair. {option_candidate request trip (fst (snd pair)) (snd (snd pair)) | trip. pair_option tt request latest pair trip}"
  have pair: "\<exists>cs all. ?find pair = Some cs \<and> best_of n cs all \<and> set all = ?all pair" if "pair \<in> set ?pairs" for pair
    by (rule pair_candidates_correct [OF ok rt bs(2) endpoint_pairs_correct(1) [OF ok os ds that]])
  have found: "mapM ?find ?pairs = Some (map (\<lambda>p. the (?find p)) ?pairs)"
    by (rule mapM_total) (use pair in force)
  let ?merged = "sort_key direct_sort_key (concat (map (\<lambda>p. the (?find p)) ?pairs))"
  let ?cs = "retain_first direct_identity {} ?merged"
  have result: "direct_journeys tt request window n = Some (map dc_journey (select_candidates n ?cs))"
    using n bs(1) ds os found by (simp add: direct_journeys_def latest_def [symmetric])
  have msort: "sorted (map direct_sort_key ?merged)" by simp
  have sorted: "sorted (map direct_sort_key ?cs)"
    using retain_first_sorted [of "\<lambda>x y. direct_sort_key x \<le> direct_sort_key y" ?merged direct_identity "{}"] msort
    by (simp add: sorted_map)
  have opt: "\<exists>(trip, b, a) \<in> options. c = option_candidate request trip b a" if "c \<in> set ?merged" for c
  proof -
    from that obtain p where p: "p \<in> set ?pairs" "c \<in> set (the (?find p))" by auto
    with pair obtain cs all where "?find p = Some cs" "best_of n cs all" "set all = ?all p" by blast
    with p(2) have "c \<in> ?all p" by (auto simp: best_of_def)
    then show ?thesis by (auto simp: options_def pair_option_def)
  qed
  have keeps: "\<exists>c \<in> set ?cs. dc_route_id c = rt_route_id trip \<and>
        direct_sort_key c \<le> direct_sort_key (option_candidate request trip b a)" if o: "direct_option tt request latest trip b a" for trip b a
  proof -
    from o obtain r where r: "r < length (tt_routes tt)" "trip \<in> set (rr_trips (tt_routes tt ! r))"
      by (rule direct_option_route)
    have p: "(r, b, a) \<in> set ?pairs" by (rule endpoint_pairs_correct(2) [OF ok os ds r o])
    from pair [OF p] obtain cs all where cs: "?find (r, b, a) = Some cs" "best_of n cs all" "set all = ?all (r, b, a)" by blast
    have "option_candidate request trip b a \<in> set all" using cs(3) r o by (auto simp: pair_option_def)
    with cs(2) n have "\<exists>c \<in> set cs. direct_sort_key c \<le> direct_sort_key (option_candidate request trip b a)"
      unfolding best_of_def by (metis length_greater_0_conv list.set_intros(1) neq_Nil_conv order_refl)
    then obtain c where c: "c \<in> set cs" "direct_sort_key c \<le> direct_sort_key (option_candidate request trip b a)" by blast
    have "c \<in> ?all (r, b, a)" using c(1) cs(2,3) by (auto simp: best_of_def)
    then obtain trip' where t': "c = option_candidate request trip' b a" "trip' \<in> set (rr_trips (tt_routes tt ! r))"
      by (auto simp: pair_option_def)
    have "c \<in> set ?merged" using c(1) cs(1) p by force
    from retain_first_keeps [OF msort this, of direct_identity "{}"] obtain d where
      d: "d \<in> set ?cs" "direct_identity d = direct_identity c" "direct_sort_key d \<le> direct_sort_key c" by auto
    have "d \<in> set ?merged" by (rule set_mp [OF retain_first_subset d(1)])
    from opt [OF this] obtain trip2 b2 a2 where t2: "direct_option tt request latest trip2 b2 a2"
        "d = option_candidate request trip2 b2 a2" by (auto simp: options_def)
    from t2(1) obtain r2 where r2: "r2 < length (tt_routes tt)" "trip2 \<in> set (rr_trips (tt_routes tt ! r2))"
      by (rule direct_option_route)
    have "rt_trip_id trip2 = rt_trip_id trip'" using d(2) t2(2) t'(1) by (simp add: direct_identity_def option_candidate_def Let_def)
    then have "r2 = r" using ix r r2 t'(2) unfolding trips_indexed_def by (metis option.inject)
    moreover have "rt_route_id x = rt_route_id (hd (rr_trips (tt_routes tt ! r)))" if "x \<in> set (rr_trips (tt_routes tt ! r))" for x
      by (rule route_ok_lengths(2) [OF route_of_entry [OF ok r(1)] that])
    ultimately have "rt_route_id trip2 = rt_route_id trip" using r(2) r2(2) by simp
    then have "dc_route_id d = rt_route_id trip" using t2(2) by (simp add: option_candidate_def Let_def)
    with d(1,3) c(2) show ?thesis by (meson order_trans)
  qed
  have "\<forall>c \<in> set ?cs. \<exists>(trip, b, a) \<in> options. c = option_candidate request trip b a"
    using opt set_mp [OF retain_first_subset] by metis
  moreover have "\<forall>(trip, b, a) \<in> options. \<exists>c \<in> set ?cs. dc_route_id c = rt_route_id trip \<and>
        direct_sort_key c \<le> direct_sort_key (option_candidate request trip b a)"
    using keeps by (simp add: options_def)
  ultimately show ?thesis using result sorted by (intro exI [of _ ?cs] conjI)
qed

lemma option_candidate_times:
  "j_departure_time (dc_journey (option_candidate request trip b a)) = effective_departure (rq_realtime request) trip (rt_stop_times trip ! b)"
  "j_arrival_time (dc_journey (option_candidate request trip b a)) = effective_arrival (rq_realtime request) trip (rt_stop_times trip ! a)"
  "map leg_route_id (j_legs (dc_journey (option_candidate request trip b a))) = [Some (rt_route_id trip)]"
  "dc_route_id (option_candidate request trip b a) = rt_route_id trip"
  by (simp_all add: option_candidate_def direct_journey_of_def Let_def)

section \<open>Properties\<close>

text \<open>C38: \<open>direct_journeys\<close> never panics and never returns more than the cap; each journey it returns is one
  ride between requested stops that boarding rules, modes, verification and the realtime departure
  window allow; they come in order of departure and arrival. As long as the lines do not outnumber the
  cap, every line with an eligible ride is represented, by a ride that leaves no later than any other
  eligible ride of that line.\<close>

theorem direct_journeys_correct:
  fixes tt :: raptor_timetable and request :: raptor_request and window :: u32
  assumes "permuting hash_order" and "group_total trips" and "unique_trip_ids trips" and "length trips < usize_MAX"
    and "raptor_timetable_new hash_order trips transfers = Some tt" and "rq_realtime request = from_updates updates"
    and "0 < max_candidates"
  defines "eligible \<equiv> direct_option tt request (saturating_add (rq_departure_time request) window)"
  shows "\<exists>js. direct_journeys tt request window max_candidates = Some js \<and> length js \<le> max_candidates \<and>
     sorted (map (\<lambda>j. (j_departure_time j, j_arrival_time j)) js) \<and>
     (\<forall>j \<in> set js. \<exists>trip b a. eligible trip b a \<and> j = dc_journey (option_candidate request trip b a)) \<and>
     (card {rt_route_id trip | trip b a. eligible trip b a} \<le> max_candidates \<longrightarrow>
        (\<forall>trip b a. eligible trip b a \<longrightarrow> (\<exists>j \<in> set js. map leg_route_id (j_legs j) = [Some (rt_route_id trip)] \<and>
           j_departure_time j \<le> effective_departure (rq_realtime request) trip (rt_stop_times trip ! b))))"
proof -
  note tt = constructed_timetable [OF assms(1-5)]
  have rt: "realtime_ok (rq_realtime request)" by (simp add: assms(6) realtime_ok_from_updates)
  from direct_journeys_exist [OF tt(1) rt tt(2) assms(7), of window] obtain cs where
    cs: "direct_journeys tt request window max_candidates = Some (map dc_journey (select_candidates max_candidates cs))"
      "sorted (map direct_sort_key cs)"
      "\<forall>c \<in> set cs. \<exists>trip b a. eligible trip b a \<and> c = option_candidate request trip b a"
      "\<And>trip b a. eligible trip b a \<Longrightarrow> \<exists>c \<in> set cs. dc_route_id c = rt_route_id trip \<and>
        direct_sort_key c \<le> direct_sort_key (option_candidate request trip b a)"
    unfolding eligible_def by auto
  note sel = select_candidates_correct(1,2) [OF assms(7), where cs = cs]
    select_candidates_correct(3) [OF assms(7) cs(2)] select_candidates_correct(4) [OF assms(7) cs(2)]
  let ?sel = "select_candidates max_candidates cs"
  have "sorted_wrt (\<lambda>x y. direct_sort_key x \<le> direct_sort_key y) ?sel" using sel(3) by (simp add: sorted_map)
  then have "sorted_wrt (\<lambda>x y. (j_departure_time (dc_journey x), j_arrival_time (dc_journey x))
      \<le> (j_departure_time (dc_journey y), j_arrival_time (dc_journey y))) ?sel"
    by (rule sorted_wrt_mono_rel [rotated]) (auto simp: direct_sort_key_def less_eq_prod_def)
  then have order: "sorted (map (\<lambda>j. (j_departure_time j, j_arrival_time j)) (map dc_journey ?sel))"
    by (simp add: sorted_map sorted_wrt_map)
  have lines: "\<exists>j \<in> set (map dc_journey ?sel). map leg_route_id (j_legs j) = [Some (rt_route_id trip)] \<and>
      j_departure_time j \<le> effective_departure (rq_realtime request) trip (rt_stop_times trip ! b)"
    if card: "card {rt_route_id trip | trip b a. eligible trip b a} \<le> max_candidates" and e: "eligible trip b a" for trip b a
  proof -
    have "dc_route_id ` set cs = {rt_route_id trip | trip b a. eligible trip b a}"
      using cs(3,4) option_candidate_times(4) by (auto simp: image_iff) metis+
    then have few: "card (dc_route_id ` set cs) \<le> max_candidates" using card by simp
    from cs(4) [OF e] obtain c where c: "c \<in> set cs" "dc_route_id c = rt_route_id trip"
      "direct_sort_key c \<le> direct_sort_key (option_candidate request trip b a)" by blast
    from sel(4) [OF few c(1)] obtain d where d: "d \<in> set ?sel" "dc_route_id d = rt_route_id trip"
      "direct_sort_key d \<le> direct_sort_key c" using c(2) by auto
    have "d \<in> set cs" using d(1) sel(2) by blast
    with cs(3) obtain t2 b2 a2 where t2: "d = option_candidate request t2 b2 a2" by blast
    have "direct_sort_key d \<le> direct_sort_key (option_candidate request trip b a)" using d(3) c(3) by (rule order_trans)
    then have "j_departure_time (dc_journey d) \<le> effective_departure (rq_realtime request) trip (rt_stop_times trip ! b)"
      by (auto simp: direct_sort_key_def option_candidate_times less_eq_prod_def)
    moreover have "map leg_route_id (j_legs (dc_journey d)) = [Some (rt_route_id trip)]"
      using d(2) by (simp add: t2 option_candidate_times)
    ultimately show ?thesis using d(1) by (intro bexI [of _ "dc_journey d"]) auto
  qed
  have each: "\<exists>trip b a. eligible trip b a \<and> j = dc_journey (option_candidate request trip b a)"
    if "j \<in> set (map dc_journey ?sel)" for j
  proof -
    from that obtain c where c: "c \<in> set ?sel" "j = dc_journey c" by auto
    have "c \<in> set cs" by (rule set_mp [OF sel(2) c(1)])
    from bspec [OF cs(3) this] c(2) show ?thesis by auto
  qed
  have count: "length (map dc_journey ?sel) \<le> max_candidates" using sel(1) by simp
  show ?thesis
    by (intro exI [of _ "map dc_journey ?sel"] conjI ballI impI allI) (use cs(1) count order each lines in blast)+
qed

theorem direct_journeys_correct_witness:
  "\<exists>js. direct_journeys (the sample_timetable) ((sample_request [])\<lparr>rq_from_stop_ids := [''B'']\<rparr>) 600 2 = Some js \<and> length js \<le> 2"
proof -
  have new: "raptor_timetable_new id sample_trips [sample_transfer ''X'' ''A'' 40, sample_transfer ''B'' ''B'' 30] = Some (the sample_timetable)"
    using sample_timetable_exists by (simp add: sample_timetable_def)
  have rt: "rq_realtime ((sample_request [])\<lparr>rq_from_stop_ids := [''B'']\<rparr>) = from_updates []" by (simp add: sample_request_def)
  from direct_journeys_correct [OF permuting_id sample_trips_ok new rt, of 2 600] show ?thesis by auto
qed

text \<open>The departures that are probed are strictly increasing, at least one and at most the cap, and each
  is either the requested time or the moment to leave for a real boarding: a trip that may be boarded
  at the origin, or a footpath away from it, departs the access time later and inside the window.\<close>

theorem departure_times_from_stops_correct:
  assumes "permuting hash_order" and "group_total trips" and "unique_trip_ids trips" and "length trips < usize_MAX"
    and "raptor_timetable_new hash_order trips transfers = Some tt"
  shows "\<exists>ds. departure_times_from_stops tt stop_ids access departure_time window maximum modes allow = Some ds \<and>
     sorted_wrt (<) ds \<and> ds \<noteq> [] \<and> length ds \<le> max maximum 1 \<and>
     (\<forall>t \<in> set ds. t = departure_time \<or> probes_boarding tt stop_ids access departure_time window modes allow t)"
  by (rule departure_times_correct [OF constructed_timetable(1) [OF assms]])

theorem departure_times_from_stops_correct_witness:
  "\<exists>ds. departure_times_from_stops (the sample_timetable) [''A''] [sample_transfer ''A'' ''B'' 30] 50 400 3 [] True = Some ds \<and>
     sorted_wrt (<) ds \<and> length ds \<le> 3"
proof -
  have new: "raptor_timetable_new id sample_trips [sample_transfer ''X'' ''A'' 40, sample_transfer ''B'' ''B'' 30] = Some (the sample_timetable)"
    using sample_timetable_exists by (simp add: sample_timetable_def)
  from departure_times_from_stops_correct [OF permuting_id sample_trips_ok new, of "[''A'']" "[sample_transfer ''A'' ''B'' 30]" 50 400 3 "[]" True]
  show ?thesis by auto
qed

text \<open>On the sample: the departure at 100 from A, and those from B, reached on foot in 30 seconds, at 210, 300 and 400.\<close>

lemma sample_probes:
  "Option.bind sample_timetable (\<lambda>tt. departure_times_from_stops tt [''A''] [sample_transfer ''A'' ''B'' 30] 50 400 9 [] True)
     = Some [50, 100, 180, 270, 370]"
  by code_simp

lemma sample_direct:
  "map_option (map (\<lambda>j. (map leg_trip_id (j_legs j), j_departure_time j, j_arrival_time j)))
     (Option.bind sample_timetable (\<lambda>tt. direct_journeys tt ((sample_request [])\<lparr>rq_from_stop_ids := [''B'']\<rparr>) 600 2))
     = Some [([Some ''t1''], 210, 900), ([Some ''t3''], 300, 550)]"
  by code_simp

end
