(* ===== verification/Connection_Scan.thy ===== *)
theory Connection_Scan
  imports Raptor_Journeys
begin

text \<open>
  The connection scan \<open>earliest_arrivals\<close>: one label per stop, the connections in order of
  departure, and walking relaxed to a fixpoint after every improvement. The \<open>HashMap\<close> of labels is
  only read by key. Sums on \<open>u32\<close> wrap.
\<close>

section \<open>Types\<close>

record connection =
  co_trip_id :: string
  co_route_id :: string
  co_from_stop_id :: string
  co_to_stop_id :: string
  co_departure_time :: u32
  co_arrival_time :: u32
  co_mode :: transport_mode
  co_delay_seconds :: "i32 option"

record routing_snapshot =
  sn_connections :: "connection list"
  sn_transfers :: "transfer list"

record search_request =
  sq_from_stop_id :: string
  sq_to_stop_id :: string
  sq_departure_time :: u32
  sq_max_transfers :: u32
  sq_modes :: "transport_mode list"

record csa_label =
  lb_arrival_time :: u32
  lb_transfers :: u32
  lb_legs :: "journey_leg list"

type_synonym labels = "string \<rightharpoonup> csa_label"

definition better :: "labels \<Rightarrow> string \<Rightarrow> u32 \<Rightarrow> bool" where
  "better labels stop arrival_time = (case labels stop of None \<Rightarrow> True | Some known \<Rightarrow> arrival_time < lb_arrival_time known)"

section \<open>Walking\<close>

definition csa_walk_leg :: "transfer \<Rightarrow> u32 \<Rightarrow> u32 \<Rightarrow> journey_leg" where
  "csa_walk_leg transfer departure arrival = \<lparr>leg_from_stop_id = tr_from_stop_id transfer,
     leg_to_stop_id = tr_to_stop_id transfer, leg_route_id = None, leg_trip_id = None,
     leg_departure_time = departure, leg_arrival_time = arrival, leg_mode = UnknownMode,
     leg_warnings = [''walking_transfer''], leg_geometry = tr_walking_geometry transfer\<rparr>"

definition relax_transfer :: "u32 \<Rightarrow> labels \<times> bool \<Rightarrow> transfer \<Rightarrow> labels \<times> bool" where
  "relax_transfer max_transfers state transfer =
     (case fst state (tr_from_stop_id transfer) of
        None \<Rightarrow> state
      | Some current \<Rightarrow>
          (let arrival_time = lb_arrival_time current + tr_min_transfer_seconds transfer;
               transfers_count = lb_transfers current + 1
           in if max_transfers < transfers_count then state
              else if better (fst state) (tr_to_stop_id transfer) arrival_time then
                ((fst state)(tr_to_stop_id transfer \<mapsto> \<lparr>lb_arrival_time = arrival_time, lb_transfers = transfers_count,
                    lb_legs = lb_legs current @ [csa_walk_leg transfer (lb_arrival_time current) arrival_time]\<rparr>), True)
              else state))"

definition relax_pass :: "u32 \<Rightarrow> transfer list \<Rightarrow> labels \<Rightarrow> labels \<times> bool" where
  "relax_pass max_transfers transfers labels = foldl (relax_transfer max_transfers) (labels, False) transfers"

text \<open>Every change lowers the label of a stop that some transfer leads to, or creates it.\<close>

definition label_value :: "labels \<Rightarrow> string \<Rightarrow> nat" where
  "label_value labels stop = (case labels stop of None \<Rightarrow> 2 ^ 32 | Some l \<Rightarrow> unat (lb_arrival_time l))"

definition labels_measure :: "transfer list \<Rightarrow> labels \<Rightarrow> nat" where
  "labels_measure transfers labels = (\<Sum>stop \<in> set (map tr_to_stop_id transfers). label_value labels stop)"

lemma better_value: "better labels stop t \<longleftrightarrow> unat t < label_value labels stop"
  using unat_u32_bound [of t] by (auto simp: better_def label_value_def word_less_nat_alt split: option.splits)

lemma relax_transfer_measure:
  assumes "relax_transfer m state t = state'" and "t \<in> set transfers"
  shows "state' = state \<or> (snd state' \<and> labels_measure transfers (fst state') < labels_measure transfers (fst state))"
proof (cases "state' = state")
  case False
  then obtain current where cur: "fst state (tr_from_stop_id t) = Some current"
    using assms(1) by (cases "fst state (tr_from_stop_id t)") (auto simp: relax_transfer_def)
  let ?arr = "lb_arrival_time current + tr_min_transfer_seconds t"
  have imp: "better (fst state) (tr_to_stop_id t) ?arr" and lim: "\<not> m < lb_transfers current + 1"
    using False assms(1) cur by (auto simp: relax_transfer_def Let_def split: if_splits)
  have new: "fst state' = (fst state)(tr_to_stop_id t \<mapsto> \<lparr>lb_arrival_time = ?arr,
         lb_transfers = lb_transfers current + 1, lb_legs = lb_legs current @ [csa_walk_leg t (lb_arrival_time current) ?arr]\<rparr>)"
    "snd state'"
    using assms(1) cur imp lim by (auto simp: relax_transfer_def Let_def)
  have "labels_measure transfers (fst state') < labels_measure transfers (fst state)"
    unfolding labels_measure_def
  proof (rule sum_strict_mono_ex1)
    show "\<exists>s \<in> set (map tr_to_stop_id transfers). label_value (fst state') s < label_value (fst state) s"
      using assms(2) imp new(1) by (intro bexI [of _ "tr_to_stop_id t"]) (auto simp: better_value label_value_def)
    show "\<forall>s \<in> set (map tr_to_stop_id transfers). label_value (fst state') s \<le> label_value (fst state) s"
      using imp new(1) by (auto simp: better_value label_value_def)
  qed simp
  with new(2) show ?thesis by simp
qed simp

lemma foldl_relax_measure:
  "set ts \<subseteq> set transfers \<Longrightarrow> foldl (relax_transfer m) state ts = state' \<Longrightarrow>
     state' = state \<or> labels_measure transfers (fst state') < labels_measure transfers (fst state)"
proof (induction ts arbitrary: state)
  case (Cons t ts)
  from relax_transfer_measure [OF refl, of t transfers m state] Cons.prems(1)
  have "relax_transfer m state t = state \<or> labels_measure transfers (fst (relax_transfer m state t)) < labels_measure transfers (fst state)"
    by auto
  with Cons.IH [of "relax_transfer m state t"] Cons.prems show ?case by auto
qed simp

function relax_walking_transfers :: "u32 \<Rightarrow> transfer list \<Rightarrow> labels \<Rightarrow> labels" where
  "relax_walking_transfers max_transfers transfers labels =
     (let (labels', changed) = relax_pass max_transfers transfers labels
      in if \<not> changed then labels' else relax_walking_transfers max_transfers transfers labels')"
  by pat_completeness auto
termination
proof (relation "measure (\<lambda>(m, transfers, labels). labels_measure transfers labels)", goal_cases)
  case (2 m transfers labels pair labels' changed)
  then have "(labels', changed) \<noteq> (labels, False)" "foldl (relax_transfer m) (labels, False) transfers = (labels', changed)"
    by (auto simp: relax_pass_def)
  with foldl_relax_measure [of transfers transfers m "(labels, False)" "(labels', changed)"] show ?case by auto
qed simp

declare relax_walking_transfers.simps [simp del]

section \<open>Scanning the connections\<close>

definition csa_ride_leg :: "connection \<Rightarrow> journey_leg" where
  "csa_ride_leg connection = \<lparr>leg_from_stop_id = co_from_stop_id connection, leg_to_stop_id = co_to_stop_id connection,
     leg_route_id = Some (co_route_id connection), leg_trip_id = Some (co_trip_id connection),
     leg_departure_time = co_departure_time connection, leg_arrival_time = co_arrival_time connection,
     leg_mode = co_mode connection,
     leg_warnings = (case co_delay_seconds connection of
         Some delay \<Rightarrow> if 0 < delay then [''delay_may_affect_connection:'' @ show_nat (nat delay)] else []
       | None \<Rightarrow> []),
     leg_geometry = None\<rparr>"

definition scan_connection :: "routing_snapshot \<Rightarrow> search_request \<Rightarrow> labels \<Rightarrow> connection \<Rightarrow> labels" where
  "scan_connection snapshot request labels connection =
     (if sq_modes request \<noteq> [] \<and> co_mode connection \<notin> set (sq_modes request) then labels
      else (case labels (co_from_stop_id connection) of
         None \<Rightarrow> labels
       | Some current \<Rightarrow>
           if co_departure_time connection < lb_arrival_time current then labels
           else (let transfers = (if lb_legs current = [] then 0 else lb_transfers current + 1)
                 in if sq_max_transfers request < transfers then labels
                    else if better labels (co_to_stop_id connection) (co_arrival_time connection) then
                      relax_walking_transfers (sq_max_transfers request) (sn_transfers snapshot)
                        (labels(co_to_stop_id connection \<mapsto> \<lparr>lb_arrival_time = co_arrival_time connection,
                           lb_transfers = transfers, lb_legs = lb_legs current @ [csa_ride_leg connection]\<rparr>))
                    else labels)))"

definition csa_labels :: "routing_snapshot \<Rightarrow> search_request \<Rightarrow> labels" where
  "csa_labels snapshot request =
     (let start = [sq_from_stop_id request \<mapsto> \<lparr>lb_arrival_time = sq_departure_time request, lb_transfers = 0, lb_legs = []\<rparr>]
      in foldl (scan_connection snapshot request)
           (relax_walking_transfers (sq_max_transfers request) (sn_transfers snapshot) start)
           (sort_key co_departure_time (sn_connections snapshot)))"

definition earliest_arrivals :: "routing_snapshot \<Rightarrow> search_request \<Rightarrow> journey list" where
  "earliest_arrivals snapshot request =
     (case csa_labels snapshot request (sq_to_stop_id request) of
        None \<Rightarrow> []
      | Some best \<Rightarrow>
          (let warnings = length (concat (map leg_warnings (lb_legs best)));
               departure_time = (case lb_legs best of [] \<Rightarrow> sq_departure_time request | leg # _ \<Rightarrow> leg_departure_time leg)
           in [\<lparr>j_id = ''journey-1'', j_legs = lb_legs best, j_departure_time = departure_time,
                j_arrival_time = lb_arrival_time best,
                j_duration_seconds = saturating_sub (lb_arrival_time best) departure_time,
                j_transfer_count = lb_transfers best, j_walking_distance_meters = 0,
                j_realtime_status = UnavailableRt, j_risk_score = Finite (min (real warnings) 10),
                j_labels = [''nejrychlejsi'']\<rparr>]))"

section \<open>Soundness\<close>

text \<open>
  Consecutive legs meet in space and in time: each starts where and not before the previous one
  ends, beginning at the origin at the requested time and ending with the label.
\<close>

fun legs_meet :: "string \<Rightarrow> u32 \<Rightarrow> journey_leg list \<Rightarrow> string \<Rightarrow> u32 \<Rightarrow> bool" where
  "legs_meet stop t [] stop' t' \<longleftrightarrow> stop = stop' \<and> t = t'"
| "legs_meet stop t (leg # legs) stop' t' \<longleftrightarrow> leg_from_stop_id leg = stop \<and> t \<le> leg_departure_time leg \<and>
     legs_meet (leg_to_stop_id leg) (leg_arrival_time leg) legs stop' t'"

lemma legs_meet_snoc:
  "legs_meet s t (legs @ [leg]) s' t' \<longleftrightarrow>
     (\<exists>u. legs_meet s t legs (leg_from_stop_id leg) u \<and> u \<le> leg_departure_time leg) \<and>
     leg_to_stop_id leg = s' \<and> leg_arrival_time leg = t'"
  by (induction legs arbitrary: s t) auto

definition label_ok :: "routing_snapshot \<Rightarrow> search_request \<Rightarrow> string \<Rightarrow> csa_label \<Rightarrow> bool" where
  "label_ok snapshot request stop l \<longleftrightarrow>
     legs_meet (sq_from_stop_id request) (sq_departure_time request) (lb_legs l) stop (lb_arrival_time l) \<and>
     lb_transfers l \<le> sq_max_transfers request \<and>
     (\<forall>leg \<in> set (lb_legs l).
        (\<exists>c \<in> set (sn_connections snapshot). leg = csa_ride_leg c \<and>
           (sq_modes request = [] \<or> co_mode c \<in> set (sq_modes request))) \<or>
        (\<exists>x \<in> set (sn_transfers snapshot). \<exists>d. leg = csa_walk_leg x d (d + tr_min_transfer_seconds x)))"

definition labels_ok :: "routing_snapshot \<Rightarrow> search_request \<Rightarrow> labels \<Rightarrow> bool" where
  "labels_ok snapshot request labels \<longleftrightarrow> (\<forall>stop l. labels stop = Some l \<longrightarrow> label_ok snapshot request stop l)"

lemma relax_transfer_ok:
  assumes "labels_ok snapshot request (fst state)" and t: "t \<in> set (sn_transfers snapshot)"
  shows "labels_ok snapshot request (fst (relax_transfer (sq_max_transfers request) state t))"
proof (cases "fst state (tr_from_stop_id t)")
  case None
  with assms(1) show ?thesis by (simp add: relax_transfer_def)
next
  case (Some current)
  then have ok: "label_ok snapshot request (tr_from_stop_id t) current" using assms(1) by (simp add: labels_ok_def)
  let ?arr = "lb_arrival_time current + tr_min_transfer_seconds t"
  let ?leg = "csa_walk_leg t (lb_arrival_time current) ?arr"
  have "label_ok snapshot request (tr_to_stop_id t) \<lparr>lb_arrival_time = ?arr, lb_transfers = lb_transfers current + 1,
      lb_legs = lb_legs current @ [?leg]\<rparr>" if "\<not> sq_max_transfers request < lb_transfers current + 1"
    using ok that t by (auto simp: label_ok_def legs_meet_snoc csa_walk_leg_def not_less)
  with assms(1) Some show ?thesis by (auto simp: relax_transfer_def Let_def labels_ok_def)
qed

lemma relax_pass_ok:
  assumes "labels_ok snapshot request labels"
  shows "labels_ok snapshot request (fst (relax_pass (sq_max_transfers request) (sn_transfers snapshot) labels))"
proof -
  have "labels_ok snapshot request (fst state) \<Longrightarrow> set ts \<subseteq> set (sn_transfers snapshot) \<Longrightarrow>
      labels_ok snapshot request (fst (foldl (relax_transfer (sq_max_transfers request)) state ts))" for ts state
    by (induction ts arbitrary: state) (simp_all add: relax_transfer_ok)
  with assms show ?thesis by (simp add: relax_pass_def)
qed

lemma relax_walking_ok:
  assumes "labels_ok snapshot request labels"
  shows "labels_ok snapshot request (relax_walking_transfers (sq_max_transfers request) (sn_transfers snapshot) labels)"
  using assms
proof (induction "sq_max_transfers request" "sn_transfers snapshot" labels rule: relax_walking_transfers.induct)
  case (1 labels)
  obtain labels' changed where p: "relax_pass (sq_max_transfers request) (sn_transfers snapshot) labels = (labels', changed)"
    by (rule prod.exhaust)
  have "labels_ok snapshot request labels'" using relax_pass_ok [OF "1.prems"] p by simp
  with "1.hyps" [OF p [symmetric] refl] p show ?case
    by (subst relax_walking_transfers.simps) (auto simp: Let_def)
qed

lemma scan_connection_ok:
  assumes ok: "labels_ok snapshot request labels" and c: "c \<in> set (sn_connections snapshot)"
  shows "labels_ok snapshot request (scan_connection snapshot request labels c)"
proof (cases "labels (co_from_stop_id c)")
  case None
  with ok show ?thesis by (simp add: scan_connection_def)
next
  case (Some current)
  let ?t = "if lb_legs current = [] then 0 else lb_transfers current + 1"
  let ?new = "labels(co_to_stop_id c \<mapsto> \<lparr>lb_arrival_time = co_arrival_time c, lb_transfers = ?t,
      lb_legs = lb_legs current @ [csa_ride_leg c]\<rparr>)"
  have l: "label_ok snapshot request (co_from_stop_id c) current" using ok Some by (simp add: labels_ok_def)
  have "labels_ok snapshot request ?new"
    if "\<not> co_departure_time c < lb_arrival_time current" "\<not> sq_max_transfers request < ?t"
       "\<not> (sq_modes request \<noteq> [] \<and> co_mode c \<notin> set (sq_modes request))"
  proof -
    have "label_ok snapshot request (co_to_stop_id c) \<lparr>lb_arrival_time = co_arrival_time c, lb_transfers = ?t,
      lb_legs = lb_legs current @ [csa_ride_leg c]\<rparr>"
      using l that c unfolding label_ok_def
      by (auto simp: legs_meet_snoc csa_ride_leg_def [of c] not_less csa_ride_leg_def)
    with ok show ?thesis by (cases "lb_legs current = []") (auto simp: labels_ok_def)
  qed
  moreover have "scan_connection snapshot request labels c = labels \<or>
      (\<not> co_departure_time c < lb_arrival_time current \<and> \<not> sq_max_transfers request < ?t \<and>
       \<not> (sq_modes request \<noteq> [] \<and> co_mode c \<notin> set (sq_modes request)) \<and>
       scan_connection snapshot request labels c
         = relax_walking_transfers (sq_max_transfers request) (sn_transfers snapshot) ?new)"
    by (simp add: scan_connection_def Some Let_def)
  ultimately show ?thesis using ok relax_walking_ok by metis
qed

lemma csa_labels_ok: "labels_ok snapshot request (csa_labels snapshot request)"
proof -
  have "labels_ok snapshot request labels \<Longrightarrow> set cs \<subseteq> set (sn_connections snapshot) \<Longrightarrow>
      labels_ok snapshot request (foldl (scan_connection snapshot request) labels cs)" for cs labels
    by (induction cs arbitrary: labels) (simp_all add: scan_connection_ok)
  moreover have "labels_ok snapshot request
      [sq_from_stop_id request \<mapsto> \<lparr>lb_arrival_time = sq_departure_time request, lb_transfers = 0, lb_legs = []\<rparr>]"
    by (simp add: labels_ok_def label_ok_def)
  ultimately show ?thesis by (simp add: csa_labels_def relax_walking_ok)
qed

text \<open>The fixpoint that the walking loop ends in.\<close>

lemma relax_changed_mono: "snd state \<Longrightarrow> snd (foldl (relax_transfer m) state ts)"
proof (induction ts arbitrary: state)
  case (Cons t ts)
  with relax_transfer_measure [OF refl, of t "[t]" m state] have "snd (relax_transfer m state t)" by auto
  with Cons.IH show ?case by simp
qed simp

lemma relax_unchanged: "\<not> snd (foldl (relax_transfer m) state ts) \<Longrightarrow> foldl (relax_transfer m) state ts = state"
proof (induction ts arbitrary: state)
  case (Cons t ts)
  then have "\<not> snd (relax_transfer m state t)" using relax_changed_mono by fastforce
  with relax_transfer_measure [OF refl, of t "[t]" m state] have "relax_transfer m state t = state" by auto
  with Cons show ?case by simp
qed simp

lemma relax_walking_fixpoint:
  "relax_pass m transfers (relax_walking_transfers m transfers labels) = (relax_walking_transfers m transfers labels, False)"
proof (induction m transfers labels rule: relax_walking_transfers.induct)
  case (1 m transfers labels)
  obtain labels' changed where p: "relax_pass m transfers labels = (labels', changed)" by (rule prod.exhaust)
  show ?case
  proof (cases changed)
    case True
    with 1 [OF p [symmetric] refl] p have "relax_walking_transfers m transfers labels = relax_walking_transfers m transfers labels'"
      by (subst relax_walking_transfers.simps) (simp add: Let_def)
    with 1 [OF p [symmetric] refl] True show ?thesis by simp
  next
    case False
    with p relax_unchanged [of m "(labels, False)" transfers] have "labels' = labels" by (simp add: relax_pass_def)
    moreover from False p have "relax_walking_transfers m transfers labels = labels'"
      by (subst relax_walking_transfers.simps) (simp add: Let_def)
    ultimately show ?thesis using False p by simp
  qed
qed

text \<open>The connection scan always returns; if it finds a journey, its legs lead from the requested origin to
  the requested target, each starts where and not before the previous one ends, all are connections of
  an allowed mode or known footpaths of their length, the journey counts at most the allowed transfers
  and arrives when the last leg does.\<close>

theorem earliest_arrivals_sound:
  "\<forall>j \<in> set (earliest_arrivals snapshot request).
     legs_meet (sq_from_stop_id request) (sq_departure_time request) (j_legs j) (sq_to_stop_id request) (j_arrival_time j) \<and>
     j_transfer_count j \<le> sq_max_transfers request \<and>
     (\<forall>leg \<in> set (j_legs j).
        (\<exists>c \<in> set (sn_connections snapshot). leg = csa_ride_leg c \<and>
           (sq_modes request = [] \<or> co_mode c \<in> set (sq_modes request))) \<or>
        (\<exists>x \<in> set (sn_transfers snapshot). \<exists>d. leg = csa_walk_leg x d (d + tr_min_transfer_seconds x)))"
proof (cases "csa_labels snapshot request (sq_to_stop_id request)")
  case None
  then show ?thesis by (simp add: earliest_arrivals_def)
next
  case (Some best)
  then have "label_ok snapshot request (sq_to_stop_id request) best" using csa_labels_ok by (simp add: labels_ok_def)
  with Some show ?thesis by (simp add: earliest_arrivals_def Let_def label_ok_def)
qed

definition sample_connection :: "string \<Rightarrow> string \<Rightarrow> u32 \<Rightarrow> u32 \<Rightarrow> connection" where
  "sample_connection origin target departure arrival = \<lparr>co_trip_id = ''t'', co_route_id = ''r'',
     co_from_stop_id = origin, co_to_stop_id = target, co_departure_time = departure, co_arrival_time = arrival,
     co_mode = Train, co_delay_seconds = None\<rparr>"

definition sample_snapshot :: routing_snapshot where
  "sample_snapshot = \<lparr>sn_connections = [sample_connection ''A'' ''B'' 10 20, sample_connection ''B'' ''C'' 20 30], sn_transfers = []\<rparr>"

definition sample_search :: "u32 \<Rightarrow> search_request" where
  "sample_search transfers = \<lparr>sq_from_stop_id = ''A'', sq_to_stop_id = ''C'', sq_departure_time = 0,
     sq_max_transfers = transfers, sq_modes = []\<rparr>"

theorem earliest_arrivals_sound_witness:
  "length (earliest_arrivals sample_snapshot (sample_search 1)) = 1 \<and>
   legs_meet ''A'' 0 (j_legs (hd (earliest_arrivals sample_snapshot (sample_search 1)))) ''C''
     (j_arrival_time (hd (earliest_arrivals sample_snapshot (sample_search 1))))"
proof -
  have one: "length (earliest_arrivals sample_snapshot (sample_search 1)) = 1" by code_simp
  then have "hd (earliest_arrivals sample_snapshot (sample_search 1)) \<in> set (earliest_arrivals sample_snapshot (sample_search 1))"
    by (intro hd_in_set) auto
  with earliest_arrivals_sound [of sample_snapshot "sample_search 1"] one show ?thesis by (simp add: sample_search_def)
qed

text \<open>C39: The walking loop of the connection scan ends for every set of footpaths, also when their sums wrap,
  and in a fixpoint: one more pass over the footpaths would change no label.\<close>

theorem relax_walking_transfers_fixpoint:
  "relax_pass max_transfers transfers (relax_walking_transfers max_transfers transfers labels)
     = (relax_walking_transfers max_transfers transfers labels, False)"
  by (rule relax_walking_fixpoint)

text \<open>
  Two connections of one trip count as a change: with no transfer allowed, a traveller who stays on
  the train is not taken to the second stop.
\<close>

lemma staying_aboard_counts_as_transfer:
  "earliest_arrivals sample_snapshot (sample_search 0) = []"
  "map j_transfer_count (earliest_arrivals sample_snapshot (sample_search 1)) = [1]"
  by code_simp+

end
