(* ===== verification/Transit_Props.thy ===== *)
theory Transit_Props
  imports Transit_Model
begin

text \<open>
  Properties of the transit model: names are normalised to words joined by single spaces, doing it
  twice changes nothing, and times of day survive printing and parsing.
\<close>

section \<open>Names\<close>

lemma butlast_snoc_space: "(ys @ [32::nat]) \<noteq> [] \<and> last (ys @ [32]) = 32 \<and> butlast (ys @ [32]) = ys"
  by simp

lemma words_alphanumeric:
  assumes "w \<in> set (words_of (map folded_character cs))" and "c \<in> set w"
  shows "is_ascii_alphanumeric c"
proof -
  have "Some c \<in> set (map folded_character cs)" using words_of_elems [OF assms(1)] assms(2) by auto
  then obtain x where "folded_character x = Some c" by auto
  then show ?thesis by (rule folded_character_range)
qed

lemma normalize_is_spec: "normalize_czech_name lower value = spec_normalize lower value"
proof -
  let ?cs = "lower (trim value)" and ?ws = "words_of (map folded_character (lower (trim value)))"
  have ne: "\<forall>w \<in> set ?ws. w \<noteq> []" using words_of_elems by blast
  show ?thesis
  proof (cases "?ws \<noteq> [] \<and> last (map folded_character ?cs) = None")
    case True
    then show ?thesis
      by (simp add: normalize_czech_name_def foldl_normalize_step rendered_def spec_normalize_def Let_def)
  next
    case False
    have "last (join_words 32 ?ws) \<noteq> 32" if "?ws \<noteq> []"
    proof -
      have "last (join_words 32 ?ws) = last (last ?ws)" using join_words_last [OF ne that] by simp
      moreover have "last (last ?ws) \<in> set (last ?ws)" "last ?ws \<in> set ?ws" using ne that by auto
      ultimately have "is_ascii_alphanumeric (last (join_words 32 ?ws))" using words_alphanumeric by metis
      then show ?thesis by (auto simp: is_ascii_alphanumeric_def)
    qed
    with False show ?thesis
      by (cases "?ws = []") (auto simp: normalize_czech_name_def foldl_normalize_step rendered_def spec_normalize_def Let_def)
  qed
qed

lemma words_of_one: "w \<noteq> [] \<Longrightarrow> \<forall>c \<in> set w. f c = Some c \<Longrightarrow> words_of (map f w) = [w]"
proof (induction w)
  case (Cons c w)
  then show ?case by (cases w) auto
qed simp

lemma words_of_sep: "w \<noteq> [] \<Longrightarrow> \<forall>c \<in> set w. f c = Some c \<Longrightarrow> words_of (map f w @ None # xs) = w # words_of xs"
proof (induction w)
  case (Cons c w)
  then show ?case by (cases w) auto
qed simp

lemma words_of_join:
  assumes "f sep = None"
  shows "\<forall>w \<in> set ws. w \<noteq> [] \<and> (\<forall>c \<in> set w. f c = Some c) \<Longrightarrow> words_of (map f (join_words sep ws)) = ws"
proof (induction ws)
  case (Cons w ws)
  then show ?case using assms by (cases ws) (simp_all add: words_of_one words_of_sep)
qed simp

text \<open>What \<open>str::to_lowercase\<close> documents, as far as the function relies on it.\<close>

definition plain_text :: "ustring \<Rightarrow> bool" where
  "plain_text s \<longleftrightarrow> (\<forall>c \<in> set s. c = 32 \<or> (48 \<le> c \<and> c \<le> 57) \<or> (97 \<le> c \<and> c \<le> 122))"

definition lowercasing :: "(ustring \<Rightarrow> ustring) \<Rightarrow> bool" where
  "lowercasing lower \<longleftrightarrow> (\<forall>s. plain_text s \<longrightarrow> lower s = s) \<and> (\<forall>s. \<forall>c \<in> set (lower s). \<not> (65 \<le> c \<and> c \<le> 90))"

lemma folded_plain: "folded_character c = Some d \<Longrightarrow> \<not> (65 \<le> c \<and> c \<le> 90) \<Longrightarrow> (48 \<le> d \<and> d \<le> 57) \<or> (97 \<le> d \<and> d \<le> 122)"
  by (auto simp: folded_character_def is_ascii_alphanumeric_def split: if_splits)

lemma folded_plain_self: "(48 \<le> c \<and> c \<le> 57) \<or> (97 \<le> c \<and> c \<le> 122) \<Longrightarrow> folded_character c = Some c"
  by (auto simp: folded_character_def is_ascii_alphanumeric_def)

lemma set_join_words: "set (join_words sep ws) \<subseteq> insert sep (\<Union> (set ` set ws))"
  by (induction sep ws rule: join_words.induct) auto

lemma join_words_hd:
  "\<forall>w \<in> set ws. w \<noteq> [] \<Longrightarrow> ws \<noteq> [] \<Longrightarrow> hd (join_words sep ws) = hd (hd ws)"
  by (induction sep ws rule: join_words.induct) auto

lemma dropWhile_not_hd: "xs = [] \<or> \<not> P (hd xs) \<Longrightarrow> dropWhile P xs = xs"
  by (cases xs) auto

lemma trim_id:
  assumes "s = [] \<or> (\<not> is_whitespace (hd s) \<and> \<not> is_whitespace (last s))"
  shows "trim s = s"
  using assms by (auto simp: trim_def dropWhile_not_hd hd_rev)

lemma spec_normalize_words:
  assumes "\<forall>w \<in> set ws. w \<noteq> [] \<and> (\<forall>c \<in> set w. (48 \<le> c \<and> c \<le> 57) \<or> (97 \<le> c \<and> c \<le> 122))"
    and lower: "lowercasing lower"
  shows "spec_normalize lower (join_words 32 ws) = join_words 32 ws"
proof -
  let ?out = "join_words 32 ws"
  have ne: "\<forall>w \<in> set ws. w \<noteq> []" using assms(1) by blast
  have plain: "plain_text ?out" using set_join_words [of 32 ws] assms(1) by (auto simp: plain_text_def)
  have "\<not> is_whitespace (hd ?out) \<and> \<not> is_whitespace (last ?out)" if "ws \<noteq> []"
  proof -
    have "hd (hd ws) \<in> set (hd ws)" "hd ws \<in> set ws" "last (last ws) \<in> set (last ws)" "last ws \<in> set ws"
      using ne that by auto
    then have "(48 \<le> hd ?out \<and> hd ?out \<le> 57) \<or> (97 \<le> hd ?out \<and> hd ?out \<le> 122)"
      "(48 \<le> last ?out \<and> last ?out \<le> 57) \<or> (97 \<le> last ?out \<and> last ?out \<le> 122)"
      using assms(1) join_words_hd [OF ne that] join_words_last [OF ne that] by metis+
    then show ?thesis by (auto simp: is_whitespace_def)
  qed
  then have "trim ?out = ?out" by (cases "ws = []") (simp_all add: trim_id)
  moreover have "lower ?out = ?out" using lower plain by (simp add: lowercasing_def)
  moreover have "words_of (map folded_character ?out) = ws"
    by (rule words_of_join) (use assms(1) folded_plain_self in \<open>auto simp: folded_character_def is_ascii_alphanumeric_def\<close>)
  ultimately show ?thesis by (simp add: spec_normalize_def)
qed

text \<open>\<open>normalize_czech_name\<close> computes what it is for: the lower-cased name is cut into its maximal runs
  of letters and digits, folded to ASCII, and these words are joined by single spaces; no leading or
  trailing space is left.\<close>

theorem normalize_czech_name_correct:
  "normalize_czech_name lower value = join_words 32 (words_of (map folded_character (lower (trim value))))"
  by (simp add: normalize_is_spec spec_normalize_def)

text \<open>Normalising a normalised name changes nothing, for every lower-casing function that leaves plain
  lower-case ASCII alone and returns no upper-case ASCII letter: the keys that the importer stores and
  the ones the search computes from a stored name agree.\<close>

theorem normalize_czech_name_idempotent:
  assumes "lowercasing lower"
  shows "normalize_czech_name lower (normalize_czech_name lower value) = normalize_czech_name lower value"
proof -
  let ?cs = "lower (trim value)"
  have "w \<noteq> [] \<and> (\<forall>c \<in> set w. (48 \<le> c \<and> c \<le> 57) \<or> (97 \<le> c \<and> c \<le> 122))"
    if w: "w \<in> set (words_of (map folded_character ?cs))" for w
  proof -
    have "(48 \<le> c \<and> c \<le> 57) \<or> (97 \<le> c \<and> c \<le> 122)" if "c \<in> set w" for c
    proof -
      have "Some c \<in> set (map folded_character ?cs)" using words_of_elems [OF w] that by auto
      then obtain x where "x \<in> set ?cs" "folded_character x = Some c" by auto
      with assms show ?thesis using folded_plain by (auto simp: lowercasing_def)
    qed
    with words_of_elems [OF w] show ?thesis by blast
  qed
  then show ?thesis using spec_normalize_words [OF _ assms] by (simp add: normalize_is_spec spec_normalize_def)
qed

definition ascii_lower :: "ustring \<Rightarrow> ustring" where
  "ascii_lower s = map (\<lambda>c. if 65 \<le> c \<and> c \<le> 90 then c + 32 else c) s"

theorem normalize_czech_name_idempotent_witness:
  "normalize_czech_name ascii_lower (normalize_czech_name ascii_lower [32, 72, 0xE1, 44, 45, 98]) = [104, 97, 32, 98]"
proof -
  have "lowercasing ascii_lower"
    by (auto simp: lowercasing_def plain_text_def ascii_lower_def intro!: map_idI)
  from normalize_czech_name_idempotent [OF this]
  have "normalize_czech_name ascii_lower (normalize_czech_name ascii_lower [32, 72, 0xE1, 44, 45, 98])
      = normalize_czech_name ascii_lower [32, 72, 0xE1, 44, 45, 98]" .
  also have "\<dots> = [104, 97, 32, 98]" by code_simp
  finally show ?thesis .
qed

section \<open>Times of day\<close>

lemma show_02_no_colon: "CHR '':'' \<notin> set (show_02 n)"
proof -
  have "CHR '':'' \<notin> set (show_nat n)" using show_nat_digits by fastforce
  then show ?thesis by (simp add: show_02_def)
qed

text \<open>Every \<open>u32\<close> number of seconds, up to the largest, is printed as a time that parses back to it,
  also beyond 24 hours.\<close>

theorem gtfs_time_roundtrip: "parse_gtfs_time (seconds_to_time value) = Some value"
proof -
  let ?v = "unat value"
  have parts: "unat (value div 3600) = ?v div 3600" "unat (value mod 3600 div 60) = ?v mod 3600 div 60" "unat (value mod 60) = ?v mod 60"
    by (simp_all add: unat_div unat_mod)
  have small: "?v div 3600 < 2 ^ 32" "?v mod 3600 div 60 < 2 ^ 32" "?v mod 60 < 2 ^ 32"
    using unat_u32_bound [of "value"] by simp_all
  have "split_on (CHR '':'') (seconds_to_time value) = [show_02 (?v div 3600), show_02 (?v mod 3600 div 60), show_02 (?v mod 60)]"
    unfolding seconds_to_time_def parts
    by (simp add: split_on_append show_02_no_colon split_on_no_sep)
  then have "parse_gtfs_time (seconds_to_time value)
      = Some (of_nat (?v div 3600) * 3600 + of_nat (?v mod 3600 div 60) * 60 + of_nat (?v mod 60))"
    using small by (simp add: parse_gtfs_time_def)
  also have "\<dots> = Some (of_nat (?v div 3600 * 3600 + ?v mod 3600 div 60 * 60 + ?v mod 60))" by simp
  also have "?v div 3600 * 3600 + ?v mod 3600 div 60 * 60 + ?v mod 60 = ?v"
  proof -
    have "?v mod 60 = ?v mod 3600 mod 60" by (simp add: mod_mod_cancel)
    then have "?v mod 3600 div 60 * 60 + ?v mod 60 = ?v mod 3600" by (simp only: div_mult_mod_eq)
    then show ?thesis by (simp only: add.assoc div_mult_mod_eq)
  qed
  finally show ?thesis by (simp)
qed

text \<open>Hours beyond the range of \<open>u32\<close> seconds wrap silently, and minutes need not be below 60.\<close>

lemma parse_gtfs_time_wraps:
  "parse_gtfs_time ''1193047:00:00'' = Some 1904" "parse_gtfs_time ''00:99:99:junk'' = Some 6039"
  by code_simp+

end
