(* ===== verification/Float64.thy ===== *)
theory Float64
  imports Prelude "HOL-Library.Log_Nat"
begin

text \<open>
  The arithmetic on \<open>f64\<close> that the services use: conversion from integers, \<open>+\<close>, \<open>*\<close>, \<open>round\<close>, \<open>max\<close>
  and the saturating conversion to \<open>u64\<close>. Results are rounded to the nearest value with a 53 bit
  significand, ties to even, with gradual underflow and overflow to infinity. The two zeros are
  one value, as no modelled operation tells them apart.
\<close>

section \<open>Rounding to nearest\<close>

text \<open>\<open>binade x\<close> is the exponent \<open>e\<close> with \<open>2 powi e \<le> x < 2 powi (e + 1)\<close>.\<close>

definition binade :: "real \<Rightarrow> int" where
  "binade x = (if 1 \<le> x then int (floorlog 2 (nat \<lfloor>x\<rfloor>)) - 1
               else - int (floorlog 2 (nat (\<lceil>1 / x\<rceil> - 1))))"

definition pow2 :: "int \<Rightarrow> real" where
  "pow2 e = (if 0 \<le> e then 2 ^ nat e else 1 / 2 ^ nat (- e))"

definition round_half_even :: "real \<Rightarrow> int" where
  "round_half_even x =
     (let n = \<lfloor>x\<rfloor>; d = x - of_int n
      in if d < 1 / 2 then n else if 1 / 2 < d then n + 1 else if even n then n else n + 1)"

definition unit_exponent :: "real \<Rightarrow> int" where
  "unit_exponent x = max (binade x - 52) (- 1074)"

definition round_positive :: "real \<Rightarrow> real" where
  "round_positive x =
     (let u = pow2 (unit_exponent x) in of_int (round_half_even (x / u)) * u)"

definition f64_of_real :: "real \<Rightarrow> f64" where
  "f64_of_real x =
     (if x = 0 then Finite 0
      else let r = round_positive \<bar>x\<bar>
           in if 1024 \<le> binade r then (if 0 < x then Infinity else NegInfinity)
              else Finite (if 0 < x then r else - r))"

section \<open>Operations\<close>

fun f64_add :: "f64 \<Rightarrow> f64 \<Rightarrow> f64" where
  "f64_add (Finite a) (Finite b) = f64_of_real (a + b)"
| "f64_add NaN _ = NaN"
| "f64_add _ NaN = NaN"
| "f64_add Infinity NegInfinity = NaN"
| "f64_add NegInfinity Infinity = NaN"
| "f64_add Infinity _ = Infinity"
| "f64_add NegInfinity _ = NegInfinity"
| "f64_add _ Infinity = Infinity"
| "f64_add _ NegInfinity = NegInfinity"

fun f64_sign :: "f64 \<Rightarrow> int" where
  "f64_sign (Finite a) = (if a = 0 then 0 else if 0 < a then 1 else - 1)"
| "f64_sign Infinity = 1"
| "f64_sign NegInfinity = - 1"
| "f64_sign NaN = 0"

fun f64_mul :: "f64 \<Rightarrow> f64 \<Rightarrow> f64" where
  "f64_mul (Finite a) (Finite b) = f64_of_real (a * b)"
| "f64_mul NaN _ = NaN"
| "f64_mul _ NaN = NaN"
| "f64_mul x y = (case f64_sign x * f64_sign y of s \<Rightarrow>
     if s = 0 then NaN else if 0 < s then Infinity else NegInfinity)"

text \<open>\<open>f64::round\<close> rounds half-way cases away from zero.\<close>

fun f64_round :: "f64 \<Rightarrow> f64" where
  "f64_round (Finite a) = Finite (of_int (if 0 \<le> a then \<lfloor>a + 1 / 2\<rfloor> else - \<lfloor>1 / 2 - a\<rfloor>))"
| "f64_round x = x"

text \<open>\<open>f64::max\<close> ignores a NaN.\<close>

definition f64_max :: "f64 \<Rightarrow> f64 \<Rightarrow> f64" where
  "f64_max x y = (if x = NaN then y else if y = NaN then x else if f64_le x y then y else x)"

type_synonym u64 = "64 word"

text \<open>The saturating cast \<open>as u64\<close>.\<close>

fun f64_as_u64 :: "f64 \<Rightarrow> u64" where
  "f64_as_u64 (Finite a) = (if a \<le> 0 then 0 else if 2 ^ 64 \<le> a then - 1 else of_nat (nat \<lfloor>a\<rfloor>))"
| "f64_as_u64 Infinity = - 1"
| "f64_as_u64 _ = 0"

definition f64_of_u32 :: "u32 \<Rightarrow> f64" where
  "f64_of_u32 n = Finite (real (unat n))"

definition f64_of_i32 :: "i32 \<Rightarrow> f64" where
  "f64_of_i32 n = Finite (of_int n)"

section \<open>The unit in the last place\<close>

lemma pow2_powi: "pow2 e = 2 powi e"
  by (simp add: pow2_def power_int_def inverse_eq_divide power_one_over)

lemma pow2_pos [simp]: "0 < pow2 e"
  by (simp add: pow2_powi)

lemma pow2_nonzero [simp]: "pow2 e \<noteq> 0"
  using pow2_pos [of e] by linarith

lemma pow2_add: "pow2 (a + b) = pow2 a * pow2 b"
  by (simp add: pow2_powi power_int_add)

lemma pow2_mono: "a \<le> b \<Longrightarrow> pow2 a \<le> pow2 b"
  by (simp add: pow2_powi power_int_increasing)

lemma pow2_nat: "0 \<le> e \<Longrightarrow> pow2 e = 2 ^ nat e"
  by (simp add: pow2_def)

lemma binade_bounds:
  assumes "0 < x"
  shows "pow2 (binade x) \<le> x" and "x < pow2 (binade x + 1)"
proof -
  have "pow2 (binade x) \<le> x \<and> x < pow2 (binade x + 1)"
  proof (cases "1 \<le> x")
    case True
    define n where "n = nat \<lfloor>x\<rfloor>"
    have n: "0 < n" "real n \<le> x" "x < real n + 1"
      using True unfolding n_def by linarith+
    define k where "k = floorlog 2 n"
    have k: "2 ^ (k - 1) \<le> n" "n < 2 ^ k" "0 < k"
      using floorlog_bounds [of n 2] n(1) floorlog_eq_zero_iff [of 2 n] by (auto simp: k_def)
    have b: "binade x = int k - 1" using True by (simp add: binade_def k_def n_def)
    have "pow2 (binade x) = real (2 ^ (k - 1))"
      using k(3) b by (simp add: pow2_def nat_diff_distrib')
    moreover have "pow2 (binade x + 1) = real (2 ^ k)" using b by (simp add: pow2_def)
    moreover have "real n + 1 \<le> real (2 ^ k)"
      using of_nat_mono [of "Suc n" "2 ^ k", where 'a = real] k(2) by (simp add: Suc_le_eq)
    moreover have "real (2 ^ (k - 1)) \<le> real n" using k(1) of_nat_le_iff by blast
    ultimately show ?thesis using n by linarith
  next
    case False
    define y where "y = 1 / x"
    have y: "1 < y" using False assms by (simp add: y_def)
    define n where "n = nat (\<lceil>y\<rceil> - 1)"
    have n: "0 < n" "real n < y" "y \<le> real n + 1"
      using y unfolding n_def by linarith+
    define k where "k = floorlog 2 n"
    have k: "2 ^ (k - 1) \<le> n" "n < 2 ^ k" "0 < k"
      using floorlog_bounds [of n 2] n(1) floorlog_eq_zero_iff [of 2 n] by (auto simp: k_def)
    have b: "binade x = - int k" using False by (simp add: binade_def k_def n_def y_def)
    have "y \<le> 2 ^ k"
      using n(3) of_nat_mono [of "Suc n" "2 ^ k", where 'a = real] k(2) by (simp add: Suc_le_eq)
    moreover have "2 ^ (k - 1) < y" 
      using n(2) k(1) by (metis of_nat_le_iff of_nat_numeral of_nat_power order_le_less_trans)
    ultimately have "1 / 2 ^ k \<le> x" "x < 1 / 2 ^ (k - 1)"
      using assms by (auto simp: y_def field_simps)
    moreover have "pow2 (binade x) = 1 / 2 ^ k" using b k(3) by (simp add: pow2_def)
    moreover have "pow2 (binade x + 1) = 1 / 2 ^ (k - 1)"
      using b k(3) by (cases "k = 1") (auto simp: pow2_def nat_diff_distrib')
    ultimately show ?thesis by simp
  qed
  then show "pow2 (binade x) \<le> x" and "x < pow2 (binade x + 1)" by auto
qed

lemma binade_mono: "0 < x \<Longrightarrow> x \<le> y \<Longrightarrow> binade x \<le> binade y"
proof (rule ccontr)
  assume x: "0 < x" and le: "x \<le> y" and "\<not> binade x \<le> binade y"
  then have "pow2 (binade y + 1) \<le> pow2 (binade x)" by (intro pow2_mono) simp
  with binade_bounds [of x] binade_bounds [of y] x le show False by linarith
qed

section \<open>Rounding is monotone\<close>

lemma round_half_even_floor: "\<lfloor>x\<rfloor> \<le> round_half_even x" "round_half_even x \<le> \<lfloor>x\<rfloor> + 1"
  by (auto simp: round_half_even_def Let_def)

lemma round_half_even_int [simp]: "round_half_even (of_int n) = n"
  by (simp add: round_half_even_def)

lemma round_half_even_mono: "x \<le> y \<Longrightarrow> round_half_even x \<le> round_half_even y"
proof -
  assume le: "x \<le> y"
  then consider "\<lfloor>x\<rfloor> = \<lfloor>y\<rfloor>" | "\<lfloor>x\<rfloor> + 1 \<le> \<lfloor>y\<rfloor>" by (metis floor_mono order_less_le zless_imp_add1_zle)
  then show ?thesis
  proof cases
    case 1
    with le show ?thesis by (auto simp: round_half_even_def Let_def)
  next
    case 2
    with round_half_even_floor [of x] round_half_even_floor [of y] show ?thesis by linarith
  qed
qed

lemma round_positive_mono:
  assumes "0 < x" and "x \<le> y"
  shows "round_positive x \<le> round_positive y"
proof (cases "unit_exponent x = unit_exponent y")
  case True
  have "x / pow2 (unit_exponent x) \<le> y / pow2 (unit_exponent x)"
    using assms by (intro divide_right_mono) (simp_all add: less_imp_le)
  from round_half_even_mono [OF this] True show ?thesis
    by (simp add: round_positive_def Let_def)
next
  case False
  have y: "0 < y" using assms by linarith
  have less: "unit_exponent x < unit_exponent y" and uy: "unit_exponent y = binade y - 52"
    using False binade_mono [OF assms] by (auto simp: unit_exponent_def max_def split: if_splits)
  have bx: "binade x + 1 \<le> binade y" using less uy by (auto simp: unit_exponent_def)
  define B where "B = pow2 (binade y)"
  have xB: "x < B"
    using binade_bounds(2) [OF assms(1)] pow2_mono [OF bx] by (simp add: B_def)
  have By: "B \<le> y" using binade_bounds(1) [OF y] by (simp add: B_def)
  define ux where "ux = pow2 (unit_exponent x)"
  have "0 \<le> binade y - unit_exponent x" using less uy by linarith
  then have Bx: "B = of_int (2 ^ nat (binade y - unit_exponent x)) * ux"
    using pow2_add [of "binade y - unit_exponent x" "unit_exponent x"]
    by (simp add: B_def ux_def pow2_nat)
  have ux: "0 < ux" by (simp add: ux_def)
  then have "x / ux \<le> of_int (2 ^ nat (binade y - unit_exponent x))"
    using xB Bx by (simp add: pos_divide_le_eq)
  then have "round_half_even (x / ux) \<le> 2 ^ nat (binade y - unit_exponent x)"
    using round_half_even_mono round_half_even_int by metis
  then have "of_int (round_half_even (x / ux)) \<le> (of_int (2 ^ nat (binade y - unit_exponent x)) :: real)"
    by (simp only: of_int_le_iff)
  then have xB': "round_positive x \<le> B"
    using ux Bx by (simp add: round_positive_def Let_def ux_def [symmetric])
  define uy' where "uy' = pow2 (unit_exponent y)"
  have By': "B = of_int (2 ^ 52) * uy'"
    using pow2_add [of 52 "unit_exponent y"] by (simp add: B_def uy'_def uy pow2_nat)
  have uy0: "0 < uy'" by (simp add: uy'_def)
  then have "of_int (2 ^ 52) \<le> y / uy'" using By By' by (simp add: pos_le_divide_eq)
  then have "2 ^ 52 \<le> round_half_even (y / uy')"
    using round_half_even_mono round_half_even_int by metis
  then have "(of_int (2 ^ 52) :: real) \<le> of_int (round_half_even (y / uy'))"
    by (simp only: of_int_le_iff)
  then have "B \<le> round_positive y"
    using uy0 By' by (simp add: round_positive_def Let_def uy'_def [symmetric])
  with xB' show ?thesis by linarith
qed

lemma round_positive_nonneg: "0 < x \<Longrightarrow> 0 \<le> round_positive x"
proof -
  assume "0 < x"
  then have "0 \<le> x / pow2 (unit_exponent x)" by (simp add: less_imp_le)
  then have "0 \<le> round_half_even (x / pow2 (unit_exponent x))"
    using round_half_even_mono [of 0] round_half_even_int [of 0] by simp
  then show ?thesis by (simp add: round_positive_def Let_def zero_le_mult_iff less_imp_le)
qed

text \<open>An integer of at most 53 bits is not rounded.\<close>

lemma binade_int:
  assumes "0 < n" and "n < 2 ^ 53"
  shows "binade (of_int n) < 53"
proof -
  have "pow2 (binade (of_int n)) \<le> of_int n" using assms by (intro binade_bounds) simp
  then have "pow2 (binade (of_int n)) < pow2 53" using assms(2)
    by (simp add: pow2_nat order_le_less_trans [OF _ of_int_less_iff [THEN iffD2, of n "2 ^ 53"]])
  then show ?thesis by (meson linorder_not_le pow2_mono)
qed

lemma round_positive_int:
  assumes "0 < n" and "n < 2 ^ 53"
  shows "round_positive (of_int n) = of_int n"
proof -
  from binade_int [OF assms] have u: "unit_exponent (of_int n) \<le> 0" by (simp add: unit_exponent_def)
  define k where "k = nat (- unit_exponent (of_int n))"
  have "pow2 (unit_exponent (of_int n)) = 1 / 2 ^ k"
    using u by (cases "unit_exponent (of_int n) = 0") (auto simp: pow2_def k_def)
  moreover have "of_int n / (1 / 2 ^ k) = (of_int (n * 2 ^ k) :: real)" by simp
  ultimately show ?thesis
    by (simp only: round_positive_def Let_def round_half_even_int) simp
qed

lemma f64_of_real_int: "0 \<le> n \<Longrightarrow> n < 2 ^ 53 \<Longrightarrow> f64_of_real (of_int n) = Finite (of_int n)"
proof -
  assume n: "0 \<le> n" "n < 2 ^ 53"
  have "binade (of_int n) < 53" if "0 < n" using that n(2) by (rule binade_int)
  with n round_positive_int [of n] show ?thesis
    by (cases "n = 0") (auto simp: f64_of_real_def Let_def)
qed

lemma f64_of_real_nat: "n < 2 ^ 53 \<Longrightarrow> f64_of_real (real n) = Finite (real n)"
  using f64_of_real_int [of "int n"] by (simp add: zless_nat_eq_int_zless)

section \<open>Order and range\<close>

lemma f64_of_real_mono:
  assumes "0 \<le> x" and "x \<le> y"
  shows "f64_le (f64_of_real x) (f64_of_real y)"
proof (cases "x = 0")
  case False
  then have r: "0 \<le> round_positive x" "round_positive x \<le> round_positive y"
    using round_positive_mono [of x y] round_positive_nonneg [of x] assms by auto
  have "binade (round_positive x) \<le> binade (round_positive y) \<or> binade (round_positive x) < 1024"
    using binade_mono [OF _ r(2)] r(1) by (cases "round_positive x = 0") (auto simp: binade_def floorlog_def)
  with r False assms show ?thesis by (auto simp: f64_of_real_def Let_def)
qed (use round_positive_nonneg [of y] assms in \<open>auto simp: f64_of_real_def Let_def\<close>)

text \<open>Below \<open>2 ^ 53\<close> the result stays finite, in order and below \<open>2 ^ 53\<close>.\<close>

lemma f64_of_real_bounded:
  assumes "0 \<le> x" and "x \<le> real n" and "n < 2 ^ 53"
  obtains r where "f64_of_real x = Finite r" "0 \<le> r" "r \<le> real n"
proof (cases "x = 0")
  case True
  then show ?thesis using that [of 0] by (simp add: f64_of_real_def)
next
  case False
  then have x: "0 < x" using assms(1) by simp
  from f64_of_real_mono [OF assms(1,2)] f64_of_real_nat [OF assms(3)]
  have "f64_le (f64_of_real x) (Finite (real n))" by simp
  moreover have "f64_le (Finite 0) (f64_of_real x)"
    using x round_positive_nonneg [of x] by (simp add: f64_of_real_def Let_def)
  moreover have "f64_of_real x \<noteq> NegInfinity" using x by (simp add: f64_of_real_def Let_def)
  ultimately show ?thesis using that by (cases "f64_of_real x") auto
qed

lemma f64_of_real_order:
  assumes "0 \<le> x" "x \<le> y" "f64_of_real x = Finite a" "f64_of_real y = Finite b"
  shows "a \<le> b"
  using f64_of_real_mono [OF assms(1,2)] assms(3,4) by simp

lemma f64_round_mono: "0 \<le> a \<Longrightarrow> a \<le> b \<Longrightarrow> f64_le (f64_round (Finite a)) (f64_round (Finite b))"
  by (simp add: floor_mono)

lemma f64_as_u64_mono:
  assumes "a \<le> b"
  shows "f64_as_u64 (Finite a) \<le> f64_as_u64 (Finite b)"
proof (cases "a \<le> 0 \<or> 2 ^ 64 \<le> b")
  case True
  have "(w :: u64) \<le> - 1" for w using word_order.extremum by blast
  with True assms show ?thesis by auto
next
  case False
  then have ab: "0 < a" "0 < b" "a < 2 ^ 64" "b < 2 ^ 64" using assms by auto
  have u: "unat (of_nat (nat \<lfloor>c\<rfloor>) :: u64) = nat \<lfloor>c\<rfloor>" if "0 < c" "c < 2 ^ 64" for c :: real
  proof -
    have "nat \<lfloor>c\<rfloor> < 2 ^ 64" using that by (simp add: nat_less_iff floor_less_iff)
    then show ?thesis by (simp add: unat_of_nat del: of_nat_nat)
  qed
  have "nat \<lfloor>a\<rfloor> \<le> nat \<lfloor>b\<rfloor>" using assms by (simp add: floor_mono nat_mono)
  then have "(of_nat (nat \<lfloor>a\<rfloor>) :: u64) \<le> of_nat (nat \<lfloor>b\<rfloor>)" using u [of a] u [of b] ab by (simp only: word_le_nat_alt)
  with ab show ?thesis by auto
qed

end
