(* ===== verification/Routing_Config.thy ===== *)
theory Routing_Config
  imports Transit_Model Float64
begin

text \<open>
  \<^verbatim>\<open>services/api/src/lib.rs\<close>: the administrator's routing configuration with its defaults and its
  validation, and \<^verbatim>\<open>services/api/src/error.rs\<close>: the error value of the service.
\<close>

section \<open>The error value\<close>

record api_error =
  ae_code :: string
  ae_message :: string

definition show_int :: "int \<Rightarrow> string" where
  "show_int n = (if n < 0 then CHR ''-'' # show_nat (nat (- n)) else show_nat (nat n))"

definition invalid_field :: "string \<Rightarrow> i32 \<Rightarrow> i32 \<Rightarrow> api_error" where
  "invalid_field field minimum maximum =
     \<lparr>ae_code = ''validation_error'',
      ae_message = field @ '' must be between '' @ show_int minimum @ '' and '' @ show_int maximum\<rparr>"

section \<open>The configuration\<close>

record routing_algorithm_config =
  cfg_max_results :: i32
  cfg_max_direct_candidates :: i32
  cfg_max_transfer_candidates :: i32
  cfg_min_transfer_seconds :: i32
  cfg_max_transfer_wait_seconds :: i32
  cfg_transfer_search_timeout_seconds :: i32
  cfg_next_day_search_from_seconds :: i32
  cfg_range_search_window_seconds :: i32
  cfg_max_range_departures :: i32
  cfg_endpoint_access_cache_enabled :: bool
  cfg_arrival_time_weight :: f64
  cfg_duration_weight :: f64
  cfg_transfer_penalty_seconds :: i32
  cfg_preserve_simplest :: bool
  cfg_preserve_each_transfer_count :: bool
  cfg_preserve_carrier_diversity :: bool
  cfg_remove_dominated :: bool
  cfg_dominate_only_same_carrier :: bool

definition default_routing_config :: routing_algorithm_config where
  "default_routing_config =
     \<lparr>cfg_max_results = 20, cfg_max_direct_candidates = 20, cfg_max_transfer_candidates = 40,
      cfg_min_transfer_seconds = 5 * 60, cfg_max_transfer_wait_seconds = 2 * 3600,
      cfg_transfer_search_timeout_seconds = 6, cfg_next_day_search_from_seconds = 18 * 3600,
      cfg_range_search_window_seconds = 90 * 60, cfg_max_range_departures = 48,
      cfg_endpoint_access_cache_enabled = True, cfg_arrival_time_weight = Finite 1,
      cfg_duration_weight = Finite 0, cfg_transfer_penalty_seconds = 0,
      cfg_preserve_simplest = True, cfg_preserve_each_transfer_count = True,
      cfg_preserve_carrier_diversity = True, cfg_remove_dominated = True,
      cfg_dominate_only_same_carrier = False\<rparr>"

text \<open>The table of checked integer fields, in the order of the array.\<close>

definition config_checks :: "routing_algorithm_config \<Rightarrow> (string \<times> i32 \<times> i32 \<times> i32) list" where
  "config_checks c =
     [(''max_results'', cfg_max_results c, 1, 20),
      (''max_direct_candidates'', cfg_max_direct_candidates c, 1, 500),
      (''max_transfer_candidates'', cfg_max_transfer_candidates c, 1, 1000),
      (''min_transfer_seconds'', cfg_min_transfer_seconds c, 60, 3600),
      (''max_transfer_wait_seconds'', cfg_max_transfer_wait_seconds c, 300, 21600),
      (''transfer_search_timeout_seconds'', cfg_transfer_search_timeout_seconds c, 1, 60),
      (''next_day_search_from_seconds'', cfg_next_day_search_from_seconds c, 0, 86399),
      (''range_search_window_seconds'', cfg_range_search_window_seconds c, 0, 21600),
      (''max_range_departures'', cfg_max_range_departures c, 1, 96),
      (''transfer_penalty_seconds'', cfg_transfer_penalty_seconds c, 0, 14400)]"

fun first_invalid_field :: "(string \<times> i32 \<times> i32 \<times> i32) list \<Rightarrow> api_error option" where
  "first_invalid_field [] = None"
| "first_invalid_field ((field, value, minimum, maximum) # checks) =
     (if \<not> (minimum \<le> value \<and> value \<le> maximum) then Some (invalid_field field minimum maximum)
      else first_invalid_field checks)"

fun first_invalid_weight :: "(string \<times> f64) list \<Rightarrow> api_error option" where
  "first_invalid_weight [] = None"
| "first_invalid_weight ((field, value) # weights) =
     (if \<not> is_finite value \<or> \<not> in_f64_range 0 10 value
      then Some \<lparr>ae_code = ''validation_error'',
                 ae_message = field @ '' must be a finite number between 0 and 10''\<rparr>
      else first_invalid_weight weights)"

definition validate_routing_config :: "routing_algorithm_config \<Rightarrow> api_error + unit" where
  "validate_routing_config c =
     (case first_invalid_field (config_checks c) of
        Some e \<Rightarrow> Inl e
      | None \<Rightarrow>
          if cfg_max_transfer_wait_seconds c < cfg_min_transfer_seconds c
          then Inl \<lparr>ae_code = ''validation_error'',
                    ae_message = ''max_transfer_wait_seconds must be greater than or equal to min_transfer_seconds''\<rparr>
          else (case first_invalid_weight [(''arrival_time_weight'', cfg_arrival_time_weight c),
                                           (''duration_weight'', cfg_duration_weight c)] of
                  Some e \<Rightarrow> Inl e
                | None \<Rightarrow>
                    if cfg_arrival_time_weight c = Finite 0 \<and> cfg_duration_weight c = Finite 0
                    then Inl \<lparr>ae_code = ''validation_error'',
                              ae_message = ''arrival_time_weight and duration_weight cannot both be zero''\<rparr>
                    else Inr ()))"

text \<open>
  \<open>geometry_preselection_config\<close>: \<open>clamp\<close> panics when its lower bound exceeds the upper one, which
  is the value \<^term>\<open>None\<close>.
\<close>

definition saturating_mul_i32 :: "i32 \<Rightarrow> i32 \<Rightarrow> i32" where
  "saturating_mul_i32 a b = max (- (2 ^ 31)) (min (2 ^ 31 - 1) (a * b))"

definition geometry_preselection_config :: "routing_algorithm_config \<Rightarrow> routing_algorithm_config option" where
  "geometry_preselection_config c =
     (if 40 < cfg_max_results c then None
      else Some (c\<lparr>cfg_max_results := max (cfg_max_results c) (min 40 (saturating_mul_i32 (cfg_max_results c) 2)),
                   cfg_remove_dominated := False\<rparr>))"

definition usize_of_i32 :: "i32 \<Rightarrow> usize" where
  "usize_of_i32 n = nat (n mod 2 ^ 64)"

definition range_expansion_candidate_floor :: "routing_algorithm_config \<Rightarrow> usize" where
  "range_expansion_candidate_floor c = max 1 (min 3 (usize_of_i32 (cfg_max_results c)))"

definition should_expand_raptor_range :: "usize \<Rightarrow> routing_algorithm_config \<Rightarrow> bool" where
  "should_expand_raptor_range candidate_count c \<longleftrightarrow> candidate_count < range_expansion_candidate_floor c"

definition should_search_next_service_day_for_candidates :: "usize \<Rightarrow> routing_algorithm_config \<Rightarrow> bool" where
  "should_search_next_service_day_for_candidates candidate_count c \<longleftrightarrow>
     candidate_count < range_expansion_candidate_floor c"

section \<open>What validation guarantees\<close>

text \<open>The limits as one predicate, independent of the order in which they are checked.\<close>

definition valid_routing_config :: "routing_algorithm_config \<Rightarrow> bool" where
  "valid_routing_config c \<longleftrightarrow>
     1 \<le> cfg_max_results c \<and> cfg_max_results c \<le> 20 \<and>
     1 \<le> cfg_max_direct_candidates c \<and> cfg_max_direct_candidates c \<le> 500 \<and>
     1 \<le> cfg_max_transfer_candidates c \<and> cfg_max_transfer_candidates c \<le> 1000 \<and>
     60 \<le> cfg_min_transfer_seconds c \<and> cfg_min_transfer_seconds c \<le> 3600 \<and>
     300 \<le> cfg_max_transfer_wait_seconds c \<and> cfg_max_transfer_wait_seconds c \<le> 21600 \<and>
     1 \<le> cfg_transfer_search_timeout_seconds c \<and> cfg_transfer_search_timeout_seconds c \<le> 60 \<and>
     0 \<le> cfg_next_day_search_from_seconds c \<and> cfg_next_day_search_from_seconds c \<le> 86399 \<and>
     0 \<le> cfg_range_search_window_seconds c \<and> cfg_range_search_window_seconds c \<le> 21600 \<and>
     1 \<le> cfg_max_range_departures c \<and> cfg_max_range_departures c \<le> 96 \<and>
     0 \<le> cfg_transfer_penalty_seconds c \<and> cfg_transfer_penalty_seconds c \<le> 14400 \<and>
     cfg_min_transfer_seconds c \<le> cfg_max_transfer_wait_seconds c \<and>
     (\<exists>wa wd. cfg_arrival_time_weight c = Finite wa \<and> cfg_duration_weight c = Finite wd \<and>
        0 \<le> wa \<and> wa \<le> 10 \<and> 0 \<le> wd \<and> wd \<le> 10 \<and> (wa \<noteq> 0 \<or> wd \<noteq> 0))"

lemma first_invalid_field_None:
  "first_invalid_field checks = None \<longleftrightarrow>
   (\<forall>(field, value, minimum, maximum) \<in> set checks. minimum \<le> value \<and> value \<le> maximum)"
  by (induction checks rule: first_invalid_field.induct) auto

lemma first_invalid_field_code: "first_invalid_field checks = Some e \<Longrightarrow> ae_code e = ''validation_error''"
  by (induction checks rule: first_invalid_field.induct) (auto simp: invalid_field_def split: if_splits)

lemma first_invalid_weight_code: "first_invalid_weight ws = Some e \<Longrightarrow> ae_code e = ''validation_error''"
  by (induction ws rule: first_invalid_weight.induct) (auto split: if_splits)

lemma is_finite_iff: "is_finite x \<longleftrightarrow> (\<exists>r. x = Finite r)"
  by (cases x) auto

lemma validate_routing_config_code:
  "validate_routing_config c = Inl e \<Longrightarrow> ae_code e = ''validation_error''"
  by (auto simp: validate_routing_config_def first_invalid_field_code first_invalid_weight_code
      split: option.splits if_splits)

lemma first_invalid_weight_None:
  "first_invalid_weight ws = None \<longleftrightarrow> (\<forall>(field, w) \<in> set ws. \<exists>r. w = Finite r \<and> 0 \<le> r \<and> r \<le> 10)"
  by (induction ws rule: first_invalid_weight.induct) (auto simp: is_finite_iff)

lemma config_checks_ok:
  "first_invalid_field (config_checks c) = None \<longleftrightarrow>
     1 \<le> cfg_max_results c \<and> cfg_max_results c \<le> 20 \<and>
     1 \<le> cfg_max_direct_candidates c \<and> cfg_max_direct_candidates c \<le> 500 \<and>
     1 \<le> cfg_max_transfer_candidates c \<and> cfg_max_transfer_candidates c \<le> 1000 \<and>
     60 \<le> cfg_min_transfer_seconds c \<and> cfg_min_transfer_seconds c \<le> 3600 \<and>
     300 \<le> cfg_max_transfer_wait_seconds c \<and> cfg_max_transfer_wait_seconds c \<le> 21600 \<and>
     1 \<le> cfg_transfer_search_timeout_seconds c \<and> cfg_transfer_search_timeout_seconds c \<le> 60 \<and>
     0 \<le> cfg_next_day_search_from_seconds c \<and> cfg_next_day_search_from_seconds c \<le> 86399 \<and>
     0 \<le> cfg_range_search_window_seconds c \<and> cfg_range_search_window_seconds c \<le> 21600 \<and>
     1 \<le> cfg_max_range_departures c \<and> cfg_max_range_departures c \<le> 96 \<and>
     0 \<le> cfg_transfer_penalty_seconds c \<and> cfg_transfer_penalty_seconds c \<le> 14400"
  unfolding first_invalid_field_None config_checks_def by auto

lemma validate_routing_config_Inr:
  "validate_routing_config c = Inr () \<longleftrightarrow>
     first_invalid_field (config_checks c) = None \<and>
     cfg_min_transfer_seconds c \<le> cfg_max_transfer_wait_seconds c \<and>
     first_invalid_weight [(''arrival_time_weight'', cfg_arrival_time_weight c),
                           (''duration_weight'', cfg_duration_weight c)] = None \<and>
     \<not> (cfg_arrival_time_weight c = Finite 0 \<and> cfg_duration_weight c = Finite 0)"
  unfolding validate_routing_config_def
  by (auto simp: not_less simp del: first_invalid_weight.simps split: option.splits if_splits)

lemma validate_routing_config_iff: "validate_routing_config c = Inr () \<longleftrightarrow> valid_routing_config c"
  unfolding validate_routing_config_Inr config_checks_ok valid_routing_config_def first_invalid_weight_None
  by auto

text \<open>
  \<open>RoutingAlgorithmConfig::validate\<close> accepts a configuration exactly when every field is within its
  documented limits, the waiting limit is not below the transfer time, and both weights are finite,
  between 0 and 10 and not both zero. Every rejection carries the code \<open>validation_error\<close>, and the
  built-in defaults are accepted.
\<close>

theorem routing_config_validation:
  "(validate_routing_config c = Inr () \<and> valid_routing_config c \<or>
    (\<exists>e. validate_routing_config c = Inl e \<and> ae_code e = ''validation_error'') \<and> \<not> valid_routing_config c) \<and>
   validate_routing_config default_routing_config = Inr ()"
proof
  show "validate_routing_config c = Inr () \<and> valid_routing_config c \<or>
    (\<exists>e. validate_routing_config c = Inl e \<and> ae_code e = ''validation_error'') \<and> \<not> valid_routing_config c"
  proof (cases "validate_routing_config c")
    case (Inl e)
    then have "\<not> valid_routing_config c" by (simp add: validate_routing_config_iff [symmetric])
    with Inl validate_routing_config_code [OF Inl] show ?thesis by blast
  next
    case (Inr u)
    then show ?thesis by (simp add: validate_routing_config_iff)
  qed
  show "validate_routing_config default_routing_config = Inr ()"
    by (simp add: validate_routing_config_iff valid_routing_config_def default_routing_config_def)
qed

end
