(* ===== verification/Journey_Ranking.thy ===== *)
theory Journey_Ranking
  imports Routing_Config Direct_Journeys
begin

text \<open>
  \<^verbatim>\<open>services/api/src/lib.rs\<close>, the treatment of found journeys: the filter for implausible ones, the
  merge of visibly equal ones, dominance, the choice of at most \<open>max_results\<close> and their labels. The
  two maps that are iterated (best journey per carrier and per route) leave a \<open>HashMap\<close> through
  \<open>into_values()\<close>, whose order is the parameter \<open>hash_order\<close>.
\<close>

section \<open>Keys of journeys\<close>

definition show_u32 :: "u32 \<Rightarrow> string" where
  "show_u32 n = show_nat (unat n)"

definition is_ascii_digit :: "char \<Rightarrow> bool" where
  "is_ascii_digit c \<longleftrightarrow> digit_val c \<noteq> None"

definition is_alphanumeric_char :: "char \<Rightarrow> bool" where
  "is_alphanumeric_char c \<longleftrightarrow> is_ascii_alphanumeric (of_char c)"

definition is_walking_leg :: "journey_leg \<Rightarrow> bool" where
  "is_walking_leg leg \<longleftrightarrow> leg_route_id leg = None \<and> leg_trip_id leg = None"

definition stop_signature :: "string \<Rightarrow> (string \<rightharpoonup> string) \<Rightarrow> string" where
  "stop_signature stop_id stop_signatures = (case stop_signatures stop_id of Some s \<Rightarrow> s | None \<Rightarrow> stop_id)"

definition visible_leg_key :: "(string \<rightharpoonup> string) \<Rightarrow> usize \<Rightarrow> usize \<times> journey_leg \<Rightarrow> string" where
  "visible_leg_key sigs leading_walk_count = (\<lambda>(index, leg).
     if index < leading_walk_count
     then ''walk:'' @ stop_signature (leg_from_stop_id leg) sigs @ '':'' @
          stop_signature (leg_to_stop_id leg) sigs @ '':'' @
          show_u32 (saturating_sub (leg_arrival_time leg) (leg_departure_time leg))
     else stop_signature (leg_from_stop_id leg) sigs @ '':'' @ stop_signature (leg_to_stop_id leg) sigs @ '':'' @
          show_u32 (leg_departure_time leg) @ '':'' @ show_u32 (leg_arrival_time leg))"

definition visible_journey_key :: "journey \<Rightarrow> (string \<rightharpoonup> string) \<Rightarrow> string" where
  "visible_journey_key journey sigs =
     (let leading_walk_count = length (takeWhile is_walking_leg (j_legs journey))
      in join_words (CHR ''|'') (map (visible_leg_key sigs leading_walk_count) (enumerate 0 (j_legs journey))))"

text \<open>\<open>str::rfind\<close> of a string.\<close>

definition rfind :: "string \<Rightarrow> string \<Rightarrow> usize option" where
  "rfind needle s =
     (let hits = filter (\<lambda>i. take (length needle) (drop i s) = needle) [0..<Suc (length s)]
      in if hits = [] then None else Some (last hits))"

definition looks_like_platform :: "string \<Rightarrow> string list \<Rightarrow> bool" where
  "looks_like_platform platform others \<longleftrightarrow>
     others = [] \<and> platform \<noteq> [] \<and> length platform \<le> 4 \<and> is_ascii_digit (hd platform) \<and>
     list_all is_alphanumeric_char platform"

definition railway_station_stop_base :: "string \<Rightarrow> string option" where
  "railway_station_stop_base stop_id =
     (case (case rfind ''SR70ST-CZ-'' stop_id of
              Some marker_index \<Rightarrow> Some (marker_index, ''SR70ST-CZ-'')
            | None \<Rightarrow> map_option (\<lambda>i. (i, ''SR70S-CZ-'')) (rfind ''SR70S-CZ-'' stop_id)) of
        None \<Rightarrow> None
      | Some (marker_index, marker) \<Rightarrow>
          (let parts = split_on (CHR ''-'') (drop (marker_index + length marker) stop_id);
               station_code = hd parts
           in if station_code = [] \<or> \<not> list_all is_ascii_digit station_code then None
              else if tl parts \<noteq> [] \<and> \<not> looks_like_platform (hd (tl parts)) (tl (tl parts)) then None
              else Some (take marker_index stop_id @ ''SR70S-CZ-'' @ station_code)))"

definition canonical_journey_stop_id :: "string \<Rightarrow> string" where
  "canonical_journey_stop_id stop_id =
     (case railway_station_stop_base stop_id of Some base \<Rightarrow> base | None \<Rightarrow> stop_id)"

definition public_route_key :: "string option \<Rightarrow> string" where
  "public_route_key route_id =
     join_words (CHR ''-'') (filter (\<lambda>part. \<not> (length part = 4 \<and> list_all is_ascii_digit part))
       (split_on (CHR ''-'') (case route_id of Some r \<Rightarrow> r | None \<Rightarrow> [])))"

definition journey_identity_key :: "journey \<Rightarrow> string" where
  "journey_identity_key journey =
     join_words (CHR ''|'') (map (\<lambda>leg. public_route_key (leg_route_id leg) @ '':'' @
       canonical_journey_stop_id (leg_from_stop_id leg) @ '':'' @ canonical_journey_stop_id (leg_to_stop_id leg) @
       '':'' @ show_u32 (leg_departure_time leg) @ '':'' @ show_u32 (leg_arrival_time leg)) (j_legs journey))"

definition journey_route_signature :: "journey \<Rightarrow> string" where
  "journey_route_signature journey =
     join_words (CHR ''|'') (map (\<lambda>leg. case leg_route_id leg of None \<Rightarrow> ''walk''
       | Some route_id \<Rightarrow> ''route:'' @ public_route_key (Some route_id)) (j_legs journey))"

definition journey_carrier_signature :: "journey \<Rightarrow> (string \<rightharpoonup> string) \<Rightarrow> string option" where
  "journey_carrier_signature journey carrier_keys =
     (let keys = remdups_adj (sort (List.map_filter (\<lambda>leg. Option.bind (leg_route_id leg) carrier_keys) (j_legs journey)))
      in if keys = [] then None else Some (join_words (CHR ''|'') keys))"

text \<open>\<open>str::replace\<close> of one character, and the pattern of a prefix search.\<close>

definition escape_char :: "char \<Rightarrow> string \<Rightarrow> string" where
  "escape_char c s = concat (map (\<lambda>x. if x = c then [CHR 0x5C, c] else [x]) s)"

definition escaped_like_prefix :: "string \<Rightarrow> string" where
  "escaped_like_prefix value =
     escape_char (CHR ''_'') (escape_char (CHR ''%'') (escape_char (CHR 0x5C) value)) @ ''%''"

section \<open>Plausible journeys\<close>

definition change_is_plausible :: "routing_algorithm_config \<Rightarrow> journey_leg \<Rightarrow> journey_leg \<Rightarrow> bool" where
  "change_is_plausible c leg next_leg =
     (let wait = saturating_sub (leg_departure_time next_leg) (leg_arrival_time leg);
          max_wait = of_int (max 0 (cfg_max_transfer_wait_seconds c));
          min_wait = of_int (max 0 (cfg_min_transfer_seconds c))
      in if is_walking_leg leg \<or> is_walking_leg next_leg then \<not> max_wait < wait
         else \<not> (max_wait < wait \<or>
                 (wait < min_wait \<and>
                  \<not> list_ex (\<lambda>warning. warning = ''official_minimum_change_time'' \<or>
                                       warning = ''realtime_routing_applied'')
                      (leg_warnings next_leg @ leg_warnings leg))))"

fun legs_are_plausible :: "(string \<rightharpoonup> string) \<Rightarrow> routing_algorithm_config \<Rightarrow> string set \<Rightarrow> journey_leg list \<Rightarrow> bool" where
  "legs_are_plausible sigs c trip_ids [] = True"
| "legs_are_plausible sigs c trip_ids (leg # rest) =
     (if leg_arrival_time leg < leg_departure_time leg then False
      else if \<not> is_walking_leg leg \<and>
              stop_signature (leg_from_stop_id leg) sigs = stop_signature (leg_to_stop_id leg) sigs then False
      else if (case leg_trip_id leg of Some t \<Rightarrow> t \<in> trip_ids | None \<Rightarrow> False) then False
      else if (case rest of [] \<Rightarrow> False
               | next_leg # _ \<Rightarrow>
                   leg_departure_time next_leg < leg_arrival_time leg \<or>
                   stop_signature (leg_to_stop_id leg) sigs \<noteq> stop_signature (leg_from_stop_id next_leg) sigs \<or>
                   \<not> change_is_plausible c leg next_leg) then False
      else legs_are_plausible sigs c (case leg_trip_id leg of Some t \<Rightarrow> insert t trip_ids | None \<Rightarrow> trip_ids) rest)"

definition journey_is_relevant :: "journey \<Rightarrow> (string \<rightharpoonup> string) \<Rightarrow> routing_algorithm_config \<Rightarrow> bool" where
  "journey_is_relevant journey sigs c =
     (if j_legs journey = [] then False
      else if leg_departure_time (hd (j_legs journey)) \<noteq> j_departure_time journey \<or>
              leg_arrival_time (last (j_legs journey)) \<noteq> j_arrival_time journey \<or>
              j_arrival_time journey < j_departure_time journey \<or>
              j_duration_seconds journey \<noteq> j_arrival_time journey - j_departure_time journey then False
      else legs_are_plausible sigs c {} (j_legs journey))"

definition wrap_i32 :: "int \<Rightarrow> i32" where
  "wrap_i32 n = (n + 2 ^ 31) mod 2 ^ 32 - 2 ^ 31"

definition route_priority_sum :: "(string \<rightharpoonup> i32) \<Rightarrow> journey \<Rightarrow> i32" where
  "route_priority_sum route_priorities journey =
     wrap_i32 (sum_list (map (\<lambda>leg. case Option.bind (leg_route_id leg) route_priorities of
       Some p \<Rightarrow> p | None \<Rightarrow> 1000) (j_legs journey)))"

definition dedupe_relevant_journeys ::
  "journey list \<Rightarrow> (string \<rightharpoonup> string) \<Rightarrow> (string \<rightharpoonup> i32) \<Rightarrow> routing_algorithm_config \<Rightarrow> journey list" where
  "dedupe_relevant_journeys journeys sigs route_priorities c =
     retain_first (\<lambda>journey. visible_journey_key journey sigs) {}
       (sort_key (route_priority_sum route_priorities)
         (filter (\<lambda>journey. journey_is_relevant journey sigs c) journeys))"

section \<open>The next service day\<close>

definition SERVICE_DAY_SECONDS :: u32 where
  "SERVICE_DAY_SECONDS = 24 * 3600"

definition shift_journey_service_day :: "journey \<Rightarrow> u32 \<Rightarrow> journey" where
  "shift_journey_service_day journey offset_seconds =
     (let departure = saturating_add (j_departure_time journey) offset_seconds;
          arrival = saturating_add (j_arrival_time journey) offset_seconds
      in journey\<lparr>j_departure_time := departure, j_arrival_time := arrival,
           j_duration_seconds := saturating_sub arrival departure,
           j_labels := (if list_ex (\<lambda>label. label = ''dalsi den'') (j_labels journey) then j_labels journey
                        else j_labels journey @ [''dalsi den'']),
           j_legs := map (\<lambda>leg. leg\<lparr>leg_departure_time := saturating_add (leg_departure_time leg) offset_seconds,
                                    leg_arrival_time := saturating_add (leg_arrival_time leg) offset_seconds\<rparr>)
                       (j_legs journey)\<rparr>)"

definition next_service_day_journey_results :: "journey list \<Rightarrow> u32 \<Rightarrow> journey list" where
  "next_service_day_journey_results journeys requested_departure_time =
     map (\<lambda>journey. shift_journey_service_day journey SERVICE_DAY_SECONDS)
       (filter (\<lambda>journey. j_departure_time journey < requested_departure_time) journeys)"

section \<open>Rank and dominance\<close>

definition journey_rank :: "journey \<Rightarrow> routing_algorithm_config \<Rightarrow> u64 \<times> u32 \<times> u32 \<times> u32 \<times> u32" where
  "journey_rank journey c =
     (let score = f64_add (f64_add (f64_mul (f64_of_u32 (j_arrival_time journey)) (cfg_arrival_time_weight c))
                                   (f64_mul (f64_of_u32 (j_duration_seconds journey)) (cfg_duration_weight c)))
                          (f64_mul (f64_of_u32 (j_transfer_count journey)) (f64_of_i32 (cfg_transfer_penalty_seconds c)))
      in (f64_as_u64 (f64_max (f64_round (f64_mul score (Finite 1000))) (Finite 0)),
          j_arrival_time journey, j_duration_seconds journey, j_transfer_count journey, j_departure_time journey))"

definition time_dominates :: "journey \<Rightarrow> journey \<Rightarrow> bool" where
  "time_dominates better candidate \<longleftrightarrow>
     j_departure_time candidate \<le> j_departure_time better \<and>
     j_arrival_time better \<le> j_arrival_time candidate \<and>
     j_transfer_count better \<le> j_transfer_count candidate \<and>
     j_walking_distance_meters better \<le> j_walking_distance_meters candidate \<and>
     (j_departure_time candidate < j_departure_time better \<or>
      j_arrival_time better < j_arrival_time candidate \<or>
      j_transfer_count better < j_transfer_count candidate \<or>
      j_walking_distance_meters better < j_walking_distance_meters candidate)"

definition journey_dominates :: "journey \<Rightarrow> journey \<Rightarrow> (string \<rightharpoonup> string) \<Rightarrow> routing_algorithm_config \<Rightarrow> bool" where
  "journey_dominates better candidate carrier_keys c =
     (if cfg_dominate_only_same_carrier c \<and>
         (journey_carrier_signature better carrier_keys = None \<or>
          journey_carrier_signature better carrier_keys \<noteq> journey_carrier_signature candidate carrier_keys)
      then False
      else time_dominates better candidate)"

text \<open>The loop that keeps the best journey of each key, for the maps by carrier, route and transfers.\<close>

definition keep_better ::
  "(journey \<Rightarrow> 'k option) \<Rightarrow> routing_algorithm_config \<Rightarrow> ('k \<times> journey) list \<Rightarrow> journey \<Rightarrow> ('k \<times> journey) list" where
  "keep_better key c best journey =
     (case key journey of None \<Rightarrow> best
      | Some k \<Rightarrow>
          if (case map_of best k of None \<Rightarrow> True | Some known \<Rightarrow> journey_rank journey c < journey_rank known c)
          then AList.update k journey best else best)"

definition best_by :: "(journey \<Rightarrow> 'k option) \<Rightarrow> routing_algorithm_config \<Rightarrow> journey list \<Rightarrow> journey list" where
  "best_by key c journeys = map snd (foldl (keep_better key c) [] journeys)"

definition frontier ::
  "journey list \<Rightarrow> (string \<rightharpoonup> string) \<Rightarrow> routing_algorithm_config \<Rightarrow> journey list" where
  "frontier journeys carrier_keys c =
     filter (\<lambda>candidate. \<not> list_ex (\<lambda>other. journey_dominates other candidate carrier_keys c) journeys) journeys"

definition remove_dominated_journeys ::
  "journey list \<Rightarrow> (string \<rightharpoonup> string) \<Rightarrow> routing_algorithm_config \<Rightarrow> journey list" where
  "remove_dominated_journeys journeys carrier_keys c =
     (let time_frontier_keys = set (map journey_identity_key (frontier journeys carrier_keys c));
          counts = map j_transfer_count (filter (\<lambda>j. journey_identity_key j \<in> time_frontier_keys) journeys);
          minimum_frontier_transfers = (case min_by_key (\<lambda>n. n) counts of Some n \<Rightarrow> n | None \<Rightarrow> u32_MAX);
          fewer = filter (\<lambda>j. j_transfer_count j < minimum_frontier_transfers) journeys;
          simplest = (if cfg_preserve_simplest c
                      then (case min_by_key (\<lambda>j. (j_transfer_count j, journey_rank j c)) fewer of
                              Some j \<Rightarrow> [j] | None \<Rightarrow> []) else []);
          by_transfers = (if cfg_preserve_each_transfer_count c then best_by (\<lambda>j. Some (j_transfer_count j)) c fewer else []);
          by_carrier = (if cfg_preserve_carrier_diversity c
                        then best_by (\<lambda>j. journey_carrier_signature j carrier_keys) c journeys else []);
          exception_keys = set (map journey_identity_key (simplest @ by_transfers @ by_carrier))
      in filter (\<lambda>candidate. journey_identity_key candidate \<in> time_frontier_keys \<or>
                             journey_identity_key candidate \<in> exception_keys) journeys)"

section \<open>Choosing the results\<close>

definition evenly_spaced_journey_refs :: "journey list \<Rightarrow> usize \<Rightarrow> journey list" where
  "evenly_spaced_journey_refs journeys limit =
     (if limit = 0 then []
      else if length journeys \<le> limit then journeys
      else if limit \<le> 1 then (case journeys of [] \<Rightarrow> [] | j # _ \<Rightarrow> [j])
      else map (\<lambda>sample_index. journeys ! (sample_index * (length journeys - 1) div (limit - 1))) [0..<limit])"

definition REASONABLE_ALTERNATIVE_SLACK_SECONDS :: u32 where
  "REASONABLE_ALTERNATIVE_SLACK_SECONDS = 15 * 60"

definition reasonable_distinct_route_alternative :: "journey \<Rightarrow> journey \<Rightarrow> string \<Rightarrow> string \<Rightarrow> bool" where
  "reasonable_distinct_route_alternative candidate better candidate_route better_route \<longleftrightarrow>
     candidate_route \<noteq> better_route \<and>
     j_arrival_time candidate \<le> saturating_add (j_arrival_time better) REASONABLE_ALTERNATIVE_SLACK_SECONDS \<and>
     j_duration_seconds candidate \<le> saturating_add (j_duration_seconds better) REASONABLE_ALTERNATIVE_SLACK_SECONDS \<and>
     j_transfer_count candidate \<le> saturating_add (j_transfer_count better) 2"

definition push_ranked_journey :: "usize \<Rightarrow> journey list \<times> string set \<Rightarrow> journey \<Rightarrow> journey list \<times> string set" where
  "push_ranked_journey max_results = (\<lambda>(selected, selected_keys) journey.
     if max_results \<le> length selected then (selected, selected_keys)
     else (let key = journey_identity_key journey
           in if key \<in> selected_keys then (selected, selected_keys)
              else (selected @ [journey], insert key selected_keys)))"

abbreviation push_all :: "usize \<Rightarrow> journey list \<times> string set \<Rightarrow> journey list \<Rightarrow> journey list \<times> string set" where
  "push_all max_results \<equiv> foldl (push_ranked_journey max_results)"

definition simplicity :: "journey \<Rightarrow> u32 \<times> u32 \<times> u32 \<times> u32 \<times> u32" where
  "simplicity j = (j_transfer_count j, j_walking_distance_meters j, j_arrival_time j,
                   j_duration_seconds j, j_departure_time j)"

definition ranked_candidates ::
  "journey list \<Rightarrow> (string \<rightharpoonup> string) \<Rightarrow> routing_algorithm_config \<Rightarrow> journey list" where
  "ranked_candidates journeys carrier_keys c =
     (let journeys = (if cfg_remove_dominated c then remove_dominated_journeys journeys carrier_keys c else journeys)
      in retain_first journey_identity_key {} (sort_key (\<lambda>j. journey_rank j c) journeys))"

definition simplest_picks :: "routing_algorithm_config \<Rightarrow> journey list \<Rightarrow> journey list" where
  "simplest_picks c candidates =
     (if cfg_preserve_simplest c
      then (case min_by_key simplicity candidates of Some j \<Rightarrow> [j] | None \<Rightarrow> []) else [])"

definition transfer_count_picks :: "routing_algorithm_config \<Rightarrow> journey list \<Rightarrow> journey list" where
  "transfer_count_picks c candidates =
     (if \<not> cfg_preserve_each_transfer_count c then []
      else concat (map (\<lambda>n. case min_by_key (\<lambda>j. journey_rank j c)
                                   (filter (\<lambda>j. j_transfer_count j = n) candidates) of Some j \<Rightarrow> [j] | None \<Rightarrow> [])
             (remdups_adj (sort (map j_transfer_count candidates)))))"

definition alternative_slot_limit :: "usize \<Rightarrow> usize" where
  "alternative_slot_limit max_results = max 1 (min 4 ((max_results + 2) div 3))"

definition carrier_picks ::
  "(journey list \<Rightarrow> journey list) \<Rightarrow> (string \<rightharpoonup> string) \<Rightarrow> routing_algorithm_config \<Rightarrow> usize \<Rightarrow> journey list \<Rightarrow> journey list" where
  "carrier_picks hash_order carrier_keys c max_results candidates =
     (if \<not> cfg_preserve_carrier_diversity c then []
      else take (alternative_slot_limit max_results)
             (sort_key (\<lambda>j. journey_rank j c)
               (hash_order (best_by (\<lambda>j. journey_carrier_signature j carrier_keys) c candidates))))"

text \<open>\<open>selected\<close> is what has been chosen when the alternatives by route are considered.\<close>

definition route_picks ::
  "(journey list \<Rightarrow> journey list) \<Rightarrow> routing_algorithm_config \<Rightarrow> usize \<Rightarrow> journey list \<Rightarrow> journey list \<Rightarrow> journey list" where
  "route_picks hash_order c max_results candidates selected =
     (case min_by_key (\<lambda>j. (j_arrival_time j, j_transfer_count j)) candidates of
        None \<Rightarrow> []
      | Some fastest \<Rightarrow>
          (let fastest_route = journey_route_signature fastest;
               key = (\<lambda>j. let signature = journey_route_signature j
                          in if signature \<noteq> fastest_route \<and>
                                \<not> reasonable_distinct_route_alternative j fastest signature fastest_route
                             then None else Some signature);
               route_candidates = sort_key (\<lambda>j. journey_rank j c) (hash_order (best_by key c candidates));
               selected_routes = map journey_route_signature selected
           in if cfg_preserve_simplest c \<or> cfg_preserve_each_transfer_count c
              then take (alternative_slot_limit max_results)
                     (filter (\<lambda>j. journey_route_signature j \<notin> set selected_routes) route_candidates)
              else []))"

definition frontier_picks ::
  "(string \<rightharpoonup> string) \<Rightarrow> routing_algorithm_config \<Rightarrow> usize \<Rightarrow> journey list \<Rightarrow> journey list \<times> string set \<Rightarrow> journey list" where
  "frontier_picks carrier_keys c max_results candidates = (\<lambda>(selected, selected_keys).
     (let time_frontier = sort_key (\<lambda>j. (j_departure_time j, j_arrival_time j, j_transfer_count j,
                                         j_walking_distance_meters j, j_duration_seconds j))
                            (frontier candidates carrier_keys c);
          reserved = length (filter (\<lambda>j. journey_identity_key j \<in> selected_keys) time_frontier);
          remaining_slots = max_results - length selected;
          sampled = filter (\<lambda>j. journey_identity_key j \<notin> selected_keys)
                      (evenly_spaced_journey_refs time_frontier (min usize_MAX (remaining_slots + reserved)))
      in evenly_spaced_journey_refs sampled remaining_slots))"

definition select_results ::
  "(journey list \<Rightarrow> journey list) \<Rightarrow> (string \<rightharpoonup> string) \<Rightarrow> routing_algorithm_config \<Rightarrow> journey list \<Rightarrow> journey list" where
  "select_results hash_order carrier_keys c candidates =
     (let max_results = usize_of_i32 (cfg_max_results c);
          st = push_ranked_journey max_results ([], {}) (hd candidates);
          st = push_all max_results st (simplest_picks c candidates);
          st = push_all max_results st (transfer_count_picks c candidates);
          st = push_all max_results st (carrier_picks hash_order carrier_keys c max_results candidates);
          st = push_all max_results st (route_picks hash_order c max_results candidates (fst st));
          st = push_all max_results st (frontier_picks carrier_keys c max_results candidates st)
      in fst (push_all max_results st candidates))"

definition label_result :: "string option \<Rightarrow> string option \<Rightarrow> usize \<times> journey \<Rightarrow> journey" where
  "label_result fastest_key simplest_key = (\<lambda>(index, journey).
     (let journey = journey\<lparr>j_id := ''journey-'' @ show_nat (index + 1)\<rparr>;
          labels = filter (\<lambda>label. label \<noteq> ''doporuceno'' \<and> label \<noteq> ''nejrychlejsi'' \<and> label \<noteq> ''nejjednodussi'')
                     (j_labels journey);
          labels = labels @ (if index = 0 then [''doporuceno''] else []);
          labels = labels @ (if fastest_key = Some (journey_identity_key journey) then [''nejrychlejsi''] else []);
          labels = labels @ (if simplest_key = Some (journey_identity_key journey) then [''nejjednodussi''] else [])
      in journey\<lparr>j_labels := labels\<rparr>))"

definition ranked_journey_results_with_carriers ::
  "(journey list \<Rightarrow> journey list) \<Rightarrow> journey list \<Rightarrow> (string \<rightharpoonup> string) \<Rightarrow> routing_algorithm_config \<Rightarrow> journey list" where
  "ranked_journey_results_with_carriers hash_order journeys carrier_keys c =
     (let candidates = ranked_candidates journeys carrier_keys c
      in if candidates = [] then []
         else (let selected = select_results hash_order carrier_keys c candidates;
                   simplest_key = map_option journey_identity_key (min_by_key simplicity selected);
                   fastest_key = map_option journey_identity_key
                     (min_by_key (\<lambda>j. (j_arrival_time j, j_duration_seconds j, j_transfer_count j, j_departure_time j)) selected)
               in map (label_result fastest_key simplest_key)
                    (enumerate 0 (sort_key (\<lambda>j. journey_rank j c) selected))))"

end
