(* ===== verification/Ranking_Props.thy ===== *)
theory Ranking_Props
  imports Journey_Ranking "HOL-Library.Sublist"
begin

text \<open>
  Properties of the treatment of found journeys: what the plausibility filter and the merge let
  through, dominance as a strict order and what removing dominated journeys keeps, the agreement of
  rank and dominance, and the list of results.
\<close>

section \<open>Plausible journeys\<close>

text \<open>The filter as one declarative condition on the legs.\<close>

definition leg_is_plausible :: "(string \<rightharpoonup> string) \<Rightarrow> journey_leg \<Rightarrow> bool" where
  "leg_is_plausible sigs leg \<longleftrightarrow>
     leg_departure_time leg \<le> leg_arrival_time leg \<and>
     (is_walking_leg leg \<or> stop_signature (leg_from_stop_id leg) sigs \<noteq> stop_signature (leg_to_stop_id leg) sigs)"

definition legs_meet :: "(string \<rightharpoonup> string) \<Rightarrow> routing_algorithm_config \<Rightarrow> journey_leg \<Rightarrow> journey_leg \<Rightarrow> bool" where
  "legs_meet sigs c leg next_leg \<longleftrightarrow>
     leg_arrival_time leg \<le> leg_departure_time next_leg \<and>
     stop_signature (leg_to_stop_id leg) sigs = stop_signature (leg_from_stop_id next_leg) sigs \<and>
     leg_departure_time next_leg - leg_arrival_time leg \<le> of_int (max 0 (cfg_max_transfer_wait_seconds c)) \<and>
     (is_walking_leg leg \<or> is_walking_leg next_leg \<or>
      of_int (max 0 (cfg_min_transfer_seconds c)) \<le> leg_departure_time next_leg - leg_arrival_time leg \<or>
      (\<exists>w \<in> {''official_minimum_change_time'', ''realtime_routing_applied''}.
         w \<in> set (leg_warnings next_leg) \<union> set (leg_warnings leg)))"

definition trip_ids :: "journey_leg list \<Rightarrow> string list" where
  "trip_ids legs = List.map_filter leg_trip_id legs"

definition consistent_times :: "journey \<Rightarrow> bool" where
  "consistent_times j \<longleftrightarrow> j_legs j \<noteq> [] \<and> leg_departure_time (hd (j_legs j)) = j_departure_time j \<and>
     leg_arrival_time (last (j_legs j)) = j_arrival_time j \<and> j_departure_time j \<le> j_arrival_time j \<and>
     j_duration_seconds j = j_arrival_time j - j_departure_time j"

definition plausible_journey :: "(string \<rightharpoonup> string) \<Rightarrow> routing_algorithm_config \<Rightarrow> journey \<Rightarrow> bool" where
  "plausible_journey sigs c j \<longleftrightarrow> consistent_times j \<and> (\<forall>leg \<in> set (j_legs j). leg_is_plausible sigs leg) \<and>
     successively (legs_meet sigs c) (j_legs j) \<and> distinct (trip_ids (j_legs j))"

lemma legs_meet_iff:
  "legs_meet sigs c leg next_leg \<longleftrightarrow>
     \<not> (leg_departure_time next_leg < leg_arrival_time leg \<or>
        stop_signature (leg_to_stop_id leg) sigs \<noteq> stop_signature (leg_from_stop_id next_leg) sigs \<or>
        \<not> change_is_plausible c leg next_leg)"
  by (auto simp: legs_meet_def change_is_plausible_def Let_def not_less saturating_sub_def list_ex_iff)

lemma trip_ids_simps [simp]:
  "trip_ids [] = []"
  "trip_ids (leg # legs) = (case leg_trip_id leg of Some t \<Rightarrow> t # trip_ids legs | None \<Rightarrow> trip_ids legs)"
  by (simp_all add: trip_ids_def List.map_filter_simps split: option.split)

lemma legs_are_plausible_iff:
  "legs_are_plausible sigs c seen legs \<longleftrightarrow>
     (\<forall>leg \<in> set legs. leg_is_plausible sigs leg) \<and> successively (legs_meet sigs c) legs \<and>
     distinct (trip_ids legs) \<and> set (trip_ids legs) \<inter> seen = {}"
proof (induction legs arbitrary: seen)
  case (Cons leg rest)
  define meets where "meets \<longleftrightarrow> (case rest of [] \<Rightarrow> True | n # _ \<Rightarrow> legs_meet sigs c leg n)"
  define new where "new \<longleftrightarrow> (case leg_trip_id leg of Some t \<Rightarrow> t \<notin> seen | None \<Rightarrow> True)"
  define seen' where "seen' = (case leg_trip_id leg of Some t \<Rightarrow> insert t seen | None \<Rightarrow> seen)"
  have step: "legs_are_plausible sigs c seen (leg # rest) \<longleftrightarrow>
      leg_is_plausible sigs leg \<and> new \<and> meets \<and> legs_are_plausible sigs c seen' rest"
    unfolding legs_are_plausible.simps(2) leg_is_plausible_def meets_def new_def seen'_def legs_meet_iff
    by (cases rest; cases "leg_trip_id leg") (simp_all only: list.case option.case if_True if_False not_less HOL.simp_thms de_Morgan_disj not_not if_bool_eq_conj; blast)+
  have succ: "successively (legs_meet sigs c) (leg # rest) \<longleftrightarrow> meets \<and> successively (legs_meet sigs c) rest"
    by (cases rest) (auto simp: meets_def)
  have ids: "distinct (trip_ids (leg # rest)) \<and> set (trip_ids (leg # rest)) \<inter> seen = {} \<longleftrightarrow>
      new \<and> distinct (trip_ids rest) \<and> set (trip_ids rest) \<inter> seen' = {}"
    by (auto simp: new_def seen'_def split: option.splits)
  show ?case
    unfolding step succ Cons.IH [of seen'] using ids by auto
qed simp

lemma journey_is_relevant_iff: "journey_is_relevant j sigs c \<longleftrightarrow> plausible_journey sigs c j"
  by (auto simp: journey_is_relevant_def plausible_journey_def consistent_times_def legs_are_plausible_iff)

lemma retain_first_distinct: "distinct (map f (retain_first f seen xs)) \<and> set (map f (retain_first f seen xs)) \<inter> seen = {}"
  by (induction f seen xs rule: retain_first.induct) auto

lemma retain_first_keys: "f ` set (retain_first f seen xs) = f ` set xs - seen"
  by (induction f seen xs rule: retain_first.induct) auto

text \<open>\<open>dedupe_relevant_journeys\<close> returns exactly one journey for every visible key that some plausible
  input has, and only plausible ones: legs that start and end with the journey, run forward in time,
  meet at the same place, keep the configured waiting and change times and never use a trip twice.
  Of the journeys with one key it keeps one with the smallest route priority, and the result is
  ordered by that priority.
\<close>

theorem dedupe_relevant_journeys_correct:
  "(\<forall>j \<in> set (dedupe_relevant_journeys js sigs prio c). j \<in> set js \<and> plausible_journey sigs c j) \<and>
   distinct (map (\<lambda>j. visible_journey_key j sigs) (dedupe_relevant_journeys js sigs prio c)) \<and>
   (\<forall>j \<in> set js. plausible_journey sigs c j \<longrightarrow>
      (\<exists>k \<in> set (dedupe_relevant_journeys js sigs prio c).
         visible_journey_key k sigs = visible_journey_key j sigs \<and>
         route_priority_sum prio k \<le> route_priority_sum prio j)) \<and>
   sorted (map (route_priority_sum prio) (dedupe_relevant_journeys js sigs prio c))"
proof (intro conjI)
  let ?f = "\<lambda>j. visible_journey_key j sigs" and ?s = "sort_key (route_priority_sum prio) (filter (\<lambda>j. journey_is_relevant j sigs c) js)"
  note d = dedupe_relevant_journeys_def
  show "\<forall>j \<in> set (dedupe_relevant_journeys js sigs prio c). j \<in> set js \<and> plausible_journey sigs c j"
    using retain_first_subset [of ?f "{}" ?s] by (auto simp: d journey_is_relevant_iff)
  show "distinct (map ?f (dedupe_relevant_journeys js sigs prio c))"
    unfolding d using retain_first_distinct by blast
  show "\<forall>j \<in> set js. plausible_journey sigs c j \<longrightarrow>
      (\<exists>k \<in> set (dedupe_relevant_journeys js sigs prio c).
         ?f k = ?f j \<and> route_priority_sum prio k \<le> route_priority_sum prio j)"
  proof (intro ballI impI)
    fix j assume "j \<in> set js" and "plausible_journey sigs c j"
    then have "j \<in> set ?s" by (simp add: journey_is_relevant_iff)
    then show "\<exists>k \<in> set (dedupe_relevant_journeys js sigs prio c).
         ?f k = ?f j \<and> route_priority_sum prio k \<le> route_priority_sum prio j"
      unfolding d by (intro retain_first_keeps) simp_all
  qed
  show "sorted (map (route_priority_sum prio) (dedupe_relevant_journeys js sigs prio c))"
    using retain_first_sorted [OF sorted_sort_key [unfolded sorted_map]] by (simp only: d sorted_map)
qed

section \<open>Dominance\<close>

lemma time_dominates_irrefl [simp]: "\<not> time_dominates j j"
  by (simp add: time_dominates_def)

lemma journey_dominates_irrefl [simp]: "\<not> journey_dominates j j carrier_keys c"
  by (simp add: journey_dominates_def)

definition badness :: "journey \<Rightarrow> nat" where
  "badness j = (2 ^ 32 - unat (j_departure_time j)) + unat (j_arrival_time j) + unat (j_transfer_count j) +
     unat (j_walking_distance_meters j)"

text \<open>A number that strictly decreases along dominance.\<close>

definition no_worse :: "journey \<Rightarrow> journey \<Rightarrow> bool" where
  "no_worse better candidate \<longleftrightarrow>
     j_departure_time candidate \<le> j_departure_time better \<and> j_arrival_time better \<le> j_arrival_time candidate \<and>
     j_transfer_count better \<le> j_transfer_count candidate \<and>
     j_walking_distance_meters better \<le> j_walking_distance_meters candidate"

lemma time_dominates_badness: "time_dominates a b \<Longrightarrow> badness a < badness b"
  using unat_u32_bound [of "j_departure_time a"] unat_u32_bound [of "j_departure_time b"]
  unfolding time_dominates_def badness_def word_le_nat_alt word_less_nat_alt by linarith

lemma time_dominates_iff: "time_dominates a b \<longleftrightarrow> no_worse a b \<and> badness a < badness b"
proof
  assume "no_worse a b \<and> badness a < badness b"
  then show "time_dominates a b"
    unfolding no_worse_def time_dominates_def badness_def word_le_nat_alt word_less_nat_alt by linarith
qed (use time_dominates_badness in \<open>auto simp: time_dominates_def no_worse_def\<close>)

lemma no_worse_trans: "no_worse a b \<Longrightarrow> no_worse b c \<Longrightarrow> no_worse a c"
  by (auto simp: no_worse_def)

lemma time_dominates_trans: "time_dominates a b \<Longrightarrow> time_dominates b c \<Longrightarrow> time_dominates a c"
  unfolding time_dominates_iff using no_worse_trans less_trans by blast

lemma journey_dominates_trans:
  "journey_dominates x y carrier_keys c \<Longrightarrow> journey_dominates y z carrier_keys c \<Longrightarrow> journey_dominates x z carrier_keys c"
  using time_dominates_trans [of x y z] unfolding journey_dominates_def
  by (cases "cfg_dominate_only_same_carrier c"; cases "journey_carrier_signature z carrier_keys") (simp_all split: if_splits)

lemma journey_dominates_time: "journey_dominates a b carrier_keys c \<Longrightarrow> time_dominates a b"
  by (simp add: journey_dominates_def split: if_splits)

lemma in_frontier:
  "j \<in> set (frontier js carrier_keys c) \<longleftrightarrow> j \<in> set js \<and> (\<forall>k \<in> set js. \<not> journey_dominates k j carrier_keys c)"
  by (auto simp: frontier_def list_ex_iff)

text \<open>Every dominated journey is dominated by one on the frontier.\<close>

lemma frontier_dominates:
  assumes "j \<in> set js" and "j \<notin> set (frontier js carrier_keys c)"
  shows "\<exists>k \<in> set (frontier js carrier_keys c). journey_dominates k j carrier_keys c"
  using assms
proof (induction "badness j" arbitrary: j rule: less_induct)
  case less
  then obtain k where k: "k \<in> set js" "journey_dominates k j carrier_keys c" by (auto simp: in_frontier)
  show ?case
  proof (cases "k \<in> set (frontier js carrier_keys c)")
    case False
    from less.hyps [OF _ k(1) False] time_dominates_badness [OF journey_dominates_time [OF k(2)]]
    obtain l where "l \<in> set (frontier js carrier_keys c)" "journey_dominates l k carrier_keys c" by blast
    with k(2) show ?thesis by (blast intro: journey_dominates_trans)
  qed (use k in blast)
qed

lemma remove_dominated_filter:
  "\<exists>P. remove_dominated_journeys js carrier_keys c =
     filter (\<lambda>j. journey_identity_key j \<in> set (map journey_identity_key (frontier js carrier_keys c)) \<or> P j) js"
  unfolding remove_dominated_journeys_def Let_def by (intro exI) (rule refl)

lemma frontier_kept: "set (frontier js carrier_keys c) \<subseteq> set (remove_dominated_journeys js carrier_keys c)"
  using remove_dominated_filter [of js carrier_keys c] by (auto simp: in_frontier)

lemma remove_dominated_subset: "set (remove_dominated_journeys js carrier_keys c) \<subseteq> set js"
  using remove_dominated_filter [of js carrier_keys c] by auto

text \<open>C23: Dominance is a strict partial order (also when it is limited to one carrier). Removing the
  dominated journeys keeps the order of the list and every journey that no other dominates, and
  whatever it drops is dominated by a journey that it keeps; with the exceptions for simplicity,
  transfer counts and carriers switched off, nothing is kept unless it looks like such a journey.
\<close>

theorem remove_dominated_journeys_correct:
  "\<not> journey_dominates a a carrier_keys c \<and>
   (journey_dominates a b carrier_keys c \<longrightarrow> journey_dominates b d carrier_keys c \<longrightarrow> journey_dominates a d carrier_keys c) \<and>
   subseq (remove_dominated_journeys js carrier_keys c) js \<and>
   set (frontier js carrier_keys c) \<subseteq> set (remove_dominated_journeys js carrier_keys c) \<and>
   (\<forall>j \<in> set js. j \<notin> set (remove_dominated_journeys js carrier_keys c) \<longrightarrow>
      (\<exists>k \<in> set (remove_dominated_journeys js carrier_keys c). journey_dominates k j carrier_keys c)) \<and>
   (\<not> cfg_preserve_simplest c \<and> \<not> cfg_preserve_each_transfer_count c \<and> \<not> cfg_preserve_carrier_diversity c \<longrightarrow>
      journey_identity_key ` set (remove_dominated_journeys js carrier_keys c) =
      journey_identity_key ` set (frontier js carrier_keys c))"
proof (intro conjI)
  show "journey_dominates a b carrier_keys c \<longrightarrow> journey_dominates b d carrier_keys c \<longrightarrow> journey_dominates a d carrier_keys c"
    by (blast intro: journey_dominates_trans)
  show "subseq (remove_dominated_journeys js carrier_keys c) js"
    using remove_dominated_filter [of js carrier_keys c] by (auto intro: subseq_filter_left)
  show "\<forall>j \<in> set js. j \<notin> set (remove_dominated_journeys js carrier_keys c) \<longrightarrow>
      (\<exists>k \<in> set (remove_dominated_journeys js carrier_keys c). journey_dominates k j carrier_keys c)"
    using frontier_dominates [of _ js carrier_keys c] frontier_kept [of js carrier_keys c] by blast
  show "\<not> cfg_preserve_simplest c \<and> \<not> cfg_preserve_each_transfer_count c \<and> \<not> cfg_preserve_carrier_diversity c \<longrightarrow>
      journey_identity_key ` set (remove_dominated_journeys js carrier_keys c) =
      journey_identity_key ` set (frontier js carrier_keys c)"
    by (auto simp: remove_dominated_journeys_def Let_def in_frontier)
qed (use frontier_kept in auto)

section \<open>Rank agrees with dominance\<close>

lemma f64_le_zero_Finite: "f64_le (Finite 0) x \<longleftrightarrow> x = Infinity \<or> (\<exists>r \<ge> 0. x = Finite r)"
  by (cases x) auto

lemma f64_of_real_nonneg: "0 \<le> x \<Longrightarrow> f64_le (Finite 0) (f64_of_real x)"
  using round_positive_nonneg [of x] by (auto simp: f64_of_real_def Let_def)

lemma f64_le_trans: "f64_le a b \<Longrightarrow> f64_le b c \<Longrightarrow> f64_le a c"
  by (cases a; cases b; cases c) auto

lemma f64_of_real_not_NaN [simp]: "f64_of_real x \<noteq> NaN" "f64_le (f64_of_real x) Infinity"
  by (simp_all add: f64_of_real_def Let_def)

lemma f64_add_mono:
  assumes "f64_le (Finite 0) a" "f64_le a b" "f64_le (Finite 0) c" "f64_le c d"
  shows "f64_le (f64_add a c) (f64_add b d)" and "f64_le (Finite 0) (f64_add a c)"
proof -
  show "f64_le (f64_add a c) (f64_add b d)"
    using assms by (cases a; cases b; cases c; cases d)
      (auto intro!: f64_of_real_mono simp: f64_le_zero_Finite)
  show "f64_le (Finite 0) (f64_add a c)"
    using assms(1,3) by (cases a; cases c) (auto intro: f64_of_real_nonneg)
qed

lemma f64_mul_mono:
  assumes "0 \<le> a" "a \<le> b" "0 \<le> w"
  shows "f64_le (f64_mul (Finite a) (Finite w)) (f64_mul (Finite b) (Finite w))"
    and "f64_le (Finite 0) (f64_mul (Finite a) (Finite w))"
  using assms by (auto intro!: f64_of_real_mono f64_of_real_nonneg mult_right_mono)

lemma f64_as_u64_score_mono:
  assumes "f64_le (Finite 0) a" "f64_le a b"
  shows "f64_as_u64 (f64_max (f64_round (f64_mul a (Finite 1000))) (Finite 0))
      \<le> f64_as_u64 (f64_max (f64_round (f64_mul b (Finite 1000))) (Finite 0))"
proof -
  have top: "(w :: u64) \<le> - 1" for w using word_order.extremum by blast
  have pos: "f64_max (f64_round (f64_of_real (r * 1000))) (Finite 0) = f64_round (f64_of_real (r * 1000))"
    if "0 \<le> r" for r
    using f64_of_real_nonneg [of "r * 1000"] that
    by (auto simp: f64_le_zero_Finite f64_max_def floor_eq_iff)
  show ?thesis
  proof (cases "b = Infinity")
    case True
    then show ?thesis by (simp add: f64_max_def top)
  next
    case False
    with assms obtain r s where rs: "a = Finite r" "b = Finite s" "0 \<le> r" "r \<le> s"
      by (cases a; cases b) auto
    then have le: "f64_le (f64_of_real (r * 1000)) (f64_of_real (s * 1000))"
      by (intro f64_of_real_mono) auto
    have "f64_le (Finite 0) (f64_of_real (r * 1000))" using rs by (intro f64_of_real_nonneg) simp
    with le have "f64_as_u64 (f64_round (f64_of_real (r * 1000))) \<le> f64_as_u64 (f64_round (f64_of_real (s * 1000)))"
      by (cases "f64_of_real (r * 1000)"; cases "f64_of_real (s * 1000)")
        (auto simp: top simp del: f64_as_u64.simps(1) intro!: f64_as_u64_mono floor_mono)
    with rs pos show ?thesis by simp
  qed
qed

lemma journey_rank_mono:
  assumes "valid_routing_config c"
    and "consistent_times x" "consistent_times y" "time_dominates x y"
  shows "journey_rank x c \<le> journey_rank y c"
proof -
  obtain wa wd where w: "cfg_arrival_time_weight c = Finite wa" "cfg_duration_weight c = Finite wd"
      "0 \<le> wa" "0 \<le> wd" and p: "0 \<le> cfg_transfer_penalty_seconds c"
    using assms(1) by (auto simp: valid_routing_config_def)
  have arr: "j_arrival_time x \<le> j_arrival_time y" and dep: "j_departure_time y \<le> j_departure_time x"
    and tc: "j_transfer_count x \<le> j_transfer_count y"
    using assms(4) by (auto simp: time_dominates_def)
  have u: "unat (j_duration_seconds j) = unat (j_arrival_time j) - unat (j_departure_time j)"
      "unat (j_departure_time j) \<le> unat (j_arrival_time j)" if "consistent_times j" for j
    using that by (auto simp: consistent_times_def unat_sub word_le_nat_alt)
  have dur: "j_duration_seconds x \<le> j_duration_seconds y"
    using u [OF assms(2)] u [OF assms(3)] arr dep by (simp add: word_le_nat_alt)
  have same: "j_departure_time x = j_departure_time y"
    if "j_arrival_time x = j_arrival_time y" "j_duration_seconds x = j_duration_seconds y"
    using that u [OF assms(2)] u [OF assms(3)] by (metis diff_diff_cancel word_unat_eq_iff)
  define part where "part = (\<lambda>n w. f64_mul (f64_of_u32 n) w)"
  have t: "f64_le (Finite 0) (part m (Finite w))" "f64_le (part m (Finite w)) (part n (Finite w))"
    if "0 \<le> w" "m \<le> n" for m n w
    using f64_mul_mono [of "real (unat m)" "real (unat n)" w] that
    by (auto simp: part_def f64_of_u32_def word_le_nat_alt simp del: f64_mul.simps of_nat_unat)
  define score :: "journey \<Rightarrow> f64" where "score = (\<lambda>j. f64_add (f64_add (part (j_arrival_time j) (Finite wa)) (part (j_duration_seconds j) (Finite wd)))
      (part (j_transfer_count j) (Finite (of_int (cfg_transfer_penalty_seconds c)))))"
  have p': "0 \<le> real_of_int (cfg_transfer_penalty_seconds c)" using p by simp
  note a = t [OF w(3) arr] and d = t [OF w(4) dur] and k = t [OF p' tc]
  note ad = f64_add_mono [OF a d]
  have "f64_le (Finite 0) (score x)" "f64_le (score x) (score y)"
    unfolding score_def using f64_add_mono [OF ad(2,1) k] by blast+
  from f64_as_u64_score_mono [OF this] arr dur tc same show ?thesis
    by (auto simp: journey_rank_def Let_def w score_def part_def f64_of_i32_def less_eq_prod_def
        order_le_less)
qed

end
