(* ===== verification/Ranking_Results.thy ===== *)
theory Ranking_Results
  imports Ranking_Props
begin

text \<open>
  Properties of the list of results, of the prefix search pattern and of the shift to the next
  service day.
\<close>

section \<open>Sampling\<close>

lemma evenly_spaced_subset: "set (evenly_spaced_journey_refs js limit) \<subseteq> set js"
proof (cases "length js \<le> limit \<or> limit \<le> 1")
  case True
  then show ?thesis by (auto simp: evenly_spaced_journey_refs_def split: list.splits)
next
  case False
  have "i * (length js - 1) div (limit - 1) < length js" if "i < limit" for i
  proof -
    have "i * (length js - 1) \<le> (limit - 1) * (length js - 1)" using that by (intro mult_le_mono1) simp
    then have "i * (length js - 1) div (limit - 1) \<le> length js - 1"
      using div_le_mono [of "i * (length js - 1)" _ "limit - 1"] False by fastforce
    then show ?thesis using False by (cases js) auto
  qed
  with False show ?thesis by (auto simp: evenly_spaced_journey_refs_def)
qed

lemma best_by_subset: "set (best_by key c js) \<subseteq> set js"
proof -
  have "snd ` set (foldl (keep_better key c) acc js) \<subseteq> snd ` set acc \<union> set js" for acc
  proof (induction js arbitrary: acc)
    case (Cons j js)
    have "snd ` set (AList.update k j acc) \<subseteq> insert j (snd ` set acc)" for k
      using in_update by fastforce
    then have "snd ` set (keep_better key c acc j) \<subseteq> insert j (snd ` set acc)"
      by (auto simp: keep_better_def split: option.splits if_splits)
    with Cons.IH [of "keep_better key c acc j"] show ?case by auto
  qed simp
  from this [of "[]"] show ?thesis by (auto simp: best_by_def)
qed

section \<open>Choosing results\<close>

text \<open>The state of the selection: distinct candidates with their keys, never more than the limit.\<close>

definition selection_ok :: "usize \<Rightarrow> journey list \<Rightarrow> journey list \<times> string set \<Rightarrow> bool" where
  "selection_ok m candidates st \<longleftrightarrow> set (fst st) \<subseteq> set candidates \<and> length (fst st) \<le> m \<and>
     snd st = journey_identity_key ` set (fst st) \<and> distinct (map journey_identity_key (fst st))"

lemma push_ok:
  assumes "selection_ok m cands st" and "j \<in> set cands"
  shows "selection_ok m cands (push_ranked_journey m st j)"
    and "set (fst st) \<subseteq> set (fst (push_ranked_journey m st j))"
    and "length (fst (push_ranked_journey m st j)) = m \<or>
         journey_identity_key j \<in> snd (push_ranked_journey m st j)"
  using assms by (cases st; auto simp: selection_ok_def push_ranked_journey_def Let_def)+

lemma push_all_ok:
  assumes "selection_ok m cands st" and "set js \<subseteq> set cands"
  shows "selection_ok m cands (push_all m st js)" and "set (fst st) \<subseteq> set (fst (push_all m st js))"
  using assms
proof (induction js arbitrary: st)
  case (Cons j js)
  { case 1 then show ?case using Cons.IH(1) [of "push_ranked_journey m st j"] push_ok(1) by simp }
  { case 2 then show ?case
      using Cons.IH(2) [of "push_ranked_journey m st j"] push_ok(1,2) [of m cands st j] by auto }
qed simp_all

lemma push_all_full:
  assumes "selection_ok m cands st" and "set js \<subseteq> set cands" and "j \<in> set js"
  shows "length (fst (push_all m st js)) = m \<or> journey_identity_key j \<in> snd (push_all m st js)"
  using assms
proof (induction js arbitrary: st)
  case (Cons k js)
  let ?st = "push_ranked_journey m st k"
  have ok: "selection_ok m cands ?st" using Cons.prems push_ok(1) by simp
  have full: "push_all m s js = s" if "length (fst s) = m" for s js
    using that by (induction js) (simp_all add: push_ranked_journey_def case_prod_beta)
  show ?case
  proof (cases "j = k")
    case True
    from push_ok(3) [of m cands st k] Cons.prems consider "length (fst ?st) = m" | "journey_identity_key k \<in> snd ?st"
      by auto
    then show ?thesis
    proof cases
      case 2
      have "snd ?st \<subseteq> snd (push_all m ?st js)"
        using push_all_ok [OF ok, of js] ok Cons.prems(2) by (auto simp: selection_ok_def)
      with 2 True show ?thesis by auto
    qed (simp add: full)
  qed (use Cons.IH [OF ok] Cons.prems in auto)
qed simp

lemma distinct_subset_all:
  assumes "distinct (map f xs)" "distinct (map f ys)" "set ys \<subseteq> set xs" "f ` set xs \<subseteq> f ` set ys"
  shows "length ys = length xs"
proof -
  have "length ys = card (f ` set ys)" using distinct_card [OF assms(2)] by simp
  moreover have "length xs = card (f ` set xs)" using distinct_card [OF assms(1)] by simp
  moreover have "f ` set ys = f ` set xs" using assms(3,4) by blast
  ultimately show ?thesis by simp
qed

lemma picks_subset:
  assumes hash: "\<And>xs. set (hash_order xs) = set xs"
  shows "set (simplest_picks c cands) \<subseteq> set cands" and "set (transfer_count_picks c cands) \<subseteq> set cands"
    and "set (carrier_picks hash_order keys c m cands) \<subseteq> set cands"
    and "set (route_picks hash_order c m cands sel) \<subseteq> set cands"
    and "set (frontier_picks keys c m cands st) \<subseteq> set cands"
proof -
  show "set (simplest_picks c cands) \<subseteq> set cands"
    using min_by_key_Some(1) [of simplicity cands]
    by (cases "cfg_preserve_simplest c"; cases "min_by_key simplicity cands") (simp_all add: simplest_picks_def)
  show "set (transfer_count_picks c cands) \<subseteq> set cands"
    by (auto simp: transfer_count_picks_def dest: min_by_key_Some(1) [OF sym] split: option.splits)
  show "set (carrier_picks hash_order keys c m cands) \<subseteq> set cands"
    by (auto simp: carrier_picks_def hash dest!: in_set_takeD set_mp [OF best_by_subset])
  show "set (route_picks hash_order c m cands sel) \<subseteq> set cands"
    using best_by_subset unfolding route_picks_def Let_def
    by (fastforce simp: hash dest!: in_set_takeD split: option.splits if_splits)
  show "set (frontier_picks keys c m cands st) \<subseteq> set cands"
    by (cases st) (auto simp: frontier_picks_def Let_def in_frontier dest!: set_mp [OF evenly_spaced_subset])
qed

lemma select_results_ok:
  fixes c :: routing_algorithm_config and keys :: "string \<rightharpoonup> string"
  assumes hash: "\<And>xs. set (hash_order xs) = set xs"
    and cands: "cands \<noteq> []" "distinct (map journey_identity_key cands)"
  defines "m \<equiv> usize_of_i32 (cfg_max_results c)"
  defines "sel \<equiv> select_results hash_order keys c cands"
  shows "set sel \<subseteq> set cands" and "distinct (map journey_identity_key sel)"
    and "length sel = min m (length cands)" and "0 < m \<Longrightarrow> hd cands \<in> set sel"
proof -
  note sub = picks_subset [OF hash]
  define s0 where "s0 = push_ranked_journey m ([], {}) (hd cands)"
  define s1 where "s1 = push_all m s0 (simplest_picks c cands)"
  define s2 where "s2 = push_all m s1 (transfer_count_picks c cands)"
  define s3 where "s3 = push_all m s2 (carrier_picks hash_order keys c m cands)"
  define s4 where "s4 = push_all m s3 (route_picks hash_order c m cands (fst s3))"
  define s5 where "s5 = push_all m s4 (frontier_picks keys c m cands s4)"
  define s6 where "s6 = push_all m s5 cands"
  have sel: "sel = fst s6"
    by (simp add: sel_def select_results_def Let_def m_def s0_def s1_def s2_def s3_def s4_def s5_def s6_def)
  have e: "selection_ok m cands ([], {})" by (simp add: selection_ok_def)
  have "hd cands \<in> set cands" using cands(1) by simp
  note o0 = push_ok(1) [OF e this, folded s0_def]
  note o1 = push_all_ok [OF o0 sub(1) [of c], folded s1_def]
  note o2 = push_all_ok [OF o1(1) sub(2) [of c], folded s2_def]
  note o3 = push_all_ok [OF o2(1) sub(3) [of keys c m], folded s3_def]
  note o4 = push_all_ok [OF o3(1) sub(4) [of c m _ "fst s3"], folded s4_def]
  note o5 = push_all_ok [OF o4(1) sub(5) [of keys c m _ s4], folded s5_def]
  note o6 = push_all_ok [OF o5(1) subset_refl, folded s6_def]
  show "set sel \<subseteq> set cands" and d: "distinct (map journey_identity_key sel)"
    using o6(1) by (auto simp: selection_ok_def sel)
  have le: "length sel \<le> m" using o6(1) by (simp add: selection_ok_def sel)
  show "0 < m \<Longrightarrow> hd cands \<in> set sel"
    using set_mp [OF o6(2)] set_mp [OF o5(2)] set_mp [OF o4(2)] set_mp [OF o3(2)] set_mp [OF o2(2)] set_mp [OF o1(2)]
    by (simp add: sel s0_def push_ranked_journey_def)
  have le': "length sel \<le> length cands"
  proof -
    have "length sel = card (set sel)" using d by (metis distinct_card distinct_map)
    also have "\<dots> \<le> card (set cands)" using \<open>set sel \<subseteq> set cands\<close> by (intro card_mono) auto
    finally show ?thesis using card_length [of cands] by linarith
  qed
  show "length sel = min m (length cands)"
  proof (cases "length sel = m")
    case False
    have "journey_identity_key j \<in> journey_identity_key ` set sel" if "j \<in> set cands" for j
      using push_all_full [OF o5(1) subset_refl that, folded s6_def] False o6(1)
      by (auto simp: sel selection_ok_def)
    then have "journey_identity_key ` set cands \<subseteq> journey_identity_key ` set sel" by auto
    from distinct_subset_all [OF cands(2) d \<open>set sel \<subseteq> set cands\<close> this] le show ?thesis by simp
  qed (use le' in simp)
qed

section \<open>The result list\<close>

lemma identity_key_update [simp]:
  "journey_identity_key (j\<lparr>j_id := x\<rparr>) = journey_identity_key j"
  "journey_identity_key (j\<lparr>j_labels := l\<rparr>) = journey_identity_key j"
  by (simp_all add: journey_identity_key_def)

lemma rank_update [simp]:
  "journey_rank (j\<lparr>j_id := x\<rparr>) c = journey_rank j c"
  "journey_rank (j\<lparr>j_labels := l\<rparr>) c = journey_rank j c"
  by (simp_all add: journey_rank_def)

definition same_option :: "journey \<Rightarrow> journey \<Rightarrow> bool" where
  "same_option r j \<longleftrightarrow> r = j\<lparr>j_id := j_id r, j_labels := j_labels r\<rparr>"

lemma label_result_same: "same_option (label_result f s (i, j)) j"
  by (simp add: same_option_def label_result_def Let_def)

lemma same_option_key: "same_option r j \<Longrightarrow> journey_identity_key r = journey_identity_key j"
  by (metis same_option_def identity_key_update)

lemma same_option_rank: "same_option r j \<Longrightarrow> journey_rank r c = journey_rank j c"
  by (metis same_option_def rank_update)

lemma label_result_labels:
  "j_id (label_result f s (i, j)) = ''journey-'' @ show_nat (i + 1)"
  "''doporuceno'' \<in> set (j_labels (label_result f s (i, j))) \<longleftrightarrow> i = 0"
  "''nejrychlejsi'' \<in> set (j_labels (label_result f s (i, j))) \<longleftrightarrow> f = Some (journey_identity_key j)"
  "''nejjednodussi'' \<in> set (j_labels (label_result f s (i, j))) \<longleftrightarrow> s = Some (journey_identity_key j)"
  by (auto simp: label_result_def Let_def)

lemma ranked_candidates_props:
  "distinct (map journey_identity_key (ranked_candidates js keys c))"
  "sorted (map (\<lambda>j. journey_rank j c) (ranked_candidates js keys c))"
  "set (ranked_candidates js keys c) \<subseteq> set js"
proof -
  show "distinct (map journey_identity_key (ranked_candidates js keys c))"
    using retain_first_distinct by (auto simp: ranked_candidates_def Let_def)
  show "sorted (map (\<lambda>j. journey_rank j c) (ranked_candidates js keys c))"
    using retain_first_sorted [OF sorted_sort_key [unfolded sorted_map]]
    by (simp only: ranked_candidates_def Let_def sorted_map)
  show "set (ranked_candidates js keys c) \<subseteq> set js"
    by (auto simp: ranked_candidates_def Let_def dest!: set_mp [OF retain_first_subset] set_mp [OF remove_dominated_subset]
        split: if_splits)
qed

text \<open>The first candidate has the least rank of all inputs, the removed ones included.\<close>

lemma ranked_candidates_least:
  assumes "valid_routing_config c" and "\<And>j. j \<in> set js \<Longrightarrow> consistent_times j" and "j \<in> set js"
  shows "ranked_candidates js keys c \<noteq> []" and "journey_rank (hd (ranked_candidates js keys c)) c \<le> journey_rank j c"
proof -
  define kept where "kept = (if cfg_remove_dominated c then remove_dominated_journeys js keys c else js)"
  have "\<exists>k \<in> set kept. journey_rank k c \<le> journey_rank j c"
  proof (cases "j \<in> set kept")
    case False
    with assms(3) have kept: "kept = remove_dominated_journeys js keys c" by (auto simp: kept_def)
    with False have "j \<notin> set (frontier js keys c)" using frontier_kept [of js keys c] by auto
    from frontier_dominates [OF assms(3) this] obtain k
      where k: "k \<in> set (frontier js keys c)" "journey_dominates k j keys c" by blast
    have "journey_rank k c \<le> journey_rank j c"
      using k assms journey_dominates_time by (intro journey_rank_mono) (auto simp: in_frontier)
    with k(1) frontier_kept [of js keys c] kept show ?thesis by blast
  qed blast
  then obtain k where k: "k \<in> set kept" "journey_rank k c \<le> journey_rank j c" by blast
  have rc: "ranked_candidates js keys c = retain_first journey_identity_key {} (sort_key (\<lambda>j. journey_rank j c) kept)"
    by (simp add: ranked_candidates_def kept_def)
  obtain l where l: "l \<in> set (ranked_candidates js keys c)" "journey_rank l c \<le> journey_rank k c"
    using retain_first_keeps [of "\<lambda>j. journey_rank j c" "sort_key (\<lambda>j. journey_rank j c) kept" k journey_identity_key "{}"] k(1)
    by (auto simp: rc)
  then show ne: "ranked_candidates js keys c \<noteq> []" by auto
  have "journey_rank (hd (ranked_candidates js keys c)) c \<le> journey_rank l c"
    using ranked_candidates_props(2) [of c js keys] l(1) ne
    by (cases "ranked_candidates js keys c") auto
  with l(2) k(2) show "journey_rank (hd (ranked_candidates js keys c)) c \<le> journey_rank j c" by order
qed

lemma filter_eq_one:
  assumes "i < length xs" and "\<And>k. k < length xs \<Longrightarrow> P (xs ! k) \<longleftrightarrow> k = i"
  shows "filter P xs = [xs ! i]"
proof -
  have "filter P (take i xs) = []" using assms by (auto simp: filter_empty_conv in_set_conv_nth)
  moreover have "filter P (drop (Suc i) xs) = []" using assms by (auto simp: filter_empty_conv in_set_conv_nth)
  moreover have "xs = take i xs @ xs ! i # drop (Suc i) xs" using assms(1) by (rule id_take_nth_drop)
  ultimately show ?thesis using assms by (metis append_Nil filter.simps(2) filter_append)
qed

definition labelled :: "string \<Rightarrow> journey list \<Rightarrow> journey list" where
  "labelled l rs = filter (\<lambda>r. l \<in> set (j_labels r)) rs"

lemma ranked_results_shape:
  assumes hash: "\<And>xs. set (hash_order xs) = set xs" and ne: "ranked_candidates js keys c \<noteq> []"
  obtains sel f s where
    "ranked_journey_results_with_carriers hash_order js keys c = map (label_result f s) (enumerate 0 sel)"
    "sorted (map (\<lambda>j. journey_rank j c) sel)" "distinct (map journey_identity_key sel)"
    "set sel \<subseteq> set (ranked_candidates js keys c)"
    "length sel = min (usize_of_i32 (cfg_max_results c)) (length (ranked_candidates js keys c))"
    "0 < usize_of_i32 (cfg_max_results c) \<Longrightarrow> hd (ranked_candidates js keys c) \<in> set sel"
    "sel \<noteq> [] \<Longrightarrow> \<exists>j \<in> set sel. f = Some (journey_identity_key j) \<and> (\<forall>k \<in> set sel. j_arrival_time j \<le> j_arrival_time k)"
    "sel \<noteq> [] \<Longrightarrow> \<exists>j \<in> set sel. s = Some (journey_identity_key j) \<and> (\<forall>k \<in> set sel. j_transfer_count j \<le> j_transfer_count k)"
proof -
  define cands where "cands = ranked_candidates js keys c"
  define sel where "sel = select_results hash_order keys c cands"
  define sel' where "sel' = sort_key (\<lambda>j. journey_rank j c) sel"
  define fk :: "journey \<Rightarrow> u32 \<times> u32 \<times> u32 \<times> u32" where "fk = (\<lambda>j. (j_arrival_time j, j_duration_seconds j, j_transfer_count j, j_departure_time j))"
  define f where "f = map_option journey_identity_key (min_by_key fk sel)"
  define s where "s = map_option journey_identity_key (min_by_key simplicity sel)"
  note ok = select_results_ok [OF hash, where cands = cands and c = c and keys = keys, folded sel_def]
  have cands: "cands \<noteq> []" "distinct (map journey_identity_key cands)"
    using ne ranked_candidates_props(1) by (auto simp: cands_def)
  note ok = ok [OF this]
  have "mset (map journey_identity_key sel') = mset (map journey_identity_key sel)"
    by (simp add: sel'_def)
  then have d: "distinct (map journey_identity_key sel')" using ok(2) by (metis mset_eq_imp_distinct_iff)
  have set': "set sel' = set sel" by (simp add: sel'_def)
  have r: "ranked_journey_results_with_carriers hash_order js keys c = map (label_result f s) (enumerate 0 sel')"
    using cands(1) by (simp add: ranked_journey_results_with_carriers_def Let_def cands_def sel_def sel'_def f_def s_def fk_def)
  have fastest: "\<exists>j \<in> set sel'. f = Some (journey_identity_key j) \<and> (\<forall>k \<in> set sel'. j_arrival_time j \<le> j_arrival_time k)"
    if "sel' \<noteq> []"
  proof -
    have "\<exists>j. min_by_key fk sel = Some j" using that set' by (cases "min_by_key fk sel") auto
    then obtain j where j: "min_by_key fk sel = Some j" by blast
    have "\<forall>k \<in> set sel. j_arrival_time j \<le> j_arrival_time k"
      using min_by_key_Some(2) [OF j] by (fastforce simp: fk_def)
    with min_by_key_Some(1) [OF j] show ?thesis by (auto simp: f_def j set')
  qed
  have simplest: "\<exists>j \<in> set sel'. s = Some (journey_identity_key j) \<and> (\<forall>k \<in> set sel'. j_transfer_count j \<le> j_transfer_count k)"
    if "sel' \<noteq> []"
  proof -
    have "\<exists>j. min_by_key simplicity sel = Some j" using that set' by (cases "min_by_key simplicity sel") auto
    then obtain j where j: "min_by_key simplicity sel = Some j" by blast
    have "\<forall>k \<in> set sel. j_transfer_count j \<le> j_transfer_count k"
      using min_by_key_Some(2) [OF j] by (fastforce simp: simplicity_def)
    with min_by_key_Some(1) [OF j] show ?thesis by (auto simp: s_def j set')
  qed
  show thesis
    using that [OF r _ d] ok fastest simplest by (simp add: sel'_def cands_def)
qed

text \<open>C21:
  The result list is made of distinct input journeys (up to the assigned identifier and labels),
  ordered by rank, and holds as many of the candidates as the configured limit admits. Identifiers
  count from \<open>journey-1\<close>; exactly the first journey is labelled \<open>doporuceno\<close>, exactly one has the label
  \<open>nejrychlejsi\<close> and none arrives earlier, exactly one \<open>nejjednodussi\<close> and none has fewer transfers.
  This holds whatever order the hash maps are iterated in.
\<close>

theorem ranked_journey_results_correct:
  assumes hash: "\<And>xs. mset (hash_order xs) = mset xs"
    and limit: "0 < cfg_max_results c"
    and ne: "ranked_candidates js keys c \<noteq> []"
    and rs: "rs = ranked_journey_results_with_carriers hash_order js keys c"
  shows "length rs = min (nat (cfg_max_results c mod 2 ^ 64)) (length (ranked_candidates js keys c)) \<and>
    (\<forall>r \<in> set rs. \<exists>j \<in> set js. same_option r j) \<and>
    distinct (map journey_identity_key rs) \<and> sorted (map (\<lambda>r. journey_rank r c) rs) \<and>
    map j_id rs = map (\<lambda>i. ''journey-'' @ show_nat i) [1..<Suc (length rs)] \<and>
    (\<forall>i < length rs. ''doporuceno'' \<in> set (j_labels (rs ! i)) \<longleftrightarrow> i = 0) \<and>
    (rs \<noteq> [] \<longrightarrow> (\<exists>q. labelled ''nejrychlejsi'' rs = [q] \<and> (\<forall>r \<in> set rs. j_arrival_time q \<le> j_arrival_time r))) \<and>
    (rs \<noteq> [] \<longrightarrow> (\<exists>q. labelled ''nejjednodussi'' rs = [q] \<and> (\<forall>r \<in> set rs. j_transfer_count q \<le> j_transfer_count r)))"
proof -
  have hash': "set (hash_order xs) = set xs" for xs using hash by (metis set_mset_mset)
  obtain sel f s where sel:
    "rs = map (label_result f s) (enumerate 0 sel)" and sorted: "sorted (map (\<lambda>j. journey_rank j c) sel)"
    and distinct: "distinct (map journey_identity_key sel)" and sub: "set sel \<subseteq> set (ranked_candidates js keys c)"
    and len: "length sel = min (usize_of_i32 (cfg_max_results c)) (length (ranked_candidates js keys c))"
    and fast: "sel \<noteq> [] \<Longrightarrow> \<exists>j \<in> set sel. f = Some (journey_identity_key j) \<and> (\<forall>k \<in> set sel. j_arrival_time j \<le> j_arrival_time k)"
    and simp: "sel \<noteq> [] \<Longrightarrow> \<exists>j \<in> set sel. s = Some (journey_identity_key j) \<and> (\<forall>k \<in> set sel. j_transfer_count j \<le> j_transfer_count k)"
    using ranked_results_shape [OF hash' ne] unfolding rs by metis
  have length: "length rs = length sel" by (simp add: sel)
  have nth: "rs ! i = label_result f s (i, sel ! i)" if "i < length sel" for i
    using that by (simp add: sel nth_enumerate_eq)
  have same: "same_option (rs ! i) (sel ! i)" if "i < length sel" for i
    using that by (simp add: nth label_result_same)
  have keys: "map journey_identity_key rs = map journey_identity_key sel"
    using same same_option_key by (intro nth_equalityI [of "map _ _"]) (simp_all add: length)
  have ranks: "map (\<lambda>r. journey_rank r c) rs = map (\<lambda>j. journey_rank j c) sel"
    using same same_option_rank by (intro nth_equalityI [of "map _ _"]) (simp_all add: length)
  have ids: "map j_id rs = map (\<lambda>i. ''journey-'' @ show_nat i) [1..<Suc (length rs)]"
    by (rule nth_equalityI) (simp_all add: length nth label_result_labels del: upt_Suc)
  have "\<forall>r \<in> set rs. \<exists>j \<in> set js. same_option r j"
    using same sub ranked_candidates_props(3) [of js keys c]
    by (fastforce simp: in_set_conv_nth length)
  moreover have "\<forall>i < length rs. ''doporuceno'' \<in> set (j_labels (rs ! i)) \<longleftrightarrow> i = 0"
    by (simp add: length nth label_result_labels)
  moreover have one: "\<exists>q. labelled l rs = [q] \<and> (\<forall>r \<in> set rs. P q r)"
    if lab: "\<And>i j. l \<in> set (j_labels (label_result f s (i, j))) \<longleftrightarrow> x = Some (journey_identity_key j)"
      and best: "\<exists>j \<in> set sel. x = Some (journey_identity_key j) \<and> (\<forall>k \<in> set sel. P j k)"
      and P: "\<And>r r' j k. same_option r j \<Longrightarrow> same_option r' k \<Longrightarrow> P r r' = P j k"
    for l x and P :: "journey \<Rightarrow> journey \<Rightarrow> bool"
  proof -
    obtain i where i: "i < length sel" "x = Some (journey_identity_key (sel ! i))" "\<forall>k \<in> set sel. P (sel ! i) k"
      using best by (auto simp: in_set_conv_nth)
    have hit: "l \<in> set (j_labels (rs ! k)) \<longleftrightarrow> k = i" if "k < length rs" for k
      using that i(1,2) nth_eq_iff_index_eq [OF distinct, of k i]
      by (auto simp: length nth lab)
    then have "labelled l rs = [rs ! i]"
      using i(1) length unfolding labelled_def
      by (intro filter_eq_one) auto
    moreover have "\<forall>r \<in> set rs. P (rs ! i) r"
      using i(3) nth_mem P [OF same [OF i(1)] same] by (metis in_set_conv_nth length)
    ultimately show ?thesis by blast
  qed
  have pr: "j_arrival_time r = j_arrival_time j" "j_transfer_count r = j_transfer_count j" if "same_option r j" for r j
    using arg_cong [OF that [unfolded same_option_def], of j_arrival_time]
      arg_cong [OF that [unfolded same_option_def], of j_transfer_count] by simp_all
  have "rs \<noteq> [] \<longrightarrow> (\<exists>q. labelled ''nejrychlejsi'' rs = [q] \<and> (\<forall>r \<in> set rs. j_arrival_time q \<le> j_arrival_time r))"
  proof
    assume "rs \<noteq> []"
    then have "sel \<noteq> []" using length by auto
    from one [OF label_result_labels(3) fast [OF this]] pr show "\<exists>q. labelled ''nejrychlejsi'' rs = [q] \<and>
      (\<forall>r \<in> set rs. j_arrival_time q \<le> j_arrival_time r)" by simp
  qed
  moreover have "rs \<noteq> [] \<longrightarrow> (\<exists>q. labelled ''nejjednodussi'' rs = [q] \<and> (\<forall>r \<in> set rs. j_transfer_count q \<le> j_transfer_count r))"
  proof
    assume "rs \<noteq> []"
    then have "sel \<noteq> []" using length by auto
    from one [OF label_result_labels(4) simp [OF this]] pr show "\<exists>q. labelled ''nejjednodussi'' rs = [q] \<and>
      (\<forall>r \<in> set rs. j_transfer_count q \<le> j_transfer_count r)" by simp
  qed
  ultimately show ?thesis
    using len ids sorted distinct by (simp add: length keys ranks usize_of_i32_def)
qed

text \<open>
  The filter lets only journeys with consistent times through, and replacing the geometries and warnings
  of the legs keeps them consistent.
\<close>

lemma relevant_consistent_times: "journey_is_relevant j sigs c \<Longrightarrow> consistent_times j"
  by (simp add: journey_is_relevant_iff plausible_journey_def)

lemma consistent_times_geometry:
  assumes "\<And>leg. leg_departure_time (f leg) = leg_departure_time leg \<and> leg_arrival_time (f leg) = leg_arrival_time leg"
  shows "consistent_times (j\<lparr>j_legs := map f (j_legs j)\<rparr>) \<longleftrightarrow> consistent_times j"
  using assms by (auto simp: consistent_times_def hd_map last_map)

text \<open>C22:
  Under a configuration that passes validation, and for journeys whose departure, arrival and duration
  are those of their legs (which the relevance filter before the ranking ensures, and which attaching
  geometries, the one step between the two rankings of a request, leaves as it is), the first result is
  at least as good, by the configured rank, as every journey that went in, the removed dominated ones
  included: floating-point rounding and the removal never put a dominated journey ahead of the one that
  dominates it.
\<close>

theorem first_result_is_best:
  assumes hash: "\<And>xs. mset (hash_order xs) = mset xs"
    and config: "validate_routing_config c = Inr ()"
    and consistent: "\<And>j. j \<in> set js \<Longrightarrow> consistent_times j"
    and j: "j \<in> set js"
  shows "ranked_journey_results_with_carriers hash_order js keys c \<noteq> [] \<and>
    journey_rank (hd (ranked_journey_results_with_carriers hash_order js keys c)) c \<le> journey_rank j c"
proof -
  have valid: "valid_routing_config c" using config by (simp add: validate_routing_config_iff)
  have hash': "set (hash_order xs) = set xs" for xs using hash by (metis set_mset_mset)
  note least = ranked_candidates_least [OF valid consistent j, where keys = keys]
  have pos: "0 < usize_of_i32 (cfg_max_results c)" using valid by (auto simp: valid_routing_config_def usize_of_i32_def)
  obtain sel f s where rs: "ranked_journey_results_with_carriers hash_order js keys c = map (label_result f s) (enumerate 0 sel)"
      and sorted: "sorted (map (\<lambda>j. journey_rank j c) sel)" and hd: "hd (ranked_candidates js keys c) \<in> set sel"
    using ranked_results_shape [OF hash' least(1)] pos by metis
  then obtain k ks where sel: "sel = k # ks" by (cases sel) auto
  have r: "hd (ranked_journey_results_with_carriers hash_order js keys c) = label_result f s (0, k)"
    by (simp add: rs sel)
  have "journey_rank k c \<le> journey_rank (hd (ranked_candidates js keys c)) c" using hd sorted by (auto simp: sel)
  then have "journey_rank (hd (ranked_journey_results_with_carriers hash_order js keys c)) c \<le> journey_rank j c"
    using least(2) same_option_rank [OF label_result_same, of f s 0 k c] by (simp add: r)
  then show ?thesis by (simp add: rs sel)
qed

section \<open>Prefix patterns\<close>

text \<open>
  SQL's \<open>LIKE\<close> with the default escape character, the reference for the pattern: a percent sign
  matches any string, an underscore any character, a backslash takes the next character literally.
\<close>

function like_match :: "string \<Rightarrow> string \<Rightarrow> bool" where
  "like_match [] s = (s = [])"
| "like_match (c # p) s =
     (if c = CHR 0x5C then
        (case (p, s) of (d # p', x # s') \<Rightarrow> x = d \<and> like_match p' s' | _ \<Rightarrow> False)
      else if c = CHR ''%'' then like_match p s \<or> (case s of [] \<Rightarrow> False | _ # s' \<Rightarrow> like_match (c # p) s')
      else (case s of [] \<Rightarrow> False | x # s' \<Rightarrow> (c = CHR ''_'' \<or> x = c) \<and> like_match p s'))"
  by pat_completeness auto
termination by (relation "measure (\<lambda>(p, s). length p + length s)") auto

declare like_match.simps(2) [simp del]

definition escape_one :: "char \<Rightarrow> string" where
  "escape_one c = (if c = CHR 0x5C \<or> c = CHR ''%'' \<or> c = CHR ''_'' then [CHR 0x5C, c] else [c])"

lemma escaped_like_prefix_one: "escaped_like_prefix value = concat (map escape_one value) @ ''%''"
proof -
  have "escape_char (CHR ''_'') (escape_char (CHR ''%'') (escape_char (CHR 0x5C) v)) = concat (map escape_one v)" for v
    by (induction v) (auto simp: escape_char_def escape_one_def)
  then show ?thesis by (simp add: escaped_like_prefix_def)
qed

lemma like_match_percent: "like_match ''%'' s"
  by (induction s) (simp_all add: like_match.simps(2))

lemma like_match_escape_one: "like_match (escape_one c @ p) s \<longleftrightarrow> (\<exists>t. s = c # t \<and> like_match p t)"
  by (cases s) (auto simp: escape_one_def like_match.simps(2))

text \<open>
  The pattern that \<open>escaped_like_prefix\<close> builds matches exactly the strings that start with the given
  value: no character of the value acts as a wildcard.
\<close>

theorem escaped_like_prefix_correct: "like_match (escaped_like_prefix v) s \<longleftrightarrow> prefix v s"
proof (induction v arbitrary: s)
  case Nil
  then show ?case by (simp add: escaped_like_prefix_one like_match_percent)
next
  case (Cons c v)
  have "escaped_like_prefix (c # v) = escape_one c @ escaped_like_prefix v"
    by (simp add: escaped_like_prefix_one)
  then show ?case using Cons by (cases s) (auto simp: like_match_escape_one)
qed

section \<open>The next service day\<close>

text \<open>Below the end of the 32 bit range the shift keeps plausibility and durations.\<close>

lemma saturating_add_exact: "unat a + unat d < 2 ^ 32 \<Longrightarrow> unat (saturating_add a d) = unat a + unat d"
  by (simp add: u32_arith)

lemma shift_consistent:
  assumes "consistent_times j" and "unat (j_arrival_time j) + unat d < 2 ^ 32"
  shows "consistent_times (shift_journey_service_day j d)"
    and "j_duration_seconds (shift_journey_service_day j d) = j_duration_seconds j"
proof -
  from assms have le: "unat (j_departure_time j) \<le> unat (j_arrival_time j)"
    and dur: "j_duration_seconds j = j_arrival_time j - j_departure_time j"
    by (auto simp: consistent_times_def word_le_nat_alt)
  have u: "unat (saturating_add (j_arrival_time j) d) = unat (j_arrival_time j) + unat d"
      "unat (saturating_add (j_departure_time j) d) = unat (j_departure_time j) + unat d"
    using assms(2) le by (simp_all add: saturating_add_exact)
  then have le': "saturating_add (j_departure_time j) d \<le> saturating_add (j_arrival_time j) d"
    using le by (simp add: word_le_nat_alt)
  have s: "saturating_sub x y = x - y" if "y \<le> x" for x y :: u32
    using that by (simp add: saturating_sub_def not_less [symmetric])
  have "unat (saturating_add (j_arrival_time j) d - saturating_add (j_departure_time j) d)
      = unat (j_arrival_time j - j_departure_time j)"
    using u le le' by (simp add: unat_sub word_le_nat_alt)
  then have eq: "saturating_add (j_arrival_time j) d - saturating_add (j_departure_time j) d = j_duration_seconds j"
    unfolding dur using word_unat_eq_iff by blast
  show "j_duration_seconds (shift_journey_service_day j d) = j_duration_seconds j"
    using s [OF le'] eq by (simp add: shift_journey_service_day_def Let_def)
  show "consistent_times (shift_journey_service_day j d)"
    using assms(1) le' s [OF le']
    by (auto simp: consistent_times_def shift_journey_service_day_def Let_def hd_map last_map)
qed

section \<open>Concrete journeys\<close>

definition sample_ride_leg :: "string \<Rightarrow> u32 \<Rightarrow> u32 \<Rightarrow> journey_leg" where
  "sample_ride_leg trip departure arrival =
     \<lparr>leg_from_stop_id = ''A'', leg_to_stop_id = ''B'', leg_route_id = Some ''L1-2026'', leg_trip_id = Some trip,
      leg_departure_time = departure, leg_arrival_time = arrival, leg_mode = Bus, leg_warnings = [],
      leg_geometry = None\<rparr>"

definition sample_ride :: "string \<Rightarrow> u32 \<Rightarrow> u32 \<Rightarrow> journey" where
  "sample_ride trip departure arrival =
     \<lparr>j_id = trip, j_legs = [sample_ride_leg trip departure arrival], j_departure_time = departure,
      j_arrival_time = arrival, j_duration_seconds = arrival - departure, j_transfer_count = 0,
      j_walking_distance_meters = 0, j_realtime_status = UnavailableRt, j_risk_score = Finite 0, j_labels = []\<rparr>"

definition early_ride :: journey where "early_ride = sample_ride ''t1'' 28800 30000"
definition slow_ride :: journey where "slow_ride = sample_ride ''t2'' 28800 30600"
definition late_ride :: journey where "late_ride = sample_ride ''t3'' 32400 33600"

lemma sample_rides_relevant:
  "j \<in> set [slow_ride, late_ride, early_ride] \<Longrightarrow> journey_is_relevant j Map.empty default_routing_config"
proof -
  have "journey_is_relevant slow_ride Map.empty default_routing_config"
    "journey_is_relevant late_ride Map.empty default_routing_config"
    "journey_is_relevant early_ride Map.empty default_routing_config"
    by code_simp+
  then show "j \<in> set [slow_ride, late_ride, early_ride] \<Longrightarrow> journey_is_relevant j Map.empty default_routing_config"
    by auto
qed

lemma default_config_valid: "validate_routing_config default_routing_config = Inr ()"
  by (simp add: validate_routing_config_iff valid_routing_config_def default_routing_config_def)

lemma sample_candidates: "ranked_candidates [slow_ride, late_ride, early_ride] Map.empty default_routing_config \<noteq> []"
proof (rule ranked_candidates_least)
  show "valid_routing_config default_routing_config"
    using default_config_valid by (simp add: validate_routing_config_iff)
  show "consistent_times j" if "j \<in> set [slow_ride, late_ride, early_ride]" for j
    using relevant_consistent_times [OF sample_rides_relevant [OF that]] .
  show "slow_ride \<in> set [slow_ride, late_ride, early_ride]" by simp
qed

lemma dedupe_relevant_journeys_correct_witness:
  "\<exists>k \<in> set (dedupe_relevant_journeys [slow_ride, late_ride, early_ride] Map.empty Map.empty default_routing_config).
     visible_journey_key k Map.empty = visible_journey_key late_ride Map.empty"
  using dedupe_relevant_journeys_correct [of "[slow_ride, late_ride, early_ride]" Map.empty Map.empty default_routing_config]
    sample_rides_relevant [of late_ride] by (auto simp: journey_is_relevant_iff)

lemma slow_ride_dropped:
  "slow_ride \<notin> set (remove_dominated_journeys [slow_ride, late_ride, early_ride] Map.empty default_routing_config)"
  by code_simp

lemma remove_dominated_journeys_correct_witness:
  "\<exists>k \<in> set (remove_dominated_journeys [slow_ride, late_ride, early_ride] Map.empty default_routing_config).
     journey_dominates k slow_ride Map.empty default_routing_config"
  using remove_dominated_journeys_correct [where js = "[slow_ride, late_ride, early_ride]" and carrier_keys = Map.empty
      and c = default_routing_config] slow_ride_dropped by simp

lemma ranked_journey_results_correct_witness:
  "length (ranked_journey_results_with_carriers id [slow_ride, late_ride, early_ride] Map.empty default_routing_config) =
     min (nat (cfg_max_results default_routing_config mod 2 ^ 64))
       (length (ranked_candidates [slow_ride, late_ride, early_ride] Map.empty default_routing_config))"
  using ranked_journey_results_correct [of id default_routing_config, OF _ _ sample_candidates refl]
  by (simp add: default_routing_config_def)

lemma first_result_is_best_witness:
  "journey_rank (hd (ranked_journey_results_with_carriers id [slow_ride, late_ride, early_ride] Map.empty default_routing_config))
     default_routing_config \<le> journey_rank slow_ride default_routing_config"
  using first_result_is_best [where hash_order = id and js = "[slow_ride, late_ride, early_ride]" and keys = Map.empty
      and j = slow_ride, OF _ default_config_valid relevant_consistent_times [OF sample_rides_relevant]] by simp

end
