(* ===== verification/Range_Search.thy ===== *)
theory Range_Search
  imports Direct_Correct Ranking_Results "HOL-Library.Multiset"
begin

text \<open>
  \<^verbatim>\<open>services/api/src/lib.rs\<close>: the range search around RAPTOR. Searches for several departures run on a
  pool of workers, at most two at a time, and are joined in the order in which they end; that order is
  the parameter \<open>schedule\<close>. The range is first probed at the requested time, then over the whole window in
  batches, and, when too few distinct journeys were found, again with the routes of the best journey
  excluded. \<open>None\<close> stands for a request that fails because a worker or the handler panicked.
\<close>

section \<open>A pool of workers\<close>

text \<open>\<open>JoinSet\<close>: jobs are started while fewer than the limit run; \<open>pick n\<close> chooses the job that ends next.\<close>

fun spawn_jobs :: "usize \<Rightarrow> 'a list \<Rightarrow> 'a list \<Rightarrow> 'a list \<times> 'a list" where
  "spawn_jobs limit running [] = (running, [])"
| "spawn_jobs limit running (d # ds) =
     (if length running < limit then spawn_jobs limit (running @ [d]) ds else (running, d # ds))"

lemma spawn_jobs_keeps:
  "mset (fst (spawn_jobs limit running pending)) + mset (snd (spawn_jobs limit running pending)) = mset running + mset pending"
  by (induction limit running pending rule: spawn_jobs.induct) simp_all

lemma spawn_jobs_length:
  "length (fst (spawn_jobs limit running pending)) + length (snd (spawn_jobs limit running pending)) = length running + length pending"
  by (induction limit running pending rule: spawn_jobs.induct) simp_all

lemma spawn_jobs_started: "0 < limit \<Longrightarrow> fst (spawn_jobs limit running pending) = [] \<Longrightarrow> running = [] \<and> pending = []"
  by (induction limit running pending rule: spawn_jobs.induct) (auto split: if_splits)

function drain_jobs :: "usize \<Rightarrow> ('a \<Rightarrow> 'b option) \<Rightarrow> (nat \<Rightarrow> nat) \<Rightarrow> nat \<Rightarrow> 'a list \<Rightarrow> 'a list \<Rightarrow> 'b list option" where
  "drain_jobs limit job pick n running pending =
     (let (running, pending) = spawn_jobs limit running pending
      in if running = [] then Some []
         else (let i = pick n mod length running in do {
           result \<leftarrow> job (running ! i);
           results \<leftarrow> drain_jobs limit job pick (Suc n) (take i running @ drop (Suc i) running) pending;
           Some (result # results) }))"
  by auto
termination
proof (relation "measure (\<lambda>(limit, job, pick, n, running, pending). length running + length pending)", goal_cases)
  case (2 limit job pick n running pending x running' pending' i result)
  have "length running' + length pending' = length running + length pending"
    using spawn_jobs_length [of limit running pending] 2(1,2) by (metis fst_conv snd_conv)
  moreover have "i < length running'" using 2(3,4) by simp
  ultimately show ?case by simp
qed simp

declare drain_jobs.simps [simp del]

lemma mset_pick: "i < length xs \<Longrightarrow> mset xs = add_mset (xs ! i) (mset (take i xs @ drop (Suc i) xs))"
  by (metis id_take_nth_drop mset.simps(2) mset_append union_mset_add_mset_right)

text \<open>Whatever the schedule, every job is run once; the pool fails only if a job does.\<close>

lemma drain_jobs_complete:
  assumes "0 < limit"
  shows "case drain_jobs limit job pick n running pending of
      Some results \<Rightarrow> (\<forall>d \<in> set (running @ pending). job d \<noteq> None) \<and>
        mset results = image_mset (\<lambda>d. the (job d)) (mset (running @ pending))
    | None \<Rightarrow> \<exists>d \<in> set (running @ pending). job d = None"
  using assms
proof (induction limit job pick n running pending rule: drain_jobs.induct)
  case (1 limit job pick n running pending)
  obtain running' pending' where sp: "spawn_jobs limit running pending = (running', pending')" by fastforce
  have ms: "mset (running @ pending) = mset running' + mset pending'" using spawn_jobs_keeps [of limit running pending] sp by simp
  then have members: "set (running @ pending) = set running' \<union> set pending'" by (metis set_mset_mset set_mset_union)
  show ?case
  proof (cases "running' = []")
    case True
    with sp 1(2) spawn_jobs_started [of limit running pending] have "running = []" "pending = []" by auto
    with sp True show ?thesis by (simp add: drain_jobs.simps [of limit job pick n])
  next
    case False
    define i where "i = pick n mod length running'"
    have i: "i < length running'" using False by (simp add: i_def)
    define rest where "rest = take i running' @ drop (Suc i) running'"
    have split: "mset running' = add_mset (running' ! i) (mset rest)" unfolding rest_def by (rule mset_pick [OF i])
    then have split_set: "set running' = insert (running' ! i) (set rest)" by (metis set_mset_add_mset_insert set_mset_mset)
    have step: "drain_jobs limit job pick n running pending = Option.bind (job (running' ! i))
        (\<lambda>result. Option.bind (drain_jobs limit job pick (Suc n) rest pending') (\<lambda>results. Some (result # results)))"
      using False by (simp add: drain_jobs.simps [of limit job pick n running] sp i_def rest_def Let_def)
    show ?thesis
    proof (cases "job (running' ! i)")
      case None
      then show ?thesis using step members split_set by auto
    next
      case (Some result)
      have IH: "case drain_jobs limit job pick (Suc n) rest pending' of
          Some results \<Rightarrow> (\<forall>d \<in> set (rest @ pending'). job d \<noteq> None) \<and>
            mset results = image_mset (\<lambda>d. the (job d)) (mset (rest @ pending'))
        | None \<Rightarrow> \<exists>d \<in> set (rest @ pending'). job d = None"
        using 1(1) [OF sp [symmetric] refl False i_def Some] 1(2) unfolding rest_def by blast
      show ?thesis
      proof (cases "drain_jobs limit job pick (Suc n) rest pending'")
        case None
        then show ?thesis using IH step Some members split_set by auto
      next
        case (Some results)
        with IH step \<open>job (running' ! i) = Some result\<close> show ?thesis
          unfolding ms members split split_set by simp
      qed
    qed
  qed
qed

section \<open>Searches for several departures\<close>

definition RAPTOR_RANGE_SEARCH_CONCURRENCY :: usize where "RAPTOR_RANGE_SEARCH_CONCURRENCY = 2"

definition RAPTOR_INITIAL_RANGE_DEPARTURES :: usize where "RAPTOR_INITIAL_RANGE_DEPARTURES = 1"

definition RAPTOR_RANGE_EXPANSION_BATCH_DEPARTURES :: usize where "RAPTOR_RANGE_EXPANSION_BATCH_DEPARTURES = 2"

definition RAPTOR_ALTERNATIVE_ROUTE_PASSES :: usize where "RAPTOR_ALTERNATIVE_ROUTE_PASSES = 2"

definition no_stats :: search_stats where
  "no_stats = \<lparr>stat_rounds = 0, stat_routes_scanned = 0, stat_marked_stops = 0\<rparr>"

definition add_stats :: "search_stats \<Rightarrow> search_stats \<Rightarrow> search_stats" where
  "add_stats a b = \<lparr>stat_rounds = stat_rounds a + stat_rounds b,
     stat_routes_scanned = stat_routes_scanned a + stat_routes_scanned b,
     stat_marked_stops = stat_marked_stops a + stat_marked_stops b\<rparr>"

text \<open>The arguments that stay the same are the request \<open>base\<close>, whose departure time is replaced.\<close>

definition departure_job :: "raptor_timetable \<Rightarrow> raptor_request \<Rightarrow> string list \<Rightarrow> u32 \<Rightarrow> (journey list \<times> search_stats) option" where
  "departure_job tt base excluded departure_time =
     raptor_with_stats_excluding_routes tt (base\<lparr>rq_departure_time := departure_time\<rparr>) excluded"

definition run_raptor_searches ::
  "(nat \<Rightarrow> nat) \<Rightarrow> raptor_timetable \<Rightarrow> raptor_request \<Rightarrow> u32 list \<Rightarrow> string list \<Rightarrow> (journey list \<times> search_stats) option" where
  "run_raptor_searches pick tt base departure_times excluded = do {
     found \<leftarrow> drain_jobs RAPTOR_RANGE_SEARCH_CONCURRENCY (departure_job tt base excluded) pick 0 [] departure_times;
     Some (concat (map fst found), foldl add_stats no_stats (map snd found)) }"

section \<open>The adaptive search\<close>

record adaptive_search_result =
  as_journeys :: "journey list"
  as_stats :: search_stats
  as_departure_count :: usize
  as_expanded :: bool

definition extend_result :: "adaptive_search_result \<Rightarrow> journey list \<times> search_stats \<Rightarrow> usize \<Rightarrow> adaptive_search_result" where
  "extend_result acc found n = \<lparr>as_journeys = as_journeys acc @ fst found, as_stats = add_stats (as_stats acc) (snd found),
     as_departure_count = as_departure_count acc + n, as_expanded = True\<rparr>"

definition best_journey :: "journey list \<Rightarrow> journey option" where
  "best_journey journeys = min_by_key (\<lambda>j. (j_arrival_time j, j_transfer_count j)) journeys"

definition routes_of :: "journey option \<Rightarrow> string list" where
  "routes_of j = (case j of None \<Rightarrow> [] | Some j \<Rightarrow> List.map_filter leg_route_id (j_legs j))"

definition distinct_raptor_candidate_count :: "journey list \<Rightarrow> usize" where
  "distinct_raptor_candidate_count journeys =
     (case best_journey journeys of
        None \<Rightarrow> 0
      | Some best \<Rightarrow>
          (let best_route = journey_route_signature best
           in length (remdups (map journey_route_signature (filter (\<lambda>journey.
                let route = journey_route_signature journey
                in route = best_route \<or> reasonable_distinct_route_alternative journey best route best_route) journeys)))))"

fun search_batches ::
  "(nat \<Rightarrow> u32 list \<Rightarrow> (journey list \<times> search_stats) option) \<Rightarrow> nat \<Rightarrow> u32 list list \<Rightarrow> adaptive_search_result \<Rightarrow>
     adaptive_search_result option" where
  "search_batches search k [] acc = Some acc"
| "search_batches search k (batch # batches) acc = do {
     found \<leftarrow> search k batch;
     search_batches search (Suc k) batches (extend_result acc found (length batch)) }"

fun alternative_passes ::
  "(nat \<Rightarrow> string list \<Rightarrow> (journey list \<times> search_stats) option) \<Rightarrow> routing_algorithm_config \<Rightarrow> usize \<Rightarrow> nat \<Rightarrow> usize \<Rightarrow>
     string list \<Rightarrow> adaptive_search_result \<Rightarrow> adaptive_search_result option" where
  "alternative_passes search config departures k 0 excluded acc = Some acc"
| "alternative_passes search config departures k (Suc passes) excluded acc = do {
     alternatives \<leftarrow> search k excluded;
     let next_route = find (\<lambda>route. route \<notin> set excluded) (routes_of (best_journey (fst alternatives)));
     let acc = extend_result acc alternatives departures;
     if \<not> should_expand_raptor_range (distinct_raptor_candidate_count (as_journeys acc)) config then Some acc
     else (case next_route of
             None \<Rightarrow> Some acc
           | Some route \<Rightarrow> alternative_passes search config departures (Suc k) passes (excluded @ [route]) acc) }"

definition run_adaptive_raptor_searches ::
  "(nat \<Rightarrow> nat \<Rightarrow> nat) \<Rightarrow> raptor_timetable \<Rightarrow> raptor_request \<Rightarrow> routing_algorithm_config \<Rightarrow> adaptive_search_result option" where
  "run_adaptive_raptor_searches schedule tt base config =
     (let max_departures = usize_of_i32 (max (cfg_max_range_departures config) 1);
          window = word_of_int (max (cfg_range_search_window_seconds config) 0);
          departures = (\<lambda>maximum. departure_times_from_stops tt (rq_from_stop_ids base) (rq_extra_transfers base)
             (rq_departure_time base) window maximum (rq_modes base) (rq_allow_unverified_services base))
      in do {
        initial \<leftarrow> departures (min max_departures RAPTOR_INITIAL_RANGE_DEPARTURES);
        (journeys, stats) \<leftarrow> run_raptor_searches (schedule 0) tt base initial [];
        direct \<leftarrow> direct_journeys tt (base\<lparr>rq_extra_transfers := [], rq_max_transfers := 0\<rparr>) window
          (usize_of_i32 (max (cfg_max_direct_candidates config) 1));
        let acc = \<lparr>as_journeys = journeys @ direct, as_stats = stats, as_departure_count = length initial, as_expanded = False\<rparr>;
        remaining \<leftarrow> (if length (remdups initial) < max_departures
           then map_option (retain_first (\<lambda>d. d) (set initial)) (departures max_departures) else Some []);
        let batches = chunks_of RAPTOR_RANGE_EXPANSION_BATCH_DEPARTURES remaining;
        acc \<leftarrow> search_batches (\<lambda>k batch. run_raptor_searches (schedule k) tt base batch []) 1 batches acc;
        let excluded = remdups (routes_of (best_journey (as_journeys acc)));
        let alternative_departures = btree_set (initial @ remaining);
        if should_expand_raptor_range (distinct_raptor_candidate_count (as_journeys acc)) config \<and> excluded \<noteq> []
        then alternative_passes (\<lambda>k excluded. run_raptor_searches (schedule k) tt base alternative_departures excluded)
               config (length alternative_departures) (Suc (length batches)) RAPTOR_ALTERNATIVE_ROUTE_PASSES excluded acc
        else Some acc })"

section \<open>One service day\<close>

datatype transfer_search_status = SearchComplete | SearchTimedOut | SearchFailed

text \<open>The counters among the timing data; the clocks are left out.\<close>

record service_day_search_timing =
  sd_trip_count :: usize
  sd_route_count :: usize
  sd_max_route_trip_count :: usize
  sd_range_departure_count :: usize
  sd_range_expanded :: bool
  sd_raptor_rounds :: usize
  sd_raptor_routes_scanned :: usize
  sd_raptor_marked_stops :: usize
  sd_legacy_search_attempted :: bool

text \<open>The request both searches of a service day make, \<open>allow_unverified\<close> apart.\<close>

definition service_day_request ::
  "string list \<Rightarrow> string list \<Rightarrow> u32 \<Rightarrow> string list \<Rightarrow> u32 \<Rightarrow> u32 \<Rightarrow> routing_algorithm_config \<Rightarrow> transfer list \<Rightarrow>
     realtime_data \<Rightarrow> bool \<Rightarrow> raptor_request" where
  "service_day_request from_stop_ids to_stop_ids departure_time mode_filters max_transfers transfer_buffer_seconds config
       extra_transfers realtime allow_unverified =
     \<lparr>rq_from_stop_ids = from_stop_ids, rq_to_stop_ids = to_stop_ids, rq_extra_transfers = extra_transfers,
      rq_departure_time = departure_time, rq_max_transfers = max_transfers,
      rq_min_transfer_seconds = word_of_int (cfg_min_transfer_seconds config),
      rq_transfer_buffer_seconds = transfer_buffer_seconds, rq_modes = map db_mode_to_model mode_filters,
      rq_allow_unverified_services = allow_unverified, rq_realtime = realtime\<rparr>"

definition service_day_journeys ::
  "(bool \<Rightarrow> nat \<Rightarrow> nat \<Rightarrow> nat) \<Rightarrow> raptor_timetable \<Rightarrow> string list \<Rightarrow> string list \<Rightarrow> u32 \<Rightarrow> string list \<Rightarrow> u32 \<Rightarrow> u32 \<Rightarrow>
     routing_algorithm_config \<Rightarrow> transfer list \<Rightarrow> realtime_data \<Rightarrow>
     (journey list \<times> transfer_search_status \<times> service_day_search_timing) option" where
  "service_day_journeys schedule tt from_stop_ids to_stop_ids departure_time mode_filters max_transfers
       transfer_buffer_seconds config extra_transfers realtime =
     (let search = (\<lambda>allow_unverified. run_adaptive_raptor_searches (schedule allow_unverified) tt
            (service_day_request from_stop_ids to_stop_ids departure_time mode_filters max_transfers transfer_buffer_seconds
              config extra_transfers realtime allow_unverified) config)
      in do {
        verified \<leftarrow> search False;
        let legacy = as_journeys verified = [] \<and> tt_has_unverified_services tt;
        result \<leftarrow> (if legacy then search True else Some verified);
        Some (as_journeys result, SearchComplete,
          \<lparr>sd_trip_count = trip_count tt, sd_route_count = route_count tt,
           sd_max_route_trip_count = max_route_trip_count tt, sd_range_departure_count = as_departure_count result,
           sd_range_expanded = as_expanded result, sd_raptor_rounds = stat_rounds (as_stats result),
           sd_raptor_routes_scanned = stat_routes_scanned (as_stats result),
           sd_raptor_marked_stops = stat_marked_stops (as_stats result), sd_legacy_search_attempted = legacy\<rparr>) })"

end
