(* ===== verification/Range_Results.thy ===== *)
theory Range_Results
  imports Range_Search
begin

text \<open>
  The range search: its results do not depend on the order in which the workers end, as long as only
  one departure set is searched, and everything it finds is a journey that RAPTOR or the direct search
  vouches for, after a bounded number of searches.
\<close>

section \<open>The order of completion\<close>

lemma foldl_add_stats:
  "foldl add_stats acc xs = \<lparr>stat_rounds = stat_rounds acc + sum_list (map stat_rounds xs),
     stat_routes_scanned = stat_routes_scanned acc + sum_list (map stat_routes_scanned xs),
     stat_marked_stops = stat_marked_stops acc + sum_list (map stat_marked_stops xs)\<rparr>"
  by (induction xs arbitrary: acc) (simp_all add: add_stats_def)

lemma sum_list_by_mset: "mset xs = mset ys \<Longrightarrow> sum_list (map f xs) = sum_list (map (f :: _ \<Rightarrow> nat) ys)"
  by (metis mset_map sum_mset_sum_list)

lemma concat_by_mset: "mset xs = mset ys \<Longrightarrow> mset (concat (map f xs)) = mset (concat (map f ys))"
proof -
  assume eq: "mset xs = mset ys"
  have all: "mset (concat (map f zs)) = sum_mset (image_mset (\<lambda>z. mset (f z)) (mset zs))" for zs
    by (induction zs) simp_all
  show ?thesis unfolding all eq ..
qed

definition same_findings :: "(journey list \<times> search_stats) option \<Rightarrow> (journey list \<times> search_stats) option \<Rightarrow> bool" where
  "same_findings a b \<longleftrightarrow> (case (a, b) of
     (None, None) \<Rightarrow> True
   | (Some (js, s), Some (js', s')) \<Rightarrow> mset js = mset js' \<and> s = s'
   | _ \<Rightarrow> False)"

text \<open>The searches one after the other.\<close>

definition sequential_searches :: "raptor_timetable \<Rightarrow> raptor_request \<Rightarrow> u32 list \<Rightarrow> string list \<Rightarrow> (journey list \<times> search_stats) option" where
  "sequential_searches tt base departure_times excluded =
     map_option (\<lambda>found. (concat (map fst found), foldl add_stats no_stats (map snd found)))
       (mapM (departure_job tt base excluded) departure_times)"

text \<open>C6:
  The workers may end in any order: the journeys found for a list of departures are, as a collection,
  those of the searches run one after the other, with the same counters, and the whole fails exactly
  when one of the searches does.
\<close>

theorem searches_independent_of_schedule:
  "same_findings (run_raptor_searches pick tt base departure_times excluded) (sequential_searches tt base departure_times excluded)"
proof -
  let ?job = "departure_job tt base excluded"
  have limit: "0 < RAPTOR_RANGE_SEARCH_CONCURRENCY" by (simp add: RAPTOR_RANGE_SEARCH_CONCURRENCY_def)
  note all = drain_jobs_complete [OF limit, where job = ?job and pick = pick and n = 0 and running = "[]" and pending = departure_times]
  show ?thesis
  proof (cases "drain_jobs RAPTOR_RANGE_SEARCH_CONCURRENCY ?job pick 0 [] departure_times")
    case None
    then have "mapM ?job departure_times = None" using all by (simp add: mapM_None)
    with None show ?thesis by (simp add: run_raptor_searches_def sequential_searches_def same_findings_def)
  next
    case (Some found)
    then have jobs: "\<forall>d \<in> set departure_times. ?job d \<noteq> None"
      and "mset found = mset (map (\<lambda>d. the (?job d)) departure_times)" using all by simp_all
    note same = this(2)
    have "mset (concat (map fst found)) = mset (concat (map fst (map (\<lambda>d. the (?job d)) departure_times)))"
      by (rule concat_by_mset [OF same])
    moreover have "sum_list (map f (map snd found)) = sum_list (map f (map snd (map (\<lambda>d. the (?job d)) departure_times)))"
      for f :: "search_stats \<Rightarrow> nat"
      using sum_list_by_mset [OF same, of "f \<circ> snd"] by (simp add: comp_assoc)
    ultimately show ?thesis
      using Some jobs mapM_total [of departure_times ?job "\<lambda>d. the (?job d)"]
      by (simp add: run_raptor_searches_def sequential_searches_def same_findings_def foldl_add_stats del: map_map)
  qed
qed

section \<open>What is found\<close>

definition sound_journey :: "raptor_request \<Rightarrow> journey \<Rightarrow> bool" where
  "sound_journey base j \<longleftrightarrow>
     (\<exists>origin \<in> set (rq_from_stop_ids base). \<exists>target \<in> set (rq_to_stop_ids base). connects origin (j_legs j) target) \<and>
     length (filter (\<lambda>leg. \<not> is_walk leg) (j_legs j)) = Suc (unat (j_transfer_count j)) \<and>
     j_transfer_count j \<le> rq_max_transfers base"

text \<open>A timetable built from trips with distinct ids and at least one call each.\<close>

definition built :: "raptor_timetable \<Rightarrow> bool" where
  "built tt \<longleftrightarrow> (\<exists>hash_order trips transfers. permuting hash_order \<and> group_total trips \<and> unique_trip_ids trips \<and>
     length trips < usize_MAX \<and> raptor_timetable_new hash_order trips transfers = Some tt)"

lemma departure_job_sound:
  assumes "built tt" and "rq_realtime base = from_updates updates"
  shows "\<exists>js stats. departure_job tt base excluded d = Some (js, stats) \<and> (\<forall>j \<in> set js. sound_journey base j)"
proof -
  from assms(1) obtain hash_order trips transfers where
    "permuting hash_order" "group_total trips" "unique_trip_ids trips" "length trips < usize_MAX"
    "raptor_timetable_new hash_order trips transfers = Some tt" unfolding built_def by blast
  from search_returns_journeys [OF this, of "base\<lparr>rq_departure_time := d\<rparr>" updates excluded] assms(2)
  show ?thesis by (fastforce simp: departure_job_def sound_journey_def)
qed

lemma run_raptor_searches_sound:
  assumes "built tt" and "rq_realtime base = from_updates updates"
  shows "\<exists>js stats. run_raptor_searches pick tt base ds excluded = Some (js, stats) \<and> (\<forall>j \<in> set js. sound_journey base j)"
proof -
  let ?job = "departure_job tt base excluded"
  have limit: "0 < RAPTOR_RANGE_SEARCH_CONCURRENCY" by (simp add: RAPTOR_RANGE_SEARCH_CONCURRENCY_def)
  note all = drain_jobs_complete [OF limit, where job = ?job and pick = pick and n = 0 and running = "[]" and pending = ds]
  have total: "?job d \<noteq> None" and sound: "\<forall>j \<in> set (fst (the (?job d))). sound_journey base j" for d
    using departure_job_sound [OF assms, of excluded d] by auto
  with all obtain found where f: "drain_jobs RAPTOR_RANGE_SEARCH_CONCURRENCY ?job pick 0 [] ds = Some found"
    "mset found = mset (map (\<lambda>d. the (?job d)) ds)" by (cases "drain_jobs RAPTOR_RANGE_SEARCH_CONCURRENCY ?job pick 0 [] ds") force+
  then have "set found = set (map (\<lambda>d. the (?job d)) ds)" by (metis set_mset_mset)
  then have "\<forall>j \<in> set (concat (map fst found)). sound_journey base j" using sound by auto
  then show ?thesis using f(1) by (simp add: run_raptor_searches_def)
qed

lemma direct_journeys_sound:
  assumes "built tt" and "rq_realtime base = from_updates updates" and "0 < n"
  shows "\<exists>js. direct_journeys tt (base\<lparr>rq_extra_transfers := [], rq_max_transfers := 0\<rparr>) window n = Some js \<and>
    (\<forall>j \<in> set js. sound_journey base j)"
proof -
  let ?rq = "base\<lparr>rq_extra_transfers := [], rq_max_transfers := 0\<rparr>"
  let ?option = "direct_option tt ?rq (saturating_add (rq_departure_time ?rq) window)"
  from assms(1) obtain hash_order trips transfers where
    "permuting hash_order" "group_total trips" "unique_trip_ids trips" "length trips < usize_MAX"
    "raptor_timetable_new hash_order trips transfers = Some tt" unfolding built_def by blast
  note tt = constructed_timetable [OF this]
  have rt: "realtime_ok (rq_realtime ?rq)" by (simp add: assms(2) realtime_ok_from_updates)
  from direct_journeys_exist [OF tt(1) rt tt(2) assms(3), of window] obtain cs where
    cs: "direct_journeys tt ?rq window n = Some (map dc_journey (select_candidates n cs))"
      "\<forall>c \<in> set cs. \<exists>trip b a. ?option trip b a \<and> c = option_candidate ?rq trip b a" by auto
  have "sound_journey base (dc_journey c)" if c: "c \<in> set (select_candidates n cs)" for c
  proof -
    from c select_candidates_correct(2) [OF assms(3), of cs] cs(2) obtain trip b a where
      "?option trip b a" "c = option_candidate ?rq trip b a" by blast
    then show ?thesis
      by (auto simp: sound_journey_def direct_option_def option_candidate_def direct_journey_of_def Let_def is_walk_def)
  qed
  with cs(1) show ?thesis by simp
qed

section \<open>The adaptive search\<close>

lemma concat_chunks: "0 < n \<Longrightarrow> sum_list (map length (chunks_of n xs)) = length xs"
  by (induction n xs rule: chunks_of.induct) auto

definition sound_result :: "raptor_request \<Rightarrow> adaptive_search_result \<Rightarrow> bool" where
  "sound_result base acc \<longleftrightarrow> (\<forall>j \<in> set (as_journeys acc). sound_journey base j)"

lemma search_batches_sound:
  assumes "built tt" and "rq_realtime base = from_updates updates" and "sound_result base acc"
  shows "\<exists>acc'. search_batches (\<lambda>k batch. run_raptor_searches (schedule k) tt base batch []) k batches acc = Some acc' \<and>
    sound_result base acc' \<and> as_departure_count acc' = as_departure_count acc + sum_list (map length batches)"
  using assms(3)
proof (induction batches arbitrary: k acc)
  case (Cons batch batches)
  obtain js stats where found: "run_raptor_searches (schedule k) tt base batch [] = Some (js, stats)"
    "\<forall>j \<in> set js. sound_journey base j" using run_raptor_searches_sound [OF assms(1,2)] by blast
  then have "sound_result base (extend_result acc (js, stats) (length batch))"
    using Cons.prems by (auto simp: sound_result_def extend_result_def)
  from Cons.IH [OF this, of "Suc k"] found(1) show ?case by (auto simp: extend_result_def)
qed simp

lemma alternative_passes_sound:
  assumes "built tt" and "rq_realtime base = from_updates updates" and "sound_result base acc"
  shows "\<exists>acc'. alternative_passes (\<lambda>k excluded. run_raptor_searches (schedule k) tt base departures excluded)
        config n k passes excluded acc = Some acc' \<and>
    sound_result base acc' \<and> as_departure_count acc' \<le> as_departure_count acc + passes * n"
  using assms(3)
proof (induction passes arbitrary: k excluded acc)
  case (Suc passes)
  obtain js stats where found: "run_raptor_searches (schedule k) tt base departures excluded = Some (js, stats)"
    "\<forall>j \<in> set js. sound_journey base j" using run_raptor_searches_sound [OF assms(1,2)] by blast
  let ?acc = "extend_result acc (js, stats) n"
  have acc: "sound_result base ?acc" using Suc.prems found(2) by (auto simp: sound_result_def extend_result_def)
  have count: "as_departure_count ?acc = as_departure_count acc + n" by (simp add: extend_result_def)
  show ?case
  proof (cases "should_expand_raptor_range (distinct_raptor_candidate_count (as_journeys ?acc)) config")
    case False
    with found(1) acc count show ?thesis by simp
  next
    case True
    show ?thesis
    proof (cases "find (\<lambda>route. route \<notin> set excluded) (routes_of (best_journey js))")
      case None
      with found(1) acc count True show ?thesis by simp
    next
      case (Some route)
      from Suc.IH [OF acc, of "Suc k" "excluded @ [route]"] found(1) Some True count show ?thesis by auto
    qed
  qed
qed simp

lemma sum_length_retain_first: "length (retain_first f seen xs) \<le> length xs"
  by (induction f seen xs rule: retain_first.induct) auto

lemma length_btree_set: "length (btree_set xs) \<le> length xs"
  using remdups_adj_length [of "sort xs"] by (simp add: btree_set_def)

lemma adaptive_search_sound:
  assumes built: "built tt" and rt: "rq_realtime base = from_updates updates"
  shows "\<exists>result. run_adaptive_raptor_searches schedule tt base config = Some result \<and> sound_result base result \<and>
    as_departure_count result \<le> 3 * (usize_of_i32 (max (cfg_max_range_departures config) 1) + 1)"
proof -
  from built obtain hash_order trips transfers where
    "permuting hash_order" "group_total trips" "unique_trip_ids trips" "length trips < usize_MAX"
    "raptor_timetable_new hash_order trips transfers = Some tt" unfolding built_def by blast
  note ok = constructed_timetable(1) [OF this]
  let ?max = "usize_of_i32 (max (cfg_max_range_departures config) 1)"
  let ?window = "word_of_int (max (cfg_range_search_window_seconds config) 0) :: u32"
  let ?departures = "\<lambda>maximum. departure_times_from_stops tt (rq_from_stop_ids base) (rq_extra_transfers base)
             (rq_departure_time base) ?window maximum (rq_modes base) (rq_allow_unverified_services base)"
  have one: "min ?max RAPTOR_INITIAL_RANGE_DEPARTURES \<le> 1" by (simp add: RAPTOR_INITIAL_RANGE_DEPARTURES_def)
  then have initial: "?departures (min ?max RAPTOR_INITIAL_RANGE_DEPARTURES) = Some [rq_departure_time base]"
    by (simp add: departure_times_from_stops_def)
  obtain js stats where found: "run_raptor_searches (schedule 0) tt base [rq_departure_time base] [] = Some (js, stats)"
    "\<forall>j \<in> set js. sound_journey base j" using run_raptor_searches_sound [OF built rt] by blast
  obtain direct where direct: "direct_journeys tt (base\<lparr>rq_extra_transfers := [], rq_max_transfers := 0\<rparr>) ?window
          (usize_of_i32 (max (cfg_max_direct_candidates config) 1)) = Some direct"
    "\<forall>j \<in> set direct. sound_journey base j"
    using direct_journeys_sound [OF built rt, of "usize_of_i32 (max (cfg_max_direct_candidates config) 1)" ?window]
    by (cases "usize_of_i32 (max (cfg_max_direct_candidates config) 1) = 0") (auto simp: direct_journeys_def)
  obtain ds where ds: "?departures ?max = Some ds" "length ds \<le> max ?max 1"
    using departure_times_correct [OF ok, of "rq_from_stop_ids base" "rq_extra_transfers base" "rq_departure_time base" ?window ?max
        "rq_modes base" "rq_allow_unverified_services base"] by auto
  have "\<exists>remaining. (if length (remdups [rq_departure_time base]) < ?max
           then map_option (retain_first (\<lambda>d. d) (set [rq_departure_time base])) (?departures ?max) else Some []) = Some remaining \<and>
      length remaining \<le> ?max"
    using ds sum_length_retain_first [of "\<lambda>d. d" "{rq_departure_time base}" ds] by auto
  then obtain remaining where remaining: "(if length (remdups [rq_departure_time base]) < ?max
           then map_option (retain_first (\<lambda>d. d) (set [rq_departure_time base])) (?departures ?max) else Some []) = Some remaining"
    and few: "length remaining \<le> ?max" by blast
  let ?acc = "\<lparr>as_journeys = js @ direct, as_stats = stats, as_departure_count = length [rq_departure_time base], as_expanded = False\<rparr>"
  let ?batches = "chunks_of RAPTOR_RANGE_EXPANSION_BATCH_DEPARTURES remaining"
  have acc: "sound_result base ?acc" using found(2) direct(2) by (auto simp: sound_result_def)
  have batched: "sum_list (map length ?batches) = length remaining"
    by (rule concat_chunks) (simp add: RAPTOR_RANGE_EXPANSION_BATCH_DEPARTURES_def)
  from search_batches_sound [OF built rt acc, of schedule 1 ?batches] obtain acc where
    batches: "search_batches (\<lambda>k batch. run_raptor_searches (schedule k) tt base batch []) 1 ?batches ?acc = Some acc"
      "sound_result base acc" "as_departure_count acc = 1 + length remaining"
    using batched by auto
  let ?alternatives = "btree_set ([rq_departure_time base] @ remaining)"
  have width: "length ?alternatives \<le> 1 + length remaining"
    using length_btree_set [of "[rq_departure_time base] @ remaining"] by simp
  let ?excluded = "remdups (routes_of (best_journey (as_journeys acc)))"
  from alternative_passes_sound [OF built rt batches(2), of schedule ?alternatives config "length ?alternatives"
      "Suc (length ?batches)" RAPTOR_ALTERNATIVE_ROUTE_PASSES ?excluded] obtain acc2 where
    passes: "alternative_passes (\<lambda>k excluded. run_raptor_searches (schedule k) tt base ?alternatives excluded) config
        (length ?alternatives) (Suc (length ?batches)) RAPTOR_ALTERNATIVE_ROUTE_PASSES ?excluded acc = Some acc2"
      "sound_result base acc2" "as_departure_count acc2 \<le> as_departure_count acc + RAPTOR_ALTERNATIVE_ROUTE_PASSES * length ?alternatives"
    by blast
  have "as_departure_count acc2 \<le> 3 * (?max + 1)"
    using passes(3) batches(3) width few by (simp add: RAPTOR_ALTERNATIVE_ROUTE_PASSES_def)
  moreover have "as_departure_count acc \<le> 3 * (?max + 1)" using batches(3) few by simp
  moreover have "run_adaptive_raptor_searches schedule tt base config =
      (if should_expand_raptor_range (distinct_raptor_candidate_count (as_journeys acc)) config \<and> ?excluded \<noteq> []
       then Some acc2 else Some acc)"
    unfolding run_adaptive_raptor_searches_def Let_def initial bind.bind_lunit found(1) prod.case direct(1) remaining batches(1) passes(1)
    by (rule refl)
  ultimately show ?thesis using batches(2) passes(2) by simp
qed



text \<open>
  Ties are not broken: two lines arrive together, and which of them heads the joined list, and so decides
  which line the next pass excludes, depends on which worker ends first.
\<close>

definition tie_trips :: "raptor_trip list" where
  "tie_trips = [sample_trip ''t1'' ''r1'' [sample_call ''X'' 100 100, sample_call ''C'' 500 500],
     sample_trip ''t2'' ''r2'' [sample_call ''X'' 250 250, sample_call ''C'' 500 500]]"

definition tie_search :: "(nat \<Rightarrow> nat) \<Rightarrow> string list option" where
  "tie_search pick = Option.bind (raptor_timetable_new id tie_trips []) (\<lambda>tt.
     map_option (\<lambda>(js, _). routes_of (best_journey js))
       (run_raptor_searches pick tt ((sample_request [])\<lparr>rq_from_stop_ids := [''X'']\<rparr>) [50, 200] []))"

lemma best_journey_depends_on_schedule: "tie_search (\<lambda>_. 0) = Some [''r1''] \<and> tie_search (\<lambda>_. 1) = Some [''r2'']"
  by code_simp

end
