(* ===== verification/Ticketing_Model.thy ===== *)
theory Ticketing_Model
  imports Routing_Config
begin

text \<open>
  \<^verbatim>\<open>services/api/src/ticketing.rs\<close> and the errors of \<^verbatim>\<open>cd.rs\<close>: data of the ticketing service, its
  outside world and its helper functions. The service is modelled as it runs without a database
  (\<open>db\<close> is \<open>None\<close>); the store is the in-memory one. The Czech Railways client, the HTTP side of the payment
  provider, the random identifiers and the request digest are not part of the repository and are
  the fields of the record \<open>outside\<close>; every call to the two remote parties is appended, with its
  outcome, to a log in the state. Text typed by users is a list of Unicode scalar values.
\<close>

unbundle bit_operations_syntax

section \<open>Errors\<close>

datatype cd_error = CdNotConfigured | CdInvalidSigningKey | CdTimeout | CdUnavailable
  | CdRejected nat "i32 option" "string option" | CdMalformedResponse

fun stable_code :: "cd_error \<Rightarrow> string" where
  "stable_code CdNotConfigured = ''ticketing_unavailable''"
| "stable_code CdInvalidSigningKey = ''ticketing_configuration_error''"
| "stable_code CdTimeout = ''upstream_timeout''"
| "stable_code CdUnavailable = ''upstream_unavailable''"
| "stable_code (CdRejected status _ _) =
     (if status = 401 \<or> status = 403 then ''upstream_authentication_error''
      else if status = 404 then ''upstream_resource_expired''
      else ''upstream_rejected'')"
| "stable_code CdMalformedResponse = ''upstream_malformed_response''"

datatype payment_error = PayNotConfigured | PayUnavailable | PayNotSettled | PayMismatch

definition tk_error :: "string \<Rightarrow> string \<Rightarrow> api_error" where
  "tk_error code message = \<lparr>ae_code = code, ae_message = message\<rparr>"

definition validation :: "string \<Rightarrow> api_error" where
  "validation m = tk_error ''validation_error'' m"

definition not_found_owned :: api_error where
  "not_found_owned = tk_error ''not_found'' ''Ticketing resource was not found''"

text \<open>The letter that opens the railway's name, in UTF-8.\<close>

definition with_caron :: "string \<Rightarrow> string" where
  "with_caron s = [CHR 0xC4, CHR 0x8C] @ s"

fun cd_message :: "cd_error \<Rightarrow> string" where
  "cd_message CdTimeout = with_caron ''D did not respond in time''"
| "cd_message CdUnavailable = with_caron ''D is temporarily unavailable''"
| "cd_message CdNotConfigured = with_caron ''D ticketing is not configured''"
| "cd_message (CdRejected _ _ _) = with_caron ''D rejected the operation''"
| "cd_message CdMalformedResponse = with_caron ''D returned an invalid response''"
| "cd_message CdInvalidSigningKey = with_caron ''D signing is not configured correctly''"

definition cd_failure :: "cd_error \<Rightarrow> api_error" where
  "cd_failure e = tk_error (stable_code e) (cd_message e)"

fun payment_failure :: "payment_error \<Rightarrow> api_error" where
  "payment_failure PayNotConfigured = tk_error ''payment_provider_unavailable'' ''Payment provider is not configured''"
| "payment_failure PayUnavailable = tk_error ''payment_provider_unavailable'' ''Payment provider is unavailable''"
| "payment_failure PayNotSettled = tk_error ''payment_not_settled'' ''Payment has not been verified as settled''"
| "payment_failure PayMismatch = tk_error ''payment_verification_failed'' ''Payment details do not match the order''"

section \<open>Reading JSON\<close>

fun json_get :: "json \<Rightarrow> string \<Rightarrow> json option" where
  "json_get (JObject m) k = map_of m k"
| "json_get _ k = None"

fun as_array :: "json \<Rightarrow> json list option" where
  "as_array (JArray xs) = Some xs"
| "as_array _ = None"

fun as_str :: "json \<Rightarrow> string option" where
  "as_str (JString s) = Some s"
| "as_str _ = None"

fun as_bool :: "json \<Rightarrow> bool option" where
  "as_bool (JBool b) = Some b"
| "as_bool _ = None"

fun as_i64 :: "json \<Rightarrow> int option" where
  "as_i64 (JInt n) = (if - (2 ^ 63) \<le> n \<and> n < 2 ^ 63 then Some n else None)"
| "as_i64 _ = None"

definition i32_try_from :: "int \<Rightarrow> i32 option" where
  "i32_try_from n = (if - (2 ^ 31) \<le> n \<and> n < 2 ^ 31 then Some n else None)"

text \<open>\<open>get(k).and_then(as_array).cloned().unwrap_or_default()\<close>.\<close>

definition array_of :: "json \<Rightarrow> string \<Rightarrow> json list" where
  "array_of v k = (case Option.bind (json_get v k) as_array of Some xs \<Rightarrow> xs | None \<Rightarrow> [])"

function remove_keys :: "string list \<Rightarrow> json \<Rightarrow> json" where
  "remove_keys ks (JObject m) = JObject (map (\<lambda>(k, v). (k, remove_keys ks v)) (filter (\<lambda>(k, v). k \<notin> set ks) m))"
| "remove_keys ks (JArray xs) = JArray (map (remove_keys ks) xs)"
| "remove_keys ks JNull = JNull"
| "remove_keys ks (JBool b) = JBool b"
| "remove_keys ks (JInt n) = JInt n"
| "remove_keys ks (JFloat x) = JFloat x"
| "remove_keys ks (JString s) = JString s"
  by pat_completeness auto
termination
proof (relation "measure (\<lambda>(ks, v). size v)", goal_cases)
  case (2 ks m x k v)
  then have "(k, v) \<in> set m" by simp
  then have "size_prod (\<lambda>_. 0) size (k, v) \<le> size_list (size_prod (\<lambda>_. 0) size) m"
    by (rule size_list_estimation') simp
  then show ?case by simp
next
  case (3 ks xs x)
  then have "size x \<le> size_list size xs" by (intro size_list_estimation') auto
  then show ?case by simp
qed simp

definition public_hidden_keys :: "string list" where
  "public_hidden_keys = [''handle'', ''connId'', ''bookingId'', ''documentId'', ''ticketId'', ''sjtTicketId'', ''orderNumber'']"

definition sanitize_public :: "json \<Rightarrow> json" where
  "sanitize_public v = remove_keys public_hidden_keys v"

text \<open>An identifier as JSON: 32 hexadecimal digits with hyphens.\<close>

definition hex_digit :: "nat \<Rightarrow> char" where
  "hex_digit d = (if d < 10 then char_of (48 + d) else char_of (87 + d))"

fun hex_digits :: "nat \<Rightarrow> nat \<Rightarrow> string" where
  "hex_digits 0 n = []"
| "hex_digits (Suc k) n = hex_digits k (n div 16) @ [hex_digit (n mod 16)]"

definition show_uuid :: "uuid \<Rightarrow> string" where
  "show_uuid u =
     (let h = hex_digits 32 u
      in take 8 h @ ''-'' @ take 4 (drop 8 h) @ ''-'' @ take 4 (drop 12 h) @ ''-'' @ take 4 (drop 16 h) @ ''-'' @ drop 20 h)"

definition json_option :: "('a \<Rightarrow> json) \<Rightarrow> 'a option \<Rightarrow> json" where
  "json_option f x = (case x of None \<Rightarrow> JNull | Some y \<Rightarrow> f y)"

text \<open>
  The amount of an offer: the first offer whose flag 2 is set, else the first one, else the price at
  the top.
\<close>

definition offer_amount :: "json \<Rightarrow> int option" where
  "offer_amount v =
     (let flagged = (\<lambda>x. case Option.bind (json_get x ''basicPriceFlags'') as_i64 of Some f \<Rightarrow> bit f 1 | None \<Rightarrow> False);
          chosen = Option.bind (Option.bind (json_get v ''offers'') as_array)
                     (\<lambda>a. case find flagged a of Some x \<Rightarrow> Some x | None \<Rightarrow> (case a of [] \<Rightarrow> None | x # _ \<Rightarrow> Some x))
      in case Option.bind (Option.bind chosen (\<lambda>x. json_get x ''price'')) as_i64 of
           Some n \<Rightarrow> Some n
         | None \<Rightarrow> Option.bind (json_get v ''price'') as_i64)"

section \<open>Requests\<close>

record passenger_request =
  pr_passenger_type_id :: i32
  pr_count :: i32
  pr_age :: "i32 option"
  pr_reduction_ids :: "i32 list"

record order_create_request =
  oc_search_id :: uuid
  oc_connection_id :: uuid
  oc_passenger_groups :: "passenger_request list"
  oc_class :: i32

record customer_request =
  cu_email :: ustring
  cu_name :: "ustring option"
  cu_in_card_number :: "int option"
  cu_birth_date :: "string option"
  cu_company_name :: "ustring option"

record bicycle_selection =
  bi_train_id :: i32
  bi_bike_type :: i32

record bicycle_request =
  br_count :: i32
  br_trains :: "bicycle_selection list"
  br_price_only :: bool

record dog_request =
  dr_count :: i32
  dr_direction :: i32
  dr_price_only :: bool

record reservation_positions =
  rp_top :: "i32 option"
  rp_middle :: "i32 option"
  rp_bottom :: "i32 option"

record reservation_selection =
  rs_train_id :: i32
  rs_res_type :: i32
  rs_count :: "i32 option"
  rs_coach :: "i32 option"
  rs_places :: "i32 list"
  rs_compartment :: "i32 option"
  rs_place :: "i32 option"
  rs_berth_male_count :: "i32 option"
  rs_berth_female_count :: "i32 option"
  rs_berth_together :: "bool option"
  rs_couchette_berth_male_positions :: "reservation_positions option"
  rs_berth_female_positions :: "reservation_positions option"

record passenger =
  pa_count :: "i32 option"
  pa_id :: "i32 option"
  pa_age :: "i32 option"
  pa_cards :: "i32 list"

record booking_request_body =
  bk_flags :: "i32 option"
  bk_class :: "i32 option"
  bk_passengers :: "passenger list"

definition QUOTE_CREATE_FLAGS :: i32 where
  "QUOTE_CREATE_FLAGS = 196609"

fun passengers_of :: "int \<Rightarrow> passenger_request list \<Rightarrow> api_error + (int \<times> passenger list)" where
  "passengers_of n [] = Inr (n, [])"
| "passengers_of n (g # gs) =
     (if pr_passenger_type_id g \<le> 0 \<or> \<not> (1 \<le> pr_count g \<and> pr_count g \<le> 10) \<or>
         (case pr_age g of Some a \<Rightarrow> \<not> (1 \<le> a \<and> a \<le> 200) | None \<Rightarrow> False)
      then Inl (validation ''invalid passenger group'')
      else (case passengers_of (n + pr_count g) gs of
              Inl e \<Rightarrow> Inl e
            | Inr (t, ps) \<Rightarrow> Inr (t, \<lparr>pa_count = Some (pr_count g), pa_id = Some (pr_passenger_type_id g),
                                    pa_age = pr_age g, pa_cards = pr_reduction_ids g\<rparr> # ps)))"

definition booking_request :: "passenger_request list \<Rightarrow> i32 \<Rightarrow> i32 \<Rightarrow> api_error + booking_request_body" where
  "booking_request groups cls flags =
     (if 8 < length groups then Inl (validation ''at most 8 passenger groups are allowed'')
      else (case passengers_of 0 groups of
              Inl e \<Rightarrow> Inl e
            | Inr (n, ps) \<Rightarrow>
                if 10 < n then Inl (validation ''at most 10 passengers are allowed'')
                else Inr \<lparr>bk_flags = Some flags, bk_class = Some cls, bk_passengers = ps\<rparr>))"

definition validate_email :: "ustring \<Rightarrow> api_error + unit" where
  "validate_email v =
     (if 254 < utf8_len v \<or> 64 \<notin> set v \<or> list_ex is_control v then Inl (validation ''invalid email'') else Inr ())"

definition validate_customer :: "customer_request \<Rightarrow> api_error + unit" where
  "validate_customer c =
     (case validate_email (cu_email c) of
        Inl e \<Rightarrow> Inl e
      | Inr _ \<Rightarrow>
          if (case cu_name c of Some v \<Rightarrow> trim v = [] \<or> 120 < utf8_len v | None \<Rightarrow> False) \<or>
             (case cu_company_name c of Some v \<Rightarrow> 160 < utf8_len v | None \<Rightarrow> False)
          then Inl (validation ''invalid customer name'') else Inr ())"

definition validate_bicycles :: "bicycle_request \<Rightarrow> api_error + unit" where
  "validate_bicycles r =
     (if \<not> (0 \<le> br_count r \<and> br_count r \<le> 6) then Inl (validation ''count must be between 0 and 6'')
      else if 20 < length (br_trains r) \<or>
              list_ex (\<lambda>item. bi_train_id item < 0 \<or> bi_bike_type item \<notin> set [1, 2, 4, 8, 16, 32, 64, 256]) (br_trains r)
      then Inl (validation ''invalid bicycle train selection'')
      else Inr ())"

definition validate_dogs :: "dog_request \<Rightarrow> api_error + unit" where
  "validate_dogs r =
     (if \<not> (0 \<le> dr_count r \<and> dr_count r \<le> 6) \<or> dr_direction r \<notin> set [1, 2, 4]
      then Inl (validation ''invalid dog count or direction'') else Inr ())"

definition allowed_reservations :: i32 where
  "allowed_reservations = 1 OR 2 OR 4 OR 8 OR 16 OR 256 OR 512 OR 32768 OR 65536"

definition invalid_positions :: "reservation_positions \<Rightarrow> bool" where
  "invalid_positions p \<longleftrightarrow> list_ex (\<lambda>v. \<not> (0 \<le> v \<and> v \<le> 2)) (List.map_filter id [rp_top p, rp_middle p, rp_bottom p])"

definition invalid_reservation :: "reservation_selection \<Rightarrow> bool" where
  "invalid_reservation item \<longleftrightarrow>
     rs_train_id item < 0 \<or> rs_res_type item \<le> 0 \<or> rs_res_type item AND NOT allowed_reservations \<noteq> 0 \<or>
     (case rs_count item of Some v \<Rightarrow> \<not> (0 \<le> v \<and> v \<le> 10) | None \<Rightarrow> False) \<or>
     (case rs_coach item of Some v \<Rightarrow> v \<le> 0 | None \<Rightarrow> False) \<or>
     10 < length (rs_places item) \<or> list_ex (\<lambda>v. v \<le> 0) (rs_places item)"

fun validate_reservation_items :: "reservation_selection list \<Rightarrow> api_error + unit" where
  "validate_reservation_items [] = Inr ()"
| "validate_reservation_items (item # items) =
     (if invalid_reservation item then Inl (validation ''invalid reservation selection'')
      else if list_ex invalid_positions
                (List.map_filter id [rs_couchette_berth_male_positions item, rs_berth_female_positions item])
      then Inl (validation ''invalid couchette or berth positions'')
      else validate_reservation_items items)"

definition validate_reservations :: "reservation_selection list \<Rightarrow> api_error + unit" where
  "validate_reservations trains =
     (if 20 < length trains then Inl (validation ''at most 20 train reservations are allowed'')
      else validate_reservation_items trains)"

definition offer_types :: "i32 list" where
  "offer_types = [1, 2, 3, 4, 5, 7, 8, 9, 10, 11, 12, 13, 14, 15, 16, 20, 21, 22, 23, 25]"

section \<open>The store\<close>

record search_record =
  se_id :: uuid
  se_user_id :: uuid
  se_handle :: i32
  se_connections :: "uuid \<rightharpoonup> i32"
  se_expires_at :: date_time

record order_record =
  or_id :: uuid
  or_user_id :: uuid
  or_search_id :: uuid
  or_connection_id :: uuid
  or_conn_id :: i32
  or_booking_id :: string
  or_status :: string
  or_selected_offer_type :: "i32 option"
  or_amount_hellers :: "int option"
  or_customer :: "customer_request option"
  or_quote :: json
  or_checkout_session_id :: "string option"
  or_version :: int

record document_record =
  do_id :: uuid
  do_user_id :: uuid
  do_order_id :: uuid
  do_upstream_id :: string
  do_document_type :: "i32 option"

record ticket_record =
  ti_id :: uuid
  ti_user_id :: uuid
  ti_order_id :: uuid
  ti_upstream_id :: string
  ti_payload :: json
  ti_returned :: bool

record refund_record =
  re_id :: uuid
  re_user_id :: uuid
  re_ticket_id :: uuid
  re_status :: string
  re_amount_hellers :: "int option"
  re_payload :: json

record idempotent_result =
  ir_request_hash :: string
  ir_status :: nat
  ir_body :: json

section \<open>The outside world\<close>

record payment_order =
  po_order_id :: uuid
  po_amount_hellers :: int
  po_currency :: string

record checkout_session =
  cs_id :: string
  cs_redirect_url :: string
  cs_return_url :: string
  cs_cancel_url :: string
  cs_expires_at :: "date_time option"

record provider_status =
  ps_id :: string
  ps_status :: string
  ps_amount_hellers :: int
  ps_currency :: string
  ps_redirect_url :: "string option"
  ps_expires_at :: "date_time option"

datatype outside_call =
    CreatePriceOffer i32 i32 "i32 option" booking_request_body
  | RefreshPriceOffer string "i32 option"
  | SelectPriceOffer string "i32 option"
  | ReleasePriceOffer string
  | SetReservations string "reservation_selection list"
  | BikePrice string i32 "bicycle_selection list"
  | SetBikes string i32 "bicycle_selection list"
  | DogPrice string i32 i32
  | SetDogs string i32 i32
  | FixPriceOffer string customer_request
  | SellTickets string uuid
  | SoldTickets string
  | RefundQuote string ustring
  | RefundTicket string ustring
  | PostCheckoutSession payment_order string string
  | GetCheckoutSession string payment_order

text \<open>
  \<open>out_cd\<close>: the railway's reply to a call, given all earlier calls. \<open>out_payment\<close>: the payment server's
  reply, absent when the transport, the status or the body is bad; \<open>pay_callback\<close> is the callback
  address built from a configured base. Without a configured provider the service uses
  \<open>DisabledPaymentProvider\<close>. A refund that the railway accepts without a body has the empty object as
  its reply.
\<close>

record http_payment =
  pay_reply :: "(outside_call \<times> bool) list \<Rightarrow> outside_call \<Rightarrow> provider_status option"
  pay_callback :: "string \<Rightarrow> uuid \<Rightarrow> string option"
  pay_return_url :: string
  pay_cancel_url :: string

datatype op_body =
    BodyCreate order_create_request | BodyId uuid | BodyOffer i32
  | BodyReservations "reservation_selection list" | BodyBicycles bicycle_request | BodyDogs dog_request
  | BodyCustomer customer_request | BodyEmail ustring

record outside =
  out_cd :: "((outside_call \<times> bool) list \<Rightarrow> outside_call \<Rightarrow> cd_error + json) option"
  out_payment :: "http_payment option"
  out_new_v4 :: "nat \<Rightarrow> uuid"
  out_digest :: "op_body \<Rightarrow> string"
  out_rfc3339 :: "date_time \<Rightarrow> string"

record ticketing =
  tk_orders :: "uuid \<rightharpoonup> order_record"
  tk_searches :: "uuid \<rightharpoonup> search_record"
  tk_documents :: "uuid \<rightharpoonup> document_record"
  tk_tickets :: "uuid \<rightharpoonup> ticket_record"
  tk_refunds :: "uuid \<rightharpoonup> refund_record"
  tk_idempotency :: "(uuid \<times> string \<times> string) \<rightharpoonup> idempotent_result"
  tk_rate :: "(uuid \<times> string) \<Rightarrow> nat list"
  tk_log :: "(outside_call \<times> bool) list"
  tk_drawn :: nat

section \<open>Operations that may fail\<close>

text \<open>\<open>?\<close> on a result, with the state passed along.\<close>

definition and_then :: "('e + 'a) \<times> 's \<Rightarrow> ('a \<Rightarrow> 's \<Rightarrow> ('e + 'b) \<times> 's) \<Rightarrow> ('e + 'b) \<times> 's" where
  "and_then m f = (case fst m of Inl e \<Rightarrow> (Inl e, snd m) | Inr x \<Rightarrow> f x (snd m))"

definition ok_or :: "'e \<Rightarrow> 'a option \<Rightarrow> 'e + 'a" where
  "ok_or e x = (case x of Some y \<Rightarrow> Inr y | None \<Rightarrow> Inl e)"

lemma and_then_Inl [simp]: "and_then (Inl e, st) f = (Inl e, st)"
  by (simp add: and_then_def)

lemma and_then_Inr [simp]: "and_then (Inr x, st) f = f x st"
  by (simp add: and_then_def)

lemma and_then_cases:
  assumes "and_then m f = (r, st')"
  obtains (error) e where "m = (Inl e, st')" "r = Inl e"
    | (ok) x st1 where "m = (Inr x, st1)" "f x st1 = (r, st')"
  using assms by (cases m) (auto simp: and_then_def split: sum.splits)

definition new_v4 :: "outside \<Rightarrow> ticketing \<Rightarrow> uuid \<times> ticketing" where
  "new_v4 out st = (out_new_v4 out (tk_drawn st), st\<lparr>tk_drawn := Suc (tk_drawn st)\<rparr>)"

text \<open>\<open>client()?\<close> and the call, logged with whether it succeeded.\<close>

definition cd_call :: "outside \<Rightarrow> outside_call \<Rightarrow> ticketing \<Rightarrow> (cd_error + json) \<times> ticketing" where
  "cd_call out call st =
     (case out_cd out of
        None \<Rightarrow> (Inl CdNotConfigured, st)
      | Some reply \<Rightarrow>
          (let r = reply (tk_log st) call
           in (r, st\<lparr>tk_log := tk_log st @ [(call, \<not> isl r)]\<rparr>)))"

definition cd_request :: "outside \<Rightarrow> outside_call \<Rightarrow> ticketing \<Rightarrow> (api_error + json) \<times> ticketing" where
  "cd_request out call st = (case cd_call out call st of
     (Inl e, st) \<Rightarrow> (Inl (cd_failure e), st) | (Inr v, st) \<Rightarrow> (Inr v, st))"

section \<open>Payment\<close>

definition valid_provider_session_id :: "string \<Rightarrow> bool" where
  "valid_provider_session_id v \<longleftrightarrow> v \<noteq> [] \<and> length v \<le> 128 \<and>
     list_all (\<lambda>c. is_ascii_alphanumeric (of_char c) \<or> c \<in> set ''-_.:'') v"

definition create_checkout ::
  "outside \<Rightarrow> payment_order \<Rightarrow> ticketing \<Rightarrow> (payment_error + checkout_session) \<times> ticketing" where
  "create_checkout out order st =
     (case out_payment out of
        None \<Rightarrow> (Inl PayNotConfigured, st)
      | Some pay \<Rightarrow>
          and_then (ok_or PayNotConfigured (pay_callback pay (pay_return_url pay) (po_order_id order)), st) (\<lambda>return_url st.
          and_then (ok_or PayNotConfigured (pay_callback pay (pay_cancel_url pay) (po_order_id order)), st) (\<lambda>cancel_url st.
            (let call = PostCheckoutSession order return_url cancel_url;
                 reply = pay_reply pay (tk_log st) call;
                 st = st\<lparr>tk_log := tk_log st @ [(call, reply \<noteq> None)]\<rparr>
             in and_then (ok_or PayUnavailable reply, st) (\<lambda>p st.
                  if \<not> valid_provider_session_id (ps_id p) \<or> ps_amount_hellers p \<noteq> po_amount_hellers order \<or>
                     ps_currency p \<noteq> ''CZK''
                  then (Inl PayMismatch, st)
                  else and_then (ok_or PayUnavailable (ps_redirect_url p), st) (\<lambda>redirect_url st.
                         (Inr \<lparr>cs_id = ps_id p, cs_redirect_url = redirect_url, cs_return_url = return_url,
                               cs_cancel_url = cancel_url, cs_expires_at = ps_expires_at p\<rparr>, st)))))))"

text \<open>The log entry of a status request says whether the provider vouched for the payment.\<close>

definition settles :: "string \<Rightarrow> payment_order \<Rightarrow> provider_status \<Rightarrow> payment_error + unit" where
  "settles session order p =
     (if ps_id p \<noteq> session \<or> ps_amount_hellers p \<noteq> po_amount_hellers order \<or> ps_currency p \<noteq> ''CZK''
      then Inl PayMismatch
      else if ps_status p \<noteq> ''settled'' then Inl PayNotSettled else Inr ())"

definition verify_settled ::
  "outside \<Rightarrow> string \<Rightarrow> payment_order \<Rightarrow> ticketing \<Rightarrow> (payment_error + unit) \<times> ticketing" where
  "verify_settled out session order st =
     (case out_payment out of
        None \<Rightarrow> (Inl PayNotConfigured, st)
      | Some pay \<Rightarrow>
          if \<not> valid_provider_session_id session then (Inl PayMismatch, st)
          else (let call = GetCheckoutSession session order;
                    r = (case pay_reply pay (tk_log st) call of None \<Rightarrow> Inl PayUnavailable | Some p \<Rightarrow> settles session order p)
                in (r, st\<lparr>tk_log := tk_log st @ [(call, \<not> isl r)]\<rparr>)))"

end
