(* ===== verification/Ticketing_Orders.thy ===== *)
theory Ticketing_Orders
  imports Ticketing_Model
begin

text \<open>
  The order handlers of \<^verbatim>\<open>services/api/src/ticketing.rs\<close>, each as one function on the state. A handler
  holds the mutex of its idempotency key, and all but \<open>create_order\<close> and \<open>refund\<close> hold the mutex of the
  order, from before the first read to after the last write, so two requests for one order never
  overlap; requests for different orders touch different entries of the store.
\<close>

section \<open>Public views\<close>

definition public_order :: "order_record \<Rightarrow> json" where
  "public_order o' =
     (let q = remove_keys [''handle'', ''connId'', ''bookingId'', ''documentId'', ''ticketId'', ''orderNumber''] (or_quote o')
      in JObject [(''id'', JString (show_uuid (or_id o'))), (''searchId'', JString (show_uuid (or_search_id o'))),
           (''connectionId'', JString (show_uuid (or_connection_id o'))), (''status'', JString (or_status o')),
           (''selectedOfferType'', json_option JInt (or_selected_offer_type o')),
           (''amountHellers'', json_option JInt (or_amount_hellers o')), (''currency'', JString ''CZK''),
           (''quote'', q), (''version'', JInt (or_version o'))])"

definition public_ticket :: "ticket_record \<Rightarrow> json" where
  "public_ticket t =
     JObject [(''id'', JString (show_uuid (ti_id t))), (''orderId'', JString (show_uuid (ti_order_id t))),
       (''returned'', JBool (ti_returned t)),
       (''details'', remove_keys [''ticketId'', ''documentId'', ''orderNumber''] (ti_payload t))]"

definition public_refund :: "refund_record \<Rightarrow> json" where
  "public_refund r =
     JObject [(''id'', JString (show_uuid (re_id r))), (''ticketId'', JString (show_uuid (re_ticket_id r))),
       (''status'', JString (re_status r)), (''amountHellers'', json_option JInt (re_amount_hellers r)),
       (''details'', sanitize_public (re_payload r))]"

definition public_checkout :: "outside \<Rightarrow> checkout_session \<Rightarrow> json" where
  "public_checkout out s =
     JObject [(''id'', JString (cs_id s)), (''redirectUrl'', JString (cs_redirect_url s)),
       (''returnUrl'', JString (cs_return_url s)), (''cancelUrl'', JString (cs_cancel_url s)),
       (''expiresAt'', json_option (\<lambda>t. JString (out_rfc3339 out t)) (cs_expires_at s))]"

section \<open>Access to the store\<close>

definition owned_search :: "uuid \<Rightarrow> uuid \<Rightarrow> date_time \<Rightarrow> ticketing \<Rightarrow> api_error + search_record" where
  "owned_search user sid now st =
     (case tk_searches st sid of
        Some v \<Rightarrow> if se_user_id v = user \<and> now < se_expires_at v then Inr v else Inl not_found_owned
      | None \<Rightarrow> Inl not_found_owned)"

definition owned_order :: "uuid \<Rightarrow> uuid \<Rightarrow> ticketing \<Rightarrow> api_error + order_record" where
  "owned_order user oid st =
     (case tk_orders st oid of
        Some v \<Rightarrow> if or_user_id v = user then Inr v else Inl not_found_owned
      | None \<Rightarrow> Inl not_found_owned)"

definition owned_ticket :: "uuid \<Rightarrow> uuid \<Rightarrow> ticketing \<Rightarrow> api_error + ticket_record" where
  "owned_ticket user tid st =
     (case tk_tickets st tid of
        Some v \<Rightarrow> if ti_user_id v = user then Inr v else Inl not_found_owned
      | None \<Rightarrow> Inl not_found_owned)"

definition save_order :: "order_record \<Rightarrow> ticketing \<Rightarrow> ticketing" where
  "save_order o' st = st\<lparr>tk_orders := (tk_orders st)(or_id o' \<mapsto> o')\<rparr>"

definition require_draft :: "order_record \<Rightarrow> api_error + unit" where
  "require_draft o' =
     (if or_status o' \<noteq> ''draft'' then Inl (tk_error ''invalid_order_state'' ''Order is not editable'') else Inr ())"

text \<open>The sliding window of a minute per user and bucket; instants are nanoseconds.\<close>

definition MUTATION_LIMIT :: nat where
  "MUTATION_LIMIT = 20"

definition SEARCH_LIMIT :: nat where
  "SEARCH_LIMIT = 30"

definition rate_limit :: "uuid \<Rightarrow> string \<Rightarrow> nat \<Rightarrow> nat \<Rightarrow> ticketing \<Rightarrow> (api_error + unit) \<times> ticketing" where
  "rate_limit user bucket maximum now st =
     (let queue = dropWhile (\<lambda>t. 60 * 10 ^ 9 < now - t) (tk_rate st (user, bucket))
      in if maximum \<le> length queue
         then (Inl (tk_error ''rate_limited'' ''Too many ticketing requests''),
               st\<lparr>tk_rate := (tk_rate st)((user, bucket) := queue)\<rparr>)
         else (Inr (), st\<lparr>tk_rate := (tk_rate st)((user, bucket) := queue @ [now])\<rparr>))"

section \<open>Idempotency\<close>

definition valid_idempotency_key :: "string \<Rightarrow> bool" where
  "valid_idempotency_key key \<longleftrightarrow> 8 \<le> length key \<and> length key \<le> 128 \<and>
     list_all (\<lambda>c. is_ascii_alphanumeric (of_char c) \<or> c \<in> set ''-_.:'') key"

definition idempotent ::
  "outside \<Rightarrow> uuid \<Rightarrow> string \<Rightarrow> string option \<Rightarrow> op_body \<Rightarrow>
     (ticketing \<Rightarrow> (api_error + nat \<times> json) \<times> ticketing) \<Rightarrow> ticketing \<Rightarrow> (api_error + nat \<times> json) \<times> ticketing" where
  "idempotent out user op key_header body run st =
     (case key_header of
        None \<Rightarrow> (Inl (tk_error ''idempotency_key_required'' ''Idempotency-Key header is required''), st)
      | Some key \<Rightarrow>
          if \<not> valid_idempotency_key key then (Inl (validation ''invalid Idempotency-Key''), st)
          else (case tk_idempotency st (user, op, key) of
                  Some old \<Rightarrow>
                    if ir_request_hash old \<noteq> out_digest out body
                    then (Inl (tk_error ''idempotency_conflict'' ''Idempotency-Key was used with a different request''), st)
                    else (Inr (ir_status old, ir_body old), st)
                | None \<Rightarrow>
                    and_then (run st) (\<lambda>(status, response) st.
                      (Inr (status, response),
                       st\<lparr>tk_idempotency := (tk_idempotency st)
                           ((user, op, key) \<mapsto> \<lparr>ir_request_hash = out_digest out body, ir_status = status,
                                               ir_body = response\<rparr>)\<rparr>))))"

section \<open>Quotes\<close>

definition create_order_body ::
  "outside \<Rightarrow> uuid \<Rightarrow> date_time \<Rightarrow> order_create_request \<Rightarrow> ticketing \<Rightarrow> (api_error + nat \<times> json) \<times> ticketing" where
  "create_order_body out user now body st =
     and_then (owned_search user (oc_search_id body) now st, st) (\<lambda>s st.
     and_then (ok_or not_found_owned (se_connections s (oc_connection_id body)), st) (\<lambda>conn st.
     and_then (booking_request (oc_passenger_groups body) (oc_class body) QUOTE_CREATE_FLAGS, st) (\<lambda>booking st.
     and_then (cd_request out (CreatePriceOffer (se_handle s) conn (Some QUOTE_CREATE_FLAGS) booking) st) (\<lambda>raw st.
     and_then (ok_or (tk_error ''upstream_malformed_response'' (with_caron ''D quote has no booking identifier''))
                 (Option.bind (json_get raw ''bookingId'') as_str), st) (\<lambda>booking_id st.
       (let (oid, st) = new_v4 out st;
            record = \<lparr>or_id = oid, or_user_id = user, or_search_id = se_id s, or_connection_id = oc_connection_id body,
                      or_conn_id = conn, or_booking_id = booking_id, or_status = ''draft'',
                      or_selected_offer_type = None, or_amount_hellers = offer_amount raw, or_customer = None,
                      or_quote = raw, or_checkout_session_id = None, or_version = 0\<rparr>
        in (Inr (201, public_order record), save_order record st)))))))"

definition create_order ::
  "outside \<Rightarrow> uuid \<Rightarrow> nat \<Rightarrow> date_time \<Rightarrow> string option \<Rightarrow> order_create_request \<Rightarrow> ticketing \<Rightarrow>
     (api_error + nat \<times> json) \<times> ticketing" where
  "create_order out user instant now key body st =
     and_then (rate_limit user ''mutation'' MUTATION_LIMIT instant st) (\<lambda>_ st.
       idempotent out user ''create_order'' key (BodyCreate body) (create_order_body out user now body) st)"

definition refresh_quote_body :: "outside \<Rightarrow> uuid \<Rightarrow> uuid \<Rightarrow> ticketing \<Rightarrow> (api_error + nat \<times> json) \<times> ticketing" where
  "refresh_quote_body out user oid st =
     and_then (owned_order user oid st, st) (\<lambda>order st.
     and_then (require_draft order, st) (\<lambda>_ st.
     and_then (cd_request out (RefreshPriceOffer (or_booking_id order) (Some QUOTE_CREATE_FLAGS)) st) (\<lambda>raw st.
       (let order = order\<lparr>or_amount_hellers := offer_amount raw, or_quote := raw, or_version := or_version order + 1\<rparr>
        in (Inr (200, public_order order), save_order order st)))))"

definition refresh_quote :: "outside \<Rightarrow> uuid \<Rightarrow> string option \<Rightarrow> uuid \<Rightarrow> ticketing \<Rightarrow> (api_error + nat \<times> json) \<times> ticketing" where
  "refresh_quote out user key oid st =
     idempotent out user ''refresh_quote'' key (BodyId oid) (refresh_quote_body out user oid) st"

definition select_offer_body :: "outside \<Rightarrow> uuid \<Rightarrow> uuid \<Rightarrow> i32 \<Rightarrow> ticketing \<Rightarrow> (api_error + nat \<times> json) \<times> ticketing" where
  "select_offer_body out user oid offer_type st =
     and_then (owned_order user oid st, st) (\<lambda>order st.
     and_then (require_draft order, st) (\<lambda>_ st.
     and_then (cd_request out (SelectPriceOffer (or_booking_id order) (Some offer_type)) st) (\<lambda>raw st.
       (let amount = (case offer_amount raw of Some n \<Rightarrow> Some n | None \<Rightarrow> or_amount_hellers order);
            order = order\<lparr>or_selected_offer_type := Some offer_type, or_amount_hellers := amount, or_quote := raw,
                          or_version := or_version order + 1\<rparr>
        in (Inr (200, public_order order), save_order order st)))))"

definition select_offer ::
  "outside \<Rightarrow> uuid \<Rightarrow> string option \<Rightarrow> uuid \<Rightarrow> i32 \<Rightarrow> ticketing \<Rightarrow> (api_error + nat \<times> json) \<times> ticketing" where
  "select_offer out user key oid offer_type st =
     (if offer_type \<notin> set offer_types then (Inl (validation ''unsupported offerType''), st)
      else idempotent out user ''select_offer'' key (BodyOffer offer_type) (select_offer_body out user oid offer_type) st)"

definition cancel_order_body :: "outside \<Rightarrow> uuid \<Rightarrow> uuid \<Rightarrow> ticketing \<Rightarrow> (api_error + nat \<times> json) \<times> ticketing" where
  "cancel_order_body out user oid st =
     and_then (owned_order user oid st, st) (\<lambda>order st.
       if or_status order = ''cancelled'' then (Inr (200, public_order order), st)
       else
         and_then (require_draft order, st) (\<lambda>_ st.
         and_then (cd_request out (ReleasePriceOffer (or_booking_id order)) st) (\<lambda>_ st.
           (let order = order\<lparr>or_status := ''cancelled'', or_version := or_version order + 1\<rparr>
            in (Inr (200, public_order order), save_order order st)))))"

definition cancel_order :: "outside \<Rightarrow> uuid \<Rightarrow> string option \<Rightarrow> uuid \<Rightarrow> ticketing \<Rightarrow> (api_error + nat \<times> json) \<times> ticketing" where
  "cancel_order out user key oid st =
     idempotent out user ''cancel_order'' key (BodyId oid) (cancel_order_body out user oid) st"

section \<open>Additional services\<close>

definition mutate_addon_body ::
  "outside \<Rightarrow> uuid \<Rightarrow> uuid \<Rightarrow> (string \<Rightarrow> outside_call) \<Rightarrow> ticketing \<Rightarrow> (api_error + nat \<times> json) \<times> ticketing" where
  "mutate_addon_body out user oid call st =
     and_then (owned_order user oid st, st) (\<lambda>order st.
     and_then (require_draft order, st) (\<lambda>_ st.
     and_then (cd_request out (call (or_booking_id order)) st) (\<lambda>raw st.
       (Inr (200, sanitize_public raw), st))))"

definition mutate_addon ::
  "outside \<Rightarrow> uuid \<Rightarrow> string option \<Rightarrow> uuid \<Rightarrow> string \<Rightarrow> op_body \<Rightarrow> (string \<Rightarrow> outside_call) \<Rightarrow> ticketing \<Rightarrow>
     (api_error + nat \<times> json) \<times> ticketing" where
  "mutate_addon out user key oid op body call st =
     idempotent out user op key body (mutate_addon_body out user oid call) st"

definition set_reservations ::
  "outside \<Rightarrow> uuid \<Rightarrow> string option \<Rightarrow> uuid \<Rightarrow> reservation_selection list \<Rightarrow> ticketing \<Rightarrow> (api_error + nat \<times> json) \<times> ticketing" where
  "set_reservations out user key oid trains st =
     and_then (validate_reservations trains, st) (\<lambda>_ st.
       mutate_addon out user key oid ''reservations'' (BodyReservations trains) (\<lambda>bid. SetReservations bid trains) st)"

definition set_bicycles ::
  "outside \<Rightarrow> uuid \<Rightarrow> string option \<Rightarrow> uuid \<Rightarrow> bicycle_request \<Rightarrow> ticketing \<Rightarrow> (api_error + nat \<times> json) \<times> ticketing" where
  "set_bicycles out user key oid body st =
     and_then (validate_bicycles body, st) (\<lambda>_ st.
       mutate_addon out user key oid ''bicycles'' (BodyBicycles body)
         (\<lambda>bid. if br_price_only body then BikePrice bid (br_count body) (br_trains body)
                else SetBikes bid (br_count body) (br_trains body)) st)"

definition set_dogs ::
  "outside \<Rightarrow> uuid \<Rightarrow> string option \<Rightarrow> uuid \<Rightarrow> dog_request \<Rightarrow> ticketing \<Rightarrow> (api_error + nat \<times> json) \<times> ticketing" where
  "set_dogs out user key oid body st =
     and_then (validate_dogs body, st) (\<lambda>_ st.
       mutate_addon out user key oid ''dogs'' (BodyDogs body)
         (\<lambda>bid. if dr_price_only body then DogPrice bid (dr_count body) (dr_direction body)
                else SetDogs bid (dr_count body) (dr_direction body)) st)"

section \<open>Checkout and issue\<close>

definition payment_order_of :: "order_record \<Rightarrow> int \<Rightarrow> payment_order" where
  "payment_order_of order amount = \<lparr>po_order_id = or_id order, po_amount_hellers = amount, po_currency = ''CZK''\<rparr>"

definition map_error :: "('e \<Rightarrow> 'f) \<Rightarrow> ('e + 'a) \<times> 's \<Rightarrow> ('f + 'a) \<times> 's" where
  "map_error f m = (case fst m of Inl e \<Rightarrow> (Inl (f e), snd m) | Inr x \<Rightarrow> (Inr x, snd m))"

definition checkout_body ::
  "outside \<Rightarrow> uuid \<Rightarrow> uuid \<Rightarrow> customer_request \<Rightarrow> ticketing \<Rightarrow> (api_error + nat \<times> json) \<times> ticketing" where
  "checkout_body out user oid customer st =
     and_then (owned_order user oid st, st) (\<lambda>order st.
     and_then (require_draft order, st) (\<lambda>_ st.
     and_then (ok_or (tk_error ''quote_incomplete'' ''The selected offer has no payable amount'') (or_amount_hellers order), st)
       (\<lambda>amount st.
     and_then (map_error payment_failure (create_checkout out (payment_order_of order amount) st)) (\<lambda>session st.
       (let order = order\<lparr>or_status := ''checkout_pending'', or_customer := Some customer,
                          or_checkout_session_id := Some (cs_id session), or_version := or_version order + 1\<rparr>
        in (Inr (201, JObject [(''order'', public_order order), (''checkoutSession'', public_checkout out session)]),
            save_order order st))))))"

definition checkout ::
  "outside \<Rightarrow> uuid \<Rightarrow> string option \<Rightarrow> uuid \<Rightarrow> customer_request \<Rightarrow> ticketing \<Rightarrow> (api_error + nat \<times> json) \<times> ticketing" where
  "checkout out user key oid customer st =
     and_then (validate_customer customer, st) (\<lambda>_ st.
       idempotent out user ''checkout'' key (BodyCustomer customer) (checkout_body out user oid customer) st)"

definition issue_ticket :: "outside \<Rightarrow> order_record \<Rightarrow> ticketing \<Rightarrow> json \<Rightarrow> ticketing" where
  "issue_ticket out order st ticket =
     (case Option.bind (json_get ticket ''ticketId'') as_str of
        None \<Rightarrow> st
      | Some upstream \<Rightarrow>
          (let (tid, st) = new_v4 out st;
               returned = (case Option.bind (json_get ticket ''isReturned'') as_bool of Some b \<Rightarrow> b | None \<Rightarrow> False)
           in st\<lparr>tk_tickets := (tk_tickets st)
                (tid \<mapsto> \<lparr>ti_id = tid, ti_user_id = or_user_id order, ti_order_id = or_id order, ti_upstream_id = upstream,
                         ti_payload = ticket, ti_returned = returned\<rparr>)\<rparr>))"

definition issue_document :: "outside \<Rightarrow> order_record \<Rightarrow> ticketing \<Rightarrow> json \<Rightarrow> ticketing" where
  "issue_document out order st doc =
     (let st = (case Option.bind (json_get doc ''documentId'') as_str of
                  None \<Rightarrow> st
                | Some upstream \<Rightarrow>
                    (let (did, st) = new_v4 out st;
                         document_type = Option.bind (Option.bind (json_get doc ''documentType'') as_i64) i32_try_from
                     in st\<lparr>tk_documents := (tk_documents st)
                          (did \<mapsto> \<lparr>do_id = did, do_user_id = or_user_id order, do_order_id = or_id order,
                                   do_upstream_id = upstream, do_document_type = document_type\<rparr>)\<rparr>))
      in foldl (issue_ticket out order) st (array_of doc ''ticketsIds''))"

definition persist_issued :: "outside \<Rightarrow> order_record \<Rightarrow> json \<Rightarrow> ticketing \<Rightarrow> order_record \<times> ticketing" where
  "persist_issued out order raw st =
     (let st = foldl (issue_document out order) st (array_of raw ''tickets'');
          order = order\<lparr>or_status := ''issued'', or_quote := raw, or_version := or_version order + 1\<rparr>
      in (order, save_order order st))"

definition reconcile_sold :: "outside \<Rightarrow> order_record \<Rightarrow> ticketing \<Rightarrow> (api_error + nat \<times> json) \<times> ticketing" where
  "reconcile_sold out order st =
     and_then (cd_request out (SoldTickets (or_booking_id order)) st) (\<lambda>sold st.
       if (case Option.bind (json_get sold ''tickets'') as_array of Some tickets \<Rightarrow> tickets \<noteq> [] | None \<Rightarrow> False)
       then (let (order, st) = persist_issued out order sold st in (Inr (200, public_order order), st))
       else (Inl (tk_error ''issuance_pending''
                    (''Payment is verified but '' @ with_caron ''D issuance could not yet be reconciled'')), st))"

definition sell :: "outside \<Rightarrow> order_record \<Rightarrow> ticketing \<Rightarrow> (api_error + nat \<times> json) \<times> ticketing" where
  "sell out order st =
     (case cd_call out (SellTickets (or_booking_id order) (or_id order)) st of
        (Inr raw, st) \<Rightarrow>
          (let (order, st) = persist_issued out order raw st in (Inr (200, public_order order), st))
      | (Inl e, st) \<Rightarrow> (Inl (cd_failure e), save_order (order\<lparr>or_status := ''issuance_failed''\<rparr>) st))"

definition complete_body :: "outside \<Rightarrow> uuid \<Rightarrow> uuid \<Rightarrow> ticketing \<Rightarrow> (api_error + nat \<times> json) \<times> ticketing" where
  "complete_body out user oid st =
     and_then (owned_order user oid st, st) (\<lambda>order st.
       if or_status order = ''issued'' then (Inr (200, public_order order), st)
       else if or_status order = ''paid'' \<or> or_status order = ''issuance_failed'' then reconcile_sold out order st
       else if or_status order \<noteq> ''checkout_pending''
       then (Inl (tk_error ''invalid_order_state'' ''Order is not awaiting payment''), st)
       else
         and_then (ok_or (tk_error ''quote_incomplete'' ''Order amount is unavailable'') (or_amount_hellers order), st) (\<lambda>amount st.
         and_then (ok_or (tk_error ''invalid_order_state'' ''Checkout session is missing'') (or_checkout_session_id order), st)
           (\<lambda>session st.
         and_then (map_error payment_failure (verify_settled out session (payment_order_of order amount) st)) (\<lambda>_ st.
         and_then (ok_or (tk_error ''invalid_order_state'' ''Customer data is missing'') (or_customer order), st) (\<lambda>customer st.
         and_then (cd_request out (FixPriceOffer (or_booking_id order) customer) st) (\<lambda>_ st.
           (let order = order\<lparr>or_status := ''paid''\<rparr> in sell out order (save_order order st))))))))"

definition complete :: "outside \<Rightarrow> uuid \<Rightarrow> string option \<Rightarrow> uuid \<Rightarrow> ticketing \<Rightarrow> (api_error + nat \<times> json) \<times> ticketing" where
  "complete out user key oid st = idempotent out user ''complete'' key (BodyId oid) (complete_body out user oid) st"

section \<open>Refunds\<close>

definition refund_body :: "outside \<Rightarrow> uuid \<Rightarrow> uuid \<Rightarrow> ustring \<Rightarrow> ticketing \<Rightarrow> (api_error + nat \<times> json) \<times> ticketing" where
  "refund_body out user tid email st =
     and_then (owned_ticket user tid st, st) (\<lambda>t st.
       if ti_returned t then (Inl (tk_error ''invalid_ticket_state'' ''Ticket has already been returned''), st)
       else
         and_then (cd_request out (RefundQuote (ti_upstream_id t) email) st) (\<lambda>quote st.
           if (case Option.bind (json_get quote ''errors'') as_array of Some v \<Rightarrow> v \<noteq> [] | None \<Rightarrow> False)
           then (Inl (tk_error ''refund_not_available'' (with_caron ''D reports that this ticket cannot be refunded'')), st)
           else
             and_then (cd_request out (RefundTicket (ti_upstream_id t) email) st) (\<lambda>result st.
               (let (rid, st) = new_v4 out st;
                    r = \<lparr>re_id = rid, re_user_id = user, re_ticket_id = ti_id t, re_status = ''requested'',
                         re_amount_hellers = Option.bind (json_get quote ''price2Refund'') as_i64, re_payload = result\<rparr>
                in (Inr (202, public_refund r), st\<lparr>tk_refunds := (tk_refunds st)(rid \<mapsto> r)\<rparr>)))))"

definition refund :: "outside \<Rightarrow> uuid \<Rightarrow> string option \<Rightarrow> uuid \<Rightarrow> ustring \<Rightarrow> ticketing \<Rightarrow> (api_error + nat \<times> json) \<times> ticketing" where
  "refund out user key tid email st =
     and_then (validate_email email, st) (\<lambda>_ st.
       idempotent out user ''refund'' key (BodyEmail email) (refund_body out user tid email) st)"

definition get_order :: "uuid \<Rightarrow> uuid \<Rightarrow> ticketing \<Rightarrow> (api_error + nat \<times> json) \<times> ticketing" where
  "get_order user oid st = and_then (owned_order user oid st, st) (\<lambda>order st. (Inr (200, public_order order), st))"

section \<open>The service as a step function\<close>

datatype request =
    CreateOrder order_create_request
  | GetOrder uuid
  | RefreshQuote uuid
  | SelectOffer uuid i32
  | CancelOrder uuid
  | Reservations uuid "reservation_selection list"
  | Bicycles uuid bicycle_request
  | Dogs uuid dog_request
  | Checkout uuid customer_request
  | Complete uuid
  | Refund uuid ustring

record call =
  ca_user :: uuid
  ca_key :: "string option"
  ca_instant :: nat
  ca_now :: date_time
  ca_request :: request

definition serve :: "outside \<Rightarrow> call \<Rightarrow> ticketing \<Rightarrow> (api_error + nat \<times> json) \<times> ticketing" where
  "serve out c st =
     (case ca_request c of
        CreateOrder body \<Rightarrow> create_order out (ca_user c) (ca_instant c) (ca_now c) (ca_key c) body st
      | GetOrder oid \<Rightarrow> get_order (ca_user c) oid st
      | RefreshQuote oid \<Rightarrow> refresh_quote out (ca_user c) (ca_key c) oid st
      | SelectOffer oid offer_type \<Rightarrow> select_offer out (ca_user c) (ca_key c) oid offer_type st
      | CancelOrder oid \<Rightarrow> cancel_order out (ca_user c) (ca_key c) oid st
      | Reservations oid trains \<Rightarrow> set_reservations out (ca_user c) (ca_key c) oid trains st
      | Bicycles oid body \<Rightarrow> set_bicycles out (ca_user c) (ca_key c) oid body st
      | Dogs oid body \<Rightarrow> set_dogs out (ca_user c) (ca_key c) oid body st
      | Checkout oid customer \<Rightarrow> checkout out (ca_user c) (ca_key c) oid customer st
      | Complete oid \<Rightarrow> complete out (ca_user c) (ca_key c) oid st
      | Refund tid email \<Rightarrow> refund out (ca_user c) (ca_key c) tid email st)"

definition serve_all :: "outside \<Rightarrow> call list \<Rightarrow> ticketing \<Rightarrow> ticketing" where
  "serve_all out calls st = foldl (\<lambda>st c. snd (serve out c st)) st calls"

end
