(* ===== verification/Ticketing_Steps.thy ===== *)
theory Ticketing_Steps
  imports Ticketing_Orders
begin

text \<open>
  A small-step description of what the handlers may do to orders and to the log of outside calls,
  the proof that every request is a sequence of such steps, and the abstract life cycle of an order.
\<close>

section \<open>Steps\<close>

definition is_sell :: "uuid \<Rightarrow> outside_call \<times> bool \<Rightarrow> bool" where
  "is_sell oid e \<longleftrightarrow> (\<exists>bid b. e = (SellTickets bid oid, b))"

fun is_sell_call :: "outside_call \<Rightarrow> bool" where
  "is_sell_call (SellTickets _ _) = True"
| "is_sell_call _ = False"

fun is_status_call :: "outside_call \<Rightarrow> bool" where
  "is_status_call (GetCheckoutSession _ _) = True"
| "is_status_call _ = False"

text \<open>
  After the calls \<open>l0\<close> the provider replied to a status request for this session that it is settled, in
  crowns and for the amount of the order; and a log in which every status request marked as successful
  had such a reply.
\<close>

definition confirmed :: "outside \<Rightarrow> (outside_call \<times> bool) list \<Rightarrow> string \<Rightarrow> payment_order \<Rightarrow> bool" where
  "confirmed out l0 session order \<longleftrightarrow> (\<exists>pay p. out_payment out = Some pay \<and>
     pay_reply pay l0 (GetCheckoutSession session order) = Some p \<and> ps_id p = session \<and> ps_status p = ''settled'' \<and>
     ps_amount_hellers p = po_amount_hellers order \<and> ps_currency p = ''CZK'')"

definition truthful :: "outside \<Rightarrow> (outside_call \<times> bool) list \<Rightarrow> (outside_call \<times> bool) list \<Rightarrow> bool" where
  "truthful out l0 l \<longleftrightarrow> (\<forall>pre session order post. l = pre @ (GetCheckoutSession session order, True) # post \<longrightarrow>
     confirmed out (l0 @ pre) session order)"

lemma truthful_Nil [simp]: "truthful out l0 []"
  by (simp add: truthful_def)

lemma truthful_single [simp]: "\<not> is_status_call call \<or> \<not> b \<Longrightarrow> truthful out l0 [(call, b)]"
  by (auto simp: truthful_def Cons_eq_append_conv)

lemma truthful_confirmed: "confirmed out l0 session order \<Longrightarrow> truthful out l0 [(GetCheckoutSession session order, True)]"
  by (auto simp: truthful_def Cons_eq_append_conv)

lemma truthful_append:
  assumes "truthful out l0 l" and "truthful out (l0 @ l) m"
  shows "truthful out l0 (l @ m)"
  unfolding truthful_def
proof (intro allI impI)
  fix pre session order post
  assume "l @ m = pre @ (GetCheckoutSession session order, True) # post"
  then consider us where "l = pre @ us" "us @ m = (GetCheckoutSession session order, True) # post"
    | us where "l @ us = pre" "m = us @ (GetCheckoutSession session order, True) # post"
    by (auto simp: append_eq_append_conv2)
  then show "confirmed out (l0 @ pre) session order"
  proof cases
    case (1 us)
    show ?thesis
    proof (cases us)
      case Nil
      then have "m = [] @ (GetCheckoutSession session order, True) # post" using 1 by simp
      with assms(2) have "confirmed out ((l0 @ l) @ []) session order" unfolding truthful_def by blast
      then show ?thesis using 1 Nil by simp
    next
      case (Cons u us')
      then have "l = pre @ (GetCheckoutSession session order, True) # us'" using 1 by simp
      with assms(1) show ?thesis unfolding truthful_def by blast
    qed
  next
    case (2 us)
    then show ?thesis using assms(2) unfolding truthful_def by (metis append_assoc)
  qed
qed

text \<open>The provider vouched for exactly this order, session and amount.\<close>

definition vouched :: "order_record \<Rightarrow> (outside_call \<times> bool) list \<Rightarrow> bool" where
  "vouched o' l \<longleftrightarrow> (\<exists>amount session. or_amount_hellers o' = Some amount \<and> or_checkout_session_id o' = Some session \<and>
     (GetCheckoutSession session (payment_order_of o' amount), True) \<in> set l)"

text \<open>The fields that stay the same after creation, and those fixed by the checkout.\<close>

definition same_booking :: "order_record \<Rightarrow> order_record \<Rightarrow> bool" where
  "same_booking a b \<longleftrightarrow> or_id a = or_id b \<and> or_user_id a = or_user_id b \<and> or_search_id a = or_search_id b \<and>
     or_connection_id a = or_connection_id b \<and> or_conn_id a = or_conn_id b \<and> or_booking_id a = or_booking_id b"

definition same_purchase :: "order_record \<Rightarrow> order_record \<Rightarrow> bool" where
  "same_purchase a b \<longleftrightarrow> same_booking a b \<and> or_amount_hellers a = or_amount_hellers b \<and>
     or_checkout_session_id a = or_checkout_session_id b \<and> or_customer a = or_customer b"

definition moves :: "uuid \<Rightarrow> order_record \<Rightarrow> order_record \<Rightarrow> ticketing \<Rightarrow> ticketing \<Rightarrow> (outside_call \<times> bool) list \<Rightarrow> bool" where
  "moves user a b st st' l \<longleftrightarrow> tk_orders st (or_id a) = Some a \<and> or_user_id a = user \<and> same_booking a b \<and>
     tk_orders st' = (tk_orders st)(or_id a \<mapsto> b) \<and> tk_log st' = tk_log st @ l \<and> tk_drawn st \<le> tk_drawn st'"

inductive micro :: "outside \<Rightarrow> uuid \<Rightarrow> ticketing \<Rightarrow> ticketing \<Rightarrow> bool" for out user where
  quiet: "tk_orders st' = tk_orders st \<Longrightarrow> tk_log st' = tk_log st @ l \<Longrightarrow> tk_drawn st \<le> tk_drawn st' \<Longrightarrow>
    \<forall>e \<in> set l. \<not> is_sell_call (fst e) \<Longrightarrow> truthful out (tk_log st) l \<Longrightarrow> micro out user st st'"
| create: "or_id a = out_new_v4 out (tk_drawn st) \<Longrightarrow> or_user_id a = user \<Longrightarrow> or_status a = ''draft'' \<Longrightarrow>
    tk_orders st' = (tk_orders st)(or_id a \<mapsto> a) \<Longrightarrow> tk_log st' = tk_log st \<Longrightarrow> tk_drawn st' = Suc (tk_drawn st) \<Longrightarrow>
    micro out user st st'"
| edit: "moves user a b st st' [] \<Longrightarrow> or_status a = ''draft'' \<Longrightarrow> or_status b = ''draft'' \<Longrightarrow> micro out user st st'"
| cancel: "moves user a b st st' [] \<Longrightarrow> or_status a = ''draft'' \<Longrightarrow> or_status b = ''cancelled'' \<Longrightarrow> micro out user st st'"
| start_checkout: "moves user a b st st' [] \<Longrightarrow> or_status a = ''draft'' \<Longrightarrow> or_status b = ''checkout_pending'' \<Longrightarrow>
    or_amount_hellers a \<noteq> None \<Longrightarrow> or_amount_hellers b = or_amount_hellers a \<Longrightarrow> or_customer b \<noteq> None \<Longrightarrow>
    or_checkout_session_id b \<noteq> None \<Longrightarrow> micro out user st st'"
| pay: "moves user a b st st' [] \<Longrightarrow> or_status a = ''checkout_pending'' \<Longrightarrow> or_status b = ''paid'' \<Longrightarrow>
    same_purchase a b \<Longrightarrow> vouched a (tk_log st) \<Longrightarrow> micro out user st st'"
| sell: "moves user a b st st' [(SellTickets (or_booking_id a) (or_id a), success)] \<Longrightarrow> or_status a = ''paid'' \<Longrightarrow>
    or_status b = (if success then ''issued'' else ''issuance_failed'') \<Longrightarrow> same_purchase a b \<Longrightarrow> micro out user st st'"
| reconcile: "moves user a b st st' [] \<Longrightarrow> or_status a \<in> {''paid'', ''issuance_failed''} \<Longrightarrow> or_status b = ''issued'' \<Longrightarrow>
    same_purchase a b \<Longrightarrow> micro out user st st'"

inductive_cases microE: "micro out user st st'"

abbreviation micros :: "outside \<Rightarrow> uuid \<Rightarrow> ticketing \<Rightarrow> ticketing \<Rightarrow> bool" where
  "micros out user \<equiv> (micro out user)\<^sup>*\<^sup>*"

text \<open>States that agree on orders, log and drawn identifiers are the same for the steps.\<close>

lemma micros_quiet:
  "tk_orders st' = tk_orders st \<Longrightarrow> tk_log st' = tk_log st @ l \<Longrightarrow> tk_drawn st \<le> tk_drawn st' \<Longrightarrow>
    \<forall>e \<in> set l. \<not> is_sell_call (fst e) \<Longrightarrow> truthful out (tk_log st) l \<Longrightarrow> micros out user st st'"
  by (rule r_into_rtranclp) (rule micro.quiet)

lemma micros_step: "micros out user st st1 \<Longrightarrow> micro out user st1 st' \<Longrightarrow> micros out user st st'"
  by (rule rtranclp.rtrancl_into_rtrancl)

section \<open>What the building blocks do\<close>

lemma owned_order_Inr: "owned_order user oid st = Inr o' \<longleftrightarrow> tk_orders st oid = Some o' \<and> or_user_id o' = user"
  by (auto simp: owned_order_def split: option.splits)

lemma require_draft_Inr: "require_draft o' = Inr u \<longleftrightarrow> or_status o' = ''draft''"
  by (auto simp: require_draft_def)

lemma ok_or_Inr [simp]: "ok_or e x = Inr y \<longleftrightarrow> x = Some y"
  by (cases x) (auto simp: ok_or_def)

lemma cd_call_effect:
  assumes "cd_call out call st = (r, st')"
  obtains "st' = st" "\<exists>e. r = Inl e" | "st' = st\<lparr>tk_log := tk_log st @ [(call, \<not> isl r)]\<rparr>"
  using assms by (auto simp: cd_call_def Let_def split: option.splits)

lemma cd_request_effect:
  assumes "cd_request out call st = (r, st')"
  obtains l where "st' = st\<lparr>tk_log := tk_log st @ l\<rparr>" "l = [] \<or> (\<exists>b. l = [(call, b)])"
proof -
  obtain r1 st1 where c: "cd_call out call st = (r1, st1)" by fastforce
  then have "st' = st1" using assms by (auto simp: cd_request_def split: sum.splits)
  with c that [of "[]"] that [of "[(call, \<not> isl r1)]"] show ?thesis by (auto elim: cd_call_effect)
qed

lemma cd_request_micros: "cd_request out call st = (r, st') \<Longrightarrow> \<not> is_sell_call call \<Longrightarrow> \<not> is_status_call call \<Longrightarrow>
    micros out user st st'"
  by (erule cd_request_effect) (auto intro!: micros_quiet)

lemma cd_request_orders: "cd_request out call st = (r, st') \<Longrightarrow> tk_orders st' = tk_orders st"
  by (erule cd_request_effect) auto

lemma map_error_eq: "map_error f m = (r, st') \<Longrightarrow> \<exists>q. m = (q, st') \<and> (\<forall>x. r = Inr x \<longrightarrow> q = Inr x)"
  by (cases m) (auto simp: map_error_def split: sum.splits)

lemma create_checkout_effect:
  assumes "create_checkout out order st = (r, st')"
  shows "\<exists>l. st' = st\<lparr>tk_log := tk_log st @ l\<rparr> \<and> (\<forall>e \<in> set l. \<not> is_sell_call (fst e)) \<and> truthful out (tk_log st) l"
proof (cases "out_payment out")
  case None
  then show ?thesis using assms by (auto simp: create_checkout_def intro!: exI [of _ "[]"])
next
  case (Some pay)
  show ?thesis
    using assms unfolding create_checkout_def Some option.case
    by (auto simp: Let_def elim!: and_then_cases split: if_splits intro: exI [of _ "[]"])
qed

lemma verify_settled_effect:
  assumes "verify_settled out session order st = (r, st')"
  shows "st' = st\<lparr>tk_log := tk_log st @ (if r = Inr () then [(GetCheckoutSession session order, True)] else [])\<rparr> \<or>
    r \<noteq> Inr () \<and> st' = st\<lparr>tk_log := tk_log st @ [(GetCheckoutSession session order, False)]\<rparr>"
proof (cases "out_payment out")
  case (Some pay)
  then show ?thesis using assms
    by (cases "pay_reply pay (tk_log st) (GetCheckoutSession session order)"; cases r)
      (auto simp: verify_settled_def Let_def split: if_splits)
qed (use assms in \<open>auto simp: verify_settled_def\<close>)

lemma verify_settled_confirmed: "verify_settled out session order st = (Inr u, st') \<Longrightarrow> confirmed out (tk_log st) session order"
  by (auto simp: verify_settled_def settles_def confirmed_def Let_def split: option.splits if_splits)

lemma verify_settled_micros:
  assumes "verify_settled out session order st = (r, st')"
  shows "micros out user st st'"
proof (cases r)
  case (Inr u)
  with assms verify_settled_effect [OF assms] show ?thesis
    by (auto intro!: micros_quiet truthful_confirmed dest: verify_settled_confirmed)
qed (use verify_settled_effect [OF assms] in \<open>auto intro!: micros_quiet\<close>)

lemma issue_ticket_frame:
  "tk_orders (issue_ticket out o' st t) = tk_orders st" "tk_log (issue_ticket out o' st t) = tk_log st"
  "tk_drawn st \<le> tk_drawn (issue_ticket out o' st t)"
  by (auto simp: issue_ticket_def new_v4_def split: option.splits)

lemma issue_tickets_frame:
  "tk_orders (foldl (issue_ticket out o') st ts) = tk_orders st \<and> tk_log (foldl (issue_ticket out o') st ts) = tk_log st \<and>
   tk_drawn st \<le> tk_drawn (foldl (issue_ticket out o') st ts)"
proof (induction ts arbitrary: st)
  case (Cons t ts)
  with Cons.IH [of "issue_ticket out o' st t"] issue_ticket_frame [where out = out and o' = o' and st = st and t = t] show ?case by (auto intro: le_trans)
qed simp

lemma issue_document_frame:
  "tk_orders (issue_document out o' st d) = tk_orders st" "tk_log (issue_document out o' st d) = tk_log st"
  "tk_drawn st \<le> tk_drawn (issue_document out o' st d)"
  unfolding issue_document_def Let_def
  by (auto simp: issue_tickets_frame new_v4_def split: option.splits intro: le_trans [OF _ conjunct2 [OF conjunct2 [OF issue_tickets_frame]]])

lemma issue_documents_frame:
  "tk_orders (foldl (issue_document out o') st ds) = tk_orders st \<and> tk_log (foldl (issue_document out o') st ds) = tk_log st \<and>
   tk_drawn st \<le> tk_drawn (foldl (issue_document out o') st ds)"
proof (induction ds arbitrary: st)
  case (Cons d ds)
  with Cons.IH [of "issue_document out o' st d"] issue_document_frame [where out = out and o' = o' and st = st and d = d] show ?case by (auto intro: le_trans)
qed simp

lemma persist_issued_effect:
  assumes "persist_issued out o' raw st = (o2, st')"
  shows "o2 = o'\<lparr>or_status := ''issued'', or_quote := raw, or_version := or_version o' + 1\<rparr>"
    and "tk_orders st' = (tk_orders st)(or_id o' \<mapsto> o2)" "tk_log st' = tk_log st" "tk_drawn st \<le> tk_drawn st'"
  using assms issue_documents_frame [of out o' st "array_of raw ''tickets''"]
  by (auto simp: persist_issued_def Let_def save_order_def)

section \<open>Every handler is a sequence of steps\<close>

text \<open>Orders are stored under their own identifier.\<close>

definition keyed :: "ticketing \<Rightarrow> bool" where
  "keyed st \<longleftrightarrow> (\<forall>oid o'. tk_orders st oid = Some o' \<longrightarrow> or_id o' = oid)"

lemma owned_draft:
  assumes "(owned_order user oid st, st) = (Inr order, st1)" "(require_draft order, st1) = (Inr u, st2)" "keyed st"
  shows "st1 = st" "st2 = st" "tk_orders st (or_id order) = Some order" "or_user_id order = user"
    "or_status order = ''draft''" "or_id order = oid"
  using assms by (auto simp: owned_order_Inr require_draft_Inr keyed_def)

lemma refresh_quote_micros:
  assumes "refresh_quote_body out user oid st = (r, st')" and keyed: "keyed st"
  shows "micros out user st st'"
  using assms(1) unfolding refresh_quote_body_def
proof (elim and_then_cases, goal_cases)
  case (4 order st1 u st2 raw st3)
  note o' = owned_draft [OF 4(1,2) keyed]
  have c: "cd_request out (RefreshPriceOffer (or_booking_id order) (Some QUOTE_CREATE_FLAGS)) st = (Inr raw, st3)"
    using 4(3) o'(1,2) by simp
  let ?b = "order\<lparr>or_amount_hellers := offer_amount raw, or_quote := raw, or_version := or_version order + 1\<rparr>"
  have "micro out user st3 st'"
    using 4(4) o' cd_request_orders [OF c]
    by (intro micro.edit [where a = order and b = ?b]) (auto simp: Let_def moves_def save_order_def same_booking_def)
  with cd_request_micros [OF c] show ?case by (auto intro: micros_step)
qed (auto dest: cd_request_micros)

lemma select_offer_micros:
  assumes "select_offer_body out user oid offer_type st = (r, st')" and keyed: "keyed st"
  shows "micros out user st st'"
  using assms(1) unfolding select_offer_body_def
proof (elim and_then_cases, goal_cases)
  case (4 order st1 u st2 raw st3)
  note o' = owned_draft [OF 4(1,2) keyed]
  have c: "cd_request out (SelectPriceOffer (or_booking_id order) (Some offer_type)) st = (Inr raw, st3)"
    using 4(3) o'(1,2) by simp
  let ?b = "order\<lparr>or_selected_offer_type := Some offer_type,
    or_amount_hellers := (case offer_amount raw of Some n \<Rightarrow> Some n | None \<Rightarrow> or_amount_hellers order),
    or_quote := raw, or_version := or_version order + 1\<rparr>"
  have "micro out user st3 st'"
    using 4(4) o' cd_request_orders [OF c]
    by (intro micro.edit [where a = order and b = ?b]) (auto simp: Let_def moves_def save_order_def same_booking_def)
  with cd_request_micros [OF c] show ?case by (auto intro: micros_step)
qed (auto dest: cd_request_micros)

lemma cancel_order_micros:
  assumes "cancel_order_body out user oid st = (r, st')" and keyed: "keyed st"
  shows "micros out user st st'"
proof (cases "owned_order user oid st")
  case (Inl e)
  then show ?thesis using assms by (simp add: cancel_order_body_def)
next
  case (Inr order)
  show ?thesis
  proof (cases "or_status order = ''cancelled''")
    case True
    then show ?thesis using assms Inr by (simp add: cancel_order_body_def)
  next
    case False
    have "and_then (require_draft order, st) (\<lambda>_ st.
         and_then (cd_request out (ReleasePriceOffer (or_booking_id order)) st) (\<lambda>_ st.
           (let order = order\<lparr>or_status := ''cancelled'', or_version := or_version order + 1\<rparr>
            in (Inr (200, public_order order), save_order order st)))) = (r, st')"
      using assms(1) Inr False by (simp add: cancel_order_body_def)
    then show ?thesis
    proof (elim and_then_cases, goal_cases)
      case (3 u st2 raw st3)
      have "(owned_order user oid st, st) = (Inr order, st)" using Inr by simp
      note o' = owned_draft [OF this 3(1) keyed]
      have c: "cd_request out (ReleasePriceOffer (or_booking_id order)) st = (Inr raw, st3)" using 3(2) o'(2) by simp
      let ?b = "order\<lparr>or_status := ''cancelled'', or_version := or_version order + 1\<rparr>"
      have "micro out user st3 st'"
        using 3(3) o' cd_request_orders [OF c]
        by (intro micro.cancel [where a = order and b = ?b]) (auto simp: Let_def moves_def save_order_def same_booking_def)
      with cd_request_micros [OF c] show ?case by (auto intro: micros_step)
    qed (auto dest: cd_request_micros)
  qed
qed

lemma mutate_addon_micros:
  assumes "mutate_addon_body out user oid call st = (r, st')" and "\<And>b. \<not> is_sell_call (call b) \<and> \<not> is_status_call (call b)"
  shows "micros out user st st'"
  using assms(1) unfolding mutate_addon_body_def
  by (elim and_then_cases) (auto simp: assms(2) dest!: cd_request_micros)

lemma create_order_micros:
  assumes "create_order_body out user now body st = (r, st')"
  shows "micros out user st st'"
  using assms unfolding create_order_body_def
proof (elim and_then_cases, goal_cases)
  case (6 s st1 conn st2 booking st3 raw st4 bid st5)
  then have c: "cd_request out (CreatePriceOffer (se_handle s) conn (Some QUOTE_CREATE_FLAGS) booking) st = (Inr raw, st4)"
    and st5: "st5 = st4" by auto
  let ?a = "\<lparr>or_id = out_new_v4 out (tk_drawn st4), or_user_id = user, or_search_id = se_id s,
    or_connection_id = oc_connection_id body, or_conn_id = conn, or_booking_id = bid, or_status = ''draft'',
    or_selected_offer_type = None, or_amount_hellers = offer_amount raw, or_customer = None,
    or_quote = raw, or_checkout_session_id = None, or_version = 0\<rparr>"
  have "micro out user st4 st'"
    using 6(6) st5 by (intro micro.create [where a = ?a]) (auto simp: Let_def new_v4_def save_order_def)
  with cd_request_micros [OF c] show ?case by (auto intro: micros_step)
qed (auto dest: cd_request_micros)

lemma checkout_micros:
  assumes "checkout_body out user oid customer st = (r, st')" and keyed: "keyed st"
  shows "micros out user st st'"
  using assms(1) unfolding checkout_body_def
proof (elim and_then_cases, goal_cases)
  case (4 order st1 u st2 amount st3 e)
  then obtain q where "create_checkout out (payment_order_of order amount) st = (q, st')"
    by (auto dest: map_error_eq)
  from create_checkout_effect [OF this] show ?case by (auto intro: micros_quiet)
next
  case (5 order st1 u st2 amount st3 session st4)
  note o' = owned_draft [OF 5(1,2) keyed]
  from 5(3) o'(1,2) have st3: "st3 = st" and amount: "or_amount_hellers order = Some amount" by auto
  with 5(4) o'(1,2) obtain q where "create_checkout out (payment_order_of order amount) st = (q, st4)"
    by (auto dest: map_error_eq)
  from create_checkout_effect [OF this] obtain l where
    l: "st4 = st\<lparr>tk_log := tk_log st @ l\<rparr>" "\<forall>e \<in> set l. \<not> is_sell_call (fst e)" "truthful out (tk_log st) l" by blast
  let ?b = "order\<lparr>or_status := ''checkout_pending'', or_customer := Some customer,
    or_checkout_session_id := Some (cs_id session), or_version := or_version order + 1\<rparr>"
  have "micro out user st4 st'"
    using 5(5) o' l(1) amount
    by (intro micro.start_checkout [where a = order and b = ?b])
      (auto simp: Let_def moves_def save_order_def same_booking_def)
  moreover have "micros out user st st4" using l by (auto intro: micros_quiet)
  ultimately show ?case by (auto intro: micros_step)
qed (auto dest!: map_error_eq)

lemma same_purchase_update [simp]:
  "same_purchase o' (o'\<lparr>or_status := s\<rparr>)"
  "same_purchase o' (o'\<lparr>or_status := s, or_quote := q, or_version := v\<rparr>)"
  "same_purchase o' (o'\<lparr>or_quote := q, or_status := s, or_version := v\<rparr>)"
  by (simp_all add: same_purchase_def same_booking_def)

lemma reconcile_sold_micros:
  assumes "reconcile_sold out order st = (r, st')" and "tk_orders st (or_id order) = Some order"
    and "or_user_id order = user" "or_status order \<in> {''paid'', ''issuance_failed''}"
  shows "micros out user st st'"
  using assms(1) unfolding reconcile_sold_def
proof (elim and_then_cases, goal_cases)
  case (2 sold st1)
  show ?case
  proof (cases "case Option.bind (json_get sold ''tickets'') as_array of Some tickets \<Rightarrow> tickets \<noteq> [] | None \<Rightarrow> False")
    case True
    then obtain o2 where p: "persist_issued out order sold st1 = (o2, st')"
      using 2(2) by (cases "persist_issued out order sold st1") (auto simp: Let_def)
    have "micro out user st1 st'"
      using persist_issued_effect [OF p] cd_request_orders [OF 2(1)] assms
      by (intro micro.reconcile [where a = order and b = o2])
        (auto simp: moves_def same_booking_def)
    with cd_request_micros [OF 2(1)] show ?thesis by (auto intro: micros_step)
  next
    case False
    then show ?thesis using 2 cd_request_micros [OF 2(1)] by (auto split: option.splits)
  qed
qed (auto dest: cd_request_micros)

lemma sell_micros:
  assumes "Ticketing_Orders.sell out order st = (r, st')" and "tk_orders st (or_id order) = Some order"
    and "or_user_id order = user" "or_status order = ''paid''" and "out_cd out \<noteq> None"
  shows "micro out user st st'"
proof -
  obtain q st1 where c: "cd_call out (SellTickets (or_booking_id order) (or_id order)) st = (q, st1)" by fastforce
  have st1: "st1 = st\<lparr>tk_log := tk_log st @ [(SellTickets (or_booking_id order) (or_id order), \<not> isl q)]\<rparr>"
    using c assms(5) by (auto simp: cd_call_def Let_def)
  show ?thesis
  proof (cases q)
    case (Inl e)
    with assms st1 c show ?thesis
      by (intro micro.sell [where a = order and b = "order\<lparr>or_status := ''issuance_failed''\<rparr>" and success = False])
        (auto simp: Ticketing_Orders.sell_def moves_def save_order_def same_booking_def)
  next
    case (Inr raw)
    then obtain o2 where p: "persist_issued out order raw st1 = (o2, st')"
      using assms(1) c by (cases "persist_issued out order raw st1") (auto simp: Ticketing_Orders.sell_def)
    show ?thesis
      using persist_issued_effect [OF p] assms st1 Inr
      by (intro micro.sell [where a = order and b = o2 and success = True]) (auto simp: moves_def same_booking_def)
  qed
qed

lemma cd_request_configured: "cd_request out call st = (Inr v, st') \<Longrightarrow> out_cd out \<noteq> None"
  by (auto simp: cd_request_def cd_call_def split: option.splits)

lemma complete_micros:
  assumes "complete_body out user oid st = (r, st')" and keyed: "keyed st"
  shows "micros out user st st'"
proof (cases "owned_order user oid st")
  case (Inl e)
  then show ?thesis using assms by (simp add: complete_body_def)
next
  case (Inr order)
  then have o': "tk_orders st (or_id order) = Some order" "or_user_id order = user" "or_id order = oid"
    using keyed by (auto simp: owned_order_Inr keyed_def)
  consider "or_status order = ''issued''" | "or_status order = ''paid'' \<or> or_status order = ''issuance_failed''"
    | "or_status order \<notin> {''issued'', ''paid'', ''issuance_failed'', ''checkout_pending''}"
    | "or_status order = ''checkout_pending''" by blast
  then show ?thesis
  proof cases
    case 2
    then have "reconcile_sold out order st = (r, st')" using assms(1) Inr by (auto simp: complete_body_def)
    from reconcile_sold_micros [OF this o'(1,2)] 2 show ?thesis by auto
  next
    case 4
    then have "and_then (ok_or (tk_error ''quote_incomplete'' ''Order amount is unavailable'') (or_amount_hellers order), st) (\<lambda>amount st.
         and_then (ok_or (tk_error ''invalid_order_state'' ''Checkout session is missing'') (or_checkout_session_id order), st)
           (\<lambda>session st.
         and_then (map_error payment_failure (verify_settled out session (payment_order_of order amount) st)) (\<lambda>_ st.
         and_then (ok_or (tk_error ''invalid_order_state'' ''Customer data is missing'') (or_customer order), st) (\<lambda>customer st.
         and_then (cd_request out (FixPriceOffer (or_booking_id order) customer) st) (\<lambda>_ st.
           (let order = order\<lparr>or_status := ''paid''\<rparr> in Ticketing_Orders.sell out order (save_order order st))))))) = (r, st')"
      using assms(1) Inr by (simp add: complete_body_def)
    then show ?thesis
    proof (elim and_then_cases, goal_cases)
      case (3 amount st1 session st2 e)
      then obtain q where "verify_settled out session (payment_order_of order amount) st = (q, st')"
        by (auto dest: map_error_eq)
      then show ?case by (rule verify_settled_micros)
    next
      case (4 amount st1 session st2 u st3 e)
      then obtain q where "verify_settled out session (payment_order_of order amount) st = (q, st')"
        by (auto dest: map_error_eq)
      then show ?case by (rule verify_settled_micros)
    next
      case (5 amount st1 session st2 u st3 customer st4 e)
      then obtain q where "verify_settled out session (payment_order_of order amount) st = (q, st4)"
        by (auto dest: map_error_eq)
      then have "micros out user st st4" by (rule verify_settled_micros)
      moreover have "micros out user st4 st'" using 5 by (auto intro: cd_request_micros)
      ultimately show ?case by (rule rtranclp_trans)
    next
      case (6 amount st1 session st2 u st3 customer st4 v st5)
      then have v: "verify_settled out session (payment_order_of order amount) st = (Inr (), st4)"
        by (auto dest!: map_error_eq)
      have st4: "st4 = st\<lparr>tk_log := tk_log st @ [(GetCheckoutSession session (payment_order_of order amount), True)]\<rparr>"
        using verify_settled_effect [OF v] by simp
      have c: "cd_request out (FixPriceOffer (or_booking_id order) customer) st4 = (Inr v, st5)" using 6 by auto
      from cd_request_effect [OF c] obtain l where l: "st5 = st4\<lparr>tk_log := tk_log st4 @ l\<rparr>" by blast
      let ?paid = "order\<lparr>or_status := ''paid''\<rparr>"
      have "vouched order (tk_log st5)" using 6(1,2) st4 l by (auto simp: vouched_def)
      then have pay: "micro out user st5 (save_order ?paid st5)"
        using o' st4 l \<open>or_status order = ''checkout_pending''\<close>
        by (intro micro.pay [where a = order and b = ?paid]) (auto simp: moves_def save_order_def same_booking_def)
      have "Ticketing_Orders.sell out ?paid (save_order ?paid st5) = (r, st')" using 6(6) by (simp add: Let_def)
      then have "micro out user (save_order ?paid st5) st'"
        using cd_request_configured [OF c] o'(2)
        by (intro sell_micros [where order = ?paid]) (simp_all add: save_order_def)
      moreover have "micros out user st st4" using v by (rule verify_settled_micros)
      moreover have "micros out user st4 st5" using cd_request_micros [OF c] by simp
      ultimately show ?case using pay by (meson micros_step rtranclp_trans)
    qed auto
  qed (use assms Inr in \<open>auto simp: complete_body_def\<close>)
qed

lemma refund_micros:
  assumes "refund_body out user tid email st = (r, st')"
  shows "micros out user st st'"
proof (cases "owned_ticket user tid st")
  case (Inl e)
  then show ?thesis using assms by (simp add: refund_body_def)
next
  case (Inr t)
  show ?thesis
  proof (cases "ti_returned t")
    case True
    then show ?thesis using assms Inr by (simp add: refund_body_def)
  next
    case False
    obtain q st1 where c1: "cd_request out (RefundQuote (ti_upstream_id t) email) st = (q, st1)" by fastforce
    have m1: "micros out user st st1" using cd_request_micros [OF c1] by simp
    show ?thesis
    proof (cases "st' = st1")
      case other: False
      with False obtain quote where q: "q = Inr quote" using assms Inr c1 by (cases q) (auto simp: refund_body_def)
      with other False have "and_then (cd_request out (RefundTicket (ti_upstream_id t) email) st1) (\<lambda>result st.
               (let (rid, st) = new_v4 out st;
                    r = \<lparr>re_id = rid, re_user_id = user, re_ticket_id = ti_id t, re_status = ''requested'',
                         re_amount_hellers = Option.bind (json_get quote ''price2Refund'') as_i64, re_payload = result\<rparr>
                in (Inr (202, public_refund r), st\<lparr>tk_refunds := (tk_refunds st)(rid \<mapsto> r)\<rparr>))) = (r, st')"
        using assms Inr c1 by (simp add: refund_body_def split: if_splits)
      then have "micros out user st1 st'"
      proof (elim and_then_cases, goal_cases)
        case (2 result st2)
        have "micros out user st2 st'" using 2(2) by (auto simp: Let_def new_v4_def intro: micros_quiet)
        with cd_request_micros [OF 2(1)] show ?case by (auto intro: rtranclp_trans)
      qed (auto dest: cd_request_micros)
      with m1 show ?thesis by (rule rtranclp_trans)
    qed (simp add: m1)
  qed
qed

lemma idempotent_micros:
  assumes "idempotent out user op key body run st = (r, st')"
    and "\<And>q st1. run st = (q, st1) \<Longrightarrow> micros out user st st1"
  shows "micros out user st st'"
proof -
  obtain q st1 where run: "run st = (q, st1)" by fastforce
  have "st' = st \<or> st' = st1 \<or> (\<exists>m. st' = st1\<lparr>tk_idempotency := m\<rparr>)"
    using assms(1) by (cases q) (auto simp: idempotent_def run split: option.splits if_splits prod.splits)
  moreover have "micros out user st1 (st1\<lparr>tk_idempotency := m\<rparr>)" for m by (auto intro: micros_quiet)
  ultimately show ?thesis using assms(2) [OF run] by (auto intro: rtranclp_trans)
qed

lemma mutate_addon_steps:
  assumes "mutate_addon out user key oid op body call st = (r, st')" and "\<forall>b. \<not> is_sell_call (call b) \<and> \<not> is_status_call (call b)"
  shows "micros out user st st'"
  using assms(1) unfolding mutate_addon_def
  by (rule idempotent_micros) (use assms(2) in \<open>auto intro: mutate_addon_micros\<close>)

lemma rate_limit_effect: "rate_limit user bucket maximum now st = (r, st') \<Longrightarrow> \<exists>q. st' = st\<lparr>tk_rate := q\<rparr>"
  by (auto simp: rate_limit_def Let_def split: if_splits)

text \<open>The simulation: one request is a sequence of small steps on behalf of the calling user.\<close>

lemma serve_micros:
  assumes "serve out c st = (r, st')" and keyed: "keyed st"
  shows "micros out (ca_user c) st st'"
proof (cases "ca_request c")
  case (CreateOrder body)
  obtain q st1 where l: "rate_limit (ca_user c) ''mutation'' MUTATION_LIMIT (ca_instant c) st = (q, st1)" by fastforce
  have "micros out (ca_user c) st st1" using rate_limit_effect [OF l] by (auto intro: micros_quiet)
  moreover have "micros out (ca_user c) st1 st'"
    using assms(1) CreateOrder l
    by (cases q) (auto simp: serve_def create_order_def intro: idempotent_micros create_order_micros)
  ultimately show ?thesis by (rule rtranclp_trans)
next
  case (SelectOffer oid offer_type)
  then show ?thesis using assms
    by (auto simp: serve_def select_offer_def intro: idempotent_micros select_offer_micros split: if_splits)
next
  case (Reservations oid trains)
  then show ?thesis using assms(1)
    by (auto simp: serve_def set_reservations_def elim!: and_then_cases intro: mutate_addon_steps)
next
  case (Bicycles oid body)
  then show ?thesis using assms(1)
    by (auto simp: serve_def set_bicycles_def elim!: and_then_cases intro: mutate_addon_steps split: if_splits)
next
  case (Dogs oid body)
  then show ?thesis using assms(1)
    by (auto simp: serve_def set_dogs_def elim!: and_then_cases intro: mutate_addon_steps split: if_splits)
next
  case (Checkout oid customer)
  then show ?thesis using assms
    by (auto simp: serve_def checkout_def elim!: and_then_cases intro: idempotent_micros checkout_micros)
next
  case (Refund tid email)
  then show ?thesis using assms(1)
    by (auto simp: serve_def refund_def elim!: and_then_cases intro: idempotent_micros refund_micros)
next
  case (GetOrder oid)
  then show ?thesis using assms(1) by (auto simp: serve_def get_order_def elim!: and_then_cases)
qed (use assms in \<open>auto simp: serve_def refresh_quote_def cancel_order_def complete_def
      intro: idempotent_micros refresh_quote_micros cancel_order_micros complete_micros\<close>)

end
