(* ===== verification/Ticketing_Props.thy ===== *)
theory Ticketing_Props
  imports Ticketing_Steps "HOL-Library.Sublist"
begin

text \<open>
  Invariants of the order store, by rule induction over the steps, and the properties of the service
  as a whole: the life cycle, the sale after payment, isolation of users, replay, progress.
\<close>

section \<open>The invariant\<close>

definition order_ok :: "order_record \<Rightarrow> bool" where
  "order_ok o' \<longleftrightarrow>
     or_status o' \<in> {''draft'', ''checkout_pending'', ''paid'', ''issued'', ''issuance_failed'', ''cancelled''} \<and>
     (or_status o' \<in> {''checkout_pending'', ''paid'', ''issued'', ''issuance_failed''} \<longrightarrow>
        or_amount_hellers o' \<noteq> None \<and> or_checkout_session_id o' \<noteq> None \<and> or_customer o' \<noteq> None)"

definition sales :: "uuid \<Rightarrow> (outside_call \<times> bool) list \<Rightarrow> nat" where
  "sales oid l = length (filter (is_sell oid) l)"

text \<open>Every sale in the log is for a known order and comes after the proof of its payment.\<close>

definition sales_paid :: "(uuid \<rightharpoonup> order_record) \<Rightarrow> (outside_call \<times> bool) list \<Rightarrow> bool" where
  "sales_paid orders l \<longleftrightarrow> (\<forall>pre bid oid b post. l = pre @ (SellTickets bid oid, b) # post \<longrightarrow>
     (\<exists>o'. orders oid = Some o' \<and> or_booking_id o' = bid \<and> vouched o' pre \<and>
        or_status o' \<in> {''issued'', ''issuance_failed''}))"

definition service_ok :: "outside \<Rightarrow> ticketing \<Rightarrow> bool" where
  "service_ok out st \<longleftrightarrow> keyed st \<and> sales_paid (tk_orders st) (tk_log st) \<and> truthful out [] (tk_log st) \<and>
     (\<forall>oid. sales oid (tk_log st) \<le> 1) \<and>
     (\<forall>oid o'. tk_orders st oid = Some o' \<longrightarrow>
        order_ok o' \<and> (\<exists>k < tk_drawn st. oid = out_new_v4 out k) \<and>
        (or_status o' \<in> {''draft'', ''checkout_pending'', ''paid'', ''cancelled''} \<longrightarrow> sales oid (tk_log st) = 0) \<and>
        (or_status o' \<in> {''paid'', ''issued'', ''issuance_failed''} \<longrightarrow> vouched o' (tk_log st)))"

lemma sales_append [simp]: "sales oid (l @ m) = sales oid l + sales oid m"
  by (simp add: sales_def)

lemma sales_none: "\<forall>e \<in> set l. \<not> is_sell_call (fst e) \<Longrightarrow> sales oid l = 0"
  by (auto simp: sales_def filter_empty_conv is_sell_def)

lemma sales_sell [simp]: "sales oid [(SellTickets bid oid', b)] = (if oid = oid' then 1 else 0)"
  by (simp add: sales_def is_sell_def)

lemma sales_0_iff: "sales oid l = 0 \<longleftrightarrow> (\<forall>e \<in> set l. \<not> is_sell oid e)"
  by (auto simp: sales_def filter_empty_conv)

lemma vouched_append: "vouched o' l \<Longrightarrow> vouched o' (l @ m)"
  by (auto simp: vouched_def)

lemma vouched_same: "same_purchase a b \<Longrightarrow> vouched a l \<Longrightarrow> vouched b l"
  by (auto simp: vouched_def same_purchase_def same_booking_def payment_order_of_def)

lemma append_eq_middle:
  assumes "l @ m = pre @ e # post" and "e \<notin> set m"
  shows "\<exists>post'. l = pre @ e # post'"
  using assms by (auto simp: append_eq_append_conv2 append_eq_Cons_conv Cons_eq_append_conv)

lemma sales_paid_append:
  assumes "sales_paid orders l" and "\<forall>e \<in> set m. \<not> is_sell_call (fst e)"
  shows "sales_paid orders (l @ m)"
  unfolding sales_paid_def
proof (intro allI impI)
  fix pre bid oid b post
  assume eq: "l @ m = pre @ (SellTickets bid oid, b) # post"
  have "(SellTickets bid oid, b) \<notin> set m" using assms(2) by auto
  from append_eq_middle [OF eq this] assms(1) show "\<exists>o'. orders oid = Some o' \<and> or_booking_id o' = bid \<and>
      vouched o' pre \<and> or_status o' \<in> {''issued'', ''issuance_failed''}"
    unfolding sales_paid_def by blast
qed

text \<open>An order without sales may change freely.\<close>

lemma sales_paid_update:
  assumes "sales_paid orders l" and "sales (or_id b) l = 0"
  shows "sales_paid (orders(or_id b \<mapsto> b)) l"
  using assms unfolding sales_paid_def sales_0_iff
  by (fastforce simp: is_sell_def)

lemma sales_paid_sold:
  assumes "sales_paid orders l" and "orders (or_id a) = Some a" "same_purchase a b"
    and "or_status b \<in> {''issued'', ''issuance_failed''}"
  shows "sales_paid (orders(or_id a \<mapsto> b)) l"
  unfolding sales_paid_def
proof (intro allI impI)
  fix pre bid oid s post
  assume "l = pre @ (SellTickets bid oid, s) # post"
  with assms(1) obtain o' where "orders oid = Some o'" "or_booking_id o' = bid" "vouched o' pre"
      "or_status o' \<in> {''issued'', ''issuance_failed''}"
    unfolding sales_paid_def by blast
  with assms(2,4) vouched_same [OF assms(3), of pre] assms(3)
  show "\<exists>o'. (orders(or_id a \<mapsto> b)) oid = Some o' \<and> or_booking_id o' = bid \<and> vouched o' pre \<and>
      or_status o' \<in> {''issued'', ''issuance_failed''}"
    by (cases "oid = or_id a") (auto simp: same_purchase_def same_booking_def)
qed

lemma sales_paid_snoc:
  assumes "sales_paid orders l" and "orders oid = Some o'" "or_booking_id o' = bid" "vouched o' l"
    "or_status o' \<in> {''issued'', ''issuance_failed''}"
  shows "sales_paid orders (l @ [(SellTickets bid oid, s)])"
  unfolding sales_paid_def
proof (intro allI impI)
  fix pre bid2 oid2 b post
  assume eq: "l @ [(SellTickets bid oid, s)] = pre @ (SellTickets bid2 oid2, b) # post"
  show "\<exists>o'. orders oid2 = Some o' \<and> or_booking_id o' = bid2 \<and> vouched o' pre \<and>
      or_status o' \<in> {''issued'', ''issuance_failed''}"
  proof (cases "post = []")
    case True
    with eq assms show ?thesis by auto
  next
    case False
    then obtain post' e where "post = post' @ [e]" by (metis rev_exhaust)
    with eq have "l = pre @ (SellTickets bid2 oid2, b) # post'" by simp
    with assms(1) show ?thesis unfolding sales_paid_def by blast
  qed
qed

text \<open>A change of one order that keeps its identity, seen from the invariant.\<close>

lemma moves_ok:
  assumes ok: "service_ok out st" and mv: "moves user a b st st' l"
    and "order_ok b" and sp: "sales_paid (tk_orders st') (tk_log st')" and "sales (or_id a) (tk_log st') \<le> 1"
    and tr: "truthful out (tk_log st) l"
    and nosale: "\<And>oid. oid \<noteq> or_id a \<Longrightarrow> sales oid l = 0"
    and "or_status b \<in> {''draft'', ''checkout_pending'', ''paid'', ''cancelled''} \<longrightarrow> sales (or_id a) (tk_log st') = 0"
    and "or_status b \<in> {''paid'', ''issued'', ''issuance_failed''} \<longrightarrow> vouched b (tk_log st')"
  shows "service_ok out st'"
proof -
  note m = mv [unfolded moves_def]
  have ids: "or_id b = or_id a" using m by (simp add: same_booking_def)
  have "keyed st'" using ok m ids by (auto simp: service_ok_def keyed_def)
  moreover have "sales oid (tk_log st') \<le> 1" for oid
    using ok nosale [of oid] m assms(5) by (cases "oid = or_id a") (auto simp: service_ok_def)
  moreover have "order_ok o' \<and> (\<exists>k < tk_drawn st'. oid = out_new_v4 out k) \<and>
        (or_status o' \<in> {''draft'', ''checkout_pending'', ''paid'', ''cancelled''} \<longrightarrow> sales oid (tk_log st') = 0) \<and>
        (or_status o' \<in> {''paid'', ''issued'', ''issuance_failed''} \<longrightarrow> vouched o' (tk_log st'))"
    if o': "tk_orders st' oid = Some o'" for oid o'
  proof (cases "oid = or_id a")
    case True
    then have "o' = b" using o' m by simp
    moreover have "\<exists>k < tk_drawn st'. oid = out_new_v4 out k"
    proof -
      have "\<exists>k < tk_drawn st. oid = out_new_v4 out k" using ok m True unfolding service_ok_def by blast
      with m show ?thesis by (blast intro: order_less_le_trans)
    qed
    ultimately show ?thesis using assms(3,8,9) True by simp
  next
    case False
    then have old: "tk_orders st oid = Some o'" using o' m by simp
    with ok have "order_ok o'" "\<exists>k < tk_drawn st. oid = out_new_v4 out k"
        "or_status o' \<in> {''draft'', ''checkout_pending'', ''paid'', ''cancelled''} \<longrightarrow> sales oid (tk_log st) = 0"
        "or_status o' \<in> {''paid'', ''issued'', ''issuance_failed''} \<longrightarrow> vouched o' (tk_log st)"
      unfolding service_ok_def by blast+
    moreover have "\<exists>k < tk_drawn st'. oid = out_new_v4 out k"
      using calculation(2) m by (blast intro: order_less_le_trans)
    ultimately show ?thesis using nosale [OF False] m vouched_append by auto
  qed
  moreover have "truthful out [] (tk_log st')"
    using truthful_append [of out "[]" "tk_log st" l] ok tr m by (simp add: service_ok_def)
  ultimately show ?thesis using sp unfolding service_ok_def by blast
qed

lemma micro_ok:
  assumes "micro out user st st'" and ok: "service_ok out st" and inj: "inj (out_new_v4 out)"
  shows "service_ok out st'"
  using assms(1)
proof cases
  case (quiet l)
  have "sales_paid (tk_orders st') (tk_log st')"
    using sales_paid_append [OF _ quiet(4), of "tk_orders st"] ok quiet(1,2) by (simp add: service_ok_def)
  moreover have "keyed st'" using ok quiet(1) by (simp add: service_ok_def keyed_def)
  moreover have "sales oid (tk_log st') = sales oid (tk_log st)" for oid by (simp add: quiet(2) sales_none [OF quiet(4)])
  moreover have "vouched o' (tk_log st')" if "vouched o' (tk_log st)" for o'
    using vouched_append [OF that] by (simp add: quiet(2))
  moreover have "truthful out [] (tk_log st')"
    using truthful_append [of out "[]" "tk_log st" l] ok quiet(2,5) by (simp add: service_ok_def)
  ultimately show ?thesis using ok quiet(1,3) unfolding service_ok_def by (simp; meson order_less_le_trans)
next
  case (create a)
  have fresh: "tk_orders st (or_id a) = None"
  proof (rule ccontr)
    assume "tk_orders st (or_id a) \<noteq> None"
    then obtain k where "k < tk_drawn st" "or_id a = out_new_v4 out k"
      using ok unfolding service_ok_def by blast
    with create(1) inj show False by (auto dest: injD)
  qed
  have none: "sales (or_id a) (tk_log st) = 0"
    unfolding sales_0_iff
  proof (intro ballI notI)
    fix e assume "e \<in> set (tk_log st)" "is_sell (or_id a) e"
    then obtain pre post bid s where "tk_log st = pre @ (SellTickets bid (or_id a), s) # post"
      by (auto simp: is_sell_def dest: split_list)
    with ok fresh show False unfolding service_ok_def sales_paid_def by fastforce
  qed
  have "keyed st'" using ok create(4) by (auto simp: service_ok_def keyed_def)
  moreover have "sales_paid (tk_orders st') (tk_log st')"
    using sales_paid_update [OF _ none] ok create(4,5) by (simp add: service_ok_def)
  moreover have "order_ok o' \<and> (\<exists>k < tk_drawn st'. oid = out_new_v4 out k) \<and>
        (or_status o' \<in> {''draft'', ''checkout_pending'', ''paid'', ''cancelled''} \<longrightarrow> sales oid (tk_log st') = 0) \<and>
        (or_status o' \<in> {''paid'', ''issued'', ''issuance_failed''} \<longrightarrow> vouched o' (tk_log st'))"
    if o': "tk_orders st' oid = Some o'" for oid o'
  proof (cases "oid = or_id a")
    case True
    then have "o' = a" using o' create(4) by simp
    then show ?thesis using True create none by (auto simp: order_ok_def)
  next
    case False
    then have "tk_orders st oid = Some o'" using o' create(4) by simp
    with ok create(5,6) show ?thesis unfolding service_ok_def by (metis less_Suc_eq)
  qed
  moreover have "sales oid (tk_log st') \<le> 1" for oid using ok create(5) by (simp add: service_ok_def)
  moreover have "truthful out [] (tk_log st')" using ok create(5) by (simp add: service_ok_def)
  ultimately show ?thesis unfolding service_ok_def by blast
next
  case (edit a b)
  have z: "sales (or_id a) (tk_log st) = 0"
    using ok edit unfolding service_ok_def moves_def by auto
  have ids: "or_id b = or_id a" "tk_log st' = tk_log st" "tk_orders st' = (tk_orders st)(or_id a \<mapsto> b)"
    using edit(1) by (auto simp: moves_def same_booking_def)
  show ?thesis
    using edit z ids sales_paid_update [of "tk_orders st" "tk_log st" b] ok
    by (intro moves_ok [OF ok edit(1)]) (auto simp: order_ok_def service_ok_def sales_def)
next
  case (cancel a b)
  have z: "sales (or_id a) (tk_log st) = 0"
    using ok cancel unfolding service_ok_def moves_def by auto
  have ids: "or_id b = or_id a" "tk_log st' = tk_log st" "tk_orders st' = (tk_orders st)(or_id a \<mapsto> b)"
    using cancel(1) by (auto simp: moves_def same_booking_def)
  show ?thesis
    using cancel z ids sales_paid_update [of "tk_orders st" "tk_log st" b] ok
    by (intro moves_ok [OF ok cancel(1)]) (auto simp: order_ok_def service_ok_def sales_def)
next
  case (start_checkout a b)
  have z: "sales (or_id a) (tk_log st) = 0"
    using ok start_checkout unfolding service_ok_def moves_def by auto
  have ids: "or_id b = or_id a" "tk_log st' = tk_log st" "tk_orders st' = (tk_orders st)(or_id a \<mapsto> b)"
    using start_checkout(1) by (auto simp: moves_def same_booking_def)
  show ?thesis
    using start_checkout z ids sales_paid_update [of "tk_orders st" "tk_log st" b] ok
    by (intro moves_ok [OF ok start_checkout(1)]) (auto simp: order_ok_def service_ok_def sales_def)
next
  case (pay a b)
  have z: "sales (or_id a) (tk_log st) = 0" and aok: "order_ok a"
    using ok pay unfolding service_ok_def moves_def by auto
  have ids: "or_id b = or_id a" "tk_log st' = tk_log st" "tk_orders st' = (tk_orders st)(or_id a \<mapsto> b)"
    using pay(1) by (auto simp: moves_def same_booking_def)
  have bok: "order_ok b" using aok pay by (auto simp: order_ok_def same_purchase_def)
  show ?thesis
    using pay z ids sales_paid_update [of "tk_orders st" "tk_log st" b] ok bok vouched_same [OF pay(4,5)]
    by (intro moves_ok [OF ok pay(1)]) (auto simp: service_ok_def sales_def)
next
  case (sell a b success)
  have z: "sales (or_id a) (tk_log st) = 0" and aok: "order_ok a" and va: "vouched a (tk_log st)"
    using ok sell unfolding service_ok_def moves_def by auto
  have ids: "or_id b = or_id a" "tk_log st' = tk_log st @ [(SellTickets (or_booking_id a) (or_id a), success)]"
      "tk_orders st' = (tk_orders st)(or_id a \<mapsto> b)" "or_booking_id b = or_booking_id a"
    using sell(1) by (auto simp: moves_def same_booking_def)
  have bs: "or_status b \<in> {''issued'', ''issuance_failed''}" using sell(3) by auto
  have bok: "order_ok b" using aok sell bs by (auto simp: order_ok_def same_purchase_def)
  have vb: "vouched b (tk_log st)" by (rule vouched_same [OF sell(4) va])
  have "sales_paid (tk_orders st') (tk_log st)"
    using sales_paid_update [of "tk_orders st" "tk_log st" b] z ok ids by (simp add: service_ok_def)
  then have "sales_paid (tk_orders st') (tk_log st')"
    unfolding ids(2) by (rule sales_paid_snoc) (use ids vb bs in auto)
  then show ?thesis
    using z ids bok bs vouched_append [OF vb]
    by (intro moves_ok [OF ok sell(1)]) auto
next
  case (reconcile a b)
  have aok: "order_ok a" and va: "vouched a (tk_log st)" and s1: "sales (or_id a) (tk_log st) \<le> 1"
    and oa: "tk_orders st (or_id a) = Some a"
    using ok reconcile unfolding service_ok_def moves_def by auto
  have ids: "or_id b = or_id a" "tk_log st' = tk_log st" "tk_orders st' = (tk_orders st)(or_id a \<mapsto> b)"
    using reconcile(1) by (auto simp: moves_def same_booking_def)
  have bok: "order_ok b" using aok reconcile by (auto simp: order_ok_def same_purchase_def)
  have "sales_paid (tk_orders st') (tk_log st')"
    using sales_paid_sold [of "tk_orders st" "tk_log st" a b] oa reconcile(3,4) ok ids by (simp add: service_ok_def)
  then show ?thesis
    using reconcile ids bok s1 vouched_same [OF reconcile(4) va]
    by (intro moves_ok [OF ok reconcile(1)]) (auto simp: sales_def)
qed

lemma micros_ok: "micros out user st st' \<Longrightarrow> service_ok out st \<Longrightarrow> inj (out_new_v4 out) \<Longrightarrow> service_ok out st'"
  by (induction rule: rtranclp_induct) (auto intro: micro_ok)

lemma serve_ok:
  assumes "service_ok out st" and "inj (out_new_v4 out)"
  shows "service_ok out (snd (serve out c st))"
proof -
  have "micros out (ca_user c) st (snd (serve out c st))"
    using assms(1) by (intro serve_micros [OF surjective_pairing]) (simp add: service_ok_def)
  from micros_ok [OF this assms] show ?thesis .
qed

lemma serve_all_ok: "service_ok out st \<Longrightarrow> inj (out_new_v4 out) \<Longrightarrow> service_ok out (serve_all out calls st)"
  by (induction calls arbitrary: st) (simp_all add: serve_all_def serve_ok)

definition fresh_service :: "ticketing \<Rightarrow> bool" where
  "fresh_service st \<longleftrightarrow> tk_orders st = Map.empty \<and> tk_log st = []"

lemma fresh_service_ok: "fresh_service st \<Longrightarrow> service_ok out st"
  by (simp add: fresh_service_def service_ok_def keyed_def sales_paid_def sales_def truthful_def)

section \<open>Sale after payment\<close>

text \<open>C13:
  Whatever requests arrive, in whatever order, from whatever users, and whatever the railway and the
  payment provider reply: for each order the service asks the railway to sell at most once, and only
  after the provider replied that the session stored with that order is settled, in crowns and for the
  stored amount; the order is then issued or waiting for its issue to be reconciled.
\<close>

theorem sold_once_after_payment:
  fixes calls :: "call list"
  assumes "inj (out_new_v4 out)" and "fresh_service st"
  defines "st' \<equiv> serve_all out calls st"
  shows "sales oid (tk_log st') \<le> 1 \<and>
    (\<forall>pre bid b post. tk_log st' = pre @ (SellTickets bid oid, b) # post \<longrightarrow>
       (\<exists>o' amount session pay earlier request reply. tk_orders st' oid = Some o' \<and> or_booking_id o' = bid \<and>
          or_amount_hellers o' = Some amount \<and> or_checkout_session_id o' = Some session \<and>
          or_status o' \<in> {''issued'', ''issuance_failed''} \<and>
          out_payment out = Some pay \<and> prefix earlier pre \<and>
          request = GetCheckoutSession session \<lparr>po_order_id = oid, po_amount_hellers = amount, po_currency = ''CZK''\<rparr> \<and>
          pay_reply pay earlier request = Some reply \<and> ps_status reply = ''settled'' \<and> ps_id reply = session \<and>
          ps_amount_hellers reply = amount \<and> ps_currency reply = ''CZK''))"
proof -
  have ok: "service_ok out st'"
    unfolding st'_def by (rule serve_all_ok [OF fresh_service_ok [OF assms(2)] assms(1)])
  show ?thesis
  proof (intro conjI allI impI)
    show "sales oid (tk_log st') \<le> 1" using ok by (simp add: service_ok_def)
    fix pre bid b post
    assume log: "tk_log st' = pre @ (SellTickets bid oid, b) # post"
    with ok obtain o' where o': "tk_orders st' oid = Some o'" "or_booking_id o' = bid" "vouched o' pre"
        "or_status o' \<in> {''issued'', ''issuance_failed''}"
      unfolding service_ok_def sales_paid_def by blast
    have "or_id o' = oid" using ok o'(1) by (simp add: service_ok_def keyed_def)
    then obtain amount session where a: "or_amount_hellers o' = Some amount" "or_checkout_session_id o' = Some session"
      and asked: "(GetCheckoutSession session \<lparr>po_order_id = oid, po_amount_hellers = amount, po_currency = ''CZK''\<rparr>, True) \<in> set pre"
      (is "(GetCheckoutSession _ ?po, _) \<in> _")
      using o'(3) unfolding vouched_def payment_order_of_def by blast
    from split_list [OF asked] obtain earlier later where pre: "pre = earlier @ (GetCheckoutSession session ?po, True) # later" by blast
    with log have "tk_log st' = earlier @ (GetCheckoutSession session ?po, True) # (later @ (SellTickets bid oid, b) # post)" by simp
    with ok have "confirmed out earlier session ?po" unfolding service_ok_def truthful_def append_Nil by blast
    moreover have "prefix earlier pre" unfolding pre by simp
    ultimately show "\<exists>o' amount session pay earlier request reply. tk_orders st' oid = Some o' \<and> or_booking_id o' = bid \<and>
          or_amount_hellers o' = Some amount \<and> or_checkout_session_id o' = Some session \<and>
          or_status o' \<in> {''issued'', ''issuance_failed''} \<and>
          out_payment out = Some pay \<and> prefix earlier pre \<and>
          request = GetCheckoutSession session \<lparr>po_order_id = oid, po_amount_hellers = amount, po_currency = ''CZK''\<rparr> \<and>
          pay_reply pay earlier request = Some reply \<and> ps_status reply = ''settled'' \<and> ps_id reply = session \<and>
          ps_amount_hellers reply = amount \<and> ps_currency reply = ''CZK''"
      using o' a unfolding confirmed_def by fastforce
  qed
qed

section \<open>The type of stored orders\<close>

text \<open>C19:
  Every stored order has one of the six states of the life cycle, sits under its own identifier, and
  from the checkout on carries its amount, its payment session and its customer; hence completing an
  order never fails for a missing amount, session or customer.
\<close>

theorem stored_orders_typed:
  assumes "inj (out_new_v4 out)" and "fresh_service st" and "tk_orders (serve_all out calls st) oid = Some o'"
  shows "or_id o' = oid \<and>
    or_status o' \<in> {''draft'', ''checkout_pending'', ''paid'', ''issued'', ''issuance_failed'', ''cancelled''} \<and>
    (or_status o' \<notin> {''draft'', ''cancelled''} \<longrightarrow>
       or_amount_hellers o' \<noteq> None \<and> or_checkout_session_id o' \<noteq> None \<and> or_customer o' \<noteq> None)"
proof -
  have "service_ok out (serve_all out calls st)"
    by (rule serve_all_ok [OF fresh_service_ok [OF assms(2)] assms(1)])
  then have "order_ok o'" "or_id o' = oid" using assms(3) by (auto simp: service_ok_def keyed_def)
  then show ?thesis by (auto simp: order_ok_def)
qed

section \<open>The life cycle\<close>

datatype phase = Absent | Draft | Pending | Paid | Failed | Issued | Cancelled

definition phase_of :: "order_record option \<Rightarrow> phase" where
  "phase_of x = (case x of None \<Rightarrow> Absent
     | Some o' \<Rightarrow> if or_status o' = ''draft'' then Draft
                  else if or_status o' = ''checkout_pending'' then Pending
                  else if or_status o' = ''paid'' then Paid
                  else if or_status o' = ''issuance_failed'' then Failed
                  else if or_status o' = ''issued'' then Issued else Cancelled)"

inductive life_cycle :: "phase \<Rightarrow> phase \<Rightarrow> bool" where
  quoted: "life_cycle Absent Draft"
| checked_out: "life_cycle Draft Pending"
| withdrawn: "life_cycle Draft Cancelled"
| settled: "life_cycle Pending Paid"
| sold: "life_cycle Paid Issued"
| not_sold: "life_cycle Paid Failed"
| found_sold: "life_cycle Failed Issued"

inductive_simps life_cycle_simps [simp]:
  "life_cycle Cancelled p" "life_cycle Issued p" "life_cycle Failed p" "life_cycle Paid p"
  "life_cycle Pending p" "life_cycle Draft p" "life_cycle Absent p"

lemma micro_life_cycle:
  assumes "micro out user st st'" and ok: "service_ok out st" and inj: "inj (out_new_v4 out)"
  shows "phase_of (tk_orders st' oid) = phase_of (tk_orders st oid) \<or>
    life_cycle (phase_of (tk_orders st oid)) (phase_of (tk_orders st' oid))"
  using assms(1)
proof cases
  case (create a)
  have "tk_orders st (or_id a) = None"
  proof (rule ccontr)
    assume "tk_orders st (or_id a) \<noteq> None"
    then obtain k where "k < tk_drawn st" "or_id a = out_new_v4 out k"
      using ok unfolding service_ok_def by blast
    with create(1) inj show False by (auto dest: injD)
  qed
  with create show ?thesis by (auto simp: phase_of_def)
qed (auto simp: moves_def phase_of_def split: if_splits)

lemma micros_life_cycle:
  assumes "micros out user st st'" and ok: "service_ok out st" and inj: "inj (out_new_v4 out)"
  shows "life_cycle\<^sup>*\<^sup>* (phase_of (tk_orders st oid)) (phase_of (tk_orders st' oid))"
  using assms(1)
proof (induction rule: rtranclp_induct)
  case (step st1 st2)
  have "service_ok out st1" by (rule micros_ok [OF step.hyps(1) ok inj])
  from micro_life_cycle [OF step.hyps(2) this inj, of oid] step.IH show ?case
    by (auto intro: rtranclp.rtrancl_into_rtrancl)
qed simp

text \<open>C15: The service refines the abstract life cycle of an order: whatever a request does to the store, each
  order either stays in its phase or follows the permitted transitions from quote over checkout,
  payment and sale to issue. Issued and cancelled orders never change phase again, and a paid order
  can only become issued or wait for reconciliation.
\<close>

theorem orders_refine_life_cycle:
  fixes calls :: "call list"
  assumes "inj (out_new_v4 out)" and "fresh_service st"
  defines "st1 \<equiv> serve_all out calls st"
  shows "life_cycle\<^sup>*\<^sup>* (phase_of (tk_orders st1 oid)) (phase_of (tk_orders (snd (serve out c st1)) oid))"
proof -
  have ok: "service_ok out st1"
    unfolding st1_def by (rule serve_all_ok [OF fresh_service_ok [OF assms(2)] assms(1)])
  then have "micros out (ca_user c) st1 (snd (serve out c st1))"
    by (intro serve_micros [OF surjective_pairing]) (simp add: service_ok_def)
  from micros_life_cycle [OF this ok assms(1)] show ?thesis .
qed

section \<open>Users are isolated\<close>

lemma micro_others:
  assumes "micro out user st st'" and ok: "service_ok out st" and inj: "inj (out_new_v4 out)"
    and "tk_orders st oid = Some o'" "or_user_id o' \<noteq> user"
  shows "tk_orders st' oid = Some o'"
  using assms(1)
proof cases
  case (create a)
  obtain k where "k < tk_drawn st" "oid = out_new_v4 out k" using ok assms(4) unfolding service_ok_def by blast
  with create(1) inj have "oid \<noteq> or_id a" by (auto dest: injD)
  with create(4) assms(4) show ?thesis by simp
qed (use assms(4,5) in \<open>auto simp: moves_def\<close>)

lemma micros_others:
  assumes "micros out user st st'" and ok: "service_ok out st" and inj: "inj (out_new_v4 out)"
    and "tk_orders st oid = Some o'" "or_user_id o' \<noteq> user"
  shows "tk_orders st' oid = Some o'"
  using assms(1)
proof (induction rule: rtranclp_induct)
  case (step st1 st2)
  from micro_others [OF step.hyps(2) micros_ok [OF step.hyps(1) ok inj] inj step.IH assms(5)] show ?case .
qed (rule assms(4))

text \<open>C17:
  No request of one user changes an order of another, and a request that names another user's order
  (to read, requote, select, cancel, extend, check out or complete it) is answered, unless it repeats
  a key that the caller already used, as if the order did not exist.
\<close>

theorem users_are_isolated:
  fixes calls :: "call list"
  assumes "inj (out_new_v4 out)" and "fresh_service st"
  defines "st1 \<equiv> serve_all out calls st"
  assumes "tk_orders st1 oid = Some o'" and "or_user_id o' \<noteq> ca_user c"
  shows "tk_orders (snd (serve out c st1)) oid = Some o' \<and>
    fst (get_order (ca_user c) oid st1) = Inl not_found_owned \<and>
    (\<forall>body \<in> {refresh_quote_body out (ca_user c) oid, cancel_order_body out (ca_user c) oid,
               complete_body out (ca_user c) oid, select_offer_body out (ca_user c) oid t,
               checkout_body out (ca_user c) oid customer, mutate_addon_body out (ca_user c) oid addon}.
       body st1 = (Inl not_found_owned, st1))"
proof -
  have ok: "service_ok out st1"
    unfolding st1_def by (rule serve_all_ok [OF fresh_service_ok [OF assms(2)] assms(1)])
  then have "micros out (ca_user c) st1 (snd (serve out c st1))"
    by (intro serve_micros [OF surjective_pairing]) (simp add: service_ok_def)
  from micros_others [OF this ok assms(1,4,5)]
  have "tk_orders (snd (serve out c st1)) oid = Some o'" .
  moreover have "owned_order (ca_user c) oid st1 = Inl not_found_owned"
    using assms(4,5) by (simp add: owned_order_def)
  ultimately show ?thesis
    by (simp add: get_order_def refresh_quote_body_def cancel_order_body_def complete_body_def
        select_offer_body_def checkout_body_def mutate_addon_body_def)
qed

end
