(* ===== verification/Ticketing_Replay.thy ===== *)
theory Ticketing_Replay
  imports Ticketing_Props
begin

text \<open>
  Repetition, failure and progress of ticketing requests, the rate limit, and what public answers
  contain.
\<close>

section \<open>Requests behind an idempotency key\<close>

text \<open>The common shape of all requests but the read: a check, then the keyed body.\<close>

fun op_of :: "request \<Rightarrow> string" where
  "op_of (CreateOrder _) = ''create_order''"
| "op_of (GetOrder _) = ''''"
| "op_of (RefreshQuote _) = ''refresh_quote''"
| "op_of (SelectOffer _ _) = ''select_offer''"
| "op_of (CancelOrder _) = ''cancel_order''"
| "op_of (Reservations _ _) = ''reservations''"
| "op_of (Bicycles _ _) = ''bicycles''"
| "op_of (Dogs _ _) = ''dogs''"
| "op_of (Checkout _ _) = ''checkout''"
| "op_of (Complete _) = ''complete''"
| "op_of (Refund _ _) = ''refund''"

fun body_of :: "request \<Rightarrow> op_body" where
  "body_of (CreateOrder body) = BodyCreate body"
| "body_of (GetOrder oid) = BodyId oid"
| "body_of (RefreshQuote oid) = BodyId oid"
| "body_of (SelectOffer oid t) = BodyOffer t"
| "body_of (CancelOrder oid) = BodyId oid"
| "body_of (Reservations oid trains) = BodyReservations trains"
| "body_of (Bicycles oid b) = BodyBicycles b"
| "body_of (Dogs oid b) = BodyDogs b"
| "body_of (Checkout oid customer) = BodyCustomer customer"
| "body_of (Complete oid) = BodyId oid"
| "body_of (Refund tid email) = BodyEmail email"

fun checked :: "request \<Rightarrow> api_error + unit" where
  "checked (SelectOffer oid t) = (if t \<notin> set offer_types then Inl (validation ''unsupported offerType'') else Inr ())"
| "checked (Reservations oid trains) = validate_reservations trains"
| "checked (Bicycles oid b) = validate_bicycles b"
| "checked (Dogs oid b) = validate_dogs b"
| "checked (Checkout oid customer) = validate_customer customer"
| "checked (Refund tid email) = validate_email email"
| "checked _ = Inr ()"

fun run_of :: "outside \<Rightarrow> call \<Rightarrow> request \<Rightarrow> ticketing \<Rightarrow> (api_error + nat \<times> json) \<times> ticketing" where
  "run_of out c (CreateOrder body) = create_order_body out (ca_user c) (ca_now c) body"
| "run_of out c (GetOrder oid) = get_order (ca_user c) oid"
| "run_of out c (RefreshQuote oid) = refresh_quote_body out (ca_user c) oid"
| "run_of out c (SelectOffer oid t) = select_offer_body out (ca_user c) oid t"
| "run_of out c (CancelOrder oid) = cancel_order_body out (ca_user c) oid"
| "run_of out c (Reservations oid trains) = mutate_addon_body out (ca_user c) oid (\<lambda>bid. SetReservations bid trains)"
| "run_of out c (Bicycles oid b) = mutate_addon_body out (ca_user c) oid
     (\<lambda>bid. if br_price_only b then BikePrice bid (br_count b) (br_trains b) else SetBikes bid (br_count b) (br_trains b))"
| "run_of out c (Dogs oid b) = mutate_addon_body out (ca_user c) oid
     (\<lambda>bid. if dr_price_only b then DogPrice bid (dr_count b) (dr_direction b) else SetDogs bid (dr_count b) (dr_direction b))"
| "run_of out c (Checkout oid customer) = checkout_body out (ca_user c) oid customer"
| "run_of out c (Complete oid) = complete_body out (ca_user c) oid"
| "run_of out c (Refund tid email) = refund_body out (ca_user c) tid email"

fun is_create :: "request \<Rightarrow> bool" where
  "is_create (CreateOrder _) = True"
| "is_create _ = False"

fun is_read :: "request \<Rightarrow> bool" where
  "is_read (GetOrder _) = True"
| "is_read _ = False"

lemma serve_keyed:
  "\<not> is_read (ca_request c) \<Longrightarrow> serve out c st =
     and_then (if is_create (ca_request c) then rate_limit (ca_user c) ''mutation'' MUTATION_LIMIT (ca_instant c) st
               else (checked (ca_request c), st))
       (\<lambda>_. idempotent out (ca_user c) (op_of (ca_request c)) (ca_key c) (body_of (ca_request c)) (run_of out c (ca_request c)))"
  by (cases "ca_request c")
    (simp_all add: serve_def create_order_def refresh_quote_def select_offer_def cancel_order_def set_reservations_def
      set_bicycles_def set_dogs_def mutate_addon_def checkout_def complete_def refund_def)

section \<open>What a body touches\<close>

text \<open>Bodies change neither the remembered answers nor the rate limits.\<close>

definition untouched :: "ticketing \<Rightarrow> ticketing \<Rightarrow> bool" where
  "untouched st st' \<longleftrightarrow> tk_idempotency st' = tk_idempotency st \<and> tk_rate st' = tk_rate st \<and> tk_searches st' = tk_searches st"

text \<open>Only the log grows.\<close>

definition only_logged :: "ticketing \<Rightarrow> ticketing \<Rightarrow> bool" where
  "only_logged st st' \<longleftrightarrow> (\<exists>l. st' = st\<lparr>tk_log := tk_log st @ l\<rparr>)"

lemma only_logged_refl [simp]: "only_logged st st"
  unfolding only_logged_def by (rule exI [of _ "[]"]) simp

lemma only_logged_trans: "only_logged st st1 \<Longrightarrow> only_logged st1 st' \<Longrightarrow> only_logged st st'"
  by (auto simp: only_logged_def)

lemma only_logged_untouched: "only_logged st st' \<Longrightarrow> untouched st st'"
  by (auto simp: only_logged_def untouched_def)

lemma untouched_refl [simp]: "untouched st st"
  by (simp add: untouched_def)

lemma untouched_trans: "untouched st st1 \<Longrightarrow> untouched st1 st' \<Longrightarrow> untouched st st'"
  by (simp add: untouched_def)

lemma cd_request_only_logged: "cd_request out call st = (r, st') \<Longrightarrow> only_logged st st'"
  by (erule cd_request_effect) (auto simp: only_logged_def)

lemma cd_call_only_logged: "cd_call out call st = (r, st') \<Longrightarrow> only_logged st st'"
  by (auto simp: cd_call_def Let_def only_logged_def split: option.splits intro: exI [of _ "[]"])

lemma create_checkout_only_logged: "create_checkout out order st = (r, st') \<Longrightarrow> only_logged st st'"
  by (drule create_checkout_effect) (auto simp: only_logged_def)

lemma verify_settled_only_logged: "verify_settled out session order st = (r, st') \<Longrightarrow> only_logged st st'"
  by (drule verify_settled_effect) (auto simp: only_logged_def)

lemma map_error_only_logged:
  "map_error f m = (r, st') \<Longrightarrow> (\<And>q. m = (q, st') \<Longrightarrow> only_logged st st') \<Longrightarrow> only_logged st st'"
  by (drule map_error_eq) blast

lemma save_order_untouched [simp]: "untouched st (save_order o' st1) \<longleftrightarrow> untouched st st1"
  by (simp add: untouched_def save_order_def)

lemma untouched_update [simp]:
  "untouched st (st1\<lparr>tk_orders := x\<rparr>) \<longleftrightarrow> untouched st st1"
  "untouched st (st1\<lparr>tk_tickets := t\<rparr>) \<longleftrightarrow> untouched st st1"
  "untouched st (st1\<lparr>tk_documents := d\<rparr>) \<longleftrightarrow> untouched st st1"
  "untouched st (st1\<lparr>tk_refunds := e\<rparr>) \<longleftrightarrow> untouched st st1"
  "untouched st (st1\<lparr>tk_drawn := n\<rparr>) \<longleftrightarrow> untouched st st1"
  by (simp_all add: untouched_def)

lemma issue_ticket_untouched [simp]: "untouched st (issue_ticket out o' st1 t) \<longleftrightarrow> untouched st st1"
  by (auto simp: issue_ticket_def new_v4_def split: option.splits)

lemma issue_tickets_untouched [simp]: "untouched st (foldl (issue_ticket out o') st1 ts) \<longleftrightarrow> untouched st st1"
  by (induction ts arbitrary: st1) simp_all

lemma issue_document_untouched [simp]: "untouched st (issue_document out o' st1 d) \<longleftrightarrow> untouched st st1"
  by (auto simp: issue_document_def new_v4_def Let_def split: option.splits)

lemma issue_documents_untouched [simp]: "untouched st (foldl (issue_document out o') st1 ds) \<longleftrightarrow> untouched st st1"
  by (induction ds arbitrary: st1) simp_all

lemma persist_issued_untouched: "persist_issued out o' raw st1 = (o2, st') \<Longrightarrow> untouched st st' \<longleftrightarrow> untouched st st1"
  by (auto simp: persist_issued_def Let_def)

lemmas logged_calls = cd_request_only_logged cd_call_only_logged create_checkout_only_logged verify_settled_only_logged

text \<open>
  The outcome of a body: an error leaves everything but the log alone, a success leaves the answers
  and limits alone.
\<close>

definition tidy :: "ticketing \<Rightarrow> ('e + 'a) \<times> ticketing \<Rightarrow> bool" where
  "tidy st m \<longleftrightarrow> (isl (fst m) \<longrightarrow> only_logged st (snd m)) \<and> untouched st (snd m)"

lemma tidy_and_then:
  assumes "only_logged st (snd m)" and "\<And>x st1. m = (Inr x, st1) \<Longrightarrow> only_logged st st1 \<Longrightarrow> tidy st (f x st1)"
  shows "tidy st (and_then m f)"
  using assms by (cases m; cases "fst m") (auto simp: tidy_def only_logged_untouched)

lemma tidy_pure [simp]: "tidy st (Inl e, st') \<longleftrightarrow> only_logged st st'" "tidy st (Inr x, st') \<longleftrightarrow> untouched st st'"
  by (auto simp: tidy_def only_logged_untouched)

lemma snd_cd_request [simp]: "only_logged st st1 \<Longrightarrow> only_logged st (snd (cd_request out call st1))"
  using cd_request_only_logged [OF surjective_pairing] only_logged_trans by blast

lemma snd_create_checkout [simp]: "only_logged st st1 \<Longrightarrow> only_logged st (snd (create_checkout out order st1))"
  using create_checkout_only_logged [OF surjective_pairing] only_logged_trans by blast

lemma snd_verify_settled [simp]: "only_logged st st1 \<Longrightarrow> only_logged st (snd (verify_settled out session order st1))"
  using verify_settled_only_logged [OF surjective_pairing] only_logged_trans by blast

lemma snd_map_error [simp]: "snd (map_error f m) = snd m"
  by (cases m) (auto simp: map_error_def split: sum.splits)

lemma tidy_if: "(P \<Longrightarrow> tidy st a) \<Longrightarrow> (\<not> P \<Longrightarrow> tidy st b) \<Longrightarrow> tidy st (if P then a else b)"
  by simp

lemma create_order_tidy: "tidy st (create_order_body out user now body st)"
  unfolding create_order_body_def
  by (intro tidy_and_then) (auto simp: Let_def new_v4_def only_logged_untouched)

lemma refresh_quote_tidy: "tidy st (refresh_quote_body out user oid st)"
  unfolding refresh_quote_body_def by (intro tidy_and_then) (auto simp: Let_def only_logged_untouched)

lemma select_offer_tidy: "tidy st (select_offer_body out user oid t st)"
  unfolding select_offer_body_def by (intro tidy_and_then) (auto simp: Let_def only_logged_untouched)

lemma cancel_order_tidy: "tidy st (cancel_order_body out user oid st)"
  unfolding cancel_order_body_def by (intro tidy_and_then tidy_if) (auto simp: Let_def only_logged_untouched)

lemma mutate_addon_tidy: "tidy st (mutate_addon_body out user oid call st)"
  unfolding mutate_addon_body_def by (intro tidy_and_then) (auto simp: only_logged_untouched)

lemma checkout_tidy: "tidy st (checkout_body out user oid customer st)"
  unfolding checkout_body_def by (intro tidy_and_then) (auto simp: Let_def only_logged_untouched)

lemma refund_tidy: "tidy st (refund_body out user tid email st)"
  unfolding refund_body_def by (intro tidy_and_then tidy_if) (auto simp: Let_def new_v4_def only_logged_untouched)

lemma reconcile_sold_tidy: "only_logged st st1 \<Longrightarrow> tidy st (reconcile_sold out order st1)"
  unfolding reconcile_sold_def
  by (intro tidy_and_then tidy_if)
    (auto simp: persist_issued_untouched only_logged_untouched split: prod.splits)

text \<open>Completing an order may, in addition, leave it waiting for reconciliation.\<close>

lemma complete_outcome:
  assumes "complete_body out user oid st = (r, st')" and keyed: "keyed st"
  shows "untouched st st' \<and> (\<forall>e. r = Inl e \<longrightarrow> only_logged st st' \<or>
    (\<exists>order l. tk_orders st oid = Some order \<and> or_user_id order = user \<and> or_status order = ''checkout_pending'' \<and>
       st' = st\<lparr>tk_log := l, tk_orders := (tk_orders st)(oid \<mapsto> order\<lparr>or_status := ''issuance_failed''\<rparr>)\<rparr>))"
proof (cases "owned_order user oid st")
  case (Inl e)
  then show ?thesis using assms by (auto simp: complete_body_def)
next
  case (Inr order)
  then have o': "tk_orders st oid = Some order" "or_user_id order = user" "or_id order = oid"
    using keyed by (auto simp: owned_order_Inr keyed_def)
  consider "or_status order = ''issued''" | "or_status order = ''paid'' \<or> or_status order = ''issuance_failed''"
    | "or_status order \<notin> {''issued'', ''paid'', ''issuance_failed'', ''checkout_pending''}"
    | "or_status order = ''checkout_pending''" by blast
  then show ?thesis
  proof cases
    case 2
    then have "reconcile_sold out order st = (r, st')" using assms(1) Inr by (auto simp: complete_body_def)
    with reconcile_sold_tidy [of st st out order] show ?thesis by (auto simp: tidy_def)
  next
    case 4
    then have "and_then (ok_or (tk_error ''quote_incomplete'' ''Order amount is unavailable'') (or_amount_hellers order), st) (\<lambda>amount st.
         and_then (ok_or (tk_error ''invalid_order_state'' ''Checkout session is missing'') (or_checkout_session_id order), st)
           (\<lambda>session st.
         and_then (map_error payment_failure (verify_settled out session (payment_order_of order amount) st)) (\<lambda>_ st.
         and_then (ok_or (tk_error ''invalid_order_state'' ''Customer data is missing'') (or_customer order), st) (\<lambda>customer st.
         and_then (cd_request out (FixPriceOffer (or_booking_id order) customer) st) (\<lambda>_ st.
           (let order = order\<lparr>or_status := ''paid''\<rparr> in Ticketing_Orders.sell out order (save_order order st))))))) = (r, st')"
      using assms(1) Inr by (simp add: complete_body_def)
    then show ?thesis
    proof (elim and_then_cases, goal_cases)
      case (3 amount st1 session st2 e)
      then have "only_logged st st'" by (metis Pair_inject snd_conv snd_map_error snd_verify_settled only_logged_refl)
      then show ?case by (simp add: only_logged_untouched)
    next
      case (4 amount st1 session st2 u st3 e)
      then have "only_logged st st'" by (metis Pair_inject snd_conv snd_map_error snd_verify_settled only_logged_refl)
      then show ?case by (simp add: only_logged_untouched)
    next
      case (5 amount st1 session st2 u st3 customer st4 e)
      then have "only_logged st st4" by (metis Pair_inject snd_conv snd_map_error snd_verify_settled only_logged_refl)
      moreover have "only_logged st4 st'" using 5 by (auto intro: cd_request_only_logged)
      ultimately show ?case using only_logged_trans only_logged_untouched by blast
    next
      case (6 amount st1 session st2 u st3 customer st4 v st5)
      then have "only_logged st st4" by (metis Pair_inject snd_conv snd_map_error snd_verify_settled only_logged_refl)
      moreover have "only_logged st4 st5" using 6 by (auto intro: cd_request_only_logged)
      ultimately have l5: "only_logged st st5" by (rule only_logged_trans)
      let ?paid = "order\<lparr>or_status := ''paid''\<rparr>"
      obtain q st6 where c: "cd_call out (SellTickets (or_booking_id ?paid) (or_id ?paid)) (save_order ?paid st5) = (q, st6)"
        by fastforce
      have s: "Ticketing_Orders.sell out ?paid (save_order ?paid st5) = (r, st')" using 6(6) by (simp add: Let_def)
      have l6: "only_logged (save_order ?paid st5) st6" by (rule cd_call_only_logged [OF c])
      show ?case
      proof (cases q)
        case (Inl e)
        then have "st' = save_order (order\<lparr>or_status := ''issuance_failed''\<rparr>) st6"
          using s c by (auto simp: Ticketing_Orders.sell_def)
        with l6 l5 o' \<open>or_status order = ''checkout_pending''\<close> show ?thesis
          by (auto simp: only_logged_def save_order_def untouched_def)
      next
        case (Inr raw)
        then obtain o2 where p: "persist_issued out ?paid raw st6 = (o2, st')" "\<not> isl r"
          using s c by (cases "persist_issued out ?paid raw st6") (auto simp: Ticketing_Orders.sell_def)
        have "untouched st st6" using l5 l6 by (auto simp: only_logged_def untouched_def save_order_def)
        with p show ?thesis by (auto simp: persist_issued_untouched)
      qed
    qed auto
  qed (use assms Inr in \<open>auto simp: complete_body_def\<close>)
qed

section \<open>Failed requests\<close>

lemma run_tidy:
  assumes "run_of out c (ca_request c) st = (r, st')" and "keyed st"
  shows "untouched st st'"
    and "r = Inl e \<Longrightarrow> only_logged st st' \<or>
      (\<exists>oid order l. ca_request c = Complete oid \<and> tk_orders st oid = Some order \<and> or_user_id order = ca_user c \<and>
         or_status order = ''checkout_pending'' \<and>
         st' = st\<lparr>tk_log := l, tk_orders := (tk_orders st)(oid \<mapsto> order\<lparr>or_status := ''issuance_failed''\<rparr>)\<rparr>)"
proof -
  have t: "tidy st m \<Longrightarrow> m = (r, st') \<Longrightarrow> untouched st st' \<and> (r = Inl e \<longrightarrow> only_logged st st')" for m
    by (auto simp: tidy_def)
  have g: "tidy st (get_order user oid st)" for user oid
    unfolding get_order_def by (intro tidy_and_then) auto
  note tidies = create_order_tidy refresh_quote_tidy select_offer_tidy cancel_order_tidy mutate_addon_tidy checkout_tidy refund_tidy g
  have "untouched st st' \<and> (r = Inl e \<longrightarrow> only_logged st st' \<or>
      (\<exists>oid order l. ca_request c = Complete oid \<and> tk_orders st oid = Some order \<and> or_user_id order = ca_user c \<and>
         or_status order = ''checkout_pending'' \<and>
         st' = st\<lparr>tk_log := l, tk_orders := (tk_orders st)(oid \<mapsto> order\<lparr>or_status := ''issuance_failed''\<rparr>)\<rparr>))"
  proof (cases "\<exists>oid. ca_request c = Complete oid")
    case True
    then obtain oid where oid: "ca_request c = Complete oid" by blast
    with complete_outcome [of out "ca_user c" oid st r st'] assms show ?thesis by auto
  next
    case False
    then have "tidy st (run_of out c (ca_request c) st)" by (cases "ca_request c") (auto intro: tidies)
    from t [OF this assms(1)] show ?thesis by blast
  qed
  then show "untouched st st'"
    and "r = Inl e \<Longrightarrow> only_logged st st' \<or>
      (\<exists>oid order l. ca_request c = Complete oid \<and> tk_orders st oid = Some order \<and> or_user_id order = ca_user c \<and>
         or_status order = ''checkout_pending'' \<and>
         st' = st\<lparr>tk_log := l, tk_orders := (tk_orders st)(oid \<mapsto> order\<lparr>or_status := ''issuance_failed''\<rparr>)\<rparr>)"
    by blast+
qed

lemma idempotent_Inl:
  assumes "idempotent out user op key body run st = (Inl e, st')"
  shows "st' = st \<or> run st = (Inl e, st')"
  using assms by (cases "run st"; cases "fst (run st)") (auto simp: idempotent_def split: option.splits if_splits)

text \<open>C18: A request that is answered with an error has stored nothing: orders, documents, tickets, refunds
  and remembered answers are as before. The one exception is the completion of a paid order that the
  railway then fails to issue, which leaves exactly that order of the caller waiting for reconciliation.
\<close>

theorem failed_requests_store_nothing:
  fixes calls :: "call list"
  assumes "inj (out_new_v4 out)" and "fresh_service st0"
  defines "st \<equiv> serve_all out calls st0"
  assumes "serve out c st = (Inl e, st')"
  shows "tk_documents st' = tk_documents st \<and> tk_tickets st' = tk_tickets st \<and> tk_refunds st' = tk_refunds st \<and>
    tk_idempotency st' = tk_idempotency st \<and> tk_searches st' = tk_searches st \<and>
    (tk_orders st' = tk_orders st \<or>
     (\<exists>oid order. ca_request c = Complete oid \<and> tk_orders st oid = Some order \<and> or_user_id order = ca_user c \<and>
        or_status order = ''checkout_pending'' \<and>
        tk_orders st' = (tk_orders st)(oid \<mapsto> order\<lparr>or_status := ''issuance_failed''\<rparr>)))"
proof (cases "is_read (ca_request c)")
  case True
  then obtain oid where "ca_request c = GetOrder oid" by (cases "ca_request c") auto
  then have "st' = st" using assms(4) by (auto simp: serve_def get_order_def elim!: and_then_cases)
  then show ?thesis by simp
next
  case False
  have k: "keyed st"
    unfolding st_def using serve_all_ok [OF fresh_service_ok [OF assms(2)] assms(1)] by (simp add: service_ok_def)
  obtain q st1 where pre: "(if is_create (ca_request c) then rate_limit (ca_user c) ''mutation'' MUTATION_LIMIT (ca_instant c) st
      else (checked (ca_request c), st)) = (q, st1)" by fastforce
  have st1: "\<exists>t. st1 = st\<lparr>tk_rate := t\<rparr>"
  proof (cases "is_create (ca_request c)")
    case True
    with pre rate_limit_effect show ?thesis by fastforce
  next
    case False
    with pre have "st1 = st\<lparr>tk_rate := tk_rate st\<rparr>" by simp
    then show ?thesis by blast
  qed
  from assms(4) [unfolded serve_keyed [OF False] pre] show ?thesis
  proof (elim and_then_cases, goal_cases)
    case 1
    with st1 show ?case by auto
  next
    case (2 u st2)
    then have "st' = st1 \<or> run_of out c (ca_request c) st1 = (Inl e, st')" by (auto dest: idempotent_Inl)
    then show ?case
    proof
      assume "run_of out c (ca_request c) st1 = (Inl e, st')"
      moreover have "keyed st1" using k st1 by (auto simp: keyed_def)
      ultimately have "only_logged st1 st' \<or>
        (\<exists>oid order l. ca_request c = Complete oid \<and> tk_orders st1 oid = Some order \<and> or_user_id order = ca_user c \<and>
           or_status order = ''checkout_pending'' \<and>
           st' = st1\<lparr>tk_log := l, tk_orders := (tk_orders st1)(oid \<mapsto> order\<lparr>or_status := ''issuance_failed''\<rparr>)\<rparr>)"
        by (rule run_tidy(2)) simp
      with st1 show ?thesis by (auto simp: only_logged_def)
    qed (use st1 in auto)
  qed
qed

section \<open>Repeated requests\<close>

lemma keyed_serve_all: "inj (out_new_v4 out) \<Longrightarrow> service_ok out st \<Longrightarrow> keyed (serve_all out calls st)"
  using serve_all_ok by (auto simp: service_ok_def)

lemma idempotent_Inr:
  assumes "idempotent out user op key body run st = (Inr (status, v), st')"
    and "\<And>r st1. run st = (r, st1) \<Longrightarrow> tk_idempotency st1 = tk_idempotency st"
  obtains k where "key = Some k" "valid_idempotency_key k"
    "tk_idempotency st' (user, op, k) = Some \<lparr>ir_request_hash = out_digest out body, ir_status = status, ir_body = v\<rparr>"
proof -
  obtain k where k: "key = Some k" "valid_idempotency_key k" using assms(1)
    by (auto simp: idempotent_def split: option.splits if_splits)
  show thesis
  proof (cases "tk_idempotency st (user, op, k)")
    case (Some old)
    then show thesis using that k assms(1) by (cases old) (auto simp: idempotent_def split: if_splits)
  next
    case None
    obtain r st1 where r: "run st = (r, st1)" by fastforce
    with None k assms(1) show thesis
      using that by (cases r) (auto simp: idempotent_def split: prod.splits)
  qed
qed

lemma idempotent_keeps:
  assumes "\<And>r st1. run st = (r, st1) \<Longrightarrow> tk_idempotency st1 = tk_idempotency st"
    and "tk_idempotency st k = Some x"
  shows "tk_idempotency (snd (idempotent out user op key body run st)) k = Some x"
proof -
  obtain r st1 where r: "run st = (r, st1)" by fastforce
  from assms(1) [OF r] assms(2) show ?thesis
    by (cases r) (auto simp: idempotent_def r split: option.splits prod.splits)
qed

lemma serve_keeps_answers:
  assumes "keyed st" and "tk_idempotency st k = Some x"
  shows "tk_idempotency (snd (serve out c st)) k = Some x"
proof (cases "is_read (ca_request c)")
  case True
  then obtain oid where "ca_request c = GetOrder oid" by (cases "ca_request c") auto
  then show ?thesis using assms(2) by (cases "owned_order (ca_user c) oid st") (simp_all add: serve_def get_order_def)
next
  case False
  obtain q st1 where pre: "(if is_create (ca_request c) then rate_limit (ca_user c) ''mutation'' MUTATION_LIMIT (ca_instant c) st
      else (checked (ca_request c), st)) = (q, st1)" by fastforce
  have "\<exists>t. st1 = st\<lparr>tk_rate := t\<rparr>"
  proof (cases "is_create (ca_request c)")
    case True
    with pre rate_limit_effect show ?thesis by fastforce
  next
    case False
    with pre have "st1 = st\<lparr>tk_rate := tk_rate st\<rparr>" by simp
    then show ?thesis by blast
  qed
  then have "keyed st1" "tk_idempotency st1 k = Some x" using assms by (auto simp: keyed_def)
  moreover have "run_of out c (ca_request c) st1 = (r, st2) \<Longrightarrow> tk_idempotency st2 = tk_idempotency st1" for r st2
    using run_tidy(1) [of out c st1 r st2] calculation(1) by (simp add: untouched_def)
  ultimately show ?thesis
    unfolding serve_keyed [OF False] pre by (cases q) (auto intro: idempotent_keeps)
qed

lemma serve_all_keeps_answers:
  assumes "service_ok out st" "inj (out_new_v4 out)" "tk_idempotency st k = Some x"
  shows "tk_idempotency (serve_all out calls st) k = Some x"
  using assms
proof (induction calls arbitrary: st)
  case (Cons c calls)
  have "service_ok out (snd (serve out c st))" by (rule serve_ok [OF Cons.prems(1,2)])
  moreover have "tk_idempotency (snd (serve out c st)) k = Some x"
    using Cons.prems by (intro serve_keeps_answers) (auto simp: service_ok_def)
  ultimately show ?case using Cons.IH [OF _ Cons.prems(2)] by (simp add: serve_all_def)
qed (simp add: serve_all_def)


end
