(* ===== verification/Ticketing_Privacy.thy ===== *)
theory Ticketing_Privacy
  imports Ticketing_Replay
begin

text \<open>
  What the answers of the ticketing service reveal, the redaction of audit contexts in \<^verbatim>\<open>cd.rs\<close>, and
  the sliding window of the rate limit.
\<close>

section \<open>Keys anywhere in a JSON value\<close>

inductive json_has_key :: "string \<Rightarrow> json \<Rightarrow> bool" for k where
  here: "(k, v) \<in> set m \<Longrightarrow> json_has_key k (JObject m)"
| member: "(k', v) \<in> set m \<Longrightarrow> json_has_key k v \<Longrightarrow> json_has_key k (JObject m)"
| element: "v \<in> set xs \<Longrightarrow> json_has_key k v \<Longrightarrow> json_has_key k (JArray xs)"

inductive_simps json_has_key_simps:
  "json_has_key k (JObject m)" "json_has_key k (JArray xs)" "json_has_key k JNull" "json_has_key k (JBool b)"
  "json_has_key k (JInt n)" "json_has_key k (JFloat x)" "json_has_key k (JString s)"

lemma json_has_key_remove_keys: "json_has_key k (remove_keys ks v) \<Longrightarrow> k \<notin> set ks"
proof (induction "remove_keys ks v" arbitrary: v rule: json_has_key.induct)
  case (here w m)
  then show ?case by (cases v) auto
next
  case (member k' w m)
  then show ?case by (cases v) auto
next
  case (element w xs)
  then show ?case by (cases v) auto
qed

definition secret_keys :: "string list" where
  "secret_keys = [''handle'', ''connId'', ''bookingId'', ''documentId'', ''orderNumber'']"

definition discreet :: "json \<Rightarrow> bool" where
  "discreet v \<longleftrightarrow> (\<forall>k \<in> set secret_keys. \<not> json_has_key k v)"

lemma discreet_remove_keys: "set secret_keys \<subseteq> set ks \<Longrightarrow> discreet (remove_keys ks v)"
  using json_has_key_remove_keys by (auto simp: discreet_def)

lemma discreet_atoms [simp]: "discreet JNull" "discreet (JBool b)" "discreet (JInt n)" "discreet (JString s)"
  by (simp_all add: discreet_def json_has_key_simps)

lemma discreet_json_option [simp]: "(\<And>x. discreet (f x)) \<Longrightarrow> discreet (json_option f y)"
  by (cases y) (simp_all add: json_option_def)

lemma discreet_object:
  "discreet (JObject m) \<longleftrightarrow> (\<forall>(k, v) \<in> set m. k \<notin> set secret_keys \<and> discreet v)"
  unfolding discreet_def json_has_key_simps by fastforce

lemma discreet_public_order [simp]: "discreet (public_order o')"
proof -
  have "discreet (remove_keys [''handle'', ''connId'', ''bookingId'', ''documentId'', ''ticketId'', ''orderNumber''] (or_quote o'))"
    by (rule discreet_remove_keys) (simp add: secret_keys_def)
  then show ?thesis by (simp add: public_order_def Let_def discreet_object) (simp add: secret_keys_def)
qed

lemma discreet_sanitize_public [simp]: "discreet (sanitize_public v)"
  unfolding sanitize_public_def by (rule discreet_remove_keys) (simp add: secret_keys_def public_hidden_keys_def)

lemma discreet_public_refund [simp]: "discreet (public_refund r)"
  by (simp add: public_refund_def discreet_object) (simp add: secret_keys_def)

lemma discreet_public_checkout [simp]: "discreet (public_checkout out s)"
  by (simp add: public_checkout_def discreet_object) (simp add: secret_keys_def)

lemma discreet_checkout_answer [simp]:
  "discreet (JObject [(''order'', public_order o'), (''checkoutSession'', public_checkout out s)])"
  by (simp add: discreet_object) (simp add: secret_keys_def)

section \<open>Answers are discreet\<close>

definition discreet_answer :: "(api_error + nat \<times> json) \<times> ticketing \<Rightarrow> bool" where
  "discreet_answer m \<longleftrightarrow> (\<forall>status v. fst m = Inr (status, v) \<longrightarrow> discreet v)"

lemma discreet_answer_simps [simp]:
  "discreet_answer (Inl e, st)" "discreet_answer (Inr (status, v), st) \<longleftrightarrow> discreet v"
  by (simp_all add: discreet_answer_def)

lemma discreet_answer_and_then: "(\<And>x st. discreet_answer (f x st)) \<Longrightarrow> discreet_answer (and_then m f)"
  by (cases m; cases "fst m") simp_all

lemma discreet_answer_if: "discreet_answer a \<Longrightarrow> discreet_answer b \<Longrightarrow> discreet_answer (if P then a else b)"
  by simp

lemma discreet_answer_issued:
  "discreet_answer (let (order, st) = persist_issued out o' raw st1 in (Inr (200, public_order order), st))"
  by (cases "persist_issued out o' raw st1") simp

lemma discreet_answer_sell: "discreet_answer (Ticketing_Orders.sell out order st)"
  unfolding Ticketing_Orders.sell_def using discreet_answer_issued
  by (cases "cd_call out (SellTickets (or_booking_id order) (or_id order)) st") (auto split: sum.splits)

lemma discreet_answer_reconcile: "discreet_answer (reconcile_sold out order st)"
  unfolding reconcile_sold_def
  by (intro discreet_answer_and_then discreet_answer_if discreet_answer_issued) simp

lemma discreet_answer_complete: "discreet_answer (complete_body out user oid st)"
  unfolding complete_body_def
  by (intro discreet_answer_and_then discreet_answer_if discreet_answer_reconcile) (simp_all add: Let_def discreet_answer_sell)

lemma discreet_answer_run: "discreet_answer (run_of out c req st)"
proof (cases req)
  case (Complete oid)
  then show ?thesis by (simp add: discreet_answer_complete)
qed (simp_all add: create_order_body_def get_order_def refresh_quote_body_def select_offer_body_def cancel_order_body_def
    mutate_addon_body_def checkout_body_def refund_body_def discreet_answer_and_then Let_def case_prod_beta)

lemma discreet_answer_idempotent:
  assumes "\<And>st. discreet_answer (run st)" and "\<forall>k e. tk_idempotency st k = Some e \<longrightarrow> discreet (ir_body e)"
  shows "discreet_answer (idempotent out user op key body run st)"
proof -
  obtain r st1 where r: "run st = (r, st1)" by fastforce
  have "r = Inr (status, v) \<Longrightarrow> discreet v" for status v
    using assms(1) [of st] by (simp add: r discreet_answer_def)
  with assms(2) show ?thesis
    by (cases r) (auto simp: idempotent_def discreet_answer_def r split: option.splits prod.splits if_splits)
qed

lemma idempotent_remembers:
  assumes "\<And>r st1. run st = (r, st1) \<Longrightarrow> tk_idempotency st1 = tk_idempotency st" and "\<And>st. discreet_answer (run st)"
    and "\<forall>k e. tk_idempotency st k = Some e \<longrightarrow> discreet (ir_body e)"
  shows "\<forall>k e. tk_idempotency (snd (idempotent out user op key body run st)) k = Some e \<longrightarrow> discreet (ir_body e)"
proof -
  obtain r st1 where r: "run st = (r, st1)" by fastforce
  have "r = Inr (status, v) \<Longrightarrow> discreet v" for status v
    using assms(2) [of st] by (simp add: r discreet_answer_def)
  with assms(1) [OF r] assms(3) show ?thesis
    by (cases r) (auto simp: idempotent_def r split: option.splits prod.splits if_splits)
qed

lemma serve_discreet:
  assumes "keyed st" and ok: "\<forall>k e. tk_idempotency st k = Some e \<longrightarrow> discreet (ir_body e)"
  shows "discreet_answer (serve out c st)"
    and "\<forall>k e. tk_idempotency (snd (serve out c st)) k = Some e \<longrightarrow> discreet (ir_body e)"
proof -
  have "discreet_answer (serve out c st) \<and>
      (\<forall>k e. tk_idempotency (snd (serve out c st)) k = Some e \<longrightarrow> discreet (ir_body e))"
  proof (cases "is_read (ca_request c)")
    case True
    then obtain oid where "ca_request c = GetOrder oid" by (cases "ca_request c") auto
    then show ?thesis using ok
      by (cases "owned_order (ca_user c) oid st") (simp_all add: serve_def get_order_def)
  next
    case False
    obtain q st1 where pre: "(if is_create (ca_request c) then rate_limit (ca_user c) ''mutation'' MUTATION_LIMIT (ca_instant c) st
        else (checked (ca_request c), st)) = (q, st1)" by fastforce
    have "\<exists>t. st1 = st\<lparr>tk_rate := t\<rparr>"
    proof (cases "is_create (ca_request c)")
      case True
      with pre rate_limit_effect show ?thesis by fastforce
    next
      case False
      with pre have "st1 = st\<lparr>tk_rate := tk_rate st\<rparr>" by simp
      then show ?thesis by blast
    qed
    then have st1: "keyed st1" "\<forall>k e. tk_idempotency st1 k = Some e \<longrightarrow> discreet (ir_body e)"
      using assms by (auto simp: keyed_def)
    have "run_of out c (ca_request c) st1 = (r, st2) \<Longrightarrow> tk_idempotency st2 = tk_idempotency st1" for r st2
      using run_tidy(1) [of out c st1 r st2] st1(1) by (simp add: untouched_def)
    note mem = idempotent_remembers [OF this discreet_answer_run st1(2)]
    show ?thesis
    proof (cases q)
      case (Inl e)
      then show ?thesis unfolding serve_keyed [OF False] pre using st1(2) by simp
    next
      case (Inr u)
      then show ?thesis unfolding serve_keyed [OF False] pre
        using mem discreet_answer_idempotent [OF discreet_answer_run st1(2)] by simp
    qed
  qed
  then show "discreet_answer (serve out c st)"
    and "\<forall>k e. tk_idempotency (snd (serve out c st)) k = Some e \<longrightarrow> discreet (ir_body e)" by blast+
qed

lemma serve_all_discreet:
  assumes "service_ok out st" "inj (out_new_v4 out)" "\<forall>k e. tk_idempotency st k = Some e \<longrightarrow> discreet (ir_body e)"
  shows "\<forall>k e. tk_idempotency (serve_all out calls st) k = Some e \<longrightarrow> discreet (ir_body e)"
  using assms
proof (induction calls arbitrary: st)
  case (Cons c calls)
  have "keyed st" using Cons.prems(1) by (simp add: service_ok_def)
  from Cons.IH [OF serve_ok [OF Cons.prems(1,2)] Cons.prems(2) serve_discreet(2) [OF this Cons.prems(3)]]
  show ?case by (simp add: serve_all_def)
qed (simp add: serve_all_def)

text \<open>
  No answer that the order service ever gives, remembered answers included, contains anywhere a key
  under which the railway passes its internal identifiers (search handle, connection, booking,
  document, order number), however deeply the railway nests them in its replies.
\<close>

theorem answers_hide_upstream_identifiers:
  fixes calls :: "call list"
  assumes "inj (out_new_v4 out)" and "fresh_service st0" and "tk_idempotency st0 = Map.empty"
    and "fst (serve out c (serve_all out calls st0)) = Inr (status, v)"
    and "k \<in> {''handle'', ''connId'', ''bookingId'', ''documentId'', ''orderNumber''}"
  shows "\<not> json_has_key k v"
proof -
  note ok = fresh_service_ok [OF assms(2), of out]
  have "keyed (serve_all out calls st0)" using keyed_serve_all [OF assms(1) ok] .
  moreover have "\<forall>k e. tk_idempotency (serve_all out calls st0) k = Some e \<longrightarrow> discreet (ir_body e)"
    by (rule serve_all_discreet [OF ok assms(1)]) (simp add: assms(3))
  ultimately have "discreet_answer (serve out c (serve_all out calls st0))" by (rule serve_discreet(1))
  with assms(4) have "discreet v" by (simp add: discreet_answer_def)
  with assms(5) show ?thesis unfolding discreet_def secret_keys_def by auto
qed

section \<open>Redaction of audit contexts\<close>

definition SENSITIVE :: "string list" where
  "SENSITIVE = [''x-user'', ''x-hash'', ''authorization'', ''privatekey'', ''password'', ''token'', ''email'', ''name'',
     ''birthdate'', ''incardnumber'', ''documentdata'', ''imgdata'', ''signature'']"

definition str_contains :: "string \<Rightarrow> string \<Rightarrow> bool" where
  "str_contains s needle \<longleftrightarrow> list_ex (\<lambda>i. take (length needle) (drop i s) = needle) [0..<Suc (length s)]"

definition is_sensitive :: "string \<Rightarrow> bool" where
  "is_sensitive key \<longleftrightarrow> list_ex (\<lambda>s. str_contains (filter (\<lambda>c. c \<noteq> CHR ''_'' \<and> c \<noteq> CHR ''-'') (to_ascii_lowercase key))
     (filter (\<lambda>c. c \<noteq> CHR ''-'') s)) SENSITIVE"

function redact_json :: "json \<Rightarrow> json" where
  "redact_json (JObject m) = JObject (map (\<lambda>(key, item). (key, if is_sensitive key then JString ''[REDACTED]'' else redact_json item)) m)"
| "redact_json (JArray items) = JArray (map redact_json items)"
| "redact_json JNull = JNull"
| "redact_json (JBool b) = JBool b"
| "redact_json (JInt n) = JInt n"
| "redact_json (JFloat x) = JFloat x"
| "redact_json (JString s) = JString s"
  by pat_completeness auto
termination
proof (relation "measure size", goal_cases)
  case (2 m x key item)
  then have "(key, item) \<in> set m" by simp
  then have "size_prod (\<lambda>_. 0) size (key, item) \<le> size_list (size_prod (\<lambda>_. 0) size) m"
    by (rule size_list_estimation') simp
  then show ?case by simp
next
  case (3 xs x)
  then have "size x \<le> size_list size xs" by (intro size_list_estimation') auto
  then show ?case by simp
qed simp

text \<open>The value stored under a key, anywhere in a JSON value.\<close>

inductive json_binds :: "string \<Rightarrow> json \<Rightarrow> json \<Rightarrow> bool" for k v where
  bound_here: "(k, v) \<in> set m \<Longrightarrow> json_binds k v (JObject m)"
| bound_member: "(k', w) \<in> set m \<Longrightarrow> json_binds k v w \<Longrightarrow> json_binds k v (JObject m)"
| bound_element: "w \<in> set xs \<Longrightarrow> json_binds k v w \<Longrightarrow> json_binds k v (JArray xs)"

inductive_cases json_bindsE: "json_binds k v (JString s)"

text \<open>
  After \<open>redact_json\<close>, every sensitive key (compared without case, underscores and hyphens, also as part
  of a longer key) is bound to the redaction mark only, at any depth; redacting twice changes nothing more.
\<close>

theorem redact_json_correct:
  "(json_binds k v (redact_json w) \<longrightarrow> is_sensitive k \<longrightarrow> v = JString ''[REDACTED]'') \<and>
   redact_json (redact_json w) = redact_json w"
proof
  have "v = JString ''[REDACTED]''" if "json_binds k v x" "x = redact_json w" "is_sensitive k" for x
    using that
  proof (induction arbitrary: w rule: json_binds.induct)
    case (bound_here m)
    then show ?case by (cases w) auto
  next
    case (bound_member k' y m)
    then obtain m' where w: "w = JObject m'" by (cases w) auto
    with bound_member(1,4) obtain item where "(k', item) \<in> set m'"
      "y = (if is_sensitive k' then JString ''[REDACTED]'' else redact_json item)" by auto
    with bound_member show ?case by (cases "is_sensitive k'") (auto elim: json_bindsE)
  next
    case (bound_element y xs)
    then show ?case by (cases w) auto
  qed
  then show "json_binds k v (redact_json w) \<longrightarrow> is_sensitive k \<longrightarrow> v = JString ''[REDACTED]''" by blast
  show "redact_json (redact_json w) = redact_json w"
    by (induction w rule: redact_json.induct) auto
qed

section \<open>The rate limit\<close>

text \<open>The requests of one user and bucket that are admitted, in order.\<close>

definition MINUTE :: nat where
  "MINUTE = 60 * 10 ^ 9"

fun admitted :: "uuid \<Rightarrow> string \<Rightarrow> nat \<Rightarrow> nat list \<Rightarrow> ticketing \<Rightarrow> nat list" where
  "admitted user bucket maximum [] st = []"
| "admitted user bucket maximum (now # later) st =
     (case rate_limit user bucket maximum now st of
        (Inr _, st') \<Rightarrow> now # admitted user bucket maximum later st'
      | (Inl _, st') \<Rightarrow> admitted user bucket maximum later st')"

definition window_ok :: "nat \<Rightarrow> nat list \<Rightarrow> bool" where
  "window_ok maximum xs \<longleftrightarrow> (\<forall>t. length (filter (\<lambda>x. t \<le> x \<and> x \<le> t + MINUTE) xs) \<le> maximum)"

text \<open>
  The invariant: what was admitted so far is a part that has left the window for good, followed by the
  queue.
\<close>

definition limiter_ok :: "nat \<Rightarrow> nat \<Rightarrow> nat list \<Rightarrow> nat list \<Rightarrow> bool" where
  "limiter_ok maximum now past queue \<longleftrightarrow> window_ok maximum (past @ queue) \<and> sorted (past @ queue) \<and>
     (\<forall>x \<in> set (past @ queue). x \<le> now) \<and> (\<forall>x \<in> set past. MINUTE < now - x)"

lemma limiter_step:
  assumes ok: "limiter_ok maximum now past queue" and le: "now \<le> now'"
  defines "queue' \<equiv> dropWhile (\<lambda>t. MINUTE < now' - t) queue"
  defines "past' \<equiv> past @ takeWhile (\<lambda>t. MINUTE < now' - t) queue"
  shows "limiter_ok maximum now' past' queue'"
    and "length queue' < maximum \<Longrightarrow> limiter_ok maximum now' past' (queue' @ [now'])"
proof -
  have all: "past' @ queue' = past @ queue" by (simp add: past'_def queue'_def)
  have old: "\<forall>x \<in> set past'. MINUTE < now' - x"
    using ok le by (fastforce simp: past'_def limiter_ok_def dest: set_takeWhileD)
  have upto: "\<forall>x \<in> set (past @ queue). x \<le> now'"
    using ok order_trans [OF _ le] unfolding limiter_ok_def by blast
  show "limiter_ok maximum now' past' queue'"
    using ok upto old unfolding limiter_ok_def all by simp
  assume len: "length queue' < maximum"
  have "length (filter (\<lambda>x. t \<le> x \<and> x \<le> t + MINUTE) (past' @ queue' @ [now'])) \<le> maximum" for t
  proof (cases "t \<le> now' \<and> now' \<le> t + MINUTE")
    case True
    have "filter (\<lambda>x. t \<le> x \<and> x \<le> t + MINUTE) past' = []"
      using old True by (fastforce simp: filter_empty_conv)
    moreover have "length (filter (\<lambda>x. t \<le> x \<and> x \<le> t + MINUTE) queue') \<le> length queue'" by simp
    ultimately show ?thesis using le_less_trans [OF _ len] True by (simp add: Suc_le_eq)
  next
    case False
    then have "filter (\<lambda>x. t \<le> x \<and> x \<le> t + MINUTE) (past' @ queue' @ [now']) =
        filter (\<lambda>x. t \<le> x \<and> x \<le> t + MINUTE) (past @ queue)"
      using all by (metis (no_types, lifting) append_Nil2 append_assoc filter.simps filter_append)
    then show ?thesis using ok by (simp add: limiter_ok_def window_ok_def)
  qed
  moreover have "sorted (past' @ queue' @ [now'])"
    using ok upto all unfolding limiter_ok_def by (simp add: sorted_append del: append_assoc flip: append_assoc)
  moreover have "\<forall>x \<in> set (past' @ queue' @ [now']). x \<le> now'"
    using upto all by (metis Un_iff empty_iff insert_iff list.set order_refl set_append)
  ultimately show "limiter_ok maximum now' past' (queue' @ [now'])"
    using old by (simp add: limiter_ok_def window_ok_def)
qed

lemma admitted_window:
  assumes "limiter_ok maximum now past (tk_rate st (user, bucket))" and "sorted (now # instants)"
  shows "window_ok maximum (past @ tk_rate st (user, bucket) @ admitted user bucket maximum instants st)"
  using assms
proof (induction instants arbitrary: now past st)
  case Nil
  then show ?case by (simp add: limiter_ok_def)
next
  case (Cons now' instants)
  let ?q = "tk_rate st (user, bucket)"
  let ?q' = "dropWhile (\<lambda>t. MINUTE < now' - t) ?q" and ?p' = "past @ takeWhile (\<lambda>t. MINUTE < now' - t) ?q"
  have le: "now \<le> now'" and srt: "sorted (now' # instants)" using Cons.prems(2) by auto
  note step = limiter_step [OF Cons.prems(1) le]
  have split: "?p' @ ?q' @ xs = past @ ?q @ xs" for xs
    by (metis append_assoc takeWhile_dropWhile_id)
  show ?case
  proof (cases "maximum \<le> length ?q'")
    case True
    define st' where "st' = st\<lparr>tk_rate := (tk_rate st)((user, bucket) := ?q')\<rparr>"
    have r: "rate_limit user bucket maximum now' st = (Inl (tk_error ''rate_limited'' ''Too many ticketing requests''), st')"
      using True by (simp add: rate_limit_def st'_def MINUTE_def)
    have "tk_rate st' (user, bucket) = ?q'" by (simp add: st'_def)
    with Cons.IH [of now' ?p' st'] step(1) srt
    have "window_ok maximum (?p' @ ?q' @ admitted user bucket maximum instants st')" by simp
    then show ?thesis by (simp only: split) (simp add: r)
  next
    case False
    define st' where "st' = st\<lparr>tk_rate := (tk_rate st)((user, bucket) := ?q' @ [now'])\<rparr>"
    have r: "rate_limit user bucket maximum now' st = (Inr (), st')"
      using False by (simp add: rate_limit_def st'_def MINUTE_def)
    have "tk_rate st' (user, bucket) = ?q' @ [now']" by (simp add: st'_def)
    with Cons.IH [of now' ?p' st'] step(2) False srt
    have "window_ok maximum (?p' @ ?q' @ now' # admitted user bucket maximum instants st')" by simp
    then show ?thesis by (simp only: split) (simp add: r)
  qed
qed

text \<open>
  The limit of ticketing requests is a true sliding window: of requests that arrive in the order of
  time, no minute, wherever it starts, contains more admitted ones than the configured maximum.
\<close>

theorem rate_limit_sliding_window:
  assumes "tk_rate st (user, bucket) = []" and "sorted instants"
  shows "length (filter (\<lambda>x. t \<le> x \<and> x \<le> t + MINUTE) (admitted user bucket maximum instants st)) \<le> maximum"
proof (cases instants)
  case Nil
  then show ?thesis by simp
next
  case (Cons now later)
  have "limiter_ok maximum now [] (tk_rate st (user, bucket))"
    using assms(1) by (simp add: limiter_ok_def window_ok_def)
  from admitted_window [OF this, of instants] assms Cons show ?thesis by (auto simp: window_ok_def)
qed

end
