(* ===== verification/Ticketing_World.thy ===== *)
theory Ticketing_World
  imports Ticketing_Privacy
begin

text \<open>
  A purchase that goes through, a sample railway and payment provider on which the properties of the
  ticketing service are run, and four scenarios in which the service does something its authors cannot
  have meant.
\<close>

section \<open>A purchase goes through\<close>

text \<open>
  The parties cooperate: the railway accepts fixing and selling, and the provider opens sessions for the
  ordered amount and reports them settled.
\<close>

definition cooperative :: "outside \<Rightarrow> bool" where
  "cooperative out \<longleftrightarrow>
     (\<exists>reply. out_cd out = Some reply \<and> (\<forall>log bid customer. \<not> isl (reply log (FixPriceOffer bid customer))) \<and>
        (\<forall>log bid oid. \<not> isl (reply log (SellTickets bid oid)))) \<and>
     (\<exists>pay. out_payment out = Some pay \<and> (\<forall>base oid. pay_callback pay base oid \<noteq> None) \<and>
        (\<forall>log order return_url cancel_url. \<exists>p. pay_reply pay log (PostCheckoutSession order return_url cancel_url) = Some p \<and>
           valid_provider_session_id (ps_id p) \<and> ps_amount_hellers p = po_amount_hellers order \<and>
           ps_currency p = ''CZK'' \<and> ps_redirect_url p \<noteq> None) \<and>
        (\<forall>log session order. \<exists>p. pay_reply pay log (GetCheckoutSession session order) = Some p \<and>
           settles session order p = Inr ()))"

lemma cooperative_create_checkout:
  assumes "cooperative out"
  shows "\<exists>session log. create_checkout out order st = (Inr session, st\<lparr>tk_log := log\<rparr>) \<and>
    valid_provider_session_id (cs_id session)"
proof -
  from assms obtain pay where pay: "out_payment out = Some pay" "\<forall>base oid. pay_callback pay base oid \<noteq> None"
    "\<forall>log order return_url cancel_url. \<exists>p. pay_reply pay log (PostCheckoutSession order return_url cancel_url) = Some p \<and>
           valid_provider_session_id (ps_id p) \<and> ps_amount_hellers p = po_amount_hellers order \<and>
           ps_currency p = ''CZK'' \<and> ps_redirect_url p \<noteq> None"
    unfolding cooperative_def by blast
  obtain r where r: "pay_callback pay (pay_return_url pay) (po_order_id order) = Some r" using pay(2) by blast
  obtain c where c: "pay_callback pay (pay_cancel_url pay) (po_order_id order) = Some c" using pay(2) by blast
  obtain p where "pay_reply pay (tk_log st) (PostCheckoutSession order r c) = Some p" "valid_provider_session_id (ps_id p)"
    "ps_amount_hellers p = po_amount_hellers order" "ps_currency p = ''CZK''" "ps_redirect_url p \<noteq> None"
    using pay(3) by blast
  then show ?thesis by (auto simp: create_checkout_def pay(1) r c ok_or_def)
qed

lemma cooperative_verify_settled:
  assumes "cooperative out" and "valid_provider_session_id session"
  shows "\<exists>log. verify_settled out session order st = (Inr (), st\<lparr>tk_log := log\<rparr>)"
proof -
  from assms obtain pay where pay: "out_payment out = Some pay"
    "\<forall>log session order. \<exists>p. pay_reply pay log (GetCheckoutSession session order) = Some p \<and> settles session order p = Inr ()"
    unfolding cooperative_def by blast
  then obtain p where "pay_reply pay (tk_log st) (GetCheckoutSession session order) = Some p" "settles session order p = Inr ()"
    by blast
  then show ?thesis by (auto simp: verify_settled_def pay(1) assms(2) intro: exI [of _ "tk_log st @ [(GetCheckoutSession session order, True)]"])
qed

lemma cooperative_cd:
  assumes "cooperative out" and "(\<exists>bid customer. call = FixPriceOffer bid customer) \<or> (\<exists>bid oid. call = SellTickets bid oid)"
  shows "\<exists>raw log. cd_call out call st = (Inr raw, st\<lparr>tk_log := log\<rparr>)"
    and "\<exists>raw log. cd_request out call st = (Inr raw, st\<lparr>tk_log := log\<rparr>)"
proof -
  from assms obtain reply where reply: "out_cd out = Some reply" "\<not> isl (reply (tk_log st) call)"
    unfolding cooperative_def by blast
  then show 1: "\<exists>raw log. cd_call out call st = (Inr raw, st\<lparr>tk_log := log\<rparr>)"
    by (cases "reply (tk_log st) call") (auto simp: cd_call_def)
  then show "\<exists>raw log. cd_request out call st = (Inr raw, st\<lparr>tk_log := log\<rparr>)"
    by (auto simp: cd_request_def)
qed

lemma checkout_goes_through:
  assumes "cooperative out" and "tk_orders st oid = Some order" "or_user_id order = user" "or_status order = ''draft''"
    "or_amount_hellers order \<noteq> None" "or_id order = oid"
  shows "\<exists>session log response. valid_provider_session_id session \<and>
    checkout_body out user oid customer st = (Inr (201, response), st\<lparr>tk_log := log, tk_orders := (tk_orders st)(oid \<mapsto>
      order\<lparr>or_status := ''checkout_pending'', or_customer := Some customer, or_checkout_session_id := Some session,
            or_version := or_version order + 1\<rparr>)\<rparr>)"
proof -
  obtain amount where amount: "or_amount_hellers order = Some amount" using assms(5) by blast
  obtain session log where "create_checkout out (payment_order_of order amount) st = (Inr session, st\<lparr>tk_log := log\<rparr>)"
    "valid_provider_session_id (cs_id session)"
    using cooperative_create_checkout [OF assms(1)] by blast
  then show ?thesis using assms amount
    by (auto simp: checkout_body_def owned_order_def require_draft_def map_error_def save_order_def Let_def ok_or_def
        intro!: exI [of _ "cs_id session"] exI [of _ log])
qed

lemma complete_goes_through:
  assumes "cooperative out" and "tk_orders st oid = Some order" "or_user_id order = user" "or_status order = ''checkout_pending''"
    "or_amount_hellers order = Some amount" "or_id order = oid" "or_customer order = Some customer"
    "or_checkout_session_id order = Some session" "valid_provider_session_id session"
  shows "\<exists>response st' o'. complete_body out user oid st = (Inr (200, response), st') \<and> tk_orders st' oid = Some o' \<and>
    or_status o' = ''issued'' \<and> (\<exists>b. (SellTickets (or_booking_id order) oid, b) \<in> set (tk_log st'))"
proof -
  obtain log where v: "verify_settled out session (payment_order_of order amount) st = (Inr (), st\<lparr>tk_log := log\<rparr>)"
    using cooperative_verify_settled [OF assms(1,9)] by blast
  obtain raw log2 where f: "cd_request out (FixPriceOffer (or_booking_id order) customer) (st\<lparr>tk_log := log\<rparr>) =
      (Inr raw, st\<lparr>tk_log := log2\<rparr>)"
    using cooperative_cd(2) [OF assms(1), of "FixPriceOffer (or_booking_id order) customer" "st\<lparr>tk_log := log\<rparr>"] by auto
  let ?paid = "order\<lparr>or_status := ''paid''\<rparr>" and ?call = "SellTickets (or_booking_id order) oid"
  let ?st = "save_order ?paid (st\<lparr>tk_log := log2\<rparr>)"
  obtain raw2 log3 where s: "cd_call out ?call ?st = (Inr raw2, ?st\<lparr>tk_log := log3\<rparr>)"
    using cooperative_cd(1) [OF assms(1), of ?call ?st] by auto
  then have "(?call, True) \<in> set log3"
    by (auto simp: cd_call_def Let_def split: option.splits dest!: arg_cong [where f = tk_log])
  then have sold: "\<exists>b. (?call, b) \<in> set log3" by blast
  obtain o2 st' where p: "persist_issued out ?paid raw2 (?st\<lparr>tk_log := log3\<rparr>) = (o2, st')" by fastforce
  note effect = persist_issued_effect [OF p]
  have "complete_body out user oid st = (Inr (200, public_order o2), st')"
    using assms(2-9) v f s p
    by (simp add: complete_body_def owned_order_def ok_or_def map_error_def Ticketing_Orders.sell_def Let_def)
  with effect sold assms(6) show ?thesis by auto
qed

text \<open>What other users request touches neither the order nor the answers remembered for its owner.\<close>

lemma serve_others_keep_answers:
  assumes "service_ok out st" and "ca_user c \<noteq> user"
  shows "tk_idempotency (snd (serve out c st)) (user, op, k) = tk_idempotency st (user, op, k)"
proof (cases "is_read (ca_request c)")
  case True
  then obtain oid where "ca_request c = GetOrder oid" by (cases "ca_request c") auto
  then show ?thesis by (cases "owned_order (ca_user c) oid st") (simp_all add: serve_def get_order_def)
next
  case False
  obtain q st1 where pre: "(if is_create (ca_request c) then rate_limit (ca_user c) ''mutation'' MUTATION_LIMIT (ca_instant c) st
      else (checked (ca_request c), st)) = (q, st1)" by fastforce
  have "\<exists>t. st1 = st\<lparr>tk_rate := t\<rparr>"
  proof (cases "is_create (ca_request c)")
    case True
    with pre rate_limit_effect show ?thesis by fastforce
  next
    case False
    with pre have "st1 = st\<lparr>tk_rate := tk_rate st\<rparr>" by simp
    then show ?thesis by blast
  qed
  then have st1: "keyed st1" "tk_idempotency st1 = tk_idempotency st"
    using assms(1) by (auto simp: service_ok_def keyed_def)
  show ?thesis
  proof (cases q)
    case (Inl e)
    then show ?thesis unfolding serve_keyed [OF False] pre using st1 by simp
  next
    case (Inr u)
    obtain r st2 where run: "run_of out c (ca_request c) st1 = (r, st2)" by fastforce
    then have "tk_idempotency st2 = tk_idempotency st1"
      using run_tidy(1) [of out c st1 r st2] st1(1) by (simp add: untouched_def)
    with run show ?thesis unfolding serve_keyed [OF False] pre Inr using assms(2) st1(2)
      by (cases r) (auto simp: idempotent_def split: option.splits)
  qed
qed

lemma serve_all_others:
  assumes "service_ok out st" "inj (out_new_v4 out)" "\<forall>c \<in> set calls. ca_user c \<noteq> user"
    and "tk_orders st oid = Some o'" "or_user_id o' = user"
  shows "tk_orders (serve_all out calls st) oid = Some o' \<and>
    tk_idempotency (serve_all out calls st) (user, op, k) = tk_idempotency st (user, op, k)"
  using assms
proof (induction calls arbitrary: st)
  case (Cons c calls)
  let ?st = "snd (serve out c st)"
  have "micros out (ca_user c) st ?st"
    using Cons.prems(1) by (intro serve_micros [OF surjective_pairing]) (simp add: service_ok_def)
  then have "tk_orders ?st oid = Some o'"
    using micros_others Cons.prems by fastforce
  with Cons.IH [of ?st] Cons.prems serve_ok [OF Cons.prems(1,2)] serve_others_keep_answers [OF Cons.prems(1), of c user]
  show ?case by (simp add: serve_all_def)
qed (simp add: serve_all_def)

text \<open>C14:
  A purchase completes: when the railway accepts the booking and the provider reports the payment as
  settled, the owner of a draft with an amount who checks out and then completes gets the order issued
  after exactly one sale, whatever other users request in between.
\<close>

theorem purchase_completes:
  fixes calls between :: "call list"
  assumes "inj (out_new_v4 out)" and "fresh_service st0" and "cooperative out"
  defines "st \<equiv> serve_all out calls st0"
  assumes "tk_orders st oid = Some order" and "or_status order = ''draft''" and "or_amount_hellers order \<noteq> None"
    and "ca_user c1 = or_user_id order" "ca_request c1 = Checkout oid customer" "validate_customer customer = Inr ()"
    and "ca_key c1 = Some k1" "valid_idempotency_key k1" "tk_idempotency st (or_user_id order, ''checkout'', k1) = None"
    and "ca_user c2 = or_user_id order" "ca_request c2 = Complete oid"
    and "ca_key c2 = Some k2" "valid_idempotency_key k2" "tk_idempotency st (or_user_id order, ''complete'', k2) = None"
    and "\<forall>c \<in> set between. ca_user c \<noteq> or_user_id order"
  defines "st2 \<equiv> serve_all out between (snd (serve out c1 st))"
  shows "\<exists>offered issued o'. fst (serve out c1 st) = Inr (201, offered) \<and> fst (serve out c2 st2) = Inr (200, issued) \<and>
    tk_orders (snd (serve out c2 st2)) oid = Some o' \<and> or_status o' = ''issued'' \<and>
    sales oid (tk_log (snd (serve out c2 st2))) = 1"
proof -
  have ok: "service_ok out st" unfolding st_def by (rule serve_all_ok [OF fresh_service_ok [OF assms(2)] assms(1)])
  then have oid: "or_id order = oid" using assms(5) by (auto simp: service_ok_def keyed_def)
  obtain session log response where session: "valid_provider_session_id session"
    and checked_out: "checkout_body out (or_user_id order) oid customer st = (Inr (201, response), st\<lparr>tk_log := log,
      tk_orders := (tk_orders st)(oid \<mapsto> order\<lparr>or_status := ''checkout_pending'', or_customer := Some customer,
        or_checkout_session_id := Some session, or_version := or_version order + 1\<rparr>)\<rparr>)" (is "_ = (_, ?st1)")
    using checkout_goes_through [OF assms(3,5) refl assms(6,7) oid] by blast
  obtain e where first: "serve out c1 st = (Inr (201, response),
      ?st1\<lparr>tk_idempotency := (tk_idempotency ?st1)((or_user_id order, ''checkout'', k1) \<mapsto> e)\<rparr>)" (is "_ = (_, ?s)")
    using assms(8-13) checked_out by (simp add: serve_def checkout_def idempotent_def)
  have ok1: "service_ok out ?s" using serve_ok [OF ok assms(1), of c1] unfolding first by simp
  let ?pending = "order\<lparr>or_status := ''checkout_pending'', or_customer := Some customer,
        or_checkout_session_id := Some session, or_version := or_version order + 1\<rparr>"
  have st2: "tk_orders st2 oid = Some ?pending" "tk_idempotency st2 (or_user_id order, ''complete'', k2) = None"
    using serve_all_others [OF ok1 assms(1), of between "or_user_id order" oid ?pending "''complete''" k2] assms(18,19)
    unfolding st2_def first by auto
  obtain amount where "or_amount_hellers order = Some amount" using assms(7) by blast
  with complete_goes_through [OF assms(3) st2(1), of "or_user_id order" amount customer session] session oid
  have "\<exists>response st' o'. complete_body out (or_user_id order) oid st2 = (Inr (200, response), st') \<and> tk_orders st' oid = Some o' \<and>
    or_status o' = ''issued'' \<and> (\<exists>b. (SellTickets (or_booking_id ?pending) oid, b) \<in> set (tk_log st'))" by simp
  then obtain response2 st3 o' where body: "complete_body out (or_user_id order) oid st2 = (Inr (200, response2), st3)"
      "tk_orders st3 oid = Some o'" "or_status o' = ''issued''" "\<exists>bid b. (SellTickets bid oid, b) \<in> set (tk_log st3)"
    by blast
  obtain e2 where second: "serve out c2 st2 = (Inr (200, response2),
      st3\<lparr>tk_idempotency := (tk_idempotency st3)((or_user_id order, ''complete'', k2) \<mapsto> e2)\<rparr>)"
    using assms(14-17) st2(2) body(1) by (simp add: serve_def complete_def idempotent_def)
  have "service_ok out (snd (serve out c2 st2))"
    using serve_ok [OF serve_all_ok [OF ok1 assms(1)] assms(1)] unfolding st2_def first by simp
  then have "sales oid (tk_log st3) \<le> 1" unfolding second service_ok_def by simp
  moreover have "sales oid (tk_log st3) \<noteq> 0" using body(4) unfolding sales_0_iff is_sell_def by blast
  ultimately have "sales oid (tk_log st3) = 1" by simp
  with first second body show ?thesis by auto
qed

section \<open>A sample outside world\<close>

fun railway :: "outside_call \<Rightarrow> cd_error + json" where
  "railway (CreatePriceOffer handle conn flags booking) =
     Inr (JObject [(''bookingId'', JString (''B'' @ hex_digits 2 (nat conn))), (''handle'', JInt handle),
       (''offers'', JArray [JObject [(''basicPriceFlags'', JInt 1), (''price'', JInt 31000)],
                            JObject [(''basicPriceFlags'', JInt 3), (''price'', JInt 25000)]])])"
| "railway (SellTickets bid oid) =
     Inr (JObject [(''tickets'', JArray [JObject [(''documentId'', JString ''D1''), (''documentType'', JInt 1),
       (''ticketsIds'', JArray [JObject [(''ticketId'', JString ''T1''), (''sjtTicketId'', JString ''S1'')]])]])])"
| "railway (RefundQuote tid email) = Inr (JObject [(''price2Refund'', JInt 20000)])"
| "railway (SetBikes bid n trains) = Inr (JObject [(''price'', JInt 9900)])"
| "railway (ReleasePriceOffer bid) = Inl CdTimeout"
| "railway _ = Inr (JObject [(''price'', JInt 25000)])"

fun bank :: "outside_call \<Rightarrow> provider_status option" where
  "bank (PostCheckoutSession order return_url cancel_url) =
     Some \<lparr>ps_id = ''cs_1'', ps_status = ''open'', ps_amount_hellers = po_amount_hellers order, ps_currency = ''CZK'',
           ps_redirect_url = Some ''https://bank.example/cs_1'', ps_expires_at = Some 900\<rparr>"
| "bank (GetCheckoutSession session order) =
     Some \<lparr>ps_id = session, ps_status = ''settled'', ps_amount_hellers = po_amount_hellers order, ps_currency = ''CZK'',
           ps_redirect_url = None, ps_expires_at = None\<rparr>"
| "bank _ = None"

fun sample_digest :: "op_body \<Rightarrow> string" where
  "sample_digest (BodyId oid) = ''id'' @ hex_digits 8 oid"
| "sample_digest (BodyOffer t) = ''offer'' @ hex_digits 4 (nat t)"
| "sample_digest (BodyCreate body) = ''create'' @ hex_digits 8 (oc_connection_id body)"
| "sample_digest (BodyReservations trains) = ''reservations''"
| "sample_digest (BodyBicycles b) = ''bicycles'' @ hex_digits 2 (nat (br_count b))"
| "sample_digest (BodyDogs b) = ''dogs'' @ hex_digits 2 (nat (dr_count b))"
| "sample_digest (BodyCustomer c) = ''customer''"
| "sample_digest (BodyEmail e) = ''email''"

definition sample_outside :: outside where
  "sample_outside = \<lparr>out_cd = Some (\<lambda>log call. railway call),
     out_payment = Some \<lparr>pay_reply = (\<lambda>log call. bank call), pay_callback = (\<lambda>base oid. Some (base @ show_uuid oid)),
       pay_return_url = ''https://cesta.example/ok/'', pay_cancel_url = ''https://cesta.example/no/''\<rparr>,
     out_new_v4 = (\<lambda>n. n + 100), out_digest = sample_digest, out_rfc3339 = (\<lambda>t. ''1970-01-01T00:15:00Z'')\<rparr>"

text \<open>User 7 has found two connections with one search.\<close>

definition sample_service :: ticketing where
  "sample_service = \<lparr>tk_orders = Map.empty,
     tk_searches = [1 \<mapsto> \<lparr>se_id = 1, se_user_id = 7, se_handle = 40, se_connections = [2 \<mapsto> 5, 3 \<mapsto> 6], se_expires_at = 600\<rparr>],
     tk_documents = Map.empty, tk_tickets = Map.empty, tk_refunds = Map.empty, tk_idempotency = Map.empty,
     tk_rate = (\<lambda>_. []), tk_log = [], tk_drawn = 0\<rparr>"

definition sample_customer :: customer_request where
  "sample_customer = \<lparr>cu_email = [97, 64, 98], cu_name = Some [65], cu_in_card_number = None, cu_birth_date = None,
     cu_company_name = None\<rparr>"

definition sample_call :: "string \<Rightarrow> request \<Rightarrow> call" where
  "sample_call key req = \<lparr>ca_user = 7, ca_key = Some key, ca_instant = 1000, ca_now = 10, ca_request = req\<rparr>"

definition sample_create :: "string \<Rightarrow> uuid \<Rightarrow> call" where
  "sample_create key connection = sample_call key (CreateOrder \<lparr>oc_search_id = 1, oc_connection_id = connection,
     oc_passenger_groups = [\<lparr>pr_passenger_type_id = 1, pr_count = 2, pr_age = None, pr_reduction_ids = []\<rparr>], oc_class = 2\<rparr>)"

definition sample_purchase :: "call list" where
  "sample_purchase = [sample_create ''key-0001'' 2, sample_call ''key-0002'' (Checkout 100 sample_customer),
     sample_call ''key-0003'' (Complete 100)]"

lemma inj_sample_outside: "inj (out_new_v4 sample_outside)"
  by (simp add: sample_outside_def inj_def)

lemma fresh_sample_service: "fresh_service sample_service"
  by (simp add: fresh_service_def sample_service_def)

lemma idempotency_sample_service: "tk_idempotency sample_service = Map.empty"
  by (simp add: sample_service_def)

lemmas sample_fresh = inj_sample_outside fresh_sample_service

definition sample_status :: "call list \<Rightarrow> uuid \<Rightarrow> string" where
  "sample_status calls oid = (case tk_orders (serve_all sample_outside calls sample_service) oid of
     None \<Rightarrow> ''none'' | Some o' \<Rightarrow> or_status o')"


text \<open>Evaluation: the rest of a handler is looked at only once its first part has a value.\<close>

lemma and_then_weak_cong: "m = m' \<Longrightarrow> and_then m f = and_then m' f"
  by simp

lemmas ticket_eval = serve_all_def serve_def create_order_def refresh_quote_def select_offer_def cancel_order_def
  set_bicycles_def mutate_addon_def checkout_def complete_def refund_def
  idempotent_def create_order_body_def select_offer_body_def checkout_body_def complete_body_def
  refund_body_def mutate_addon_body_def cancel_order_body_def
  rate_limit_def MUTATION_LIMIT_def owned_search_def owned_order_def owned_ticket_def ok_or_def booking_request_def
  cd_request_def cd_call_def json_get.simps new_v4_def save_order_def require_draft_def offer_amount_def
  create_checkout_def verify_settled_def settles_def map_error_def payment_order_of_def
  Ticketing_Orders.sell_def persist_issued_def array_of_def issue_document_def issue_ticket_def
  sample_outside_def sample_service_def sample_customer_def sample_call_def sample_create_def
  validate_customer_def validate_email_def utf8_len_def is_control_def trim_def is_whitespace_def

lemma sample_keys: "valid_idempotency_key ''key-0001''" "valid_idempotency_key ''key-0002''" "valid_idempotency_key ''key-0003''"
  "valid_idempotency_key ''key-0004''" "valid_idempotency_key ''key-0005''"
  "valid_provider_session_id ''cs_1''"
  by code_simp+

text \<open>The order that the first request leaves.\<close>

definition sample_order :: order_record where
  "sample_order = \<lparr>or_id = 100, or_user_id = 7, or_search_id = 1, or_connection_id = 2, or_conn_id = 5, or_booking_id = ''B05'',
     or_status = ''draft'', or_selected_offer_type = None, or_amount_hellers = Some 25000, or_customer = None,
     or_quote = JObject [(''bookingId'', JString ''B05''), (''handle'', JInt 40),
       (''offers'', JArray [JObject [(''basicPriceFlags'', JInt 1), (''price'', JInt 31000)],
                            JObject [(''basicPriceFlags'', JInt 3), (''price'', JInt 25000)]])],
     or_checkout_session_id = None, or_version = 0\<rparr>"

lemma sample_hex: "hex_digits 2 5 = ''05''" "hex_digits 2 6 = ''06''" "hex_digits 8 2 = ''00000002''" "hex_digits 8 3 = ''00000003''"
  by code_simp+

lemmas sample_eval = ticket_eval sample_keys sample_hex Let_def

lemma sample_created:
  "serve sample_outside (sample_create ''key-0001'' 2) sample_service =
    (Inr (201, public_order sample_order), sample_service\<lparr>tk_orders := [100 \<mapsto> sample_order],
       tk_rate := (\<lambda>_. [])((7, ''mutation'') := [1000]), tk_drawn := 1,
       tk_log := [(CreatePriceOffer 40 5 (Some QUOTE_CREATE_FLAGS) \<lparr>bk_flags = Some QUOTE_CREATE_FLAGS, bk_class = Some 2,
         bk_passengers = [\<lparr>pa_count = Some 2, pa_id = Some 1, pa_age = None, pa_cards = []\<rparr>]\<rparr>, True)],
       tk_idempotency := [(7, ''create_order'', ''key-0001'') \<mapsto> \<lparr>ir_request_hash = ''create00000002'', ir_status = 201,
         ir_body = public_order sample_order\<rparr>]\<rparr>)"
  by (simp add: sample_eval sample_order_def cong: and_then_weak_cong)

definition sample_created_state :: ticketing where
  "sample_created_state = serve_all sample_outside [sample_create ''key-0001'' 2] sample_service"

lemma sample_created_state: "sample_created_state = snd (serve sample_outside (sample_create ''key-0001'' 2) sample_service)"
  by (simp add: sample_created_state_def serve_all_def)

lemma sample_created_facts:
  "tk_orders sample_created_state = [100 \<mapsto> sample_order]"
  "tk_idempotency sample_created_state = [(7, ''create_order'', ''key-0001'') \<mapsto> \<lparr>ir_request_hash = ''create00000002'',
     ir_status = 201, ir_body = public_order sample_order\<rparr>]"
  unfolding sample_created_state sample_created by simp_all

lemma sample_purchase_issued: "sample_status sample_purchase 100 = ''issued''"
  by (simp add: sample_status_def sample_purchase_def sample_eval cong: and_then_weak_cong)

lemma sample_customer_valid: "validate_customer sample_customer = Inr ()"
  by code_simp

theorem purchase_completes_witness:
  "\<exists>offered issued o'.
    fst (serve sample_outside (sample_call ''key-0002'' (Checkout 100 sample_customer)) sample_created_state) = Inr (201, offered) \<and>
    fst (serve sample_outside (sample_call ''key-0003'' (Complete 100))
      (serve_all sample_outside [] (snd (serve sample_outside (sample_call ''key-0002'' (Checkout 100 sample_customer)) sample_created_state))))
     = Inr (200, issued) \<and>
    tk_orders (snd (serve sample_outside (sample_call ''key-0003'' (Complete 100))
      (serve_all sample_outside [] (snd (serve sample_outside (sample_call ''key-0002'' (Checkout 100 sample_customer)) sample_created_state)))))
     100 = Some o' \<and> or_status o' = ''issued'' \<and>
    sales 100 (tk_log (snd (serve sample_outside (sample_call ''key-0003'' (Complete 100))
      (serve_all sample_outside [] (snd (serve sample_outside (sample_call ''key-0002'' (Checkout 100 sample_customer)) sample_created_state))))))
     = 1"
  unfolding sample_created_state_def
proof (rule purchase_completes [OF sample_fresh, where order = sample_order and ?k1.0 = "''key-0002''" and ?k2.0 = "''key-0003''"
      and customer = sample_customer])
  show "cooperative sample_outside"
    by (simp add: cooperative_def sample_outside_def settles_def sample_keys)
qed (simp_all add: sample_created_state_def [symmetric] sample_created_facts sample_customer_valid sample_keys,
    simp_all add: sample_order_def sample_call_def)

lemma sample_purchase_sale:
  "tk_log (serve_all sample_outside sample_purchase sample_service) \<noteq> [] \<and>
   last (tk_log (serve_all sample_outside sample_purchase sample_service)) = (SellTickets ''B05'' 100, True)"
  by (simp add: sample_purchase_def sample_eval cong: and_then_weak_cong)

theorem sold_once_after_payment_witness:
  "\<exists>o' session pay earlier request reply. tk_orders (serve_all sample_outside sample_purchase sample_service) 100 = Some o' \<and>
    or_booking_id o' = ''B05'' \<and> or_checkout_session_id o' = Some session \<and> out_payment sample_outside = Some pay \<and>
    prefix earlier (butlast (tk_log (serve_all sample_outside sample_purchase sample_service))) \<and>
    pay_reply pay earlier request = Some reply \<and> ps_status reply = ''settled'' \<and> ps_id reply = session"
proof -
  let ?l = "tk_log (serve_all sample_outside sample_purchase sample_service)"
  have "?l = butlast ?l @ (SellTickets ''B05'' 100, True) # []"
    using append_butlast_last_id [of ?l] sample_purchase_sale by simp
  with sold_once_after_payment [OF sample_fresh, of 100 sample_purchase] show ?thesis by blast
qed

theorem stored_orders_typed_witness:
  "\<exists>o'. tk_orders (serve_all sample_outside sample_purchase sample_service) 100 = Some o' \<and> or_id o' = 100 \<and>
    or_status o' = ''issued'' \<and> or_amount_hellers o' \<noteq> None \<and> or_checkout_session_id o' \<noteq> None \<and> or_customer o' \<noteq> None"
proof -
  obtain o' where o': "tk_orders (serve_all sample_outside sample_purchase sample_service) 100 = Some o'" "or_status o' = ''issued''"
    using sample_purchase_issued by (auto simp: sample_status_def split: option.splits)
  from stored_orders_typed [OF sample_fresh this(1)] o' show ?thesis by simp
qed

theorem orders_refine_life_cycle_witness:
  "life_cycle\<^sup>*\<^sup>* (phase_of (tk_orders (serve_all sample_outside [sample_create ''key-0001'' 2] sample_service) 100))
     (phase_of (tk_orders (snd (serve sample_outside (sample_call ''key-0002'' (Checkout 100 sample_customer))
        (serve_all sample_outside [sample_create ''key-0001'' 2] sample_service))) 100))"
  by (rule orders_refine_life_cycle [OF sample_fresh])

definition stranger :: "call \<Rightarrow> call" where
  "stranger c = c\<lparr>ca_user := 8\<rparr>"

theorem users_are_isolated_witness:
  "tk_orders (snd (serve sample_outside (stranger (sample_call ''key-0009'' (CancelOrder 100))) sample_created_state)) 100 =
     Some sample_order \<and>
   cancel_order_body sample_outside 8 100 sample_created_state = (Inl not_found_owned, sample_created_state)"
proof -
  have "or_user_id sample_order \<noteq> ca_user (stranger (sample_call ''key-0009'' (CancelOrder 100)))"
    by (simp add: sample_order_def stranger_def sample_call_def)
  moreover have eight: "ca_user (stranger (sample_call ''key-0009'' (CancelOrder 100))) = 8" by (simp add: stranger_def)
  moreover have "tk_orders (serve_all sample_outside [sample_create ''key-0001'' 2] sample_service) 100 = Some sample_order"
    unfolding sample_created_state_def [symmetric] by (simp add: sample_created_facts)
  ultimately show ?thesis
    using users_are_isolated [OF sample_fresh, where calls = "[sample_create ''key-0001'' 2]" and oid = 100 and o' = sample_order
        and c = "stranger (sample_call ''key-0009'' (CancelOrder 100))"]
    unfolding sample_created_state_def by (simp del: insert_iff add: eight)
qed

lemma sample_cancel_fails:
  "fst (serve sample_outside (sample_call ''key-0002'' (CancelOrder 100)) sample_created_state) = Inl (cd_failure CdTimeout)"
  unfolding sample_created_state sample_created
  by (simp add: sample_eval sample_order_def cong: and_then_weak_cong)

theorem failed_requests_store_nothing_witness:
  "tk_orders (snd (serve sample_outside (sample_call ''key-0002'' (CancelOrder 100)) sample_created_state)) =
     tk_orders sample_created_state \<and>
   tk_idempotency (snd (serve sample_outside (sample_call ''key-0002'' (CancelOrder 100)) sample_created_state)) =
     tk_idempotency sample_created_state"
proof -
  have "serve sample_outside (sample_call ''key-0002'' (CancelOrder 100))
      (serve_all sample_outside [sample_create ''key-0001'' 2] sample_service) =
    (Inl (cd_failure CdTimeout), snd (serve sample_outside (sample_call ''key-0002'' (CancelOrder 100)) sample_created_state))"
    using sample_cancel_fails unfolding sample_created_state_def [symmetric] by (intro prod_eqI) simp_all
  from failed_requests_store_nothing [OF sample_fresh this] show ?thesis
    unfolding sample_created_state_def [symmetric] by (auto simp: sample_call_def)
qed

lemma sample_checkout_answer:
  "\<exists>v. fst (serve sample_outside (sample_call ''key-0002'' (Checkout 100 sample_customer)) sample_created_state) = Inr (201, v)"
  unfolding sample_created_state sample_created
  by (simp add: sample_eval sample_order_def cong: and_then_weak_cong)


lemma json_has_key_eval:
  "json_has_key k (JObject []) \<longleftrightarrow> False"
  "json_has_key k (JObject ((k', v) # m)) \<longleftrightarrow> k = k' \<or> json_has_key k v \<or> json_has_key k (JObject m)"
  "json_has_key k (JArray []) \<longleftrightarrow> False"
  "json_has_key k (JArray (v # xs)) \<longleftrightarrow> json_has_key k v \<or> json_has_key k (JArray xs)"
  by (auto simp: json_has_key_simps)

lemma sample_read_answer:
  "\<exists>v. fst (serve sample_outside (sample_call ''key-0004'' (GetOrder 100)) (serve_all sample_outside sample_purchase sample_service)) =
     Inr (200, v) \<and> json_has_key ''sjtTicketId'' v"
  by (simp add: sample_purchase_def sample_eval get_order_def public_order_def json_has_key_eval cong: and_then_weak_cong)

theorem answers_hide_upstream_identifiers_witness:
  "\<exists>v. fst (serve sample_outside (sample_call ''key-0004'' (GetOrder 100)) (serve_all sample_outside sample_purchase sample_service)) =
     Inr (200, v) \<and> \<not> json_has_key ''documentId'' v"
proof -
  obtain v where v: "fst (serve sample_outside (sample_call ''key-0004'' (GetOrder 100))
      (serve_all sample_outside sample_purchase sample_service)) = Inr (200, v)" using sample_read_answer by blast
  have "\<not> json_has_key ''documentId'' v"
    by (rule answers_hide_upstream_identifiers [OF sample_fresh idempotency_sample_service v]) simp
  with v show ?thesis by blast
qed

inductive_simps json_binds_simps: "json_binds k v (JObject m)" "json_binds k v (JArray xs)"

definition sample_context :: json where
  "sample_context = JObject [(''items'', JArray [JObject [(''customer_e-mail'', JString ''a@b''), (''price'', JInt 3)]])]"

theorem redact_json_correct_witness:
  "\<exists>v. json_binds ''customer_e-mail'' v (redact_json sample_context) \<and> v = JString ''[REDACTED]'' \<and>
     redact_json (redact_json sample_context) = redact_json sample_context"
proof -
  have sens: "is_sensitive ''customer_e-mail''" "\<not> is_sensitive ''items''" by code_simp+
  have "json_binds ''customer_e-mail'' (JString ''[REDACTED]'') (redact_json sample_context)"
    unfolding sample_context_def by (simp add: sens json_binds_simps)
  with redact_json_correct [of "''customer_e-mail''" _ sample_context] sens show ?thesis by blast
qed

theorem rate_limit_sliding_window_witness:
  "length (filter (\<lambda>x. 0 \<le> x \<and> x \<le> 0 + MINUTE) (admitted 7 ''mutation'' 2 [1, 2, 3] sample_service)) \<le> 2"
  by (rule rate_limit_sliding_window) (simp_all add: sample_service_def)

section \<open>Scenarios\<close>

text \<open>
  The digest of a request covers its body but not the order in its path: checking out a second order
  under the key of the first one is answered with the first order's session, and does nothing.
\<close>

lemma idempotency_ignores_the_order:
  "(let c1 = sample_create ''key-0001'' 2; c2 = sample_create ''key-0002'' 3;
        st = serve_all sample_outside [c1, c2] sample_service;
        (r1, st1) = serve sample_outside (sample_call ''key-0003'' (Checkout 100 sample_customer)) st;
        (r2, st2) = serve sample_outside (sample_call ''key-0003'' (Checkout 101 sample_customer)) st1
    in r1 = r2 \<and> map_option or_status (tk_orders st2 100) = Some ''checkout_pending'' \<and>
       map_option or_status (tk_orders st2 101) = Some ''draft'')"
  by (simp add: sample_eval cong: and_then_weak_cong)

text \<open>Nothing marks a ticket whose refund was requested: a second key submits a second refund.\<close>

lemma refund_submitted_twice:
  "length (filter (\<lambda>e. e = (RefundTicket ''T1'' [97, 64, 98], True)) (tk_log (serve_all sample_outside
     (sample_purchase @ [sample_call ''key-0004'' (Refund 102 [97, 64, 98]), sample_call ''key-0005'' (Refund 102 [97, 64, 98])])
     sample_service))) = 2"
  by (simp add: sample_purchase_def sample_eval cong: and_then_weak_cong)

text \<open>
  \<open>sanitize_public\<close> removes the identifier of the regional ticket, the view of an order does not.
\<close>

lemma order_view_shows_regional_ticket:
  "\<exists>v. fst (serve sample_outside (sample_call ''key-0004'' (GetOrder 100)) (serve_all sample_outside sample_purchase sample_service)) =
     Inr (200, v) \<and> json_has_key ''sjtTicketId'' v"
  by (rule sample_read_answer)

end
