(* ===== verification/Net_Address.thy ===== *)
theory Net_Address
  imports Transit_Model
begin

text \<open>
  What \<^verbatim>\<open>services/api\<close> uses of the standard library to read numbers, booleans and addresses from text:
  \<open>str::parse\<close> for unsigned integers, \<open>bool\<close>, \<open>IpAddr\<close> and \<open>SocketAddr\<close>. Text is a list of Unicode scalar
  values; \<open>ascii\<close> writes literals.
\<close>

definition ascii :: "string \<Rightarrow> ustring" where
  "ascii s = map of_char s"

definition lower_ascii :: "ustring \<Rightarrow> ustring" where
  "lower_ascii s = map (\<lambda>c. if 65 \<le> c \<and> c \<le> 90 then c + 32 else c) s"

section \<open>Numbers\<close>

definition digit_of :: "nat \<Rightarrow> nat \<Rightarrow> nat option" where
  "digit_of radix c =
     (let d = (if 48 \<le> c \<and> c \<le> 57 then c - 48 else if 97 \<le> c \<and> c \<le> 122 then c - 87
               else if 65 \<le> c \<and> c \<le> 90 then c - 55 else 36)
      in if d < radix then Some d else None)"

definition digits_value :: "nat \<Rightarrow> ustring \<Rightarrow> nat" where
  "digits_value radix ds = foldl (\<lambda>n c. n * radix + (case digit_of radix c of Some d \<Rightarrow> d | None \<Rightarrow> 0)) 0 ds"

text \<open>\<open>uN::from_str\<close>: an optional plus sign, at least one digit, no overflow.\<close>

definition parse_uint :: "nat \<Rightarrow> ustring \<Rightarrow> nat option" where
  "parse_uint bits s =
     (let ds = (case s of c # cs \<Rightarrow> if c = 43 then cs else s | [] \<Rightarrow> [])
      in if ds = [] \<or> (\<exists>c \<in> set ds. digit_of 10 c = None) \<or> 2 ^ bits \<le> digits_value 10 ds then None
         else Some (digits_value 10 ds))"

definition parse_bool_text :: "ustring \<Rightarrow> bool option" where
  "parse_bool_text s = (if s = ascii ''true'' then Some True else if s = ascii ''false'' then Some False else None)"

section \<open>Addresses\<close>

datatype ip_addr = V4 nat nat nat nat | V6 "nat list"

text \<open>The parser of \<open>core::net\<close>: a reader returns what it read and what is left.\<close>

definition read_given_char :: "nat \<Rightarrow> ustring \<Rightarrow> ustring option" where
  "read_given_char c s = (case s of [] \<Rightarrow> None | x # xs \<Rightarrow> if x = c then Some xs else None)"

definition read_number :: "nat \<Rightarrow> nat option \<Rightarrow> bool \<Rightarrow> nat \<Rightarrow> ustring \<Rightarrow> (nat \<times> ustring) option" where
  "read_number radix max_digits allow_zero_prefix bound s =
     (let ds = takeWhile (\<lambda>c. digit_of radix c \<noteq> None) s
      in if ds = [] \<or> (case max_digits of Some m \<Rightarrow> m < length ds | None \<Rightarrow> False) \<or>
            (\<not> allow_zero_prefix \<and> hd ds = 48 \<and> 1 < length ds) \<or> bound \<le> digits_value radix ds then None
         else Some (digits_value radix ds, drop (length ds) s))"

definition read_separator :: "nat \<Rightarrow> nat \<Rightarrow> ustring \<Rightarrow> ustring option" where
  "read_separator sep index s = (if index = 0 then Some s else read_given_char sep s)"

fun read_octets :: "nat \<Rightarrow> nat \<Rightarrow> ustring \<Rightarrow> (nat list \<times> ustring) option" where
  "read_octets 0 index s = Some ([], s)"
| "read_octets (Suc left) index s = do {
     s \<leftarrow> read_separator 46 index s;
     (n, s) \<leftarrow> read_number 10 (Some 3) False 256 s;
     (ns, s) \<leftarrow> read_octets left (Suc index) s;
     Some (n # ns, s) }"

definition read_ipv4 :: "ustring \<Rightarrow> (nat list \<times> ustring) option" where
  "read_ipv4 s = read_octets 4 0 s"

fun read_groups :: "nat \<Rightarrow> nat \<Rightarrow> ustring \<Rightarrow> nat list \<times> bool \<times> ustring" where
  "read_groups 0 index s = ([], False, s)"
| "read_groups (Suc left) index s =
     (case (if 0 < left then Option.bind (read_separator 58 index s) read_ipv4 else None) of
        Some (octets, rest) \<Rightarrow>
          ([octets ! 0 * 256 + octets ! 1, octets ! 2 * 256 + octets ! 3], True, rest)
      | None \<Rightarrow>
          (case Option.bind (read_separator 58 index s) (read_number 16 (Some 4) True 65536) of
             None \<Rightarrow> ([], False, s)
           | Some (g, rest) \<Rightarrow>
               (case read_groups left (Suc index) rest of (groups, ipv4, rest) \<Rightarrow> (g # groups, ipv4, rest))))"

definition read_ipv6 :: "ustring \<Rightarrow> (nat list \<times> ustring) option" where
  "read_ipv6 s =
     (case read_groups 8 0 s of (head, ipv4, rest) \<Rightarrow>
        if length head = 8 then Some (head, rest)
        else if ipv4 then None
        else do {
          rest \<leftarrow> read_given_char 58 rest;
          rest \<leftarrow> read_given_char 58 rest;
          (case read_groups (8 - (length head + 1)) 0 rest of (tail, _, rest) \<Rightarrow>
             Some (head @ replicate (8 - length head - length tail) 0 @ tail, rest)) })"

definition read_ip_addr :: "ustring \<Rightarrow> (ip_addr \<times> ustring) option" where
  "read_ip_addr s =
     (case read_ipv4 s of
        Some (o4, rest) \<Rightarrow> Some (V4 (o4 ! 0) (o4 ! 1) (o4 ! 2) (o4 ! 3), rest)
      | None \<Rightarrow> map_option (\<lambda>(groups, rest). (V6 groups, rest)) (read_ipv6 s))"

definition parse_ip_addr :: "ustring \<Rightarrow> ip_addr option" where
  "parse_ip_addr s = (case read_ip_addr s of Some (ip, []) \<Rightarrow> Some ip | _ \<Rightarrow> None)"

definition read_port :: "ustring \<Rightarrow> (nat \<times> ustring) option" where
  "read_port s = do { s \<leftarrow> read_given_char 58 s; read_number 10 None True 65536 s }"

text \<open>\<open>a.b.c.d:port\<close> or \<open>[v6]:port\<close>, the latter with an optional scope id.\<close>

definition parse_socket_addr :: "ustring \<Rightarrow> (ip_addr \<times> nat) option" where
  "parse_socket_addr s =
     (case do { (o4, s) \<leftarrow> read_ipv4 s; (port, s) \<leftarrow> read_port s; Some (V4 (o4 ! 0) (o4 ! 1) (o4 ! 2) (o4 ! 3), port, s) } of
        Some (ip, port, s) \<Rightarrow> if s = [] then Some (ip, port) else None
      | None \<Rightarrow>
          (case do {
             s \<leftarrow> read_given_char 91 s;
             (groups, s) \<leftarrow> read_ipv6 s;
             let s = (case do { s \<leftarrow> read_given_char 37 s; read_number 10 None True (2 ^ 32) s } of
                        Some (_, s) \<Rightarrow> s | None \<Rightarrow> s);
             s \<leftarrow> read_given_char 93 s;
             (port, s) \<leftarrow> read_port s;
             Some (V6 groups, port, s) } of
             Some (ip, port, s) \<Rightarrow> if s = [] then Some (ip, port) else None
           | None \<Rightarrow> None))"

lemma parse_ip_addr_samples:
  "parse_ip_addr (ascii ''127.0.0.1'') = Some (V4 127 0 0 1)"
  "parse_ip_addr (ascii ''127.0.0.01'') = None"
  "parse_ip_addr (ascii ''256.0.0.1'') = None"
  "parse_ip_addr (ascii ''::1'') = Some (V6 [0, 0, 0, 0, 0, 0, 0, 1])"
  "parse_ip_addr (ascii ''::ffff:10.0.0.7'') = Some (V6 [0, 0, 0, 0, 0, 65535, 2560, 7])"
  "parse_ip_addr (ascii ''2001:db8::1:'') = None"
  "parse_socket_addr (ascii ''0.0.0.0:8070'') = Some (V4 0 0 0 0, 8070)"
  "parse_socket_addr (ascii ''[::1%3]:80'') = Some (V6 [0, 0, 0, 0, 0, 0, 0, 1], 80)"
  "parse_socket_addr (ascii ''localhost:80'') = None"
  by code_simp+

section \<open>Properties of addresses\<close>

definition is_loopback :: "ip_addr \<Rightarrow> bool" where
  "is_loopback ip = (case ip of V4 a _ _ _ \<Rightarrow> a = 127 | V6 groups \<Rightarrow> groups = [0, 0, 0, 0, 0, 0, 0, 1])"

definition to_ipv4_mapped :: "nat list \<Rightarrow> ip_addr option" where
  "to_ipv4_mapped groups =
     (if take 6 groups = [0, 0, 0, 0, 0, 65535]
      then Some (V4 (groups ! 6 div 256) (groups ! 6 mod 256) (groups ! 7 div 256) (groups ! 7 mod 256)) else None)"

end
