(* ===== verification/App_Config.thy ===== *)
theory App_Config
  imports Net_Address Routing_Config
begin

text \<open>
  \<^verbatim>\<open>services/api/src/config.rs\<close>: the configuration read from the environment, and the mapping of error
  codes to HTTP statuses of \<^verbatim>\<open>error.rs\<close>. An error is the outermost message of the \<open>anyhow\<close>
  chain, without the value it quotes. Whether an
  origin is a valid header value is decided by the HTTP library and is a parameter; durations are in
  seconds.
\<close>

section \<open>Reading the environment\<close>

datatype env_var = Present ustring | NotPresent | NotUnicode

type_synonym environment = "string \<Rightarrow> env_var"

definition DEVELOPMENT_JWT_SECRET :: ustring where
  "DEVELOPMENT_JWT_SECRET = ascii ''dev-only-change-me''"

definition var_or :: "environment \<Rightarrow> string \<Rightarrow> ustring \<Rightarrow> ustring" where
  "var_or env name fallback = (case env name of Present v \<Rightarrow> v | _ \<Rightarrow> fallback)"

definition parse_bool :: "environment \<Rightarrow> string \<Rightarrow> bool \<Rightarrow> string + bool" where
  "parse_bool env name fallback =
     (case env name of
        Present v \<Rightarrow> (case parse_bool_text v of Some b \<Rightarrow> Inr b | None \<Rightarrow> Inl (name @ '' must be 'true' or 'false'' @ [CHR 0x27]))
      | NotPresent \<Rightarrow> Inr fallback
      | NotUnicode \<Rightarrow> Inl (''could not read '' @ name))"

definition parse_number :: "nat \<Rightarrow> environment \<Rightarrow> string \<Rightarrow> nat \<Rightarrow> string + nat" where
  "parse_number bits env name fallback =
     (case env name of
        Present v \<Rightarrow> (case parse_uint bits v of Some n \<Rightarrow> Inr n | None \<Rightarrow> Inl (name @ '' has an invalid numeric value''))
      | NotPresent \<Rightarrow> Inr fallback
      | NotUnicode \<Rightarrow> Inl (''could not read '' @ name))"

definition parse_pedestrian_router_engine :: "environment \<Rightarrow> string + ustring" where
  "parse_pedestrian_router_engine env =
     (let engine = lower_ascii (trim (var_or env ''PEDESTRIAN_ROUTER_ENGINE'' (ascii ''valhalla'')))
      in if engine = ascii ''valhalla'' \<or> engine = ascii ''osrm'' then Inr engine
         else Inl (''PEDESTRIAN_ROUTER_ENGINE must be 'valhalla' or 'osrm'' @ [CHR 0x27]))"

definition clamp_nat :: "nat \<Rightarrow> nat \<Rightarrow> nat \<Rightarrow> nat" where
  "clamp_nat lo hi n = (if n < lo then lo else if hi < n then hi else n)"

fun split_commas :: "ustring \<Rightarrow> ustring list" where
  "split_commas [] = [[]]"
| "split_commas (c # cs) =
     (if c = 44 then [] # split_commas cs
      else (case split_commas cs of [] \<Rightarrow> [[c]] | part # parts \<Rightarrow> (c # part) # parts))"

definition trim_end_slashes :: "ustring \<Rightarrow> ustring" where
  "trim_end_slashes s = rev (dropWhile (\<lambda>c. c = 47) (rev s))"

section \<open>The configuration\<close>

record app_config =
  ac_bind_address :: "ip_addr \<times> nat"
  ac_cors_allowed_origins :: "ustring list"
  ac_database_url :: "ustring option"
  ac_min_connections :: nat
  ac_max_connections :: nat
  ac_acquire_timeout :: nat
  ac_jwt_secret :: ustring
  ac_request_body_limit_bytes :: nat
  ac_read_request_timeout :: nat
  ac_max_concurrent_requests :: nat
  ac_max_concurrent_searches :: nat
  ac_auth_requests_per_minute :: nat
  ac_routing_requests_per_minute :: nat
  ac_public_requests_per_minute :: nat
  ac_trust_loopback_proxy :: bool
  ac_routing_snapshot_dir :: ustring
  ac_routing_snapshot_files_to_keep :: nat
  ac_pedestrian_router_engine :: ustring
  ac_pedestrian_router_url :: ustring
  ac_pedestrian_router_revision :: ustring
  ac_pedestrian_router_timeout :: nat
  ac_pedestrian_router_concurrency :: nat
  ac_use_mock_data :: bool
  ac_production :: bool

definition bind_result :: "('e + 'a) \<Rightarrow> ('a \<Rightarrow> 'e + 'b) \<Rightarrow> 'e + 'b" where
  "bind_result m f = (case m of Inl e \<Rightarrow> Inl e | Inr x \<Rightarrow> f x)"

lemma bind_result_Inr: "bind_result m f = Inr y \<longleftrightarrow> (\<exists>x. m = Inr x \<and> f x = Inr y)"
  by (cases m) (auto simp: bind_result_def)

definition ensure :: "bool \<Rightarrow> 'e \<Rightarrow> 'e + unit" where
  "ensure b e = (if b then Inr () else Inl e)"

lemma ensure_Inr [simp]: "ensure b e = Inr u \<longleftrightarrow> b"
  by (auto simp: ensure_def)

definition app_config_from_env :: "(ustring \<Rightarrow> bool) \<Rightarrow> environment \<Rightarrow> string + app_config" where
  "app_config_from_env valid_header env =
     (let production = (lower_ascii (var_or env ''APP_ENV'' (ascii ''development'')) = ascii ''production'')
      in
     bind_result (parse_bool env ''USE_MOCK_DATA'' True) (\<lambda>use_mock_data.
     bind_result (parse_number 16 env ''API_PORT'' 8070) (\<lambda>port.
     bind_result (case parse_socket_addr (var_or env ''API_HOST'' (ascii ''0.0.0.0'') @ [58] @ ascii (show_nat port)) of
          Some a \<Rightarrow> Inr a | None \<Rightarrow> Inl ''API_HOST and API_PORT do not form a valid address'') (\<lambda>bind_address.
     let database_url = (case env ''DATABASE_URL'' of Present v \<Rightarrow> if trim v = [] then None else Some v | _ \<Rightarrow> None) in
     bind_result (ensure (use_mock_data \<or> database_url \<noteq> None) ''DATABASE_URL is required when USE_MOCK_DATA=false'') (\<lambda>_.
     bind_result (parse_number 32 env ''DB_POOL_MIN'' 2) (\<lambda>min_connections.
     bind_result (parse_number 32 env ''DB_POOL_MAX'' 10) (\<lambda>max_connections.
     bind_result (ensure (max_connections \<noteq> 0 \<and> min_connections \<le> max_connections)
          ''DB_POOL_MAX must be greater than zero and at least DB_POOL_MIN'') (\<lambda>_.
     let jwt_secret = (case env ''JWT_SECRET'' of Present v \<Rightarrow> if trim v = [] then DEVELOPMENT_JWT_SECRET else v
                       | _ \<Rightarrow> DEVELOPMENT_JWT_SECRET) in
     bind_result (ensure (\<not> (production \<and> (jwt_secret = DEVELOPMENT_JWT_SECRET \<or> utf8_len jwt_secret < 32)))
          ''JWT_SECRET must be set to at least 32 characters in production'') (\<lambda>_.
     let origins = filter (\<lambda>origin. origin \<noteq> []) (map trim (split_commas (var_or env ''CORS_ALLOWED_ORIGINS'' (ascii ''*'')))) in
     bind_result (ensure (origins \<noteq> []) ''CORS_ALLOWED_ORIGINS must contain '*' or at least one origin'') (\<lambda>_.
     bind_result (ensure (list_all (\<lambda>origin. origin = ascii ''*'' \<or> valid_header origin) origins)
          ''CORS_ALLOWED_ORIGINS contains an invalid origin'') (\<lambda>_.
     bind_result (ensure (\<not> (production \<and> ascii ''*'' \<in> set origins))
          ''CORS_ALLOWED_ORIGINS cannot contain '*' in production'') (\<lambda>_.
     bind_result (parse_number 64 env ''DB_ACQUIRE_TIMEOUT_SECONDS'' 10) (\<lambda>acquire_timeout.
     bind_result (parse_number 64 env ''REQUEST_BODY_LIMIT_BYTES'' (1024 * 1024)) (\<lambda>body_limit.
     bind_result (parse_number 64 env ''READ_REQUEST_TIMEOUT_SECONDS'' 15) (\<lambda>read_timeout.
     bind_result (parse_number 64 env ''MAX_CONCURRENT_REQUESTS'' 128) (\<lambda>requests.
     bind_result (parse_number 64 env ''MAX_CONCURRENT_SEARCHES'' 8) (\<lambda>searches.
     bind_result (parse_number 32 env ''AUTH_REQUESTS_PER_MINUTE'' 30) (\<lambda>auth_rate.
     bind_result (parse_number 32 env ''ROUTING_REQUESTS_PER_MINUTE'' 120) (\<lambda>routing_rate.
     bind_result (parse_number 32 env ''PUBLIC_REQUESTS_PER_MINUTE'' 600) (\<lambda>public_rate.
     bind_result (parse_bool env ''TRUST_LOOPBACK_PROXY'' True) (\<lambda>trust_loopback.
     bind_result (parse_number 64 env ''ROUTING_SNAPSHOT_FILES_TO_KEEP'' 2) (\<lambda>snapshots.
     bind_result (parse_pedestrian_router_engine env) (\<lambda>engine.
     bind_result (parse_number 64 env ''PEDESTRIAN_ROUTER_TIMEOUT_SECONDS'' 8) (\<lambda>router_timeout.
     bind_result (parse_number 64 env ''PEDESTRIAN_ROUTER_CONCURRENCY'' 8) (\<lambda>router_concurrency.
       Inr \<lparr>ac_bind_address = bind_address, ac_cors_allowed_origins = origins, ac_database_url = database_url,
            ac_min_connections = min_connections, ac_max_connections = max_connections, ac_acquire_timeout = acquire_timeout,
            ac_jwt_secret = jwt_secret, ac_request_body_limit_bytes = body_limit,
            ac_read_request_timeout = clamp_nat 1 60 read_timeout,
            ac_max_concurrent_requests = clamp_nat 1 1024 requests, ac_max_concurrent_searches = clamp_nat 1 64 searches,
            ac_auth_requests_per_minute = clamp_nat 1 1000 auth_rate,
            ac_routing_requests_per_minute = clamp_nat 1 10000 routing_rate,
            ac_public_requests_per_minute = clamp_nat 1 100000 public_rate,
            ac_trust_loopback_proxy = trust_loopback,
            ac_routing_snapshot_dir = var_or env ''ROUTING_SNAPSHOT_DIR'' (ascii ''storage/processed/routing''),
            ac_routing_snapshot_files_to_keep = max snapshots 2,
            ac_pedestrian_router_engine = engine,
            ac_pedestrian_router_url = trim_end_slashes (var_or env ''PEDESTRIAN_ROUTER_URL'' (ascii ''http://127.0.0.1:8002/route'')),
            ac_pedestrian_router_revision = var_or env ''PEDESTRIAN_ROUTER_REVISION'' (ascii ''valhalla-cz-20260907-v1''),
            ac_pedestrian_router_timeout = router_timeout,
            ac_pedestrian_router_concurrency = clamp_nat 1 64 router_concurrency,
            ac_use_mock_data = use_mock_data, ac_production = production\<rparr>)))))))))))))))))))))))))"

section \<open>What a loaded configuration guarantees\<close>

definition service_limits_ok :: "app_config \<Rightarrow> bool" where
  "service_limits_ok c \<longleftrightarrow>
     0 < ac_max_concurrent_requests c \<and> 0 < ac_max_concurrent_searches c \<and> 0 < ac_read_request_timeout c \<and>
     0 < ac_auth_requests_per_minute c \<and> 0 < ac_routing_requests_per_minute c \<and> 0 < ac_public_requests_per_minute c \<and>
     0 < ac_pedestrian_router_concurrency c \<and> 2 \<le> ac_routing_snapshot_files_to_keep c \<and>
     0 < ac_max_connections c \<and> ac_min_connections c \<le> ac_max_connections c"

lemma clamp_nat_pos: "0 < lo \<Longrightarrow> lo \<le> hi \<Longrightarrow> 0 < clamp_nat lo hi n"
  by (simp add: clamp_nat_def)

text \<open>
  A configuration that loads has usable limits (no capacity, rate, timeout or pool of zero), a database
  unless it serves mock data, and at least one allowed origin; in production its signing secret is not
  the development one and has at least 32 bytes, and no wildcard origin is allowed.
\<close>

theorem loaded_config_is_safe:
  assumes "app_config_from_env valid_header env = Inr c"
  shows "service_limits_ok c \<and> (ac_use_mock_data c \<or> ac_database_url c \<noteq> None) \<and> ac_cors_allowed_origins c \<noteq> [] \<and>
    (ac_production c \<longrightarrow> ac_jwt_secret c \<noteq> DEVELOPMENT_JWT_SECRET \<and> 32 \<le> utf8_len (ac_jwt_secret c) \<and>
       ascii ''*'' \<notin> set (ac_cors_allowed_origins c))"
  using assms unfolding app_config_from_env_def Let_def bind_result_Inr ensure_Inr
  by (elim exE conjE, simp only: sum.inject, hypsubst_thin, simp add: service_limits_ok_def clamp_nat_pos not_less)

theorem loaded_config_is_safe_witness:
  "\<exists>c. app_config_from_env (\<lambda>_. True) (\<lambda>_. NotPresent) = Inr c \<and> service_limits_ok c \<and> \<not> ac_production c"
proof -
  have "case app_config_from_env (\<lambda>_. True) (\<lambda>_. NotPresent) of Inr c \<Rightarrow> \<not> ac_production c | Inl e \<Rightarrow> False" by code_simp
  then obtain c where c: "app_config_from_env (\<lambda>_. True) (\<lambda>_. NotPresent) = Inr c" "\<not> ac_production c"
    by (auto split: sum.splits)
  with loaded_config_is_safe [OF c(1)] show ?thesis by blast
qed

text \<open>In production the defaults are refused.\<close>

lemma production_needs_a_secret:
  "app_config_from_env (\<lambda>_. True) (\<lambda>name. if name = ''APP_ENV'' then Present (ascii ''Production'') else NotPresent) =
     Inl ''JWT_SECRET must be set to at least 32 characters in production''"
  by code_simp

section \<open>Statuses\<close>

definition error_status :: "api_error \<Rightarrow> nat" where
  "error_status e =
     (let code = ae_code e in
      if code = ''unauthorized'' then 401
      else if code = ''forbidden'' then 403
      else if code = ''not_found'' then 404
      else if code = ''conflict'' then 409
      else if code = ''rate_limited'' then 429
      else if code \<in> set [''service_overloaded'', ''ticketing_unavailable'', ''upstream_unavailable'', ''payment_provider_unavailable''] then 503
      else if code \<in> set [''request_timeout'', ''upstream_timeout''] then 504
      else if code \<in> set [''payment_not_settled'', ''payment_verification_failed''] then 402
      else if code \<in> set [''internal_error'', ''ticketing_configuration_error'', ''upstream_authentication_error''] then 500
      else 400)"

text \<open>\<open>into_response\<close>: the status and the seconds of \<open>Retry-After\<close>, which only a rate limit sets.\<close>

definition error_response :: "api_error \<Rightarrow> nat \<times> nat option" where
  "error_response e = (error_status e, if ae_code e = ''rate_limited'' then Some 60 else None)"

end
