(* ===== verification/Admission.thy ===== *)
theory Admission
  imports App_Config "HOL-Library.AList"
begin

text \<open>
  \<^verbatim>\<open>services/api/src/http/security.rs\<close>: admission control. A request is counted against the fixed window
  of its client and endpoint group, then takes a permit for being processed and, when it is a journey
  search, one for searching; the permits are given back when it ends. Instants are nanoseconds.
\<close>

section \<open>Permits\<close>

text \<open>What the admission relies on of a semaphore: a permit is handed out exactly when one is left.\<close>

locale permits =
  fixes try_acquire :: "'s \<Rightarrow> 's option" and release :: "'s \<Rightarrow> 's" and available :: "'s \<Rightarrow> nat"
  assumes acquire_None: "try_acquire s = None \<longleftrightarrow> available s = 0"
    and acquire_Some: "try_acquire s = Some s' \<Longrightarrow> available s = Suc (available s')"
    and release: "available (release s) = Suc (available s)"
begin

text \<open>Holders and free permits together stay the capacity.\<close>

definition accounts :: "nat \<Rightarrow> nat \<Rightarrow> 's \<Rightarrow> bool" where
  "accounts capacity held s \<longleftrightarrow> held + available s = capacity"

lemma accounts_acquire: "accounts capacity held s \<Longrightarrow> try_acquire s = Some s' \<Longrightarrow> accounts capacity (Suc held) s'"
  by (auto simp: accounts_def dest: acquire_Some)

lemma accounts_release: "accounts capacity (Suc held) s \<Longrightarrow> accounts capacity held (release s)"
  by (simp add: accounts_def release)

lemma accounts_bound: "accounts capacity held s \<Longrightarrow> held \<le> capacity"
  by (simp add: accounts_def)

lemma accounts_refused: "accounts capacity held s \<Longrightarrow> try_acquire s = None \<Longrightarrow> held = capacity"
  by (simp add: accounts_def acquire_None)

end

definition try_acquire :: "nat \<Rightarrow> nat option" where
  "try_acquire n = (if n = 0 then None else Some (n - 1))"

interpretation semaphore: permits try_acquire Suc id
  by unfold_locales (auto simp: try_acquire_def split: if_splits)

section \<open>The rate window of a client\<close>

definition MAX_CLIENTS :: nat where "MAX_CLIENTS = 10000"

definition WINDOW :: nat where "WINDOW = 60 * 10 ^ 9"

record rate_window =
  rw_started :: nat
  rw_count :: nat

type_synonym client_key = "ip_addr \<times> string"

type_synonym clients = "(client_key \<times> rate_window) list"

definition live :: "nat \<Rightarrow> rate_window \<Rightarrow> bool" where
  "live now w \<longleftrightarrow> now - rw_started w < WINDOW"

text \<open>The window the request is counted in: the one of its key, or a new one when there is none or it is over.\<close>

definition current_window :: "nat \<Rightarrow> rate_window option \<Rightarrow> rate_window" where
  "current_window now w = (case w of
     Some w \<Rightarrow> (if live now w then w else \<lparr>rw_started = now, rw_count = 0\<rparr>) | None \<Rightarrow> \<lparr>rw_started = now, rw_count = 0\<rparr>)"

text \<open>The error is the number of seconds after which to retry.\<close>

definition allow :: "client_key \<Rightarrow> nat \<Rightarrow> nat \<Rightarrow> clients \<Rightarrow> (nat + unit) \<times> clients" where
  "allow key limit now clients =
     (let clients = (if MAX_CLIENTS \<le> length clients then filter (\<lambda>(_, w). live now w) clients else clients)
      in if MAX_CLIENTS \<le> length clients \<and> map_of clients key = None then (Inl 60, clients)
         else (let w = current_window now (map_of clients key)
               in if limit \<le> rw_count w
                  then (Inl (max (60 - (now - rw_started w) div 10 ^ 9) 1), AList.update key w clients)
                  else (Inr (), AList.update key (w\<lparr>rw_count := rw_count w + 1\<rparr>) clients)))"

section \<open>The client's address\<close>

record http_request =
  hr_endpoint :: string
  hr_method :: string
  hr_peer :: "ip_addr option"
  hr_forwarded_for :: "ustring option"

definition normalize_ip :: "ip_addr \<Rightarrow> ip_addr" where
  "normalize_ip ip =
     (case ip of V6 groups \<Rightarrow> (case to_ipv4_mapped groups of Some v4 \<Rightarrow> v4 | None \<Rightarrow> ip) | _ \<Rightarrow> ip)"

text \<open>\<open>HeaderValue::to_str\<close> and the last comma-separated part.\<close>

definition visible_ascii :: "ustring \<Rightarrow> bool" where
  "visible_ascii s \<longleftrightarrow> list_all (\<lambda>c. (32 \<le> c \<and> c < 127) \<or> c = 9) s"

definition last_part :: "ustring \<Rightarrow> ustring" where
  "last_part s = rev (takeWhile (\<lambda>c. c \<noteq> 44) (rev s))"

definition client_ip :: "http_request \<Rightarrow> bool \<Rightarrow> ip_addr" where
  "client_ip request trust_loopback =
     (let peer = hr_peer request;
          forwarded = (case hr_forwarded_for request of None \<Rightarrow> None
            | Some s \<Rightarrow> if visible_ascii s then parse_ip_addr (trim (last_part s)) else None);
          local = (case peer of Some ip \<Rightarrow> is_loopback ip | None \<Rightarrow> False)
      in case (if trust_loopback \<and> local then forwarded else None) of
           Some ip \<Rightarrow> normalize_ip ip
         | None \<Rightarrow> normalize_ip (case peer of Some ip \<Rightarrow> ip | None \<Rightarrow> V4 0 0 0 0))"

section \<open>Admission\<close>

record security =
  sy_clients :: clients
  sy_requests :: nat
  sy_searches :: nat

definition new_security :: "nat \<Rightarrow> nat \<Rightarrow> security" where
  "new_security requests searches = \<lparr>sy_clients = [], sy_requests = requests, sy_searches = searches\<rparr>"

record refusal =
  rf_error :: api_error
  rf_retry_after :: nat

definition unavailable :: "string \<Rightarrow> string \<Rightarrow> nat \<Rightarrow> refusal" where
  "unavailable code message retry = \<lparr>rf_error = \<lparr>ae_code = code, ae_message = message\<rparr>, rf_retry_after = retry\<rparr>"

text \<open>What a running request holds, and whether it runs against the deadline.\<close>

record admitted_request =
  ad_request_permit :: bool
  ad_search_permit :: bool
  ad_deadline :: bool

definition starts_with :: "string \<Rightarrow> string \<Rightarrow> bool" where
  "starts_with s p \<longleftrightarrow> take (length p) s = p"

definition is_search_endpoint :: "http_request \<Rightarrow> bool" where
  "is_search_endpoint request \<longleftrightarrow> hr_endpoint request = ''/journeys/search''"

definition is_health_endpoint :: "http_request \<Rightarrow> bool" where
  "is_health_endpoint request \<longleftrightarrow> hr_endpoint request = ''/health'' \<or> hr_endpoint request = ''/ready''"

definition is_auth_endpoint :: "http_request \<Rightarrow> bool" where
  "is_auth_endpoint request \<longleftrightarrow> starts_with (hr_endpoint request) ''/auth/'' \<and> hr_method request \<noteq> ''GET''"

definition group_of :: "http_request \<Rightarrow> string" where
  "group_of request = (if is_auth_endpoint request then ''auth'' else if is_search_endpoint request then ''routing'' else ''public'')"

definition limit_of :: "app_config \<Rightarrow> string \<Rightarrow> nat" where
  "limit_of config grp = (if grp = ''auth'' then ac_auth_requests_per_minute config
     else if grp = ''routing'' then ac_routing_requests_per_minute config else ac_public_requests_per_minute config)"

definition client_of :: "app_config \<Rightarrow> http_request \<Rightarrow> client_key" where
  "client_of config request = (client_ip request (ac_trust_loopback_proxy config), group_of request)"

definition protect :: "app_config \<Rightarrow> nat \<Rightarrow> http_request \<Rightarrow> security \<Rightarrow> (refusal + admitted_request) \<times> security" where
  "protect config now request sec =
     (let search = is_search_endpoint request; health = is_health_endpoint request;
          (allowed, sec) = (if health then (Inr (), sec)
            else (let (r, clients) = allow (client_of config request) (limit_of config (group_of request)) now (sy_clients sec)
                  in (r, sec\<lparr>sy_clients := clients\<rparr>)))
      in case allowed of
           Inl retry \<Rightarrow> (Inl (unavailable ''rate_limited'' ''Too many requests; retry later'' retry), sec)
         | Inr _ \<Rightarrow>
             (case (if health then Some (sy_requests sec) else try_acquire (sy_requests sec)) of
                None \<Rightarrow> (Inl (unavailable ''service_overloaded'' ''API capacity is temporarily exhausted'' 1), sec)
              | Some requests \<Rightarrow>
                  (case (if search then try_acquire (sy_searches sec) else Some (sy_searches sec)) of
                     None \<Rightarrow> (Inl (unavailable ''service_overloaded'' ''Journey search capacity is temporarily exhausted'' 1), sec)
                   | Some searches \<Rightarrow>
                       (Inr \<lparr>ad_request_permit = \<not> health, ad_search_permit = search,
                             ad_deadline = search \<or> (hr_method request = ''GET'' \<and> \<not> starts_with (hr_endpoint request) ''/ticketing/'')\<rparr>,
                        sec\<lparr>sy_requests := requests, sy_searches := searches\<rparr>))))"

text \<open>The end of a request, by its answer or by the deadline, drops its permits.\<close>

definition finish :: "admitted_request \<Rightarrow> security \<Rightarrow> security" where
  "finish a sec = sec\<lparr>sy_requests := (if ad_request_permit a then Suc (sy_requests sec) else sy_requests sec),
     sy_searches := (if ad_search_permit a then Suc (sy_searches sec) else sy_searches sec)\<rparr>"

section \<open>The server\<close>

record server =
  sv_security :: security
  sv_running :: "admitted_request list"
  sv_admitted :: "(nat \<times> http_request) list"

definition new_server :: "app_config \<Rightarrow> server" where
  "new_server config = \<lparr>sv_security = new_security (ac_max_concurrent_requests config) (ac_max_concurrent_searches config),
     sv_running = [], sv_admitted = []\<rparr>"

datatype server_event = Arrive nat http_request | Finish nat

definition handle_event :: "app_config \<Rightarrow> server_event \<Rightarrow> server \<Rightarrow> server" where
  "handle_event config event sv =
     (case event of
        Arrive now request \<Rightarrow>
          (case protect config now request (sv_security sv) of
             (Inl _, sec) \<Rightarrow> sv\<lparr>sv_security := sec\<rparr>
           | (Inr a, sec) \<Rightarrow> sv\<lparr>sv_security := sec, sv_running := sv_running sv @ [a],
                             sv_admitted := sv_admitted sv @ [(now, request)]\<rparr>)
      | Finish i \<Rightarrow>
          if i < length (sv_running sv)
          then sv\<lparr>sv_security := finish (sv_running sv ! i) (sv_security sv),
                  sv_running := take i (sv_running sv) @ drop (Suc i) (sv_running sv)\<rparr>
          else sv)"

definition run_server :: "app_config \<Rightarrow> server_event list \<Rightarrow> server" where
  "run_server config events = foldl (\<lambda>sv e. handle_event config e sv) (new_server config) events"

section \<open>Capacity\<close>

definition request_holders :: "admitted_request list \<Rightarrow> nat" where
  "request_holders running = length (filter ad_request_permit running)"

definition search_holders :: "admitted_request list \<Rightarrow> nat" where
  "search_holders running = length (filter ad_search_permit running)"

definition capacity_ok :: "app_config \<Rightarrow> server \<Rightarrow> bool" where
  "capacity_ok config sv \<longleftrightarrow>
     semaphore.accounts (ac_max_concurrent_requests config) (request_holders (sv_running sv)) (sy_requests (sv_security sv)) \<and>
     semaphore.accounts (ac_max_concurrent_searches config) (search_holders (sv_running sv)) (sy_searches (sv_security sv)) \<and>
     length (sy_clients (sv_security sv)) \<le> MAX_CLIENTS \<and> distinct (map fst (sy_clients (sv_security sv)))"

lemma length_update: "length (AList.update k v al) = (if k \<in> fst ` set al then length al else Suc (length al))"
  by (induction al) auto

lemma allow_clients:
  assumes "length clients \<le> MAX_CLIENTS" and "distinct (map fst clients)" and "allow key limit now clients = (r, clients')"
  shows "length clients' \<le> MAX_CLIENTS \<and> distinct (map fst clients')"
proof -
  define kept where "kept = (if MAX_CLIENTS \<le> length clients then filter (\<lambda>(_, w). live now w) clients else clients)"
  have kept: "length kept \<le> MAX_CLIENTS" "distinct (map fst kept)"
    using assms(1,2) length_filter_le [of "\<lambda>(_, w). live now w" clients]
    by (auto simp: kept_def distinct_map_filter simp del: length_filter_le)
  show ?thesis
  proof (cases "MAX_CLIENTS \<le> length kept \<and> map_of kept key = None")
    case True
    then have "clients' = kept" using assms(3) unfolding allow_def kept_def [symmetric] by (simp add: Let_def)
    with kept show ?thesis by simp
  next
    case False
    then have "length kept < MAX_CLIENTS \<or> key \<in> fst ` set kept" by (auto simp: map_of_eq_None_iff)
    moreover obtain w where "clients' = AList.update key w kept"
      using assms(3) False unfolding allow_def kept_def [symmetric] by (auto simp: Let_def split: if_splits)
    ultimately show ?thesis using kept by (auto simp: length_update distinct_update)
  qed
qed

lemma holders_pick:
  assumes "i < length xs"
  shows "length (filter P xs) = length (filter P (take i xs @ drop (Suc i) xs)) + (if P (xs ! i) then 1 else 0)"
proof -
  have "filter P xs = filter P (take i xs @ xs ! i # drop (Suc i) xs)" using id_take_nth_drop [OF assms] by simp
  then show ?thesis by simp
qed

text \<open>What admission does to the state: the table of clients as \<open>allow\<close> leaves it, and on success the permits it takes.\<close>

lemma protect_effect:
  assumes p: "protect config now request sec = (r, sec')"
    and al: "allow (client_of config request) (limit_of config (group_of request)) now (sy_clients sec) = (q, clients)"
  shows "sy_clients sec' = (if is_health_endpoint request then sy_clients sec else clients) \<and>
    (case r of
       Inl _ \<Rightarrow> sy_requests sec' = sy_requests sec \<and> sy_searches sec' = sy_searches sec
     | Inr a \<Rightarrow> (is_health_endpoint request \<or> q = Inr ()) \<and>
         sy_requests sec = sy_requests sec' + (if ad_request_permit a then 1 else 0) \<and>
         sy_searches sec = sy_searches sec' + (if ad_search_permit a then 1 else 0))"
proof -
  define sec1 where "sec1 = (if is_health_endpoint request then sec else sec\<lparr>sy_clients := clients\<rparr>)"
  have parts: "sy_requests sec1 = sy_requests sec" "sy_searches sec1 = sy_searches sec"
    "sy_clients sec1 = (if is_health_endpoint request then sy_clients sec else clients)"
    by (simp_all add: sec1_def)
  define outcome :: "refusal \<Rightarrow> (refusal + admitted_request) \<times> security" where "outcome = (\<lambda>m.
    (if \<not> is_health_endpoint request \<and> isl q then (Inl m, sec1)
     else if \<not> is_health_endpoint request \<and> sy_requests sec = 0 then (Inl m, sec1)
     else if is_search_endpoint request \<and> sy_searches sec = 0 then (Inl m, sec1)
     else (Inr \<lparr>ad_request_permit = \<not> is_health_endpoint request, ad_search_permit = is_search_endpoint request,
              ad_deadline = is_search_endpoint request \<or> (hr_method request = ''GET'' \<and> \<not> starts_with (hr_endpoint request) ''/ticketing/'')\<rparr>,
           sec1\<lparr>sy_requests := (if is_health_endpoint request then sy_requests sec else sy_requests sec - 1),
                sy_searches := (if is_search_endpoint request then sy_searches sec - 1 else sy_searches sec)\<rparr>)))"
  have "\<exists>m. protect config now request sec = outcome m"
    by (cases q) (simp_all add: outcome_def protect_def Let_def al try_acquire_def sec1_def)
  then obtain m where "protect config now request sec = outcome m" by blast
  with p have rs: "r = fst (outcome m)" "sec' = snd (outcome m)" by simp_all
  show ?thesis
    unfolding rs using parts by (cases q; cases "is_health_endpoint request"; cases "is_search_endpoint request") (simp_all add: outcome_def)
qed

lemma protect_capacity:
  assumes ok: "capacity_ok config sv" and p: "protect config now request (sv_security sv) = (r, sec)"
  shows "case r of
      Inl _ \<Rightarrow> capacity_ok config (sv\<lparr>sv_security := sec\<rparr>)
    | Inr a \<Rightarrow> capacity_ok config (sv\<lparr>sv_security := sec, sv_running := sv_running sv @ [a]\<rparr>)"
proof -
  obtain q clients where al: "allow (client_of config request) (limit_of config (group_of request)) now
      (sy_clients (sv_security sv)) = (q, clients)" by fastforce
  have "length clients \<le> MAX_CLIENTS \<and> distinct (map fst clients)"
    using ok by (intro allow_clients [OF _ _ al]) (simp_all add: capacity_ok_def)
  with protect_effect [OF p al] ok show ?thesis
    by (cases r; cases "is_health_endpoint request")
       (simp_all add: capacity_ok_def request_holders_def search_holders_def semaphore.accounts_def split: if_split_asm)
qed

lemma capacity_ok_step:
  assumes "capacity_ok config sv"
  shows "capacity_ok config (handle_event config event sv)"
proof (cases event)
  case (Arrive now request)
  obtain r sec where p: "protect config now request (sv_security sv) = (r, sec)" by fastforce
  have frame: "capacity_ok config (sv'\<lparr>sv_admitted := x\<rparr>) = capacity_ok config sv'" for sv' x
    by (simp add: capacity_ok_def)
  from protect_capacity [OF assms p] show ?thesis
    using frame [where sv' = "sv\<lparr>sv_security := sec, sv_running := sv_running sv @ [projr r]\<rparr>"]
    by (cases r) (auto simp: handle_event_def Arrive p)
next
  case (Finish i)
  show ?thesis
  proof (cases "i < length (sv_running sv)")
    case True
    have "capacity_ok config (sv\<lparr>sv_security := finish (sv_running sv ! i) (sv_security sv),
        sv_running := take i (sv_running sv) @ drop (Suc i) (sv_running sv)\<rparr>)"
      using assms holders_pick [OF True, of ad_request_permit] holders_pick [OF True, of ad_search_permit]
      unfolding capacity_ok_def finish_def request_holders_def search_holders_def semaphore.accounts_def
      by (cases "ad_request_permit (sv_running sv ! i)"; cases "ad_search_permit (sv_running sv ! i)") (simp_all del: filter_append)
    with True show ?thesis by (simp add: handle_event_def Finish)
  qed (simp add: handle_event_def Finish assms)
qed

lemma capacity_ok_run: "capacity_ok config (run_server config events)"
proof -
  have "capacity_ok config sv \<Longrightarrow> capacity_ok config (foldl (\<lambda>sv e. handle_event config e sv) sv events)" for sv
    by (induction events arbitrary: sv) (simp_all add: capacity_ok_step)
  moreover have "capacity_ok config (new_server config)"
    by (simp add: capacity_ok_def new_server_def new_security_def request_holders_def search_holders_def semaphore.accounts_def MAX_CLIENTS_def)
  ultimately show ?thesis by (simp add: run_server_def)
qed

text \<open>
  Whatever requests arrive and end in whatever order, never more requests run (health checks apart) and
  never more journey searches run than configured; no permit is lost, so that an idle server has its full
  capacity again; and the table of clients never exceeds its bound.
\<close>

theorem capacity_is_kept:
  "request_holders (sv_running (run_server config events)) + sy_requests (sv_security (run_server config events)) =
     ac_max_concurrent_requests config \<and>
   search_holders (sv_running (run_server config events)) + sy_searches (sv_security (run_server config events)) =
     ac_max_concurrent_searches config \<and>
   length (sy_clients (sv_security (run_server config events))) \<le> MAX_CLIENTS"
  using capacity_ok_run [of config events] by (simp add: capacity_ok_def semaphore.accounts_def)

section \<open>The rate of a client\<close>

text \<open>How many of the times lie in a half-open interval.\<close>

definition between :: "nat \<Rightarrow> nat \<Rightarrow> nat list \<Rightarrow> nat" where
  "between a b ts = length (filter (\<lambda>t. a \<le> t \<and> t < b) ts)"

lemma between_split: "a \<le> m \<Longrightarrow> m \<le> b \<Longrightarrow> between a b ts = between a m ts + between m b ts"
  unfolding between_def by (induction ts) auto

lemma between_mono: "a' \<le> a \<Longrightarrow> b \<le> b' \<Longrightarrow> between a b ts \<le> between a' b' ts"
  unfolding between_def by (induction ts) auto

lemma between_snoc [simp]: "between a b (ts @ [t]) = between a b ts + (if a \<le> t \<and> t < b then 1 else 0)"
  by (simp add: between_def)

lemma between_Nil [simp]: "between a b [] = 0"
  by (simp add: between_def)

lemma between_none: "\<forall>t\<in>set ts. t < a \<Longrightarrow> between a b ts = 0"
  by (auto simp: between_def filter_empty_conv)

text \<open>What the window, started at \<open>s\<close> with count \<open>c\<close>, records of the admitted times \<open>ts\<close> of its client.\<close>

definition window_ok :: "nat \<Rightarrow> nat list \<Rightarrow> nat \<Rightarrow> nat \<Rightarrow> bool" where
  "window_ok limit ts s c \<longleftrightarrow>
     c \<le> limit \<and> (\<forall>t\<in>set ts. t < s + WINDOW) \<and> between s (s + WINDOW) ts \<le> c \<and>
     (\<forall>t. s < t + WINDOW \<longrightarrow> between t s ts \<le> limit) \<and> (\<forall>t. between t (t + WINDOW) ts \<le> 2 * limit)"

lemma WINDOW_pos: "0 < WINDOW"
  by (simp add: WINDOW_def)

lemma window_ok_count:
  assumes "window_ok limit ts s c" and "c \<le> c'" and "c' \<le> limit"
  shows "window_ok limit ts s c'"
  using assms by (auto simp: window_ok_def)

lemma window_ok_admit:
  assumes ok: "window_ok limit ts s c" and now: "s \<le> now" "now < s + WINDOW" and room: "c < limit"
  shows "window_ok limit (ts @ [now]) s (Suc c)"
proof -
  have "between t (t + WINDOW) (ts @ [now]) \<le> 2 * limit" for t
  proof (cases "t \<le> now \<and> now < t + WINDOW")
    case False
    with ok show ?thesis by (auto simp: window_ok_def)
  next
    case True
    have late: "between a b ts \<le> c" if "s \<le> a" for a b
    proof -
      have "between a b ts = between a (min b (s + WINDOW)) ts"
        using ok unfolding between_def window_ok_def by (intro arg_cong [where f = length] filter_cong) auto
      also have "\<dots> \<le> between s (s + WINDOW) ts" by (rule between_mono) (use that in simp_all)
      finally show ?thesis using ok by (simp add: window_ok_def)
    qed
    show ?thesis
    proof (cases "s \<le> t")
      case True
      with late [of t "t + WINDOW"] room \<open>t \<le> now \<and> _\<close> show ?thesis by simp
    next
      case False
      with True now have "between t (t + WINDOW) ts = between t s ts + between s (t + WINDOW) ts"
        by (intro between_split) simp_all
      moreover have "between t s ts \<le> limit" using ok True now by (simp add: window_ok_def)
      ultimately show ?thesis using late [of s "t + WINDOW"] room True by simp
    qed
  qed
  with ok now room show ?thesis by (auto simp: window_ok_def)
qed

lemma window_ok_restart:
  assumes ok: "ts = [] \<or> window_ok limit ts s c \<and> s + WINDOW \<le> now"
  shows "window_ok limit ts now 0"
proof (cases "ts = []")
  case False
  with ok have w: "window_ok limit ts s c" and now: "s + WINDOW \<le> now" by simp_all
  have "between t now ts \<le> limit" if "now < t + WINDOW" for t
  proof -
    have "between t now ts = between t (min now (s + WINDOW)) ts"
      using w unfolding between_def window_ok_def by (intro arg_cong [where f = length] filter_cong) auto
    also have "\<dots> \<le> between s (s + WINDOW) ts" by (rule between_mono) (use that now in simp_all)
    finally show ?thesis using w by (simp add: window_ok_def)
  qed
  moreover have "between now (now + WINDOW) ts = 0"
    using w now by (intro between_none) (force simp: window_ok_def)
  ultimately show ?thesis using w now by (force simp: window_ok_def)
qed (simp add: window_ok_def)

text \<open>What the table holds of one client.\<close>

definition client_ok :: "nat \<Rightarrow> nat \<Rightarrow> nat list \<Rightarrow> rate_window option \<Rightarrow> bool" where
  "client_ok limit now ts w \<longleftrightarrow>
     (case w of
        Some w \<Rightarrow> rw_started w \<le> now \<and> window_ok limit ts (rw_started w) (rw_count w)
      | None \<Rightarrow> ts = [] \<or> (\<exists>s c. window_ok limit ts s c \<and> s + WINDOW \<le> now))"

lemma client_ok_later: "client_ok limit now ts w \<Longrightarrow> now \<le> now' \<Longrightarrow> client_ok limit now' ts w"
  by (force simp: client_ok_def split: option.splits)

lemma client_ok_rate: "client_ok limit now ts w \<Longrightarrow> between t (t + WINDOW) ts \<le> 2 * limit"
  by (auto simp: client_ok_def window_ok_def split: option.splits)

lemma client_ok_evict:
  assumes "client_ok limit now ts w"
  shows "client_ok limit now ts (case w of Some w \<Rightarrow> (if live now w then Some w else None) | None \<Rightarrow> None)"
  using assms by (fastforce simp: client_ok_def live_def split: option.splits)

lemma client_ok_current:
  assumes "client_ok limit now ts w"
  shows "client_ok limit now ts (Some (current_window now w)) \<and> live now (current_window now w)"
proof (cases "\<exists>v. w = Some v \<and> live now v")
  case True
  with assms show ?thesis by (auto simp: current_window_def)
next
  case False
  then have "current_window now w = \<lparr>rw_started = now, rw_count = 0\<rparr>"
    by (auto simp: current_window_def split: option.splits)
  moreover have "\<exists>s c. ts = [] \<or> window_ok limit ts s c \<and> s + WINDOW \<le> now"
  proof (cases w)
    case (Some v)
    with False have "rw_started v + WINDOW \<le> now" using assms WINDOW_pos by (auto simp: live_def client_ok_def)
    with Some assms show ?thesis by (auto simp: client_ok_def)
  qed (use assms in \<open>auto simp: client_ok_def\<close>)
  then have "window_ok limit ts now 0" using window_ok_restart by blast
  ultimately show ?thesis by (simp add: client_ok_def live_def WINDOW_pos)
qed

lemma map_of_filter_values:
  "distinct (map fst al) \<Longrightarrow> map_of (filter (\<lambda>(_, v). P v) al) k =
     (case map_of al k of Some v \<Rightarrow> (if P v then Some v else None) | None \<Rightarrow> None)"
  by (induction al) (auto simp: map_of_eq_None_iff image_iff split: option.splits)

lemma allow_client:
  assumes d: "distinct (map fst clients)" and ok: "\<forall>k. client_ok (limit k) now (ts k) (map_of clients k)"
    and a: "allow key (limit key) now clients = (r, clients')"
  shows "\<forall>k. client_ok (limit k) now (if k = key \<and> r = Inr () then ts k @ [now] else ts k) (map_of clients' k)"
proof -
  define kept where "kept = (if MAX_CLIENTS \<le> length clients then filter (\<lambda>(_, w). live now w) clients else clients)"
  have kept: "client_ok (limit k) now (ts k) (map_of kept k)" for k
  proof (cases "MAX_CLIENTS \<le> length clients")
    case True
    then have "map_of kept k = (case map_of clients k of Some w \<Rightarrow> (if live now w then Some w else None) | None \<Rightarrow> None)"
      using map_of_filter_values [OF d, of "live now" k] by (simp add: kept_def)
    then show ?thesis using client_ok_evict [OF ok [rule_format, of k]] by (rule ssubst)
  next
    case False
    then show ?thesis using ok [rule_format, of k] by (simp add: kept_def)
  qed
  show ?thesis
  proof (cases "MAX_CLIENTS \<le> length kept \<and> map_of kept key = None")
    case True
    then have "r = Inl 60 \<and> clients' = kept" using a unfolding allow_def kept_def [symmetric] by (simp add: Let_def)
    with kept show ?thesis by simp
  next
    case False
    define w where "w = current_window now (map_of kept key)"
    have res: "(r, clients') = (if limit key \<le> rw_count w
        then (Inl (max (60 - (now - rw_started w) div 10 ^ 9) 1), AList.update key w kept)
        else (Inr (), AList.update key (w\<lparr>rw_count := rw_count w + 1\<rparr>) kept))"
      using a False unfolding allow_def kept_def [symmetric] w_def by (simp add: Let_def)
    have w: "client_ok (limit key) now (ts key) (Some w)" "live now w"
      using client_ok_current [OF kept] by (simp_all add: w_def)
    show ?thesis
    proof (cases "limit key \<le> rw_count w")
      case True
      with res w kept show ?thesis by (auto simp: update_conv')
    next
      case False
      with w have "window_ok (limit key) (ts key @ [now]) (rw_started w) (Suc (rw_count w))"
        by (intro window_ok_admit) (auto simp: client_ok_def live_def)
      with w False res kept show ?thesis by (auto simp: update_conv' client_ok_def)
    qed
  qed
qed

text \<open>The admitted requests of a client and endpoint group, health checks apart.\<close>

definition admitted_times :: "app_config \<Rightarrow> client_key \<Rightarrow> (nat \<times> http_request) list \<Rightarrow> nat list" where
  "admitted_times config key admitted =
     map fst (filter (\<lambda>(_, request). client_of config request = key \<and> \<not> is_health_endpoint request) admitted)"

definition rates_ok :: "app_config \<Rightarrow> nat \<Rightarrow> server \<Rightarrow> bool" where
  "rates_ok config now sv \<longleftrightarrow>
     (\<forall>key. \<exists>ts. client_ok (limit_of config (snd key)) now ts (map_of (sy_clients (sv_security sv)) key) \<and>
        (\<forall>a b. between a b (admitted_times config key (sv_admitted sv)) \<le> between a b ts))"

lemma rates_ok_later: "rates_ok config now sv \<Longrightarrow> now \<le> now' \<Longrightarrow> rates_ok config now' sv"
  unfolding rates_ok_def using client_ok_later by meson


lemma rates_ok_step:
  assumes ok: "rates_ok config now sv" and d: "distinct (map fst (sy_clients (sv_security sv)))"
  shows "rates_ok config now (handle_event config (Arrive now request) sv)"
proof -
  obtain r sec where p: "protect config now request (sv_security sv) = (r, sec)" by fastforce
  obtain q clients where al: "allow (client_of config request) (limit_of config (group_of request)) now
      (sy_clients (sv_security sv)) = (q, clients)" by fastforce
  from ok obtain ts where
    ts: "\<forall>k. client_ok (limit_of config (snd k)) now (ts k) (map_of (sy_clients (sv_security sv)) k)"
    and covers: "\<And>k a b. between a b (admitted_times config k (sv_admitted sv)) \<le> between a b (ts k)"
    unfolding rates_ok_def by metis
  define key where "key = client_of config request"
  have grp: "snd key = group_of request" by (simp add: key_def client_of_def)
  define ts' where "ts' = (\<lambda>k. if k = key \<and> q = Inr () then ts k @ [now] else ts k)"
  have cl: "client_ok (limit_of config (snd k)) now (ts' k) (map_of clients k)" for k
    using allow_client [OF d ts, of key q clients, rule_format, of k] al grp by (simp add: ts'_def key_def [symmetric])
  note eff = protect_effect [OF p al]
  let ?sv = "handle_event config (Arrive now request) sv"
  have sec: "sv_security ?sv = sec" by (cases r) (simp_all add: handle_event_def p)
  have adm: "admitted_times config k (sv_admitted ?sv) = admitted_times config k (sv_admitted sv) @
      (if isl r \<or> k \<noteq> key \<or> is_health_endpoint request then [] else [now])" for k
    by (cases r) (simp_all add: handle_event_def p admitted_times_def key_def)
  show ?thesis
  proof (cases "is_health_endpoint request")
    case True
    with eff sec have "sy_clients (sv_security ?sv) = sy_clients (sv_security sv)" by simp
    moreover have "admitted_times config k (sv_admitted ?sv) = admitted_times config k (sv_admitted sv)" for k
      using adm True by simp
    ultimately show ?thesis using ok unfolding rates_ok_def by simp
  next
    case False
    then have "between a b (admitted_times config k (sv_admitted ?sv)) \<le> between a b (ts' k)" for k a b
      using adm [of k] covers [of a b k] eff by (cases r) (auto simp: ts'_def)
    moreover have "map_of (sy_clients (sv_security ?sv)) = map_of clients" using eff sec False by simp
    ultimately show ?thesis unfolding rates_ok_def using cl by metis
  qed
qed

lemma rates_ok_finish: "rates_ok config now sv \<Longrightarrow> rates_ok config now (handle_event config (Finish i) sv)"
  by (simp add: rates_ok_def handle_event_def finish_def)

primrec arrival_times :: "server_event list \<Rightarrow> nat list" where
  "arrival_times [] = []"
| "arrival_times (e # es) = (case e of Arrive now _ \<Rightarrow> [now] | Finish _ \<Rightarrow> []) @ arrival_times es"

lemma rates_ok_events:
  assumes "rates_ok config now sv" and "capacity_ok config sv" and "sorted (now # arrival_times events)"
  shows "\<exists>now'. rates_ok config now' (foldl (\<lambda>sv e. handle_event config e sv) sv events)"
  using assms
proof (induction events arbitrary: now sv)
  case (Cons e es)
  have cap: "capacity_ok config (handle_event config e sv)" using Cons.prems(2) by (rule capacity_ok_step)
  show ?case
  proof (cases e)
    case (Arrive t request)
    with Cons.prems have "rates_ok config t (handle_event config e sv)"
      by (auto intro!: rates_ok_step elim: rates_ok_later simp: capacity_ok_def)
    from Cons.IH [OF this cap] Cons.prems(3) Arrive show ?thesis by simp
  next
    case (Finish i)
    from Cons.IH [OF rates_ok_finish [OF Cons.prems(1), of i]] cap Cons.prems(3) Finish show ?thesis by simp
  qed
qed auto

lemma rate_bound:
  assumes "sorted (arrival_times events)"
  shows "between t (t + WINDOW) (admitted_times config key (sv_admitted (run_server config events))) \<le> 2 * limit_of config (snd key)"
proof -
  have "rates_ok config 0 (new_server config)"
    by (simp add: rates_ok_def new_server_def new_security_def client_ok_def admitted_times_def exI [of _ "[]"])
  moreover have "capacity_ok config (new_server config)" using capacity_ok_run [of config "[]"] by (simp add: run_server_def)
  ultimately obtain now where "rates_ok config now (run_server config events)"
    unfolding run_server_def using rates_ok_events assms by fastforce
  then show ?thesis unfolding rates_ok_def by (meson client_ok_rate order_trans)
qed

text \<open>C37:
  While the clock of the server does not run backwards, one client never gets more than twice its limit of
  requests of an endpoint group admitted within any sixty seconds, wherever the fixed windows of the server
  fall and whatever other clients do, and also when its window was evicted from a full table of clients.
\<close>

theorem clients_rate_limited:
  assumes "sorted (arrival_times events)"
  shows "length (filter (\<lambda>(arrived, request). t \<le> arrived \<and> arrived < t + WINDOW \<and> client_of config request = key \<and> \<not> is_health_endpoint request)
      (sv_admitted (run_server config events))) \<le> 2 * limit_of config (snd key)"
proof -
  have "length (filter (\<lambda>(arrived, request). t \<le> arrived \<and> arrived < t + WINDOW \<and> client_of config request = key \<and> \<not> is_health_endpoint request) xs) =
      between t (t + WINDOW) (admitted_times config key xs)" for xs
    by (induction xs) (auto simp: between_def admitted_times_def)
  with rate_bound [OF assms] show ?thesis by simp
qed

definition sample_config :: app_config where
  "sample_config = (projr (app_config_from_env (\<lambda>_. True) (\<lambda>_. NotPresent)))\<lparr>ac_routing_requests_per_minute := 2\<rparr>"

definition sample_search :: http_request where
  "sample_search = \<lparr>hr_endpoint = ''/journeys/search'', hr_method = ''POST'', hr_peer = Some (V4 9 8 7 6), hr_forwarded_for = None\<rparr>"

definition sample_arrivals :: "server_event list" where
  "sample_arrivals = [Arrive 0 sample_search, Arrive 59000000000 sample_search, Arrive 59000000001 sample_search,
     Arrive 60000000000 sample_search, Finish 0, Arrive 60000000001 sample_search, Arrive 60000000002 sample_search]"

text \<open>Three of the searches around the turn of a window of two pass.\<close>

theorem clients_rate_limited_witness:
  "sorted (arrival_times sample_arrivals) \<and> limit_of sample_config (group_of sample_search) = 2 \<and>
   length (filter (\<lambda>(arrived, request). 59000000000 \<le> arrived \<and> arrived < 59000000000 + WINDOW \<and>
       client_of sample_config request = client_of sample_config sample_search \<and> \<not> is_health_endpoint request)
     (sv_admitted (run_server sample_config sample_arrivals))) = 3 \<and>
   (3 :: nat) \<le> 2 * 2"
proof -
  have s: "sorted (arrival_times sample_arrivals)" "limit_of sample_config (snd (client_of sample_config sample_search)) = 2"
    "limit_of sample_config (group_of sample_search) = 2" by code_simp+
  have n: "length (filter (\<lambda>(arrived, request). 59000000000 \<le> arrived \<and> arrived < 59000000000 + WINDOW \<and>
       client_of sample_config request = client_of sample_config sample_search \<and> \<not> is_health_endpoint request)
     (sv_admitted (run_server sample_config sample_arrivals))) = 3" by code_simp
  from clients_rate_limited [OF s(1), of 59000000000 sample_config "client_of sample_config sample_search"] s n
  show ?thesis by simp
qed

text \<open>
  A peer on the loopback as a mapped address (\<open>::ffff:127.0.0.1\<close>, as a dual-stack listener reports it) is not
  taken for the trusted local proxy, because \<open>is_loopback\<close> is asked before the address is normalised: every
  client behind that proxy then shares the window of the proxy.
\<close>

lemma mapped_loopback_proxy_not_trusted:
  "client_ip \<lparr>hr_endpoint = [], hr_method = [], hr_peer = Some (V6 [0, 0, 0, 0, 0, 0xffff, 0x7f00, 1]),
      hr_forwarded_for = Some (ascii ''5.6.7.8'')\<rparr> True = V4 127 0 0 1 \<and>
   client_ip \<lparr>hr_endpoint = [], hr_method = [], hr_peer = Some (V4 127 0 0 1),
      hr_forwarded_for = Some (ascii ''1.2.3.4, 5.6.7.8'')\<rparr> True = V4 5 6 7 8"
  by code_simp

end
