(* ===== verification/Request_Validation.thy ===== *)
theory Request_Validation
  imports App_Config
begin

text \<open>
  \<^verbatim>\<open>services/api/src/http/validation.rs\<close> and the parsing of query times in \<^verbatim>\<open>lib.rs\<close>: the checks
  on what a client sends before a search starts. Text is a list of Unicode scalar values, floats are
  those of the prelude.
\<close>

section \<open>Text and coordinates\<close>

definition invalid :: "string \<Rightarrow> api_error" where
  "invalid message = \<lparr>ae_code = ''validation_error'', ae_message = message\<rparr>"

definition bounded_text :: "ustring \<Rightarrow> string \<Rightarrow> nat \<Rightarrow> api_error + unit" where
  "bounded_text v name maximum =
     ensure (\<not> (trim v = [] \<or> maximum < utf8_len v \<or> list_ex is_control v))
       (invalid (name @ '' is empty, too long or contains control characters''))"

definition coordinates :: "f64 \<Rightarrow> f64 \<Rightarrow> api_error + unit" where
  "coordinates lat lon =
     ensure (\<not> (\<not> is_finite lat \<or> \<not> is_finite lon \<or> \<not> in_f64_range (-90) 90 lat \<or> \<not> in_f64_range (-180) 180 lon))
       (invalid ''Coordinates must be finite WGS84 latitude and longitude'')"

section \<open>Query times\<close>

text \<open>\<open>str::get(..n)\<close>: the first \<open>n\<close> bytes, when the text has them and they end at a character boundary.\<close>

fun byte_prefix :: "nat \<Rightarrow> ustring \<Rightarrow> ustring option" where
  "byte_prefix n s = (if n = 0 then Some [] else
     (case s of [] \<Rightarrow> None
      | c # cs \<Rightarrow> if utf8_len [c] \<le> n then map_option ((#) c) (byte_prefix (n - utf8_len [c]) cs) else None))"

declare byte_prefix.simps [simp del]

text \<open>\<open>rsplit('T').next()\<close>.\<close>

definition after_last_T :: "ustring \<Rightarrow> ustring" where
  "after_last_T s = rev (takeWhile (\<lambda>c. c \<noteq> 84) (rev s))"

definition parse_query_time_seconds :: "ustring \<Rightarrow> u32 option" where
  "parse_query_time_seconds v =
     (case byte_prefix 8 (after_last_T v) of
        Some time \<Rightarrow> parse_gtfs_time (utf8 time)
      | None \<Rightarrow> parse_gtfs_time (utf8 v))"

section \<open>Requests\<close>

record nearby_query =
  nq_lat :: f64
  nq_lon :: f64
  nq_radius :: "f64 option"

definition validate_nearby :: "nearby_query \<Rightarrow> api_error + unit" where
  "validate_nearby q =
     bind_result (coordinates (nq_lat q) (nq_lon q)) (\<lambda>_.
     ensure (\<not> (case nq_radius q of Some radius \<Rightarrow> \<not> is_finite radius \<or> \<not> in_f64_range 1 5000 radius | None \<Rightarrow> False))
       (invalid ''radius must be between 1 and 5000 metres''))"

record departures_query =
  dq_stop_id :: ustring
  dq_time :: "ustring option"
  dq_limit :: "nat option"

definition validate_departures :: "departures_query \<Rightarrow> api_error + unit" where
  "validate_departures q =
     bind_result (bounded_text (dq_stop_id q) ''stopId'' 256) (\<lambda>_.
     bind_result (ensure (\<not> (case dq_limit q of Some n \<Rightarrow> \<not> (1 \<le> n \<and> n \<le> 100) | None \<Rightarrow> False))
       (invalid ''limit must be between 1 and 100'')) (\<lambda>_.
     (case dq_time q of
        None \<Rightarrow> Inr ()
      | Some v \<Rightarrow>
          bind_result (bounded_text v ''time'' 64) (\<lambda>_.
          ensure (parse_query_time_seconds v \<noteq> None) (invalid ''time must be a supported time or datetime'')))))"

record journey_point =
  jp_type :: ustring
  jp_id :: "ustring option"
  jp_lat :: "f64 option"
  jp_lon :: "f64 option"

record journey_search_body =
  js_from :: journey_point
  js_to :: journey_point
  js_datetime :: ustring
  js_mode :: ustring
  js_transport_modes :: "transport_mode list"
  js_max_transfers :: u32
  js_walking_speed :: ustring
  js_prefer_reliable_transfers :: bool
  js_offline_compatible :: bool
  js_include_intermediate_stops :: bool

definition validate_point :: "journey_point \<Rightarrow> api_error + unit" where
  "validate_point p =
     (if jp_type p = ascii ''stop'' \<or> jp_type p = ascii ''city''
      then bounded_text (case jp_id p of Some v \<Rightarrow> v | None \<Rightarrow> []) ''point.id'' 256
      else if jp_type p = ascii ''coordinate''
      then (case jp_lat p of
              None \<Rightarrow> Inl (invalid ''point.lat is required'')
            | Some lat \<Rightarrow> (case jp_lon p of
                None \<Rightarrow> Inl (invalid ''point.lon is required'')
              | Some lon \<Rightarrow> coordinates lat lon))
      else Inl (invalid ''point.type must be stop, city or coordinates''))"

definition validate_limits :: "journey_search_body \<Rightarrow> api_error + unit" where
  "validate_limits b =
     bind_result (bounded_text (js_datetime b) ''datetime'' 64) (\<lambda>_.
     bind_result (ensure (\<not> 8 < js_max_transfers b) (invalid ''max_transfers must be between 0 and 8'')) (\<lambda>_.
     bind_result (ensure (\<not> (js_transport_modes b = [] \<or> 8 < length (js_transport_modes b)))
       (invalid ''transport_modes must contain between 1 and 8 modes'')) (\<lambda>_.
     bind_result (ensure (js_walking_speed b \<in> {ascii ''slow'', ascii ''normal'', ascii ''fast''})
       (invalid ''walking_speed must be slow, normal or fast'')) (\<lambda>_.
     bind_result (validate_point (js_from b)) (\<lambda>_. validate_point (js_to b))))))"

section \<open>What an accepted request satisfies\<close>

lemma bind_result_unit: "bind_result m f = Inr y \<longleftrightarrow> (\<exists>x. m = Inr x \<and> f x = Inr y)"
  by (rule bind_result_Inr)

text \<open>Text that passes is not blank; blankness of what is inside survives any trimming.\<close>

lemma bounded_text_Inr: "bounded_text v name n = Inr u \<longleftrightarrow> trim v \<noteq> [] \<and> utf8_len v \<le> n \<and> \<not> list_ex is_control v"
  by (auto simp: bounded_text_def)

lemma coordinates_Inr:
  "coordinates lat lon = Inr u \<longleftrightarrow> (\<exists>x y. lat = Finite x \<and> lon = Finite y \<and> \<bar>x\<bar> \<le> 90 \<and> \<bar>y\<bar> \<le> 180)"
  by (cases lat; cases lon) (auto simp: coordinates_def abs_le_iff)

lemma error_code_invalid [simp]: "ae_code (invalid m) = ''validation_error''"
  by (simp add: invalid_def)

text \<open>Every refusal is the one error code of invalid requests.\<close>

lemma refusals_are_validation_errors:
  "bounded_text v name n = Inl e \<Longrightarrow> ae_code e = ''validation_error''"
  "coordinates lat lon = Inl e \<Longrightarrow> ae_code e = ''validation_error''"
  "validate_point p = Inl e \<Longrightarrow> ae_code e = ''validation_error''"
  "validate_limits b = Inl e \<Longrightarrow> ae_code e = ''validation_error''"
  "validate_nearby q = Inl e \<Longrightarrow> ae_code e = ''validation_error''"
  "validate_departures d = Inl e \<Longrightarrow> ae_code e = ''validation_error''"
proof -
  show bt: "bounded_text v name n = Inl e \<Longrightarrow> ae_code e = ''validation_error''" for v name n e
    by (auto simp: bounded_text_def ensure_def split: if_splits)
  show co: "coordinates lat lon = Inl e \<Longrightarrow> ae_code e = ''validation_error''" for lat lon e
    by (auto simp: coordinates_def ensure_def split: if_splits)
  show pt: "validate_point p = Inl e \<Longrightarrow> ae_code e = ''validation_error''" for p e
    by (auto simp: validate_point_def dest: bt co split: if_splits option.splits)
  show "validate_limits b = Inl e \<Longrightarrow> ae_code e = ''validation_error''"
    by (auto simp: validate_limits_def bind_result_def ensure_def dest: bt pt split: if_splits sum.splits)
  show "validate_nearby q = Inl e \<Longrightarrow> ae_code e = ''validation_error''"
    by (auto simp: validate_nearby_def bind_result_def ensure_def dest: co split: if_splits sum.splits)
  show "validate_departures d = Inl e \<Longrightarrow> ae_code e = ''validation_error''"
    by (auto simp: validate_departures_def bind_result_def ensure_def dest: bt split: if_splits sum.splits option.splits)
qed

text \<open>A usable end of a journey.\<close>

definition point_ok :: "journey_point \<Rightarrow> bool" where
  "point_ok p \<longleftrightarrow>
     (jp_type p \<in> {ascii ''stop'', ascii ''city''} \<and>
        (\<exists>v. jp_id p = Some v \<and> trim v \<noteq> [] \<and> utf8_len v \<le> 256 \<and> \<not> list_ex is_control v)) \<or>
     (jp_type p = ascii ''coordinate'' \<and>
        (\<exists>x y. jp_lat p = Some (Finite x) \<and> jp_lon p = Some (Finite y) \<and> \<bar>x\<bar> \<le> 90 \<and> \<bar>y\<bar> \<le> 180))"

lemma trim_Nil [simp]: "trim [] = []"
  by (simp add: trim_def)

lemma validate_point_Inr: "validate_point p = Inr u \<longleftrightarrow> point_ok p"
proof -
  have "ascii ''stop'' \<noteq> ascii ''coordinate''" "ascii ''city'' \<noteq> ascii ''coordinate''" by code_simp+
  then show ?thesis
    by (auto simp: validate_point_def point_ok_def bounded_text_Inr coordinates_Inr split: option.splits if_splits)
qed

text \<open>
  Exactly the journey searches with a bounded date, at most eight transfers, one to eight modes, a known
  walking speed and two usable ends are accepted; the float comparisons let no NaN, infinity or
  out-of-range coordinate through.
\<close>

theorem journey_search_accepted:
  "(\<exists>u. validate_limits b = Inr u) =
     (trim (js_datetime b) \<noteq> [] \<and> utf8_len (js_datetime b) \<le> 64 \<and> \<not> list_ex is_control (js_datetime b) \<and>
      unat (js_max_transfers b) \<le> 8 \<and> length (js_transport_modes b) \<in> {1..8} \<and>
      js_walking_speed b \<in> {ascii ''slow'', ascii ''normal'', ascii ''fast''} \<and>
      point_ok (js_from b) \<and> point_ok (js_to b))"
proof -
  have t: "\<not> 8 < js_max_transfers b \<longleftrightarrow> unat (js_max_transfers b) \<le> 8"
    by (simp add: word_less_nat_alt not_less)
  have m: "js_transport_modes b \<noteq> [] \<and> \<not> 8 < length (js_transport_modes b) \<longleftrightarrow> length (js_transport_modes b) \<in> {1..8}"
    by (cases "js_transport_modes b") auto
  show ?thesis
    unfolding validate_limits_def bind_result_unit ensure_Inr bounded_text_Inr validate_point_Inr de_Morgan_disj t m
    by blast
qed

text \<open>
  A query time with a trailing \<open>T\<close> escapes the cut to eight bytes: the whole text is parsed, and the
  seconds of a day wrap around.
\<close>

lemma accepted_query_time_wraps:
  "validate_departures \<lparr>dq_stop_id = ascii ''s'', dq_time = Some (ascii ''1193047:0:0:T''), dq_limit = None\<rparr> = Inr () \<and>
   parse_query_time_seconds (ascii ''1193047:0:0:T'') = Some 1904"
  by code_simp

text \<open>The message names a point type that is refused.\<close>

lemma coordinates_point_type_refused:
  "validate_point \<lparr>jp_type = ascii ''coordinates'', jp_id = None, jp_lat = Some (Finite 50), jp_lon = Some (Finite 14)\<rparr> =
     Inl (invalid ''point.type must be stop, city or coordinates'')"
  by code_simp

end
