(* ===== verification/Accounts.thy ===== *)
theory Accounts
  imports Request_Validation Admission Ticketing_Model
begin

text \<open>
  \<^verbatim>\<open>services/api/src/services/auth.rs\<close> and \<^verbatim>\<open>controllers/account.rs\<close>: users, sessions, saved places and
  favourite stops, as the service runs without a database (\<open>db\<close> is \<open>None\<close>); a handler whose work needs
  the database ends, after its checks, in the error \<open>database_required\<close>. The password hash, the token
  codec, the token digest and the forms of an identifier are libraries and the fields of \<open>library\<close>; the
  clock, the random values and the permits for password work of one call are the fields of \<open>call\<close>.
  Times are nanoseconds.
\<close>

section \<open>Data\<close>

record user_record =
  us_id :: uuid
  us_email :: ustring
  us_password_hash :: string
  us_display_name :: "ustring option"
  us_roles :: "string list"
  us_created_at :: date_time
  us_deleted_at :: "date_time option"
  us_auth_version :: int

record claims =
  cl_sub :: string
  cl_email :: ustring
  cl_roles :: "string list"
  cl_exp :: int
  cl_auth_version :: int

record public_user =
  pu_id :: uuid
  pu_email :: ustring
  pu_display_name :: "ustring option"
  pu_roles :: "string list"

record auth_session =
  au_access_token :: ustring
  au_refresh_token :: ustring
  au_expires_in_seconds :: int
  au_user :: public_user

record saved_place =
  sp_id :: uuid
  sp_user_id :: uuid
  sp_name :: ustring
  sp_place_type :: ustring
  sp_stop_id :: "ustring option"
  sp_lat :: "f64 option"
  sp_lon :: "f64 option"
  sp_address :: "ustring option"
  sp_created_at :: date_time
  sp_updated_at :: date_time

record favorite_stop =
  fs_id :: uuid
  fs_user_id :: uuid
  fs_stop_id :: ustring
  fs_created_at :: date_time

record library =
  lb_hash_password :: "ustring \<Rightarrow> nat \<Rightarrow> string option"
  lb_verify_password :: "ustring \<Rightarrow> string \<Rightarrow> bool"
  lb_encode_token :: "claims \<Rightarrow> ustring option"
  lb_decode_token :: "date_time \<Rightarrow> ustring \<Rightarrow> claims option"
  lb_hash_token :: "ustring \<Rightarrow> string"
  lb_show_uuid :: "uuid \<Rightarrow> string"
  lb_parse_uuid :: "string \<Rightarrow> uuid option"
  lb_parse_local_time :: "string \<Rightarrow> bool"

record call =
  ca_now :: date_time
  ca_fresh_id :: uuid
  ca_fresh_token :: ustring
  ca_salt :: nat
  ca_verify_permit :: bool
  ca_hash_permit :: bool
  ca_authorization :: "ustring option"

text \<open>The part of \<open>AppState\<close> that holds the accounts.\<close>

record account_store =
  st_users :: "(uuid \<times> user_record) list"
  st_refresh_tokens :: "string \<Rightarrow> uuid option"
  st_saved_places :: "uuid \<Rightarrow> saved_place list option"
  st_favorite_stops :: "uuid \<Rightarrow> favorite_stop list option"

definition no_accounts :: account_store where
  "no_accounts = \<lparr>st_users = [], st_refresh_tokens = Map.empty, st_saved_places = Map.empty, st_favorite_stops = Map.empty\<rparr>"

section \<open>Errors\<close>

definition unauthorized :: api_error where
  "unauthorized = tk_error ''unauthorized'' ''Authentication required''"

definition internal_error :: api_error where
  "internal_error = tk_error ''internal_error'' ''An internal service error occurred''"

definition validation_error :: "string \<Rightarrow> api_error" where
  "validation_error message = tk_error ''validation_error'' message"

definition database_required :: api_error where
  "database_required = tk_error ''database_required'' ''This operation requires database persistence''"

definition auth_overloaded :: api_error where
  "auth_overloaded = tk_error ''service_overloaded'' ''Authentication capacity is temporarily exhausted''"

section \<open>Passwords and tokens\<close>

definition hash_password_async :: "library \<Rightarrow> call \<Rightarrow> ustring \<Rightarrow> api_error + string" where
  "hash_password_async lb ca password =
     (if \<not> ca_hash_permit ca then Inl auth_overloaded else ok_or internal_error (lb_hash_password lb password (ca_salt ca)))"

definition verify_password_async :: "library \<Rightarrow> call \<Rightarrow> ustring \<Rightarrow> string \<Rightarrow> api_error + unit" where
  "verify_password_async lb ca password hash =
     (if 1024 < utf8_len password then Inl unauthorized
      else if \<not> ca_verify_permit ca then Inl auth_overloaded
      else if lb_verify_password lb password hash then Inr () else Inl unauthorized)"

definition create_user_record :: "library \<Rightarrow> call \<Rightarrow> ustring \<Rightarrow> ustring \<Rightarrow> ustring option \<Rightarrow> string list \<Rightarrow> api_error + user_record" where
  "create_user_record lb ca email password display_name roles =
     bind_result (hash_password_async lb ca password) (\<lambda>hash.
       Inr \<lparr>us_id = ca_fresh_id ca, us_email = email, us_password_hash = hash, us_display_name = display_name,
            us_roles = roles, us_created_at = ca_now ca, us_deleted_at = None, us_auth_version = 1\<rparr>)"

definition public_user_of :: "user_record \<Rightarrow> public_user" where
  "public_user_of u = \<lparr>pu_id = us_id u, pu_email = us_email u, pu_display_name = us_display_name u, pu_roles = us_roles u\<rparr>"

definition claims_of :: "library \<Rightarrow> call \<Rightarrow> user_record \<Rightarrow> claims" where
  "claims_of lb ca u = \<lparr>cl_sub = lb_show_uuid lb (us_id u), cl_email = us_email u, cl_roles = us_roles u,
     cl_exp = (ca_now ca + 15 * 60 * 10 ^ 9) div 10 ^ 9, cl_auth_version = us_auth_version u\<rparr>"

definition auth_response :: "library \<Rightarrow> call \<Rightarrow> user_record \<Rightarrow> account_store \<Rightarrow> (api_error + auth_session) \<times> account_store" where
  "auth_response lb ca u st =
     (case lb_encode_token lb (claims_of lb ca u) of
        None \<Rightarrow> (Inl internal_error, st)
      | Some access_token \<Rightarrow>
          (Inr \<lparr>au_access_token = access_token, au_refresh_token = ca_fresh_token ca, au_expires_in_seconds = 900,
                au_user = public_user_of u\<rparr>,
           st\<lparr>st_refresh_tokens := (st_refresh_tokens st)(lb_hash_token lb (ca_fresh_token ca) \<mapsto> us_id u)\<rparr>))"

text \<open>The token of an \<open>Authorization: Bearer\<close> header.\<close>

definition bearer_token :: "ustring option \<Rightarrow> ustring option" where
  "bearer_token header = do {
     v \<leftarrow> header;
     if visible_ascii v \<and> take 7 v = ascii ''Bearer '' then Some (drop 7 v) else None }"

definition bearer :: "ustring \<Rightarrow> ustring option" where
  "bearer token = Some (ascii ''Bearer '' @ token)"

definition current_user :: "library \<Rightarrow> date_time \<Rightarrow> ustring option \<Rightarrow> account_store \<Rightarrow> api_error + user_record" where
  "current_user lb now header st =
     (case bearer_token header of
        None \<Rightarrow> Inl unauthorized
      | Some token \<Rightarrow>
          (case lb_decode_token lb now token of
             None \<Rightarrow> Inl unauthorized
           | Some c \<Rightarrow>
               (case lb_parse_uuid lb (cl_sub c) of
                  None \<Rightarrow> Inl unauthorized
                | Some uid \<Rightarrow>
                    (case map_of (st_users st) uid of
                       None \<Rightarrow> Inl unauthorized
                     | Some u \<Rightarrow>
                         if us_deleted_at u \<noteq> None \<or> cl_auth_version c \<noteq> us_auth_version u then Inl unauthorized else Inr u))))"

definition authenticated :: "library \<Rightarrow> call \<Rightarrow> account_store \<Rightarrow> (api_error + user_record) \<times> account_store" where
  "authenticated lb ca st = (current_user lb (ca_now ca) (ca_authorization ca) st, st)"

definition require_admin :: "library \<Rightarrow> date_time \<Rightarrow> ustring option \<Rightarrow> account_store \<Rightarrow> api_error + user_record" where
  "require_admin lb now header st =
     bind_result (current_user lb now header st) (\<lambda>u.
       if list_ex (\<lambda>role. role = ''admin'' \<or> role = ''data_admin'') (us_roles u) then Inr u
       else Inl (tk_error ''forbidden'' ''Admin role is required''))"

section \<open>Sessions\<close>

record register_request =
  rr_email :: ustring
  rr_password :: ustring
  rr_display_name :: "ustring option"

record login_request =
  lr_email :: ustring
  lr_password :: ustring

definition same_email :: "ustring \<Rightarrow> user_record \<Rightarrow> bool" where
  "same_email email u \<longleftrightarrow> lower_ascii (us_email u) = lower_ascii email \<and> us_deleted_at u = None"

definition put_user :: "user_record \<Rightarrow> account_store \<Rightarrow> account_store" where
  "put_user u st = st\<lparr>st_users := AList.update (us_id u) u (st_users st)\<rparr>"

text \<open>The part of \<open>register\<close> up to the hash, and the part after it.\<close>

definition register_check :: "library \<Rightarrow> call \<Rightarrow> register_request \<Rightarrow> account_store \<Rightarrow> api_error + user_record" where
  "register_check lb ca body st =
     (let email = trim (rr_email body) in
      if 254 < utf8_len email \<or> 64 \<notin> set email \<or> utf8_len (rr_password body) < 8 \<or> 1024 < utf8_len (rr_password body) \<or>
         (case rr_display_name body of Some name \<Rightarrow> 200 < utf8_len name | None \<Rightarrow> False)
      then Inl (tk_error ''validation_error'' ''A valid email and a password of at least 8 characters are required'')
      else if list_ex (same_email email) (map snd (st_users st)) then Inl (tk_error ''conflict'' ''Email is already registered'')
      else create_user_record lb ca email (rr_password body) (rr_display_name body) [''user''])"

definition register_finish :: "library \<Rightarrow> call \<Rightarrow> user_record \<Rightarrow> account_store \<Rightarrow> (api_error + auth_session) \<times> account_store" where
  "register_finish lb ca u st =
     and_then (auth_response lb ca u st) (\<lambda>session st. (Inr session, put_user u st))"

definition register :: "library \<Rightarrow> call \<Rightarrow> register_request \<Rightarrow> account_store \<Rightarrow> (api_error + auth_session) \<times> account_store" where
  "register lb ca body st = and_then (register_check lb ca body st, st) (register_finish lb ca)"

text \<open>Likewise \<open>login\<close>: the part that reads the user and checks the password, and the part that writes.\<close>

definition login_check :: "library \<Rightarrow> call \<Rightarrow> login_request \<Rightarrow> account_store \<Rightarrow> api_error + user_record" where
  "login_check lb ca body st =
     bind_result (bounded_text (lr_email body) ''email'' 254) (\<lambda>_.
     if 1024 < utf8_len (lr_password body) then Inl unauthorized
     else bind_result (ok_or unauthorized (find (same_email (lr_email body)) (map snd (st_users st)))) (\<lambda>u.
       bind_result (verify_password_async lb ca (lr_password body) (us_password_hash u)) (\<lambda>_. Inr u)))"

definition login_finish :: "library \<Rightarrow> call \<Rightarrow> user_record \<Rightarrow> account_store \<Rightarrow> (api_error + auth_session) \<times> account_store" where
  "login_finish lb ca u st = auth_response lb ca u (put_user u st)"

definition login :: "library \<Rightarrow> call \<Rightarrow> login_request \<Rightarrow> account_store \<Rightarrow> (api_error + auth_session) \<times> account_store" where
  "login lb ca body st = and_then (login_check lb ca body st, st) (login_finish lb ca)"

definition refresh :: "library \<Rightarrow> call \<Rightarrow> ustring \<Rightarrow> account_store \<Rightarrow> (api_error + auth_session) \<times> account_store" where
  "refresh lb ca token st =
     and_then (bounded_text token ''refresh_token'' 256, st) (\<lambda>_ st.
       let hash = lb_hash_token lb token
       in and_then (ok_or unauthorized (st_refresh_tokens st hash), st\<lparr>st_refresh_tokens := (st_refresh_tokens st)(hash := None)\<rparr>) (\<lambda>uid st.
          and_then (ok_or unauthorized (map_of (st_users st) uid), st) (\<lambda>u st.
            auth_response lb ca u (put_user u st))))"

definition logout :: "library \<Rightarrow> ustring \<Rightarrow> account_store \<Rightarrow> account_store" where
  "logout lb token st = st\<lparr>st_refresh_tokens := (st_refresh_tokens st)(lb_hash_token lb token := None)\<rparr>"

text \<open>\<open>refresh_tokens.retain(|_, user_id| *user_id != id)\<close>.\<close>

definition drop_tokens_of :: "uuid \<Rightarrow> (string \<Rightarrow> uuid option) \<Rightarrow> string \<Rightarrow> uuid option" where
  "drop_tokens_of uid tokens = (\<lambda>h. if tokens h = Some uid then None else tokens h)"

definition modify_user :: "uuid \<Rightarrow> (user_record \<Rightarrow> user_record) \<Rightarrow> (uuid \<times> user_record) list \<Rightarrow> (uuid \<times> user_record) list" where
  "modify_user uid f users = (case map_of users uid of None \<Rightarrow> users | Some u \<Rightarrow> AList.update uid (f u) users)"

definition validate_new_password :: "ustring \<Rightarrow> api_error + unit" where
  "validate_new_password password =
     ensure (\<not> (utf8_len password < 12 \<or> 1024 < utf8_len password))
       (validation_error ''new password must contain 12 to 1024 characters'')"

definition change_password :: "library \<Rightarrow> call \<Rightarrow> ustring \<Rightarrow> ustring \<Rightarrow> account_store \<Rightarrow> (api_error + unit) \<times> account_store" where
  "change_password lb ca current_password new_password st =
     and_then (validate_new_password new_password, st) (\<lambda>_ st.
     and_then (authenticated lb ca st) (\<lambda>current st.
     and_then (verify_password_async lb ca current_password (us_password_hash current), st) (\<lambda>_ st.
     and_then (hash_password_async lb ca new_password, st) (\<lambda>hash st.
       (Inr (), st\<lparr>st_users := modify_user (us_id current)
                     (\<lambda>u. u\<lparr>us_password_hash := hash, us_auth_version := us_auth_version u + 1\<rparr>) (st_users st),
                   st_refresh_tokens := drop_tokens_of (us_id current) (st_refresh_tokens st)\<rparr>)))))"

text \<open>The replacement password is the text of a fresh identifier.\<close>

definition delete_me :: "library \<Rightarrow> call \<Rightarrow> account_store \<Rightarrow> (api_error + unit) \<times> account_store" where
  "delete_me lb ca st =
     and_then (authenticated lb ca st) (\<lambda>current st.
     and_then (hash_password_async lb ca (ascii (lb_show_uuid lb (ca_fresh_id ca))), st) (\<lambda>_ st.
       (Inr (), st\<lparr>st_users := modify_user (us_id current)
                     (\<lambda>u. u\<lparr>us_deleted_at := Some (ca_now ca), us_auth_version := us_auth_version u + 1\<rparr>) (st_users st),
                   st_refresh_tokens := drop_tokens_of (us_id current) (st_refresh_tokens st),
                   st_saved_places := (st_saved_places st)(us_id current := None),
                   st_favorite_stops := (st_favorite_stops st)(us_id current := None)\<rparr>)))"

text \<open>\<open>update_me\<close> takes what the body holds as the text \<open>display_name\<close>.\<close>

definition update_me :: "library \<Rightarrow> call \<Rightarrow> ustring option \<Rightarrow> account_store \<Rightarrow> (api_error + public_user) \<times> account_store" where
  "update_me lb ca field st =
     and_then (authenticated lb ca st) (\<lambda>current st.
       let display_name = (case field of None \<Rightarrow> None | Some v \<Rightarrow> if trim v = [] then None else Some (trim v))
       in if (case display_name of Some v \<Rightarrow> 120 < utf8_len v | None \<Rightarrow> False)
          then (Inl (validation_error ''display_name is too long''), st)
          else (let u = (case map_of (st_users st) (us_id current) of Some u \<Rightarrow> u | None \<Rightarrow> current)\<lparr>us_display_name := display_name\<rparr>
                in (Inr (public_user_of u), st\<lparr>st_users := AList.update (us_id current) u (st_users st)\<rparr>)))"

section \<open>Places and favourites\<close>

record saved_place_request =
  sr_name :: ustring
  sr_place_type :: ustring
  sr_stop_id :: "ustring option"
  sr_lat :: "f64 option"
  sr_lon :: "f64 option"
  sr_address :: "ustring option"

definition items :: "(uuid \<Rightarrow> 'a list option) \<Rightarrow> uuid \<Rightarrow> 'a list" where
  "items m uid = (case m uid of Some xs \<Rightarrow> xs | None \<Rightarrow> [])"

definition list_saved_places :: "library \<Rightarrow> call \<Rightarrow> account_store \<Rightarrow> (api_error + saved_place list) \<times> account_store" where
  "list_saved_places lb ca st =
     and_then (authenticated lb ca st) (\<lambda>user st. (Inr (items (st_saved_places st) (us_id user)), st))"

definition create_saved_place :: "library \<Rightarrow> call \<Rightarrow> saved_place_request \<Rightarrow> account_store \<Rightarrow> (api_error + saved_place) \<times> account_store" where
  "create_saved_place lb ca body st =
     and_then (authenticated lb ca st) (\<lambda>user st.
       let place = \<lparr>sp_id = ca_fresh_id ca, sp_user_id = us_id user, sp_name = sr_name body, sp_place_type = sr_place_type body,
             sp_stop_id = sr_stop_id body, sp_lat = sr_lat body, sp_lon = sr_lon body, sp_address = sr_address body,
             sp_created_at = ca_now ca, sp_updated_at = ca_now ca\<rparr>
       in (Inr place, st\<lparr>st_saved_places := (st_saved_places st)(us_id user \<mapsto> items (st_saved_places st) (us_id user) @ [place])\<rparr>))"

definition delete_saved_place :: "library \<Rightarrow> call \<Rightarrow> uuid \<Rightarrow> account_store \<Rightarrow> (api_error + unit) \<times> account_store" where
  "delete_saved_place lb ca uid st =
     and_then (authenticated lb ca st) (\<lambda>user st.
       (Inr (), st\<lparr>st_saved_places := (st_saved_places st)(us_id user \<mapsto>
          filter (\<lambda>p. sp_id p \<noteq> uid) (items (st_saved_places st) (us_id user)))\<rparr>))"

definition list_favorite_stops :: "library \<Rightarrow> call \<Rightarrow> account_store \<Rightarrow> (api_error + favorite_stop list) \<times> account_store" where
  "list_favorite_stops lb ca st =
     and_then (authenticated lb ca st) (\<lambda>user st. (Inr (items (st_favorite_stops st) (us_id user)), st))"

definition add_favorite_stop :: "library \<Rightarrow> call \<Rightarrow> ustring \<Rightarrow> account_store \<Rightarrow> (api_error + favorite_stop) \<times> account_store" where
  "add_favorite_stop lb ca stop_id st =
     and_then (authenticated lb ca st) (\<lambda>user st.
       let favorite = \<lparr>fs_id = ca_fresh_id ca, fs_user_id = us_id user, fs_stop_id = stop_id, fs_created_at = ca_now ca\<rparr>
       in (Inr favorite, st\<lparr>st_favorite_stops := (st_favorite_stops st)(us_id user \<mapsto> items (st_favorite_stops st) (us_id user) @ [favorite])\<rparr>))"

definition delete_favorite_stop :: "library \<Rightarrow> call \<Rightarrow> uuid \<Rightarrow> account_store \<Rightarrow> (api_error + unit) \<times> account_store" where
  "delete_favorite_stop lb ca uid st =
     and_then (authenticated lb ca st) (\<lambda>user st.
       (Inr (), st\<lparr>st_favorite_stops := (st_favorite_stops st)(us_id user \<mapsto>
          filter (\<lambda>f. fs_id f \<noteq> uid) (items (st_favorite_stops st) (us_id user)))\<rparr>))"

end
