(* ===== verification/Account_Service.thy ===== *)
theory Account_Service
  imports Accounts
begin

text \<open>
  The rest of \<^verbatim>\<open>controllers/account.rs\<close>: the handlers that check their request and then need the database,
  and the dispatch of a request to its handler. \<open>serve\<close> runs a list of requests one after the other.
\<close>

section \<open>Checks of the requests that need the database\<close>

record profile_update =
  pf_preferred_walking_speed :: "ustring option"
  pf_prefer_fewer_transfers :: "bool option"
  pf_prefer_reliable_transfers :: "bool option"
  pf_default_departure_mode :: "ustring option"
  pf_language :: "ustring option"
  pf_accessibility_preferences :: "json option"

fun is_object :: "json \<Rightarrow> bool" where
  "is_object (JObject _) = True"
| "is_object _ = False"

fun as_u64 :: "json \<Rightarrow> nat option" where
  "as_u64 (JInt n) = (if 0 \<le> n \<and> n < 2 ^ 64 then Some (nat n) else None)"
| "as_u64 _ = None"

definition opt_bad :: "('a \<Rightarrow> bool) \<Rightarrow> 'a option \<Rightarrow> bool" where
  "opt_bad bad v = (case v of Some x \<Rightarrow> bad x | None \<Rightarrow> False)"

definition validate_profile :: "profile_update \<Rightarrow> api_error + unit" where
  "validate_profile b =
     ensure (\<not> (opt_bad (\<lambda>v. v \<notin> set (map ascii [''slow'', ''normal'', ''fast''])) (pf_preferred_walking_speed b) \<or>
                opt_bad (\<lambda>v. v \<notin> set (map ascii [''depart_at'', ''arrive_by''])) (pf_default_departure_mode b) \<or>
                opt_bad (\<lambda>v. utf8_len v < 2 \<or> 10 < utf8_len v) (pf_language b) \<or>
                opt_bad (\<lambda>v. \<not> is_object v) (pf_accessibility_preferences b)))
       (validation_error ''invalid profile preference'')"

text \<open>Any byte outside ASCII fails the test of its character, so that bytes and characters agree here.\<close>

definition valid_timezone :: "string \<Rightarrow> bool" where
  "valid_timezone v \<longleftrightarrow> v \<noteq> [] \<and> length v \<le> 64 \<and>
     list_all (\<lambda>part. part \<noteq> [] \<and> list_all (\<lambda>c. is_ascii_alphanumeric (of_char c) \<or> c \<in> set ''_-+'') part) (split_on (CHR ''/'') v)"

record device_registration =
  dr_platform :: ustring
  dr_push_token :: ustring
  dr_timezone :: ustring
  dr_app_version :: "ustring option"
  dr_locale :: "ustring option"

definition validate_device :: "device_registration \<Rightarrow> api_error + unit" where
  "validate_device b =
     ensure (\<not> (dr_platform b \<notin> set (map ascii [''ios'', ''android'']) \<or>
                utf8_len (dr_push_token b) < 16 \<or> 4096 < utf8_len (dr_push_token b) \<or> list_ex is_whitespace (dr_push_token b) \<or>
                \<not> valid_timezone (utf8 (dr_timezone b)) \<or>
                opt_bad (\<lambda>v. 50 < utf8_len v) (dr_app_version b) \<or> opt_bad (\<lambda>v. 20 < utf8_len v) (dr_locale b)))
       (validation_error ''invalid device registration'')"

record journey_subscription =
  jn_device_id :: uuid
  jn_run_id :: ustring
  jn_service_date :: naive_date
  jn_trip_id :: ustring
  jn_boarding_call_id :: ustring
  jn_boarding_stop_id :: ustring
  jn_boarding_stop_sequence :: i32
  jn_alighting_call_id :: "ustring option"
  jn_alighting_stop_id :: "ustring option"
  jn_alighting_stop_sequence :: "i32 option"
  jn_connection_run_id :: "ustring option"
  jn_connection_service_date :: "naive_date option"
  jn_connection_trip_id :: "ustring option"
  jn_connection_call_id :: "ustring option"
  jn_minimum_transfer_seconds :: "i32 option"
  jn_significant_delay_seconds :: i32
  jn_expires_at :: date_time

definition DAY_NANOSECONDS :: int where "DAY_NANOSECONDS = 24 * 60 * 60 * 10 ^ 9"

definition validate_journey_subscription :: "date_time \<Rightarrow> journey_subscription \<Rightarrow> api_error + unit" where
  "validate_journey_subscription now b =
     bind_result (ensure (\<not> (jn_expires_at b \<le> now \<or> now + 14 * DAY_NANOSECONDS < jn_expires_at b \<or>
          \<not> (60 \<le> jn_significant_delay_seconds b \<and> jn_significant_delay_seconds b \<le> 7200) \<or>
          opt_bad (\<lambda>v. \<not> (0 \<le> v \<and> v \<le> 7200)) (jn_minimum_transfer_seconds b) \<or>
          jn_boarding_stop_sequence b < 0 \<or>
          opt_bad (\<lambda>v. v < jn_boarding_stop_sequence b) (jn_alighting_stop_sequence b)))
       (validation_error ''invalid journey subscription'')) (\<lambda>_.
     let connection_fields = [jn_connection_run_id b \<noteq> None, jn_connection_service_date b \<noteq> None,
           jn_connection_trip_id b \<noteq> None, jn_connection_call_id b \<noteq> None]
     in ensure (\<not> (list_ex id connection_fields \<and> \<not> list_all id connection_fields))
          (validation_error ''connection identity must be complete''))"

record saved_route =
  rt_name :: ustring
  rt_origin :: json
  rt_destination :: json
  rt_via :: "json option"
  rt_via_dwell_seconds :: i32
  rt_transport_modes :: "ustring list"
  rt_preferences :: json
  rt_position :: i32
  rt_pinned :: bool
  rt_commute :: "json option"
  rt_expected_version :: "int option"

definition commute_ok :: "library \<Rightarrow> json \<Rightarrow> bool" where
  "commute_ok lb commute \<longleftrightarrow> is_object commute \<and>
     (case Option.bind (json_get commute ''daysOfWeek'') as_array of None \<Rightarrow> False
      | Some days \<Rightarrow> days \<noteq> [] \<and> length days \<le> 7 \<and>
          list_all (\<lambda>day. case as_u64 day of Some d \<Rightarrow> 1 \<le> d \<and> d \<le> 7 | None \<Rightarrow> False) days) \<and>
     (case Option.bind (json_get commute ''localArrivalTime'') as_str of Some v \<Rightarrow> lb_parse_local_time lb v | None \<Rightarrow> False) \<and>
     (case Option.bind (json_get commute ''reminderLeadMinutes'') as_u64 of Some minutes \<Rightarrow> minutes \<le> 1440 | None \<Rightarrow> False) \<and>
     (case Option.bind (json_get commute ''timezone'') as_str of Some v \<Rightarrow> valid_timezone v | None \<Rightarrow> False)"

definition validate_saved_route :: "library \<Rightarrow> saved_route \<Rightarrow> api_error + unit" where
  "validate_saved_route lb r =
     bind_result (ensure (\<not> (trim (rt_name r) = [] \<or> 120 < utf8_len (rt_name r) \<or> \<not> is_object (rt_origin r) \<or>
          \<not> is_object (rt_destination r) \<or> opt_bad (\<lambda>v. \<not> is_object v) (rt_via r) \<or> \<not> is_object (rt_preferences r) \<or>
          rt_via_dwell_seconds r < 0 \<or> 86400 < rt_via_dwell_seconds r \<or>
          rt_position r < 0 \<or> 999 < rt_position r \<or> 12 < length (rt_transport_modes r)))
       (validation_error ''invalid saved route'')) (\<lambda>_.
     ensure (\<not> opt_bad (\<lambda>commute. \<not> commute_ok lb commute) (rt_commute r)) (validation_error ''invalid commute schedule''))"

section \<open>Requests and answers\<close>

datatype account_request =
    Register register_request | Login login_request | Refresh ustring | Logout ustring
  | AuthMe | UpdateMe "ustring option" | DeleteMe | ChangePassword ustring ustring
  | Profile | UpdateProfile profile_update | RequestPasswordReset ustring | CompletePasswordReset ustring ustring
  | ListSavedPlaces | CreateSavedPlace saved_place_request | UpdateSavedPlace | DeleteSavedPlace uuid
  | ListFavoriteStops | AddFavoriteStop ustring | DeleteFavoriteStop uuid
  | EmptyUserCollection | NotificationPreferences
  | RegisterDevice device_registration | ListDevices | DeleteDevice uuid
  | CreateSubscription journey_subscription | ListSubscriptions | DeleteSubscription uuid
  | ListSavedRoutes | CreateSavedRoute saved_route | UpdateSavedRoute uuid saved_route | DeleteSavedRoute uuid

datatype account_answer =
    Session auth_session | LoggedOut | UserData public_user | AccountDeleted | PasswordChanged
  | DefaultProfile uuid | ResetAccepted
  | Places "saved_place list" | Place saved_place | Favorites "favorite_stop list" | Favorite favorite_stop
  | ItemDeleted | NotImplemented | NoItems | NoPreferences

definition answer :: "('a \<Rightarrow> 'b) \<Rightarrow> ('e + 'a) \<times> 's \<Rightarrow> ('e + 'b) \<times> 's" where
  "answer f m = and_then m (\<lambda>x st. (Inr (f x), st))"

text \<open>Authenticated, checked, and then without the database it needs.\<close>

definition needs_database :: "library \<Rightarrow> call \<Rightarrow> api_error + unit \<Rightarrow> string \<Rightarrow> account_store \<Rightarrow> (api_error + account_answer) \<times> account_store" where
  "needs_database lb ca checked message st =
     and_then (authenticated lb ca st) (\<lambda>_ st. and_then (checked, st) (\<lambda>_ st. (Inl (tk_error ''database_required'' message), st)))"

abbreviation DB_REQUIRED :: string where
  "DB_REQUIRED \<equiv> ''This operation requires database persistence''"

fun handle :: "library \<Rightarrow> call \<Rightarrow> account_request \<Rightarrow> account_store \<Rightarrow> (api_error + account_answer) \<times> account_store" where
  "handle lb ca (Register body) st = answer Session (register lb ca body st)"
| "handle lb ca (Login body) st = answer Session (login lb ca body st)"
| "handle lb ca (Refresh token) st = answer Session (refresh lb ca token st)"
| "handle lb ca (Logout token) st = (Inr LoggedOut, logout lb token st)"
| "handle lb ca AuthMe st = answer (\<lambda>u. UserData (public_user_of u)) (authenticated lb ca st)"
| "handle lb ca (UpdateMe field) st = answer UserData (update_me lb ca field st)"
| "handle lb ca DeleteMe st = answer (\<lambda>_. AccountDeleted) (delete_me lb ca st)"
| "handle lb ca (ChangePassword current_password new_password) st =
     answer (\<lambda>_. PasswordChanged) (change_password lb ca current_password new_password st)"
| "handle lb ca Profile st = answer (\<lambda>u. DefaultProfile (us_id u)) (authenticated lb ca st)"
| "handle lb ca (UpdateProfile body) st = needs_database lb ca (validate_profile body) ''Profile persistence requires the database'' st"
| "handle lb ca (RequestPasswordReset email) st = (Inr ResetAccepted, st)"
| "handle lb ca (CompletePasswordReset token new_password) st =
     and_then (validate_new_password new_password, st) (\<lambda>_ st. (Inl unauthorized, st))"
| "handle lb ca ListSavedPlaces st = answer Places (list_saved_places lb ca st)"
| "handle lb ca (CreateSavedPlace body) st = answer Place (create_saved_place lb ca body st)"
| "handle lb ca UpdateSavedPlace st = answer (\<lambda>_. NotImplemented) (authenticated lb ca st)"
| "handle lb ca (DeleteSavedPlace item) st = answer (\<lambda>_. ItemDeleted) (delete_saved_place lb ca item st)"
| "handle lb ca ListFavoriteStops st = answer Favorites (list_favorite_stops lb ca st)"
| "handle lb ca (AddFavoriteStop stop_id) st = answer Favorite (add_favorite_stop lb ca stop_id st)"
| "handle lb ca (DeleteFavoriteStop item) st = answer (\<lambda>_. ItemDeleted) (delete_favorite_stop lb ca item st)"
| "handle lb ca EmptyUserCollection st = answer (\<lambda>_. NoItems) (authenticated lb ca st)"
| "handle lb ca NotificationPreferences st = answer (\<lambda>_. NoPreferences) (authenticated lb ca st)"
| "handle lb ca (RegisterDevice body) st = needs_database lb ca (validate_device body) DB_REQUIRED st"
| "handle lb ca ListDevices st = needs_database lb ca (Inr ()) DB_REQUIRED st"
| "handle lb ca (DeleteDevice item) st = needs_database lb ca (Inr ()) DB_REQUIRED st"
| "handle lb ca (CreateSubscription body) st = needs_database lb ca (validate_journey_subscription (ca_now ca) body) DB_REQUIRED st"
| "handle lb ca ListSubscriptions st = needs_database lb ca (Inr ()) DB_REQUIRED st"
| "handle lb ca (DeleteSubscription item) st = needs_database lb ca (Inr ()) DB_REQUIRED st"
| "handle lb ca ListSavedRoutes st = needs_database lb ca (Inr ()) ''Route synchronization requires the database'' st"
| "handle lb ca (CreateSavedRoute body) st = needs_database lb ca (validate_saved_route lb body) DB_REQUIRED st"
| "handle lb ca (UpdateSavedRoute item body) st =
     needs_database lb ca (bind_result (validate_saved_route lb body) (\<lambda>_.
       ensure (rt_expected_version body \<noteq> None) (validation_error ''expected_version is required''))) DB_REQUIRED st"
| "handle lb ca (DeleteSavedRoute item) st = needs_database lb ca (Inr ()) DB_REQUIRED st"

text \<open>A run: the requests with their answers, and the state after them.\<close>

type_synonym exchange = "call \<times> account_request \<times> (api_error + account_answer)"

fun serve :: "library \<Rightarrow> (call \<times> account_request) list \<Rightarrow> account_store \<Rightarrow> exchange list \<times> account_store" where
  "serve lb [] st = ([], st)"
| "serve lb ((ca, request) # requests) st =
     (let (r, st) = handle lb ca request st; (trace, st) = serve lb requests st in ((ca, request, r) # trace, st))"

abbreviation after :: "library \<Rightarrow> (call \<times> account_request) list \<Rightarrow> account_store \<Rightarrow> account_store" where
  "after lb requests st \<equiv> snd (serve lb requests st)"

end
