(* ===== verification/Accounts_Props.thy ===== *)
theory Accounts_Props
  imports Account_Service
begin

text \<open>
  What the account handlers keep: an abstract step relation on the store that every handler refines,
  and by it the invariants of the store, the revocation of sessions and the separation of users.
\<close>

section \<open>Abstract steps\<close>

text \<open>A store is keyed when every record is kept under its own identifier.\<close>

definition keyed :: "account_store \<Rightarrow> bool" where
  "keyed st \<longleftrightarrow> distinct (map fst (st_users st)) \<and> (\<forall>k u. map_of (st_users st) k = Some u \<longrightarrow> us_id u = k)"

text \<open>The steps are what a service that knows nothing of hashes and headers may do.\<close>

inductive account_step :: "library \<Rightarrow> call \<Rightarrow> account_store \<Rightarrow> account_store \<Rightarrow> bool" for lb ca st where
  forget: "tokens \<subseteq>\<^sub>m st_refresh_tokens st \<Longrightarrow> account_step lb ca st (st\<lparr>st_refresh_tokens := tokens\<rparr>)"
| grant: "map_of (st_users st) (us_id u) = Some u \<Longrightarrow> tokens \<subseteq>\<^sub>m st_refresh_tokens st \<Longrightarrow>
    us_deleted_at u = None \<or> us_id u \<in> ran (st_refresh_tokens st) \<Longrightarrow>
    account_step lb ca st (st\<lparr>st_refresh_tokens := tokens(h \<mapsto> us_id u)\<rparr>)"
| join: "us_id u = ca_fresh_id ca \<Longrightarrow> us_deleted_at u = None \<Longrightarrow> \<not> list_ex (same_email (us_email u)) (map snd (st_users st)) \<Longrightarrow>
    account_step lb ca st (put_user u (st\<lparr>st_refresh_tokens := (st_refresh_tokens st)(h \<mapsto> us_id u)\<rparr>))"
| rename: "current_user lb (ca_now ca) (ca_authorization ca) st = Inr cur \<Longrightarrow>
    account_step lb ca st (put_user (cur\<lparr>us_display_name := name\<rparr>) st)"
| rotate: "current_user lb (ca_now ca) (ca_authorization ca) st = Inr cur \<Longrightarrow>
    account_step lb ca st ((put_user (cur\<lparr>us_password_hash := hash, us_auth_version := us_auth_version cur + 1\<rparr>) st)
      \<lparr>st_refresh_tokens := drop_tokens_of (us_id cur) (st_refresh_tokens st)\<rparr>)"
| close: "current_user lb (ca_now ca) (ca_authorization ca) st = Inr cur \<Longrightarrow>
    account_step lb ca st ((put_user (cur\<lparr>us_deleted_at := Some (ca_now ca), us_auth_version := us_auth_version cur + 1\<rparr>) st)
      \<lparr>st_refresh_tokens := drop_tokens_of (us_id cur) (st_refresh_tokens st),
       st_saved_places := (st_saved_places st)(us_id cur := None),
       st_favorite_stops := (st_favorite_stops st)(us_id cur := None)\<rparr>)"
| places: "current_user lb (ca_now ca) (ca_authorization ca) st = Inr cur \<Longrightarrow>
    account_step lb ca st (st\<lparr>st_saved_places := (st_saved_places st)(us_id cur \<mapsto> ps)\<rparr>)"
| favorites: "current_user lb (ca_now ca) (ca_authorization ca) st = Inr cur \<Longrightarrow>
    account_step lb ca st (st\<lparr>st_favorite_stops := (st_favorite_stops st)(us_id cur \<mapsto> fs)\<rparr>)"

lemma stay: "account_step lb ca st st"
  using forget [of "st_refresh_tokens st" st] by simp

section \<open>Every handler is a step\<close>

lemma current_user_map: "current_user lb now header st = Inr u \<Longrightarrow> \<exists>k. map_of (st_users st) k = Some u \<and> us_deleted_at u = None"
  by (auto simp: current_user_def split: option.splits if_splits)

lemma current_user_keyed:
  "keyed st \<Longrightarrow> current_user lb now header st = Inr u \<Longrightarrow> map_of (st_users st) (us_id u) = Some u \<and> us_deleted_at u = None"
  using current_user_map [of lb now header st u] by (auto simp: keyed_def)

lemma update_same: "map_of al k = Some v \<Longrightarrow> AList.update k v al = al"
  by (induction al) (auto split: if_splits)

lemma put_user_same: "map_of (st_users st) (us_id u) = Some u \<Longrightarrow> put_user u st = st"
  by (simp add: put_user_def update_same)

lemma put_user_tokens: "put_user u (st\<lparr>st_refresh_tokens := t\<rparr>) = (put_user u st)\<lparr>st_refresh_tokens := t\<rparr>"
  by (simp add: put_user_def)

lemma modify_user_current: "map_of users k = Some u \<Longrightarrow> modify_user k f users = AList.update k (f u) users"
  by (simp add: modify_user_def)

lemma snd_answer [simp]: "snd (answer f m) = snd m"
  by (cases m; cases "fst m") (auto simp: answer_def)

lemma fst_answer [simp]: "fst (answer f m) = map_sum (\<lambda>e. e) f (fst m)"
  by (cases m; cases "fst m") (auto simp: answer_def)

lemma needs_database_simps [simp]:
  "snd (needs_database lb ca checked message st) = st" "isl (fst (needs_database lb ca checked message st))"
  by (auto simp: needs_database_def authenticated_def and_then_def split: sum.splits)

lemma snd_authenticated [simp]: "snd (authenticated lb ca st) = st"
  by (simp add: authenticated_def)

lemma auth_response_cases:
  obtains "auth_response lb ca u st = (Inl internal_error, st)"
  | s where "auth_response lb ca u st =
      (Inr s, st\<lparr>st_refresh_tokens := (st_refresh_tokens st)(lb_hash_token lb (au_refresh_token s) \<mapsto> us_id u)\<rparr>)"
    "lb_encode_token lb (claims_of lb ca u) = Some (au_access_token s)" "au_user s = public_user_of u"
proof (cases "lb_encode_token lb (claims_of lb ca u)")
  case None
  then show ?thesis by (intro that(1)) (simp add: auth_response_def)
next
  case (Some t)
  then show ?thesis
    by (intro that(2) [of "\<lparr>au_access_token = t, au_refresh_token = ca_fresh_token ca, au_expires_in_seconds = 900,
                au_user = public_user_of u\<rparr>"]) (simp_all add: auth_response_def)
qed

lemma register_step: "account_step lb ca st (snd (register lb ca body st))"
proof (cases "register_check lb ca body st")
  case (Inl e)
  then show ?thesis by (simp add: register_def stay)
next
  case (Inr u)
  then have u: "us_id u = ca_fresh_id ca" "us_deleted_at u = None" "\<not> list_ex (same_email (us_email u)) (map snd (st_users st))"
    by (auto simp: register_check_def Let_def create_user_record_def bind_result_Inr split: if_splits)
  have "account_step lb ca st (put_user u (st\<lparr>st_refresh_tokens := (st_refresh_tokens st)(h \<mapsto> us_id u)\<rparr>))" for h
    using u by (rule join)
  then show ?thesis
    by (cases rule: auth_response_cases [of lb ca u st])
       (simp_all add: register_def register_finish_def Inr stay)
qed

lemma login_check_user:
  assumes "keyed st" and "login_check lb ca body st = Inr u"
  shows "map_of (st_users st) (us_id u) = Some u \<and> us_deleted_at u = None"
proof -
  from assms(2) have f: "find (same_email (lr_email body)) (map snd (st_users st)) = Some u"
    by (auto simp: login_check_def bind_result_Inr ok_or_def split: if_splits option.splits)
  then have "u \<in> set (map snd (st_users st))" and active: "us_deleted_at u = None"
    unfolding find_Some_iff same_email_def by (metis nth_mem)+
  then obtain k where "(k, u) \<in> set (st_users st)" by auto
  with active assms(1) show ?thesis by (metis keyed_def map_of_is_SomeI)
qed

lemma login_step:
  assumes "keyed st"
  shows "account_step lb ca st (snd (login lb ca body st))"
proof (cases "login_check lb ca body st")
  case (Inl e)
  then show ?thesis by (simp add: login_def stay)
next
  case (Inr u)
  note u = login_check_user [OF assms Inr]
  show ?thesis
    by (cases rule: auth_response_cases [of lb ca u st])
       (use Inr u in \<open>auto simp: login_def login_finish_def put_user_same intro: stay intro!: grant\<close>)
qed

lemma refresh_eq:
  "refresh lb ca token st =
     (case bounded_text token ''refresh_token'' 256 of
        Inl e \<Rightarrow> (Inl e, st)
      | Inr _ \<Rightarrow>
          (let h = lb_hash_token lb token; st1 = st\<lparr>st_refresh_tokens := (st_refresh_tokens st)(h := None)\<rparr>
           in case st_refresh_tokens st h of
                None \<Rightarrow> (Inl unauthorized, st1)
              | Some k \<Rightarrow> (case map_of (st_users st) k of
                  None \<Rightarrow> (Inl unauthorized, st1)
                | Some u \<Rightarrow> auth_response lb ca u (put_user u st1))))"
  by (cases "bounded_text token ''refresh_token'' 256")
     (simp_all add: refresh_def ok_or_def Let_def split: option.splits)

lemma refresh_step:
  assumes "keyed st"
  shows "account_step lb ca st (snd (refresh lb ca token st))"
proof (cases "bounded_text token ''refresh_token'' 256")
  case (Inl e)
  then show ?thesis by (simp add: refresh_eq stay)
next
  case (Inr x)
  define h where "h = lb_hash_token lb token"
  define st1 where "st1 = st\<lparr>st_refresh_tokens := (st_refresh_tokens st)(h := None)\<rparr>"
  have less: "(st_refresh_tokens st)(h := None) \<subseteq>\<^sub>m st_refresh_tokens st" by (simp add: map_le_def)
  then have st1: "account_step lb ca st st1" unfolding st1_def by (rule forget)
  have eq: "refresh lb ca token st =
    (case st_refresh_tokens st h of None \<Rightarrow> (Inl unauthorized, st1)
     | Some k \<Rightarrow> (case map_of (st_users st) k of None \<Rightarrow> (Inl unauthorized, st1) | Some u \<Rightarrow> auth_response lb ca u (put_user u st1)))"
    unfolding h_def st1_def using Inr by (simp add: refresh_eq Let_def)
  show ?thesis
  proof (cases "\<exists>k u. st_refresh_tokens st h = Some k \<and> map_of (st_users st) k = Some u")
    case False
    then show ?thesis using eq st1 by (auto split: option.splits)
  next
    case True
    then obtain k u where k: "st_refresh_tokens st h = Some k" "map_of (st_users st) k = Some u" by blast
    with assms have u: "us_id u = k" by (simp add: keyed_def)
    with k have same: "put_user u st1 = st1" by (intro put_user_same) (simp add: st1_def)
    have ran: "us_id u \<in> ran (st_refresh_tokens st)" using k u by (auto simp: ran_def)
    show ?thesis
      by (cases rule: auth_response_cases [of lb ca u st1])
         (use k u eq same st1 grant [of st u, OF _ less, where h = h for h] ran in \<open>auto simp: st1_def\<close>)
  qed
qed

lemma authenticated_chain:
  assumes "\<And>cur. current_user lb (ca_now ca) (ca_authorization ca) st = Inr cur \<Longrightarrow> account_step lb ca st (snd (f cur st))"
  shows "account_step lb ca st (snd (and_then (authenticated lb ca st) f))"
  using assms by (cases "current_user lb (ca_now ca) (ca_authorization ca) st") (auto simp: authenticated_def stay)

lemma check_chain: "(\<And>x. m = Inr x \<Longrightarrow> account_step lb ca st (snd (f x st))) \<Longrightarrow> account_step lb ca st (snd (and_then (m, st) f))"
  by (cases m) (auto simp: stay)

lemma change_password_step: "keyed st \<Longrightarrow> account_step lb ca st (snd (change_password lb ca old new st))"
  unfolding change_password_def
  by (intro check_chain authenticated_chain)
     (use rotate in \<open>auto dest!: current_user_keyed simp: modify_user_current put_user_def\<close>)

lemma delete_me_step: "keyed st \<Longrightarrow> account_step lb ca st (snd (delete_me lb ca st))"
  unfolding delete_me_def
  by (intro check_chain authenticated_chain)
     (use close in \<open>auto dest!: current_user_keyed simp: modify_user_current put_user_def\<close>)

lemma update_me_step: "keyed st \<Longrightarrow> account_step lb ca st (snd (update_me lb ca field st))"
  unfolding update_me_def
  by (intro authenticated_chain)
     (use rename in \<open>auto dest!: current_user_keyed simp: Let_def put_user_def stay split: option.splits\<close>)

lemma handle_step:
  assumes "keyed st"
  shows "account_step lb ca st (snd (handle lb ca request st))"
proof (cases request)
  case (Logout token)
  then show ?thesis by (auto simp: logout_def map_le_def intro!: forget)
next
  case (CreateSavedPlace body)
  then show ?thesis by (auto simp: create_saved_place_def Let_def intro!: authenticated_chain places)
next
  case (DeleteSavedPlace item)
  then show ?thesis by (auto simp: delete_saved_place_def intro!: authenticated_chain places)
next
  case (AddFavoriteStop s)
  then show ?thesis by (auto simp: add_favorite_stop_def Let_def intro!: authenticated_chain favorites)
next
  case (DeleteFavoriteStop item)
  then show ?thesis by (auto simp: delete_favorite_stop_def intro!: authenticated_chain favorites)
next
  case (CompletePasswordReset token new)
  then show ?thesis by (auto intro!: check_chain stay)
qed (use assms in \<open>auto simp: stay register_step login_step refresh_step change_password_step delete_me_step update_me_step
       list_saved_places_def list_favorite_stops_def intro!: authenticated_chain\<close>)

section \<open>Invariants of the store\<close>

text \<open>Active addresses are unique up to ASCII case, and refresh tokens belong to active users.\<close>

definition store_ok :: "account_store \<Rightarrow> bool" where
  "store_ok st \<longleftrightarrow> keyed st \<and>
     (\<forall>k k' u u'. map_of (st_users st) k = Some u \<longrightarrow> map_of (st_users st) k' = Some u' \<longrightarrow>
        us_deleted_at u = None \<longrightarrow> us_deleted_at u' = None \<longrightarrow> lower_ascii (us_email u) = lower_ascii (us_email u') \<longrightarrow> k = k') \<and>
     (\<forall>k \<in> ran (st_refresh_tokens st). \<exists>u. map_of (st_users st) k = Some u \<and> us_deleted_at u = None)"

lemma store_ok_keyed: "store_ok st \<Longrightarrow> keyed st"
  by (simp add: store_ok_def)

lemma store_ok_email:
  "store_ok st \<Longrightarrow> map_of (st_users st) k = Some u \<Longrightarrow> map_of (st_users st) k' = Some u' \<Longrightarrow> us_deleted_at u = None \<Longrightarrow>
   us_deleted_at u' = None \<Longrightarrow> lower_ascii (us_email u) = lower_ascii (us_email u') \<Longrightarrow> k = k'"
  unfolding store_ok_def by blast

lemma store_ok_token:
  "store_ok st \<Longrightarrow> st_refresh_tokens st h = Some k \<Longrightarrow> \<exists>u. map_of (st_users st) k = Some u \<and> us_deleted_at u = None"
  unfolding store_ok_def by (meson ranI)

lemma users_put [simp]: "map_of (st_users (put_user u st)) = (map_of (st_users st))(us_id u \<mapsto> u)"
  by (simp add: put_user_def update_conv')

lemma keyed_put: "keyed st \<Longrightarrow> keyed (put_user u st)"
  by (simp add: keyed_def distinct_update put_user_def update_conv')

lemma put_user_frame [simp]:
  "st_refresh_tokens (put_user u st) = st_refresh_tokens st" "st_saved_places (put_user u st) = st_saved_places st"
  "st_favorite_stops (put_user u st) = st_favorite_stops st"
  by (simp_all add: put_user_def)

lemma keyed_cong: "st_users st' = st_users st \<Longrightarrow> keyed st' = keyed st"
  by (simp add: keyed_def)

lemma ran_map_le: "f \<subseteq>\<^sub>m g \<Longrightarrow> ran f \<subseteq> ran g"
  by (force simp: ran_def map_le_def dom_def)

lemma ran_drop_tokens: "ran (drop_tokens_of k tokens) = ran tokens - {k}"
proof (intro equalityI subsetI)
  fix x
  assume "x \<in> ran tokens - {k}"
  then obtain h where "tokens h = Some x" "x \<noteq> k" by (auto simp: ran_def)
  then show "x \<in> ran (drop_tokens_of k tokens)" by (intro ranI [of _ h]) (simp add: drop_tokens_of_def)
qed (auto simp: ran_def drop_tokens_of_def split: if_splits)

lemma store_ok_cong:
  "st_users st' = st_users st \<Longrightarrow> st_refresh_tokens st' = st_refresh_tokens st \<Longrightarrow> store_ok st' = store_ok st"
  by (simp only: store_ok_def keyed_def)

lemma store_okI:
  assumes "keyed st"
    and "\<And>k k' u u'. map_of (st_users st) k = Some u \<Longrightarrow> map_of (st_users st) k' = Some u' \<Longrightarrow> us_deleted_at u = None \<Longrightarrow>
      us_deleted_at u' = None \<Longrightarrow> lower_ascii (us_email u) = lower_ascii (us_email u') \<Longrightarrow> k = k'"
    and "\<And>k. k \<in> ran (st_refresh_tokens st) \<Longrightarrow> \<exists>u. map_of (st_users st) k = Some u \<and> us_deleted_at u = None"
  shows "store_ok st"
  using assms unfolding store_ok_def by blast

lemma store_ok_ran:
  "store_ok st \<Longrightarrow> k \<in> ran (st_refresh_tokens st) \<Longrightarrow> \<exists>u. map_of (st_users st) k = Some u \<and> us_deleted_at u = None"
  unfolding store_ok_def by blast

text \<open>An edit of one's own record that does not bring a deleted account back.\<close>

lemma store_ok_edit:
  assumes ok: "store_ok st" and cur: "map_of (st_users st) (us_id cur) = Some cur" "us_deleted_at cur = None"
    and same: "us_id u = us_id cur" "us_email u = us_email cur"
    and tokens: "ran tokens \<subseteq> ran (st_refresh_tokens st) - (if us_deleted_at u = None then {} else {us_id cur})"
  shows "store_ok ((put_user u st)\<lparr>st_refresh_tokens := tokens\<rparr>)"
proof -
  have "keyed ((put_user u st)\<lparr>st_refresh_tokens := tokens\<rparr>)"
    by (rule iffD2 [OF keyed_cong keyed_put [OF store_ok_keyed [OF ok]]]) simp
  moreover have "k = k'"
    if "((map_of (st_users st))(us_id cur \<mapsto> u)) k = Some v" "((map_of (st_users st))(us_id cur \<mapsto> u)) k' = Some v'"
      "us_deleted_at v = None" "us_deleted_at v' = None" "lower_ascii (us_email v) = lower_ascii (us_email v')" for k k' v v'
  proof -
    define old where "old = (\<lambda>k. if k = us_id cur then cur else the (map_of (st_users st) k))"
    have old: "map_of (st_users st) j = Some (old j) \<and> us_deleted_at (old j) = None \<and> us_email (old j) = us_email w"
      if "((map_of (st_users st))(us_id cur \<mapsto> u)) j = Some w" "us_deleted_at w = None" for j w
      using that cur same by (cases "j = us_id cur") (simp_all add: old_def)
    show ?thesis
      using store_ok_email [OF ok, of k "old k" k' "old k'"] old [OF that(1,3)] old [OF that(2,4)] that(5) by simp
  qed
  moreover have "\<exists>v. ((map_of (st_users st))(us_id cur \<mapsto> u)) k = Some v \<and> us_deleted_at v = None" if "k \<in> ran tokens" for k
  proof -
    have "k \<in> ran (st_refresh_tokens st)" using that tokens by blast
    then obtain v where v: "map_of (st_users st) k = Some v" "us_deleted_at v = None" by (metis ok store_ok_ran)
    moreover have "k \<noteq> us_id cur" if "us_deleted_at u \<noteq> None" using tokens \<open>k \<in> ran tokens\<close> subsetD [OF tokens, of k] that by simp
    ultimately show ?thesis by (cases "us_deleted_at u"; cases "k = us_id cur") auto
  qed
  ultimately show ?thesis by (intro store_okI) (simp_all add: same(1) del: fun_upd_apply)
qed

lemma store_ok_step:
  assumes ok: "store_ok st" and step: "account_step lb ca st st'"
  shows "store_ok st'"
  using step
proof cases
  case (forget tokens)
  with ok ran_map_le [of tokens "st_refresh_tokens st"] show ?thesis unfolding store_ok_def keyed_def by auto
next
  case (grant u tokens h)
  have "us_deleted_at u = None" using grant(2,4) store_ok_ran [OF ok, of "us_id u"] by auto
  then have "\<exists>v. map_of (st_users st) k = Some v \<and> us_deleted_at v = None" if "k \<in> ran (tokens(h \<mapsto> us_id u))" for k
  proof (cases "k = us_id u")
    case False
    with that have "k \<in> ran tokens" by (auto simp: ran_def split: if_splits)
    with ran_map_le [OF grant(3)] show ?thesis by (intro store_ok_ran [OF ok]) blast
  qed (use grant(2) \<open>us_deleted_at u = None\<close> in simp)
  with store_ok_email [OF ok] keyed_cong [of st' st] store_ok_keyed [OF ok] grant(1) show ?thesis
    by (intro store_okI) (auto simp del: fun_upd_apply)
next
  case (join u h)
  have "keyed st'"
    using keyed_put [OF store_ok_keyed [OF ok], of u] join(1) keyed_cong [of st' "put_user u st"] by (simp add: put_user_def)
  moreover have fresh: "lower_ascii (us_email v) \<noteq> lower_ascii (us_email u)"
    if "map_of (st_users st) k = Some v" "us_deleted_at v = None" for k v
    using that join(4) map_of_SomeD [OF that(1)] by (force simp: list_ex_iff same_email_def)
  have "k = k'"
    if "((map_of (st_users st))(us_id u \<mapsto> u)) k = Some v" "((map_of (st_users st))(us_id u \<mapsto> u)) k' = Some v'"
      "us_deleted_at v = None" "us_deleted_at v' = None" "lower_ascii (us_email v) = lower_ascii (us_email v')" for k k' v v'
    using that store_ok_email [OF ok, of k v k' v'] fresh [of k v] fresh [of k' v'] by (auto split: if_splits)
  moreover have "\<exists>v. ((map_of (st_users st))(us_id u \<mapsto> u)) k = Some v \<and> us_deleted_at v = None"
    if "k \<in> ran ((st_refresh_tokens st)(h \<mapsto> us_id u))" for k
    using that join(3) store_ok_token [OF ok, of _ k] by (auto simp: ran_def split: if_splits)
  ultimately show ?thesis by (intro store_okI) (simp_all add: join(1) del: fun_upd_apply)
next
  case (rename cur name)
  note c = current_user_keyed [OF store_ok_keyed [OF ok] rename(2)]
  from store_ok_edit [OF ok, of cur "cur\<lparr>us_display_name := name\<rparr>" "st_refresh_tokens st"] c rename(1)
  show ?thesis by (simp add: put_user_def)
next
  case (rotate cur hash)
  note c = current_user_keyed [OF store_ok_keyed [OF ok] rotate(2)]
  from store_ok_edit [OF ok, of cur "cur\<lparr>us_password_hash := hash, us_auth_version := us_auth_version cur + 1\<rparr>"
      "drop_tokens_of (us_id cur) (st_refresh_tokens st)"] c rotate(1)
  show ?thesis by (auto simp: ran_drop_tokens)
next
  case (close cur)
  note c = current_user_keyed [OF store_ok_keyed [OF ok] close(2)]
  from store_ok_edit [OF ok, of cur "cur\<lparr>us_deleted_at := Some (ca_now ca), us_auth_version := us_auth_version cur + 1\<rparr>"
      "drop_tokens_of (us_id cur) (st_refresh_tokens st)"] c
  have "store_ok ((put_user (cur\<lparr>us_deleted_at := Some (ca_now ca), us_auth_version := us_auth_version cur + 1\<rparr>) st)
      \<lparr>st_refresh_tokens := drop_tokens_of (us_id cur) (st_refresh_tokens st)\<rparr>)" by (simp add: ran_drop_tokens)
  then show ?thesis by (rule iffD1 [OF store_ok_cong, rotated 2]) (simp_all add: close(1))
qed (rule iffD2 [OF store_ok_cong ok]; simp)+

text \<open>Invariants along a run.\<close>

lemma after_induct:
  assumes "store_ok st" and "P st"
    and "\<And>st st' ca request. store_ok st \<Longrightarrow> P st \<Longrightarrow> (ca, request) \<in> set requests \<Longrightarrow> account_step lb ca st st' \<Longrightarrow> P st'"
  shows "store_ok (after lb requests st) \<and> P (after lb requests st)"
  using assms
proof (induction requests arbitrary: st)
  case (Cons x xs)
  obtain ca request where x: "x = (ca, request)" by fastforce
  obtain r st1 where h: "handle lb ca request st = (r, st1)" by fastforce
  have step: "account_step lb ca st st1" using handle_step [OF store_ok_keyed [OF Cons.prems(1)], of lb ca request] h by simp
  have "store_ok (after lb xs st1) \<and> P (after lb xs st1)"
  proof (rule Cons.IH)
    show "store_ok st1" using Cons.prems(1) step by (rule store_ok_step)
    show "P st1" using Cons.prems(3) [OF Cons.prems(1,2), of ca request st1] step x by simp
  next
    fix st st' ca request
    assume "store_ok st" "P st" "(ca, request) \<in> set xs" "account_step lb ca st st'"
    then show "P st'" using Cons.prems(3) [of st ca request st'] by simp
  qed
  then show ?case by (cases "serve lb xs st1") (simp add: x h)
qed simp

definition reachable :: "library \<Rightarrow> account_store \<Rightarrow> bool" where
  "reachable lb st \<longleftrightarrow> (\<exists>requests. st = after lb requests no_accounts)"

lemma reachable_ok:
  assumes "reachable lb st"
  shows "store_ok st"
proof -
  have "store_ok no_accounts" by (simp add: store_ok_def keyed_def no_accounts_def)
  from after_induct [OF this, of "\<lambda>_. True"] assms show ?thesis unfolding reachable_def by blast
qed

end
