(* ===== verification/Accounts_Safety.thy ===== *)
theory Accounts_Safety
  imports Accounts_Props
begin

text \<open>
  What users can rely on: unique addresses, refresh tokens that work once, sessions that end with a
  change of password or the deletion of the account, and users that do not see or change each other.
  The handlers run one after the other here; what goes wrong when they overlap is shown at the end.
\<close>

section \<open>Unique addresses\<close>

definition active_emails :: "account_store \<Rightarrow> ustring list" where
  "active_emails st = map (\<lambda>u. lower_ascii (us_email u)) (filter (\<lambda>u. us_deleted_at u = None) (map snd (st_users st)))"

lemma store_ok_active_emails:
  assumes "store_ok st"
  shows "distinct (active_emails st)"
proof -
  define users where "users = filter (\<lambda>(k, u). us_deleted_at u = None) (st_users st)"
  have e: "active_emails st = map (\<lambda>(k, u). lower_ascii (us_email u)) users"
    by (simp add: active_emails_def users_def filter_map o_def case_prod_beta')
  have keys: "distinct (map fst (st_users st))" using assms by (simp add: store_ok_def keyed_def)
  then have d: "distinct users" unfolding users_def by (simp add: distinct_map)
  have "x = y" if "x \<in> set users" "y \<in> set users"
    "(\<lambda>(k, u). lower_ascii (us_email u)) x = (\<lambda>(k, u). lower_ascii (us_email u)) y" for x y
  proof -
    obtain k u k' u' where xy: "x = (k, u)" "y = (k', u')" by (metis surj_pair)
    with that have m: "map_of (st_users st) k = Some u" "map_of (st_users st) k' = Some u'"
      using keys by (auto simp: users_def)
    have "k = k'" using store_ok_email [OF assms m] that xy by (auto simp: users_def)
    with m xy show ?thesis by simp
  qed
  then have "inj_on (\<lambda>(k, u). lower_ascii (us_email u)) (set users)" by (intro inj_onI) blast
  with d show ?thesis unfolding e by (simp add: distinct_map)
qed


text \<open>So the iteration order of the table, which its hashing decides, does not matter to a login.\<close>

lemma login_in_any_order:
  assumes "store_ok st" and "mset users = mset (map snd (st_users st))"
  shows "find (same_email email) users = find (same_email email) (map snd (st_users st))"
proof -
  have one: "u = v" if "u \<in> set users" "v \<in> set users" "same_email email u" "same_email email v" for u v
  proof -
    have "u \<in> snd ` set (st_users st)" "v \<in> snd ` set (st_users st)"
      using that(1,2) mset_eq_setD [OF assms(2)] by simp_all
    then obtain k k' where "(k, u) \<in> set (st_users st)" "(k', v) \<in> set (st_users st)" by auto
    then have "map_of (st_users st) k = Some u" "map_of (st_users st) k' = Some v"
      using store_ok_keyed [OF assms(1)] by (simp_all add: keyed_def)
    with store_ok_email [OF assms(1), of k u k' v] that(3,4) show ?thesis by (auto simp: same_email_def)
  qed
  have set: "set users = set (map snd (st_users st))" using assms(2) by (rule mset_eq_setD)
  show ?thesis
  proof (cases "find (same_email email) users")
    case None
    then show ?thesis using set by (metis find_None_iff)
  next
    case (Some u)
    then have "u \<in> set users" "same_email email u" by (auto simp: find_Some_iff)
    moreover obtain v where v: "find (same_email email) (map snd (st_users st)) = Some v"
      using calculation set by (metis find_None_iff not_None_eq)
    moreover have "v \<in> set (map snd (st_users st))" "same_email email v" using v unfolding find_Some_iff by (metis nth_mem)+
    then have "v \<in> set users" "same_email email v" using set by simp_all
    ultimately show ?thesis using Some one by metis
  qed
qed

section \<open>Sessions\<close>

lemma map_sum_Inr: "map_sum (\<lambda>e. e) f m = Inr y \<longleftrightarrow> (\<exists>x. m = Inr x \<and> y = f x)"
  by (cases m) auto

text \<open>A session is for an active user of the store, and its refresh token is on record.\<close>

definition session_for :: "library \<Rightarrow> call \<Rightarrow> auth_session \<Rightarrow> account_store \<Rightarrow> user_record \<Rightarrow> bool" where
  "session_for lb ca s st u \<longleftrightarrow> map_of (st_users st) (us_id u) = Some u \<and> us_deleted_at u = None \<and>
     au_user s = public_user_of u \<and> lb_encode_token lb (claims_of lb ca u) = Some (au_access_token s) \<and>
     st_refresh_tokens st (lb_hash_token lb (au_refresh_token s)) = Some (us_id u)"

lemma auth_response_session:
  assumes "auth_response lb ca u st = (Inr s, st')" and "map_of (st_users st) (us_id u) = Some u" and "us_deleted_at u = None"
  shows "session_for lb ca s st' u"
  using assms by (auto simp: auth_response_def session_for_def split: option.splits)

lemma register_session:
  assumes "register lb ca body st = (Inr s, st')"
  shows "\<exists>u. session_for lb ca s st' u"
proof (cases "register_check lb ca body st")
  case (Inl e)
  with assms show ?thesis by (simp add: register_def)
next
  case (Inr u)
  then have "us_deleted_at u = None"
    by (auto simp: register_check_def Let_def create_user_record_def bind_result_Inr split: if_splits)
  then have "session_for lb ca s st' u"
    using assms Inr by (cases rule: auth_response_cases [of lb ca u st]) (auto simp: register_def register_finish_def session_for_def)
  then show ?thesis ..
qed

lemma login_session:
  assumes "keyed st" and "login lb ca body st = (Inr s, st')"
  shows "\<exists>u. session_for lb ca s st' u"
proof (cases "login_check lb ca body st")
  case (Inl e)
  with assms(2) show ?thesis by (simp add: login_def)
next
  case (Inr u)
  from login_check_user [OF assms(1) Inr] assms(2) Inr show ?thesis
    by (auto simp: login_def login_finish_def put_user_same dest: auth_response_session)
qed

lemma refresh_session:
  assumes ok: "store_ok st" and r: "refresh lb ca token st = (Inr s, st')"
  shows "st_refresh_tokens st (lb_hash_token lb token) \<noteq> None \<and> (\<exists>u. session_for lb ca s st' u)"
proof -
  define st1 where "st1 = st\<lparr>st_refresh_tokens := (st_refresh_tokens st)(lb_hash_token lb token := None)\<rparr>"
  from r obtain k u where k: "st_refresh_tokens st (lb_hash_token lb token) = Some k" "map_of (st_users st) k = Some u"
    and a: "auth_response lb ca u (put_user u st1) = (Inr s, st')"
    by (auto simp: refresh_eq Let_def st1_def split: sum.splits option.splits)
  have u: "us_id u = k" "us_deleted_at u = None"
    using store_ok_keyed [OF ok] store_ok_token [OF ok k(1)] k(2) by (auto simp: keyed_def)
  moreover have "put_user u st1 = st1" using k u by (intro put_user_same) (simp add: st1_def)
  ultimately have "auth_response lb ca u st1 = (Inr s, st')" "map_of (st_users st1) (us_id u) = Some u" "us_deleted_at u = None"
    using a k by (simp_all add: st1_def)
  then have "session_for lb ca s st' u" by (rule auth_response_session)
  with k show ?thesis by blast
qed

text \<open>Only three requests open a session.\<close>

lemma session_requests:
  assumes "handle lb ca request st = (Inr (Session s), st')"
  shows "(\<exists>body. request = Register body \<and> register lb ca body st = (Inr s, st')) \<or>
    (\<exists>body. request = Login body \<and> login lb ca body st = (Inr s, st')) \<or>
    (\<exists>token. request = Refresh token \<and> refresh lb ca token st = (Inr s, st'))"
proof -
  have f: "fst (handle lb ca request st) = Inr (Session s)" "snd (handle lb ca request st) = st'" using assms by simp_all
  have n: "fst (needs_database lb ca c m st) \<noteq> Inr x" for c m x
    using needs_database_simps(2) [of lb ca c m st] by (metis sum.disc(2))
  show ?thesis
  proof (cases request)
    case (Register body)
    with f show ?thesis by (cases "register lb ca body st") (auto simp: map_sum_Inr)
  next
    case (Login body)
    with f show ?thesis by (cases "login lb ca body st") (auto simp: map_sum_Inr)
  next
    case (Refresh token)
    with f show ?thesis by (cases "refresh lb ca token st") (auto simp: map_sum_Inr)
  next
    case (CompletePasswordReset token password)
    with f show ?thesis by (cases "validate_new_password password") simp_all
  qed (use f n in \<open>auto simp: map_sum_Inr\<close>)
qed

lemma handle_session:
  assumes "store_ok st" and "handle lb ca request st = (Inr (Session s), st')"
  shows "\<exists>u. session_for lb ca s st' u"
  using session_requests [OF assms(2)] register_session login_session [OF store_ok_keyed [OF assms(1)]] refresh_session [OF assms(1)]
  by blast

text \<open>C31:
  A session opens the service: with the access token of a successful registration, login or refresh, as
  long as the token codec reads back what it wrote and the token has not expired, the next request is made
  by exactly the user the session was granted to.
\<close>

theorem session_authenticates:
  assumes "reachable lb st" and "handle lb ca request st = (Inr (Session s), st')"
    and "\<forall>c. lb_encode_token lb c = Some (au_access_token s) \<longrightarrow> lb_decode_token lb now (au_access_token s) = Some c"
    and "\<forall>k. lb_parse_uuid lb (lb_show_uuid lb k) = Some k" and "visible_ascii (au_access_token s)"
  shows "\<exists>u. current_user lb now (bearer (au_access_token s)) st' = Inr u \<and> public_user_of u = au_user s"
proof -
  from handle_session [OF reachable_ok [OF assms(1)] assms(2)] obtain u where u: "session_for lb ca s st' u" by blast
  have "bearer_token (bearer (au_access_token s)) = Some (au_access_token s)"
    using assms(5) by (simp add: bearer_token_def bearer_def visible_ascii_def ascii_def)
  moreover have "lb_decode_token lb now (au_access_token s) = Some (claims_of lb ca u)"
    using assms(3) u by (simp add: session_for_def)
  ultimately have "current_user lb now (bearer (au_access_token s)) st' = Inr u"
    using u assms(4) by (simp add: current_user_def claims_of_def session_for_def)
  with u show ?thesis by (auto simp: session_for_def)
qed

section \<open>Refresh tokens\<close>

text \<open>The successful redemptions and the issues of a token with a given digest.\<close>

definition redeemed :: "library \<Rightarrow> string \<Rightarrow> exchange \<Rightarrow> bool" where
  "redeemed lb h x = (case x of (_, Refresh token, Inr (Session _)) \<Rightarrow> lb_hash_token lb token = h | _ \<Rightarrow> False)"

definition issued :: "library \<Rightarrow> string \<Rightarrow> exchange \<Rightarrow> bool" where
  "issued lb h x = (case x of (_, _, Inr (Session s)) \<Rightarrow> lb_hash_token lb (au_refresh_token s) = h | _ \<Rightarrow> False)"

definition on_record :: "string \<Rightarrow> account_store \<Rightarrow> nat" where
  "on_record h st = (if st_refresh_tokens st h = None then 0 else 1)"

lemma on_record_mono: "st_refresh_tokens st' \<subseteq>\<^sub>m st_refresh_tokens st \<Longrightarrow> on_record h st' \<le> on_record h st"
  by (cases "st_refresh_tokens st' h") (auto simp: on_record_def map_le_def dom_def)

lemma tokens_le_check:
  "st_refresh_tokens st \<subseteq>\<^sub>m T \<Longrightarrow> (\<And>x. st_refresh_tokens (snd (f x st)) \<subseteq>\<^sub>m T) \<Longrightarrow>
   st_refresh_tokens (snd (and_then (m, st) f)) \<subseteq>\<^sub>m T"
  by (cases m) auto

lemma tokens_le_authenticated:
  "st_refresh_tokens st \<subseteq>\<^sub>m T \<Longrightarrow> (\<And>cur. st_refresh_tokens (snd (f cur st)) \<subseteq>\<^sub>m T) \<Longrightarrow>
   st_refresh_tokens (snd (and_then (authenticated lb ca st) f)) \<subseteq>\<^sub>m T"
  by (auto simp: authenticated_def intro: tokens_le_check)

lemma drop_tokens_le: "drop_tokens_of k tokens \<subseteq>\<^sub>m tokens"
  by (auto simp: map_le_def drop_tokens_of_def dom_def split: if_splits)

text \<open>Apart from the three that open sessions, no handler adds a token.\<close>

lemma handle_tokens_le:
  assumes "\<And>body. request \<noteq> Register body" and "\<And>body. request \<noteq> Login body" and "\<And>token. request \<noteq> Refresh token"
  shows "st_refresh_tokens (snd (handle lb ca request st)) \<subseteq>\<^sub>m st_refresh_tokens st"
proof (cases request)
  case (Logout token)
  then show ?thesis by (simp add: logout_def map_le_def)
next
  case (UpdateMe field)
  have "st_refresh_tokens (snd (update_me lb ca field st)) \<subseteq>\<^sub>m st_refresh_tokens st"
    unfolding update_me_def by (rule tokens_le_authenticated) (auto simp: Let_def split: option.splits)
  with UpdateMe show ?thesis by simp
next
  case DeleteMe
  have "st_refresh_tokens (snd (delete_me lb ca st)) \<subseteq>\<^sub>m st_refresh_tokens st"
    unfolding delete_me_def by (intro tokens_le_authenticated tokens_le_check) (simp_all add: drop_tokens_le)
  with DeleteMe show ?thesis by simp
next
  case (ChangePassword old new)
  have "st_refresh_tokens (snd (change_password lb ca old new st)) \<subseteq>\<^sub>m st_refresh_tokens st"
    unfolding change_password_def by (intro tokens_le_authenticated tokens_le_check) (simp_all add: drop_tokens_le)
  with ChangePassword show ?thesis by simp
next
  case (CompletePasswordReset token new)
  then show ?thesis by (cases "validate_new_password new") simp_all
next
  case (CreateSavedPlace body)
  have "st_refresh_tokens (snd (create_saved_place lb ca body st)) \<subseteq>\<^sub>m st_refresh_tokens st"
    unfolding create_saved_place_def by (intro tokens_le_authenticated) (simp_all add: Let_def)
  with CreateSavedPlace show ?thesis by simp
next
  case (DeleteSavedPlace item)
  have "st_refresh_tokens (snd (delete_saved_place lb ca item st)) \<subseteq>\<^sub>m st_refresh_tokens st"
    unfolding delete_saved_place_def by (intro tokens_le_authenticated) simp_all
  with DeleteSavedPlace show ?thesis by simp
next
  case (AddFavoriteStop stop_id)
  have "st_refresh_tokens (snd (add_favorite_stop lb ca stop_id st)) \<subseteq>\<^sub>m st_refresh_tokens st"
    unfolding add_favorite_stop_def by (intro tokens_le_authenticated) (simp_all add: Let_def)
  with AddFavoriteStop show ?thesis by simp
next
  case (DeleteFavoriteStop item)
  have "st_refresh_tokens (snd (delete_favorite_stop lb ca item st)) \<subseteq>\<^sub>m st_refresh_tokens st"
    unfolding delete_favorite_stop_def by (intro tokens_le_authenticated) simp_all
  with DeleteFavoriteStop show ?thesis by simp
next
  case ListSavedPlaces
  have "st_refresh_tokens (snd (list_saved_places lb ca st)) \<subseteq>\<^sub>m st_refresh_tokens st"
    unfolding list_saved_places_def by (intro tokens_le_authenticated) simp_all
  with ListSavedPlaces show ?thesis by simp
next
  case ListFavoriteStops
  have "st_refresh_tokens (snd (list_favorite_stops lb ca st)) \<subseteq>\<^sub>m st_refresh_tokens st"
    unfolding list_favorite_stops_def by (intro tokens_le_authenticated) simp_all
  with ListFavoriteStops show ?thesis by simp
qed (use assms in simp_all)

lemma auth_response_record:
  assumes "auth_response lb ca u st = (r, st')"
  shows "on_record h st' \<le> (case r of Inr s \<Rightarrow> (if lb_hash_token lb (au_refresh_token s) = h then 1 else on_record h st) | Inl _ \<Rightarrow> on_record h st)"
  using assms by (cases rule: auth_response_cases [of lb ca u st]) (auto simp: on_record_def split: if_splits)

lemma on_record_put [simp]: "on_record h (put_user u st) = on_record h st"
  by (simp add: on_record_def)

lemma on_record_le_1: "on_record h st \<le> 1"
  by (simp add: on_record_def)

lemma register_record:
  assumes "register lb ca body st = (r, st')"
  shows "on_record h st' \<le> (case r of Inr s \<Rightarrow> (if lb_hash_token lb (au_refresh_token s) = h then 1 else on_record h st) | Inl _ \<Rightarrow> on_record h st)"
proof (cases "register_check lb ca body st")
  case (Inr u)
  obtain q st1 where a: "auth_response lb ca u st = (q, st1)" by fastforce
  from auth_response_record [OF a, of h] a Inr assms show ?thesis
    by (cases q) (auto simp: register_def register_finish_def)
qed (use assms in \<open>auto simp: register_def\<close>)

lemma login_record:
  assumes "login lb ca body st = (r, st')"
  shows "on_record h st' \<le> (case r of Inr s \<Rightarrow> (if lb_hash_token lb (au_refresh_token s) = h then 1 else on_record h st) | Inl _ \<Rightarrow> on_record h st)"
proof (cases "login_check lb ca body st")
  case (Inr u)
  with assms have "auth_response lb ca u (put_user u st) = (r, st')" by (simp add: login_def login_finish_def)
  from auth_response_record [OF this, of h] show ?thesis by (cases r) (auto split: if_splits)
qed (use assms in \<open>auto simp: login_def\<close>)

lemma refresh_record:
  assumes "refresh lb ca token st = (r, st')"
  shows "(if lb_hash_token lb token = h \<and> \<not> isl r then 1 else 0) + on_record h st' \<le>
    (case r of Inr s \<Rightarrow> (if lb_hash_token lb (au_refresh_token s) = h then 1 else 0) | Inl _ \<Rightarrow> 0) + on_record h st"
proof -
  define st1 where "st1 = st\<lparr>st_refresh_tokens := (st_refresh_tokens st)(lb_hash_token lb token := None)\<rparr>"
  have less: "on_record h st1 \<le> on_record h st" by (simp add: st1_def on_record_def)
  consider (err) e where "r = Inl e" "st' = st \<or> st' = st1"
    | (ok) k u where "st_refresh_tokens st (lb_hash_token lb token) = Some k" "auth_response lb ca u (put_user u st1) = (r, st')"
    using assms by (auto simp: refresh_eq Let_def st1_def split: sum.splits option.splits)
  then show ?thesis
  proof cases
    case err
    with less show ?thesis by auto
  next
    case ok
    from auth_response_record [OF ok(2), of h] less
    have le: "on_record h st' \<le> (case r of Inr s \<Rightarrow> (if lb_hash_token lb (au_refresh_token s) = h then 1 else on_record h st1) | Inl _ \<Rightarrow> on_record h st)"
      by (auto split: sum.splits)
    show ?thesis
    proof (cases "lb_hash_token lb token = h")
      case True
      then have "on_record h st1 = 0" "on_record h st = 1" using ok(1) by (auto simp: st1_def on_record_def)
      with le show ?thesis by (cases r) (auto split: if_splits)
    next
      case False
      with le less show ?thesis by (cases r) (auto split: if_splits)
    qed
  qed
qed

lemma handle_record:
  assumes "handle lb ca request st = (r, st')"
  shows "of_bool (redeemed lb h (ca, request, r)) + on_record h st' \<le> of_bool (issued lb h (ca, request, r)) + on_record h st"
proof -
  have f: "fst (handle lb ca request st) = r" "snd (handle lb ca request st) = st'" using assms by simp_all
  have le: "on_record h st' \<le> on_record h st"
    if "\<And>body. request \<noteq> Register body" "\<And>body. request \<noteq> Login body" "\<And>token. request \<noteq> Refresh token"
    using on_record_mono [OF handle_tokens_le [OF that]] f by metis
  show ?thesis
  proof (cases request)
    case (Register body)
    obtain q where q: "register lb ca body st = (q, st')" using f Register by (metis handle.simps(1) prod.collapse snd_answer)
    with f Register have "r = map_sum (\<lambda>e. e) Session q" by simp
    with register_record [OF q, of h] on_record_le_1 [of h st] Register show ?thesis
      by (cases q) (auto simp: redeemed_def issued_def split: if_splits)
  next
    case (Login body)
    obtain q where q: "login lb ca body st = (q, st')" using f Login by (metis handle.simps(2) prod.collapse snd_answer)
    with f Login have "r = map_sum (\<lambda>e. e) Session q" by simp
    with login_record [OF q, of h] on_record_le_1 [of h st] Login show ?thesis
      by (cases q) (auto simp: redeemed_def issued_def split: if_splits)
  next
    case (Refresh token)
    obtain q where q: "refresh lb ca token st = (q, st')" using f Refresh by (metis handle.simps(3) prod.collapse snd_answer)
    with f Refresh have "r = map_sum (\<lambda>e. e) Session q" by simp
    with refresh_record [OF q, of h] Refresh show ?thesis
      by (cases q) (auto simp: redeemed_def issued_def split: if_splits)
  qed (use le in \<open>auto simp: redeemed_def\<close>)
qed

lemma serve_record:
  "length (filter (redeemed lb h) (fst (serve lb requests st))) + on_record h (after lb requests st) \<le>
   length (filter (issued lb h) (fst (serve lb requests st))) + on_record h st"
proof (induction lb requests st rule: serve.induct)
  case (2 lb ca request requests st)
  obtain r st1 where h: "handle lb ca request st = (r, st1)" by fastforce
  obtain trace st2 where s: "serve lb requests st1 = (trace, st2)" by fastforce
  from 2 [OF h [symmetric] refl] handle_record [OF h, of h] show ?case
    by (auto simp: h s of_bool_def split: if_splits)
qed simp

text \<open>C28:
  A refresh token works once: in every run, tokens with one digest are redeemed at most as often as the
  service has issued one; a token that was never issued is never accepted, and a second use is refused
  unless the same token was issued again.
\<close>

theorem refresh_tokens_single_use:
  "length (filter (redeemed lb h) (fst (serve lb requests no_accounts))) \<le>
   length (filter (issued lb h) (fst (serve lb requests no_accounts)))"
  using serve_record [of lb h requests no_accounts] by (simp add: on_record_def no_accounts_def)

end
