(* ===== verification/Accounts_Revocation.thy ===== *)
theory Accounts_Revocation
  imports Accounts_Safety
begin

text \<open>
  The end of sessions and of accounts, the separation of users, and what happens when two handlers
  overlap. A change of password raises the version of the account, which no request lowers; every
  access token carries the version of its time.
\<close>

section \<open>Versions and deletions are for good\<close>

lemma version_step:
  assumes ok: "store_ok st" and step: "account_step lb ca st st'" and u: "map_of (st_users st) k = Some u"
    and other: "ca_fresh_id ca \<noteq> k"
  shows "\<exists>u'. map_of (st_users st') k = Some u' \<and> us_auth_version u \<le> us_auth_version u' \<and>
    (us_deleted_at u \<noteq> None \<longrightarrow> us_deleted_at u' \<noteq> None)"
proof -
  have cur: "map_of (st_users st) (us_id cur) = Some cur \<and> us_deleted_at cur = None"
    if "current_user lb (ca_now ca) (ca_authorization ca) st = Inr cur" for cur
    by (rule current_user_keyed [OF store_ok_keyed [OF ok] that])
  from step show ?thesis
  proof cases
    case (rename c name)
    with cur [OF rename(2)] u show ?thesis by auto
  next
    case (rotate c hash)
    with cur [OF rotate(2)] u show ?thesis by auto
  next
    case (close c)
    with cur [OF close(2)] u show ?thesis by auto
  qed (use u other in auto)
qed

lemma version_kept:
  assumes "store_ok st" and "map_of (st_users st) k = Some u" and "\<forall>(ca, request) \<in> set requests. ca_fresh_id ca \<noteq> k"
  shows "store_ok (after lb requests st) \<and> (\<exists>u'. map_of (st_users (after lb requests st)) k = Some u' \<and>
    us_auth_version u \<le> us_auth_version u' \<and> (us_deleted_at u \<noteq> None \<longrightarrow> us_deleted_at u' \<noteq> None))"
proof (rule after_induct [where P = "\<lambda>st. \<exists>u'. map_of (st_users st) k = Some u' \<and>
    us_auth_version u \<le> us_auth_version u' \<and> (us_deleted_at u \<noteq> None \<longrightarrow> us_deleted_at u' \<noteq> None)"])
  fix st1 st2 ca request
  assume ok: "store_ok st1" and prev: "\<exists>u'. map_of (st_users st1) k = Some u' \<and> us_auth_version u \<le> us_auth_version u' \<and>
      (us_deleted_at u \<noteq> None \<longrightarrow> us_deleted_at u' \<noteq> None)"
    and "(ca, request) \<in> set requests" and step: "account_step lb ca st1 st2"
  then have "ca_fresh_id ca \<noteq> k" using assms(3) by auto
  with prev version_step [OF ok step] show "\<exists>u'. map_of (st_users st2) k = Some u' \<and> us_auth_version u \<le> us_auth_version u' \<and>
      (us_deleted_at u \<noteq> None \<longrightarrow> us_deleted_at u' \<noteq> None)" by (meson order_trans)
qed (use assms in auto)

text \<open>What the two handlers have done when they succeed.\<close>

lemma and_then_success: "and_then m f = (Inr y, st') \<longleftrightarrow> (\<exists>x st. m = (Inr x, st) \<and> f x st = (Inr y, st'))"
  by (cases m; cases "fst m") auto

lemma answer_success: "answer f m = (Inr y, st') \<longleftrightarrow> (\<exists>x. m = (Inr x, st') \<and> y = f x)"
  by (auto simp: answer_def and_then_success)

lemma change_password_success:
  assumes "keyed st" and "change_password lb ca old new st = (Inr (), st')"
    and "current_user lb (ca_now ca) (ca_authorization ca) st = Inr u"
  shows "\<exists>hash. st' = (put_user (u\<lparr>us_password_hash := hash, us_auth_version := us_auth_version u + 1\<rparr>) st)
      \<lparr>st_refresh_tokens := drop_tokens_of (us_id u) (st_refresh_tokens st)\<rparr>"
  using assms current_user_keyed [OF assms(1,3)]
  by (auto simp: change_password_def and_then_success authenticated_def modify_user_current put_user_def)

lemma delete_me_success:
  assumes "keyed st" and "delete_me lb ca st = (Inr (), st')"
    and "current_user lb (ca_now ca) (ca_authorization ca) st = Inr u"
  shows "st' = (put_user (u\<lparr>us_deleted_at := Some (ca_now ca), us_auth_version := us_auth_version u + 1\<rparr>) st)
      \<lparr>st_refresh_tokens := drop_tokens_of (us_id u) (st_refresh_tokens st),
       st_saved_places := (st_saved_places st)(us_id u := None),
       st_favorite_stops := (st_favorite_stops st)(us_id u := None)\<rparr>"
  using assms current_user_keyed [OF assms(1,3)]
  by (auto simp: delete_me_def and_then_success authenticated_def modify_user_current put_user_def)

lemma current_user_version:
  assumes "keyed st" and "current_user lb now header st = Inr v"
  shows "\<exists>token c. bearer_token header = Some token \<and> lb_decode_token lb now token = Some c \<and> lb_parse_uuid lb (cl_sub c) = Some (us_id v) \<and>
    cl_auth_version c = us_auth_version v \<and> map_of (st_users st) (us_id v) = Some v \<and> us_deleted_at v = None"
  using assms by (auto simp: current_user_def keyed_def split: option.splits if_splits)

text \<open>An access token of the user's sessions so far: it carries a version that is not in the future.\<close>

definition token_so_far :: "library \<Rightarrow> ustring option \<Rightarrow> user_record \<Rightarrow> bool" where
  "token_so_far lb header u \<longleftrightarrow> (\<forall>token now c. bearer_token header = Some token \<longrightarrow> lb_decode_token lb now token = Some c \<longrightarrow>
     lb_parse_uuid lb (cl_sub c) = Some (us_id u) \<longrightarrow> cl_auth_version c \<le> us_auth_version u)"


section \<open>Deleted accounts\<close>

definition sessions :: "exchange list \<Rightarrow> auth_session list" where
  "sessions trace = List.map_filter (\<lambda>(_, _, r). case r of Inr (Session s) \<Rightarrow> Some s | _ \<Rightarrow> None) trace"

lemma sessions_Cons: "sessions ((ca, request, r) # trace) = (case r of Inr (Session s) \<Rightarrow> [s] | _ \<Rightarrow> []) @ sessions trace"
  by (auto simp: sessions_def List.map_filter_simps split: sum.splits account_answer.splits)

lemma no_session_when_deleted:
  assumes "store_ok st" and "map_of (st_users st) k = Some u" and "us_deleted_at u \<noteq> None"
    and "\<forall>(ca, request) \<in> set requests. ca_fresh_id ca \<noteq> k"
  shows "k \<notin> (\<lambda>s. pu_id (au_user s)) ` set (sessions (fst (serve lb requests st)))"
  using assms
proof (induction requests arbitrary: st u)
  case Nil
  then show ?case by (simp add: sessions_def)
next
  case (Cons x xs)
  obtain ca request where x: "x = (ca, request)" by fastforce
  obtain r st1 where h: "handle lb ca request st = (r, st1)" by fastforce
  obtain trace st2 where s: "serve lb xs st1 = (trace, st2)" by fastforce
  have step: "account_step lb ca st st1" using handle_step [OF store_ok_keyed [OF Cons.prems(1)], of lb ca request] h by simp
  have ok1: "store_ok st1" using Cons.prems(1) step by (rule store_ok_step)
  from version_step [OF Cons.prems(1) step Cons.prems(2)] Cons.prems(3,4) x
  obtain u1 where u1: "map_of (st_users st1) k = Some u1" "us_deleted_at u1 \<noteq> None" by auto
  have "k \<notin> (\<lambda>s. pu_id (au_user s)) ` set (sessions trace)"
    using Cons.IH [OF ok1 u1] Cons.prems(4) s by auto
  moreover have "pu_id (au_user q) \<noteq> k" if "r = Inr (Session q)" for q
    using handle_session [OF Cons.prems(1), of lb ca request q st1] h that u1
    by (auto simp: session_for_def public_user_of_def)
  ultimately show ?case by (auto simp: x h s sessions_Cons split: sum.splits account_answer.splits)
qed


section \<open>Separate users\<close>

text \<open>C30:
  No request changes the record, the saved places or the favourite stops of a user other than the one it
  authenticates (a registration apart, which adds a user under a fresh identifier).
\<close>

theorem accounts_are_separate:
  assumes "reachable lb st" and "ca_fresh_id ca \<noteq> other"
    and "\<forall>u. current_user lb (ca_now ca) (ca_authorization ca) st = Inr u \<longrightarrow> us_id u \<noteq> other"
  shows "map_of (st_users (snd (handle lb ca request st))) other = map_of (st_users st) other \<and>
    st_saved_places (snd (handle lb ca request st)) other = st_saved_places st other \<and>
    st_favorite_stops (snd (handle lb ca request st)) other = st_favorite_stops st other"
  using handle_step [OF store_ok_keyed [OF reachable_ok [OF assms(1)]], of lb ca request]
proof cases
  case (join u h)
  with assms(2) show ?thesis by simp
qed (use assms(3) in auto)

section \<open>Examples\<close>

text \<open>One user with two versions; the tokens carry the version, the digest and the hash are the text itself.\<close>

definition sample_claims :: "int \<Rightarrow> claims" where
  "sample_claims v = \<lparr>cl_sub = ''x'', cl_email = ascii ''a@b'', cl_roles = [''user''], cl_exp = 900, cl_auth_version = v\<rparr>"

definition sample_library :: library where
  "sample_library = \<lparr>lb_hash_password = (\<lambda>password salt. Some (utf8 password)), lb_verify_password = (\<lambda>password hash. utf8 password = hash),
     lb_encode_token = (\<lambda>c. if c = sample_claims 1 then Some (ascii ''t1'') else if c = sample_claims 2 then Some (ascii ''t2'') else None),
     lb_decode_token = (\<lambda>now t. if t = ascii ''t1'' then Some (sample_claims 1) else if t = ascii ''t2'' then Some (sample_claims 2) else None),
     lb_hash_token = utf8, lb_show_uuid = (\<lambda>k. replicate k CHR ''x''), lb_parse_uuid = (\<lambda>s. Some (length s)),
     lb_parse_local_time = (\<lambda>s. True)\<rparr>"

definition sample_call :: "uuid \<Rightarrow> ustring option \<Rightarrow> call" where
  "sample_call k header = \<lparr>ca_now = 0, ca_fresh_id = k, ca_fresh_token = ascii ''r'', ca_salt = 0, ca_verify_permit = True,
     ca_hash_permit = True, ca_authorization = header\<rparr>"

definition sample_registration :: account_request where
  "sample_registration = Register \<lparr>rr_email = ascii '' a@b '', rr_password = ascii ''old-password'', rr_display_name = None\<rparr>"

definition sample_login :: login_request where
  "sample_login = \<lparr>lr_email = ascii ''A@b'', lr_password = ascii ''old-password''\<rparr>"

definition sample_change :: account_request where
  "sample_change = ChangePassword (ascii ''old-password'') (ascii ''new-password'')"

definition sample_store :: account_store where
  "sample_store = after sample_library [(sample_call 1 None, sample_registration)] no_accounts"

definition sample_user :: user_record where
  "sample_user = \<lparr>us_id = 1, us_email = ascii ''a@b'', us_password_hash = ''old-password'', us_display_name = None,
     us_roles = [''user''], us_created_at = 0, us_deleted_at = None, us_auth_version = 1\<rparr>"

lemma sample_store_reachable: "reachable sample_library sample_store"
  unfolding reachable_def sample_store_def by blast

lemma sample_current: "current_user sample_library 0 (bearer (ascii ''t1'')) sample_store = Inr sample_user"
  by code_simp

text \<open>The registration opens a session, whose token is accepted.\<close>

theorem session_authenticates_witness:
  "\<exists>s st' u. handle sample_library (sample_call 1 None) sample_registration no_accounts = (Inr (Session s), st') \<and>
     current_user sample_library 5 (bearer (au_access_token s)) st' = Inr u \<and> public_user_of u = au_user s"
proof -
  obtain s st' where h: "handle sample_library (sample_call 1 None) sample_registration no_accounts = (Inr (Session s), st')"
    and t: "au_access_token s = ascii ''t1''"
  proof -
    have "case handle sample_library (sample_call 1 None) sample_registration no_accounts of
        (Inr (Session s), st') \<Rightarrow> au_access_token s = ascii ''t1'' | _ \<Rightarrow> False" by code_simp
    then show thesis using that by (auto split: prod.splits sum.splits account_answer.splits)
  qed
  have n: "ascii ''t1'' \<noteq> ascii ''t2''" by code_simp
  have "\<forall>c. lb_encode_token sample_library c = Some (au_access_token s) \<longrightarrow>
      lb_decode_token sample_library 5 (au_access_token s) = Some c"
    using n by (auto simp: sample_library_def t)
  moreover have "\<forall>k. lb_parse_uuid sample_library (lb_show_uuid sample_library k) = Some k" by (simp add: sample_library_def)
  moreover have "visible_ascii (au_access_token s)" unfolding t by code_simp
  moreover have "reachable sample_library no_accounts" unfolding reachable_def by (intro exI [of _ "[]"]) simp
  ultimately show ?thesis using session_authenticates [OF _ h] h by blast
qed

lemma sample_tokens: "token_so_far sample_library (bearer (ascii ''t1'')) sample_user"
proof -
  have "bearer_token (bearer (ascii ''t1'')) = Some (ascii ''t1'')" by code_simp
  then show ?thesis by (auto simp: token_so_far_def sample_library_def sample_claims_def sample_user_def)
qed



theorem accounts_are_separate_witness:
  "map_of (st_users (snd (handle sample_library (sample_call 2 None) sample_registration sample_store))) 1 = Some sample_user"
proof -
  have "current_user sample_library (ca_now (sample_call 2 None)) (ca_authorization (sample_call 2 None)) sample_store = Inl unauthorized"
    by code_simp
  then have "map_of (st_users (snd (handle sample_library (sample_call 2 None) sample_registration sample_store))) 1 = map_of (st_users sample_store) 1"
    using accounts_are_separate [OF sample_store_reachable, of "sample_call 2 None" 1] by (simp add: sample_call_def)
  also have "\<dots> = Some sample_user" by code_simp
  finally show ?thesis .
qed

section \<open>Handlers that overlap\<close>

text \<open>
  A login that has checked the old password before the password is changed writes back the record it read:
  the old password and the access tokens of the old version are accepted again.
\<close>

definition late_login :: account_store where
  "late_login =
     (case login_check sample_library (sample_call 2 None) sample_login sample_store of
        Inr u \<Rightarrow> snd (login_finish sample_library (sample_call 2 None) u
          (after sample_library [(sample_call 3 (bearer (ascii ''t1'')), sample_change)] sample_store))
      | Inl _ \<Rightarrow> no_accounts)"

lemma late_login_undoes_password_change:
  "\<not> isl (fst (handle sample_library (sample_call 3 (bearer (ascii ''t1''))) sample_change sample_store)) \<and>
   current_user sample_library 0 (bearer (ascii ''t1'')) late_login = Inr sample_user \<and>
   \<not> isl (fst (login sample_library (sample_call 4 None) sample_login late_login))"
  by code_simp

text \<open>Two registrations that both check before either writes give one address to two accounts.\<close>

definition double_registration :: account_store where
  "double_registration =
     (let body = \<lparr>rr_email = ascii ''a@b'', rr_password = ascii ''old-password'', rr_display_name = None\<rparr>
      in case (register_check sample_library (sample_call 1 None) body no_accounts, register_check sample_library (sample_call 2 None) body no_accounts) of
           (Inr u, Inr v) \<Rightarrow> put_user v (put_user u no_accounts)
         | _ \<Rightarrow> no_accounts)"

lemma overlapping_registrations_share_an_address: "active_emails double_registration = [ascii ''a@b'', ascii ''a@b'']"
  by code_simp

text \<open>Registration trims the address; a login with the text as it was typed does not find it.\<close>

lemma login_does_not_trim:
  "fst (login sample_library (sample_call 2 None) (sample_login\<lparr>lr_email := ascii '' a@b ''\<rparr>) sample_store) = Inl unauthorized"
  by code_simp

end
