(* ===== verification/Gtfs_Import.thy ===== *)
theory Gtfs_Import
  imports App_Config "HOL-Library.AList" "HOL-Library.Multiset"
begin

text \<open>
  \<^verbatim>\<open>crates/gtfs-importer/src/lib.rs\<close>: from the tables of a GTFS feed to the data set and its validation
  issues. Reading the archive and decoding rows belong to the ZIP and CSV libraries: a table is the list of
  its decoded rows, each a row or the text of the decoding error. The lower-casing of names and the parsing
  of dates are parameters as well. Text whose blankness is tested is kept as scalar values and stored as
  UTF-8.
\<close>

section \<open>The data set\<close>

record import_options =
  io_source_feed_id :: string
  io_source_priority :: i32
  io_limit_rows :: "usize option"

record gtfs_trip =
  gt_route_id :: string
  gt_service_id :: string
  gt_trip_id :: string
  gt_trip_headsign :: "string option"
  gt_direction_id :: "int option"
  gt_shape_id :: "string option"

record gtfs_shape_point =
  gs_shape_id :: string
  gs_sequence :: u32
  gs_lat :: f64
  gs_lon :: f64
  gs_distance_traveled :: "f64 option"

record gtfs_transfer =
  gx_from_stop_id :: string
  gx_to_stop_id :: string
  gx_transfer_type :: int
  gx_min_transfer_time :: "u32 option"
  gx_from_trip_id :: "string option"
  gx_to_trip_id :: "string option"
  gx_max_waiting_time :: "u32 option"

datatype validation_severity = InfoSeverity | WarningSeverity | ErrorSeverity

record validation_issue =
  vi_severity :: validation_severity
  vi_code :: string
  vi_message :: string
  vi_source_file :: "string option"
  vi_affected_entity :: "string option"
  vi_raw_payload :: "json option"

record gtfs_dataset =
  gd_agencies :: "agency list"
  gd_stops :: "stop list"
  gd_routes :: "route list"
  gd_trips :: "gtfs_trip list"
  gd_stop_times :: "stop_time list"
  gd_shapes :: "gtfs_shape_point list"
  gd_calendars :: "calendar list"
  gd_calendar_dates :: "calendar_date list"
  gd_transfers :: "gtfs_transfer list"
  gd_validation_issues :: "validation_issue list"

definition empty_dataset :: gtfs_dataset where
  "empty_dataset = \<lparr>gd_agencies = [], gd_stops = [], gd_routes = [], gd_trips = [], gd_stop_times = [], gd_shapes = [],
     gd_calendars = [], gd_calendar_dates = [], gd_transfers = [], gd_validation_issues = []\<rparr>"

definition warning :: "string \<Rightarrow> string \<Rightarrow> string \<Rightarrow> string option \<Rightarrow> json option \<Rightarrow> validation_issue" where
  "warning code message file entity payload = \<lparr>vi_severity = WarningSeverity, vi_code = code, vi_message = message,
     vi_source_file = Some file, vi_affected_entity = entity, vi_raw_payload = payload\<rparr>"

section \<open>Tables\<close>

type_synonym 'row table = "(string + 'row) list"

definition take_rows :: "usize option \<Rightarrow> 'row table \<Rightarrow> 'row table" where
  "take_rows limit rows = (case limit of None \<Rightarrow> rows | Some n \<Rightarrow> take n rows)"

text \<open>\<open>map(|row| { let row = row?; ... }).collect()\<close>: the first error ends the table.\<close>

fun collect_rows :: "('row \<Rightarrow> string + 'a) \<Rightarrow> 'row table \<Rightarrow> string + 'a list" where
  "collect_rows f [] = Inr []"
| "collect_rows f (row # rows) =
     bind_result row (\<lambda>r. bind_result (f r) (\<lambda>x. bind_result (collect_rows f rows) (\<lambda>xs. Inr (x # xs))))"

text \<open>The tables that skip bad rows: a row gives an entity or an issue.\<close>

fun sift_rows :: "('row \<Rightarrow> validation_issue + 'a) \<Rightarrow> (string \<Rightarrow> validation_issue) \<Rightarrow> 'row table \<Rightarrow> validation_issue list \<Rightarrow>
    'a list \<times> validation_issue list" where
  "sift_rows f bad [] issues = ([], issues)"
| "sift_rows f bad (row # rows) issues =
     (case (case row of Inl e \<Rightarrow> Inl (bad e) | Inr r \<Rightarrow> f r) of
        Inl issue \<Rightarrow> sift_rows f bad rows (issues @ [issue])
      | Inr x \<Rightarrow> (let (xs, issues) = sift_rows f bad rows issues in (x # xs, issues)))"

record agency_row =
  ra_agency_id :: "string option"
  ra_agency_name :: string
  ra_agency_url :: "string option"
  ra_agency_timezone :: "string option"

definition agency_of_row :: "agency_row \<Rightarrow> string + agency" where
  "agency_of_row r =
     (let aid = (case ra_agency_id r of Some a \<Rightarrow> a | None \<Rightarrow> ra_agency_name r)
      in Inr \<lparr>ag_id = aid, ag_source_id = aid, ag_name = ra_agency_name r, ag_url = ra_agency_url r, ag_timezone = ra_agency_timezone r\<rparr>)"

record stop_row =
  rs_stop_id :: string
  rs_stop_name :: ustring
  rs_stop_lat :: "f64 option"
  rs_stop_lon :: "f64 option"
  rs_platform_code :: "ustring option"
  rs_location_type :: "int option"
  rs_parent_station :: "ustring option"
  rs_wheelchair_boarding :: "int option"

text \<open>\<open>filter(|value| !value.trim().is_empty())\<close>.\<close>

definition non_empty :: "ustring option \<Rightarrow> string option" where
  "non_empty v = (case v of Some s \<Rightarrow> if trim s = [] then None else Some (utf8 s) | None \<Rightarrow> None)"

definition or_zero :: "int option \<Rightarrow> int" where
  "or_zero v = (case v of Some n \<Rightarrow> n | None \<Rightarrow> 0)"

definition location_type_of :: "string \<Rightarrow> int \<Rightarrow> validation_issue option \<times> stop_location_type" where
  "location_type_of stop_id n =
     (if n = 0 then (None, StopLocation) else if n = 1 then (None, StationLocation) else if n = 2 then (None, EntranceExit)
      else if n = 3 then (None, GenericNode) else if n = 4 then (None, BoardingArea)
      else (Some (warning ''invalid_stop_location_type'' (''Unsupported GTFS location_type '' @ show_int n @ ''; using stop'')
              ''stops.txt'' (Some stop_id) (Some (JObject [(''location_type'', JInt n)]))), StopLocation))"

definition wheelchair_boarding_of :: "string \<Rightarrow> int \<Rightarrow> validation_issue option \<times> accessibility_status" where
  "wheelchair_boarding_of stop_id n =
     (if n = 0 then (None, UnknownAccess) else if n = 1 then (None, Accessible) else if n = 2 then (None, Inaccessible)
      else (Some (warning ''invalid_wheelchair_boarding'' (''Unsupported GTFS wheelchair_boarding '' @ show_int n @ ''; using unknown'')
              ''stops.txt'' (Some stop_id) (Some (JObject [(''wheelchair_boarding'', JInt n)]))), UnknownAccess))"

definition stop_issues :: "stop_row \<Rightarrow> validation_issue list" where
  "stop_issues r =
     (if rs_stop_lat r = None \<or> rs_stop_lon r = None
      then [warning ''stop_without_coordinates'' ''Stop has no usable coordinates'' ''stops.txt'' (Some (rs_stop_id r)) None] else []) @
     (case fst (location_type_of (rs_stop_id r) (or_zero (rs_location_type r))) of Some i \<Rightarrow> [i] | None \<Rightarrow> []) @
     (case fst (wheelchair_boarding_of (rs_stop_id r) (or_zero (rs_wheelchair_boarding r))) of Some i \<Rightarrow> [i] | None \<Rightarrow> [])"

definition stop_of_row :: "(ustring \<Rightarrow> ustring) \<Rightarrow> import_options \<Rightarrow> stop_row \<Rightarrow> stop" where
  "stop_of_row lower options r =
     \<lparr>st_id = rs_stop_id r,
      st_source_ids = [\<lparr>sr_feed_id = io_source_feed_id options, sr_original_id = rs_stop_id r, sr_import_run_id = None,
        sr_priority = io_source_priority options, sr_confidence = None, sr_suppressed_as_duplicate = False\<rparr>],
      st_name = rs_stop_name r, st_normalized_name = normalize_czech_name lower (rs_stop_name r),
      st_municipality = None, st_district = None, st_region = None,
      st_lat = rs_stop_lat r, st_lon = rs_stop_lon r,
      st_geom = (case (rs_stop_lat r, rs_stop_lon r) of (Some lat, Some lon) \<Rightarrow> Some (lon, lat) | _ \<Rightarrow> None),
      st_coordinate_confidence = (if rs_stop_lat r \<noteq> None \<and> rs_stop_lon r \<noteq> None then ExactConf else UnresolvedConf),
      st_coordinate_source = Some (io_source_feed_id options), st_stop_area_id = None, st_platform_code = rs_platform_code r,
      st_location_type = snd (location_type_of (rs_stop_id r) (or_zero (rs_location_type r))),
      st_parent_station_id = non_empty (rs_parent_station r), st_station_id = None, st_complex_id = None,
      st_has_station_layout = False, st_station_layout_version = None,
      st_wheelchair_boarding = snd (wheelchair_boarding_of (rs_stop_id r) (or_zero (rs_wheelchair_boarding r))),
      st_modes = [], st_is_active = True\<rparr>"

definition parse_stops :: "(ustring \<Rightarrow> ustring) \<Rightarrow> import_options \<Rightarrow> stop_row table \<Rightarrow> validation_issue list \<Rightarrow>
    string + (stop list \<times> validation_issue list)" where
  "parse_stops lower options rows issues =
     bind_result (collect_rows (\<lambda>r. Inr (stop_of_row lower options r, stop_issues r)) (take_rows (io_limit_rows options) rows)) (\<lambda>found.
       Inr (map fst found, issues @ concat (map snd found)))"

text \<open>\<open>map_gtfs_route_type\<close>.\<close>

definition map_gtfs_route_type :: "i32 option \<Rightarrow> transport_mode" where
  "map_gtfs_route_type route_type =
     (case route_type of
        None \<Rightarrow> UnknownMode
      | Some n \<Rightarrow>
          if n = 0 \<or> n \<in> {900..999} then Tram
          else if n = 1 then Metro
          else if n = 2 \<or> n \<in> {100..199} \<or> n \<in> {400..499} then Train
          else if n = 3 \<or> n \<in> {200..299} \<or> n \<in> {700..799} then Bus
          else if n = 4 \<or> n \<in> {1000..1099} then Ferry
          else if n = 5 \<or> n \<in> {1300..1399} then CableCar
          else if n = 11 \<or> n \<in> {800..899} then Trolleybus
          else UnknownMode)"

record route_row =
  rr_route_id :: string
  rr_agency_id :: "string option"
  rr_short_name :: "string option"
  rr_long_name :: "string option"
  rr_route_type :: "i32 option"
  rr_color :: "string option"
  rr_text_color :: "string option"

definition route_of_row :: "import_options \<Rightarrow> route_row \<Rightarrow> string + route" where
  "route_of_row options r = Inr \<lparr>ro_id = rr_route_id r, ro_source_id = rr_route_id r, ro_agency_id = rr_agency_id r,
     ro_operator_id = None, ro_short_name = rr_short_name r, ro_long_name = rr_long_name r,
     ro_mode = map_gtfs_route_type (rr_route_type r), ro_gtfs_route_type = rr_route_type r, ro_color = rr_color r,
     ro_text_color = rr_text_color r, ro_source_priority = io_source_priority options, ro_is_active = True\<rparr>"

record trip_row =
  rt_route_id :: string
  rt_service_id :: string
  rt_trip_id :: string
  rt_trip_headsign :: "string option"
  rt_direction_id :: "int option"
  rt_shape_id :: "ustring option"

definition trip_of_row :: "trip_row \<Rightarrow> string + gtfs_trip" where
  "trip_of_row r = Inr \<lparr>gt_route_id = rt_route_id r, gt_service_id = rt_service_id r, gt_trip_id = rt_trip_id r,
     gt_trip_headsign = rt_trip_headsign r, gt_direction_id = rt_direction_id r, gt_shape_id = non_empty (rt_shape_id r)\<rparr>"

record shape_row =
  rp_shape_id :: string
  rp_lat :: f64
  rp_lon :: f64
  rp_sequence :: u32
  rp_dist_traveled :: "f64 option"

text \<open>\<open>json!\<close> of a float that is not finite is null.\<close>

definition json_f64 :: "f64 \<Rightarrow> json" where
  "json_f64 x = (if is_finite x then JFloat x else JNull)"

definition shape_of_row :: "shape_row \<Rightarrow> validation_issue + gtfs_shape_point" where
  "shape_of_row r =
     (if in_f64_range (-90) 90 (rp_lat r) \<and> in_f64_range (-180) 180 (rp_lon r)
      then Inr \<lparr>gs_shape_id = rp_shape_id r, gs_sequence = rp_sequence r, gs_lat = rp_lat r, gs_lon = rp_lon r,
             gs_distance_traveled = rp_dist_traveled r\<rparr>
      else Inl (warning ''invalid_shape_coordinate'' ''Shape point has coordinates outside WGS84 bounds'' ''shapes.txt''
             (Some (rp_shape_id r)) (Some (JObject [(''sequence'', JInt (uint (rp_sequence r))), (''lat'', json_f64 (rp_lat r)),
               (''lon'', json_f64 (rp_lon r))]))))"

definition parse_shapes :: "usize option \<Rightarrow> shape_row table \<Rightarrow> validation_issue list \<Rightarrow> gtfs_shape_point list \<times> validation_issue list" where
  "parse_shapes limit rows issues =
     sift_rows shape_of_row (\<lambda>e. warning ''malformed_shape'' e ''shapes.txt'' None None) (take_rows limit rows) issues"

record stop_time_row =
  ri_trip_id :: string
  ri_arrival_time :: string
  ri_departure_time :: string
  ri_stop_id :: string
  ri_stop_sequence :: u32
  ri_pickup_type :: "int option"
  ri_drop_off_type :: "int option"
  ri_timepoint :: "int option"
  ri_stop_headsign :: "string option"

definition stop_time_of_row :: "stop_time_row \<Rightarrow> validation_issue + stop_time" where
  "stop_time_of_row r =
     (case (parse_gtfs_time (ri_arrival_time r), parse_gtfs_time (ri_departure_time r)) of
        (Some arrival, Some departure) \<Rightarrow>
          Inr \<lparr>sti_trip_id = ri_trip_id r, sti_stop_id = ri_stop_id r, sti_stop_sequence = ri_stop_sequence r,
            sti_arrival_time = arrival, sti_departure_time = departure, sti_pickup_type = ri_pickup_type r,
            sti_drop_off_type = ri_drop_off_type r, sti_timepoint = map_option (\<lambda>v. v = 1) (ri_timepoint r),
            sti_stop_headsign = ri_stop_headsign r, sti_platform = None, sti_raw_notes = None\<rparr>
      | _ \<Rightarrow> Inl (warning ''malformed_stop_time'' ''Stop time has invalid arrival or departure time'' ''stop_times.txt''
               (Some (ri_trip_id r)) None))"

definition parse_stop_times :: "usize option \<Rightarrow> stop_time_row table \<Rightarrow> validation_issue list \<Rightarrow> stop_time list \<times> validation_issue list" where
  "parse_stop_times limit rows issues =
     sift_rows stop_time_of_row (\<lambda>e. warning ''malformed_row'' e ''stop_times.txt'' None None) (take_rows limit rows) issues"

record calendar_row =
  rc_service_id :: string
  rc_monday :: int
  rc_tuesday :: int
  rc_wednesday :: int
  rc_thursday :: int
  rc_friday :: int
  rc_saturday :: int
  rc_sunday :: int
  rc_start_date :: ustring
  rc_end_date :: ustring

definition parse_gtfs_date :: "(ustring \<Rightarrow> naive_date option) \<Rightarrow> ustring \<Rightarrow> string + naive_date" where
  "parse_gtfs_date parse_ymd v =
     (case parse_ymd (trim v) of Some d \<Rightarrow> Inr d | None \<Rightarrow> Inl (''invalid GTFS date '' @ utf8 v))"

definition calendar_of_row :: "(ustring \<Rightarrow> naive_date option) \<Rightarrow> calendar_row \<Rightarrow> string + calendar" where
  "calendar_of_row parse_ymd r =
     bind_result (parse_gtfs_date parse_ymd (rc_start_date r)) (\<lambda>start_date.
     bind_result (parse_gtfs_date parse_ymd (rc_end_date r)) (\<lambda>end_date.
       Inr \<lparr>cal_service_id = rc_service_id r, cal_monday = (rc_monday r = 1), cal_tuesday = (rc_tuesday r = 1),
         cal_wednesday = (rc_wednesday r = 1), cal_thursday = (rc_thursday r = 1), cal_friday = (rc_friday r = 1),
         cal_saturday = (rc_saturday r = 1), cal_sunday = (rc_sunday r = 1), cal_start_date = start_date, cal_end_date = end_date\<rparr>))"

record calendar_date_row =
  rd_service_id :: string
  rd_date :: ustring
  rd_exception_type :: int

definition calendar_date_of_row :: "(ustring \<Rightarrow> naive_date option) \<Rightarrow> calendar_date_row \<Rightarrow> string + calendar_date" where
  "calendar_date_of_row parse_ymd r =
     bind_result (parse_gtfs_date parse_ymd (rd_date r)) (\<lambda>date.
       Inr \<lparr>cd_service_id = rd_service_id r, cd_date = date, cd_exception_type = rd_exception_type r\<rparr>)"

record transfer_row =
  rx_from_stop_id :: string
  rx_to_stop_id :: string
  rx_transfer_type :: "int option"
  rx_min_transfer_time :: "u32 option"
  rx_from_trip_id :: "ustring option"
  rx_to_trip_id :: "ustring option"
  rx_max_waiting_time :: "u32 option"

definition transfer_of_row :: "transfer_row \<Rightarrow> validation_issue + gtfs_transfer" where
  "transfer_of_row r =
     (let transfer_type = or_zero (rx_transfer_type r)
      in if \<not> (0 \<le> transfer_type \<and> transfer_type \<le> 5)
         then Inl (warning ''invalid_transfer_type'' (''Unsupported GTFS transfer_type '' @ show_int transfer_type @ ''; transfer ignored'')
                ''transfers.txt'' (Some (rx_from_stop_id r @ '':'' @ rx_to_stop_id r)) (Some (JObject [(''transfer_type'', JInt transfer_type)])))
         else Inr \<lparr>gx_from_stop_id = rx_from_stop_id r, gx_to_stop_id = rx_to_stop_id r, gx_transfer_type = transfer_type,
                gx_min_transfer_time = rx_min_transfer_time r, gx_from_trip_id = non_empty (rx_from_trip_id r),
                gx_to_trip_id = non_empty (rx_to_trip_id r), gx_max_waiting_time = rx_max_waiting_time r\<rparr>)"

definition parse_transfers :: "usize option \<Rightarrow> transfer_row table \<Rightarrow> validation_issue list \<Rightarrow> gtfs_transfer list \<times> validation_issue list" where
  "parse_transfers limit rows issues =
     sift_rows transfer_of_row (\<lambda>e. warning ''malformed_transfer_row'' e ''transfers.txt'' None None) (take_rows limit rows) issues"

section \<open>Modes of stops\<close>

definition transport_mode_rank :: "transport_mode \<Rightarrow> nat" where
  "transport_mode_rank m = (case m of Train \<Rightarrow> 0 | Metro \<Rightarrow> 1 | Tram \<Rightarrow> 2 | Trolleybus \<Rightarrow> 3 | Bus \<Rightarrow> 4 | Ferry \<Rightarrow> 5
     | CableCar \<Rightarrow> 6 | UnknownMode \<Rightarrow> 7)"

text \<open>Collecting pairs into a \<open>HashMap\<close>: the last of equal keys wins.\<close>

definition collect_map :: "('k \<times> 'v) list \<Rightarrow> 'k \<Rightarrow> 'v option" where
  "collect_map pairs = map_of (rev pairs)"

definition route_modes :: "gtfs_dataset \<Rightarrow> string \<Rightarrow> transport_mode option" where
  "route_modes d = collect_map (map (\<lambda>r. (ro_id r, ro_mode r)) (gd_routes d))"

definition trip_modes :: "gtfs_dataset \<Rightarrow> string \<Rightarrow> transport_mode option" where
  "trip_modes d = collect_map (List.map_filter (\<lambda>t. map_option (Pair (gt_trip_id t)) (route_modes d (gt_route_id t))) (gd_trips d))"

definition note_mode :: "gtfs_dataset \<Rightarrow> stop_time \<Rightarrow> (string \<Rightarrow> transport_mode list option) \<Rightarrow> string \<Rightarrow> transport_mode list option" where
  "note_mode d t modes =
     (case trip_modes d (sti_trip_id t) of
        None \<Rightarrow> modes
      | Some mode \<Rightarrow> modes(sti_stop_id t \<mapsto> List.insert mode (case modes (sti_stop_id t) of Some ms \<Rightarrow> ms | None \<Rightarrow> [])))"

text \<open>\<open>hash_order\<close> is the iteration order of a \<open>HashSet\<close>.\<close>

fun assign_modes :: "(transport_mode list \<Rightarrow> transport_mode list) \<Rightarrow> stop list \<Rightarrow> (string \<Rightarrow> transport_mode list option) \<Rightarrow> stop list" where
  "assign_modes hash_order [] modes = []"
| "assign_modes hash_order (s # ss) modes =
     s\<lparr>st_modes := sort_key transport_mode_rank (hash_order (case modes (st_id s) of Some ms \<Rightarrow> ms | None \<Rightarrow> []))\<rparr>
       # assign_modes hash_order ss (modes(st_id s := None))"

definition populate_stop_modes :: "(transport_mode list \<Rightarrow> transport_mode list) \<Rightarrow> gtfs_dataset \<Rightarrow> gtfs_dataset" where
  "populate_stop_modes hash_order d =
     d\<lparr>gd_stops := assign_modes hash_order (gd_stops d) (fold (note_mode d) (gd_stop_times d) Map.empty)\<rparr>"

section \<open>The archive\<close>

text \<open>The tables by name; \<open>Inl\<close> is a file that the archive lists and cannot open.\<close>

record gtfs_archive =
  ga_names :: "string list"
  ga_agency :: "string + agency_row table"
  ga_stops :: "string + stop_row table"
  ga_routes :: "string + route_row table"
  ga_trips :: "string + trip_row table"
  ga_stop_times :: "string + stop_time_row table"
  ga_shapes :: "string + shape_row table"
  ga_calendar :: "string + calendar_row table"
  ga_calendar_dates :: "string + calendar_date_row table"
  ga_transfers :: "string + transfer_row table"

definition missing_file :: "string \<Rightarrow> validation_issue" where
  "missing_file required = \<lparr>vi_severity = ErrorSeverity, vi_code = ''missing_required_file'',
     vi_message = ''Required GTFS file '' @ required @ '' is missing'', vi_source_file = Some required, vi_affected_entity = None,
     vi_raw_payload = None\<rparr>"

definition missing_calendar :: validation_issue where
  "missing_calendar = \<lparr>vi_severity = WarningSeverity, vi_code = ''missing_service_calendar'',
     vi_message = ''GTFS feed has neither calendar.txt nor calendar_dates.txt'', vi_source_file = None, vi_affected_entity = None,
     vi_raw_payload = None\<rparr>"

definition REQUIRED_FILES :: "string list" where
  "REQUIRED_FILES = [''agency.txt'', ''stops.txt'', ''routes.txt'', ''trips.txt'', ''stop_times.txt'']"

text \<open>A step of the import that only runs when the archive lists the file.\<close>

definition if_listed :: "gtfs_archive \<Rightarrow> string \<Rightarrow> (gtfs_dataset \<Rightarrow> string + gtfs_dataset) \<Rightarrow> gtfs_dataset \<Rightarrow> string + gtfs_dataset" where
  "if_listed ar file f d = (if file \<in> set (ga_names ar) then f d else Inr d)"

definition import_agencies :: "gtfs_archive \<Rightarrow> import_options \<Rightarrow> gtfs_dataset \<Rightarrow> string + gtfs_dataset" where
  "import_agencies ar options = if_listed ar ''agency.txt'' (\<lambda>d. bind_result (ga_agency ar) (\<lambda>rows.
     bind_result (collect_rows agency_of_row (take_rows (io_limit_rows options) rows)) (\<lambda>xs. Inr (d\<lparr>gd_agencies := xs\<rparr>))))"

definition import_stops :: "(ustring \<Rightarrow> ustring) \<Rightarrow> gtfs_archive \<Rightarrow> import_options \<Rightarrow> gtfs_dataset \<Rightarrow> string + gtfs_dataset" where
  "import_stops lower ar options = if_listed ar ''stops.txt'' (\<lambda>d. bind_result (ga_stops ar) (\<lambda>rows.
     bind_result (parse_stops lower options rows (gd_validation_issues d)) (\<lambda>(xs, issues).
       Inr (d\<lparr>gd_stops := xs, gd_validation_issues := issues\<rparr>))))"

definition import_routes :: "gtfs_archive \<Rightarrow> import_options \<Rightarrow> gtfs_dataset \<Rightarrow> string + gtfs_dataset" where
  "import_routes ar options = if_listed ar ''routes.txt'' (\<lambda>d. bind_result (ga_routes ar) (\<lambda>rows.
     bind_result (collect_rows (route_of_row options) (take_rows (io_limit_rows options) rows)) (\<lambda>xs. Inr (d\<lparr>gd_routes := xs\<rparr>))))"

definition import_trips :: "gtfs_archive \<Rightarrow> import_options \<Rightarrow> gtfs_dataset \<Rightarrow> string + gtfs_dataset" where
  "import_trips ar options = if_listed ar ''trips.txt'' (\<lambda>d. bind_result (ga_trips ar) (\<lambda>rows.
     bind_result (collect_rows trip_of_row (take_rows (io_limit_rows options) rows)) (\<lambda>xs. Inr (d\<lparr>gd_trips := xs\<rparr>))))"

definition import_stop_times :: "gtfs_archive \<Rightarrow> import_options \<Rightarrow> gtfs_dataset \<Rightarrow> string + gtfs_dataset" where
  "import_stop_times ar options = if_listed ar ''stop_times.txt'' (\<lambda>d. bind_result (ga_stop_times ar) (\<lambda>rows.
     let (xs, issues) = parse_stop_times (io_limit_rows options) rows (gd_validation_issues d)
     in Inr (d\<lparr>gd_stop_times := xs, gd_validation_issues := issues\<rparr>)))"

definition import_shapes :: "gtfs_archive \<Rightarrow> import_options \<Rightarrow> gtfs_dataset \<Rightarrow> string + gtfs_dataset" where
  "import_shapes ar options = if_listed ar ''shapes.txt'' (\<lambda>d. bind_result (ga_shapes ar) (\<lambda>rows.
     let (xs, issues) = parse_shapes (io_limit_rows options) rows (gd_validation_issues d)
     in Inr (d\<lparr>gd_shapes := xs, gd_validation_issues := issues\<rparr>)))"

definition import_calendars :: "(ustring \<Rightarrow> naive_date option) \<Rightarrow> gtfs_archive \<Rightarrow> import_options \<Rightarrow> gtfs_dataset \<Rightarrow> string + gtfs_dataset" where
  "import_calendars parse_ymd ar options = if_listed ar ''calendar.txt'' (\<lambda>d. bind_result (ga_calendar ar) (\<lambda>rows.
     bind_result (collect_rows (calendar_of_row parse_ymd) (take_rows (io_limit_rows options) rows)) (\<lambda>xs. Inr (d\<lparr>gd_calendars := xs\<rparr>))))"

definition import_calendar_dates :: "(ustring \<Rightarrow> naive_date option) \<Rightarrow> gtfs_archive \<Rightarrow> import_options \<Rightarrow> gtfs_dataset \<Rightarrow> string + gtfs_dataset" where
  "import_calendar_dates parse_ymd ar options = if_listed ar ''calendar_dates.txt'' (\<lambda>d. bind_result (ga_calendar_dates ar) (\<lambda>rows.
     bind_result (collect_rows (calendar_date_of_row parse_ymd) (take_rows (io_limit_rows options) rows)) (\<lambda>xs. Inr (d\<lparr>gd_calendar_dates := xs\<rparr>))))"

definition import_transfers :: "gtfs_archive \<Rightarrow> import_options \<Rightarrow> gtfs_dataset \<Rightarrow> string + gtfs_dataset" where
  "import_transfers ar options = if_listed ar ''transfers.txt'' (\<lambda>d. bind_result (ga_transfers ar) (\<lambda>rows.
     let (xs, issues) = parse_transfers (io_limit_rows options) rows (gd_validation_issues d)
     in Inr (d\<lparr>gd_transfers := xs, gd_validation_issues := issues\<rparr>)))"

definition check_calendars :: "gtfs_dataset \<Rightarrow> gtfs_dataset" where
  "check_calendars d = (if gd_calendars d = [] \<and> gd_calendar_dates d = []
     then d\<lparr>gd_validation_issues := gd_validation_issues d @ [missing_calendar]\<rparr> else d)"

definition parse_archive :: "(ustring \<Rightarrow> ustring) \<Rightarrow> (ustring \<Rightarrow> naive_date option) \<Rightarrow> (transport_mode list \<Rightarrow> transport_mode list) \<Rightarrow>
    gtfs_archive \<Rightarrow> import_options \<Rightarrow> string + gtfs_dataset" where
  "parse_archive lower parse_ymd hash_order ar options =
     bind_result (import_agencies ar options
       (empty_dataset\<lparr>gd_validation_issues := map missing_file (filter (\<lambda>f. f \<notin> set (ga_names ar)) REQUIRED_FILES)\<rparr>)) (\<lambda>d.
     bind_result (import_stops lower ar options d) (\<lambda>d.
     bind_result (import_routes ar options d) (\<lambda>d.
     bind_result (import_trips ar options d) (\<lambda>d.
     bind_result (import_stop_times ar options d) (\<lambda>d.
     bind_result (import_shapes ar options d) (\<lambda>d.
     bind_result (import_calendars parse_ymd ar options d) (\<lambda>d.
     bind_result (import_calendar_dates parse_ymd ar options d) (\<lambda>d.
     bind_result (import_transfers ar options d) (\<lambda>d.
       Inr (populate_stop_modes hash_order (check_calendars d)))))))))))"

end
