(* ===== verification/Gtfs_Props.thy ===== *)
theory Gtfs_Props
  imports Gtfs_Import
begin

text \<open>
  What the import promises: no row of a feed is lost without an issue that reports it, and every stop gets
  exactly the modes of the trips that call at it, in a fixed order.
\<close>

section \<open>Rows\<close>

lemma collect_rows_eq: "collect_rows f rows = Inr xs \<longleftrightarrow> map (\<lambda>row. bind_result row f) rows = map Inr xs"
proof (induction rows arbitrary: xs)
  case (Cons row rows)
  show ?case
  proof (cases xs)
    case Nil
    then show ?thesis by (auto simp: bind_result_Inr)
  next
    case (Cons x ys)
    then show ?thesis using Cons.IH [of ys] by (auto simp: bind_result_Inr)
  qed
qed auto

text \<open>
  The rows of a table that an import reads: none where the archive does not list the file, else those
  before the row limit; the entities of the rows that convert, and the issues of the others, in order.
\<close>

definition rows_read :: "gtfs_archive \<Rightarrow> import_options \<Rightarrow> string \<Rightarrow> string + 'row table \<Rightarrow> 'row table" where
  "rows_read ar options file table =
     (if file \<in> set (ga_names ar) then (case table of Inr rows \<Rightarrow> take_rows (io_limit_rows options) rows | Inl _ \<Rightarrow> []) else [])"

definition kept :: "('row \<Rightarrow> validation_issue + 'a) \<Rightarrow> 'row table \<Rightarrow> 'a list" where
  "kept f rows = concat (map (\<lambda>row. case row of Inl e \<Rightarrow> [] | Inr r \<Rightarrow> (case f r of Inl i \<Rightarrow> [] | Inr x \<Rightarrow> [x])) rows)"

definition rejected :: "('row \<Rightarrow> validation_issue + 'a) \<Rightarrow> (string \<Rightarrow> validation_issue) \<Rightarrow> 'row table \<Rightarrow> validation_issue list" where
  "rejected f bad rows = concat (map (\<lambda>row. case row of Inl e \<Rightarrow> [bad e] | Inr r \<Rightarrow> (case f r of Inl i \<Rightarrow> [i] | Inr x \<Rightarrow> [])) rows)"

lemma sift_rows_kept: "sift_rows f bad rows issues = (kept f rows, issues @ rejected f bad rows)"
  by (induction f bad rows issues rule: sift_rows.induct) (auto simp: kept_def rejected_def split: sum.splits)

lemma kept_or_rejected: "length (kept f rows) + length (rejected f bad rows) = length rows"
  by (induction rows) (auto simp: kept_def rejected_def split: sum.splits)

lemma not_listed_kept [simp]: "kept f [] = []" "rejected f bad [] = []"
  by (simp_all add: kept_def rejected_def)

lemma if_listed_Inr: "if_listed ar file f d = Inr d' \<longleftrightarrow> (if file \<in> set (ga_names ar) then f d = Inr d' else d' = d)"
  by (auto simp: if_listed_def)

lemma assign_modes_plain: "map (\<lambda>s. s\<lparr>st_modes := []\<rparr>) (assign_modes hash_order ss modes) = map (\<lambda>s. s\<lparr>st_modes := []\<rparr>) ss"
  by (induction hash_order ss modes rule: assign_modes.induct) (simp_all del: fun_upd_apply)

section \<open>The steps of an import\<close>

abbreviation stop_time_rejected :: "stop_time_row table \<Rightarrow> validation_issue list" where
  "stop_time_rejected \<equiv> rejected stop_time_of_row (\<lambda>e. warning ''malformed_row'' e ''stop_times.txt'' None None)"

abbreviation shape_rejected :: "shape_row table \<Rightarrow> validation_issue list" where
  "shape_rejected \<equiv> rejected shape_of_row (\<lambda>e. warning ''malformed_shape'' e ''shapes.txt'' None None)"

abbreviation transfer_rejected :: "transfer_row table \<Rightarrow> validation_issue list" where
  "transfer_rejected \<equiv> rejected transfer_of_row (\<lambda>e. warning ''malformed_transfer_row'' e ''transfers.txt'' None None)"

lemma sifting_steps:
  "import_stop_times ar options d = Inr d' \<Longrightarrow>
     d' = d\<lparr>gd_stop_times := (if ''stop_times.txt'' \<in> set (ga_names ar) then kept stop_time_of_row (rows_read ar options ''stop_times.txt'' (ga_stop_times ar))
            else gd_stop_times d),
          gd_validation_issues := gd_validation_issues d @ stop_time_rejected (rows_read ar options ''stop_times.txt'' (ga_stop_times ar))\<rparr>"
  "import_shapes ar options d = Inr d' \<Longrightarrow>
     d' = d\<lparr>gd_shapes := (if ''shapes.txt'' \<in> set (ga_names ar) then kept shape_of_row (rows_read ar options ''shapes.txt'' (ga_shapes ar))
            else gd_shapes d),
          gd_validation_issues := gd_validation_issues d @ shape_rejected (rows_read ar options ''shapes.txt'' (ga_shapes ar))\<rparr>"
  "import_transfers ar options d = Inr d' \<Longrightarrow>
     d' = d\<lparr>gd_transfers := (if ''transfers.txt'' \<in> set (ga_names ar) then kept transfer_of_row (rows_read ar options ''transfers.txt'' (ga_transfers ar))
            else gd_transfers d),
          gd_validation_issues := gd_validation_issues d @ transfer_rejected (rows_read ar options ''transfers.txt'' (ga_transfers ar))\<rparr>"
  by (auto simp: import_stop_times_def import_shapes_def import_transfers_def parse_stop_times_def parse_shapes_def
      parse_transfers_def if_listed_Inr bind_result_Inr sift_rows_kept rows_read_def split: if_splits)

text \<open>The issues of the stops that are read: those of each row, of which a stop may have several.\<close>

definition stop_row_issues :: "stop_row table \<Rightarrow> validation_issue list" where
  "stop_row_issues rows = concat (map (\<lambda>row. case row of Inl e \<Rightarrow> [] | Inr r \<Rightarrow> stop_issues r) rows)"

lemma collected_stops:
  "collect_rows (\<lambda>r. Inr (stop_of_row lower options r, stop_issues r)) rows = Inr found \<Longrightarrow>
     map (\<lambda>row. bind_result row (\<lambda>r. Inr (stop_of_row lower options r))) rows = map Inr (map fst found) \<and>
     concat (map snd found) = stop_row_issues rows"
  by (induction rows arbitrary: found) (auto simp: bind_result_Inr stop_row_issues_def)

lemma import_stops_step:
  assumes "import_stops lower ar options d = Inr d'" and "gd_stops d = []"
  shows "\<exists>raw. map (\<lambda>row. bind_result row (\<lambda>r. Inr (stop_of_row lower options r))) (rows_read ar options ''stops.txt'' (ga_stops ar)) = map Inr raw \<and>
    d' = d\<lparr>gd_stops := raw, gd_validation_issues := gd_validation_issues d @ stop_row_issues (rows_read ar options ''stops.txt'' (ga_stops ar))\<rparr>"
proof (cases "''stops.txt'' \<in> set (ga_names ar)")
  case True
  with assms(1) obtain rows found where "ga_stops ar = Inr rows"
      "collect_rows (\<lambda>r. Inr (stop_of_row lower options r, stop_issues r)) (take_rows (io_limit_rows options) rows) = Inr found"
      "d' = d\<lparr>gd_stops := map fst found, gd_validation_issues := gd_validation_issues d @ concat (map snd found)\<rparr>"
    by (auto simp: import_stops_def if_listed_Inr bind_result_Inr parse_stops_def)
  with collected_stops [OF this(2)] True show ?thesis
    by (intro exI [of _ "map fst found"]) (simp add: rows_read_def)
next
  case False
  with assms show ?thesis by (cases d) (auto simp: import_stops_def if_listed_Inr rows_read_def stop_row_issues_def)
qed

text \<open>The tables of which every row converts.\<close>

lemma collecting_steps:
  "import_agencies ar options d = Inr d' \<Longrightarrow> gd_agencies d = [] \<Longrightarrow>
     \<exists>xs. d' = d\<lparr>gd_agencies := xs\<rparr> \<and> map (\<lambda>row. bind_result row agency_of_row) (rows_read ar options ''agency.txt'' (ga_agency ar)) = map Inr xs"
  "import_routes ar options d = Inr d' \<Longrightarrow> gd_routes d = [] \<Longrightarrow>
     \<exists>xs. d' = d\<lparr>gd_routes := xs\<rparr> \<and> map (\<lambda>row. bind_result row (route_of_row options)) (rows_read ar options ''routes.txt'' (ga_routes ar)) = map Inr xs"
  "import_trips ar options d = Inr d' \<Longrightarrow> gd_trips d = [] \<Longrightarrow>
     \<exists>xs. d' = d\<lparr>gd_trips := xs\<rparr> \<and> map (\<lambda>row. bind_result row trip_of_row) (rows_read ar options ''trips.txt'' (ga_trips ar)) = map Inr xs"
  "import_calendars parse_ymd ar options d = Inr d' \<Longrightarrow> gd_calendars d = [] \<Longrightarrow>
     \<exists>xs. d' = d\<lparr>gd_calendars := xs\<rparr> \<and>
       map (\<lambda>row. bind_result row (calendar_of_row parse_ymd)) (rows_read ar options ''calendar.txt'' (ga_calendar ar)) = map Inr xs"
  "import_calendar_dates parse_ymd ar options d = Inr d' \<Longrightarrow> gd_calendar_dates d = [] \<Longrightarrow>
     \<exists>xs. d' = d\<lparr>gd_calendar_dates := xs\<rparr> \<and>
       map (\<lambda>row. bind_result row (calendar_date_of_row parse_ymd)) (rows_read ar options ''calendar_dates.txt'' (ga_calendar_dates ar)) = map Inr xs"
  by (auto simp: import_agencies_def import_routes_def import_trips_def import_calendars_def import_calendar_dates_def
      if_listed_Inr bind_result_Inr rows_read_def collect_rows_eq split: if_splits)

text \<open>C40: An import that succeeds accounts for every row, exactly once and in the order of the feed. The
  stop times, shapes and transfers of the data set are the rows (of a table the archive lists, up to the
  row limit) that convert, each of the other rows of these tables is reported by an issue of its own, and
  nothing else of them is reported; the agencies, routes, trips, calendars, calendar dates and, their
  modes apart, the stops are those of all rows; the issues are exactly the missing files, then those of
  the stops, of the refused stop times, shapes and transfers, and of missing calendars.
\<close>

theorem import_accounts_for_every_row:
  assumes "parse_archive lower parse_ymd hash_order ar options = Inr d"
  shows "gd_stop_times d = kept stop_time_of_row (rows_read ar options ''stop_times.txt'' (ga_stop_times ar)) \<and>
    gd_shapes d = kept shape_of_row (rows_read ar options ''shapes.txt'' (ga_shapes ar)) \<and>
    gd_transfers d = kept transfer_of_row (rows_read ar options ''transfers.txt'' (ga_transfers ar)) \<and>
    map (\<lambda>row. bind_result row agency_of_row) (rows_read ar options ''agency.txt'' (ga_agency ar)) = map Inr (gd_agencies d) \<and>
    map (\<lambda>row. bind_result row (route_of_row options)) (rows_read ar options ''routes.txt'' (ga_routes ar)) = map Inr (gd_routes d) \<and>
    map (\<lambda>row. bind_result row trip_of_row) (rows_read ar options ''trips.txt'' (ga_trips ar)) = map Inr (gd_trips d) \<and>
    map (\<lambda>row. bind_result row (calendar_of_row parse_ymd)) (rows_read ar options ''calendar.txt'' (ga_calendar ar)) = map Inr (gd_calendars d) \<and>
    map (\<lambda>row. bind_result row (calendar_date_of_row parse_ymd)) (rows_read ar options ''calendar_dates.txt'' (ga_calendar_dates ar)) =
      map Inr (gd_calendar_dates d) \<and>
    map (\<lambda>row. bind_result row (\<lambda>r. Inr (stop_of_row lower options r))) (rows_read ar options ''stops.txt'' (ga_stops ar)) =
      map (\<lambda>s. Inr (s\<lparr>st_modes := []\<rparr>)) (gd_stops d) \<and>
    gd_validation_issues d = map missing_file (filter (\<lambda>f. f \<notin> set (ga_names ar)) REQUIRED_FILES) @
      stop_row_issues (rows_read ar options ''stops.txt'' (ga_stops ar)) @
      stop_time_rejected (rows_read ar options ''stop_times.txt'' (ga_stop_times ar)) @
      shape_rejected (rows_read ar options ''shapes.txt'' (ga_shapes ar)) @
      transfer_rejected (rows_read ar options ''transfers.txt'' (ga_transfers ar)) @
      (if gd_calendars d = [] \<and> gd_calendar_dates d = [] then [missing_calendar] else [])"
proof -
  have populate: "gd_stop_times (populate_stop_modes hash_order d) = gd_stop_times d" "gd_shapes (populate_stop_modes hash_order d) = gd_shapes d"
    "gd_transfers (populate_stop_modes hash_order d) = gd_transfers d" "gd_agencies (populate_stop_modes hash_order d) = gd_agencies d"
    "gd_routes (populate_stop_modes hash_order d) = gd_routes d" "gd_trips (populate_stop_modes hash_order d) = gd_trips d"
    "gd_calendars (populate_stop_modes hash_order d) = gd_calendars d"
    "gd_calendar_dates (populate_stop_modes hash_order d) = gd_calendar_dates d"
    "map (\<lambda>s. s\<lparr>st_modes := []\<rparr>) (gd_stops (populate_stop_modes hash_order d)) = map (\<lambda>s. s\<lparr>st_modes := []\<rparr>) (gd_stops d)"
    "gd_validation_issues (populate_stop_modes hash_order d) = gd_validation_issues d" for d
    by (simp_all add: populate_stop_modes_def assign_modes_plain)
  let ?d0 = "empty_dataset\<lparr>gd_validation_issues := map missing_file (filter (\<lambda>f. f \<notin> set (ga_names ar)) REQUIRED_FILES)\<rparr>"
  from assms(1) obtain d1 d2 d3 d4 d5 d6 d7 d8 d9 where
    d1: "import_agencies ar options ?d0 = Inr d1"
    and d2: "import_stops lower ar options d1 = Inr d2" and d3: "import_routes ar options d2 = Inr d3"
    and d4: "import_trips ar options d3 = Inr d4" and d5: "import_stop_times ar options d4 = Inr d5"
    and d6: "import_shapes ar options d5 = Inr d6" and d7: "import_calendars parse_ymd ar options d6 = Inr d7"
    and d8: "import_calendar_dates parse_ymd ar options d7 = Inr d8" and d9: "import_transfers ar options d8 = Inr d9"
    and d: "d = populate_stop_modes hash_order (check_calendars d9)"
    unfolding parse_archive_def bind_result_Inr by blast
  obtain ags where e1: "d1 = ?d0\<lparr>gd_agencies := ags\<rparr>"
      "map (\<lambda>row. bind_result row agency_of_row) (rows_read ar options ''agency.txt'' (ga_agency ar)) = map Inr ags"
    using collecting_steps(1) [OF d1] by (auto simp: empty_dataset_def)
  obtain raw where e2: "d2 = d1\<lparr>gd_stops := raw, gd_validation_issues := gd_validation_issues d1 @
        stop_row_issues (rows_read ar options ''stops.txt'' (ga_stops ar))\<rparr>"
      "map (\<lambda>row. bind_result row (\<lambda>r. Inr (stop_of_row lower options r))) (rows_read ar options ''stops.txt'' (ga_stops ar)) = map Inr raw"
    using import_stops_step [OF d2] by (auto simp: e1(1) empty_dataset_def)
  obtain ros where e3: "d3 = d2\<lparr>gd_routes := ros\<rparr>"
      "map (\<lambda>row. bind_result row (route_of_row options)) (rows_read ar options ''routes.txt'' (ga_routes ar)) = map Inr ros"
    using collecting_steps(2) [OF d3] by (auto simp: e1(1) e2(1) empty_dataset_def)
  obtain tps where e4: "d4 = d3\<lparr>gd_trips := tps\<rparr>"
      "map (\<lambda>row. bind_result row trip_of_row) (rows_read ar options ''trips.txt'' (ga_trips ar)) = map Inr tps"
    using collecting_steps(3) [OF d4] by (auto simp: e1(1) e2(1) e3(1) empty_dataset_def)
  note e5 = sifting_steps(1) [OF d5] and e6 = sifting_steps(2) [OF d6]
  obtain cals where e7: "d7 = d6\<lparr>gd_calendars := cals\<rparr>"
      "map (\<lambda>row. bind_result row (calendar_of_row parse_ymd)) (rows_read ar options ''calendar.txt'' (ga_calendar ar)) = map Inr cals"
    using collecting_steps(4) [OF d7] by (auto simp: e1(1) e2(1) e3(1) e4(1) e5 e6 empty_dataset_def)
  obtain dates where e8: "d8 = d7\<lparr>gd_calendar_dates := dates\<rparr>"
      "map (\<lambda>row. bind_result row (calendar_date_of_row parse_ymd)) (rows_read ar options ''calendar_dates.txt'' (ga_calendar_dates ar)) =
        map Inr dates"
    using collecting_steps(5) [OF d8] by (auto simp: e1(1) e2(1) e3(1) e4(1) e5 e6 e7(1) empty_dataset_def)
  note e9 = sifting_steps(3) [OF d9]
  note data = e1(1) e2(1) e3(1) e4(1) e5 e6 e7(1) e8(1) e9
  have bare: "map (\<lambda>s. Inr (s\<lparr>st_modes := []\<rparr>)) raw = map (Inr :: stop \<Rightarrow> string + stop) raw"
  proof -
    have "st_modes s = []" if "s \<in> set raw" for s
    proof -
      have "Inr s \<in> set (map (\<lambda>row. bind_result row (\<lambda>r. Inr (stop_of_row lower options r))) (rows_read ar options ''stops.txt'' (ga_stops ar)))"
        using that unfolding e2(2) by simp
      then show ?thesis by (auto simp: bind_result_Inr stop_of_row_def dest!: sym [of "Inr s"])
    qed
    then show ?thesis by (intro map_cong) (simp_all add: stop.equality)
  qed
  have stops: "map (\<lambda>s. Inr (s\<lparr>st_modes := []\<rparr>)) (gd_stops d) = map (Inr :: stop \<Rightarrow> string + stop) raw"
  proof -
    have "map (\<lambda>s. s\<lparr>st_modes := []\<rparr>) (gd_stops d) = map (\<lambda>s. s\<lparr>st_modes := []\<rparr>) raw"
      by (simp add: d populate check_calendars_def data)
    from arg_cong [OF this, of "map (Inr :: stop \<Rightarrow> string + stop)"]
    have "map (\<lambda>s. Inr (s\<lparr>st_modes := []\<rparr>)) (gd_stops d) = map (\<lambda>s. Inr (s\<lparr>st_modes := []\<rparr>) :: string + stop) raw"
      by (simp only: list.map_comp comp_def)
    then show ?thesis unfolding bare .
  qed
  have fields: "gd_stop_times d = gd_stop_times d9" "gd_shapes d = gd_shapes d9" "gd_transfers d = gd_transfers d9"
    "gd_agencies d = ags" "gd_routes d = ros" "gd_trips d = tps" "gd_calendars d = cals" "gd_calendar_dates d = dates"
    "gd_validation_issues d = gd_validation_issues d9 @ (if cals = [] \<and> dates = [] then [missing_calendar] else [])"
    by (simp_all add: d populate check_calendars_def data)
  have empty: "gd_stop_times d4 = []" "gd_shapes d5 = []" "gd_transfers d8 = []"
    by (simp_all add: data empty_dataset_def)
  have sifted: "gd_stop_times d9 = kept stop_time_of_row (rows_read ar options ''stop_times.txt'' (ga_stop_times ar))"
    "gd_shapes d9 = kept shape_of_row (rows_read ar options ''shapes.txt'' (ga_shapes ar))"
    "gd_transfers d9 = kept transfer_of_row (rows_read ar options ''transfers.txt'' (ga_transfers ar))"
    using empty by (simp_all add: e5 e6 e7(1) e8(1) e9 rows_read_def)
  have issues: "gd_validation_issues d9 = map missing_file (filter (\<lambda>f. f \<notin> set (ga_names ar)) REQUIRED_FILES) @
      stop_row_issues (rows_read ar options ''stops.txt'' (ga_stops ar)) @
      stop_time_rejected (rows_read ar options ''stop_times.txt'' (ga_stop_times ar)) @
      shape_rejected (rows_read ar options ''shapes.txt'' (ga_shapes ar)) @
      transfer_rejected (rows_read ar options ''transfers.txt'' (ga_transfers ar))"
    by (simp add: data)
  show ?thesis
    unfolding fields sifted issues stops e1(2) e2(2) e3(2) e4(2) e7(2) e8(2) by simp
qed

section \<open>Modes\<close>

definition ALL_MODES :: "transport_mode list" where
  "ALL_MODES = [Train, Metro, Tram, Trolleybus, Bus, Ferry, CableCar, UnknownMode]"

text \<open>A stop is served by a mode when a trip of that mode calls there.\<close>

definition serves :: "gtfs_dataset \<Rightarrow> string \<Rightarrow> transport_mode \<Rightarrow> bool" where
  "serves d stop_id mode \<longleftrightarrow> list_ex (\<lambda>t. sti_stop_id t = stop_id \<and> trip_modes d (sti_trip_id t) = Some mode) (gd_stop_times d)"

abbreviation modes_at :: "(string \<Rightarrow> transport_mode list option) \<Rightarrow> string \<Rightarrow> transport_mode list" where
  "modes_at modes k \<equiv> (case modes k of Some ms \<Rightarrow> ms | None \<Rightarrow> [])"

lemma note_modes:
  "distinct (modes_at modes k) \<Longrightarrow> distinct (modes_at (fold (note_mode d) ts modes) k)"
  "set (modes_at (fold (note_mode d) ts modes) k) =
     set (modes_at modes k) \<union> {m. \<exists>t \<in> set ts. sti_stop_id t = k \<and> trip_modes d (sti_trip_id t) = Some m}"
proof (induction ts arbitrary: modes)
  case (Cons t ts)
  { case 1
    then have "distinct (modes_at (note_mode d t modes) k)" by (auto simp: note_mode_def split: option.splits)
    then show ?case using Cons.IH(1) [of "note_mode d t modes"] by simp }
  { case 2
    have "set (modes_at (note_mode d t modes) k) =
        set (modes_at modes k) \<union> {m. sti_stop_id t = k \<and> trip_modes d (sti_trip_id t) = Some m}"
      by (auto simp: note_mode_def split: option.splits)
    then show ?case using Cons.IH(2) [of "note_mode d t modes"] by auto }
qed simp_all

lemma inj_mode_rank: "inj transport_mode_rank"
  by (auto simp: inj_def transport_mode_rank_def split: transport_mode.splits)

lemma sort_modes:
  assumes "distinct xs" and "mset ys = mset xs"
  shows "sort_key transport_mode_rank ys = filter (\<lambda>m. m \<in> set xs) ALL_MODES"
proof (rule map_sorted_distinct_set_unique)
  have d: "distinct ys" "set ys = set xs" using assms by (metis mset_eq_imp_distinct_iff, metis mset_eq_setD)
  show "inj_on transport_mode_rank (set (sort_key transport_mode_rank ys) \<union> set (filter (\<lambda>m. m \<in> set xs) ALL_MODES))"
    by (rule inj_on_subset [OF inj_mode_rank]) simp
  show "distinct (map transport_mode_rank (sort_key transport_mode_rank ys))"
    using d(1) inj_on_subset [OF inj_mode_rank] by (simp add: distinct_map)
  have "sorted (map transport_mode_rank ALL_MODES)" "distinct (map transport_mode_rank ALL_MODES)"
    by (simp_all add: ALL_MODES_def transport_mode_rank_def)
  then show "sorted (map transport_mode_rank (filter (\<lambda>m. m \<in> set xs) ALL_MODES))"
    "distinct (map transport_mode_rank (filter (\<lambda>m. m \<in> set xs) ALL_MODES))"
    by (simp_all add: sorted_filter distinct_map_filter)
  have "set ALL_MODES = UNIV" by (auto simp: ALL_MODES_def intro: transport_mode.exhaust)
  then show "set (sort_key transport_mode_rank ys) = set (filter (\<lambda>m. m \<in> set xs) ALL_MODES)" using d(2) by auto
qed simp

lemma assign_modes_distinct:
  assumes "distinct (map st_id ss)"
  shows "assign_modes hash_order ss modes =
    map (\<lambda>s. s\<lparr>st_modes := sort_key transport_mode_rank (hash_order (modes_at modes (st_id s)))\<rparr>) ss"
  using assms
proof (induction hash_order ss modes rule: assign_modes.induct)
  case (2 hash_order s ss modes)
  have "\<forall>x \<in> set ss. st_id x \<noteq> st_id s" using 2(2) by (metis distinct.simps(2) image_eqI list.simps(9) set_map)
  then have "map (\<lambda>x. x\<lparr>st_modes := sort_key transport_mode_rank (hash_order (modes_at (modes(st_id s := None)) (st_id x)))\<rparr>) ss =
      map (\<lambda>x. x\<lparr>st_modes := sort_key transport_mode_rank (hash_order (modes_at modes (st_id x)))\<rparr>) ss" by simp
  with 2 show ?case by (simp del: fun_upd_apply)
qed simp

text \<open>
  After an import every stop has exactly the modes of the trips that call at it, from train to unknown
  without repetition, whatever order the hash tables of the importer iterate in; this needs stop
  identifiers that do not repeat.
\<close>

theorem stop_modes_correct:
  assumes "distinct (map st_id (gd_stops d))" and "\<forall>xs. mset (hash_order xs) = mset xs"
  shows "gd_stops (populate_stop_modes hash_order d) =
    map (\<lambda>s. s\<lparr>st_modes := filter (serves d (st_id s)) ALL_MODES\<rparr>) (gd_stops d)"
proof -
  let ?modes = "fold (note_mode d) (gd_stop_times d) Map.empty"
  have "sort_key transport_mode_rank (hash_order (modes_at ?modes k)) = filter (serves d k) ALL_MODES" for k
  proof -
    have "set (modes_at ?modes k) = {m. serves d k m}"
      using note_modes(2) [of d "gd_stop_times d" Map.empty k] by (auto simp: serves_def list_ex_iff)
    then have "filter (\<lambda>m. m \<in> set (modes_at ?modes k)) ALL_MODES = filter (serves d k) ALL_MODES" by simp
    with sort_modes [of "modes_at ?modes k" "hash_order (modes_at ?modes k)"] note_modes(1) [of Map.empty k d "gd_stop_times d"] assms(2)
    show ?thesis by simp
  qed
  then show ?thesis by (simp add: populate_stop_modes_def assign_modes_distinct [OF assms(1)])
qed

section \<open>A small feed\<close>

definition sample_options :: import_options where
  "sample_options = \<lparr>io_source_feed_id = ''pid'', io_source_priority = 10, io_limit_rows = Some 3\<rparr>"

definition sample_stop_row :: "string \<Rightarrow> stop_row" where
  "sample_stop_row k = \<lparr>rs_stop_id = k, rs_stop_name = ascii ''Brno'', rs_stop_lat = None, rs_stop_lon = None, rs_platform_code = None,
     rs_location_type = Some 7, rs_parent_station = Some (ascii '' ''), rs_wheelchair_boarding = Some 1\<rparr>"

definition sample_stop_time_row :: "string \<Rightarrow> string \<Rightarrow> stop_time_row" where
  "sample_stop_time_row k time = \<lparr>ri_trip_id = ''t'', ri_arrival_time = time, ri_departure_time = time, ri_stop_id = k,
     ri_stop_sequence = 1, ri_pickup_type = None, ri_drop_off_type = None, ri_timepoint = Some 1, ri_stop_headsign = None\<rparr>"

definition sample_archive :: "stop_row table \<Rightarrow> gtfs_archive" where
  "sample_archive stops = \<lparr>ga_names = [''stops.txt'', ''routes.txt'', ''trips.txt'', ''stop_times.txt'', ''shapes.txt'', ''transfers.txt''],
     ga_agency = Inl ''not found'', ga_stops = Inr stops,
     ga_routes = Inr [Inr \<lparr>rr_route_id = ''r'', rr_agency_id = None, rr_short_name = None, rr_long_name = None, rr_route_type = Some 900,
       rr_color = None, rr_text_color = None\<rparr>],
     ga_trips = Inr [Inr \<lparr>rt_route_id = ''r'', rt_service_id = ''s'', rt_trip_id = ''t'', rt_trip_headsign = None, rt_direction_id = None,
       rt_shape_id = None\<rparr>],
     ga_stop_times = Inr [Inr (sample_stop_time_row ''a'' ''8:00:00''), Inl ''bad row'', Inr (sample_stop_time_row ''b'' ''noon''),
       Inr (sample_stop_time_row ''b'' ''9:00:00'')],
     ga_shapes = Inr [Inr \<lparr>rp_shape_id = ''x'', rp_lat = NaN, rp_lon = Finite 14, rp_sequence = 1, rp_dist_traveled = None\<rparr>],
     ga_calendar = Inl ''not found'', ga_calendar_dates = Inl ''not found'',
     ga_transfers = Inr [Inr \<lparr>rx_from_stop_id = ''a'', rx_to_stop_id = ''b'', rx_transfer_type = Some 6, rx_min_transfer_time = None,
       rx_from_trip_id = None, rx_to_trip_id = None, rx_max_waiting_time = None\<rparr>]\<rparr>"

definition sample_import :: "stop_row table \<Rightarrow> string + gtfs_dataset" where
  "sample_import stops = parse_archive (\<lambda>s. s) (\<lambda>_. None) rev (sample_archive stops) sample_options"

lemma sample_import_Inr: "\<exists>d. sample_import [Inr (sample_stop_row ''a''), Inr (sample_stop_row ''b'')] = Inr d"
proof -
  have "\<not> isl (sample_import [Inr (sample_stop_row ''a''), Inr (sample_stop_row ''b'')])" by code_simp
  then show ?thesis by (cases "sample_import [Inr (sample_stop_row ''a''), Inr (sample_stop_row ''b'')]") simp_all
qed

theorem import_accounts_for_every_row_witness:
  "\<exists>d. sample_import [Inr (sample_stop_row ''a''), Inr (sample_stop_row ''b'')] = Inr d \<and>
     map sti_stop_id (gd_stop_times d) = [''a''] \<and> gd_shapes d = [] \<and>
     map vi_code (gd_validation_issues d) = [''missing_required_file'', ''stop_without_coordinates'', ''invalid_stop_location_type'',
       ''stop_without_coordinates'', ''invalid_stop_location_type'', ''malformed_row'', ''malformed_stop_time'',
       ''invalid_shape_coordinate'', ''invalid_transfer_type'', ''missing_service_calendar'']"
proof -
  obtain d where d: "sample_import [Inr (sample_stop_row ''a''), Inr (sample_stop_row ''b'')] = Inr d" using sample_import_Inr by blast
  let ?ar = "sample_archive [Inr (sample_stop_row ''a''), Inr (sample_stop_row ''b'')]"
  have calls: "map sti_stop_id (kept stop_time_of_row (rows_read ?ar sample_options ''stop_times.txt'' (ga_stop_times ?ar))) = [''a'']"
    and shapes: "kept shape_of_row (rows_read ?ar sample_options ''shapes.txt'' (ga_shapes ?ar)) = []"
    and calendars: "rows_read ?ar sample_options ''calendar.txt'' (ga_calendar ?ar) = []"
      "rows_read ?ar sample_options ''calendar_dates.txt'' (ga_calendar_dates ?ar) = []"
    and codes: "map vi_code (map missing_file (filter (\<lambda>f. f \<notin> set (ga_names ?ar)) REQUIRED_FILES) @
      stop_row_issues (rows_read ?ar sample_options ''stops.txt'' (ga_stops ?ar)) @
      stop_time_rejected (rows_read ?ar sample_options ''stop_times.txt'' (ga_stop_times ?ar)) @
      shape_rejected (rows_read ?ar sample_options ''shapes.txt'' (ga_shapes ?ar)) @
      transfer_rejected (rows_read ?ar sample_options ''transfers.txt'' (ga_transfers ?ar)) @ [missing_calendar]) =
      [''missing_required_file'', ''stop_without_coordinates'', ''invalid_stop_location_type'',
       ''stop_without_coordinates'', ''invalid_stop_location_type'', ''malformed_row'', ''malformed_stop_time'',
       ''invalid_shape_coordinate'', ''invalid_transfer_type'', ''missing_service_calendar'']"
    by code_simp+
  note whole = import_accounts_for_every_row [OF d [unfolded sample_import_def]]
  from whole have "map (\<lambda>row. bind_result row (calendar_of_row (\<lambda>_. None))) (rows_read ?ar sample_options ''calendar.txt'' (ga_calendar ?ar)) =
      map Inr (gd_calendars d)"
    by (elim conjE)
  then have no_calendars: "gd_calendars d = []" unfolding calendars by simp
  from whole have "map (\<lambda>row. bind_result row (calendar_date_of_row (\<lambda>_. None)))
      (rows_read ?ar sample_options ''calendar_dates.txt'' (ga_calendar_dates ?ar)) = map Inr (gd_calendar_dates d)"
    by (elim conjE)
  then have "gd_calendar_dates d = []" unfolding calendars by simp
  with no_calendars have none: "(if gd_calendars d = [] \<and> gd_calendar_dates d = [] then [missing_calendar] else []) = [missing_calendar]" by simp
  from whole have "gd_stop_times d = kept stop_time_of_row (rows_read ?ar sample_options ''stop_times.txt'' (ga_stop_times ?ar))"
    by (elim conjE)
  from arg_cong [OF this, of "map sti_stop_id", unfolded calls] have called: "map sti_stop_id (gd_stop_times d) = [''a'']" .
  from whole have "gd_shapes d = kept shape_of_row (rows_read ?ar sample_options ''shapes.txt'' (ga_shapes ?ar))" by (elim conjE)
  then have "gd_shapes d = []" unfolding shapes .
  moreover from whole [unfolded none] have "gd_validation_issues d =
      map missing_file (filter (\<lambda>f. f \<notin> set (ga_names ?ar)) REQUIRED_FILES) @
      stop_row_issues (rows_read ?ar sample_options ''stops.txt'' (ga_stops ?ar)) @
      stop_time_rejected (rows_read ?ar sample_options ''stop_times.txt'' (ga_stop_times ?ar)) @
      shape_rejected (rows_read ?ar sample_options ''shapes.txt'' (ga_shapes ?ar)) @
      transfer_rejected (rows_read ?ar sample_options ''transfers.txt'' (ga_transfers ?ar)) @ [missing_calendar]"
    by (elim conjE)
  from arg_cong [OF this, of "map vi_code", unfolded codes] show ?thesis
    using d called calculation by (intro exI [of _ d] conjI)
qed

theorem stop_modes_correct_witness:
  "\<exists>d. sample_import [Inr (sample_stop_row ''a''), Inr (sample_stop_row ''b'')] = Inr d \<and>
     map st_modes (gd_stops (populate_stop_modes rev d)) = [[Tram], []]"
proof -
  obtain d where d: "sample_import [Inr (sample_stop_row ''a''), Inr (sample_stop_row ''b'')] = Inr d" using sample_import_Inr by blast
  have "case sample_import [Inr (sample_stop_row ''a''), Inr (sample_stop_row ''b'')] of
      Inr d \<Rightarrow> map st_id (gd_stops d) = [''a'', ''b''] \<and> map (\<lambda>s. filter (serves d (st_id s)) ALL_MODES) (gd_stops d) = [[Tram], []]
    | Inl _ \<Rightarrow> False" by code_simp
  then have f: "map st_id (gd_stops d) = [''a'', ''b'']" "map (\<lambda>s. filter (serves d (st_id s)) ALL_MODES) (gd_stops d) = [[Tram], []]"
    using d by simp_all
  then have "distinct (map st_id (gd_stops d))" by simp
  from stop_modes_correct [OF this, of rev] f(2) d show ?thesis by (simp add: o_def)
qed

text \<open>A feed that lists a stop twice leaves the second copy without modes.\<close>

lemma repeated_stop_loses_modes:
  "(case sample_import [Inr (sample_stop_row ''a''), Inr (sample_stop_row ''a'')] of
      Inr d \<Rightarrow> map st_modes (gd_stops d) = [[Tram], []] | Inl _ \<Rightarrow> False)"
  by code_simp

end
