(* ===== verification/Stop_Hierarchy.thy ===== *)
theory Stop_Hierarchy
  imports Gtfs_Import
begin

text \<open>
  \<^verbatim>\<open>crates/gtfs-importer/src/regional_mapper\<close> and \<^verbatim>\<open>crates/geodata-matcher/src/lib.rs\<close>: grouping the platforms
  of a regional register into stop areas, hanging the stops of a feed below them with transfers between
  them, and matching a stop with geodata by its name. The workbook and XML readers are libraries: a register
  is the list of its records.
\<close>

section \<open>Stop areas\<close>

record parsed_stop_record =
  ps_node_id :: string
  ps_stop_id :: string
  ps_name :: ustring
  ps_platform_code :: "string option"
  ps_cis_id :: "string option"
  ps_lat :: f64
  ps_lon :: f64

record stop_area_node =
  an_id :: string
  an_name :: ustring
  an_centroid :: "f64 \<times> f64"
  an_child_platforms :: "parsed_stop_record list"

record xml_zastavka =
  xz_druh :: "string option"
  xz_lat :: f64
  xz_lon :: f64
  xz_nazev :: ustring
  xz_oznaceni :: string

text \<open>\<open>parse_xml\<close> after the decoding of the file.\<close>

definition parse_xml :: "xml_zastavka list \<Rightarrow> parsed_stop_record list" where
  "parse_xml zastavky = map (\<lambda>z. \<lparr>ps_node_id = ''unknown'', ps_stop_id = xz_oznaceni z, ps_name = xz_nazev z,
     ps_platform_code = None, ps_cis_id = Some (xz_oznaceni z), ps_lat = xz_lat z, ps_lon = xz_lon z\<rparr>) zastavky"

fun f64_div :: "f64 \<Rightarrow> f64 \<Rightarrow> f64" where
  "f64_div (Finite a) (Finite b) =
     (if b = 0 then (if a = 0 then NaN else if 0 < a then Infinity else NegInfinity) else f64_of_real (a / b))"
| "f64_div NaN _ = NaN"
| "f64_div _ NaN = NaN"
| "f64_div (Finite a) _ = Finite 0"
| "f64_div Infinity (Finite b) = (if b < 0 then NegInfinity else Infinity)"
| "f64_div NegInfinity (Finite b) = (if b < 0 then Infinity else NegInfinity)"
| "f64_div _ _ = NaN"

definition f64_sum :: "f64 list \<Rightarrow> f64" where
  "f64_sum xs = foldl f64_add (Finite 0) xs"

text \<open>\<open>entry(key).or_default().push(x)\<close>; a \<open>HashMap\<close> that is iterated is an association list.\<close>

definition push_entry :: "'k \<Rightarrow> 'v \<Rightarrow> ('k \<times> 'v list) list \<Rightarrow> ('k \<times> 'v list) list" where
  "push_entry k v m = AList.update k ((case map_of m k of Some vs \<Rightarrow> vs | None \<Rightarrow> []) @ [v]) m"

definition area_of_group :: "string \<times> parsed_stop_record list \<Rightarrow> stop_area_node" where
  "area_of_group g =
     (case g of (node_id, children) \<Rightarrow>
        let count = Finite (real (length children))
        in \<lparr>an_id = node_id, an_name = (case children of [] \<Rightarrow> [] | c # _ \<Rightarrow> ps_name c),
            an_centroid = (if f64_le count (Finite 0) then (Finite 0, Finite 0)
              else (f64_div (f64_sum (map ps_lon children)) count, f64_div (f64_sum (map ps_lat children)) count)),
            an_child_platforms = children\<rparr>)"

definition group_into_stop_areas :: "((string \<times> parsed_stop_record list) list \<Rightarrow> (string \<times> parsed_stop_record list) list) \<Rightarrow>
    parsed_stop_record list \<Rightarrow> stop_area_node list" where
  "group_into_stop_areas hash_order records =
     map area_of_group (hash_order (fold (\<lambda>r groups. if ps_node_id r = ''unknown'' then groups else push_entry (ps_node_id r) r groups) records []))"

section \<open>Patching a data set\<close>

definition cis_to_node :: "stop_area_node list \<Rightarrow> string \<Rightarrow> string option" where
  "cis_to_node areas = collect_map (concat (map (\<lambda>area.
     List.map_filter (\<lambda>child. map_option (\<lambda>cis. (cis, an_id area)) (ps_cis_id child)) (an_child_platforms area)) areas))"

definition hang_stop :: "(string \<Rightarrow> string option) \<Rightarrow> stop \<Rightarrow> stop" where
  "hang_stop node s = (case node (st_id s) of None \<Rightarrow> s
     | Some n \<Rightarrow> s\<lparr>st_parent_station_id := Some n, st_stop_area_id := Some n\<rparr>)"

definition note_child :: "(string \<Rightarrow> string option) \<Rightarrow> stop \<Rightarrow> (string \<times> string list) list \<Rightarrow> (string \<times> string list) list" where
  "note_child node s active = (case node (st_id s) of None \<Rightarrow> active | Some n \<Rightarrow> push_entry n (st_id s) active)"

definition transfer_exists :: "gtfs_transfer list \<Rightarrow> string \<Rightarrow> string \<Rightarrow> bool" where
  "transfer_exists transfers src_id dest_id \<longleftrightarrow> list_ex (\<lambda>t. gx_from_stop_id t = src_id \<and> gx_to_stop_id t = dest_id) transfers"

definition internal_transfer :: "string \<Rightarrow> string \<Rightarrow> gtfs_transfer" where
  "internal_transfer src_id dest_id = \<lparr>gx_from_stop_id = src_id, gx_to_stop_id = dest_id, gx_transfer_type = 2,
     gx_min_transfer_time = Some 120, gx_from_trip_id = None, gx_to_trip_id = None, gx_max_waiting_time = None\<rparr>"

definition add_internal_transfer :: "string \<Rightarrow> string \<Rightarrow> gtfs_transfer list \<Rightarrow> gtfs_transfer list" where
  "add_internal_transfer src_id dest_id transfers =
     (if src_id \<noteq> dest_id \<and> \<not> transfer_exists transfers src_id dest_id then transfers @ [internal_transfer src_id dest_id] else transfers)"

definition link_children :: "string list \<Rightarrow> gtfs_transfer list \<Rightarrow> gtfs_transfer list" where
  "link_children child_ids transfers =
     (if 1 < length child_ids then fold (\<lambda>src_id. fold (add_internal_transfer src_id) child_ids) child_ids transfers else transfers)"

definition apply_hierarchy :: "((string \<times> string list) list \<Rightarrow> (string \<times> string list) list) \<Rightarrow> stop_area_node list \<Rightarrow>
    gtfs_dataset \<Rightarrow> gtfs_dataset" where
  "apply_hierarchy hash_order areas d =
     (let node = cis_to_node areas; active_nodes = fold (note_child node) (gd_stops d) []
      in d\<lparr>gd_stops := map (hang_stop node) (gd_stops d),
           gd_transfers := fold (\<lambda>(_, child_ids). link_children child_ids) (hash_order active_nodes) (gd_transfers d)\<rparr>)"

section \<open>Geodata\<close>

record geodata_candidate =
  gc_source :: string
  gc_stop_name :: ustring
  gc_municipality :: "ustring option"
  gc_lat :: f64
  gc_lon :: f64
  gc_confidence :: coordinate_confidence

record geodata_match =
  gm_lat :: f64
  gm_lon :: f64
  gm_source :: string
  gm_confidence :: coordinate_confidence

definition confidence_rank :: "coordinate_confidence \<Rightarrow> nat" where
  "confidence_rank c = (case c of ExactConf \<Rightarrow> 5 | HighConf \<Rightarrow> 4 | MediumConf \<Rightarrow> 3 | LowConf \<Rightarrow> 2 | UnresolvedConf \<Rightarrow> 1)"

definition match_stop :: "(ustring \<Rightarrow> ustring) \<Rightarrow> stop \<Rightarrow> geodata_candidate list \<Rightarrow> geodata_match option" where
  "match_stop lower s candidates =
     (let normalized = normalize_czech_name lower (st_name s)
      in map_option (\<lambda>c. \<lparr>gm_lat = gc_lat c, gm_lon = gc_lon c, gm_source = gc_source c, gm_confidence = gc_confidence c\<rparr>)
           (max_by_key (\<lambda>c. confidence_rank (gc_confidence c))
             (filter (\<lambda>c. normalize_czech_name lower (gc_stop_name c) = normalized) candidates)))"

section \<open>The children of a node\<close>

abbreviation entries :: "('k \<times> 'v list) list \<Rightarrow> 'k \<Rightarrow> 'v list" where
  "entries m k \<equiv> (case map_of m k of Some vs \<Rightarrow> vs | None \<Rightarrow> [])"

lemma note_children:
  "entries (fold (note_child node) ss active) n = entries active n @ map st_id (filter (\<lambda>s. node (st_id s) = Some n) ss)"
proof (induction ss arbitrary: active)
  case (Cons s ss)
  have "entries (note_child node s active) n = entries active n @ (if node (st_id s) = Some n then [st_id s] else [])"
    by (auto simp: note_child_def push_entry_def update_conv' split: option.splits)
  with Cons.IH [of "note_child node s active"] show ?case by simp
qed simp

lemma distinct_note_children: "distinct (map fst active) \<Longrightarrow> distinct (map fst (fold (note_child node) ss active))"
  by (induction ss arbitrary: active) (auto simp: note_child_def push_entry_def distinct_update split: option.splits)

lemma active_node:
  assumes "(n, ids) \<in> set (fold (note_child node) ss [])"
  shows "ids = map st_id (filter (\<lambda>s. node (st_id s) = Some n) ss)"
proof -
  have "map_of (fold (note_child node) ss []) n = Some ids"
    using assms distinct_note_children [of "[]" node ss] by simp
  with note_children [of node ss "[]" n] show ?thesis by simp
qed

lemma active_node_exists:
  assumes "s \<in> set ss" and "node (st_id s) = Some n"
  shows "\<exists>ids. (n, ids) \<in> set (fold (note_child node) ss [])"
proof -
  have "entries (fold (note_child node) ss []) n \<noteq> []"
    using assms note_children [of node ss "[]" n] by (auto simp: filter_empty_conv)
  then show ?thesis by (auto split: option.splits dest: map_of_SomeD)
qed

section \<open>Links\<close>

text \<open>The pairs of stops that the loops visit, in their order.\<close>

definition child_pairs :: "string list \<Rightarrow> (string \<times> string) list" where
  "child_pairs ids = (if 1 < length ids then List.product ids ids else [])"

definition node_pairs :: "(string \<times> string list) list \<Rightarrow> (string \<times> string) list" where
  "node_pairs active = concat (map (\<lambda>(_, ids). child_pairs ids) active)"

abbreviation add_pairs :: "(string \<times> string) list \<Rightarrow> gtfs_transfer list \<Rightarrow> gtfs_transfer list" where
  "add_pairs \<equiv> fold (\<lambda>(f, t). add_internal_transfer f t)"

lemma product_loops: "fold (\<lambda>(f, t). add_internal_transfer f t) (List.product xs ys) ts = fold (\<lambda>f. fold (add_internal_transfer f) ys) xs ts"
  by (induction xs arbitrary: ts) (simp_all add: fold_map o_def)

lemma link_children_pairs: "link_children ids = add_pairs (child_pairs ids)"
  by (rule ext) (simp add: link_children_def child_pairs_def product_loops)

lemma link_nodes_pairs: "fold (\<lambda>(_, ids). link_children ids) active ts = add_pairs (node_pairs active) ts"
  by (induction active arbitrary: ts) (auto simp: node_pairs_def link_children_pairs)

lemma linked_append [simp]: "transfer_exists (xs @ ys) a b \<longleftrightarrow> transfer_exists xs a b \<or> transfer_exists ys a b"
  by (simp add: transfer_exists_def)

lemma linked_internal [simp]: "transfer_exists [internal_transfer f t] a b \<longleftrightarrow> f = a \<and> t = b"
  by (simp add: transfer_exists_def internal_transfer_def)

lemma linked_map_internal [simp]: "transfer_exists (map (\<lambda>(a, b). internal_transfer a b) ps) a b \<longleftrightarrow> (a, b) \<in> set ps"
  by (induction ps) (auto simp: transfer_exists_def internal_transfer_def)

lemma linked_add_internal: "transfer_exists (add_internal_transfer f t ts) a b \<longleftrightarrow> transfer_exists ts a b \<or> (f \<noteq> t \<and> a = f \<and> b = t)"
  by (auto simp: add_internal_transfer_def)

lemma linked_add_pairs: "transfer_exists (add_pairs ps ts) a b \<longleftrightarrow> transfer_exists ts a b \<or> (a \<noteq> b \<and> (a, b) \<in> set ps)"
proof (induction ps arbitrary: ts)
  case (Cons p ps)
  obtain f t where p: "p = (f, t)" by fastforce
  from Cons.IH [of "add_internal_transfer f t ts"] show ?case by (auto simp: p linked_add_internal)
qed simp

lemma add_pairs_same:
  assumes "\<forall>(a, b) \<in> set ps. a \<noteq> b \<longrightarrow> transfer_exists ts a b"
  shows "add_pairs ps ts = ts"
  using assms by (induction ps) (auto simp: add_internal_transfer_def)

lemma add_pairs_new:
  "\<exists>new. add_pairs ps ts = ts @ map (\<lambda>(a, b). internal_transfer a b) new \<and> distinct new \<and>
     (\<forall>(a, b) \<in> set new. a \<noteq> b \<and> (a, b) \<in> set ps \<and> \<not> transfer_exists ts a b)"
proof (induction ps arbitrary: ts)
  case (Cons p ps)
  obtain f t where p: "p = (f, t)" by fastforce
  from Cons.IH [of "add_internal_transfer f t ts"] obtain new where
    new: "add_pairs ps (add_internal_transfer f t ts) = add_internal_transfer f t ts @ map (\<lambda>(a, b). internal_transfer a b) new" "distinct new"
      "\<forall>(a, b) \<in> set new. a \<noteq> b \<and> (a, b) \<in> set ps \<and> \<not> transfer_exists (add_internal_transfer f t ts) a b" by blast
  show ?case
  proof (cases "f \<noteq> t \<and> \<not> transfer_exists ts f t")
    case True
    then have "add_internal_transfer f t ts = ts @ [internal_transfer f t]" by (simp add: add_internal_transfer_def)
    with new(1) have "add_pairs (p # ps) ts = ts @ map (\<lambda>(a, b). internal_transfer a b) ((f, t) # new)" by (simp add: p)
    moreover have rest: "a \<noteq> b \<and> (a, b) \<in> set ps \<and> \<not> transfer_exists ts a b \<and> (f, t) \<noteq> (a, b)" if "(a, b) \<in> set new" for a b
      using new(3) that True by (force simp: linked_add_internal)
    moreover have "distinct ((f, t) # new)" using new(2) rest [of f t] by auto
    ultimately show ?thesis using True rest by (intro exI [of _ "(f, t) # new"]) (auto simp: p)
  next
    case False
    then have same: "add_internal_transfer f t ts = ts" by (auto simp: add_internal_transfer_def)
    show ?thesis using new by (intro exI [of _ new]) (auto simp: p same)
  qed
qed (auto intro: exI [of _ "[]"])

lemma node_pairs_iff:
  assumes "set (hash_order (fold (note_child node) ss [])) = set (fold (note_child node) ss [])" and "a \<noteq> b"
  shows "(a, b) \<in> set (node_pairs (hash_order (fold (note_child node) ss []))) \<longleftrightarrow>
    (\<exists>n. node a = Some n \<and> node b = Some n) \<and> a \<in> st_id ` set ss \<and> b \<in> st_id ` set ss"
proof -
  have long: "1 < length ids" if "a \<in> set ids" "b \<in> set ids" for ids
    using that assms(2) by (cases ids rule: remdups_adj.cases) auto
  have pair: "(a, b) \<in> set (child_pairs ids) \<longleftrightarrow> a \<in> set ids \<and> b \<in> set ids" for ids
    using long [of ids] by (auto simp: child_pairs_def)
  let ?active = "fold (note_child node) ss []"
  have child: "a \<in> set ids \<longleftrightarrow> a \<in> st_id ` set ss \<and> node a = Some n" if "(n, ids) \<in> set ?active" for n ids a
    using active_node [OF that] by auto
  have "(a, b) \<in> set (node_pairs (hash_order ?active)) \<longleftrightarrow> (\<exists>(n, ids) \<in> set (hash_order ?active). (a, b) \<in> set (child_pairs ids))"
    unfolding node_pairs_def by (simp add: case_prod_beta')
  also have "\<dots> \<longleftrightarrow> (\<exists>(n, ids) \<in> set ?active. a \<in> set ids \<and> b \<in> set ids)" unfolding assms(1) pair ..
  also have "\<dots> \<longleftrightarrow> (\<exists>n. (\<exists>ids. (n, ids) \<in> set ?active) \<and> node a = Some n \<and> node b = Some n) \<and> a \<in> st_id ` set ss \<and> b \<in> st_id ` set ss"
    using child by blast
  also have "\<dots> \<longleftrightarrow> (\<exists>n. node a = Some n \<and> node b = Some n) \<and> a \<in> st_id ` set ss \<and> b \<in> st_id ` set ss"
    using active_node_exists [where node = node and ss = ss] by blast
  finally show ?thesis .
qed

text \<open>What a patch does to the transfers: it appends one of two minutes for every pair that had none.\<close>

lemma hierarchy_transfers:
  assumes "\<forall>xs. set (hash_order xs) = set xs"
  shows "transfer_exists (gd_transfers (apply_hierarchy hash_order areas d)) a b \<longleftrightarrow> transfer_exists (gd_transfers d) a b \<or>
    (a \<noteq> b \<and> (\<exists>n. cis_to_node areas a = Some n \<and> cis_to_node areas b = Some n) \<and>
     a \<in> st_id ` set (gd_stops d) \<and> b \<in> st_id ` set (gd_stops d))"
  using node_pairs_iff [of hash_order "cis_to_node areas" "gd_stops d" a b] assms
  by (auto simp: apply_hierarchy_def Let_def link_nodes_pairs linked_add_pairs)

text \<open>
  Patching a feed with the stop areas of a register keeps every transfer of the feed and appends transfers
  of two minutes, no pair twice, between exactly those pairs of different stops of one area that had none;
  so afterwards every two stops of an area are linked both ways.
\<close>

theorem hierarchy_links_areas:
  assumes "\<forall>xs. set (hash_order xs) = set xs"
  shows "\<exists>new. gd_transfers (apply_hierarchy hash_order areas d) = gd_transfers d @ map (\<lambda>(a, b). internal_transfer a b) new \<and>
    distinct new \<and> set new = {(a, b). a \<noteq> b \<and> \<not> transfer_exists (gd_transfers d) a b \<and>
      (\<exists>n. cis_to_node areas a = Some n \<and> cis_to_node areas b = Some n) \<and> {a, b} \<subseteq> st_id ` set (gd_stops d)}"
proof -
  let ?node = "cis_to_node areas"
  let ?pairs = "node_pairs (hash_order (fold (note_child ?node) (gd_stops d) []))"
  have eq: "gd_transfers (apply_hierarchy hash_order areas d) = add_pairs ?pairs (gd_transfers d)"
    by (simp add: apply_hierarchy_def Let_def link_nodes_pairs)
  from add_pairs_new [of ?pairs "gd_transfers d"] obtain new where
    new: "add_pairs ?pairs (gd_transfers d) = gd_transfers d @ map (\<lambda>(a, b). internal_transfer a b) new" "distinct new"
      "\<forall>(a, b) \<in> set new. a \<noteq> b \<and> (a, b) \<in> set ?pairs \<and> \<not> transfer_exists (gd_transfers d) a b" by blast
  have "(a, b) \<in> set new \<longleftrightarrow> a \<noteq> b \<and> (a, b) \<in> set ?pairs \<and> \<not> transfer_exists (gd_transfers d) a b" for a b
  proof -
    have "transfer_exists (gd_transfers d) a b \<or> (a, b) \<in> set new \<longleftrightarrow> transfer_exists (gd_transfers d) a b \<or> (a \<noteq> b \<and> (a, b) \<in> set ?pairs)"
      using linked_add_pairs [of ?pairs "gd_transfers d" a b] unfolding new(1) linked_append linked_map_internal .
    with new(3) show ?thesis by blast
  qed
  moreover have "(a, b) \<in> set ?pairs \<longleftrightarrow> (\<exists>n. ?node a = Some n \<and> ?node b = Some n) \<and> {a, b} \<subseteq> st_id ` set (gd_stops d)"
    if "a \<noteq> b" for a b
    using node_pairs_iff [of hash_order ?node "gd_stops d" a b] assms that by simp
  ultimately show ?thesis using eq new(1,2) by (intro exI [of _ new]) auto
qed

lemma hang_stop_id [simp]: "st_id (hang_stop node s) = st_id s"
  by (simp add: hang_stop_def split: option.splits)

lemma hang_stop_twice [simp]: "hang_stop node (hang_stop node s) = hang_stop node s"
  by (simp add: hang_stop_def split: option.splits)

lemma note_child_hang: "fold (note_child node) (map (hang_stop node) ss) active = fold (note_child node) ss active"
  by (induction ss arbitrary: active) (simp_all add: note_child_def split: option.splits)

text \<open>
  Applying the hierarchy a second time changes nothing, also when the hash table of the second run iterates
  in another order: no transfer is generated twice.
\<close>

theorem hierarchy_idempotent:
  assumes "\<forall>xs. set (hash_order xs) = set xs" and "\<forall>xs. set (hash_order' xs) = set xs"
  shows "apply_hierarchy hash_order' areas (apply_hierarchy hash_order areas d) = apply_hierarchy hash_order areas d"
proof -
  let ?d = "apply_hierarchy hash_order areas d"
  let ?node = "cis_to_node areas"
  let ?active = "fold (note_child ?node) (gd_stops d) []"
  have stops: "gd_stops ?d = map (hang_stop ?node) (gd_stops d)" by (simp add: apply_hierarchy_def Let_def)
  have "\<forall>(a, b) \<in> set (node_pairs (hash_order' ?active)). a \<noteq> b \<longrightarrow> transfer_exists (gd_transfers ?d) a b"
    using node_pairs_iff [of hash_order' ?node "gd_stops d"] hierarchy_transfers [OF assms(1), of areas d] assms(2) by blast
  then have "add_pairs (node_pairs (hash_order' ?active)) (gd_transfers ?d) = gd_transfers ?d" by (rule add_pairs_same)
  then show ?thesis
    unfolding apply_hierarchy_def [of hash_order' areas ?d] Let_def link_nodes_pairs stops note_child_hang
    by (simp add: stops [symmetric]) (simp add: stops o_def)
qed

section \<open>The best match\<close>

text \<open>
  A stop is matched with a candidate of its normalised name and of the highest confidence among these; it
  stays unmatched exactly when no candidate has its name.
\<close>

theorem match_stop_best:
  "case match_stop lower s candidates of
     None \<Rightarrow> \<not> list_ex (\<lambda>c. normalize_czech_name lower (gc_stop_name c) = normalize_czech_name lower (st_name s)) candidates
   | Some m \<Rightarrow> \<exists>c \<in> set candidates. normalize_czech_name lower (gc_stop_name c) = normalize_czech_name lower (st_name s) \<and>
       m = \<lparr>gm_lat = gc_lat c, gm_lon = gc_lon c, gm_source = gc_source c, gm_confidence = gc_confidence c\<rparr> \<and>
       list_all (\<lambda>c'. confidence_rank (gc_confidence c') \<le> confidence_rank (gc_confidence c))
         (filter (\<lambda>c'. normalize_czech_name lower (gc_stop_name c') = normalize_czech_name lower (st_name s)) candidates)"
proof -
  let ?same = "filter (\<lambda>c. normalize_czech_name lower (gc_stop_name c) = normalize_czech_name lower (st_name s)) candidates"
  let ?best = "max_by_key (\<lambda>c. confidence_rank (gc_confidence c)) ?same"
  show ?thesis
  proof (cases ?best)
    case None
    then show ?thesis by (auto simp: match_stop_def Let_def max_by_key_None filter_empty_conv list_ex_iff)
  next
    case (Some c)
    from max_by_key_Some(1) [OF this] max_by_key_Some(2) [OF this] show ?thesis
      by (auto simp: match_stop_def Let_def Some list_all_iff)
  qed
qed

section \<open>Examples\<close>

definition sample_platform :: "string \<Rightarrow> parsed_stop_record" where
  "sample_platform k = \<lparr>ps_node_id = ''n'', ps_stop_id = ''1'', ps_name = [], ps_platform_code = None, ps_cis_id = Some k,
     ps_lat = Finite 0, ps_lon = Finite 0\<rparr>"

definition sample_area :: stop_area_node where
  "sample_area = \<lparr>an_id = ''n'', an_name = [], an_centroid = (Finite 0, Finite 0),
     an_child_platforms = map sample_platform [''a'', ''b'', ''c'']\<rparr>"

definition hierarchy_stop :: "string \<Rightarrow> stop" where
  "hierarchy_stop k = stop_of_row (\<lambda>s. s) \<lparr>io_source_feed_id = ''pid'', io_source_priority = 10, io_limit_rows = None\<rparr>
     \<lparr>rs_stop_id = k, rs_stop_name = ascii ''Brno'', rs_stop_lat = None, rs_stop_lon = None, rs_platform_code = None,
      rs_location_type = None, rs_parent_station = None, rs_wheelchair_boarding = None\<rparr>"

definition hierarchy_sample :: gtfs_dataset where
  "hierarchy_sample = empty_dataset\<lparr>gd_stops := map hierarchy_stop [''a'', ''b'', ''orphan''],
     gd_transfers := [internal_transfer ''a'' ''b'']\<rparr>"

theorem hierarchy_links_areas_witness:
  "gd_transfers (apply_hierarchy rev [sample_area] hierarchy_sample) = [internal_transfer ''a'' ''b'', internal_transfer ''b'' ''a''] \<and>
   (\<exists>new. gd_transfers (apply_hierarchy rev [sample_area] hierarchy_sample) =
      gd_transfers hierarchy_sample @ map (\<lambda>(a, b). internal_transfer a b) new \<and> distinct new)"
proof -
  have "gd_transfers (apply_hierarchy rev [sample_area] hierarchy_sample) = [internal_transfer ''a'' ''b'', internal_transfer ''b'' ''a'']"
    by code_simp
  moreover have "\<forall>xs. set (rev xs) = set (xs :: (string \<times> string list) list)" by simp
  ultimately show ?thesis using hierarchy_links_areas [of rev "[sample_area]" hierarchy_sample] by blast
qed

theorem hierarchy_idempotent_witness:
  "apply_hierarchy (\<lambda>xs. xs) [sample_area] (apply_hierarchy rev [sample_area] hierarchy_sample) =
     apply_hierarchy rev [sample_area] hierarchy_sample"
  by (rule hierarchy_idempotent) simp_all

end
