(* ===== verification/Edit_Distance.thy ===== *)
theory Edit_Distance
  imports Transit_Model
begin

text \<open>
  \<open>levenshtein\<close> of \<^verbatim>\<open>services/api/src/lib.rs\<close>, with which the stop search forgives typing errors, and the
  proof that the single row of costs it overwrites in place gives the least number of insertions, deletions
  and substitutions.
\<close>

section \<open>The code\<close>

text \<open>One step of the inner loop: the costs and the value left of and above the cell.\<close>

fun lev_cell :: "nat \<Rightarrow> nat list \<times> nat \<Rightarrow> nat \<times> nat \<Rightarrow> nat list \<times> nat" where
  "lev_cell left_char (costs, previous_diagonal) (right_index, right_char) =
     (let insertion = costs ! (right_index + 1) + 1;
          deletion = costs ! right_index + 1;
          substitution = previous_diagonal + (if left_char \<noteq> right_char then 1 else 0)
      in (costs[right_index + 1 := min (min insertion deletion) substitution], costs ! (right_index + 1)))"

fun lev_row :: "ustring \<Rightarrow> nat list \<Rightarrow> nat \<times> nat \<Rightarrow> nat list" where
  "lev_row right costs (left_index, left_char) =
     fst (foldl (lev_cell left_char) (costs[0 := left_index + 1], left_index) (enumerate 0 right))"

definition levenshtein :: "ustring \<Rightarrow> ustring \<Rightarrow> nat" where
  "levenshtein left right = foldl (lev_row right) [0..<Suc (length right)] (enumerate 0 left) ! length right"

section \<open>Single edits\<close>

text \<open>One character is inserted, deleted or replaced, anywhere.\<close>

inductive edit1 :: "'a list \<Rightarrow> 'a list \<Rightarrow> bool" where
  insert: "edit1 (p @ s) (p @ c # s)"
| delete: "edit1 (p @ c # s) (p @ s)"
| replace: "edit1 (p @ c # s) (p @ d # s)"

lemma edit1_Cons: "edit1 xs ys \<Longrightarrow> edit1 (c # xs) (c # ys)"
  by (induction rule: edit1.induct) (metis append_Cons edit1.intros)+

lemma edits_Cons: "(edit1 ^^ n) xs ys \<Longrightarrow> (edit1 ^^ n) (c # xs) (c # ys)"
  by (induction n arbitrary: ys) (auto intro: edit1_Cons)

lemma edit1_rev: "edit1 xs ys \<Longrightarrow> edit1 (rev xs) (rev ys)"
  by (induction rule: edit1.induct) (simp; metis append_Cons append_assoc append_Nil edit1.intros)+

lemma edits_rev: "(edit1 ^^ n) xs ys \<Longrightarrow> (edit1 ^^ n) (rev xs) (rev ys)"
  by (induction n arbitrary: ys) (auto intro: edit1_rev)

lemmas edit1_heads = edit1.intros [where p = "[]", simplified]

text \<open>The textbook recursion.\<close>

fun edit_dist :: "'a list \<Rightarrow> 'a list \<Rightarrow> nat" where
  "edit_dist [] ys = length ys"
| "edit_dist xs [] = length xs"
| "edit_dist (x # xs) (y # ys) =
     min (min (edit_dist xs (y # ys) + 1) (edit_dist (x # xs) ys + 1)) (edit_dist xs ys + (if x \<noteq> y then 1 else 0))"

lemma edit_dist_Nil2 [simp]: "edit_dist xs [] = length xs"
  by (cases xs) auto

lemma edit_dist_self [simp]: "edit_dist xs xs = 0"
  by (induction xs) auto

text \<open>It counts edits that can be made.\<close>

lemma edits_delete_all: "(edit1 ^^ length xs) xs []"
proof (induction xs)
  case (Cons x xs)
  show ?case using relpowp_Suc_I2 [OF edit1_heads(2) Cons] by simp
qed simp

lemma edits_insert_all: "(edit1 ^^ length ys) [] ys"
proof (induction ys)
  case (Cons y ys)
  show ?case using relpowp_Suc_I [OF Cons edit1_heads(1) [of ys y]] by simp
qed simp

lemma edits_reach: "(edit1 ^^ edit_dist xs ys) xs ys"
proof (induction xs ys rule: edit_dist.induct)
  case (3 x xs y ys)
  let ?a = "edit_dist xs (y # ys)" and ?b = "edit_dist (x # xs) ys" and ?c = "edit_dist xs ys"
  have a: "(edit1 ^^ Suc ?a) (x # xs) (y # ys)"
    using "3.IH"(1) edit1_heads(2) by (rule relpowp_Suc_I2 [rotated])
  have b: "(edit1 ^^ Suc ?b) (x # xs) (y # ys)"
    using "3.IH"(2) edit1_heads(1) by (rule relpowp_Suc_I)
  have c: "(edit1 ^^ (?c + (if x \<noteq> y then 1 else 0))) (x # xs) (y # ys)"
  proof (cases "x = y")
    case False
    have "(edit1 ^^ Suc ?c) (x # xs) (y # ys)"
      using edits_Cons [OF "3.IH"(3)] edit1_heads(3) by (rule relpowp_Suc_I)
    with False show ?thesis by simp
  qed (use edits_Cons [OF "3.IH"(3)] in simp)
  show ?case using a b c by (simp add: min_def)
qed (simp_all only: edit_dist.simps edits_insert_all edits_delete_all)

text \<open>And fewer do not suffice: one edit changes the distance by one at most.\<close>

definition near :: "'a list \<Rightarrow> 'a list \<Rightarrow> bool" where
  "near ys zs \<longleftrightarrow> (\<forall>xs. edit_dist xs zs \<le> Suc (edit_dist xs ys))"

lemma edit_dist_Cons1: "edit_dist (x # xs) ys \<le> Suc (edit_dist xs ys)"
  by (cases ys) auto

lemma edit_dist_Cons2: "edit_dist xs (y # ys) \<le> Suc (edit_dist xs ys)"
  by (cases xs) auto

lemma near_insert: "near s (c # s)"
  by (simp add: near_def edit_dist_Cons2)

lemma near_delete: "near (c # s) s"
proof -
  have "edit_dist xs s \<le> Suc (edit_dist xs (c # s))" for xs
  proof (induction xs)
    case (Cons x xs)
    with edit_dist_Cons1 [of x xs s] show ?case by auto
  qed simp
  then show ?thesis by (simp add: near_def)
qed

lemma near_replace: "near (c # s) (d # s)"
proof -
  have "edit_dist xs (d # s) \<le> Suc (edit_dist xs (c # s))" for xs
    by (induction xs) auto
  then show ?thesis by (simp add: near_def)
qed

lemma near_Cons: "near ys zs \<Longrightarrow> near (c # ys) (c # zs)"
proof -
  assume near: "near ys zs"
  have "edit_dist xs (c # zs) \<le> Suc (edit_dist xs (c # ys))" for xs
  proof (induction xs)
    case Nil
    then show ?case using near by (simp add: near_def) (metis edit_dist.simps(1))
  next
    case (Cons x xs)
    have "edit_dist (x # xs) zs \<le> Suc (edit_dist (x # xs) ys)" "edit_dist xs zs \<le> Suc (edit_dist xs ys)"
      using near by (simp_all add: near_def)
    with Cons show ?case by auto
  qed
  then show ?thesis by (simp add: near_def)
qed

lemma near_edit1: "edit1 ys zs \<Longrightarrow> near ys zs"
proof (induction rule: edit1.induct)
  case (insert p s c)
  show ?case by (induction p) (auto intro: near_insert near_Cons)
next
  case (delete p c s)
  show ?case by (induction p) (auto intro: near_delete near_Cons)
next
  case (replace p c s d)
  show ?case by (induction p) (auto intro: near_replace near_Cons)
qed

lemma edits_bound: "(edit1 ^^ n) xs ys \<Longrightarrow> edit_dist xs ys \<le> n"
proof (induction n arbitrary: ys)
  case (Suc n)
  then obtain zs where zs: "(edit1 ^^ n) xs zs" "edit1 zs ys" by auto
  with near_edit1 [OF zs(2)] Suc.IH [OF zs(1)] show ?case
    by (simp add: near_def) (meson Suc_le_mono le_trans)
qed simp

lemma edit_dist_least: "edit_dist xs ys = (LEAST n. (edit1 ^^ n) xs ys)"
  by (rule Least_equality [symmetric]) (auto intro: edits_reach edits_bound)

lemma edit_dist_rev: "edit_dist (rev xs) (rev ys) = edit_dist xs ys"
  using edits_rev [OF edits_reach [of "rev xs" "rev ys"]] edits_rev [OF edits_reach [of xs ys]]
  by (intro antisym edits_bound) simp_all

section \<open>The row of costs\<close>

text \<open>The distance of prefixes.\<close>

definition prefix_dist :: "ustring \<Rightarrow> ustring \<Rightarrow> nat \<Rightarrow> nat \<Rightarrow> nat" where
  "prefix_dist l r i j = edit_dist (rev (take i l)) (rev (take j r))"

lemma prefix_dist_0 [simp]: "j \<le> length r \<Longrightarrow> prefix_dist l r 0 j = j" "i \<le> length l \<Longrightarrow> prefix_dist l r i 0 = i"
  by (auto simp: prefix_dist_def)

lemma prefix_dist_Suc:
  "i < length l \<Longrightarrow> j < length r \<Longrightarrow> prefix_dist l r (Suc i) (Suc j) =
     min (min (prefix_dist l r i (Suc j) + 1) (prefix_dist l r (Suc i) j + 1))
       (prefix_dist l r i j + (if l ! i \<noteq> r ! j then 1 else 0))"
  by (simp add: prefix_dist_def take_Suc_conv_app_nth)

text \<open>Within a row: the cells up to \<open>j\<close> are those of the new row.\<close>

lemma lev_cells:
  assumes i: "i < length l" and j: "j \<le> length r"
  shows "foldl (lev_cell (l ! i)) ((map (prefix_dist l r i) [0..<Suc (length r)])[0 := Suc i], i) (take j (enumerate 0 r)) =
    (map (\<lambda>k. prefix_dist l r (if k \<le> j then Suc i else i) k) [0..<Suc (length r)], prefix_dist l r i j)"
  using j
proof (induction j)
  case 0
  have "(map (prefix_dist l r i) [0..<Suc (length r)])[0 := Suc i] =
      map (\<lambda>k. prefix_dist l r (if k \<le> 0 then Suc i else i) k) [0..<Suc (length r)]"
    using i by (intro nth_equalityI) (auto simp: nth_list_update simp del: upt_Suc)
  then show ?case using i by simp
next
  case (Suc j)
  let ?row = "\<lambda>j. map (\<lambda>k. prefix_dist l r (if k \<le> j then Suc i else i) k) [0..<Suc (length r)]"
  have j: "j < length r" using Suc by simp
  have at: "?row j ! k = prefix_dist l r (if k \<le> j then Suc i else i) k" if "k \<le> length r" for k
    using that by (simp del: upt_Suc)
  have "lev_cell (l ! i) (?row j, prefix_dist l r i j) (j, r ! j) =
      ((?row j)[Suc j := prefix_dist l r (Suc i) (Suc j)], prefix_dist l r i (Suc j))"
    using i j by (simp add: at Let_def prefix_dist_Suc del: upt_Suc)
  moreover have "(?row j)[Suc j := prefix_dist l r (Suc i) (Suc j)] = ?row (Suc j)"
    using j by (intro nth_equalityI) (auto simp: nth_list_update le_Suc_eq simp del: upt_Suc)
  moreover have "take (Suc j) (enumerate 0 r) = take j (enumerate 0 r) @ [(j, r ! j)]"
    using j by (simp add: take_Suc_conv_app_nth nth_enumerate_eq)
  ultimately show ?case using Suc.IH j by (simp del: upt_Suc lev_cell.simps)
qed

lemma lev_row_step:
  assumes "i < length l"
  shows "lev_row r (map (prefix_dist l r i) [0..<Suc (length r)]) (i, l ! i) =
    map (prefix_dist l r (Suc i)) [0..<Suc (length r)]"
proof -
  have "foldl (lev_cell (l ! i)) ((map (prefix_dist l r i) [0..<Suc (length r)])[0 := Suc i], i) (enumerate 0 r) =
    (map (\<lambda>k. prefix_dist l r (if k \<le> length r then Suc i else i) k) [0..<Suc (length r)], prefix_dist l r i (length r))"
    using lev_cells [OF assms le_refl [of "length r"]] by simp
  then show ?thesis by (simp del: upt_Suc)
qed

lemma lev_rows:
  "i \<le> length l \<Longrightarrow> foldl (lev_row r) [0..<Suc (length r)] (take i (enumerate 0 l)) =
     map (prefix_dist l r i) [0..<Suc (length r)]"
proof (induction i)
  case 0
  show ?case by (auto intro!: nth_equalityI simp del: upt_Suc)
next
  case (Suc i)
  then have "take (Suc i) (enumerate 0 l) = take i (enumerate 0 l) @ [(i, l ! i)]"
    by (simp add: take_Suc_conv_app_nth nth_enumerate_eq)
  with Suc lev_row_step [of i l r] show ?case by simp
qed

lemma levenshtein_edit_dist: "levenshtein l r = edit_dist l r"
proof -
  have "foldl (lev_row r) [0..<Suc (length r)] (enumerate 0 l) = map (prefix_dist l r (length l)) [0..<Suc (length r)]"
    using lev_rows [of "length l" l r] by simp
  then show ?thesis by (simp add: levenshtein_def prefix_dist_def edit_dist_rev del: upt_Suc)
qed

text \<open>C25: The distance of the typing-error search, computed with one row of costs, is the least number of
  single-character insertions, deletions and replacements that turn one text into the other.
\<close>

theorem levenshtein_least: "levenshtein l r = (LEAST n. (edit1 ^^ n) l r)"
  by (simp add: levenshtein_edit_dist edit_dist_least)

end
