(* ===== verification/Stop_Search.thy ===== *)
theory Stop_Search
  imports Edit_Distance Journey_Ranking Request_Validation
begin

text \<open>
  \<^verbatim>\<open>services/api/src/lib.rs\<close> and \<^verbatim>\<open>controllers/transit.rs\<close>: the search for stops and cities by name, the merge of
  platforms into suggestions, and the list of stops in a map section, as the service runs without a database.
  Lengths are byte lengths and stay far below \<open>2 ^ 31\<close>, so the casts to \<open>i32\<close> keep them. The trigonometric
  functions, whose precision Rust leaves open, are the fields of \<open>float_library\<close>.
\<close>

section \<open>Text\<close>

definition begins :: "'a list \<Rightarrow> 'a list \<Rightarrow> bool" where
  "begins s p \<longleftrightarrow> take (length p) s = p"

definition strip_suffix :: "'a list \<Rightarrow> 'a list \<Rightarrow> 'a list option" where
  "strip_suffix suffix s = map_option rev (if begins (rev s) (rev suffix) then Some (drop (length suffix) (rev s)) else None)"

text \<open>\<open>str::find\<close>, as a number of characters.\<close>

definition find_text :: "'a list \<Rightarrow> 'a list \<Rightarrow> nat option" where
  "find_text needle s = find (\<lambda>i. begins (drop i s) needle) [0..<Suc (length s)]"

definition trim_end :: "ustring \<Rightarrow> ustring" where
  "trim_end s = rev (dropWhile is_whitespace (rev s))"

definition split_whitespace :: "ustring \<Rightarrow> ustring list" where
  "split_whitespace s = words_of (map (\<lambda>c. if is_whitespace c then None else Some c) s)"

definition byte_len :: "ustring \<Rightarrow> int" where
  "byte_len s = int (utf8_len s)"

definition fold_czech_character :: "nat \<Rightarrow> nat option" where
  "fold_czech_character c =
     (if c \<in> {0xE1, 0xE0, 0xE2, 0xE4} then Some 97
      else if c = 0x10D then Some 99
      else if c = 0x10F then Some 100
      else if c \<in> {0xE9, 0x11B, 0xE8, 0xEA, 0xEB} then Some 101
      else if c \<in> {0xED, 0xEC, 0xEE, 0xEF} then Some 105
      else if c = 0x148 then Some 110
      else if c \<in> {0xF3, 0xF2, 0xF4, 0xF6} then Some 111
      else if c = 0x159 then Some 114
      else if c = 0x161 then Some 115
      else if c = 0x165 then Some 116
      else if c \<in> {0xFA, 0x16F, 0xF9, 0xFB, 0xFC} then Some 117
      else if c \<in> {0xFD, 0xFF} then Some 121
      else if c = 0x17E then Some 122
      else None)"

fun search_text_step :: "ustring \<times> bool \<Rightarrow> nat \<Rightarrow> ustring \<times> bool" where
  "search_text_step (normalized, previous_was_space) c =
     (case fold_czech_character c of
        Some folded \<Rightarrow> (normalized @ [folded], False)
      | None \<Rightarrow>
          if is_ascii_alphanumeric c then (normalized @ [c], False)
          else if \<not> previous_was_space then (normalized @ [32], True)
          else (normalized, previous_was_space))"

definition normalize_search_text :: "(ustring \<Rightarrow> ustring) \<Rightarrow> ustring \<Rightarrow> ustring" where
  "normalize_search_text lower value =
     (let normalized = fst (foldl search_text_step ([], True) (lower (trim value)))
      in if normalized \<noteq> [] \<and> last normalized = 32 then butlast normalized else normalized)"

section \<open>Floating point\<close>

fun f64_neg :: "f64 \<Rightarrow> f64" where
  "f64_neg (Finite a) = Finite (- a)"
| "f64_neg Infinity = NegInfinity"
| "f64_neg NegInfinity = Infinity"
| "f64_neg NaN = NaN"

definition f64_sub :: "f64 \<Rightarrow> f64 \<Rightarrow> f64" where
  "f64_sub x y = f64_add x (f64_neg y)"

text \<open>Division by a number other than zero.\<close>

fun f64_div_by :: "f64 \<Rightarrow> real \<Rightarrow> f64" where
  "f64_div_by (Finite a) b = f64_of_real (a / b)"
| "f64_div_by NaN b = NaN"
| "f64_div_by Infinity b = (if 0 < b then Infinity else NegInfinity)"
| "f64_div_by NegInfinity b = (if 0 < b then NegInfinity else Infinity)"

text \<open>The saturating cast \<open>as i32\<close>.\<close>

fun f64_as_i32 :: "f64 \<Rightarrow> int" where
  "f64_as_i32 (Finite a) = max (- (2 ^ 31)) (min (2 ^ 31 - 1) (if 0 \<le> a then \<lfloor>a\<rfloor> else \<lceil>a\<rceil>))"
| "f64_as_i32 NaN = 0"
| "f64_as_i32 Infinity = 2 ^ 31 - 1"
| "f64_as_i32 NegInfinity = - (2 ^ 31)"

record float_library =
  fl_sin :: "f64 \<Rightarrow> f64"
  fl_cos :: "f64 \<Rightarrow> f64"
  fl_asin :: "f64 \<Rightarrow> f64"
  fl_sqrt :: "f64 \<Rightarrow> f64"

definition to_radians :: "f64 \<Rightarrow> f64" where
  "to_radians x = f64_mul x (f64_of_real 0.017453292519943295)"

definition haversine_m :: "float_library \<Rightarrow> f64 \<Rightarrow> f64 \<Rightarrow> f64 \<Rightarrow> f64 \<Rightarrow> f64" where
  "haversine_m fl lat1 lon1 lat2 lon2 =
     (let d_lat = to_radians (f64_sub lat2 lat1);
          d_lon = to_radians (f64_sub lon2 lon1);
          lat1 = to_radians lat1;
          lat2 = to_radians lat2;
          square = (\<lambda>x. f64_mul x x);
          a = f64_add (square (fl_sin fl (f64_div_by d_lat 2)))
                (f64_mul (f64_mul (fl_cos fl lat1) (fl_cos fl lat2)) (square (fl_sin fl (f64_div_by d_lon 2))))
      in f64_mul (Finite (2 * 6371000)) (fl_asin fl (fl_sqrt fl a)))"

section \<open>Scores\<close>

record city =
  ci_id :: string
  ci_name :: ustring
  ci_normalized_name :: ustring
  ci_region :: "ustring option"
  ci_country_code :: string
  ci_lat :: "f64 option"
  ci_lon :: "f64 option"
  ci_importance :: i32

text \<open>\<open>Option::max\<close>: nothing is less than anything.\<close>

definition max_score :: "int option \<Rightarrow> int option \<Rightarrow> int option" where
  "max_score a b = (case (a, b) of (Some x, Some y) \<Rightarrow> Some (max x y) | (None, _) \<Rightarrow> b | (_, None) \<Rightarrow> a)"

definition typo_distance_threshold :: "nat \<Rightarrow> nat" where
  "typo_distance_threshold n = (if n \<le> 2 then 0 else if n \<le> 5 then 1 else if n \<le> 9 then 2 else 3)"

text \<open>\<open>name_tokens[search_from..]\<close> is the second list.\<close>

fun tokens_follow :: "ustring list \<Rightarrow> ustring list \<Rightarrow> bool" where
  "tokens_follow [] name_tokens = True"
| "tokens_follow (query_token # rest) name_tokens =
     (case find (\<lambda>i. begins (name_tokens ! i) query_token) [0..<length name_tokens] of
        None \<Rightarrow> False
      | Some position \<Rightarrow> tokens_follow rest (drop (Suc position) name_tokens))"

definition tokens_match_in_order_by_prefix :: "ustring list \<Rightarrow> ustring list \<Rightarrow> bool" where
  "tokens_match_in_order_by_prefix query_tokens name_tokens \<longleftrightarrow> query_tokens \<noteq> [] \<and> tokens_follow query_tokens name_tokens"

definition tokens_match_unordered_by_prefix :: "ustring list \<Rightarrow> ustring list \<Rightarrow> bool" where
  "tokens_match_unordered_by_prefix query_tokens name_tokens \<longleftrightarrow> query_tokens \<noteq> [] \<and>
     list_all (\<lambda>query_token. list_ex (\<lambda>name_token. begins name_token query_token) name_tokens) query_tokens"

text \<open>The closest of the tokens within the threshold, the first of equally close ones.\<close>

definition closest_token :: "ustring \<Rightarrow> ustring list \<Rightarrow> (nat \<times> nat) option" where
  "closest_token query_token name_tokens =
     foldl (\<lambda>best (offset, name_token).
         let distance = levenshtein query_token name_token
         in if distance \<le> typo_distance_threshold (length query_token)
            then (case best of
                    Some (best_offset, best_distance) \<Rightarrow> if best_distance \<le> distance then best else Some (offset, distance)
                  | None \<Rightarrow> Some (offset, distance))
            else best)
       None (enumerate 0 name_tokens)"

fun fuzzy_tokens :: "ustring list \<Rightarrow> ustring list \<Rightarrow> int \<Rightarrow> int \<Rightarrow> (int \<times> int) option" where
  "fuzzy_tokens [] name_tokens distance_total matched_characters = Some (distance_total, matched_characters)"
| "fuzzy_tokens (query_token # rest) name_tokens distance_total matched_characters =
     (case closest_token query_token name_tokens of
        None \<Rightarrow> None
      | Some (offset, distance) \<Rightarrow>
          fuzzy_tokens rest (drop (Suc offset) name_tokens) (distance_total + int distance)
            (matched_characters + int (length query_token)))"

definition fuzzy_token_score :: "ustring list \<Rightarrow> ustring list \<Rightarrow> int option" where
  "fuzzy_token_score query_tokens name_tokens =
     (if query_tokens = [] \<or> name_tokens = [] then None
      else map_option (\<lambda>(distance_total, matched_characters). 6500 + matched_characters * 10 - distance_total * 35)
             (fuzzy_tokens query_tokens name_tokens 0 0))"

definition stop_name_initials :: "ustring list \<Rightarrow> ustring" where
  "stop_name_initials tokens = List.map_filter (\<lambda>token. case token of [] \<Rightarrow> None | c # _ \<Rightarrow> Some c) tokens"

definition searchable_stop_text :: "(ustring \<Rightarrow> ustring) \<Rightarrow> stop \<Rightarrow> ustring" where
  "searchable_stop_text lower s =
     join_words 32 (filter (\<lambda>part. part \<noteq> []) (map (normalize_search_text lower)
       (List.map_filter (\<lambda>part. part)
         [Some (st_name s), Some (st_normalized_name s), st_municipality s, st_district s, st_region s, st_platform_code s])))"

text \<open>The score for a typing error in the whole name, \<open>None\<close> when it is too far away.\<close>

definition similarity_score :: "ustring \<Rightarrow> ustring \<Rightarrow> int option" where
  "similarity_score query name =
     (let distance = levenshtein query name;
          max_len = max (length query) (length name);
          ratio = f64_sub (Finite 1) (f64_div_by (Finite (real distance)) (real max_len))
      in if f64_le (f64_of_real 0.62) ratio \<or> distance \<le> typo_distance_threshold (length query)
         then Some (6000 + f64_as_i32 (f64_mul ratio (Finite 500)) - int distance) else None)"

definition total_bytes :: "ustring list \<Rightarrow> int" where
  "total_bytes tokens = sum_list (map byte_len tokens)"

text \<open>How well the name of a stop fits: equal, a prefix, a part of its text.\<close>

definition literal_score :: "ustring \<Rightarrow> ustring \<Rightarrow> ustring \<Rightarrow> ustring \<Rightarrow> int option" where
  "literal_score query name normalized_name searchable_text =
     (if name = query \<or> normalized_name = query then Some 10000
      else if begins name query \<or> begins normalized_name query then Some (9000 - \<bar>byte_len name - byte_len query\<bar>)
      else map_option (\<lambda>position. 8000 - byte_len (take position searchable_text)) (find_text query searchable_text))"

definition token_score :: "ustring list \<Rightarrow> ustring list \<Rightarrow> int option" where
  "token_score query_tokens name_tokens =
     (if tokens_match_in_order_by_prefix query_tokens name_tokens then Some (7500 + total_bytes query_tokens)
      else if tokens_match_unordered_by_prefix query_tokens name_tokens then Some (7000 + total_bytes query_tokens)
      else None)"

definition stop_search_score_for_query :: "(ustring \<Rightarrow> ustring) \<Rightarrow> stop \<Rightarrow> ustring \<Rightarrow> int option" where
  "stop_search_score_for_query lower s query =
     (if query = [] then Some (if st_is_active s then 10 else 0)
      else (let name = normalize_search_text lower (st_name s);
                name_tokens = split_whitespace name;
                query_tokens = split_whitespace query;
                score = literal_score query name (normalize_search_text lower (st_normalized_name s)) (searchable_stop_text lower s);
                score = max_score score (token_score query_tokens name_tokens);
                score = max_score score (fuzzy_token_score query_tokens name_tokens);
                score = (if 3 \<le> length query
                         then max_score (max_score score
                                (if begins (stop_name_initials name_tokens) query then Some (6900 + byte_len query) else None))
                                (similarity_score query name)
                         else score)
            in map_option (\<lambda>v. v + (if st_is_active s then 10 else 0) + (if st_platform_code s = None then 20 else 0)) score))"

definition RAILWAY_SUFFIXES :: "string list" where
  "RAILWAY_SUFFIXES = ['' hlavni nadrazi'', '' hlavni stanice'', '' zeleznicni stanice'', '' railway station'', '' train station'',
     '' hlavni n'', '' hl n'', '' zel st'', '' nadrazi'']"

text \<open>\<open>find_map\<close> over the suffixes; a base that is empty is passed over.\<close>

fun strip_railway_suffix :: "string list \<Rightarrow> ustring \<Rightarrow> ustring option" where
  "strip_railway_suffix [] query = None"
| "strip_railway_suffix (suffix # suffixes) query =
     (case strip_suffix (ascii suffix) query of
        Some base \<Rightarrow> if trim_end base \<noteq> [] then Some (trim_end base) else strip_railway_suffix suffixes query
      | None \<Rightarrow> strip_railway_suffix suffixes query)"

definition railway_station_query_base :: "stop \<Rightarrow> ustring \<Rightarrow> ustring option" where
  "railway_station_query_base s query =
     (if railway_station_stop_base (st_id s) \<noteq> None \<or> Train \<in> set (st_modes s)
      then strip_railway_suffix RAILWAY_SUFFIXES query else None)"

definition railway_station_locality_omission_score :: "(ustring \<Rightarrow> ustring) \<Rightarrow> stop \<Rightarrow> ustring \<Rightarrow> int option" where
  "railway_station_locality_omission_score lower s query =
     (if Train \<notin> set (st_modes s) \<or> length (split_whitespace query) < 2 \<or> find_text (ascii ''nadrazi'') query = None then None
      else (let name = normalize_search_text lower (st_name s)
            in if name \<noteq> query \<and> strip_suffix query name \<noteq> None
               then Some (9500 - max (byte_len name - byte_len query) 0) else None))"

definition stop_search_score :: "(ustring \<Rightarrow> ustring) \<Rightarrow> stop \<Rightarrow> ustring \<Rightarrow> int option" where
  "stop_search_score lower s query =
     max_score (max_score (stop_search_score_for_query lower s query)
         (Option.bind (railway_station_query_base s query) (stop_search_score_for_query lower s)))
       (railway_station_locality_omission_score lower s query)"

definition city_search_score :: "(ustring \<Rightarrow> ustring) \<Rightarrow> city \<Rightarrow> ustring \<Rightarrow> int option" where
  "city_search_score lower c query =
     (if query = [] then Some (ci_importance c)
      else (let name = normalize_search_text lower (ci_name c);
                normalized_name = normalize_search_text lower (ci_normalized_name c);
                score = literal_score query name normalized_name normalized_name;
                score = (if 3 \<le> length query then max_score score (similarity_score query name) else score)
            in map_option (\<lambda>v. v + ci_importance c) score))"

section \<open>Which stops are one suggestion\<close>

definition pid_stop_complex_id :: "string \<Rightarrow> string option" where
  "pid_stop_complex_id stop_id =
     (case strip_prefix ''pid_gtfs:U'' stop_id of
        None \<Rightarrow> None
      | Some remainder \<Rightarrow>
          (let digits = takeWhile is_ascii_digit remainder; after = dropWhile is_ascii_digit remainder
           in if digits = [] \<or> after = [] \<or> hd after \<notin> {CHR ''S'', CHR ''Z''} then None else Some (''pid_gtfs:U'' @ digits)))"

definition canonical_stop_name_parts :: "(ustring \<Rightarrow> ustring) \<Rightarrow> ustring \<Rightarrow> ustring option \<Rightarrow> ustring" where
  "canonical_stop_name_parts lower name municipality =
     (let name = normalize_search_text lower name;
          sliced_name = (case find_text (ascii '' smer '') name of
             Some i \<Rightarrow> take i name
           | None \<Rightarrow> (case find_text (ascii '',smer '') name of Some i \<Rightarrow> take i name | None \<Rightarrow> name));
          municipality = (case municipality of Some m \<Rightarrow> normalize_search_text lower m | None \<Rightarrow> [])
      in if begins sliced_name (municipality @ [32]) \<and> municipality \<noteq> []
         then drop (length municipality + 1) sliced_name else sliced_name)"

definition canonical_stop_name :: "(ustring \<Rightarrow> ustring) \<Rightarrow> stop \<Rightarrow> ustring" where
  "canonical_stop_name lower s = canonical_stop_name_parts lower (st_name s) (st_municipality s)"

definition modal_kind :: "stop \<Rightarrow> bool \<times> bool \<times> bool \<times> bool" where
  "modal_kind s =
     (Train \<in> set (st_modes s),
      list_ex (\<lambda>m. m \<in> {Metro, Tram, Trolleybus, Bus}) (st_modes s),
      Ferry \<in> set (st_modes s),
      list_ex (\<lambda>m. m \<notin> {Ferry, UnknownMode}) (st_modes s))"

definition stop_modes_require_separate_suggestions :: "stop \<Rightarrow> stop \<Rightarrow> bool" where
  "stop_modes_require_separate_suggestions l r =
     (case (modal_kind l, modal_kind r) of
        ((l_railway, l_urban, l_ferry, l_non_ferry), (r_railway, r_urban, r_ferry, r_non_ferry)) \<Rightarrow>
          (l_railway \<and> \<not> l_urban \<and> r_urban \<and> \<not> r_railway) \<or> (r_railway \<and> \<not> r_urban \<and> l_urban \<and> \<not> l_railway) \<or>
          (l_ferry \<and> \<not> l_non_ferry \<and> r_non_ferry \<and> \<not> r_ferry) \<or> (r_ferry \<and> \<not> r_non_ferry \<and> l_non_ferry \<and> \<not> l_ferry))"

text \<open>The part that both comparisons of stops share: known places first, then distance or municipality.\<close>

definition same_some :: "'a option \<Rightarrow> 'a option \<Rightarrow> bool" where
  "same_some x y \<longleftrightarrow> x \<noteq> None \<and> x = y"

definition same_known_place :: "stop \<Rightarrow> stop \<Rightarrow> bool" where
  "same_known_place l r \<longleftrightarrow>
     same_some (pid_stop_complex_id (st_id l)) (pid_stop_complex_id (st_id r)) \<or>
     same_some (st_stop_area_id l) (st_stop_area_id r) \<or>
     same_some (st_parent_station_id l) (st_parent_station_id r) \<or>
     same_some (railway_station_stop_base (st_id l)) (railway_station_stop_base (st_id r))"

definition close_together :: "(ustring \<Rightarrow> ustring) \<Rightarrow> float_library \<Rightarrow> stop \<Rightarrow> stop \<Rightarrow> bool" where
  "close_together lower fl l r =
     (let l_municipality = map_option (normalize_search_text lower) (st_municipality l);
          r_municipality = map_option (normalize_search_text lower) (st_municipality r)
      in if l_municipality \<noteq> None \<and> r_municipality \<noteq> None \<and> l_municipality \<noteq> r_municipality then False
         else (case (st_lat l, st_lon l, st_lat r, st_lon r) of
                 (Some l_lat, Some l_lon, Some r_lat, Some r_lon) \<Rightarrow> f64_le (haversine_m fl l_lat l_lon r_lat r_lon) (Finite 300)
               | _ \<Rightarrow> same_some l_municipality r_municipality))"

definition stops_are_equivalent_for_routing :: "(ustring \<Rightarrow> ustring) \<Rightarrow> float_library \<Rightarrow> stop \<Rightarrow> stop \<Rightarrow> bool" where
  "stops_are_equivalent_for_routing lower fl l r \<longleftrightarrow>
     st_id l = st_id r \<or> same_known_place l r \<or>
     (canonical_stop_name lower l = canonical_stop_name lower r \<and> close_together lower fl l r)"

definition stops_are_same_suggestion :: "(ustring \<Rightarrow> ustring) \<Rightarrow> float_library \<Rightarrow> stop \<Rightarrow> stop \<Rightarrow> bool" where
  "stops_are_same_suggestion lower fl l r =
     (if st_id l = st_id r then True
      else if canonical_stop_name lower l \<noteq> canonical_stop_name lower r then False
      else if stop_modes_require_separate_suggestions l r then False
      else same_known_place l r \<or> close_together lower fl l r)"

definition stop_search_mode_rank :: "transport_mode \<Rightarrow> nat" where
  "stop_search_mode_rank m = (case m of Train \<Rightarrow> 0 | Metro \<Rightarrow> 1 | Tram \<Rightarrow> 2 | Trolleybus \<Rightarrow> 3 | Bus \<Rightarrow> 4 | Ferry \<Rightarrow> 5
     | CableCar \<Rightarrow> 6 | UnknownMode \<Rightarrow> 7)"

definition merge_stop_suggestion :: "stop \<Rightarrow> stop \<Rightarrow> stop" where
  "merge_stop_suggestion canonical sibling =
     (let modes = foldl (\<lambda>modes m. if m \<in> set modes then modes else modes @ [m]) (st_modes canonical) (st_modes sibling);
          modes = (if 1 < length modes then filter (\<lambda>m. m \<noteq> UnknownMode) modes else modes)
      in canonical\<lparr>st_modes := sort_key stop_search_mode_rank modes\<rparr>)"

definition merge_interchange_modes :: "(ustring \<Rightarrow> ustring) \<Rightarrow> stop \<Rightarrow> stop list \<Rightarrow> stop" where
  "merge_interchange_modes lower s members =
     foldl (\<lambda>s member. if canonical_stop_name lower s = canonical_stop_name lower member \<and>
                          \<not> stop_modes_require_separate_suggestions s member
                       then merge_stop_suggestion s member else s) s members"

definition stop_suggestion_mode_rank :: "stop \<Rightarrow> nat" where
  "stop_suggestion_mode_rank s =
     (if Ferry \<in> set (st_modes s) \<and> \<not> list_ex (\<lambda>m. m \<notin> {Ferry, UnknownMode}) (st_modes s) then 1 else 0)"

section \<open>Suggestions\<close>

text \<open>The direction that some feeds append to a name is cut off; 0x11B is the letter e with a caron.\<close>

definition direction_marks :: "ustring list" where
  "direction_marks = [ascii '' sm'' @ [0x11B] @ ascii ''r '', ascii '',sm'' @ [0x11B] @ ascii ''r '', ascii '' smer '', ascii '',smer '']"

fun first_mark :: "ustring list \<Rightarrow> ustring \<Rightarrow> nat option" where
  "first_mark [] s = None"
| "first_mark (mark # marks) s = (case find_text mark s of Some i \<Rightarrow> Some i | None \<Rightarrow> first_mark marks s)"

definition cut_direction :: "(ustring \<Rightarrow> ustring) \<Rightarrow> stop \<Rightarrow> stop" where
  "cut_direction lower s =
     (case first_mark direction_marks (lower (st_name s)) of
        None \<Rightarrow> s
      | Some chars \<Rightarrow>
          (let trimmed = trim_end (take chars (st_name s))
           in s\<lparr>st_name := (if trimmed \<noteq> [] \<and> last trimmed = 44 then butlast trimmed else trimmed)\<rparr>))"

fun add_suggestion :: "(stop \<Rightarrow> stop \<Rightarrow> bool) \<Rightarrow> stop list \<Rightarrow> stop \<Rightarrow> stop list" where
  "add_suggestion same [] s = [s]"
| "add_suggestion same (existing # suggestions) s =
     (if same existing s then merge_stop_suggestion existing s # suggestions
      else existing # add_suggestion same suggestions s)"

definition scored_stops :: "(ustring \<Rightarrow> ustring) \<Rightarrow> stop list \<Rightarrow> ustring \<Rightarrow> (int \<times> nat \<times> stop) list" where
  "scored_stops lower stops query =
     sort_key (\<lambda>(score, index, s). (- score, st_name s, stop_suggestion_mode_rank s, index))
       (List.map_filter (\<lambda>(index, s). map_option (\<lambda>score. (score, index, s)) (stop_search_score lower s query)) (enumerate 0 stops))"

definition ranked_stop_suggestions :: "(ustring \<Rightarrow> ustring) \<Rightarrow> float_library \<Rightarrow> stop list \<Rightarrow> ustring \<Rightarrow> usize \<Rightarrow> stop list" where
  "ranked_stop_suggestions lower fl stops query limit =
     (if limit = 0 then []
      else (let scored = scored_stops lower stops query;
                score_floor = (case scored of [] \<Rightarrow> None | (score, _) # _ \<Rightarrow> if 10000 \<le> score then Some 9000 else None);
                kept = filter (\<lambda>(score, _). case score_floor of None \<Rightarrow> True | Some lowest \<Rightarrow> lowest \<le> score) scored
            in take limit (foldl (add_suggestion (stops_are_same_suggestion lower fl)) []
                 (map (\<lambda>(_, _, s). cut_direction lower s) kept))))"

definition ranked_city_suggestions :: "(ustring \<Rightarrow> ustring) \<Rightarrow> city list \<Rightarrow> ustring \<Rightarrow> usize \<Rightarrow> city list" where
  "ranked_city_suggestions lower cities query limit =
     map snd (take limit (sort_key (\<lambda>(score, c). (- score, ci_name c))
       (List.map_filter (\<lambda>c. map_option (\<lambda>score. (score, c)) (city_search_score lower c query)) cities)))"

datatype candidate = CityCandidate city | StopCandidate stop

definition place_candidates :: "(ustring \<Rightarrow> ustring) \<Rightarrow> city list \<Rightarrow> stop list \<Rightarrow> ustring \<Rightarrow> (int \<times> ustring \<times> candidate) list" where
  "place_candidates lower cities stops query =
     sort_key (\<lambda>(score, name, _). (- score, name))
       (List.map_filter (\<lambda>c. map_option (\<lambda>score. (score, ci_name c, CityCandidate c)) (city_search_score lower c query)) cities @
        List.map_filter (\<lambda>s. map_option (\<lambda>score. (score, st_name s, StopCandidate s)) (stop_search_score lower s query)) stops)"

text \<open>The three lists of a search: the places in order, and its cities and stops apart.\<close>

definition ranked_place_suggestions ::
  "(ustring \<Rightarrow> ustring) \<Rightarrow> city list \<Rightarrow> stop list \<Rightarrow> ustring \<Rightarrow> usize \<Rightarrow> candidate list \<times> city list \<times> stop list" where
  "ranked_place_suggestions lower cities stops query limit =
     (let visible = map (\<lambda>(_, _, c). c) (take limit (place_candidates lower cities stops query))
      in (visible, List.map_filter (\<lambda>c. case c of CityCandidate x \<Rightarrow> Some x | _ \<Rightarrow> None) visible,
          List.map_filter (\<lambda>c. case c of StopCandidate x \<Rightarrow> Some x | _ \<Rightarrow> None) visible))"

end
