(* ===== verification/Stop_Handlers.thy ===== *)
theory Stop_Handlers
  imports Stop_Search Ticketing_Privacy
begin

text \<open>
  \<^verbatim>\<open>controllers/transit.rs\<close>: the handlers of the stop search, of the stops near a point and of the stops in a map
  section, with and without a database, with the JSON of their answers. The serialisation of a stop is derived
  by serde and is the parameter \<open>stop_json\<close>; the queries in SQL are the fields of the parameter \<open>place_db\<close>.
\<close>

section \<open>Places as JSON\<close>

definition json_text :: "ustring option \<Rightarrow> json" where
  "json_text v = (case v of Some s \<Rightarrow> JString (utf8 s) | None \<Rightarrow> JNull)"

definition json_float :: "f64 option \<Rightarrow> json" where
  "json_float v = (case v of Some x \<Rightarrow> if is_finite x then JFloat x else JNull | None \<Rightarrow> JNull)"

definition json_string :: "string option \<Rightarrow> json" where
  "json_string v = (case v of Some s \<Rightarrow> JString s | None \<Rightarrow> JNull)"

text \<open>Assignment to a field of an object.\<close>

fun json_set :: "string \<Rightarrow> json \<Rightarrow> json \<Rightarrow> json" where
  "json_set key v (JObject entries) = JObject (AList.update key v entries)"
| "json_set key v other = other"

definition city_search_json :: "city \<Rightarrow> json" where
  "city_search_json c = JObject
     [(''id'', JString (ci_id c)), (''name'', JString (utf8 (ci_name c))), (''normalized_name'', JString (utf8 (ci_normalized_name c))),
      (''place_type'', JString ''city''), (''region'', json_text (ci_region c)), (''country_code'', JString (ci_country_code c)),
      (''lat'', json_float (ci_lat c)), (''lon'', json_float (ci_lon c)), (''modes'', JArray [])]"

definition stop_place_type :: "(ustring \<Rightarrow> ustring) \<Rightarrow> stop \<Rightarrow> string" where
  "stop_place_type lower s =
     (case st_location_type s of
        EntranceExit \<Rightarrow> ''station_entrance''
      | GenericNode \<Rightarrow> ''generic_node''
      | BoardingArea \<Rightarrow> ''boarding_area''
      | _ \<Rightarrow>
          (let name = normalize_search_text lower (st_name s); has = (\<lambda>text. find_text (ascii text) name \<noteq> None)
           in if has ''letiste'' \<or> has ''airport'' then ''airport''
              else if Metro \<in> set (st_modes s) then ''metro_station''
              else if Tram \<in> set (st_modes s) then ''tram_stop''
              else if Ferry \<in> set (st_modes s) then ''ferry_terminal''
              else if Train \<in> set (st_modes s) then (if st_platform_code s = None then ''railway_station'' else ''railway_stop'')
              else if Bus \<in> set (st_modes s) \<or> Trolleybus \<in> set (st_modes s)
                then (if has ''autobusove nadrazi'' \<or> has ''bus station'' then ''bus_station'' else ''bus_stop'')
              else ''stop''))"

text \<open>\<open>str::split\<close> at a separator that is not empty.\<close>

function split_text :: "ustring \<Rightarrow> ustring \<Rightarrow> ustring list" where
  "split_text sep s =
     (if s = [] \<or> sep = [] then [s]
      else if begins s sep then [] # split_text sep (drop (length sep) s)
      else (case split_text sep (tl s) of [] \<Rightarrow> [[hd s]] | piece # pieces \<Rightarrow> (hd s # piece) # pieces))"
  by pat_completeness auto

termination
  by (relation "measure (\<lambda>(sep, s). length s)") auto

declare split_text.simps [simp del]

definition stop_aliases :: "ustring \<Rightarrow> ustring list" where
  "stop_aliases name = filter (\<lambda>alias. alias \<noteq> []) (map trim (split_text (ascii '' / '') name))"

definition stop_search_json :: "(ustring \<Rightarrow> ustring) \<Rightarrow> (stop \<Rightarrow> json) \<Rightarrow> stop \<Rightarrow> json" where
  "stop_search_json lower stop_json s =
     (let place_type = stop_place_type lower s; aliases = stop_aliases (st_name s);
          v = json_set ''place_type'' (JString place_type) (stop_json s);
          v = json_set ''marker_type'' (JString place_type) v;
          v = json_set ''canonical_name'' (JString (utf8 (case aliases of [] \<Rightarrow> st_name s | a # _ \<Rightarrow> a))) v;
          v = json_set ''aliases'' (JArray (map (JString \<circ> utf8) aliases)) v;
          v = json_set ''parent_stop_area_id'' (json_string (case st_stop_area_id s of Some a \<Rightarrow> Some a | None \<Rightarrow> st_parent_station_id s)) v
      in json_set ''map_visible'' (JBool (st_location_type s \<notin> {GenericNode, BoardingArea})) v)"

definition candidate_json :: "(ustring \<Rightarrow> ustring) \<Rightarrow> (stop \<Rightarrow> json) \<Rightarrow> candidate \<Rightarrow> json" where
  "candidate_json lower stop_json c =
     (case c of CityCandidate x \<Rightarrow> city_search_json x | StopCandidate x \<Rightarrow> stop_search_json lower stop_json x)"

definition mock_status :: "bool \<Rightarrow> json" where
  "mock_status use_mock_data = JObject
     [(''source'', JString (if use_mock_data then ''mock'' else ''database'')),
      (''schedule'', JString (if use_mock_data then ''mock'' else ''current'')), (''realtime'', JString ''unavailable''),
      (''warnings'', JArray (if use_mock_data then [JString ''development fixture data is in use''] else []))]"

section \<open>The search in the database\<close>

record stops_in_bounds_query =
  bq_south :: f64
  bq_west :: f64
  bq_north :: f64
  bq_east :: f64
  bq_limit :: "usize option"
  bq_cursor :: "string option"

text \<open>
  What the SQL queries answer. A failed query is the text of its error. \<open>pd_in_time\<close> tells whether the search
  of stops and cities ends before its timeout.
\<close>

record place_db =
  pd_any_stops :: "int \<Rightarrow> int \<Rightarrow> string + stop list"
  pd_direct_prefix :: "ustring \<Rightarrow> int \<Rightarrow> string + stop list"
  pd_prefix :: "ustring \<Rightarrow> ustring \<Rightarrow> int \<Rightarrow> string + stop list"
  pd_similar :: "ustring \<Rightarrow> ustring \<Rightarrow> ustring \<Rightarrow> int \<Rightarrow> int \<Rightarrow> string + stop list"
  pd_complex_members :: "string list \<Rightarrow> string + stop list"
  pd_cities :: "ustring \<Rightarrow> ustring \<Rightarrow> usize \<Rightarrow> string + city list"
  pd_in_time :: bool
  pd_related :: "stop list \<Rightarrow> string + json"
  pd_near :: "f64 \<Rightarrow> f64 \<Rightarrow> f64 \<Rightarrow> string + stop list"
  pd_in_bounds :: "stops_in_bounds_query \<Rightarrow> usize \<Rightarrow> string + stop list"

definition pid_source_stop_query :: "ustring \<Rightarrow> ustring" where
  "pid_source_stop_query normalized_query =
     (if begins normalized_query (ascii ''palackeho namesti nabr'') then ascii ''palackeho namesti'' else normalized_query)"

definition stop_search_candidate_limit :: "usize \<Rightarrow> int" where
  "stop_search_candidate_limit limit = int (max 20 (min 100 (max limit 1 * 6)))"

text \<open>\<open>sort\<close> and \<open>dedup\<close>.\<close>

definition complex_ids_of :: "stop list \<Rightarrow> string list" where
  "complex_ids_of stops = remdups_adj (sort (List.map_filter (\<lambda>s. pid_stop_complex_id (st_id s)) stops))"

definition members_of_complex :: "stop list \<Rightarrow> string \<Rightarrow> stop list" where
  "members_of_complex members complex_id = filter (\<lambda>m. pid_stop_complex_id (st_id m) = Some complex_id) members"

definition pid_stop_complex_members_db :: "place_db \<Rightarrow> string list \<Rightarrow> string + stop list" where
  "pid_stop_complex_members_db db complex_ids = (if complex_ids = [] then Inr [] else pd_complex_members db complex_ids)"

definition ranked_stop_suggestions_db ::
  "(ustring \<Rightarrow> ustring) \<Rightarrow> float_library \<Rightarrow> place_db \<Rightarrow> stop list \<Rightarrow> ustring \<Rightarrow> usize \<Rightarrow> string + stop list" where
  "ranked_stop_suggestions_db lower fl db stops normalized_query limit =
     bind_result (pid_stop_complex_members_db db (complex_ids_of stops)) (\<lambda>members.
       (let stops = map (\<lambda>s. case pid_stop_complex_id (st_id s) of
              Some complex_id \<Rightarrow> merge_interchange_modes lower s (members_of_complex members complex_id)
            | None \<Rightarrow> s) stops
        in Inr (ranked_stop_suggestions lower fl stops normalized_query limit)))"

text \<open>The queries from the most to the least specific; the first with an answer decides.\<close>

definition stop_candidates_db :: "place_db \<Rightarrow> ustring \<Rightarrow> ustring \<Rightarrow> ustring \<Rightarrow> int \<Rightarrow> string + stop list" where
  "stop_candidates_db db normalized raw_query normalized_query candidate_limit =
     (let raw_candidate_limit = min (candidate_limit * 4) 400
      in if normalized = [] then pd_any_stops db raw_candidate_limit candidate_limit
         else bind_result (pd_direct_prefix db normalized candidate_limit) (\<lambda>rows.
           if rows \<noteq> [] then Inr rows
           else bind_result (pd_prefix db normalized (trim raw_query) candidate_limit) (\<lambda>rows.
             if rows \<noteq> [] then Inr rows
             else (let first_token = (case split_whitespace normalized_query of [] \<Rightarrow> [] | t # _ \<Rightarrow> t)
                   in pd_similar db normalized (trim raw_query) first_token raw_candidate_limit candidate_limit))))"

definition search_stops_db ::
  "(ustring \<Rightarrow> ustring) \<Rightarrow> float_library \<Rightarrow> place_db \<Rightarrow> ustring \<Rightarrow> ustring \<Rightarrow> usize \<Rightarrow> string + stop list" where
  "search_stops_db lower fl db raw_query normalized_query limit =
     bind_result (stop_candidates_db db (pid_source_stop_query (normalize_czech_name lower raw_query)) raw_query normalized_query
         (stop_search_candidate_limit limit)) (\<lambda>stops.
       ranked_stop_suggestions_db lower fl db stops normalized_query limit)"

definition database_data_status :: json where
  "database_data_status = JObject [(''source'', JString ''database''), (''schedule'', JString ''current''),
     (''realtime'', JString ''source_dependent''), (''warnings'', JArray [])]"

definition service_unavailable :: api_error where
  "service_unavailable = \<lparr>ae_code = ''upstream_unavailable'', ae_message = ''Transport data is temporarily unavailable''\<rparr>"

text \<open>A failed search; \<open>search_stops\<close> recognises it by the schedule \<open>unknown\<close>.\<close>

definition stop_search_failure_response :: "bool \<Rightarrow> string \<Rightarrow> json" where
  "stop_search_failure_response include_cities warning =
     (let data_status = JObject [(''source'', JString ''database''), (''schedule'', JString ''unknown''),
            (''realtime'', JString ''unavailable''), (''warnings'', JArray [JString warning])]
      in if include_cities
         then JObject [(''results'', JArray []), (''cities'', JArray []), (''stops'', JArray []), (''data_status'', data_status)]
         else JObject [(''stops'', JArray []), (''data_status'', data_status)])"

section \<open>Handlers\<close>

record place_state =
  pl_stops :: "stop list"
  pl_cities :: "city list"
  pl_use_mock_data :: bool
  pl_db :: "place_db option"

record stop_search_query =
  sq_q :: "ustring option"
  sq_limit :: "usize option"
  sq_include_cities :: bool
  sq_include_related :: bool

definition search_response ::
  "(ustring \<Rightarrow> ustring) \<Rightarrow> (stop \<Rightarrow> json) \<Rightarrow> (candidate list \<times> city list) option \<Rightarrow> stop list \<Rightarrow> json \<Rightarrow> json" where
  "search_response lower stop_json with_cities stops data_status =
     (let stops = (''stops'', JArray (map (stop_search_json lower stop_json) stops))
      in case with_cities of
           Some (results, cities) \<Rightarrow>
             JObject [(''results'', JArray (map (candidate_json lower stop_json) results)),
               (''cities'', JArray (map city_search_json cities)), stops, (''data_status'', data_status)]
         | None \<Rightarrow> JObject [stops, (''data_status'', data_status)])"

definition search_stops_with_db ::
  "(ustring \<Rightarrow> ustring) \<Rightarrow> float_library \<Rightarrow> (stop \<Rightarrow> json) \<Rightarrow> place_db \<Rightarrow> stop_search_query \<Rightarrow> ustring \<Rightarrow> usize \<Rightarrow> json" where
  "search_stops_with_db lower fl stop_json db query q limit =
     (let normalized = normalize_search_text lower q;
          stop_limit = (if sq_include_cities query then min (limit * 2) 50 else limit);
          found = search_stops_db lower fl db q normalized stop_limit;
          cities = (if sq_include_cities query
                    then (case pd_cities db q normalized limit of Inr cities \<Rightarrow> cities | Inl _ \<Rightarrow> []) else [])
      in if \<not> pd_in_time db
         then stop_search_failure_response (sq_include_cities query) ''database stop search timed out after 3 seconds''
         else (case found of
             Inl _ \<Rightarrow> stop_search_failure_response (sq_include_cities query) ''database stop search unavailable''
           | Inr stops \<Rightarrow>
               (let (results, visible_cities, visible_stops) = ranked_place_suggestions lower cities stops normalized limit;
                    response = search_response lower stop_json
                      (if sq_include_cities query then Some (results, visible_cities) else None) visible_stops database_data_status
                in if sq_include_related query
                   then json_set ''related'' (case pd_related db visible_stops of
                            Inr related \<Rightarrow> related
                          | Inl _ \<Rightarrow> JObject [(''warnings'', JArray [JString ''database stop related data unavailable''])]) response
                   else response)))"

definition search_stops_inner ::
  "(ustring \<Rightarrow> ustring) \<Rightarrow> float_library \<Rightarrow> (stop \<Rightarrow> json) \<Rightarrow> place_state \<Rightarrow> stop_search_query \<Rightarrow> json" where
  "search_stops_inner lower fl stop_json state query =
     (let q = (case sq_q query of Some q \<Rightarrow> q | None \<Rightarrow> []);
          normalized = normalize_search_text lower q;
          limit = max 1 (min 50 (case sq_limit query of Some n \<Rightarrow> n | None \<Rightarrow> 10))
      in case pl_db state of
           Some db \<Rightarrow> search_stops_with_db lower fl stop_json db query q limit
         | None \<Rightarrow>
             (let stops = ranked_stop_suggestions lower fl (pl_stops state) normalized limit;
                  status = mock_status (pl_use_mock_data state)
              in if sq_include_cities query
                 then (let cities = ranked_city_suggestions lower (pl_cities state) normalized 50;
                           (results, visible_cities, visible_stops) = ranked_place_suggestions lower cities stops normalized limit
                       in search_response lower stop_json (Some (results, visible_cities)) visible_stops status)
                 else search_response lower stop_json None stops status))"

text \<open>Indexing a value by a key; a missing key is \<open>JNull\<close>.\<close>

fun json_index :: "json \<Rightarrow> string \<Rightarrow> json" where
  "json_index (JObject entries) key = (case map_of entries key of Some v \<Rightarrow> v | None \<Rightarrow> JNull)"
| "json_index other key = JNull"

definition search_stops ::
  "(ustring \<Rightarrow> ustring) \<Rightarrow> float_library \<Rightarrow> (stop \<Rightarrow> json) \<Rightarrow> place_state \<Rightarrow> stop_search_query \<Rightarrow> api_error + json" where
  "search_stops lower fl stop_json state query =
     bind_result (ensure (case sq_q query of Some q \<Rightarrow> \<not> (200 < utf8_len q \<or> list_ex is_control q) | None \<Rightarrow> True)
       (invalid ''q must contain at most 200 bytes and no control characters'')) (\<lambda>_.
     bind_result (ensure (case sq_limit query of Some n \<Rightarrow> 1 \<le> n \<and> n \<le> 50 | None \<Rightarrow> True)
       (invalid ''limit must be between 1 and 50'')) (\<lambda>_.
       (let result = search_stops_inner lower fl stop_json state query
        in bind_result (ensure (json_index (json_index result ''data_status'') ''schedule'' \<noteq> JString ''unknown'') service_unavailable)
             (\<lambda>_. Inr result))))"

text \<open>A search that failed or took too long is refused, never answered with an empty list.\<close>

lemma failed_search_refused:
  assumes "pl_db state = Some db" and "\<not> pd_in_time db \<or> (\<forall>n. \<exists>e. search_stops_db lower fl db
      (case sq_q query of Some q \<Rightarrow> q | None \<Rightarrow> []) (normalize_search_text lower (case sq_q query of Some q \<Rightarrow> q | None \<Rightarrow> [])) n = Inl e)"
  shows "\<exists>e. search_stops lower fl stop_json state query = Inl e"
proof -
  let ?q = "case sq_q query of Some q \<Rightarrow> q | None \<Rightarrow> []"
  have "\<exists>warning. search_stops_inner lower fl stop_json state query = stop_search_failure_response (sq_include_cities query) warning"
    using assms(2)
  proof
    assume failed: "\<forall>n. \<exists>e. search_stops_db lower fl db ?q (normalize_search_text lower ?q) n = Inl e"
    let ?limit = "max 1 (min 50 (case sq_limit query of Some n \<Rightarrow> n | None \<Rightarrow> 10))"
    obtain e where e: "search_stops_db lower fl db ?q (normalize_search_text lower ?q)
        (if sq_include_cities query then min (?limit * 2) 50 else ?limit) = Inl e" using failed by blast
    show ?thesis unfolding search_stops_inner_def search_stops_with_db_def Let_def assms(1) option.case e sum.case by auto
  qed (use assms(1) in \<open>auto simp: search_stops_inner_def search_stops_with_db_def Let_def\<close>)
  moreover have "json_index (json_index (stop_search_failure_response cities warning) ''data_status'') ''schedule'' = JString ''unknown''"
    for cities warning by (cases cities) (simp_all add: stop_search_failure_response_def)
  ultimately show ?thesis by (auto simp: search_stops_def bind_result_def ensure_def Let_def split: sum.splits)
qed

definition stops_near :: "float_library \<Rightarrow> stop list \<Rightarrow> nearby_query \<Rightarrow> f64 \<Rightarrow> stop list" where
  "stops_near fl stops query radius =
     filter (\<lambda>s. case (st_lat s, st_lon s) of
         (Some lat, Some lon) \<Rightarrow> f64_le (haversine_m fl (nq_lat query) (nq_lon query) lat lon) radius
       | _ \<Rightarrow> False) stops"

definition nearby_stops :: "float_library \<Rightarrow> (stop \<Rightarrow> json) \<Rightarrow> place_state \<Rightarrow> nearby_query \<Rightarrow> api_error + json" where
  "nearby_stops fl stop_json state query =
     bind_result (validate_nearby query) (\<lambda>_.
       (let radius = (case nq_radius query of Some r \<Rightarrow> r | None \<Rightarrow> Finite 1000);
            response = (\<lambda>stops data_status. JObject [(''stops'', JArray (map stop_json stops)), (''radius'', json_float (Some radius)),
              (''data_status'', data_status)])
        in case pl_db state of
             Some db \<Rightarrow> (case pd_near db (nq_lat query) (nq_lon query) radius of
                 Inr stops \<Rightarrow> Inr (response stops database_data_status)
               | Inl _ \<Rightarrow> Inl service_unavailable)
           | None \<Rightarrow> Inr (response (stops_near fl (pl_stops state) query radius) (mock_status (pl_use_mock_data state)))))"

definition validate_bounds :: "stops_in_bounds_query \<Rightarrow> api_error + unit" where
  "validate_bounds q =
     (let valid_latitude = (\<lambda>v. is_finite v \<and> in_f64_range (-90) 90 v);
          valid_longitude = (\<lambda>v. is_finite v \<and> in_f64_range (-180) 180 v)
      in bind_result (ensure (valid_latitude (bq_south q) \<and> valid_latitude (bq_north q))
           (invalid ''south and north must be finite latitudes between -90 and 90'')) (\<lambda>_.
         bind_result (ensure (valid_longitude (bq_west q) \<and> valid_longitude (bq_east q))
           (invalid ''west and east must be finite longitudes between -180 and 180'')) (\<lambda>_.
         bind_result (ensure (\<not> f64_le (bq_north q) (bq_south q)) (invalid ''south must be less than north'')) (\<lambda>_.
         bind_result (ensure (\<not> f64_le (bq_east q) (bq_west q)) (invalid ''west must be less than east'')) (\<lambda>_.
         bind_result (ensure (case bq_limit q of Some n \<Rightarrow> 1 \<le> n \<and> n \<le> 1000 | None \<Rightarrow> True)
           (invalid ''limit must be between 1 and 1000'')) (\<lambda>_.
         ensure (bq_cursor q \<noteq> Some []) (invalid ''cursor must not be empty'')))))))"

definition in_bounds :: "stops_in_bounds_query \<Rightarrow> stop \<Rightarrow> bool" where
  "in_bounds q s =
     (case (st_lat s, st_lon s) of
        (Some lat, Some lon) \<Rightarrow> f64_le (bq_south q) lat \<and> f64_le lat (bq_north q) \<and> f64_le (bq_west q) lon \<and> f64_le lon (bq_east q)
      | _ \<Rightarrow> False)"

definition after_cursor :: "string option \<Rightarrow> stop \<Rightarrow> bool" where
  "after_cursor cursor s = (case cursor of None \<Rightarrow> True | Some c \<Rightarrow> c < st_id s)"

text \<open>One page and the cursor of the next.\<close>

definition cut_page :: "usize \<Rightarrow> stop list \<Rightarrow> stop list \<times> string option" where
  "cut_page limit stops =
     (let page = take limit stops
      in (page, if limit < length stops then (if page = [] then None else Some (st_id (last page))) else None))"

definition stops_in_bounds_response ::
  "(ustring \<Rightarrow> ustring) \<Rightarrow> (stop \<Rightarrow> json) \<Rightarrow> stop list \<times> string option \<Rightarrow> json \<Rightarrow> json" where
  "stops_in_bounds_response lower stop_json page data_status =
     JObject [(''stops'', JArray (map (stop_search_json lower stop_json) (fst page))), (''nextCursor'', json_string (snd page)),
       (''data_status'', data_status)]"

definition bounds_page :: "stop list \<Rightarrow> stops_in_bounds_query \<Rightarrow> api_error + (stop list \<times> string option)" where
  "bounds_page stops query =
     bind_result (validate_bounds query) (\<lambda>_.
       (let limit = (case bq_limit query of Some n \<Rightarrow> n | None \<Rightarrow> 500)
        in Inr (cut_page limit (take (limit + 1) (sort_key st_id
             (filter (after_cursor (bq_cursor query)) (filter (in_bounds query) (filter st_is_active stops))))))))"

definition stops_in_bounds ::
  "(ustring \<Rightarrow> ustring) \<Rightarrow> (stop \<Rightarrow> json) \<Rightarrow> place_state \<Rightarrow> stops_in_bounds_query \<Rightarrow> api_error + json" where
  "stops_in_bounds lower stop_json state query =
     bind_result (validate_bounds query) (\<lambda>_.
       (let limit = (case bq_limit query of Some n \<Rightarrow> n | None \<Rightarrow> 500)
        in case pl_db state of
             Some db \<Rightarrow> (case pd_in_bounds db query limit of
                 Inr stops \<Rightarrow> Inr (stops_in_bounds_response lower stop_json (cut_page limit stops) database_data_status)
               | Inl _ \<Rightarrow> Inl service_unavailable)
           | None \<Rightarrow> bind_result (bounds_page (pl_stops state) query) (\<lambda>page.
               Inr (stops_in_bounds_response lower stop_json page (mock_status (pl_use_mock_data state))))))"

section \<open>Browsing a map section\<close>

text \<open>A client that asks for at most \<open>n\<close> pages, each from the cursor that the page before returned.\<close>

fun browse :: "nat \<Rightarrow> stop list \<Rightarrow> stops_in_bounds_query \<Rightarrow> api_error + stop list" where
  "browse 0 stops query = Inr []"
| "browse (Suc n) stops query =
     bind_result (bounds_page stops query) (\<lambda>(page, next_cursor).
       (case next_cursor of
          None \<Rightarrow> Inr page
        | Some c \<Rightarrow> bind_result (browse n stops (query\<lparr>bq_cursor := Some c\<rparr>)) (\<lambda>rest. Inr (page @ rest))))"

lemma cut_page_nonempty: "0 < limit \<Longrightarrow> cut_page limit stops =
    (take limit stops, if limit < length stops then Some (st_id (last (take limit stops))) else None)"
  by (auto simp: cut_page_def Let_def)

lemma sorted_after_split:
  assumes "sorted_wrt (\<lambda>s t. st_id s < st_id t) (xs @ ys)" and "xs \<noteq> []"
  shows "filter (after_cursor (Some (st_id (last xs)))) (xs @ ys) = ys"
proof -
  obtain zs z where xs: "xs = zs @ [z]" using assms(2) by (cases xs rule: rev_cases) auto
  have "\<not> st_id z < st_id s" if "s \<in> set xs" for s using assms(1) that by (auto simp: xs sorted_wrt_append)
  moreover have "st_id z < st_id s" if "s \<in> set ys" for s using assms(1) that by (auto simp: xs sorted_wrt_append)
  ultimately show ?thesis by (auto simp: xs after_cursor_def)
qed

lemma sort_key_strict:
  assumes "distinct (map st_id xs)"
  shows "sorted_wrt (\<lambda>s t. st_id s < st_id t) (sort_key st_id xs)"
proof -
  have "distinct (map st_id (sort_key st_id xs))" using assms by (simp add: distinct_map)
  then have "sorted_wrt (<) (map st_id (sort_key st_id xs))" by (simp add: strict_sorted_iff)
  then show ?thesis by (simp add: sorted_wrt_map)
qed

lemma validate_bounds_cursor: "c \<noteq> [] \<Longrightarrow> validate_bounds q = Inr () \<Longrightarrow> validate_bounds (q\<lparr>bq_cursor := Some c\<rparr>) = Inr ()"
  by (simp add: validate_bounds_def Let_def bind_result_Inr ensure_Inr)

lemma in_bounds_cursor [simp]: "in_bounds (q\<lparr>bq_cursor := c\<rparr>) s = in_bounds q s"
  by (cases "st_lat s"; cases "st_lon s") (simp_all add: in_bounds_def)

text \<open>The pages are the chunks of the sorted list.\<close>

lemma browse_from:
  assumes valid: "validate_bounds query = Inr ()" and ids: "'''' \<notin> st_id ` set all" "1 \<le> limit"
    and limit: "limit = (case bq_limit query of Some n \<Rightarrow> n | None \<Rightarrow> 500)"
    and all: "all = sort_key st_id (filter (in_bounds query) (filter st_is_active stops))"
    and strict: "sorted_wrt (\<lambda>s t. st_id s < st_id t) all" and len: "length rest \<le> n * limit" "n \<noteq> 0"
    and split: "all = seen @ rest" "filter (after_cursor (bq_cursor query)) all = rest"
  shows "browse n stops query = Inr rest"
  using len valid limit all split
proof (induction n arbitrary: query seen rest)
  case (Suc n)
  let ?page = "take limit rest"
  have "sort_key st_id (filter (after_cursor (bq_cursor query)) (filter (in_bounds query) (filter st_is_active stops))) = rest"
    using Suc.prems(7) by (simp add: Suc.prems(5) filter_sort)
  then have page: "bounds_page stops query = Inr (?page, if limit < length rest then Some (st_id (last ?page)) else None)"
    using ids(2) Suc.prems(4) by (simp add: bounds_page_def Suc.prems(3) bind_result_def cut_page_nonempty min_absorb1 Let_def)
  show ?case
  proof (cases "limit < length rest")
    case True
    let ?query = "query\<lparr>bq_cursor := Some (st_id (last ?page))\<rparr>"
    have nonempty: "?page \<noteq> []" using True ids(2) by auto
    have "last ?page \<in> set all" using last_in_set [OF nonempty] Suc.prems(6) by (auto dest: in_set_takeD)
    then have "st_id (last ?page) \<noteq> ''''" using ids(1) by force
    then have "validate_bounds ?query = Inr ()" using Suc.prems(3) by (rule validate_bounds_cursor)
    moreover have "in_bounds ?query = in_bounds query" by (rule ext) simp
    moreover have "filter (after_cursor (bq_cursor ?query)) all = drop limit rest"
      using sorted_after_split [of "seen @ ?page" "drop limit rest"] strict nonempty Suc.prems(6) by simp
    moreover have "all = (seen @ ?page) @ drop limit rest" using Suc.prems(6) by simp
    moreover have "length (drop limit rest) \<le> n * limit" "n \<noteq> 0" using Suc.prems(1) True by (auto intro: ccontr)
    ultimately have "browse n stops ?query = Inr (drop limit rest)"
      using Suc.IH [of "drop limit rest" ?query "seen @ ?page"] Suc.prems(4,5) by simp
    with True page show ?thesis by (simp add: bind_result_def)
  qed (use page in \<open>simp add: bind_result_def\<close>)
qed simp

text \<open>Browsing a map section is complete: following the cursors, a client receives every active stop in the section
  exactly once, in the order of identifiers, and needs no more requests than the number of stops divided by
  the limit, rounded up.
\<close>

theorem browse_complete:
  assumes "validate_bounds query = Inr ()" and "bq_cursor query = None"
    and "distinct (map st_id stops)" and "'''' \<notin> st_id ` set stops"
    and "limit = (case bq_limit query of Some m \<Rightarrow> m | None \<Rightarrow> 500)"
    and "length (filter (in_bounds query) (filter st_is_active stops)) \<le> n * limit" and "0 < n"
  shows "browse n stops query = Inr (sort_key st_id (filter (in_bounds query) (filter st_is_active stops)))"
proof -
  let ?found = "filter (in_bounds query) (filter st_is_active stops)"
  have "distinct (map st_id ?found)" using assms(3) by (simp add: distinct_map inj_on_def)
  then have strict: "sorted_wrt (\<lambda>s t. st_id s < st_id t) (sort_key st_id ?found)" by (rule sort_key_strict)
  have "1 \<le> limit" using assms(1,5)
    by (auto simp: validate_bounds_def bind_result_def ensure_def Let_def split: if_splits option.splits)
  moreover have "filter (after_cursor (bq_cursor query)) (sort_key st_id ?found) = sort_key st_id ?found"
    using assms(2) by (simp add: after_cursor_def)
  moreover have "'''' \<notin> st_id ` set (sort_key st_id ?found)" using assms(4) by auto
  ultimately show ?thesis using assms(1,5,6,7) strict
    by (intro browse_from [where seen = "[]" and limit = limit]) (simp_all only: length_sort append_Nil, auto)
qed

definition sample_stop :: "string \<Rightarrow> stop" where
  "sample_stop k = \<lparr>st_id = k, st_source_ids = [], st_name = ascii ''Brno'', st_normalized_name = ascii ''brno'', st_municipality = None,
     st_district = None, st_region = None, st_lat = Some (Finite 49), st_lon = Some (Finite 16), st_geom = None,
     st_coordinate_confidence = ExactConf, st_coordinate_source = None, st_stop_area_id = None, st_platform_code = None,
     st_location_type = StopLocation, st_parent_station_id = None, st_station_id = None, st_complex_id = None,
     st_has_station_layout = False, st_station_layout_version = None, st_wheelchair_boarding = UnknownAccess,
     st_modes = [Tram], st_is_active = True\<rparr>"

definition sample_bounds :: stops_in_bounds_query where
  "sample_bounds = \<lparr>bq_south = Finite 48, bq_west = Finite 12, bq_north = Finite 51, bq_east = Finite 19, bq_limit = Some 2, bq_cursor = None\<rparr>"

lemma sample_stop_simps [simp]:
  "st_id (sample_stop k) = k" "st_lat (sample_stop k) = Some (Finite 49)" "st_lon (sample_stop k) = Some (Finite 16)"
  "st_is_active (sample_stop k)"
  by (simp_all add: sample_stop_def)

lemma browse_complete_witness:
  "browse 2 (map sample_stop [''c'', ''a'', ''b'']) sample_bounds = Inr (map sample_stop [''a'', ''b'', ''c''])"
proof -
  let ?stops = "map sample_stop [''c'', ''a'', ''b'']"
  have valid: "validate_bounds sample_bounds = Inr ()"
    by (simp add: validate_bounds_def sample_bounds_def ensure_def bind_result_def)
  have inside: "in_bounds sample_bounds (sample_stop k)" for k by (simp add: in_bounds_def sample_bounds_def)
  then have found: "filter (in_bounds sample_bounds) (filter st_is_active ?stops) = ?stops" by simp
  have "browse 2 ?stops sample_bounds = Inr (sort_key st_id (filter (in_bounds sample_bounds) (filter st_is_active ?stops)))"
  proof (rule browse_complete [OF valid])
    show "length (filter (in_bounds sample_bounds) (filter st_is_active ?stops)) \<le> 2 * 2" unfolding found by simp
  qed (simp_all add: sample_bounds_def)
  moreover have "sort_key st_id ?stops = map sample_stop [''a'', ''b'', ''c'']" by (simp add: sort_key_def)
  ultimately show ?thesis unfolding found by simp
qed

end
