(* ===== verification/Stop_Search_Props.thy ===== *)
theory Stop_Search_Props
  imports Stop_Handlers
begin

text \<open>
  What the stop search promises: a stop whose name is the query, also without its railway suffix, has a score
  that no other kind of match reaches, so such stops come first; suggestions are never repeated.
\<close>

section \<open>The two normalisations agree\<close>

lemma fold_czech_folded: "folded_character c = (case fold_czech_character c of Some d \<Rightarrow> Some d
    | None \<Rightarrow> if is_ascii_alphanumeric c then Some c else None)"
  by (simp add: folded_character_def fold_czech_character_def del: insert_iff)

lemma search_text_step_eq: "search_text_step = normalize_step"
proof (intro ext)
  show "search_text_step st c = normalize_step st c" for st c
    by (cases st) (simp add: fold_czech_folded split: option.splits)
qed

text \<open>The API and the importer normalise names in the same way, so that the query fits the stored names.\<close>

lemma normalize_search_text_eq: "normalize_search_text lower v = normalize_czech_name lower v"
  by (simp add: normalize_search_text_def normalize_czech_name_def search_text_step_eq)

section \<open>Sizes\<close>

lemma utf8_len_Nil [simp]: "utf8_len [] = 0"
  by (simp add: utf8_len_def)

lemma utf8_len_Cons: "utf8_len (c # s) = (if c < 0x80 then 1 else if c < 0x800 then 2 else if c < 0x10000 then 3 else 4) + utf8_len s"
  by (simp add: utf8_len_def)

lemma utf8_len_append [simp]: "utf8_len (s @ t) = utf8_len s + utf8_len t"
  by (simp add: utf8_len_def)

lemma length_utf8_len: "length s \<le> utf8_len s"
  by (induction s) (auto simp: utf8_len_Cons)

lemma utf8_len_dropWhile: "utf8_len (dropWhile P s) \<le> utf8_len s"
  by (metis le_add2 takeWhile_dropWhile_id utf8_len_append)

lemma utf8_len_rev [simp]: "utf8_len (rev s) = utf8_len s"
  by (simp add: utf8_len_def rev_map [symmetric])

lemma utf8_len_drop: "utf8_len (drop n s) \<le> utf8_len s"
  by (metis append_take_drop_id le_add2 utf8_len_append)

lemma words_of_size: "sum_list (map utf8_len (words_of xs)) = utf8_len (List.map_filter (\<lambda>x. x) xs)"
proof (induction xs rule: words_of.induct)
  case (3 a xs)
  show ?case
  proof (cases xs)
    case (Cons x ys)
    show ?thesis
    proof (cases x)
      case (Some b)
      then obtain w ws where "words_of xs = w # ws" using Cons words_of_Some_nonempty [of b ys] by (cases "words_of xs") auto
      with Cons Some 3 show ?thesis by (simp add: utf8_len_Cons List.map_filter_simps)
    qed (use Cons 3 in \<open>simp add: utf8_len_Cons List.map_filter_simps\<close>)
  qed (simp add: utf8_len_Cons List.map_filter_simps)
qed (simp_all add: List.map_filter_simps)

lemma total_bytes_split: "total_bytes (split_whitespace q) \<le> byte_len q"
proof -
  have "utf8_len (List.map_filter (\<lambda>x. x) (map (\<lambda>c. if P c then None else Some c) q)) \<le> utf8_len q" for P
    by (induction q) (auto simp: List.map_filter_simps utf8_len_Cons)
  then have "sum_list (map utf8_len (split_whitespace q)) \<le> utf8_len q"
    by (simp add: split_whitespace_def words_of_size)
  moreover have "total_bytes ts = int (sum_list (map utf8_len ts))" for ts
    by (induction ts) (auto simp: total_bytes_def byte_len_def)
  ultimately show ?thesis by (simp add: byte_len_def)
qed

lemma fuzzy_tokens_bound:
  "fuzzy_tokens qs ns d m = Some (d', m') \<Longrightarrow> d \<le> d' \<and> m' \<le> m + total_bytes qs"
proof (induction qs ns d m rule: fuzzy_tokens.induct)
  case (2 q qs ns d m)
  then obtain off dist where c: "closest_token q ns = Some (off, dist)"
      "fuzzy_tokens qs (drop (Suc off) ns) (d + int dist) (m + int (length q)) = Some (d', m')"
    by (auto split: option.splits)
  have "int (length q) \<le> byte_len q" using length_utf8_len by (simp add: byte_len_def)
  with "2.IH" [OF c(1) refl c(2)] show ?case by (simp add: total_bytes_def)
qed (simp add: total_bytes_def)

lemma edit_dist_max: "edit_dist xs ys \<le> max (length xs) (length ys)"
  by (induction xs ys rule: edit_dist.induct) auto

section \<open>How high an inexact match can score\<close>

definition below :: "int \<Rightarrow> int option \<Rightarrow> bool" where
  "below n score \<longleftrightarrow> (case score of Some v \<Rightarrow> v \<le> n | None \<Rightarrow> True)"

lemma below_simps [simp]: "below n None" "below n (Some v) \<longleftrightarrow> v \<le> n"
  by (simp_all add: below_def)

lemma below_max [simp]: "below n (max_score a b) \<longleftrightarrow> below n a \<and> below n b"
  by (cases a; cases b) (auto simp: max_score_def)

lemma below_mono: "below m score \<Longrightarrow> m \<le> n \<Longrightarrow> below n score"
  by (cases score) auto

lemma byte_len_nonneg [simp]: "0 \<le> byte_len s"
  by (simp add: byte_len_def)

lemma similarity_below:
  assumes "length query + length name < 2 ^ 53" and "query \<noteq> []"
  shows "below 6500 (similarity_score query name)"
proof -
  define d where "d = levenshtein query name"
  define m where "m = max (length query) (length name)"
  have dm: "d \<le> m" "0 < m" using assms(2) edit_dist_max [of query name]
    by (auto simp: d_def m_def levenshtein_edit_dist less_max_iff_disj)
  then have "0 \<le> real d / real m" "real d / real m \<le> real 1" by simp_all
  then obtain r where r: "f64_of_real (real d / real m) = Finite r" "0 \<le> r" "r \<le> real 1"
    by (rule f64_of_real_bounded) simp
  then have "0 \<le> 1 - r" "1 - r \<le> real 1" by simp_all
  then obtain x where x: "f64_of_real (1 - r) = Finite x" "0 \<le> x" "x \<le> real 1"
    by (rule f64_of_real_bounded) simp
  then have "0 \<le> x * 500" "x * 500 \<le> real 500" by simp_all
  then obtain y where y: "f64_of_real (x * 500) = Finite y" "0 \<le> y" "y \<le> real 500"
    by (rule f64_of_real_bounded) simp
  have "\<lfloor>y\<rfloor> \<le> 500" using y(3) by linarith
  then have "f64_as_i32 (f64_mul (f64_sub (Finite 1) (f64_div_by (Finite (real d)) (real m))) (Finite 500)) \<le> 500"
    using r(1) x(1) y by (simp add: f64_sub_def)
  then show ?thesis by (simp add: similarity_score_def d_def m_def Let_def)
qed

definition exact_match :: "(ustring \<Rightarrow> ustring) \<Rightarrow> stop \<Rightarrow> ustring \<Rightarrow> bool" where
  "exact_match lower s query \<longleftrightarrow>
     query \<noteq> [] \<and> (normalize_search_text lower (st_name s) = query \<or> normalize_search_text lower (st_normalized_name s) = query)"

lemma literal_below: "\<not> (name = query \<or> normalized_name = query) \<Longrightarrow> below 9000 (literal_score query name normalized_name text)"
  by (auto simp: literal_score_def below_def byte_len_def split: option.splits)

lemma token_below: "byte_len query \<le> 200 \<Longrightarrow> below 7700 (token_score (split_whitespace query) names)"
  using total_bytes_split [of query] by (simp add: token_score_def)

lemma fuzzy_below: "byte_len query \<le> 200 \<Longrightarrow> below 8500 (fuzzy_token_score (split_whitespace query) names)"
  using total_bytes_split [of query] fuzzy_tokens_bound [of "split_whitespace query" names 0 0]
  by (fastforce simp: fuzzy_token_score_def below_def split: option.splits)

lemma inexact_below:
  assumes "\<not> exact_match lower s query" and "byte_len query \<le> 200"
    and "length (normalize_search_text lower (st_name s)) < 2 ^ 52"
  shows "below 9030 (stop_search_score_for_query lower s query)"
proof (cases "query = []")
  case False
  let ?name = "normalize_search_text lower (st_name s)"
  have "length query \<le> 200" using assms(2) length_utf8_len [of query] by (simp add: byte_len_def)
  then have sim: "below 9000 (similarity_score query ?name)"
    using assms(3) False by (intro below_mono [OF similarity_below]) simp_all
  have lit: "below 9000 (literal_score query ?name (normalize_search_text lower (st_normalized_name s)) (searchable_stop_text lower s))"
    using assms(1) False by (intro literal_below) (simp add: exact_match_def)
  have tok: "below 9000 (token_score (split_whitespace query) (split_whitespace ?name))"
    using below_mono [OF token_below [OF assms(2)]] by simp
  have fuz: "below 9000 (fuzzy_token_score (split_whitespace query) (split_whitespace ?name))"
    using below_mono [OF fuzzy_below [OF assms(2)]] by simp
  have "below 9030 (map_option (\<lambda>v. v + (if st_is_active s then 10 else 0) + (if st_platform_code s = None then 20 else 0)) score)"
    if "below 9000 score" for score using that by (cases score) auto
  then show ?thesis
    using False sim lit tok fuz assms(2) by (simp add: stop_search_score_for_query_def Let_def)
qed (simp add: stop_search_score_for_query_def)

lemma exact_score:
  assumes "exact_match lower s query"
  shows "\<exists>v \<ge> 10000. stop_search_score_for_query lower s query = Some v"
proof -
  have "\<exists>v \<ge> 10000. max_score (Some w) score = Some v" if "10000 \<le> w" for w score
    using that by (cases score) (auto simp: max_score_def)
  moreover have "\<not> below 9999 (stop_search_score_for_query lower s query)"
  proof -
    have up: "\<not> below 9999 (map_option (\<lambda>v. v + (if a then 10 else 0) + (if b then 20 else 0)) score)"
      if "\<not> below 9999 score" for a b score using that by (cases score) auto
    show ?thesis using assms
      unfolding stop_search_score_for_query_def exact_match_def
      by (simp only: if_False Let_def) (rule up, auto simp: literal_score_def)
  qed
  ultimately show ?thesis by (cases "stop_search_score_for_query lower s query") auto
qed

text \<open>The query names a stop, itself or without the suffix of a railway station.\<close>

definition named :: "(ustring \<Rightarrow> ustring) \<Rightarrow> stop \<Rightarrow> ustring \<Rightarrow> bool" where
  "named lower s query \<longleftrightarrow> exact_match lower s query \<or>
     (\<exists>base. railway_station_query_base s query = Some base \<and> exact_match lower s base)"

lemma trim_end_size: "byte_len (trim_end s) \<le> byte_len s"
  using utf8_len_dropWhile [of is_whitespace "rev s"] by (simp add: trim_end_def byte_len_def)

lemma strip_suffix_size: "strip_suffix sfx s = Some t \<Longrightarrow> byte_len t \<le> byte_len s"
  using utf8_len_drop [of "length sfx" "rev s"] by (auto simp: strip_suffix_def byte_len_def split: if_splits)

lemma strip_railway_suffix_size: "strip_railway_suffix sfxs query = Some base \<Longrightarrow> byte_len base \<le> byte_len query"
  by (induction sfxs) (auto split: option.splits if_splits dest: strip_suffix_size intro: order_trans [OF trim_end_size])

lemma query_base_size: "railway_station_query_base s query = Some base \<Longrightarrow> byte_len base \<le> byte_len query"
  by (auto simp: railway_station_query_base_def dest: strip_railway_suffix_size split: if_splits)

text \<open>
  A score of ten thousand or more means that the query names the stop, and nothing else does; all other matches
  stay at 9500 or below.
\<close>

lemma score_of_named:
  assumes "utf8_len query \<le> 200" and "length (normalize_search_text lower (st_name s)) < 2 ^ 52"
  shows "named lower s query \<Longrightarrow> \<exists>v \<ge> 10000. stop_search_score lower s query = Some v"
    and "\<not> named lower s query \<Longrightarrow> below 9500 (stop_search_score lower s query)"
proof -
  have len: "byte_len query \<le> 200" using assms(1) by (simp add: byte_len_def)
  show "\<not> named lower s query \<Longrightarrow> below 9500 (stop_search_score lower s query)"
  proof -
    assume no: "\<not> named lower s query"
    have "below 9500 (stop_search_score_for_query lower s query)"
      using no len assms(2) by (intro below_mono [OF inexact_below]) (auto simp: named_def)
    moreover have "below 9500 (Option.bind (railway_station_query_base s query) (stop_search_score_for_query lower s))"
    proof (cases "railway_station_query_base s query")
      case (Some base)
      with no have "\<not> exact_match lower s base" by (auto simp: named_def)
      with Some query_base_size [OF Some] len assms(2) show ?thesis
        by (simp add: below_mono [OF inexact_below])
    qed simp
    moreover have "below 9500 (railway_station_locality_omission_score lower s query)"
      by (simp add: railway_station_locality_omission_score_def Let_def)
    ultimately show ?thesis by (simp add: stop_search_score_def)
  qed
  show "named lower s query \<Longrightarrow> \<exists>v \<ge> 10000. stop_search_score lower s query = Some v"
  proof -
    assume "named lower s query"
    then have "\<not> below 9999 (stop_search_score lower s query)"
      using exact_score [of lower s] by (fastforce simp: named_def stop_search_score_def)
    then show ?thesis by (cases "stop_search_score lower s query") auto
  qed
qed

section \<open>Suggestions\<close>

lemma cut_direction_id [simp]: "st_id (cut_direction lower s) = st_id s"
  by (simp add: cut_direction_def Let_def split: option.splits)

lemma merge_stop_suggestion_id [simp]: "st_id (merge_stop_suggestion s t) = st_id s"
  by (simp add: merge_stop_suggestion_def Let_def)

lemma same_suggestion_id: "st_id s = st_id t \<Longrightarrow> stops_are_same_suggestion lower fl s t"
  by (simp add: stops_are_same_suggestion_def)

text \<open>A stop joins the list at its end or merges into a suggestion that keeps its identifier.\<close>

lemma add_suggestion_ids:
  assumes "\<And>x y. st_id x = st_id y \<Longrightarrow> same x y"
  shows "map st_id (add_suggestion same xs s) = map st_id xs \<or>
    (st_id s \<notin> st_id ` set xs \<and> map st_id (add_suggestion same xs s) = map st_id xs @ [st_id s])"
  using assms by (induction xs) auto

lemma suggestion_ids:
  assumes "\<And>x y. st_id x = st_id y \<Longrightarrow> same x y" and "distinct (map st_id acc)"
  shows "distinct (map st_id (foldl (add_suggestion same) acc ss)) \<and>
    (\<exists>more. map st_id (foldl (add_suggestion same) acc ss) = map st_id acc @ more \<and> set more \<subseteq> st_id ` set ss) \<and>
    (ss \<noteq> [] \<longrightarrow> foldl (add_suggestion same) acc ss \<noteq> [])"
  using assms(2)
proof (induction ss arbitrary: acc)
  case (Cons s ss)
  let ?acc = "add_suggestion same acc s"
  from add_suggestion_ids [of same acc s, OF assms(1)] have ids: "map st_id ?acc = map st_id acc \<or>
    (st_id s \<notin> st_id ` set acc \<and> map st_id ?acc = map st_id acc @ [st_id s])" .
  with Cons.prems have "distinct (map st_id ?acc)" by auto
  from Cons.IH [OF this] obtain more where more: "distinct (map st_id (foldl (add_suggestion same) ?acc ss))"
    "map st_id (foldl (add_suggestion same) ?acc ss) = map st_id ?acc @ more" "set more \<subseteq> st_id ` set ss" by auto
  have "?acc \<noteq> []" by (cases acc) auto
  then have "foldl (add_suggestion same) ?acc ss \<noteq> []" using more(2) by (metis append_is_Nil_conv map_is_Nil_conv)
  moreover from ids have "\<exists>rest. map st_id ?acc @ more = map st_id acc @ rest \<and> set rest \<subseteq> st_id ` set (s # ss)"
  proof
    assume "map st_id ?acc = map st_id acc"
    with more(3) show ?thesis by auto
  next
    assume "st_id s \<notin> st_id ` set acc \<and> map st_id ?acc = map st_id acc @ [st_id s]"
    with more(3) show ?thesis by (intro exI [of _ "st_id s # more"]) auto
  qed
  ultimately show ?case using more(1,2) by simp
qed simp

lemma scored_stops_set:
  "(v, i, s) \<in> set (scored_stops lower stops query) \<Longrightarrow> s \<in> set stops \<and> stop_search_score lower s query = Some v"
  by (auto simp: scored_stops_def List.map_filter_def in_set_enumerate_eq)

lemma scored_stops_complete:
  "s \<in> set stops \<Longrightarrow> stop_search_score lower s query = Some v \<Longrightarrow> \<exists>i. (v, i, s) \<in> set (scored_stops lower stops query)"
proof -
  assume s: "s \<in> set stops" "stop_search_score lower s query = Some v"
  then obtain i where "i < length stops" "stops ! i = s" by (auto simp: in_set_conv_nth)
  then have "(i, s) \<in> set (enumerate 0 stops)" by (simp add: in_set_enumerate_eq)
  with s(2) have "(v, i, s) \<in> set (scored_stops lower stops query)"
    by (force simp: scored_stops_def List.map_filter_def)
  then show ?thesis ..
qed

lemma scored_stops_sorted:
  "scored_stops lower stops query = (v, i, s) # rest \<Longrightarrow> (w, j, t) \<in> set (scored_stops lower stops query) \<Longrightarrow> w \<le> v"
proof -
  assume eq: "scored_stops lower stops query = (v, i, s) # rest" and mem: "(w, j, t) \<in> set (scored_stops lower stops query)"
  let ?key = "\<lambda>(score, index, s). (- score, st_name s, stop_suggestion_mode_rank s, index)"
  have "sorted (map ?key ((v, i, s) # rest))" unfolding eq [symmetric] scored_stops_def by (rule sorted_sort_key)
  then have "?key (v, i, s) \<le> ?key (w, j, t)" using mem unfolding eq by auto
  then show ?thesis by (auto simp: less_eq_prod_def)
qed

text \<open>C24: When the query names stops, with or without a railway suffix, the first suggestion is one of them; no suggestion
  appears twice, there are at most as many as asked for, and each is a stop that scores at least 9000, so that
  distant matches do not dilute the answer.
\<close>

theorem named_stops_come_first:
  assumes "s \<in> set stops" and "named lower s query" and "0 < limit" and "utf8_len query \<le> 200"
    and "\<And>t. t \<in> set stops \<Longrightarrow> length (normalize_search_text lower (st_name t)) < 2 ^ 52"
  shows "\<exists>first suggestions. ranked_stop_suggestions lower fl stops query limit = first # suggestions \<and>
    (\<exists>t \<in> set stops. named lower t query \<and> st_id first = st_id t) \<and>
    length (first # suggestions) \<le> limit \<and> distinct (map st_id (first # suggestions)) \<and>
    (\<forall>x \<in> set suggestions. \<exists>t \<in> set stops. st_id x = st_id t \<and> (\<exists>v \<ge> 9000. stop_search_score lower t query = Some v))"
proof -
  let ?scored = "scored_stops lower stops query"
  from score_of_named(1) [OF assms(4,5) assms(2)] assms(1)
  obtain v where v: "10000 \<le> v" "stop_search_score lower s query = Some v" by auto
  from scored_stops_complete [OF assms(1) v(2)] obtain i where i: "(v, i, s) \<in> set ?scored" ..
  then obtain w j t rest where head: "?scored = (w, j, t) # rest" by (cases ?scored) auto
  have t: "t \<in> set stops" "stop_search_score lower t query = Some w"
    using scored_stops_set [of w j t lower stops query] head by auto
  have w: "10000 \<le> w" using scored_stops_sorted [OF head i] v(1) by simp
  then have named: "named lower t query" using score_of_named(2) [OF assms(4,5), of t] t by auto
  define kept where "kept = filter (\<lambda>(score, _). 9000 \<le> score) ?scored"
  define ss where "ss = map (\<lambda>(_, _, s). cut_direction lower s) kept"
  define found where "found = foldl (add_suggestion (stops_are_same_suggestion lower fl)) [] ss"
  have ss: "ss = cut_direction lower t # map (\<lambda>(_, _, s). cut_direction lower s) (filter (\<lambda>(score, _). 9000 \<le> score) rest)"
    using w by (simp add: ss_def kept_def head)
  have result: "ranked_stop_suggestions lower fl stops query limit = take limit found"
    using w assms(3) by (simp add: ranked_stop_suggestions_def Let_def head found_def ss_def kept_def)
  have from_ss: "\<exists>t \<in> set stops. x = st_id t \<and> (\<exists>v \<ge> 9000. stop_search_score lower t query = Some v)"
    if "x \<in> st_id ` set ss" for x
    using that by (fastforce simp: ss_def kept_def dest: scored_stops_set)
  have start: "found = foldl (add_suggestion (stops_are_same_suggestion lower fl)) [cut_direction lower t] (tl ss)"
    by (simp add: found_def ss)
  have "distinct (map st_id [cut_direction lower t])" by simp
  from suggestion_ids [of "stops_are_same_suggestion lower fl" _ "tl ss", OF same_suggestion_id this]
  obtain more where more: "distinct (map st_id found)" "map st_id found = map st_id [cut_direction lower t] @ more"
      "set more \<subseteq> st_id ` set (tl ss)"
    unfolding start by blast
  obtain first others where found: "found = first # others" using more(2) by (cases found) auto
  have ids: "st_id first = st_id t" "map st_id others = more" using more(2) by (simp_all add: found)
  have "\<forall>x \<in> set others. st_id x \<in> st_id ` set ss"
    using more(3) unfolding ids(2) [symmetric] ss by auto
  then have others: "\<forall>x \<in> set others. \<exists>t \<in> set stops. st_id x = st_id t \<and> (\<exists>v \<ge> 9000. stop_search_score lower t query = Some v)"
    using from_ss by blast
  have cut: "take limit found = first # take (limit - 1) others" using assms(3) by (cases limit) (simp_all add: found)
  have "distinct (map st_id (take limit found))" using distinct_take [OF more(1)] by (simp add: take_map)
  moreover have "\<forall>x \<in> set (take (limit - 1) others). x \<in> set others" by (auto dest: in_set_takeD)
  ultimately show ?thesis
    unfolding result cut using assms(3) t(1) named ids(1) others
    by (intro exI [of _ first] exI [of _ "take (limit - 1) others"]) auto
qed

definition sample_functions :: float_library where
  "sample_functions = \<lparr>fl_sin = id, fl_cos = id, fl_asin = id, fl_sqrt = id\<rparr>"

lemma named_stops_come_first_witness:
  "\<exists>first suggestions. ranked_stop_suggestions lower_ascii sample_functions [sample_stop ''x''] (ascii ''brno'') 5 = first # suggestions \<and>
    (\<exists>t \<in> {sample_stop ''x''}. named lower_ascii t (ascii ''brno'') \<and> st_id first = st_id t) \<and>
    length (first # suggestions) \<le> 5 \<and> distinct (map st_id (first # suggestions)) \<and>
    (\<forall>x \<in> set suggestions. \<exists>t \<in> {sample_stop ''x''}. st_id x = st_id t \<and>
       (\<exists>v \<ge> 9000. stop_search_score lower_ascii t (ascii ''brno'') = Some v))"
proof -
  have name: "normalize_search_text lower_ascii (st_name (sample_stop ''x'')) = ascii ''brno''" by code_simp
  then have "named lower_ascii (sample_stop ''x'') (ascii ''brno'')" by (simp add: named_def exact_match_def ascii_def)
  moreover have "utf8_len (ascii ''brno'') \<le> 200" by code_simp
  ultimately show ?thesis
    using named_stops_come_first [of "sample_stop ''x''" "[sample_stop ''x'']" lower_ascii "ascii ''brno''" 5 sample_functions] name
    by (simp add: ascii_def)
qed

end
