(* ===== verification/Realtime_Feed.thy ===== *)
theory Realtime_Feed
  imports Ticketing_Privacy Gtfs_Import Stop_Handlers
begin

text \<open>
  \<^verbatim>\<open>services/realtime-worker/src/main.rs\<close>: from decoded GTFS-realtime messages and vehicle documents to the records
  that are stored, their summaries and their deduplication. Decoding protobuf and JSON, and the calendar
  functions of chrono, are parameters or inputs; one reading of the clock serves a whole feed. \<open>f32\<close> coordinates
  are widened, which is exact. The iteration order of hash maps is \<open>hash_order\<close>.
\<close>

section \<open>Messages\<close>

record stop_time_event =
  ev_delay :: "i32 option"
  ev_time :: "int option"

record stop_time_update =
  su_stop_sequence :: "u32 option"
  su_arrival :: "stop_time_event option"
  su_departure :: "stop_time_event option"
  su_stop_id :: "string option"

record trip_descriptor =
  td_trip_id :: "string option"
  td_start_time :: "string option"
  td_start_date :: "string option"
  td_schedule_relationship :: "i32 option"
  td_route_id :: "string option"

record vehicle_descriptor =
  vd_id :: "string option"
  vd_label :: "string option"

record trip_update =
  tu_trip :: "trip_descriptor option"
  tu_stop_time_update :: "stop_time_update list"
  tu_vehicle :: "vehicle_descriptor option"

record vehicle_place =
  po_latitude :: f64
  po_longitude :: f64
  po_bearing :: "f64 option"
  po_speed :: "f64 option"

record vehicle_position =
  vp_trip :: "trip_descriptor option"
  vp_position :: "vehicle_place option"
  vp_current_stop_sequence :: "u32 option"
  vp_current_status :: "i32 option"
  vp_timestamp :: "u64 option"
  vp_stop_id :: "string option"
  vp_vehicle :: "vehicle_descriptor option"
  vp_occupancy_status :: "i32 option"

record feed_entity =
  fe_id :: string
  fe_trip_update :: "trip_update option"
  fe_vehicle :: "vehicle_position option"

text \<open>The header is optional and so is its time.\<close>

record feed_message =
  fm_header :: "u64 option option"
  fm_entity :: "feed_entity list"

record vehicle_details =
  de_route_short_name :: "string option"
  de_destination :: "string option"
  de_vehicle_type :: "string option"
  de_speed_kmh :: "f64 option"
  de_wheelchair_accessible :: "bool option"
  de_air_conditioned :: "bool option"
  de_usb_chargers :: "bool option"
  de_occupancy_status :: "string option"
  de_registration_number :: "string option"
  de_operator_name :: "string option"
  de_tracking :: "bool option"
  de_state :: "string option"

record worker_record =
  wr_source :: string
  wr_source_feed_id :: string
  wr_source_entity_id :: string
  wr_trip_id :: "string option"
  wr_route_id :: "string option"
  wr_stop_id :: "string option"
  wr_delay_seconds :: "i32 option"
  wr_estimated_arrival :: "date_time option"
  wr_estimated_departure :: "date_time option"
  wr_cancellation_status :: "string option"
  wr_vehicle_id :: "string option"
  wr_lat :: "f64 option"
  wr_lon :: "f64 option"
  wr_bearing :: "f64 option"
  wr_details :: vehicle_details
  wr_fetched_at :: date_time
  wr_valid_until :: date_time
  wr_service_date :: "naive_date option"
  wr_raw_payload :: json

record worker_library =
  wl_now :: date_time
  wl_timestamp_opt :: "int \<Rightarrow> date_time option"
  wl_parse_ymd :: "string \<Rightarrow> naive_date option"
  wl_parse_rfc3339 :: "string \<Rightarrow> date_time option"
  wl_lower :: "string \<Rightarrow> string"
  wl_show_float :: "f64 \<Rightarrow> string"

definition no_details :: vehicle_details where
  "no_details = \<lparr>de_route_short_name = None, de_destination = None, de_vehicle_type = None, de_speed_kmh = None,
     de_wheelchair_accessible = None, de_air_conditioned = None, de_usb_chargers = None, de_occupancy_status = None,
     de_registration_number = None, de_operator_name = None, de_tracking = None, de_state = None\<rparr>"

definition PID_SOURCE :: string where "PID_SOURCE = ''pid_gtfs_rt''"

definition PID_FEED_ID :: string where "PID_FEED_ID = ''pid_realtime''"

definition PID_STATIC_FEED_ID :: string where "PID_STATIC_FEED_ID = ''pid_gtfs''"

definition IDS_JMK_SOURCE :: string where "IDS_JMK_SOURCE = ''ids_jmk_positions''"

definition IDS_JMK_FEED_ID :: string where "IDS_JMK_FEED_ID = ''ids_jmk_realtime''"

definition IDS_JMK_STATIC_FEED_ID :: string where "IDS_JMK_STATIC_FEED_ID = ''ids_jmk_gtfs''"

section \<open>Values\<close>

definition scoped_pid_id :: "string \<Rightarrow> string \<Rightarrow> string" where
  "scoped_pid_id feed_id source_id = feed_id @ '':'' @ source_id"

definition unix_time :: "worker_library \<Rightarrow> int option \<Rightarrow> date_time option" where
  "unix_time lib timestamp = Option.bind timestamp (wl_timestamp_opt lib)"

text \<open>The cast \<open>as i64\<close> of a \<open>u64\<close>.\<close>

definition u64_as_i64 :: "u64 \<Rightarrow> int" where
  "u64_as_i64 n = sint n"

definition feed_timestamp :: "worker_library \<Rightarrow> feed_message \<Rightarrow> date_time option" where
  "feed_timestamp lib feed = Option.bind (Option.bind (fm_header feed) (\<lambda>t. t)) (\<lambda>t. unix_time lib (Some (u64_as_i64 t)))"

definition json_i :: "int option \<Rightarrow> json" where
  "json_i v = (case v of Some n \<Rightarrow> JInt n | None \<Rightarrow> JNull)"

definition cancellation_of :: "i32 option \<Rightarrow> string option" where
  "cancellation_of relationship =
     (if relationship = Some 3 then Some ''cancelled'' else if relationship = Some 7 then Some ''deleted'' else None)"

definition occupancy_status_name :: "i32 option \<Rightarrow> string option" where
  "occupancy_status_name status = Option.bind status (\<lambda>n.
     if n = 0 then Some ''empty'' else if n = 1 then Some ''many_seats_available'' else if n = 2 then Some ''few_seats_available''
     else if n = 3 then Some ''standing_room_only'' else if n = 4 then Some ''crushed_standing_room_only''
     else if n = 5 then Some ''full'' else if n = 6 then Some ''not_accepting_passengers'' else if n = 7 then Some ''no_data_available''
     else if n = 8 then Some ''not_boardable'' else None)"

definition vehicle_status_name :: "i32 option \<Rightarrow> string option" where
  "vehicle_status_name status = Option.bind status (\<lambda>n.
     if n = 0 then Some ''incoming_at'' else if n = 1 then Some ''stopped_at'' else if n = 2 then Some ''in_transit_to'' else None)"

definition canonical_vehicle_type :: "worker_library \<Rightarrow> string option \<Rightarrow> int option \<Rightarrow> string option" where
  "canonical_vehicle_type lib description route_type =
     (let description = wl_lower lib (case description of Some d \<Rightarrow> d | None \<Rightarrow> []); has = str_contains description
      in if has ''trolley'' \<or> has ''trolej'' then Some ''trolleybus''
         else if has ''tram'' then Some ''tram''
         else if has ''metro'' \<or> has ''subway'' then Some ''metro''
         else if has ''train'' \<or> has ''rail'' \<or> has ''vlak'' then Some ''train''
         else if has ''ferry'' \<or> has ''boat'' then Some ''ferry''
         else if has ''cable'' \<or> has ''funicular'' \<or> has ''lanov'' then Some ''cable_car''
         else if has ''bus'' \<or> has ''autobus'' then Some ''bus''
         else Option.bind route_type (\<lambda>n.
           if n = 0 \<or> n \<in> {900..999} then Some ''tram''
           else if n = 1 then Some ''metro''
           else if n = 2 \<or> n \<in> {100..199} \<or> n \<in> {400..499} then Some ''train''
           else if n = 3 \<or> n \<in> {200..299} \<or> n \<in> {700..799} then Some ''bus''
           else if n = 4 \<or> n \<in> {1000..1099} then Some ''ferry''
           else if n = 5 \<or> n \<in> {1300..1399} then Some ''cable_car''
           else if n = 11 \<or> n \<in> {800..899} then Some ''trolleybus''
           else None))"

text \<open>\<open>str::split_once\<close> at a character.\<close>

definition split_once :: "char \<Rightarrow> string \<Rightarrow> (string \<times> string) option" where
  "split_once c s = (if c \<in> set s then Some (takeWhile (\<lambda>x. x \<noteq> c) s, tl (dropWhile (\<lambda>x. x \<noteq> c) s)) else None)"

definition ids_jmk_static_stop_id :: "string \<Rightarrow> string" where
  "ids_jmk_static_stop_id realtime_stop_id =
     (case Option.bind (strip_prefix ''U'' realtime_stop_id) (split_once (CHR ''Z'')) of
        None \<Rightarrow> realtime_stop_id
      | Some (node, platform) \<Rightarrow>
          (case (parse_uint 64 (ascii node), parse_uint 64 (ascii platform)) of
             (Some n, Some p) \<Rightarrow> ''U'' @ show_nat n @ ''Z'' @ show_nat p
           | _ \<Rightarrow> realtime_stop_id))"

section \<open>Trip updates\<close>

definition scoped :: "string \<Rightarrow> string option \<Rightarrow> string option" where
  "scoped feed_id v = map_option (scoped_pid_id feed_id) v"

text \<open>What the records of one entity have in common.\<close>

definition pid_base_record :: "worker_library \<Rightarrow> date_time \<Rightarrow> trip_update \<Rightarrow> trip_descriptor \<Rightarrow> worker_record" where
  "pid_base_record lib fetched_at update trip =
     \<lparr>wr_source = PID_SOURCE, wr_source_feed_id = PID_FEED_ID, wr_source_entity_id = [],
      wr_trip_id = scoped PID_STATIC_FEED_ID (td_trip_id trip), wr_route_id = scoped PID_STATIC_FEED_ID (td_route_id trip),
      wr_stop_id = None, wr_delay_seconds = None, wr_estimated_arrival = None, wr_estimated_departure = None,
      wr_cancellation_status = cancellation_of (td_schedule_relationship trip), wr_vehicle_id = Option.bind (tu_vehicle update) vd_id,
      wr_lat = None, wr_lon = None, wr_bearing = None, wr_details = no_details, wr_fetched_at = fetched_at,
      wr_valid_until = fetched_at + 90, wr_service_date = Option.bind (td_start_date trip) (wl_parse_ymd lib), wr_raw_payload = JNull\<rparr>"

definition whole_trip_record :: "string \<Rightarrow> trip_descriptor \<Rightarrow> worker_record \<Rightarrow> worker_record" where
  "whole_trip_record entity_id trip base =
     base\<lparr>wr_source_entity_id := ''trip:'' @ entity_id,
       wr_raw_payload := JObject [(''entity_id'', JString entity_id), (''trip_id'', json_string (td_trip_id trip)),
         (''route_id'', json_string (td_route_id trip)), (''start_date'', json_string (td_start_date trip)),
         (''schedule_relationship'', json_i (td_schedule_relationship trip))]\<rparr>"

definition stop_update_record :: "worker_library \<Rightarrow> string \<Rightarrow> worker_record \<Rightarrow> stop_time_update \<Rightarrow> worker_record" where
  "stop_update_record lib entity_id base u =
     (let stop_key = ''sequence-'' @ show_nat (case su_stop_sequence u of Some n \<Rightarrow> unat n | None \<Rightarrow> 0) @ '':'' @
            (case su_stop_id u of Some s \<Rightarrow> s | None \<Rightarrow> ''unknown'');
          arrival_delay = Option.bind (su_arrival u) ev_delay;
          departure_delay = Option.bind (su_departure u) ev_delay;
          arrival_time = Option.bind (su_arrival u) ev_time;
          departure_time = Option.bind (su_departure u) ev_time
      in base\<lparr>wr_source_entity_id := ''trip:'' @ entity_id @ '':'' @ stop_key,
           wr_stop_id := scoped PID_STATIC_FEED_ID (su_stop_id u),
           wr_delay_seconds := (if departure_delay = None then arrival_delay else departure_delay),
           wr_estimated_arrival := unix_time lib arrival_time,
           wr_estimated_departure := unix_time lib departure_time,
           wr_raw_payload := JObject [(''entity_id'', JString entity_id), (''stop_id'', json_string (su_stop_id u)),
             (''stop_sequence'', json_i (map_option uint (su_stop_sequence u))), (''arrival_delay'', json_i arrival_delay),
             (''arrival_time'', json_i arrival_time), (''departure_delay'', json_i departure_delay),
             (''departure_time'', json_i departure_time)]\<rparr>)"

definition pid_entity_records :: "worker_library \<Rightarrow> date_time \<Rightarrow> feed_entity \<Rightarrow> worker_record list" where
  "pid_entity_records lib fetched_at entity =
     (case fe_trip_update entity of
        None \<Rightarrow> []
      | Some update \<Rightarrow> (case tu_trip update of
          None \<Rightarrow> []
        | Some trip \<Rightarrow>
            (let base = pid_base_record lib fetched_at update trip
             in if tu_stop_time_update update = [] then [whole_trip_record (fe_id entity) trip base]
                else map (stop_update_record lib (fe_id entity) base) (tu_stop_time_update update))))"

definition pid_trip_records :: "worker_library \<Rightarrow> feed_message \<Rightarrow> worker_record list" where
  "pid_trip_records lib feed =
     (let fetched_at = (case feed_timestamp lib feed of Some t \<Rightarrow> t | None \<Rightarrow> wl_now lib)
      in concat (map (pid_entity_records lib fetched_at) (fm_entity feed)))"

definition summary_of :: "string \<Rightarrow> worker_record \<Rightarrow> worker_record" where
  "summary_of trip_id r = r\<lparr>wr_source_entity_id := ''trip-summary:'' @ trip_id, wr_stop_id := None, wr_estimated_arrival := None,
     wr_estimated_departure := None, wr_valid_until := wr_fetched_at r + 300,
     wr_raw_payload := JObject [(''kind'', JString ''trip_summary'')]\<rparr>"

definition should_replace :: "worker_record option \<Rightarrow> worker_record \<Rightarrow> bool" where
  "should_replace known r =
     (case known of
        None \<Rightarrow> True
      | Some k \<Rightarrow> (wr_delay_seconds k = None \<and> wr_delay_seconds r \<noteq> None) \<or>
                   (wr_cancellation_status k = None \<and> wr_cancellation_status r \<noteq> None))"

definition note_summary :: "(string \<times> worker_record) list \<Rightarrow> worker_record \<Rightarrow> (string \<times> worker_record) list" where
  "note_summary summaries r =
     (case wr_trip_id r of
        None \<Rightarrow> summaries
      | Some trip_id \<Rightarrow>
          if should_replace (map_of summaries trip_id) r then AList.update trip_id (summary_of trip_id r) summaries else summaries)"

definition pid_trip_summary_records ::
  "(worker_record list \<Rightarrow> worker_record list) \<Rightarrow> worker_library \<Rightarrow> feed_message \<Rightarrow> worker_record list" where
  "pid_trip_summary_records hash_order lib feed =
     hash_order (map snd (foldl note_summary [] (pid_trip_records lib feed)))"

section \<open>Vehicle positions\<close>

definition speed_kmh :: "f64 \<Rightarrow> f64" where
  "speed_kmh speed = f64_mul speed (f64_of_real 3.6)"

definition vehicle_time :: "worker_library \<Rightarrow> date_time \<Rightarrow> vehicle_position \<Rightarrow> date_time" where
  "vehicle_time lib feed_fetched_at v =
     (case Option.bind (vp_timestamp v) (\<lambda>t. unix_time lib (Some (u64_as_i64 t))) of Some t \<Rightarrow> t | None \<Rightarrow> feed_fetched_at)"

definition position_details :: "vehicle_position \<Rightarrow> vehicle_details" where
  "position_details v = no_details\<lparr>de_speed_kmh := Option.bind (vp_position v) (\<lambda>p. map_option speed_kmh (po_speed p)),
     de_occupancy_status := occupancy_status_name (vp_occupancy_status v), de_state := vehicle_status_name (vp_current_status v)\<rparr>"

definition pid_vehicle_record :: "worker_library \<Rightarrow> date_time \<Rightarrow> feed_entity \<Rightarrow> worker_record option" where
  "pid_vehicle_record lib feed_fetched_at entity = map_option (\<lambda>v.
     let trip_id = Option.bind (vp_trip v) td_trip_id; route_id = Option.bind (vp_trip v) td_route_id;
         fetched_at = vehicle_time lib feed_fetched_at v
     in \<lparr>wr_source = PID_SOURCE, wr_source_feed_id = PID_FEED_ID, wr_source_entity_id = ''vehicle:'' @ fe_id entity,
          wr_trip_id = scoped PID_STATIC_FEED_ID trip_id, wr_route_id = scoped PID_STATIC_FEED_ID route_id,
          wr_stop_id = scoped PID_STATIC_FEED_ID (vp_stop_id v), wr_delay_seconds = None, wr_estimated_arrival = None,
          wr_estimated_departure = None, wr_cancellation_status = None, wr_vehicle_id = Option.bind (vp_vehicle v) vd_id,
          wr_lat = map_option po_latitude (vp_position v), wr_lon = map_option po_longitude (vp_position v),
          wr_bearing = Option.bind (vp_position v) po_bearing, wr_details = position_details v, wr_fetched_at = fetched_at,
          wr_valid_until = fetched_at + 90,
          wr_service_date = Option.bind (Option.bind (vp_trip v) td_start_date) (wl_parse_ymd lib),
          wr_raw_payload = JObject [(''entity_id'', JString (fe_id entity)), (''trip_id'', json_string trip_id),
            (''route_id'', json_string route_id), (''stop_id'', json_string (vp_stop_id v)),
            (''vehicle_id'', json_string (Option.bind (vp_vehicle v) vd_id)),
            (''timestamp'', json_i (map_option uint (vp_timestamp v)))]\<rparr>) (fe_vehicle entity)"

definition pid_vehicle_records :: "worker_library \<Rightarrow> feed_message \<Rightarrow> worker_record list" where
  "pid_vehicle_records lib feed =
     List.map_filter (pid_vehicle_record lib (case feed_timestamp lib feed of Some t \<Rightarrow> t | None \<Rightarrow> wl_now lib)) (fm_entity feed)"

definition ids_jmk_vehicle_record :: "worker_library \<Rightarrow> date_time \<Rightarrow> feed_entity \<Rightarrow> worker_record option" where
  "ids_jmk_vehicle_record lib feed_fetched_at entity =
     Option.bind (fe_vehicle entity) (\<lambda>v. map_option (\<lambda>p.
       let trip_id = Option.bind (vp_trip v) td_trip_id; route_id = Option.bind (vp_trip v) td_route_id;
           vehicle_id = Option.bind (vp_vehicle v) vd_id; vehicle_label = Option.bind (vp_vehicle v) vd_label;
           fetched_at = vehicle_time lib feed_fetched_at v
       in \<lparr>wr_source = IDS_JMK_SOURCE, wr_source_feed_id = IDS_JMK_FEED_ID, wr_source_entity_id = ''vehicle:'' @ fe_id entity,
            wr_trip_id = scoped IDS_JMK_STATIC_FEED_ID trip_id, wr_route_id = scoped IDS_JMK_STATIC_FEED_ID route_id,
            wr_stop_id = scoped IDS_JMK_STATIC_FEED_ID (map_option ids_jmk_static_stop_id (vp_stop_id v)), wr_delay_seconds = None,
            wr_estimated_arrival = None, wr_estimated_departure = None, wr_cancellation_status = None,
            wr_vehicle_id = Some (case vehicle_id of Some i \<Rightarrow> i | None \<Rightarrow> (case vehicle_label of Some l \<Rightarrow> l | None \<Rightarrow> fe_id entity)),
            wr_lat = Some (po_latitude p), wr_lon = Some (po_longitude p), wr_bearing = po_bearing p,
            wr_details = position_details v, wr_fetched_at = fetched_at, wr_valid_until = fetched_at + 60,
            wr_service_date = Option.bind (Option.bind (vp_trip v) td_start_date) (wl_parse_ymd lib),
            wr_raw_payload = JObject [(''entity_id'', JString (fe_id entity)), (''trip_id'', json_string trip_id),
              (''route_id'', json_string route_id), (''stop_id'', json_string (vp_stop_id v)), (''vehicle_id'', json_string vehicle_id),
              (''vehicle_label'', json_string vehicle_label),
              (''current_stop_sequence'', json_i (map_option uint (vp_current_stop_sequence v))),
              (''current_status'', json_i (vp_current_status v)), (''occupancy_status'', json_i (vp_occupancy_status v)),
              (''timestamp'', json_i (map_option uint (vp_timestamp v)))]\<rparr>) (vp_position v))"

definition ids_jmk_vehicle_records :: "worker_library \<Rightarrow> feed_message \<Rightarrow> worker_record list" where
  "ids_jmk_vehicle_records lib feed =
     List.map_filter (ids_jmk_vehicle_record lib (case feed_timestamp lib feed of Some t \<Rightarrow> t | None \<Rightarrow> wl_now lib)) (fm_entity feed)"

text \<open>The rows of trips and routes that the database has for these records are the two maps.\<close>

definition enrich_record ::
  "(string \<rightharpoonup> string \<times> string option) \<Rightarrow> (string \<rightharpoonup> string option \<times> string) \<Rightarrow> worker_record \<Rightarrow> worker_record" where
  "enrich_record trips routes r =
     (let r = (case Option.bind (wr_trip_id r) trips of
                 None \<Rightarrow> r
               | Some (route_id, headsign) \<Rightarrow>
                   r\<lparr>wr_route_id := (if wr_route_id r = None then Some route_id else wr_route_id r),
                     wr_details := (wr_details r)\<lparr>de_destination := headsign\<rparr>\<rparr>)
      in case Option.bind (wr_route_id r) routes of
           None \<Rightarrow> r
         | Some (short_name, mode) \<Rightarrow>
             r\<lparr>wr_details := (wr_details r)\<lparr>de_route_short_name := short_name, de_vehicle_type := Some mode\<rparr>\<rparr>)"

section \<open>Vehicle documents\<close>

text \<open>\<open>Value::get\<close> with a key, and \<open>pointer\<close> with a path of keys.\<close>

abbreviation json_field :: "string \<Rightarrow> json \<Rightarrow> json option" where
  "json_field key v \<equiv> json_get v key"

fun json_pointer :: "string list \<Rightarrow> json \<Rightarrow> json option" where
  "json_pointer [] v = Some v"
| "json_pointer (key # keys) v = Option.bind (json_field key v) (json_pointer keys)"

fun as_f64 :: "json \<Rightarrow> f64 option" where
  "as_f64 (JInt n) = Some (f64_of_real (of_int n))"
| "as_f64 (JFloat x) = Some x"
| "as_f64 v = None"

fun value_string :: "worker_library \<Rightarrow> json option \<Rightarrow> string option" where
  "value_string lib (Some (JString s)) = Some s"
| "value_string lib (Some (JInt n)) = Some (show_int n)"
| "value_string lib (Some (JFloat x)) = Some (wl_show_float lib x)"
| "value_string lib v = None"

definition value_i32 :: "json option \<Rightarrow> i32 option" where
  "value_i32 v = Option.bind (Option.bind v as_i64) (\<lambda>n. if - (2 ^ 31) \<le> n \<and> n < 2 ^ 31 then Some n else None)"

definition value_f64 :: "json option \<Rightarrow> f64 option" where
  "value_f64 v = Option.bind v as_f64"

fun value_bool :: "json option \<Rightarrow> bool option" where
  "value_bool (Some (JBool b)) = Some b"
| "value_bool (Some (JString s)) = (if s = ''true'' then Some True else if s = ''false'' then Some False else None)"
| "value_bool v = None"

definition parse_timestamp :: "worker_library \<Rightarrow> string \<Rightarrow> date_time option" where
  "parse_timestamp lib v = Option.bind (wl_parse_rfc3339 lib v) (\<lambda>t. if 0 < t then Some t else None)"

definition or_else :: "'a option \<Rightarrow> 'a option \<Rightarrow> 'a option" where
  "or_else x y = (if x = None then y else x)"

definition or_null :: "json option \<Rightarrow> json" where
  "or_null v = (case v of Some x \<Rightarrow> x | None \<Rightarrow> JNull)"

definition coordinate_pair :: "json \<Rightarrow> (f64 \<times> f64) option" where
  "coordinate_pair feature =
     (case Option.bind (json_pointer [''geometry'', ''coordinates''] feature) as_array of
        Some (x # y # _) \<Rightarrow> Option.bind (as_f64 x) (\<lambda>lon. map_option (Pair lon) (as_f64 y))
      | _ \<Rightarrow> None)"

definition pid_json_vehicle_record :: "worker_library \<Rightarrow> json \<Rightarrow> worker_record option" where
  "pid_json_vehicle_record lib feature =
     (let properties = (case json_field ''properties'' feature of Some p \<Rightarrow> p | None \<Rightarrow> feature);
          trip = or_null (json_field ''trip'' properties);
          position = or_null (json_field ''last_position'' properties);
          gtfs = or_null (json_field ''gtfs'' trip);
          registration_number = value_string lib (json_field ''vehicle_registration_number'' trip);
          source_trip_id = value_string lib (json_field ''trip_id'' gtfs);
          vehicle_id = or_else (map_option (\<lambda>v. ''registration:'' @ v) registration_number) (map_option (\<lambda>v. ''trip:'' @ v) source_trip_id);
          fetched_at = (case Option.bind (Option.bind (json_field ''origin_timestamp'' position) as_str) (parse_timestamp lib) of
                          Some t \<Rightarrow> t | None \<Rightarrow> wl_now lib);
          description = or_else (Option.bind (json_pointer [''vehicle_type'', ''description_en''] trip) as_str)
                          (Option.bind (json_pointer [''vehicle_type'', ''description_cs''] trip) as_str);
          route_type = Option.bind (json_field ''route_type'' gtfs) as_i64
      in case (coordinate_pair feature, vehicle_id) of
           (Some (lon, lat), Some vehicle_id) \<Rightarrow> Some
             \<lparr>wr_source = PID_SOURCE, wr_source_feed_id = PID_FEED_ID, wr_source_entity_id = ''vehicle:'' @ vehicle_id,
              wr_trip_id = scoped PID_STATIC_FEED_ID source_trip_id,
              wr_route_id = scoped PID_STATIC_FEED_ID (value_string lib (json_field ''route_id'' gtfs)),
              wr_stop_id = scoped PID_STATIC_FEED_ID (value_string lib (json_pointer [''next_stop'', ''id''] position)),
              wr_delay_seconds = value_i32 (json_pointer [''delay'', ''actual''] position), wr_estimated_arrival = None,
              wr_estimated_departure = None,
              wr_cancellation_status = (if value_bool (json_field ''is_canceled'' position) = Some True then Some ''cancelled'' else None),
              wr_vehicle_id = Some vehicle_id, wr_lat = Some lat, wr_lon = Some lon, wr_bearing = value_f64 (json_field ''bearing'' position),
              wr_details = \<lparr>de_route_short_name = or_else (value_string lib (json_field ''route_short_name'' gtfs))
                                (value_string lib (json_field ''origin_route_name'' trip)),
                de_destination = value_string lib (json_field ''trip_headsign'' gtfs),
                de_vehicle_type = canonical_vehicle_type lib description route_type,
                de_speed_kmh = value_f64 (json_field ''speed'' position),
                de_wheelchair_accessible = value_bool (json_field ''wheelchair_accessible'' trip),
                de_air_conditioned = value_bool (json_field ''air_conditioned'' trip),
                de_usb_chargers = value_bool (json_field ''usb_chargers'' trip), de_occupancy_status = None,
                de_registration_number = registration_number,
                de_operator_name = value_string lib (json_pointer [''agency_name'', ''real''] trip),
                de_tracking = value_bool (json_field ''tracking'' position), de_state = value_string lib (json_field ''state_position'' position)\<rparr>,
              wr_fetched_at = fetched_at, wr_valid_until = fetched_at + 90, wr_service_date = None, wr_raw_payload = feature\<rparr>
         | _ \<Rightarrow> None)"

definition pid_json_vehicle_records :: "worker_library \<Rightarrow> json \<Rightarrow> string + worker_record list" where
  "pid_json_vehicle_records lib payload =
     (case Option.bind (json_field ''features'' payload) as_array of
        None \<Rightarrow> Inl ''Golemio vehicle response is missing features''
      | Some features \<Rightarrow> Inr (List.map_filter (pid_json_vehicle_record lib) features))"

section \<open>Deduplication\<close>

definition record_identity :: "worker_record \<Rightarrow> string \<times> string" where
  "record_identity r = (wr_source r, wr_source_entity_id r)"

definition note_record :: "((string \<times> string) \<times> worker_record) list \<Rightarrow> worker_record \<Rightarrow> ((string \<times> string) \<times> worker_record) list" where
  "note_record known r =
     (case map_of known (record_identity r) of
        None \<Rightarrow> AList.update (record_identity r) r known
      | Some existing \<Rightarrow> if wr_fetched_at existing \<le> wr_fetched_at r then AList.update (record_identity r) r known else known)"

definition has_position :: "worker_record \<Rightarrow> bool" where
  "has_position r \<longleftrightarrow> wr_lat r \<noteq> None \<and> wr_lon r \<noteq> None"

definition deduplicate_records :: "(worker_record list \<Rightarrow> worker_record list) \<Rightarrow> worker_record list \<Rightarrow> worker_record list" where
  "deduplicate_records hash_order records =
     sort_key (\<lambda>r. (\<not> has_position r, wr_source r, wr_source_entity_id r))
       (hash_order (map snd (foldl note_record [] records)))"

end
