(* ===== verification/Realtime_Props.thy ===== *)
theory Realtime_Props
  imports Realtime_Feed
begin

text \<open>
  What leaves the realtime worker for the database: one record per entity, the newest, positions first, and one
  summary per trip; both are the same for every iteration order of the hash maps.
\<close>

section \<open>Deduplication\<close>

lemma max_by_key_snoc:
  "max_by_key f (xs @ [y]) = (case max_by_key f xs of None \<Rightarrow> Some y | Some m \<Rightarrow> if f m \<le> f y then Some y else Some m)"
  by (cases xs) auto

lemma distinct_AList_update: "distinct (map fst al) \<Longrightarrow> distinct (map fst (AList.update k v al))"
  by (rule distinct_update)

lemma noted_records:
  defines "known records \<equiv> foldl note_record [] records"
  shows "map_of (known records) i = max_by_key wr_fetched_at (filter (\<lambda>r. record_identity r = i) records)"
    and "distinct (map fst (known records))"
    and "(i, r) \<in> set (known records) \<Longrightarrow> record_identity r = i"
proof -
  have "distinct (map fst (known records)) \<and>
      (\<forall>i. map_of (known records) i = max_by_key wr_fetched_at (filter (\<lambda>r. record_identity r = i) records))"
    unfolding known_def
  proof (induction records rule: rev_induct)
    case (snoc r records)
    then show ?case
      by (auto simp: note_record_def max_by_key_snoc distinct_update update_conv' split: option.splits)
  qed simp
  then show keys: "distinct (map fst (known records))"
    and lookup: "map_of (known records) i = max_by_key wr_fetched_at (filter (\<lambda>r. record_identity r = i) records)" for i
    by blast+
  show "record_identity r = i" if "(i, r) \<in> set (known records)"
  proof -
    from that keys have "map_of (known records) i = Some r" by simp
    then have "max_by_key wr_fetched_at (filter (\<lambda>r. record_identity r = i) records) = Some r" by (simp add: lookup)
    from max_by_key_Some(1) [OF this] show ?thesis by simp
  qed
qed

lemma filter_one:
  assumes "distinct (map f xs)" and "x \<in> set xs"
  shows "filter (\<lambda>y. f y = f x) xs = [x]"
  using assms
proof (induction xs)
  case (Cons z xs)
  have "filter (\<lambda>y. f y = f z) xs = []" using Cons.prems(1) by (auto simp: filter_empty_conv dest: sym)
  moreover have "f z \<noteq> f x" if "x \<in> set xs" using Cons.prems(1) that by auto
  ultimately show ?case using Cons by auto
qed simp

lemma filter_key_none: "k \<notin> f ` set xs \<Longrightarrow> filter (\<lambda>y. f y = k) xs = []"
  by (auto simp: filter_empty_conv)

lemma known_values:
  assumes "distinct (map fst al)" and "\<And>k v. (k, v) \<in> set al \<Longrightarrow> key v = k"
  shows "distinct (map key (map snd al))" and "mset xs = mset (map snd al) \<Longrightarrow>
      filter (\<lambda>v. key v = k) xs = (case map_of al k of None \<Rightarrow> [] | Some v \<Rightarrow> [v])"
proof -
  have keys: "map key (map snd al) = map fst al" using assms(2) by auto
  then show d: "distinct (map key (map snd al))" using assms(1) by (simp only: keys)
  assume m: "mset xs = mset (map snd al)"
  have "distinct (map key xs)"
    using d mset_map [of key xs] mset_map [of key "map snd al"] m by (metis mset_eq_imp_distinct_iff)
  moreover have set: "set xs = snd ` set al" using m by (metis mset_eq_setD set_map)
  show "filter (\<lambda>v. key v = k) xs = (case map_of al k of None \<Rightarrow> [] | Some v \<Rightarrow> [v])"
  proof (cases "map_of al k")
    case None
    then have "k \<notin> key ` set xs" using assms(2) set by (force simp: map_of_eq_None_iff)
    with None show ?thesis by (simp add: filter_key_none)
  next
    case (Some v)
    from map_of_SomeD [OF Some] have "v \<in> set xs" "key v = k" using set assms(2) by force+
    with Some filter_one [OF \<open>distinct (map key xs)\<close>] show ?thesis by force
  qed
qed

lemma deduplicated_mset:
  assumes "\<And>xs :: worker_record list. mset (hash_order xs) = mset xs"
  shows "mset (deduplicate_records hash_order records) = mset (map snd (foldl note_record [] records))"
  using assms by (simp add: deduplicate_records_def)

lemma deduplicated_one:
  assumes "\<And>xs :: worker_record list. mset (hash_order xs) = mset xs"
  shows "filter (\<lambda>r. record_identity r = i) (deduplicate_records hash_order records) =
      (case max_by_key wr_fetched_at (filter (\<lambda>r. record_identity r = i) records) of None \<Rightarrow> [] | Some r \<Rightarrow> [r])"
  unfolding noted_records(1) [symmetric] by (rule known_values(2) [OF noted_records(2,3) deduplicated_mset [OF assms]])

lemma deduplicated_distinct:
  assumes "\<And>xs :: worker_record list. mset (hash_order xs) = mset xs"
  shows "distinct (map record_identity (deduplicate_records hash_order records))"
proof -
  have "distinct (map record_identity (map snd (foldl note_record [] records)))"
    using noted_records(2,3) by (intro known_values(1))
  moreover have "mset (map record_identity (deduplicate_records hash_order records)) =
      mset (map record_identity (map snd (foldl note_record [] records)))"
    by (simp only: mset_map deduplicated_mset [OF assms])
  ultimately show ?thesis by (metis mset_eq_imp_distinct_iff)
qed

text \<open>Of all records of one entity in a feed, exactly the newest is stored, the later one of equally new ones; the records
  with a position come first; and the result does not depend on the iteration order of the hash map.
\<close>

theorem deduplicate_records_correct:
  assumes "\<And>xs :: worker_record list. mset (hash_order xs) = mset xs" and "\<And>xs :: worker_record list. mset (hash_order' xs) = mset xs"
  shows "filter (\<lambda>r. record_identity r = i) (deduplicate_records hash_order records) =
      (case max_by_key wr_fetched_at (filter (\<lambda>r. record_identity r = i) records) of None \<Rightarrow> [] | Some r \<Rightarrow> [r]) \<and>
    sorted (map (\<lambda>r. \<not> has_position r) (deduplicate_records hash_order records)) \<and>
    deduplicate_records hash_order records = deduplicate_records hash_order' records"
proof -
  let ?known = "foldl note_record [] records"
  let ?key = "\<lambda>r. (\<not> has_position r, wr_source r, wr_source_entity_id r)"
  note known = noted_records [where records = records]
  have unique: "distinct (map record_identity (map snd ?known))"
    using known(2,3) by (intro known_values(1))
  have one: "filter (\<lambda>r. record_identity r = i) (deduplicate_records hash_order records) =
      (case max_by_key wr_fetched_at (filter (\<lambda>r. record_identity r = i) records) of None \<Rightarrow> [] | Some r \<Rightarrow> [r])"
    by (rule deduplicated_one [OF assms(1)])
  have "sorted (map ?key (deduplicate_records hash_order records))"
    unfolding deduplicate_records_def by (rule sorted_sort_key)
  then have positions: "sorted (map (\<lambda>r. \<not> has_position r) (deduplicate_records hash_order records))"
    by (auto simp: sorted_map less_eq_prod_def intro: sorted_wrt_mono_rel [rotated])
  have "inj_on ?key (set (map snd ?known))"
    using unique unfolding distinct_map inj_on_def by (auto simp: record_identity_def)
  moreover have "mset (hash_order (map snd ?known)) = mset (hash_order' (map snd ?known))" by (simp only: assms)
  moreover have "set (hash_order (map snd ?known)) = set (map snd ?known)" by (metis assms(1) mset_eq_setD)
  ultimately have "deduplicate_records hash_order records = deduplicate_records hash_order' records"
    unfolding deduplicate_records_def by (intro sort_key_inj_key_eq) (simp_all only: mset_sort sorted_sort_key)
  with one positions show ?thesis by blast
qed

lemma deduplicate_records_correct_witness:
  "filter (\<lambda>r. record_identity r = i) (deduplicate_records rev records) =
      (case max_by_key wr_fetched_at (filter (\<lambda>r. record_identity r = i) records) of None \<Rightarrow> [] | Some r \<Rightarrow> [r]) \<and>
    sorted (map (\<lambda>r. \<not> has_position r) (deduplicate_records rev records)) \<and>
    deduplicate_records rev records = deduplicate_records id records"
  by (rule deduplicate_records_correct) simp_all

section \<open>Trip summaries\<close>

text \<open>The first record with a delay, or the first record.\<close>

definition summary_source :: "worker_record list \<Rightarrow> worker_record" where
  "summary_source records = (case find (\<lambda>r. wr_delay_seconds r \<noteq> None) records of Some r \<Rightarrow> r | None \<Rightarrow> hd records)"

lemma find_snoc: "find P (xs @ [x]) = (case find P xs of Some y \<Rightarrow> Some y | None \<Rightarrow> if P x then Some x else None)"
  by (induction xs) auto

lemma summary_of_simps [simp]:
  "wr_trip_id (summary_of t r) = wr_trip_id r" "wr_delay_seconds (summary_of t r) = wr_delay_seconds r"
  "wr_cancellation_status (summary_of t r) = wr_cancellation_status r"
  by (simp_all add: summary_of_def)

definition same_cancellation :: "worker_record list \<Rightarrow> bool" where
  "same_cancellation records \<longleftrightarrow>
     (\<forall>r \<in> set records. \<forall>r' \<in> set records. wr_trip_id r = wr_trip_id r' \<longrightarrow> wr_cancellation_status r = wr_cancellation_status r')"

lemma summary_source_in: "records \<noteq> [] \<Longrightarrow> summary_source records \<in> set records"
  by (auto simp: summary_source_def find_Some_iff split: option.splits)

lemma summary_source_snoc:
  "records \<noteq> [] \<Longrightarrow> summary_source (records @ [r]) =
     (if wr_delay_seconds (summary_source records) = None \<and> wr_delay_seconds r \<noteq> None then r else summary_source records)"
proof -
  assume ne: "records \<noteq> []"
  show ?thesis
  proof (cases "find (\<lambda>r. wr_delay_seconds r \<noteq> None) records")
    case None
    then have "wr_delay_seconds (hd records) = None" using ne by (auto simp: find_None_iff)
    with None ne show ?thesis by (simp add: summary_source_def find_snoc)
  next
    case (Some k)
    then have "wr_delay_seconds k \<noteq> None" by (auto simp: find_Some_iff)
    with Some show ?thesis by (auto simp: summary_source_def find_snoc)
  qed
qed

lemma noted_summaries:
  assumes "same_cancellation records"
  shows "distinct (map fst (foldl note_summary [] records)) \<and>
    (\<forall>t. map_of (foldl note_summary [] records) t =
      (let rs = filter (\<lambda>r. wr_trip_id r = Some t) records in if rs = [] then None else Some (summary_of t (summary_source rs))))"
  using assms
proof (induction records rule: rev_induct)
  case (snoc r records)
  let ?known = "foldl note_summary [] records"
  let ?of = "\<lambda>t. filter (\<lambda>r. wr_trip_id r = Some t) records"
  have same: "same_cancellation records" using snoc.prems unfolding same_cancellation_def set_append by blast
  from snoc.IH [OF this] have known: "distinct (map fst ?known)"
    "\<And>t. map_of ?known t = (if ?of t = [] then None else Some (summary_of t (summary_source (?of t))))" by (auto simp: Let_def)
  show ?case
  proof (cases "wr_trip_id r")
    case None
    then have "note_summary ?known r = ?known" by (simp add: note_summary_def)
    with None known show ?thesis by (simp add: Let_def)
  next
    case (Some t)
    have replace: "should_replace (map_of ?known t) r \<longleftrightarrow>
        ?of t = [] \<or> (wr_delay_seconds (summary_source (?of t)) = None \<and> wr_delay_seconds r \<noteq> None)"
    proof (cases "?of t = []")
      case False
      from summary_source_in [OF this] have "summary_source (?of t) \<in> set records" "wr_trip_id (summary_source (?of t)) = Some t" by auto
      moreover have "r \<in> set (records @ [r])" "set records \<subseteq> set (records @ [r])" by auto
      ultimately have "wr_cancellation_status (summary_source (?of t)) = wr_cancellation_status r"
        using snoc.prems Some unfolding same_cancellation_def by (metis subsetD)
      with False show ?thesis by (auto simp: known(2) should_replace_def)
    qed (simp add: known(2) should_replace_def)
    have at_t: "map_of (note_summary ?known r) t = Some (summary_of t (summary_source (?of t @ [r])))"
    proof (cases "?of t = []")
      case True
      then show ?thesis using Some replace by (simp add: note_summary_def update_conv' summary_source_def)
    next
      case False
      then show ?thesis using Some replace known(2) [of t] by (simp add: note_summary_def update_conv' summary_source_snoc)
    qed
    have "map_of (note_summary ?known r) u = map_of ?known u" if "u \<noteq> t" for u
      using Some that by (simp add: note_summary_def update_conv')
    with at_t known(2) Some have "map_of (note_summary ?known r) u =
        (let rs = filter (\<lambda>r. wr_trip_id r = Some u) (records @ [r]) in if rs = [] then None else Some (summary_of u (summary_source rs)))"
      for u by (cases "u = t") (simp_all add: Let_def)
    moreover have "distinct (map fst (note_summary ?known r))"
      using Some known(1) by (simp add: note_summary_def distinct_update)
    ultimately show ?thesis by (simp only: foldl_append foldl_Cons foldl_Nil simp_thms)
  qed
qed simp

text \<open>While the updates of a trip agree whether it runs, every trip of the feed gets exactly one summary: with the
  first delay that is reported, without a stop and without times.
\<close>

theorem trip_summaries_correct:
  assumes "\<And>xs :: worker_record list. mset (hash_order xs) = mset xs" and "same_cancellation (pid_trip_records lib feed)"
  shows "filter (\<lambda>s. wr_trip_id s = Some t) (pid_trip_summary_records hash_order lib feed) =
    (let rs = filter (\<lambda>r. wr_trip_id r = Some t) (pid_trip_records lib feed)
     in if rs = [] then [] else [summary_of t (summary_source rs)])"
proof -
  let ?known = "foldl note_summary [] (pid_trip_records lib feed)"
  note known = noted_summaries [OF assms(2)]
  have "wr_trip_id s = Some u" if "(u, s) \<in> set ?known" for u s
  proof -
    from that conjunct1 [OF known] have "map_of ?known u = Some s" by (rule map_of_is_SomeI [rotated])
    with known have "s = summary_of u (summary_source (filter (\<lambda>r. wr_trip_id r = Some u) (pid_trip_records lib feed)))"
      "filter (\<lambda>r. wr_trip_id r = Some u) (pid_trip_records lib feed) \<noteq> []" by (auto simp: Let_def split: if_splits)
    with summary_source_in show ?thesis by fastforce
  qed
  then have key: "(case wr_trip_id s of Some x \<Rightarrow> x | None \<Rightarrow> []) = u" "wr_trip_id s \<noteq> None" if "(u, s) \<in> set ?known" for u s
    using that by simp_all
  have set: "set (hash_order (map snd ?known)) = snd ` set ?known" by (metis assms(1) mset_eq_setD set_map)
  have "filter (\<lambda>s. wr_trip_id s = Some t) (hash_order (map snd ?known)) =
      filter (\<lambda>s. (case wr_trip_id s of Some x \<Rightarrow> x | None \<Rightarrow> []) = t) (hash_order (map snd ?known))"
    using key set by (intro filter_cong) (force split: option.splits)+
  also have "\<dots> = (case map_of ?known t of None \<Rightarrow> [] | Some v \<Rightarrow> [v])"
    using known key(1) assms(1) by (intro known_values(2)) auto
  finally show ?thesis using known by (simp add: pid_trip_summary_records_def Let_def)
qed

definition sample_worker_library :: worker_library where
  "sample_worker_library = \<lparr>wl_now = 0, wl_timestamp_opt = Some, wl_parse_ymd = (\<lambda>_. None), wl_parse_rfc3339 = (\<lambda>_. None),
     wl_lower = id, wl_show_float = (\<lambda>_. [])\<rparr>"

definition sample_update :: "string \<Rightarrow> i32 option \<Rightarrow> i32 option \<Rightarrow> feed_entity" where
  "sample_update entity relationship delay = \<lparr>fe_id = entity, fe_trip_update = Some \<lparr>tu_trip = Some \<lparr>td_trip_id = Some ''t'',
       td_start_time = None, td_start_date = None, td_schedule_relationship = relationship, td_route_id = None\<rparr>,
     tu_stop_time_update = (case delay of None \<Rightarrow> [] | Some d \<Rightarrow> [\<lparr>su_stop_sequence = None,
       su_arrival = Some \<lparr>ev_delay = Some d, ev_time = None\<rparr>, su_departure = None, su_stop_id = None\<rparr>]),
     tu_vehicle = None\<rparr>, fe_vehicle = None\<rparr>"

definition sample_feed :: "feed_entity list \<Rightarrow> feed_message" where
  "sample_feed entities = \<lparr>fm_header = None, fm_entity = entities\<rparr>"

lemma trip_summaries_correct_witness:
  "filter (\<lambda>s. wr_trip_id s = Some ''pid_gtfs:t'')
      (pid_trip_summary_records rev sample_worker_library (sample_feed [sample_update ''a'' None None, sample_update ''b'' None (Some 60)])) =
    (let rs = filter (\<lambda>r. wr_trip_id r = Some ''pid_gtfs:t'')
        (pid_trip_records sample_worker_library (sample_feed [sample_update ''a'' None None, sample_update ''b'' None (Some 60)]))
     in if rs = [] then [] else [summary_of ''pid_gtfs:t'' (summary_source rs)])"
proof (rule trip_summaries_correct)
  show "same_cancellation (pid_trip_records sample_worker_library (sample_feed [sample_update ''a'' None None, sample_update ''b'' None (Some 60)]))"
    by (simp add: same_cancellation_def pid_trip_records_def sample_feed_def sample_update_def pid_entity_records_def Let_def
        whole_trip_record_def stop_update_record_def pid_base_record_def cancellation_of_def)
qed simp

text \<open>
  When two entities of one trip disagree, the summary follows whichever filled a gap last: a cancellation is
  forgotten when a later entity reports a delay and no cancellation.
\<close>

lemma summary_forgets_cancellation:
  "map wr_cancellation_status (pid_trip_summary_records id sample_worker_library
     (sample_feed [sample_update ''a'' (Some 3) None, sample_update ''b'' None (Some 60)])) = [None]"
  by code_simp

end
