(* ===== verification/Duk_Feed.thy ===== *)
theory Duk_Feed
  imports Realtime_Props
begin

text \<open>
  \<^verbatim>\<open>services/realtime-worker/src/duk.rs\<close>: the vehicles and departures of the DUK interface. The XML reader is a
  library; its events are the input. Reading a local time of Prague and a decimal number are the fields of
  \<open>duk_library\<close>.
\<close>

section \<open>Reading the answer\<close>

datatype xml_event = StartTag string | TextEvent string | EndTag string | OtherEvent | XmlFailure string

type_synonym xml_element = "(string \<times> string) list"

definition local_name :: "string \<Rightarrow> string" where
  "local_name name = last (split_on (CHR '':'') name)"

record duk_reader =
  dr_elements :: "xml_element list"
  dr_current :: xml_element
  dr_tag :: string
  dr_inside :: bool

definition duk_start :: duk_reader where
  "duk_start = \<lparr>dr_elements = [], dr_current = [], dr_tag = [], dr_inside = False\<rparr>"

text \<open>\<open>elements\<close> are the two tags that open an element: its own and that of the whole result.\<close>

fun duk_event :: "string set \<Rightarrow> xml_event \<Rightarrow> duk_reader \<Rightarrow> string + duk_reader" where
  "duk_event elements (StartTag name) r =
     (if local_name name \<in> elements then Inr (r\<lparr>dr_inside := True, dr_current := []\<rparr>)
      else if dr_inside r then Inr (r\<lparr>dr_tag := local_name name\<rparr>) else Inr r)"
| "duk_event elements (TextEvent text) r =
     (if dr_inside r \<and> dr_tag r \<noteq> [] then Inr (r\<lparr>dr_current := AList.update (dr_tag r) text (dr_current r)\<rparr>) else Inr r)"
| "duk_event elements (EndTag name) r =
     (let r = (if local_name name \<in> elements then r\<lparr>dr_inside := False, dr_elements := dr_elements r @ [dr_current r]\<rparr> else r)
      in Inr (r\<lparr>dr_tag := []\<rparr>))"
| "duk_event elements OtherEvent r = Inr r"
| "duk_event elements (XmlFailure e) r = Inl (''XML parse error: '' @ e)"

fun duk_events :: "string set \<Rightarrow> xml_event list \<Rightarrow> duk_reader \<Rightarrow> string + duk_reader" where
  "duk_events elements [] r = Inr r"
| "duk_events elements (event # events) r = bind_result (duk_event elements event r) (duk_events elements events)"

definition read_elements :: "string set \<Rightarrow> xml_event list \<Rightarrow> string + xml_element list" where
  "read_elements elements events = bind_result (duk_events elements events duk_start) (\<lambda>r. Inr (dr_elements r))"

section \<open>Records\<close>

record duk_library =
  dl_now :: date_time
  dl_local_time :: "string \<Rightarrow> date_time option"
  dl_parse_f64 :: "string \<Rightarrow> f64 option"

definition parse_i32 :: "string \<Rightarrow> i32 option" where
  "parse_i32 s =
     (case s of
        [] \<Rightarrow> None
      | c # cs \<Rightarrow>
          if c = CHR ''-'' then (case cs of [] \<Rightarrow> None | d # _ \<Rightarrow> if d = CHR ''+'' then None else
              Option.bind (parse_uint 32 (ascii cs)) (\<lambda>n. if n \<le> 2 ^ 31 then Some (- int n) else None))
          else Option.bind (parse_uint 31 (ascii s)) (\<lambda>n. Some (int n)))"

text \<open>Minutes to seconds in \<open>i32\<close>, which wraps in a release build.\<close>

definition duk_delay :: "xml_element \<Rightarrow> i32 option" where
  "duk_delay e = map_option (\<lambda>minutes. wrap_i32 (minutes * 60)) (Option.bind (map_of e ''Delay'') parse_i32)"

definition duk_stop_id :: "xml_element \<Rightarrow> string option" where
  "duk_stop_id e =
     (case (map_of e ''StationNode'', map_of e ''StationPost'') of
        (Some node, Some post) \<Rightarrow> Some (''duk:stop:'' @ node @ '':'' @ post)
      | (Some node, None) \<Rightarrow> Some (''duk:stop:'' @ node)
      | _ \<Rightarrow> None)"

definition element_json :: "xml_element \<Rightarrow> json" where
  "element_json e = JObject (map (\<lambda>(key, text). (key, JString text)) e)"

text \<open>\<open>num_minutes() > 10\<close> drops what is at least eleven minutes old.\<close>

definition duk_vehicle_record :: "duk_library \<Rightarrow> xml_element \<Rightarrow> worker_record option" where
  "duk_vehicle_record lib e =
     (case map_of e ''ID'' of
        None \<Rightarrow> None
      | Some vehicle_id \<Rightarrow>
          (let fetched_at = (case Option.bind (map_of e ''GPSPositionDT'') (dl_local_time lib) of Some t \<Rightarrow> t | None \<Rightarrow> dl_now lib)
           in if 11 * 60 \<le> dl_now lib - fetched_at then None
              else Some \<lparr>wr_source = ''duk_positions'', wr_source_feed_id = ''duk_realtime'', wr_source_entity_id = ''vehicle:'' @ vehicle_id,
                wr_trip_id = map_option (\<lambda>i. ''duk:trip:'' @ i) (map_of e ''qride_tripID''),
                wr_route_id = map_option (\<lambda>i. ''duk:route:'' @ i) (map_of e ''CISLineID''), wr_stop_id = duk_stop_id e,
                wr_delay_seconds = duk_delay e, wr_estimated_arrival = None, wr_estimated_departure = None,
                wr_cancellation_status = None, wr_vehicle_id = Some vehicle_id,
                wr_lat = Option.bind (map_of e ''Latitude'') (dl_parse_f64 lib), wr_lon = Option.bind (map_of e ''Longitude'') (dl_parse_f64 lib),
                wr_bearing = Option.bind (map_of e ''Azimut'') (dl_parse_f64 lib), wr_details = no_details, wr_fetched_at = fetched_at,
                wr_valid_until = fetched_at + 90, wr_service_date = None, wr_raw_payload = element_json e\<rparr>))"

definition duk_vehicle_records :: "duk_library \<Rightarrow> xml_event list \<Rightarrow> string + worker_record list" where
  "duk_vehicle_records lib events =
     bind_result (read_elements {''Vehicle'', ''GetActualVehiclesResult''} events) (\<lambda>es. Inr (List.map_filter (duk_vehicle_record lib) es))"

definition duk_departure_record :: "duk_library \<Rightarrow> string \<Rightarrow> xml_element \<Rightarrow> worker_record" where
  "duk_departure_record lib node_id e =
     \<lparr>wr_source = ''duk_departures'', wr_source_feed_id = ''duk_realtime'',
      wr_source_entity_id = ''departure:'' @ node_id @ '':'' @ (case map_of e ''ID'' of Some i \<Rightarrow> i | None \<Rightarrow> ''unknown''),
      wr_trip_id = map_option (\<lambda>i. ''duk:trip:'' @ i) (map_of e ''qride_tripID''),
      wr_route_id = map_option (\<lambda>i. ''duk:route:'' @ i) (map_of e ''CISLineID''), wr_stop_id = Some (''duk:stop:'' @ node_id),
      wr_delay_seconds = duk_delay e, wr_estimated_arrival = None,
      wr_estimated_departure = Option.bind (map_of e ''DepartureDT'') (dl_local_time lib), wr_cancellation_status = None,
      wr_vehicle_id = map_of e ''VehicleID'', wr_lat = None, wr_lon = None, wr_bearing = None, wr_details = no_details,
      wr_fetched_at = dl_now lib, wr_valid_until = dl_now lib + 300, wr_service_date = None, wr_raw_payload = element_json e\<rparr>"

definition duk_departure_records :: "duk_library \<Rightarrow> string \<Rightarrow> xml_event list \<Rightarrow> string + worker_record list" where
  "duk_departure_records lib node_id events =
     bind_result (read_elements {''Departure'', ''GetStationDeparturesThroughAllPostsOfNodeResult''} events) (\<lambda>es.
       Inr (map (duk_departure_record lib node_id) es))"

section \<open>What is read\<close>

text \<open>The events of a well-formed answer.\<close>

definition field_events :: "string \<times> string \<Rightarrow> xml_event list" where
  "field_events = (\<lambda>(key, text). [StartTag key, TextEvent text, EndTag key])"

definition element_events :: "string \<Rightarrow> xml_element \<Rightarrow> xml_event list" where
  "element_events tag e = [StartTag tag] @ concat (map field_events e) @ [EndTag tag]"

definition answer_events :: "string \<Rightarrow> string \<Rightarrow> xml_element list \<Rightarrow> xml_event list" where
  "answer_events tag whole es = [StartTag whole] @ concat (map (element_events tag) es) @ [EndTag whole]"

definition plain_element :: "string set \<Rightarrow> xml_element \<Rightarrow> bool" where
  "plain_element elements e \<longleftrightarrow> distinct (map fst e) \<and>
     (\<forall>key \<in> fst ` set e. key \<noteq> [] \<and> CHR '':'' \<notin> set key \<and> key \<notin> elements)"

lemma local_name_plain [simp]: "CHR '':'' \<notin> set name \<Longrightarrow> local_name name = name"
  by (simp add: local_name_def split_on_no_sep)

lemma duk_events_append: "duk_events elements (xs @ ys) r = bind_result (duk_events elements xs r) (duk_events elements ys)"
  by (induction xs arbitrary: r) (auto simp: bind_result_def split: sum.splits)

lemma AList_update_new: "k \<notin> fst ` set al \<Longrightarrow> AList.update k v al = al @ [(k, v)]"
  by (induction al) auto

lemma duk_events_fields:
  assumes "plain_element elements (dr_current r @ e)" and "dr_inside r" and "dr_tag r = []"
  shows "duk_events elements (concat (map field_events e)) r = Inr (r\<lparr>dr_current := dr_current r @ e\<rparr>)"
  using assms
proof (induction e arbitrary: r)
  case (Cons kv e)
  obtain k v where kv: "kv = (k, v)" by (cases kv)
  have k: "k \<noteq> []" "CHR '':'' \<notin> set k" "k \<notin> elements" "k \<notin> fst ` set (dr_current r)"
    using Cons.prems(1) by (auto simp: plain_element_def kv)
  let ?r = "r\<lparr>dr_current := dr_current r @ [(k, v)]\<rparr>"
  have "duk_events elements (field_events (k, v)) r = Inr ?r"
    using k Cons.prems(2,3) by (cases r) (simp add: field_events_def bind_result_def AList_update_new)
  moreover have "duk_events elements (concat (map field_events e)) ?r = Inr (?r\<lparr>dr_current := dr_current ?r @ e\<rparr>)"
    using Cons.prems by (intro Cons.IH) (simp_all add: kv)
  ultimately show ?case by (simp add: kv duk_events_append bind_result_def)
qed simp

lemma duk_events_element:
  assumes "plain_element elements e" and "CHR '':'' \<notin> set tag" and "tag \<in> elements" and "dr_tag r = []"
  shows "duk_events elements (element_events tag e) r =
    Inr (r\<lparr>dr_elements := dr_elements r @ [e], dr_current := e, dr_inside := False\<rparr>)"
proof -
  have "duk_events elements (concat (map field_events e)) (r\<lparr>dr_inside := True, dr_current := []\<rparr>) =
      Inr (r\<lparr>dr_inside := True, dr_current := e\<rparr>)"
    using assms(1,4) duk_events_fields [of elements "r\<lparr>dr_inside := True, dr_current := []\<rparr>" e] by simp
  with assms(2-4) show ?thesis
    by (cases r) (simp add: element_events_def duk_events_append bind_result_def)
qed

lemma duk_events_elements:
  assumes "\<And>e. e \<in> set es \<Longrightarrow> plain_element elements e" and "CHR '':'' \<notin> set tag" and "tag \<in> elements" and "es \<noteq> []" and "dr_tag r = []"
  shows "duk_events elements (concat (map (element_events tag) es)) r =
    Inr (r\<lparr>dr_elements := dr_elements r @ es, dr_current := last es, dr_inside := False\<rparr>)"
  using assms(1,4,5)
proof (induction es arbitrary: r)
  case (Cons e es)
  let ?r = "r\<lparr>dr_elements := dr_elements r @ [e], dr_current := e, dr_inside := False\<rparr>"
  have e: "duk_events elements (element_events tag e) r = Inr ?r"
    using duk_events_element [OF _ assms(2,3), of e r] Cons.prems(1,3) by simp
  show ?case
  proof (cases "es = []")
    case False
    with Cons.IH [of ?r] Cons.prems(1,3) e show ?thesis by (simp add: duk_events_append bind_result_def)
  qed (use e in \<open>simp add: duk_events_append bind_result_def\<close>)
qed simp

text \<open>Every element of an answer is read with all its fields in order; but the end of the whole answer counts as one more
  element, which repeats the fields of the last one or, when the answer is empty, has none.
\<close>

theorem answers_read_back:
  assumes "\<And>e. e \<in> set es \<Longrightarrow> plain_element {tag, whole} e" and "CHR '':'' \<notin> set tag" and "CHR '':'' \<notin> set whole"
  shows "read_elements {tag, whole} (answer_events tag whole es) = Inr (es @ [if es = [] then [] else last es])"
proof -
  let ?r = "duk_start\<lparr>dr_inside := True, dr_current := []\<rparr>"
  have "dr_tag ?r = []" by (simp add: duk_start_def)
  with duk_events_elements [of es "{tag, whole}" tag ?r] assms
  show ?thesis
    by (cases "es = []") (simp_all add: read_elements_def answer_events_def duk_events_append bind_result_def duk_start_def)
qed

lemma answers_read_back_witness:
  "read_elements {''Vehicle'', ''GetActualVehiclesResult''}
     (answer_events ''Vehicle'' ''GetActualVehiclesResult'' [[(''ID'', ''7''), (''Delay'', ''2'')]]) =
   Inr [[(''ID'', ''7''), (''Delay'', ''2'')], [(''ID'', ''7''), (''Delay'', ''2'')]]"
  using answers_read_back [of "[[(''ID'', ''7''), (''Delay'', ''2'')]]" "''Vehicle''" "''GetActualVehiclesResult''"]
  by (simp add: plain_element_def)

text \<open>So a station without departures still gets a record, of an unknown departure.\<close>

lemma phantom_departure:
  "map_sum id (map wr_source_entity_id) (duk_departure_records \<lparr>dl_now = 0, dl_local_time = (\<lambda>_. None), dl_parse_f64 = (\<lambda>_. None)\<rparr> ''12''
     (answer_events ''Departure'' ''GetStationDeparturesThroughAllPostsOfNodeResult'' [])) = Inr [''departure:12:unknown'']"
  by code_simp

end
