(* ===== verification/Push_Queue.thy ===== *)
theory Push_Queue
  imports Duk_Feed
begin

text \<open>
  The push notifications of \<^verbatim>\<open>services/realtime-worker/src/main.rs\<close>: which events a batch of records raises for the
  subscriptions of travellers, and the queue that delivers each event once. The tables are lists of rows and each
  SQL statement is the function its text describes; rows of the queue are never deleted by the worker, so a row
  is known by its position. \<open>push_deliveries\<close> is unique in (device, event key). The provider, reached
  over HTTP, is a parameter.
\<close>

section \<open>Tables\<close>

datatype delivery_status = PendingPush | SendingPush | DeliveredPush | RetryPush | FailedPush

record push_delivery =
  pd_subscription_id :: string
  pd_device_id :: uuid
  pd_event_key :: string
  pd_event_type :: string
  pd_payload :: json
  pd_status :: delivery_status
  pd_attempts :: int
  pd_available_at :: date_time
  pd_last_error_code :: "string option"
  pd_created_at :: date_time
  pd_delivered_at :: "date_time option"

record mobile_device =
  md_id :: uuid
  md_platform :: string
  md_push_token :: string
  md_enabled :: bool

record subscription_row =
  jb_id :: string
  jb_device_id :: uuid
  jb_run_id :: string
  jb_service_date :: naive_date
  jb_trip_id :: string
  jb_boarding_call_id :: string
  jb_boarding_stop_id :: string
  jb_boarding_stop_sequence :: i32
  jb_alighting_stop_sequence :: "i32 option"
  jb_connection_service_date :: "naive_date option"
  jb_connection_trip_id :: "string option"
  jb_minimum_transfer_seconds :: "i32 option"
  jb_significant_delay_seconds :: i32
  jb_expires_at :: date_time
  jb_ended_at :: "date_time option"

text \<open>A scheduled call: trip, sequence, arrival and departure in seconds.\<close>

record scheduled_call =
  sk_trip_id :: string
  sk_stop_sequence :: i32
  sk_arrival_time :: "i32 option"
  sk_departure_time :: "i32 option"

record push_store =
  pq_deliveries :: "push_delivery list"
  pq_devices :: "mobile_device list"
  pq_subscriptions :: "subscription_row list"
  pq_calls :: "scheduled_call list"

section \<open>Events\<close>

fun merge_json :: "json \<Rightarrow> json \<Rightarrow> json" where
  "merge_json (JObject base) (JObject extra) = JObject (foldl (\<lambda>m (k, v). AList.update k v m) base extra)"
| "merge_json base extra = base"

text \<open>\<open>ON CONFLICT DO NOTHING\<close>.\<close>

definition insert_push_event :: "date_time \<Rightarrow> string \<Rightarrow> uuid \<Rightarrow> string \<Rightarrow> string \<Rightarrow> json \<Rightarrow> push_store \<Rightarrow> push_store" where
  "insert_push_event now subscription_id device_id event_key event_type payload st =
     (if list_ex (\<lambda>d. pd_device_id d = device_id \<and> pd_event_key d = event_key) (pq_deliveries st) then st
      else st\<lparr>pq_deliveries := pq_deliveries st @
             [\<lparr>pd_subscription_id = subscription_id, pd_device_id = device_id, pd_event_key = event_key, pd_event_type = event_type,
               pd_payload = payload, pd_status = PendingPush, pd_attempts = 0, pd_available_at = now, pd_last_error_code = None,
               pd_created_at = now, pd_delivered_at = None\<rparr>]\<rparr>)"

definition connection_is_at_risk :: "push_store \<Rightarrow> subscription_row \<Rightarrow> worker_record \<Rightarrow> i32 option \<Rightarrow> bool" where
  "connection_is_at_risk st s r stop_sequence =
     (case (jb_connection_trip_id s, jb_alighting_stop_sequence s) of
        (Some connection_trip_id, Some alighting_sequence) \<Rightarrow>
          (if stop_sequence \<noteq> None \<and> stop_sequence \<noteq> Some alighting_sequence then False
           else (case wr_delay_seconds r of
                   None \<Rightarrow> False
                 | Some delay \<Rightarrow>
                     (let arrival = Option.bind (find (\<lambda>c. sk_trip_id c = jb_trip_id s \<and> sk_stop_sequence c = alighting_sequence) (pq_calls st))
                            sk_arrival_time;
                          departure = Option.bind (min_by_key sk_stop_sequence (filter (\<lambda>c. sk_trip_id c = connection_trip_id) (pq_calls st)))
                            sk_departure_time
                      in case (arrival, departure) of
                           (Some arrival, Some departure) \<Rightarrow>
                             (let connection_date = (case jb_connection_service_date s of Some d \<Rightarrow> d | None \<Rightarrow> jb_service_date s);
                                  day_offset = (connection_date - jb_service_date s) * 86400;
                                  remaining = departure + day_offset - arrival - delay
                              in remaining < (case jb_minimum_transfer_seconds s of Some m \<Rightarrow> m | None \<Rightarrow> 0))
                         | _ \<Rightarrow> False)))
      | _ \<Rightarrow> False)"

definition record_sequence :: "worker_record \<Rightarrow> i32 option" where
  "record_sequence r = Option.bind (json_field ''stop_sequence'' (wr_raw_payload r)) (\<lambda>v.
     case v of JInt n \<Rightarrow> if 0 \<le> n \<and> n < 2 ^ 31 then Some n else None | _ \<Rightarrow> None)"

definition base_payload :: "subscription_row \<Rightarrow> worker_record \<Rightarrow> json" where
  "base_payload s r = JObject [(''subscription_id'', JString (jb_id s)), (''run_id'', JString (jb_run_id s)),
     (''service_date'', JInt (jb_service_date s)), (''trip_id'', JString (jb_trip_id s)),
     (''boarding_call_id'', JString (jb_boarding_call_id s)), (''fetched_at'', JInt (wr_fetched_at r))]"

text \<open>The events of one record for one subscription: key, type and payload, in the order of insertion.\<close>

definition push_events :: "push_store \<Rightarrow> subscription_row \<Rightarrow> worker_record \<Rightarrow> (string \<times> string \<times> json) list" where
  "push_events st s r =
     (let stop_sequence = record_sequence r; base = base_payload s r
      in (if wr_cancellation_status r \<noteq> None
          then [(jb_id s @ '':trip_cancelled'', ''trip_cancelled'',
                 merge_json base (JObject [(''cancellation_status'', json_string (wr_cancellation_status r))]))] else []) @
         (case wr_delay_seconds r of
            Some delay \<Rightarrow> if jb_significant_delay_seconds s \<le> delay
              then [(jb_id s @ '':significant_delay'', ''significant_delay'', merge_json base (JObject [(''delay_seconds'', JInt delay)]))] else []
          | None \<Rightarrow> []) @
         (case wr_stop_id r of
            Some actual_stop_id \<Rightarrow> if stop_sequence = Some (jb_boarding_stop_sequence s) \<and> actual_stop_id \<noteq> jb_boarding_stop_id s
              then [(jb_id s @ '':platform_changed:'' @ actual_stop_id, ''platform_changed'',
                     merge_json base (JObject [(''scheduled_stop_id'', JString (jb_boarding_stop_id s)), (''actual_stop_id'', JString actual_stop_id)]))]
              else []
          | None \<Rightarrow> []) @
         (if connection_is_at_risk st s r stop_sequence
          then [(jb_id s @ '':connection_at_risk'', ''connection_at_risk'', merge_json base (JObject [(''delay_seconds'', json_i (wr_delay_seconds r))]))]
          else []))"

definition insert_events :: "date_time \<Rightarrow> subscription_row \<Rightarrow> (string \<times> string \<times> json) list \<Rightarrow> push_store \<Rightarrow> push_store" where
  "insert_events now s events st =
     foldl (\<lambda>st (key, type, payload). insert_push_event now (jb_id s) (jb_device_id s) key type payload st) st events"

definition active_subscriptions :: "date_time \<Rightarrow> string list \<Rightarrow> push_store \<Rightarrow> subscription_row list" where
  "active_subscriptions now trip_ids st =
     filter (\<lambda>s. list_ex (\<lambda>d. md_id d = jb_device_id s \<and> md_enabled d) (pq_devices st) \<and> jb_trip_id s \<in> set trip_ids \<and>
       jb_ended_at s = None \<and> now < jb_expires_at s) (pq_subscriptions st)"

definition enqueue_push_events :: "date_time \<Rightarrow> worker_record list \<Rightarrow> push_store \<Rightarrow> push_store" where
  "enqueue_push_events now records st =
     (let trip_ids = List.map_filter wr_trip_id records
      in foldl (\<lambda>st s. foldl (\<lambda>st r. insert_events now s (push_events st s r) st) st
           (filter (\<lambda>r. wr_trip_id r = Some (jb_trip_id s) \<and> wr_service_date r = Some (jb_service_date s)) records))
         st (active_subscriptions now trip_ids st))"

section \<open>Delivery\<close>

datatype push_send_result = Delivered | Retry string | InvalidToken string | Failed string

text \<open>\<open>None\<close> is a transport error, otherwise the status and the body of the answer.\<close>

definition classify_push_status :: "nat \<Rightarrow> string \<Rightarrow> bool \<Rightarrow> push_send_result" where
  "classify_push_status status body fcm =
     (if (\<not> fcm \<and> (status = 410 \<or> str_contains body ''BadDeviceToken'' \<or> str_contains body ''Unregistered'')) \<or>
         (fcm \<and> (status = 404 \<or> str_contains body ''UNREGISTERED'')) then InvalidToken ''push_token_invalid''
      else if status = 429 \<or> (500 \<le> status \<and> status < 600) then Retry ''push_provider_temporary_failure''
      else Failed ''push_provider_rejected'')"

definition classify_push_response :: "(nat \<times> string) option \<Rightarrow> bool \<Rightarrow> push_send_result" where
  "classify_push_response response fcm =
     (case response of
        None \<Rightarrow> Retry ''push_transport_error''
      | Some (status, body) \<Rightarrow> if 200 \<le> status \<and> status < 300 then Delivered else classify_push_status status body fcm)"

text \<open>A provider takes the token of a device, the type of the event and its payload.\<close>

type_synonym push_provider = "string \<Rightarrow> string \<Rightarrow> json \<Rightarrow> push_send_result"

definition recover_row :: "date_time \<Rightarrow> push_delivery \<Rightarrow> push_delivery" where
  "recover_row now d =
     (if pd_status d = SendingPush \<and> pd_available_at d < now - 300 then d\<lparr>pd_status := RetryPush, pd_available_at := now\<rparr> else d)"

definition recover_deliveries :: "date_time \<Rightarrow> push_store \<Rightarrow> push_store" where
  "recover_deliveries now st = st\<lparr>pq_deliveries := map (recover_row now) (pq_deliveries st)\<rparr>"

definition device_of :: "push_store \<Rightarrow> push_delivery \<Rightarrow> mobile_device option" where
  "device_of st d = find (\<lambda>m. md_id m = pd_device_id d) (pq_devices st)"

definition is_due :: "date_time \<Rightarrow> push_store \<Rightarrow> push_delivery \<Rightarrow> bool" where
  "is_due now st d \<longleftrightarrow> pd_status d \<in> {PendingPush, RetryPush} \<and> pd_available_at d \<le> now \<and>
     (case device_of st d of Some m \<Rightarrow> md_enabled m | None \<Rightarrow> False)"

definition next_delivery :: "date_time \<Rightarrow> push_store \<Rightarrow> usize option" where
  "next_delivery now st =
     min_by_key (\<lambda>i. (pd_available_at (pq_deliveries st ! i), pd_created_at (pq_deliveries st ! i)))
       (filter (\<lambda>i. is_due now st (pq_deliveries st ! i)) [0..<length (pq_deliveries st)])"

definition update_delivery :: "usize \<Rightarrow> (push_delivery \<Rightarrow> push_delivery) \<Rightarrow> push_store \<Rightarrow> push_store" where
  "update_delivery i f st = st\<lparr>pq_deliveries := (pq_deliveries st)[i := f (pq_deliveries st ! i)]\<rparr>"

text \<open>The first transaction: rows left behind are taken back, and the next row is marked as being sent.\<close>

definition begin_delivery :: "date_time \<Rightarrow> push_store \<Rightarrow> push_store \<times> usize option" where
  "begin_delivery now st =
     (let st = recover_deliveries now st
      in case next_delivery now st of
           None \<Rightarrow> (st, None)
         | Some i \<Rightarrow> (update_delivery i (\<lambda>d. d\<lparr>pd_status := SendingPush, pd_attempts := pd_attempts d + 1, pd_available_at := now\<rparr>) st, Some i))"

definition send_push :: "push_provider \<Rightarrow> push_provider \<Rightarrow> push_store \<Rightarrow> usize \<Rightarrow> push_send_result" where
  "send_push send_fcm send_apns st i =
     (let d = pq_deliveries st ! i
      in case device_of st d of
           None \<Rightarrow> Failed ''unsupported_platform''
         | Some m \<Rightarrow>
             if md_platform m = ''android'' then send_fcm (md_push_token m) (pd_event_type d) (pd_payload d)
             else if md_platform m = ''ios'' then send_apns (md_push_token m) (pd_event_type d) (pd_payload d)
             else Failed ''unsupported_platform'')"

definition not_configured :: "string \<Rightarrow> bool" where
  "not_configured code \<longleftrightarrow> strip_suffix ''_not_configured'' code \<noteq> None"

definition disable_device :: "date_time \<Rightarrow> uuid \<Rightarrow> push_store \<Rightarrow> push_store" where
  "disable_device now device_id st =
     st\<lparr>pq_devices := map (\<lambda>m. if md_id m = device_id then m\<lparr>md_enabled := False, md_push_token := []\<rparr> else m) (pq_devices st),
        pq_subscriptions := map (\<lambda>s. if jb_device_id s = device_id
          then s\<lparr>jb_ended_at := (case jb_ended_at s of Some t \<Rightarrow> Some t | None \<Rightarrow> Some now)\<rparr> else s) (pq_subscriptions st)\<rparr>"

definition end_delivery :: "date_time \<Rightarrow> usize \<Rightarrow> push_send_result \<Rightarrow> push_store \<Rightarrow> push_store" where
  "end_delivery now i result st =
     (let attempts = pd_attempts (pq_deliveries st ! i); device_id = pd_device_id (pq_deliveries st ! i)
      in case result of
           Delivered \<Rightarrow> update_delivery i (\<lambda>d. d\<lparr>pd_status := DeliveredPush, pd_delivered_at := Some now, pd_last_error_code := None\<rparr>) st
         | InvalidToken code \<Rightarrow>
             disable_device now device_id (update_delivery i (\<lambda>d. d\<lparr>pd_status := FailedPush, pd_last_error_code := Some code\<rparr>) st)
         | Retry code \<Rightarrow>
             if not_configured code
             then update_delivery i (\<lambda>d. d\<lparr>pd_status := RetryPush, pd_attempts := max (pd_attempts d - 1) 0, pd_available_at := now + 300,
                    pd_last_error_code := Some code\<rparr>) st
             else if attempts < 8
             then update_delivery i (\<lambda>d. d\<lparr>pd_status := RetryPush, pd_available_at := now + min (2 ^ nat (min attempts 8)) 300,
                    pd_last_error_code := Some code\<rparr>) st
             else update_delivery i (\<lambda>d. d\<lparr>pd_status := FailedPush, pd_last_error_code := Some code\<rparr>) st
         | Failed code \<Rightarrow> update_delivery i (\<lambda>d. d\<lparr>pd_status := FailedPush, pd_last_error_code := Some code\<rparr>) st)"

definition deliver_next_push :: "date_time \<Rightarrow> push_provider \<Rightarrow> push_provider \<Rightarrow> push_store \<Rightarrow> push_store" where
  "deliver_next_push now send_fcm send_apns st =
     (case begin_delivery now st of
        (st, None) \<Rightarrow> st
      | (st, Some i) \<Rightarrow> end_delivery now i (send_push send_fcm send_apns st i) st)"

end
