(* ===== verification/Push_Props.thy ===== *)
theory Push_Props
  imports Push_Queue
begin

text \<open>
  The queue of push notifications as a transition system: the feed loops add events, users change their devices and
  subscriptions at any time, one loop delivers, and it may be cut off between sending and storing the outcome.
\<close>

section \<open>Steps\<close>

type_synonym push_world = "push_store \<times> usize option"

text \<open>The second component is the row that is being sent; \<open>crashes\<close> says whether the loop may be cut off.\<close>

inductive push_step :: "bool \<Rightarrow> push_world \<Rightarrow> push_world \<Rightarrow> bool" for crashes where
  enqueue: "push_step crashes (st, w) (enqueue_push_events now records st, w)"
| users: "push_step crashes (st, w) (st\<lparr>pq_devices := devices, pq_subscriptions := subscriptions\<rparr>, w)"
| start: "push_step crashes (st, None) (begin_delivery now st)"
| finish: "push_step crashes (st, Some i) (end_delivery now i result st, None)"
| crash: "crashes \<Longrightarrow> push_step crashes (st, Some i) (st, None)"

inductive_cases push_stepE: "push_step crashes w w'"

definition delivery_key :: "push_delivery \<Rightarrow> uuid \<times> string" where
  "delivery_key d = (pd_device_id d, pd_event_key d)"

definition finished :: "push_delivery \<Rightarrow> bool" where
  "finished d \<longleftrightarrow> pd_status d \<in> {DeliveredPush, FailedPush}"

text \<open>Every way to change the rows: they are kept, new ones are appended, or one is being worked on.\<close>

lemma insert_push_event_rows:
  "\<exists>new. pq_deliveries (insert_push_event now sid did key type payload st) = pq_deliveries st @ new \<and>
     (\<forall>d \<in> set new. pd_status d = PendingPush \<and> pd_attempts d = 0) \<and>
     (distinct (map delivery_key (pq_deliveries st)) \<longrightarrow>
        distinct (map delivery_key (pq_deliveries (insert_push_event now sid did key type payload st)))) \<and>
     (did, key) \<in> delivery_key ` set (pq_deliveries (insert_push_event now sid did key type payload st))"
  by (auto simp: insert_push_event_def delivery_key_def list_ex_iff image_iff)

definition extends :: "push_store \<Rightarrow> push_store \<Rightarrow> bool" where
  "extends st st' \<longleftrightarrow> (\<exists>new. pq_deliveries st' = pq_deliveries st @ new \<and> (\<forall>d \<in> set new. pd_status d = PendingPush \<and> pd_attempts d = 0)) \<and>
     (distinct (map delivery_key (pq_deliveries st)) \<longrightarrow> distinct (map delivery_key (pq_deliveries st'))) \<and>
     pq_calls st' = pq_calls st \<and> pq_subscriptions st' = pq_subscriptions st \<and> pq_devices st' = pq_devices st"

lemma extends_refl [simp]: "extends st st"
  by (simp add: extends_def)

lemma extends_trans: "extends st st' \<Longrightarrow> extends st' st'' \<Longrightarrow> extends st st''"
  by (auto simp: extends_def)

lemma extends_fold: "(\<And>st x. extends st (f st x)) \<Longrightarrow> extends st (foldl f st xs)"
  by (induction xs arbitrary: st) (auto intro: extends_trans)

lemma extends_insert: "extends st (insert_push_event now sid did key type payload st)"
  using insert_push_event_rows [of now sid did key type payload st]
  by (auto simp: extends_def) (auto simp: insert_push_event_def)

lemma extends_insert_events: "extends st (insert_events now s events st)"
  unfolding insert_events_def by (rule extends_fold) (auto simp: extends_insert)

lemma extends_enqueue: "extends st (enqueue_push_events now records st)"
  unfolding enqueue_push_events_def Let_def by (intro extends_fold extends_insert_events)

lemma extends_keys: "extends st st' \<Longrightarrow> delivery_key ` set (pq_deliveries st) \<subseteq> delivery_key ` set (pq_deliveries st')"
  by (auto simp: extends_def)

text \<open>Recovery and the two halves of a delivery leave the keys alone.\<close>

lemma recover_row_simps [simp]: "delivery_key (recover_row now d) = delivery_key d" "pd_attempts (recover_row now d) = pd_attempts d"
  "pd_device_id (recover_row now d) = pd_device_id d"
  by (simp_all add: recover_row_def delivery_key_def)

lemma recover_finished: "finished d \<Longrightarrow> recover_row now d = d"
  by (auto simp: recover_row_def finished_def)

lemma recover_deliveries_simps [simp]:
  "pq_deliveries (recover_deliveries now st) = map (recover_row now) (pq_deliveries st)"
  "pq_devices (recover_deliveries now st) = pq_devices st" "pq_subscriptions (recover_deliveries now st) = pq_subscriptions st"
  "device_of (recover_deliveries now st) = device_of st"
  by (auto simp: recover_deliveries_def device_of_def fun_eq_iff)

lemma update_delivery_simps [simp]:
  "pq_deliveries (update_delivery i f st) = (pq_deliveries st)[i := f (pq_deliveries st ! i)]"
  "pq_devices (update_delivery i f st) = pq_devices st" "pq_subscriptions (update_delivery i f st) = pq_subscriptions st"
  by (simp_all add: update_delivery_def)

lemma next_delivery_Some:
  "next_delivery now st = Some i \<Longrightarrow> i < length (pq_deliveries st) \<and> is_due now st (pq_deliveries st ! i)"
  using min_by_key_Some(1) by (force simp: next_delivery_def)

lemma next_delivery_None: "next_delivery now st = None \<longleftrightarrow> (\<forall>d \<in> set (pq_deliveries st). \<not> is_due now st d)"
  by (auto simp: next_delivery_def filter_empty_conv all_set_conv_all_nth)

text \<open>What the second half does to the row: \<open>f\<close> keeps its key and ends the sending.\<close>

lemma end_delivery_row:
  "\<exists>f. pq_deliveries (end_delivery now i result st) = (pq_deliveries st)[i := f (pq_deliveries st ! i)] \<and>
     (\<forall>d. delivery_key (f d) = delivery_key d \<and> pd_status (f d) \<noteq> SendingPush \<and>
       (d = pq_deliveries st ! i \<and> 0 < pd_attempts d \<and> pd_attempts d \<le> 8 \<longrightarrow>
          0 \<le> pd_attempts (f d) \<and> pd_attempts (f d) \<le> 8 \<and> (pd_status (f d) = RetryPush \<longrightarrow> pd_attempts (f d) \<le> 7)) \<and>
       pd_status (f d) \<noteq> PendingPush)"
  by (auto simp: end_delivery_def disable_device_def Let_def delivery_key_def split: push_send_result.splits
      intro!: exI [where x = "\<lambda>d. case result of
        Delivered \<Rightarrow> d\<lparr>pd_status := DeliveredPush, pd_delivered_at := Some now, pd_last_error_code := None\<rparr>
      | InvalidToken code \<Rightarrow> d\<lparr>pd_status := FailedPush, pd_last_error_code := Some code\<rparr>
      | Retry code \<Rightarrow> if not_configured code
          then d\<lparr>pd_status := RetryPush, pd_attempts := max (pd_attempts d - 1) 0, pd_available_at := now + 300, pd_last_error_code := Some code\<rparr>
          else if pd_attempts (pq_deliveries st ! i) < 8
          then d\<lparr>pd_status := RetryPush, pd_available_at := now + min (2 ^ nat (min (pd_attempts (pq_deliveries st ! i)) 8)) 300,
             pd_last_error_code := Some code\<rparr>
          else d\<lparr>pd_status := FailedPush, pd_last_error_code := Some code\<rparr>
      | Failed code \<Rightarrow> d\<lparr>pd_status := FailedPush, pd_last_error_code := Some code\<rparr>"])

section \<open>Each event once\<close>

definition push_invariant :: "push_world \<Rightarrow> bool" where
  "push_invariant w \<longleftrightarrow> distinct (map delivery_key (pq_deliveries (fst w))) \<and>
     (\<forall>i. snd w = Some i \<longrightarrow> i < length (pq_deliveries (fst w)) \<and> pd_status (pq_deliveries (fst w) ! i) = SendingPush)"

lemma begin_delivery_cases:
  obtains "begin_delivery now st = (recover_deliveries now st, None)" "next_delivery now (recover_deliveries now st) = None"
  | i where "begin_delivery now st = (update_delivery i (\<lambda>d. d\<lparr>pd_status := SendingPush, pd_attempts := pd_attempts d + 1,
        pd_available_at := now\<rparr>) (recover_deliveries now st), Some i)"
      "next_delivery now (recover_deliveries now st) = Some i"
  by (cases "next_delivery now (recover_deliveries now st)") (auto simp: begin_delivery_def Let_def)

lemma map_key_update: "i < length xs \<Longrightarrow> key y = key (xs ! i) \<Longrightarrow> map key (xs[i := y]) = map key xs"
  by (metis list_update_id map_update nth_map)

lemma finished_push_step:
  assumes "push_step crashes w w'" and "push_invariant w"
  shows "push_invariant w' \<and> length (pq_deliveries (fst w)) \<le> length (pq_deliveries (fst w')) \<and>
    (\<forall>i < length (pq_deliveries (fst w)). finished (pq_deliveries (fst w) ! i) \<longrightarrow>
       pq_deliveries (fst w') ! i = pq_deliveries (fst w) ! i)"
  using assms
proof cases
  case (enqueue st v now records)
  from extends_enqueue [of st now records] obtain new where
    "pq_deliveries (enqueue_push_events now records st) = pq_deliveries st @ new" by (auto simp: extends_def)
  with extends_enqueue [of st now records] enqueue assms(2) show ?thesis
    by (auto simp: push_invariant_def extends_def nth_append)
next
  case (users st v devices subscriptions)
  with assms(2) show ?thesis by (simp add: push_invariant_def)
next
  case (start st now)
  have keys: "distinct (map delivery_key (map (recover_row now) (pq_deliveries st)))"
    using assms(2) start by (simp add: push_invariant_def comp_def)
  show ?thesis
  proof (cases rule: begin_delivery_cases [of now st])
    case 1
    with start keys show ?thesis by (auto simp: push_invariant_def recover_finished)
  next
    case (2 i)
    from next_delivery_Some [OF 2(2)] have i: "i < length (pq_deliveries st)"
        "\<not> finished (recover_row now (pq_deliveries st ! i))"
      by (auto simp: is_due_def finished_def)
    then have "\<not> finished (pq_deliveries st ! i)" using recover_finished by force
    with start 2 keys i show ?thesis
      by (auto simp: push_invariant_def recover_finished nth_list_update map_key_update delivery_key_def simp del: map_map)
  qed
next
  case (finish st i now result)
  from end_delivery_row [of now i result st] obtain f where
    f: "pq_deliveries (end_delivery now i result st) = (pq_deliveries st)[i := f (pq_deliveries st ! i)]"
      "\<And>d. delivery_key (f d) = delivery_key d" by auto
  from assms(2) finish have i: "i < length (pq_deliveries st)" "\<not> finished (pq_deliveries st ! i)"
    by (auto simp: push_invariant_def finished_def)
  with f finish assms(2) show ?thesis
    by (auto simp: push_invariant_def map_key_update nth_list_update)
next
  case (crash st i)
  with assms(2) show ?thesis by (simp add: push_invariant_def)
qed

lemma finished_push_steps:
  "(push_step crashes)\<^sup>*\<^sup>* w w' \<Longrightarrow> push_invariant w \<Longrightarrow>
    push_invariant w' \<and> length (pq_deliveries (fst w)) \<le> length (pq_deliveries (fst w')) \<and>
    (\<forall>i < length (pq_deliveries (fst w)). finished (pq_deliveries (fst w) ! i) \<longrightarrow>
       pq_deliveries (fst w') ! i = pq_deliveries (fst w) ! i)"
proof (induction rule: rtranclp_induct)
  case (step w' w'')
  from step.IH [OF step.prems] finished_push_step [OF step.hyps(2)] show ?case by (auto intro: order_trans)
qed simp

definition no_deliveries :: "push_store \<Rightarrow> bool" where
  "no_deliveries st \<longleftrightarrow> pq_deliveries st = []"

text \<open>C33: However the feed loops, the users and the delivery loop interleave, and even if the loop is cut off: an event is
  queued once per device, and a notification that was delivered or given up is never touched again, so it is
  not sent a second time.
\<close>

theorem delivered_once:
  assumes "no_deliveries st" and "(push_step crashes)\<^sup>*\<^sup>* (st, None) w" and "(push_step crashes)\<^sup>*\<^sup>* w w'"
  shows "distinct (map delivery_key (pq_deliveries (fst w'))) \<and>
    (\<forall>i < length (pq_deliveries (fst w)). finished (pq_deliveries (fst w) ! i) \<longrightarrow>
       pq_deliveries (fst w') ! i = pq_deliveries (fst w) ! i)"
proof -
  have "push_invariant (st, None)" using assms(1) by (simp add: push_invariant_def no_deliveries_def)
  from finished_push_steps [OF assms(2) this] have "push_invariant w" by simp
  from finished_push_steps [OF assms(3) this] show ?thesis by (simp add: push_invariant_def)
qed

section \<open>How often\<close>

definition attempts_ok :: "push_world \<Rightarrow> bool" where
  "attempts_ok w \<longleftrightarrow> push_invariant w \<and> (\<forall>i < length (pq_deliveries (fst w)).
     let d = pq_deliveries (fst w) ! i in 0 \<le> pd_attempts d \<and> pd_attempts d \<le> 8 \<and>
       (pd_status d \<in> {PendingPush, RetryPush} \<longrightarrow> pd_attempts d \<le> 7) \<and>
       (pd_status d = SendingPush \<longrightarrow> snd w = Some i \<and> 0 < pd_attempts d))"

lemma attempts_okD:
  assumes "attempts_ok w" and "i < length (pq_deliveries (fst w))" and "d = pq_deliveries (fst w) ! i"
  shows "0 \<le> pd_attempts d \<and> pd_attempts d \<le> 8 \<and> (pd_status d \<in> {PendingPush, RetryPush} \<longrightarrow> pd_attempts d \<le> 7) \<and>
    (pd_status d = SendingPush \<longrightarrow> snd w = Some i \<and> 0 < pd_attempts d)"
  using assms unfolding attempts_ok_def Let_def by blast

lemma attempts_push_step:
  assumes "push_step False w w'" and "attempts_ok w"
  shows "attempts_ok w'"
proof -
  have inv: "push_invariant w'" using finished_push_step [OF assms(1)] assms(2) by (simp add: attempts_ok_def)
  from assms show ?thesis
  proof cases
    case (enqueue st v now records)
    from extends_enqueue [of st now records] obtain new where
      new: "pq_deliveries (enqueue_push_events now records st) = pq_deliveries st @ new"
        "\<forall>d \<in> set new. pd_status d = PendingPush \<and> pd_attempts d = 0" by (auto simp: extends_def)
    have "\<And>j. j < length new \<Longrightarrow> pd_status (new ! j) = PendingPush \<and> pd_attempts (new ! j) = 0" using new(2) by simp
    with new(1) enqueue assms(2) inv show ?thesis
      by (auto simp: attempts_ok_def nth_append Let_def)
  next
    case (users st v devices subscriptions)
    with assms(2) inv show ?thesis by (simp add: attempts_ok_def)
  next
    case (start st now)
    have none: "recover_row now d = d" if "d \<in> set (pq_deliveries st)" for d
      using assms(2) start that by (auto simp: attempts_ok_def recover_row_def Let_def in_set_conv_nth)
    then have rows: "map (recover_row now) (pq_deliveries st) = pq_deliveries st" by (simp add: map_idI)
    show ?thesis
    proof (cases rule: begin_delivery_cases [of now st])
      case 1
      with start rows assms(2) inv show ?thesis by (simp add: attempts_ok_def)
    next
      case (2 i)
      from next_delivery_Some [OF 2(2)] rows have i: "i < length (pq_deliveries st)"
          "pd_status (pq_deliveries st ! i) \<in> {PendingPush, RetryPush}" by (auto simp: is_due_def)
      with start 2 rows assms(2) inv show ?thesis
        by (auto simp: attempts_ok_def nth_list_update Let_def)
    qed
  next
    case (finish st i now result)
    from end_delivery_row [of now i result st] obtain f where
      f: "pq_deliveries (end_delivery now i result st) = (pq_deliveries st)[i := f (pq_deliveries st ! i)]"
        "\<And>d. pd_status (f d) \<noteq> SendingPush" "\<And>d. pd_status (f d) \<noteq> PendingPush"
        "0 < pd_attempts (pq_deliveries st ! i) \<and> pd_attempts (pq_deliveries st ! i) \<le> 8 \<Longrightarrow>
          0 \<le> pd_attempts (f (pq_deliveries st ! i)) \<and> pd_attempts (f (pq_deliveries st ! i)) \<le> 8 \<and>
          (pd_status (f (pq_deliveries st ! i)) = RetryPush \<longrightarrow> pd_attempts (f (pq_deliveries st ! i)) \<le> 7)" by blast
    from assms(2) finish have i: "i < length (pq_deliveries st)" "pd_status (pq_deliveries st ! i) = SendingPush"
      by (auto simp: attempts_ok_def push_invariant_def)
    then have "0 < pd_attempts (pq_deliveries st ! i) \<and> pd_attempts (pq_deliveries st ! i) \<le> 8"
      using attempts_okD [OF assms(2), of i "pq_deliveries st ! i"] by (simp add: finish)
    note row = f(4) [OF this]
    have rest: "0 \<le> pd_attempts d \<and> pd_attempts d \<le> 8 \<and> (pd_status d \<in> {PendingPush, RetryPush} \<longrightarrow> pd_attempts d \<le> 7) \<and>
        pd_status d \<noteq> SendingPush" if "j < length (pq_deliveries st)" "j \<noteq> i" "d = pq_deliveries st ! j" for j d
      using attempts_okD [OF assms(2), of j d] that by (auto simp: finish)
    show ?thesis unfolding attempts_ok_def Let_def
    proof (intro conjI [OF inv] allI impI)
      fix j assume "j < length (pq_deliveries (fst w'))"
      then have j: "j < length (pq_deliveries st)" by (simp add: finish f(1))
      show "0 \<le> pd_attempts (pq_deliveries (fst w') ! j) \<and> pd_attempts (pq_deliveries (fst w') ! j) \<le> 8 \<and>
          (pd_status (pq_deliveries (fst w') ! j) \<in> {PendingPush, RetryPush} \<longrightarrow> pd_attempts (pq_deliveries (fst w') ! j) \<le> 7) \<and>
          (pd_status (pq_deliveries (fst w') ! j) = SendingPush \<longrightarrow> snd w' = Some j \<and> 0 < pd_attempts (pq_deliveries (fst w') ! j))"
      proof (cases "j = i")
        case True
        with row f(2,3) i(1) show ?thesis by (simp add: finish f(1))
      next
        case False
        with rest [OF j False refl] show ?thesis by (simp add: finish f(1))
      qed
    qed
  qed simp
qed

text \<open>As long as the loop is not cut off, no notification is handed to the provider more than eight times, not counting
  attempts that found no provider configured, and one that waits for another attempt has had at most seven.
\<close>

theorem attempts_bounded:
  assumes "no_deliveries st" and "(push_step False)\<^sup>*\<^sup>* (st, None) w" and "d \<in> set (pq_deliveries (fst w))"
  shows "0 \<le> pd_attempts d \<and> pd_attempts d \<le> 8 \<and> (pd_status d \<in> {PendingPush, RetryPush} \<longrightarrow> pd_attempts d \<le> 7)"
proof -
  have "attempts_ok (st, None)" using assms(1) by (simp add: attempts_ok_def push_invariant_def no_deliveries_def)
  with assms(2) have "attempts_ok w" by (induction rule: rtranclp_induct) (auto intro: attempts_push_step)
  with assms(3) show ?thesis by (auto simp: attempts_ok_def Let_def in_set_conv_nth)
qed

section \<open>The queue drains\<close>

abbreviation always_delivered :: push_provider where
  "always_delivered \<equiv> \<lambda>token type payload. Delivered"

definition waits :: "date_time \<Rightarrow> push_store \<Rightarrow> push_delivery \<Rightarrow> bool" where
  "waits now st d \<longleftrightarrow> is_due now st (recover_row now d)"

definition known_platforms :: "push_store \<Rightarrow> bool" where
  "known_platforms st \<longleftrightarrow> (\<forall>m \<in> set (pq_devices st). md_platform m = ''android'' \<or> md_platform m = ''ios'')"

lemma recover_idem [simp]: "recover_row now (recover_row now d) = recover_row now d"
  by (simp add: recover_row_def)

lemma is_due_recover [simp]: "is_due now (recover_deliveries now st) = is_due now st"
  by (simp add: is_due_def fun_eq_iff)

lemma waits_devices: "pq_devices st' = pq_devices st \<Longrightarrow> waits now st' = waits now st"
  by (simp add: waits_def is_due_def device_of_def fun_eq_iff)

lemma length_filter_update:
  "i < length xs \<Longrightarrow> P (xs ! i) \<Longrightarrow> \<not> P y \<Longrightarrow> Suc (length (filter P (xs[i := y]))) = length (filter P xs)"
proof -
  assume i: "i < length xs" and P: "P (xs ! i)" "\<not> P y"
  have "length (filter P (take i xs @ xs ! i # drop (Suc i) xs)) = Suc (length (filter P (take i xs @ y # drop (Suc i) xs)))"
    using P by simp
  then show ?thesis using i by (simp add: id_take_nth_drop [symmetric] upd_conv_take_nth_drop)
qed

lemma send_always_delivered:
  assumes "known_platforms st" and "device_of st (pq_deliveries st ! i) = Some m"
  shows "send_push always_delivered always_delivered st i = Delivered"
proof -
  have "m \<in> set (pq_devices st)" using assms(2) by (auto simp: device_of_def find_Some_iff)
  with assms show ?thesis by (auto simp: send_push_def known_platforms_def)
qed

text \<open>One run delivers one waiting row, if there is one, and disturbs no other.\<close>

lemma drain_step:
  fixes now st
  defines "st' \<equiv> deliver_next_push now always_delivered always_delivered st"
  assumes "known_platforms st"
  shows "pq_devices st' = pq_devices st" and "length (pq_deliveries st') = length (pq_deliveries st)"
    and "length (filter (waits now st) (pq_deliveries st')) \<le> length (filter (waits now st) (pq_deliveries st)) - 1"
    and "j < length (pq_deliveries st) \<Longrightarrow> waits now st (pq_deliveries st ! j) \<or> pd_status (pq_deliveries st ! j) = DeliveredPush \<Longrightarrow>
      waits now st (pq_deliveries st' ! j) \<or> pd_status (pq_deliveries st' ! j) = DeliveredPush"
proof -
  let ?rows = "map (recover_row now) (pq_deliveries st)"
  have delivered: "pd_status d = DeliveredPush \<Longrightarrow> recover_row now d = d" for d by (simp add: recover_row_def)
  have keep: "length (filter (waits now st) ?rows) = length (filter (waits now st) (pq_deliveries st))"
    by (simp add: filter_map comp_def waits_def [abs_def])
  have "pq_devices st' = pq_devices st \<and> length (pq_deliveries st') = length (pq_deliveries st) \<and>
      length (filter (waits now st) (pq_deliveries st')) \<le> length (filter (waits now st) (pq_deliveries st)) - 1 \<and>
      (\<forall>j < length (pq_deliveries st). waits now st (pq_deliveries st ! j) \<or> pd_status (pq_deliveries st ! j) = DeliveredPush \<longrightarrow>
        waits now st (pq_deliveries st' ! j) \<or> pd_status (pq_deliveries st' ! j) = DeliveredPush)"
  proof (cases rule: begin_delivery_cases [of now st])
    case 1
    from 1(2) have none: "\<forall>d \<in> set (pq_deliveries st). \<not> waits now st d"
      by (simp add: next_delivery_None waits_def)
    then have "filter (waits now st) (pq_deliveries st) = []" by (simp add: filter_empty_conv)
    with 1(1) keep none show ?thesis
      by (auto simp: st'_def deliver_next_push_def delivered)
  next
    case (2 i)
    let ?sending = "update_delivery i (\<lambda>d. d\<lparr>pd_status := SendingPush, pd_attempts := pd_attempts d + 1, pd_available_at := now\<rparr>)
        (recover_deliveries now st)"
    from next_delivery_Some [OF 2(2)] have i: "i < length (pq_deliveries st)" "is_due now st (recover_row now (pq_deliveries st ! i))"
      by auto
    obtain m where m: "device_of st (recover_row now (pq_deliveries st ! i)) = Some m"
      using i(2) by (auto simp: is_due_def split: option.splits)
    have "device_of ?sending (pq_deliveries ?sending ! i) = Some m" using m i(1) by (simp add: device_of_def)
    moreover have "known_platforms ?sending" using assms(2) by (simp add: known_platforms_def)
    ultimately have sent: "send_push always_delivered always_delivered ?sending i = Delivered" by (intro send_always_delivered)
    obtain row where row: "pq_deliveries st' = ?rows[i := row]" "pd_status row = DeliveredPush" "pq_devices st' = pq_devices st"
      using sent i(1) by (simp add: st'_def deliver_next_push_def 2(1) end_delivery_def Let_def)
    have "\<not> waits now st row" using row(2) by (simp add: waits_def is_due_def delivered)
    moreover have "waits now st (?rows ! i)" using i by (simp add: waits_def)
    ultimately have "Suc (length (filter (waits now st) (?rows[i := row]))) = length (filter (waits now st) ?rows)"
      using i(1) by (intro length_filter_update) simp_all
    moreover have "waits now st (?rows[i := row] ! j) \<or> pd_status (?rows[i := row] ! j) = DeliveredPush"
      if "j < length (pq_deliveries st)" "waits now st (pq_deliveries st ! j) \<or> pd_status (pq_deliveries st ! j) = DeliveredPush" for j
    proof (cases "j = i")
      case False
      with that show ?thesis by (auto simp: waits_def delivered)
    qed (use row(2) i(1) in simp)
    ultimately show ?thesis using row(3) keep unfolding row(1) by simp
  qed
  then show "pq_devices st' = pq_devices st" and "length (pq_deliveries st') = length (pq_deliveries st)"
    and "length (filter (waits now st) (pq_deliveries st')) \<le> length (filter (waits now st) (pq_deliveries st)) - 1"
    and "j < length (pq_deliveries st) \<Longrightarrow> waits now st (pq_deliveries st ! j) \<or> pd_status (pq_deliveries st ! j) = DeliveredPush \<Longrightarrow>
      waits now st (pq_deliveries st' ! j) \<or> pd_status (pq_deliveries st' ! j) = DeliveredPush"
    by blast+
qed

lemma drains:
  "known_platforms st \<Longrightarrow> length (filter (waits now st) (pq_deliveries st)) \<le> n \<Longrightarrow> j < length (pq_deliveries st) \<Longrightarrow>
    waits now st (pq_deliveries st ! j) \<or> pd_status (pq_deliveries st ! j) = DeliveredPush \<Longrightarrow>
    pd_status (pq_deliveries ((deliver_next_push now always_delivered always_delivered ^^ n) st) ! j) = DeliveredPush"
proof (induction n arbitrary: st)
  case 0
  then show ?case by (auto simp: filter_empty_conv)
next
  case (Suc n)
  let ?st = "deliver_next_push now always_delivered always_delivered st"
  note step = drain_step [where now = now, OF Suc.prems(1)]
  have same: "waits now ?st = waits now st" by (rule waits_devices) (rule step(1))
  have "known_platforms ?st" using Suc.prems(1) by (simp add: known_platforms_def step(1))
  moreover have "length (filter (waits now ?st) (pq_deliveries ?st)) \<le> n" using step(3) Suc.prems(2) by (simp add: same)
  moreover have "j < length (pq_deliveries ?st)" using Suc.prems(3) by (simp add: step(2))
  moreover have "waits now ?st (pq_deliveries ?st ! j) \<or> pd_status (pq_deliveries ?st ! j) = DeliveredPush"
    using step(4) [OF Suc.prems(3,4)] by (simp add: same)
  ultimately show ?case unfolding funpow_Suc_right comp_def by (rule Suc.IH)
qed

text \<open>C34: While the provider accepts everything, the queue drains: as many runs as there are notifications due deliver all of
  them, those that an earlier run left behind included.
\<close>

theorem queue_drains:
  assumes "known_platforms st" and "length (filter (waits now st) (pq_deliveries st)) \<le> n"
    and "i < length (pq_deliveries st)" and "waits now st (pq_deliveries st ! i)"
  shows "pd_status (pq_deliveries ((deliver_next_push now always_delivered always_delivered ^^ n) st) ! i) = DeliveredPush"
  using assms by (intro drains) simp_all

section \<open>Every event is queued\<close>

lemma push_events_calls: "pq_calls st' = pq_calls st \<Longrightarrow> push_events st' s r = push_events st s r"
proof -
  assume "pq_calls st' = pq_calls st"
  then have "connection_is_at_risk st' s r q = connection_is_at_risk st s r q" for q
    by (simp only: connection_is_at_risk_def)
  then show ?thesis by (simp only: push_events_def)
qed

lemma insert_events_keys:
  "(key, type, payload) \<in> set events \<Longrightarrow> (jb_device_id s, key) \<in> delivery_key ` set (pq_deliveries (insert_events now s events st))"
proof (induction events arbitrary: st)
  case (Cons e events)
  let ?insert = "\<lambda>st (key, type, payload). insert_push_event now (jb_id s) (jb_device_id s) key type payload st"
  have fold: "insert_events now s (e # events) st = insert_events now s events (?insert st e)" by (simp add: insert_events_def)
  show ?case
  proof (cases "e = (key, type, payload)")
    case True
    then have "(jb_device_id s, key) \<in> delivery_key ` set (pq_deliveries (?insert st e))"
      using insert_push_event_rows [of now "jb_id s" "jb_device_id s" key type payload st] by simp blast
    with extends_keys [OF extends_insert_events] show ?thesis unfolding fold by blast
  next
    case False
    with Cons show ?thesis unfolding fold by simp
  qed
qed simp

lemma foldl_reaches:
  assumes "\<And>st x. extends st (f st x)" and "x \<in> set xs"
  obtains st' where "extends st st'" "extends (f st' x) (foldl f st xs)"
proof -
  obtain ys zs where "xs = ys @ x # zs" using assms(2) by (auto dest: split_list)
  moreover have "extends st (foldl f st ys)" "extends (f (foldl f st ys) x) (foldl f (f (foldl f st ys) x) zs)"
    using assms(1) by (intro extends_fold; simp)+
  ultimately show ?thesis using that [of "foldl f st ys"] by simp
qed

lemma queued_event:
  assumes "s \<in> set (active_subscriptions now (List.map_filter wr_trip_id records) st)" and "r \<in> set records"
    and "wr_trip_id r = Some (jb_trip_id s)" and "wr_service_date r = Some (jb_service_date s)"
    and "(key, type, payload) \<in> set (push_events st s r)"
  shows "(jb_device_id s, key) \<in> delivery_key ` set (pq_deliveries (enqueue_push_events now records st))"
proof -
  let ?records = "\<lambda>s. filter (\<lambda>r. wr_trip_id r = Some (jb_trip_id s) \<and> wr_service_date r = Some (jb_service_date s)) records"
  let ?one = "\<lambda>s st r. insert_events now s (push_events st s r) st"
  have one: "extends st (foldl (?one s) st (?records s))" for s st by (intro extends_fold extends_insert_events)
  obtain st1 where st1: "extends st st1" "extends (foldl (?one s) st1 (?records s)) (enqueue_push_events now records st)"
    unfolding enqueue_push_events_def Let_def by (rule foldl_reaches [where f = "\<lambda>st s. foldl (?one s) st (?records s)", OF one assms(1)])
  have "r \<in> set (?records s)" using assms(2-4) by simp
  with extends_insert_events obtain st2 where st2: "extends st1 st2" "extends (?one s st2 r) (foldl (?one s) st1 (?records s))"
    by (rule foldl_reaches [where f = "?one s"])
  have "pq_calls st2 = pq_calls st" using st1(1) st2(1) by (simp add: extends_def)
  note calls = push_events_calls [OF this]
  have "(key, type, payload) \<in> set (push_events st2 s r)" using assms(5) unfolding calls .
  from insert_events_keys [OF this] extends_keys [OF st2(2)] extends_keys [OF st1(2)] show ?thesis by blast
qed

text \<open>
  Each cancellation, significant delay, change of platform and endangered connection that a batch of records reports
  for an active subscription is in the queue of its device afterwards.
\<close>

theorem events_are_queued:
  assumes "s \<in> set (active_subscriptions now (List.map_filter wr_trip_id records) st)" and "r \<in> set records"
    and "wr_trip_id r = Some (jb_trip_id s)" and "wr_service_date r = Some (jb_service_date s)"
    and "(key, type, payload) \<in> set (push_events st s r)"
  shows "(jb_device_id s, key) \<in> delivery_key ` set (pq_deliveries (enqueue_push_events now records st))"
  using assms by (rule queued_event)

section \<open>A cancelled trip\<close>

definition sample_subscription :: subscription_row where
  "sample_subscription = \<lparr>jb_id = ''s'', jb_device_id = 1, jb_run_id = ''run'', jb_service_date = 5, jb_trip_id = ''t'',
     jb_boarding_call_id = ''c'', jb_boarding_stop_id = ''a'', jb_boarding_stop_sequence = 1, jb_alighting_stop_sequence = None,
     jb_connection_service_date = None, jb_connection_trip_id = None, jb_minimum_transfer_seconds = None,
     jb_significant_delay_seconds = 300, jb_expires_at = 1000, jb_ended_at = None\<rparr>"

definition sample_push_store :: push_store where
  "sample_push_store = \<lparr>pq_deliveries = [], pq_devices = [\<lparr>md_id = 1, md_platform = ''android'', md_push_token = ''x'', md_enabled = True\<rparr>],
     pq_subscriptions = [sample_subscription], pq_calls = []\<rparr>"

definition sample_cancellation :: worker_record where
  "sample_cancellation = \<lparr>wr_source = [], wr_source_feed_id = [], wr_source_entity_id = ''e'', wr_trip_id = Some ''t'', wr_route_id = None,
     wr_stop_id = None, wr_delay_seconds = None, wr_estimated_arrival = None, wr_estimated_departure = None,
     wr_cancellation_status = Some ''cancelled'', wr_vehicle_id = None, wr_lat = None, wr_lon = None, wr_bearing = None,
     wr_details = no_details, wr_fetched_at = 90, wr_valid_until = 180, wr_service_date = Some 5, wr_raw_payload = JNull\<rparr>"

definition sample_queued :: push_store where
  "sample_queued = enqueue_push_events 100 [sample_cancellation] sample_push_store"

definition sample_sent :: push_store where
  "sample_sent = end_delivery 101 0 Delivered (fst (begin_delivery 101 sample_queued))"

lemma sample_run: "(push_step False)\<^sup>*\<^sup>* (sample_push_store, None) (sample_sent, None)"
proof -
  have "push_step False (sample_push_store, None) (sample_queued, None)"
    unfolding sample_queued_def by (rule push_step.enqueue)
  moreover have "begin_delivery 101 sample_queued = (fst (begin_delivery 101 sample_queued), Some 0)" by code_simp
  then have "push_step False (sample_queued, None) (fst (begin_delivery 101 sample_queued), Some 0)"
    using push_step.start [of False sample_queued 101] by simp
  moreover have "push_step False (fst (begin_delivery 101 sample_queued), Some 0) (sample_sent, None)"
    unfolding sample_sent_def by (rule push_step.finish)
  ultimately show ?thesis by (meson converse_rtranclp_into_rtranclp rtranclp.rtrancl_refl)
qed

lemma sample_sent_finished: "length (pq_deliveries sample_sent) = 1" "finished (pq_deliveries sample_sent ! 0)"
  by code_simp+

lemma delivered_once_witness:
  "pq_deliveries (enqueue_push_events 200 [sample_cancellation] sample_sent) ! 0 = pq_deliveries sample_sent ! 0"
proof -
  have "(push_step False)\<^sup>*\<^sup>* (sample_sent, None) (enqueue_push_events 200 [sample_cancellation] sample_sent, None)"
    by (intro r_into_rtranclp push_step.enqueue)
  from delivered_once [OF _ sample_run this] sample_sent_finished show ?thesis
    by (simp add: no_deliveries_def sample_push_store_def)
qed

lemma attempts_bounded_witness: "pd_attempts (pq_deliveries sample_sent ! 0) \<le> 8"
proof -
  have "pq_deliveries sample_sent ! 0 \<in> set (pq_deliveries sample_sent)" using sample_sent_finished(1) by simp
  with attempts_bounded [OF _ sample_run, of "pq_deliveries sample_sent ! 0"] show ?thesis
    by (simp add: no_deliveries_def sample_push_store_def)
qed

lemma queue_drains_witness:
  "pd_status (pq_deliveries ((deliver_next_push 150 always_delivered always_delivered ^^ 1) sample_queued) ! 0) = DeliveredPush"
proof (rule queue_drains)
  show "known_platforms sample_queued" by code_simp
  show "length (filter (waits 150 sample_queued) (pq_deliveries sample_queued)) \<le> 1" by code_simp
  show "0 < length (pq_deliveries sample_queued)" by code_simp
  show "waits 150 sample_queued (pq_deliveries sample_queued ! 0)" by code_simp
qed

lemma events_are_queued_witness: "(1, ''s:trip_cancelled'') \<in> delivery_key ` set (pq_deliveries sample_queued)"
proof -
  have "sample_subscription \<in> set (active_subscriptions 100 (List.map_filter wr_trip_id [sample_cancellation]) sample_push_store)"
    by code_simp
  from events_are_queued [OF this, of sample_cancellation "''s:trip_cancelled''" "''trip_cancelled''"
      "merge_json (base_payload sample_subscription sample_cancellation) (JObject [(''cancellation_status'', JString ''cancelled'')])"]
  show ?thesis
    by (simp add: sample_queued_def sample_cancellation_def sample_subscription_def push_events_def json_string_def Let_def)
qed

end
