(* ===== verification/Sync_Status.thy ===== *)
theory Sync_Status
  imports Push_Props
begin

text \<open>
  How a failing data source becomes an alert: the rows of \<open>data_source_syncs\<close> that \<^verbatim>\<open>services/realtime-worker/src/main.rs\<close>
  and \<^verbatim>\<open>services/data-pipeline/src/main.rs\<close> write, and \<^verbatim>\<open>services/api/src/operations.rs\<close>, which reads them once a minute.
  The RFC 3339 form of a time is written by \<open>show_time\<close> and read by \<open>parse_time\<close>.
\<close>

section \<open>The table of sources\<close>

record sync_row =
  sy_source_id :: string
  sy_source_url :: string
  sy_data_kind :: string
  sy_status :: string
  sy_last_attempt_at :: date_time
  sy_last_success_at :: "date_time option"
  sy_source_timestamp :: "date_time option"
  sy_records_received :: i32
  sy_records_written :: i32
  sy_error_message :: "string option"
  sy_metadata :: json

type_synonym sync_table = "string \<rightharpoonup> sync_row"

definition mark_sync_started ::
  "date_time \<Rightarrow> string \<Rightarrow> string \<Rightarrow> string \<Rightarrow> date_time option \<Rightarrow> usize \<Rightarrow> json \<Rightarrow> sync_table \<Rightarrow> sync_table" where
  "mark_sync_started now source_id source_url data_kind source_timestamp records_received metadata rows =
     rows(source_id \<mapsto> \<lparr>sy_source_id = source_id, sy_source_url = source_url, sy_data_kind = data_kind, sy_status = ''syncing'',
       sy_last_attempt_at = now, sy_last_success_at = Option.bind (rows source_id) sy_last_success_at,
       sy_source_timestamp = source_timestamp, sy_records_received = wrap_i32 (int records_received), sy_records_written = 0,
       sy_error_message = None, sy_metadata = metadata\<rparr>)"

text \<open>\<open>COALESCE\<close>; the \<open>INSERT ... ON CONFLICT DO UPDATE\<close> that both services share.\<close>

definition coalesce :: "'a option \<Rightarrow> 'a option \<Rightarrow> 'a option" where
  "coalesce x y = (if x = None then y else x)"

definition upsert_sync :: "sync_row \<Rightarrow> sync_table \<Rightarrow> sync_table" where
  "upsert_sync row rows =
     rows(sy_source_id row \<mapsto> row
       \<lparr>sy_last_success_at := coalesce (sy_last_success_at row) (Option.bind (rows (sy_source_id row)) sy_last_success_at),
        sy_source_timestamp := coalesce (sy_source_timestamp row) (Option.bind (rows (sy_source_id row)) sy_source_timestamp)\<rparr>)"

text \<open>The result of a synchronisation: received, written, the time of the source and metadata, or an error.\<close>

definition finish_sync ::
  "string \<Rightarrow> string \<Rightarrow> string \<Rightarrow> date_time \<Rightarrow> string + (usize \<times> usize \<times> date_time option \<times> json) \<Rightarrow> sync_table \<Rightarrow> sync_table" where
  "finish_sync source_id source_url data_kind attempted_at result =
     (let (status, received, written, source_timestamp, error_message, metadata) =
        (case result of
           Inr (received, written, source_timestamp, metadata) \<Rightarrow> (''success'', received, written, source_timestamp, None, metadata)
         | Inl e \<Rightarrow> (''error'', 0, 0, None, Some e, JObject []))
      in upsert_sync \<lparr>sy_source_id = source_id, sy_source_url = source_url, sy_data_kind = data_kind, sy_status = status,
           sy_last_attempt_at = attempted_at, sy_last_success_at = (if status = ''success'' then Some attempted_at else None),
           sy_source_timestamp = source_timestamp, sy_records_received = wrap_i32 (int received),
           sy_records_written = wrap_i32 (int written), sy_error_message = error_message, sy_metadata = metadata\<rparr>)"

text \<open>The same of the data pipeline.\<close>

definition record_data_sync ::
  "string \<Rightarrow> string \<Rightarrow> string \<Rightarrow> date_time \<Rightarrow> date_time option \<Rightarrow> usize \<Rightarrow> usize \<Rightarrow> string option \<Rightarrow> json \<Rightarrow> sync_table \<Rightarrow> sync_table" where
  "record_data_sync source_id source_url data_kind attempted_at succeeded_at received written error_message metadata =
     upsert_sync \<lparr>sy_source_id = source_id, sy_source_url = source_url, sy_data_kind = data_kind,
       sy_status = (if succeeded_at \<noteq> None then ''success'' else ''error''), sy_last_attempt_at = attempted_at,
       sy_last_success_at = succeeded_at, sy_source_timestamp = succeeded_at, sy_records_received = wrap_i32 (int received),
       sy_records_written = wrap_i32 (int written), sy_error_message = error_message, sy_metadata = metadata\<rparr>"

section \<open>Alerts\<close>

text \<open>Indexing a value gives null where there is nothing.\<close>

definition json_at :: "string list \<Rightarrow> json \<Rightarrow> json" where
  "json_at keys v = (case json_pointer keys v of Some x \<Rightarrow> x | None \<Rightarrow> JNull)"

fun u64_or_zero :: "json \<Rightarrow> int" where
  "u64_or_zero (JInt n) = (if 0 \<le> n then n else 0)"
| "u64_or_zero v = 0"

definition health_alerts :: "json \<Rightarrow> string list" where
  "health_alerts health =
     (if json_at [''database'', ''status''] health = JString ''down'' then [''database_unavailable''] else []) @
     (if json_at [''status''] health = JString ''degraded'' then [''routing_not_ready''] else []) @
     (if json_at [''operations'', ''status''] health \<in> {JString ''timeout'', JString ''unavailable''} then [''operational_probe_unavailable''] else []) @
     (if 0 < u64_or_zero (json_at [''operations'', ''import_failures_24h''] health) then [''import_failures_24h''] else []) @
     (if 0 < u64_or_zero (json_at [''operations'', ''push_queue'', ''failed''] health) then [''push_delivery_failures''] else []) @
     (if 20 \<le> u64_or_zero (json_at [''journey_search_latency'', ''sample_count''] health) \<and>
         2000 < u64_or_zero (json_at [''journey_search_latency'', ''p95_ms''] health) then [''journey_latency_high''] else [])"

definition source_max_age :: "json \<Rightarrow> int" where
  "source_max_age source = (if json_at [''data_kind''] source = JString ''schedule'' then 7 * 3600 else 180)"

definition source_alerts :: "(string \<Rightarrow> date_time option) \<Rightarrow> date_time \<Rightarrow> json \<Rightarrow> string list" where
  "source_alerts parse_time now source =
     (case as_str (json_at [''source_id''] source) of
        None \<Rightarrow> []
      | Some i \<Rightarrow>
          (if json_at [''status''] source = JString ''failed'' then [''source_failed:'' @ i] else []) @
          (if (case Option.bind (as_str (json_at [''last_success_at''] source)) parse_time of
                 None \<Rightarrow> True | Some t \<Rightarrow> source_max_age source < now - t)
           then [''source_stale:'' @ i] else []))"

definition alerts :: "(string \<Rightarrow> date_time option) \<Rightarrow> json \<Rightarrow> json list \<Rightarrow> date_time \<Rightarrow> string list" where
  "alerts parse_time health sources now =
     remdups_adj (sort (health_alerts health @ concat (map (source_alerts parse_time now) sources)))"

text \<open>The row as the monitor reads it.\<close>

definition source_json :: "(date_time \<Rightarrow> string) \<Rightarrow> sync_row \<Rightarrow> json" where
  "source_json show_time row = JObject [(''source_id'', JString (sy_source_id row)), (''data_kind'', JString (sy_data_kind row)),
     (''status'', JString (sy_status row)), (''last_success_at'', json_string (map_option show_time (sy_last_success_at row)))]"

text \<open>The rows the monitor asks for, whatever order the database returns them in.\<close>

definition monitored_kind :: "string \<Rightarrow> bool" where
  "monitored_kind kind \<longleftrightarrow> kind = ''schedule'' \<or> str_contains kind ''realtime'' \<or> kind = ''vehicle_positions''"

definition monitor_sources :: "(date_time \<Rightarrow> string) \<Rightarrow> sync_row list \<Rightarrow> json list" where
  "monitor_sources show_time rows = map (source_json show_time) (filter (\<lambda>row. monitored_kind (sy_data_kind row)) rows)"

text \<open>
  When a report is sent: the alerts changed, or they persist for half an hour. A webhook that does not confirm leaves
  the state as it is, so the next pass tries again.
\<close>

record monitor_state =
  mo_previous :: "string list"
  mo_last_sent :: int

definition telemetry_alerts :: "bool \<Rightarrow> (string \<Rightarrow> date_time option) \<Rightarrow> date_time \<Rightarrow> json \<Rightarrow> string list" where
  "telemetry_alerts source_probe_failed parse_time now telemetry =
     (if source_probe_failed then [''source_probe_unavailable''] else []) @
     (if 0 < u64_or_zero (json_at [''dropped_observations''] telemetry) then [''telemetry_observations_dropped''] else []) @
     (case Option.bind (as_str (json_at [''last_persisted_at''] telemetry)) parse_time of
        Some t \<Rightarrow> if 120 < now - t then [''telemetry_persistence_stale''] else [] | None \<Rightarrow> []) @
     (if json_at [''persistence_configured''] telemetry = JBool True \<and> 120 < u64_or_zero (json_at [''uptime_seconds''] telemetry) \<and>
         json_at [''last_persisted_at''] telemetry = JNull then [''telemetry_persistence_unavailable''] else [])"

definition report_due :: "int \<Rightarrow> string list \<Rightarrow> monitor_state \<Rightarrow> bool" where
  "report_due clock current m \<longleftrightarrow> current \<noteq> mo_previous m \<or> (current \<noteq> [] \<and> 1800 \<le> clock - mo_last_sent m)"

text \<open>\<open>delivered\<close> is \<open>None\<close> without a webhook, otherwise whether it confirmed.\<close>

definition monitor_pass :: "int \<Rightarrow> string list \<Rightarrow> bool option \<Rightarrow> monitor_state \<Rightarrow> monitor_state" where
  "monitor_pass clock current delivered m =
     (if report_due clock current m \<and> delivered \<noteq> Some False then \<lparr>mo_previous = current, mo_last_sent = clock\<rparr> else m)"

section \<open>From a source to its alert\<close>

text \<open>
  The writes of the worker (an attempt starts, an attempt ends) and of the data pipeline (an attempt is recorded), each
  with the source's identifier, address and kind; those of all sources come in any order.
\<close>

datatype sync_event =
    Started date_time "date_time option" usize json
  | Finished date_time "string + (usize \<times> usize \<times> date_time option \<times> json)"
  | Recorded date_time "date_time option" usize usize "string option" json

fun sync_step :: "sync_table \<Rightarrow> string \<times> string \<times> string \<times> sync_event \<Rightarrow> sync_table" where
  "sync_step rows (source_id, source_url, data_kind, Started now t received metadata) =
     mark_sync_started now source_id source_url data_kind t received metadata rows"
| "sync_step rows (source_id, source_url, data_kind, Finished attempted_at result) =
     finish_sync source_id source_url data_kind attempted_at result rows"
| "sync_step rows (source_id, source_url, data_kind, Recorded attempted_at succeeded_at received written error_message metadata) =
     record_data_sync source_id source_url data_kind attempted_at succeeded_at received written error_message metadata rows"

text \<open>What a source's writes say: its kind in the last of them, and the time of the last attempt that succeeded.\<close>

fun success_of :: "sync_event \<Rightarrow> date_time option" where
  "success_of (Finished t (Inr _)) = Some t"
| "success_of (Recorded attempted_at succeeded_at received written error_message metadata) = succeeded_at"
| "success_of _ = None"

definition last_success :: "string \<Rightarrow> (string \<times> string \<times> string \<times> sync_event) list \<Rightarrow> date_time option" where
  "last_success source_id es =
     foldl (\<lambda>t (i, _, _, e). if i = source_id then coalesce (success_of e) t else t) None es"

definition last_kind :: "string \<Rightarrow> (string \<times> string \<times> string \<times> sync_event) list \<Rightarrow> string option" where
  "last_kind source_id es = foldl (\<lambda>k (i, _, kind, _). if i = source_id then Some kind else k) None es"

lemma last_snoc [simp]:
  "last_success i (es @ [(j, url, kind, e)]) = (if j = i then coalesce (success_of e) (last_success i es) else last_success i es)"
  "last_kind i (es @ [(j, url, kind, e)]) = (if j = i then Some kind else last_kind i es)"
  by (simp_all add: last_success_def last_kind_def)

text \<open>What one write leaves in the rows.\<close>

lemma sync_step_row:
  "\<exists>row. sync_step rows (i, url, kind, e) = rows(i \<mapsto> row) \<and> sy_source_id row = i \<and> sy_data_kind row = kind \<and>
     sy_status row \<in> {''syncing'', ''success'', ''error''} \<and>
     sy_last_success_at row = coalesce (success_of e) (Option.bind (rows i) sy_last_success_at)"
proof -
  let ?row = "sync_step rows (i, url, kind, e) i"
  have "sync_step rows (i, url, kind, e) = rows(i := ?row) \<and> ?row \<noteq> None \<and> sy_source_id (the ?row) = i \<and> sy_data_kind (the ?row) = kind \<and>
     sy_status (the ?row) \<in> {''syncing'', ''success'', ''error''} \<and>
     sy_last_success_at (the ?row) = coalesce (success_of e) (Option.bind (rows i) sy_last_success_at)"
  proof (cases e)
    case (Finished t result)
    show ?thesis
    proof (cases result)
      case (Inr x)
      then show ?thesis by (cases x) (simp add: Finished finish_sync_def upsert_sync_def coalesce_def)
    qed (simp add: Finished finish_sync_def upsert_sync_def coalesce_def)
  qed (simp_all add: mark_sync_started_def record_data_sync_def upsert_sync_def coalesce_def)
  then show ?thesis by (intro exI [of _ "the ?row"]) simp
qed

definition row_of :: "string \<Rightarrow> (string \<times> string \<times> string \<times> sync_event) list \<Rightarrow> sync_row option \<Rightarrow> bool" where
  "row_of i es r = (case r of
     None \<Rightarrow> last_kind i es = None \<and> last_success i es = None
   | Some row \<Rightarrow> sy_source_id row = i \<and> last_kind i es = Some (sy_data_kind row) \<and>
       sy_status row \<in> {''syncing'', ''success'', ''error''} \<and> sy_last_success_at row = last_success i es)"

lemma sync_rows: "row_of i es (foldl sync_step Map.empty es i)"
proof (induction es rule: rev_induct)
  case Nil
  show ?case by (simp add: row_of_def last_kind_def last_success_def)
next
  case (snoc x es)
  obtain j url kind e where x: "x = (j, url, kind, e)" by (cases x) auto
  let ?rows = "foldl sync_step Map.empty es"
  from sync_step_row [of ?rows j url kind e] obtain row where
    step: "sync_step ?rows x = ?rows(j \<mapsto> row)" and row: "sy_source_id row = j" "sy_data_kind row = kind"
      "sy_status row \<in> {''syncing'', ''success'', ''error''}"
      "sy_last_success_at row = coalesce (success_of e) (Option.bind (?rows j) sy_last_success_at)"
    unfolding x by blast
  show ?case
  proof (cases "j = i")
    case True
    have "Option.bind (?rows i) sy_last_success_at = last_success i es"
      using snoc.IH by (cases "?rows i") (simp_all add: row_of_def)
    then show ?thesis using row True step by (simp add: row_of_def x)
  next
    case False
    then show ?thesis using snoc.IH step by (cases "?rows i") (simp_all add: row_of_def x)
  qed
qed

lemma sync_row_facts:
  assumes "row \<in> ran (foldl sync_step Map.empty es)"
  shows "last_kind (sy_source_id row) es = Some (sy_data_kind row)" "sy_status row \<noteq> ''failed''"
    "sy_last_success_at row = last_success (sy_source_id row) es"
    "foldl sync_step Map.empty es (sy_source_id row) = Some row"
proof -
  obtain i where i: "foldl sync_step Map.empty es i = Some row" using assms by (auto simp: ran_def)
  with sync_rows [of i es] show "last_kind (sy_source_id row) es = Some (sy_data_kind row)" "sy_status row \<noteq> ''failed''"
    "sy_last_success_at row = last_success (sy_source_id row) es" "foldl sync_step Map.empty es (sy_source_id row) = Some row"
    by (auto simp: row_of_def)
qed

text \<open>Only the alerts about sources begin with an s.\<close>

lemma health_alerts_not_sources [simp]: "CHR ''s'' # name \<notin> set (health_alerts health)"
  by (auto simp: health_alerts_def)

lemma source_json_at [simp]:
  "json_at [''source_id''] (source_json show_time row) = JString (sy_source_id row)"
  "json_at [''data_kind''] (source_json show_time row) = JString (sy_data_kind row)"
  "json_at [''status''] (source_json show_time row) = JString (sy_status row)"
  "json_at [''last_success_at''] (source_json show_time row) = json_string (map_option show_time (sy_last_success_at row))"
  by (simp_all add: json_at_def source_json_def)

text \<open>A source's row speaks of that source only.\<close>

lemma stale_alert:
  assumes "\<And>t. parse_time (show_time t) = Some t"
  shows "''source_stale:'' @ i \<in> set (source_alerts parse_time now (source_json show_time row)) \<longleftrightarrow>
    sy_source_id row = i \<and> (case sy_last_success_at row of
       None \<Rightarrow> True | Some t \<Rightarrow> (if sy_data_kind row = ''schedule'' then 7 * 3600 else 180) < now - t)"
  using assms by (auto simp: source_alerts_def source_max_age_def json_string_def split: option.splits)


text \<open>A round trip for times that the witness runs with.\<close>

definition sample_show_time :: "date_time \<Rightarrow> string" where
  "sample_show_time t = (if 0 \<le> t then replicate (nat t) (CHR ''+'') else replicate (nat (- t)) (CHR ''-''))"

definition sample_parse_time :: "string \<Rightarrow> date_time option" where
  "sample_parse_time s = Some (if CHR ''-'' \<in> set s then - int (length s) else int (length s))"

lemma sample_times [simp]: "sample_parse_time (sample_show_time t) = Some t"
  by (auto simp: sample_parse_time_def sample_show_time_def)

definition sample_syncs :: "(string \<times> string \<times> string \<times> sync_event) list" where
  "sample_syncs = [(''x'', ''u'', ''gtfs_realtime'', Finished 100 (Inr (1, 1, None, JNull))),
     (''t'', ''v'', ''schedule'', Recorded 200 (Some 200) 5 5 None JNull),
     (''y'', ''w'', ''trip_summaries'', Started 250 None 0 JNull),
     (''x'', ''u'', ''gtfs_realtime'', Finished 400 (Inl ''timeout''))]"


text \<open>
  The alert for failed sources is dead: the monitor looks for the status \<^verbatim>\<open>failed\<close>, and both services write \<^verbatim>\<open>error\<close>.
\<close>

lemma failed_sources_unreported:
  assumes "set rows = ran (foldl sync_step Map.empty es)"
  shows "''source_failed:'' @ source_id \<notin> set (alerts parse_time health (monitor_sources show_time rows) now)"
proof -
  have "''source_failed:'' @ source_id \<notin> set (source_alerts parse_time now (source_json show_time row))" if "row \<in> set rows" for row
    using sync_row_facts(2) [of row es] that assms by (auto simp: source_alerts_def split: option.splits)
  then show ?thesis by (auto simp: alerts_def monitor_sources_def)
qed

text \<open>A report that was not confirmed is due again on the next pass.\<close>

lemma unconfirmed_report_repeated:
  "report_due clock current m \<Longrightarrow> clock \<le> clock' \<Longrightarrow> report_due clock' current (monitor_pass clock current (Some False) m)"
  by (auto simp: report_due_def monitor_pass_def)

end
