(* ===== verification/Realtime_Sync.thy ===== *)
theory Realtime_Sync
  imports Sync_Status
begin

text \<open>
  One synchronisation of each source of \<^verbatim>\<open>services/realtime-worker\<close>, from the decoded answer of the provider to the
  rows of \<open>realtime_updates\<close>, the queue of push notifications and the status of the source. What the provider
  answers, which SQL statement fails and the free space are parameters. The nodes of a chunk of departure requests,
  asked concurrently by the code, write rows of their own and are taken one after the other.
\<close>

section \<open>Rows\<close>

text \<open>The columns of \<open>realtime_updates\<close> are the fields of a record; the position is one column of both coordinates.\<close>

definition stored_row :: "worker_record \<Rightarrow> worker_record" where
  "stored_row r = (if wr_lat r = None \<or> wr_lon r = None then r\<lparr>wr_lat := None, wr_lon := None\<rparr> else r)"

text \<open>\<open>ON CONFLICT (source, source_entity_id) DO UPDATE\<close> of all columns.\<close>

definition upsert_row :: "worker_record \<Rightarrow> worker_record list \<Rightarrow> worker_record list" where
  "upsert_row r rows =
     (if list_ex (\<lambda>x. record_identity x = record_identity r) rows
      then map (\<lambda>x. if record_identity x = record_identity r then stored_row r else x) rows
      else rows @ [stored_row r])"

definition upsert_rows :: "worker_record list \<Rightarrow> worker_record list \<Rightarrow> worker_record list" where
  "upsert_rows records rows = foldl (\<lambda>rows r. upsert_row r rows) rows records"

text \<open>\<open>sp_required\<close> is \<open>MIN_DATABASE_FREE_BYTES\<close> where it is set and a number.\<close>

record storage_probe =
  sp_configured :: bool
  sp_path :: string
  sp_exists :: bool
  sp_available :: "nat option"
  sp_required :: "nat option"

definition ensure_database_storage_headroom :: "storage_probe \<Rightarrow> string + unit" where
  "ensure_database_storage_headroom p =
     (if \<not> sp_exists p
      then (if sp_configured p then Inl (''configured database storage path does not exist: '' @ sp_path p) else Inr ())
      else (case sp_available p of
              None \<Rightarrow> Inl (''failed to inspect database storage headroom at '' @ sp_path p)
            | Some available \<Rightarrow>
                (let required = (case sp_required p of Some n \<Rightarrow> n | None \<Rightarrow> 5 * 1024 * 1024 * 1024)
                 in if available < required
                    then Inl (''realtime persistence deferred: database storage has '' @ show_nat available @
                           '' bytes free but requires at least '' @ show_nat required @ '' bytes'')
                    else Inr ())))"

section \<open>Persistence\<close>

record worker_db =
  wd_updates :: "worker_record list"
  wd_push :: push_store
  wd_sync :: sync_table

datatype cleanup_outcome = CleanupFailed string | CleanupBusy | CleanupDone

text \<open>What the outside does during one synchronisation: chunk by chunk the free space and the insert, then the other statements.\<close>

record sync_env =
  se_lib :: worker_library
  se_hash_order :: "worker_record list \<Rightarrow> worker_record list"
  se_probe :: "nat \<Rightarrow> storage_probe"
  se_insert :: "nat \<Rightarrow> string option"
  se_enqueue :: "string option"
  se_started :: "string option"
  se_cleanup :: cleanup_outcome
  se_recorded :: bool

definition se_now :: "sync_env \<Rightarrow> date_time" where
  "se_now env = wl_now (se_lib env)"

fun persist_chunks :: "sync_env \<Rightarrow> nat \<Rightarrow> worker_record list list \<Rightarrow> usize \<Rightarrow> worker_record list \<Rightarrow> (string + usize) \<times> worker_record list" where
  "persist_chunks env i [] written rows = (Inr written, rows)"
| "persist_chunks env i (chunk # chunks) written rows =
     (case ensure_database_storage_headroom (se_probe env i) of
        Inl e \<Rightarrow> (Inl e, rows)
      | Inr _ \<Rightarrow>
          (case se_insert env i of
             Some e \<Rightarrow> (Inl e, rows)
           | None \<Rightarrow> persist_chunks env (Suc i) chunks (written + length chunk) (upsert_rows chunk rows)))"

definition persist_records :: "sync_env \<Rightarrow> worker_record list \<Rightarrow> worker_db \<Rightarrow> (string + usize) \<times> worker_db" where
  "persist_records env records db =
     (let records = deduplicate_records (se_hash_order env) records
      in case persist_chunks env 0 (chunks_of 2000 records) 0 (wd_updates db) of
           (Inl e, rows) \<Rightarrow> (Inl e, db\<lparr>wd_updates := rows\<rparr>)
         | (Inr written, rows) \<Rightarrow>
             (case se_enqueue env of
                Some e \<Rightarrow> (Inl e, db\<lparr>wd_updates := rows\<rparr>)
              | None \<Rightarrow> (Inr written, db\<lparr>wd_updates := rows, wd_push := enqueue_push_events (se_now env) records (wd_push db)\<rparr>)))"

text \<open>The retention of 48 hours: one bounded batch, given up while the database is busy.\<close>

definition expired_batch :: "date_time \<Rightarrow> worker_record list \<Rightarrow> worker_record list" where
  "expired_batch now rows = take 10000 (sort_key wr_valid_until (filter (\<lambda>r. wr_valid_until r < now - 48 * 3600) rows))"

definition cleanup_expired :: "sync_env \<Rightarrow> worker_db \<Rightarrow> (string + unit) \<times> worker_db" where
  "cleanup_expired env db =
     (case se_cleanup env of
        CleanupFailed e \<Rightarrow> (Inl e, db)
      | CleanupBusy \<Rightarrow> (Inr (), db)
      | CleanupDone \<Rightarrow>
          (let expired = set (map record_identity (expired_batch (se_now env) (wd_updates db)))
           in (Inr (), db\<lparr>wd_updates := filter (\<lambda>r. record_identity r \<notin> expired) (wd_updates db)\<rparr>)))"

section \<open>Synchronisations\<close>

type_synonym sync_result = "string + (usize \<times> usize \<times> date_time option \<times> json)"

definition latest_fetched :: "worker_record list \<Rightarrow> date_time option" where
  "latest_fetched records = (if records = [] then None else Some (Max (set (map wr_fetched_at records))))"

definition or_feed_time :: "worker_library \<Rightarrow> feed_message \<Rightarrow> worker_record list \<Rightarrow> date_time option" where
  "or_feed_time lib feed records = (case latest_fetched records of Some t \<Rightarrow> Some t | None \<Rightarrow> feed_timestamp lib feed)"

text \<open>The end that the synchronisations share: the source is marked, its records are stored, expired rows removed.\<close>

definition store_synced ::
  "sync_env \<Rightarrow> string \<Rightarrow> string \<Rightarrow> date_time option \<Rightarrow> json \<Rightarrow> bool \<Rightarrow> worker_record list \<Rightarrow> worker_db \<Rightarrow> sync_result \<times> worker_db" where
  "store_synced env source_id url source_timestamp metadata cleanup records db =
     (let received = length records
      in case se_started env of
           Some e \<Rightarrow> (Inl e, db)
         | None \<Rightarrow>
             (case persist_records env records (db\<lparr>wd_sync := mark_sync_started (se_now env) source_id url ''gtfs_realtime''
                  source_timestamp received metadata (wd_sync db)\<rparr>) of
                (Inl e, db) \<Rightarrow> (Inl e, db)
              | (Inr written, db) \<Rightarrow>
                  (case (if cleanup then cleanup_expired env db else (Inr (), db)) of
                     (Inl e, db) \<Rightarrow> (Inl e, db)
                   | (Inr _, db) \<Rightarrow> (Inr (received, written, source_timestamp, metadata), db))))"

text \<open>The answer of the provider, fetched and decoded, or why there is none.\<close>

definition sync_pid_trip_updates :: "sync_env \<Rightarrow> string \<Rightarrow> string + feed_message \<Rightarrow> worker_db \<Rightarrow> sync_result \<times> worker_db" where
  "sync_pid_trip_updates env trip_updates_url answer db =
     (case answer of
        Inl e \<Rightarrow> (Inl e, db)
      | Inr feed \<Rightarrow>
          (let records = pid_trip_records (se_lib env) feed
           in store_synced env PID_SOURCE trip_updates_url (or_feed_time (se_lib env) feed records)
                (JObject [(''trip_update_entities'', JInt (int (length (fm_entity feed))))]) True records db))"

definition sync_pid_trip_summaries :: "sync_env \<Rightarrow> string \<Rightarrow> string + feed_message \<Rightarrow> worker_db \<Rightarrow> sync_result \<times> worker_db" where
  "sync_pid_trip_summaries env trip_updates_url answer db =
     (case answer of
        Inl e \<Rightarrow> (Inl e, db)
      | Inr feed \<Rightarrow>
          (let records = pid_trip_summary_records (se_hash_order env) (se_lib env) feed
           in store_synced env ''pid_trip_summaries'' trip_updates_url (or_feed_time (se_lib env) feed records)
                (JObject [(''trip_update_entities'', JInt (int (length (fm_entity feed)))), (''format'', JString ''trip_summary'')]) False records db))"

text \<open>
  Positions: with a token the vehicle document, and the feed when it cannot be fetched; without one the feed.
  The result is the records, the number of entities and the format.
\<close>

definition vehicle_feed_records :: "sync_env \<Rightarrow> string \<Rightarrow> string + feed_message \<Rightarrow> string + (worker_record list \<times> usize \<times> string)" where
  "vehicle_feed_records env format answer =
     bind_result answer (\<lambda>feed. Inr (pid_vehicle_records (se_lib env) feed, length (fm_entity feed), format))"

definition fetched_positions ::
  "sync_env \<Rightarrow> bool \<Rightarrow> string + json \<Rightarrow> string + feed_message \<Rightarrow> string + (worker_record list \<times> usize \<times> string)" where
  "fetched_positions env has_token document answer =
     (if has_token
      then (case document of
              Inr payload \<Rightarrow>
                bind_result (pid_json_vehicle_records (se_lib env) payload) (\<lambda>records.
                  Inr (records, (case Option.bind (json_field ''features'' payload) as_array of Some fs \<Rightarrow> length fs | None \<Rightarrow> 0),
                    ''golemio_geojson''))
            | Inl _ \<Rightarrow> vehicle_feed_records env ''gtfs_realtime_fallback'' answer)
      else vehicle_feed_records env ''gtfs_realtime'' answer)"

definition sync_pid_vehicle_positions ::
  "sync_env \<Rightarrow> string \<Rightarrow> string \<Rightarrow> bool \<Rightarrow> string + json \<Rightarrow> string + feed_message \<Rightarrow> worker_db \<Rightarrow> sync_result \<times> worker_db" where
  "sync_pid_vehicle_positions env feed_url json_url has_token document answer db =
     (case fetched_positions env has_token document answer of
        Inl e \<Rightarrow> (Inl e, db)
      | Inr (records, entities, format) \<Rightarrow>
          store_synced env ''pid_vehicle_positions'' (if has_token then json_url else feed_url) (latest_fetched records)
            (JObject [(''vehicle_position_entities'', JInt (int entities)), (''position_format'', JString format)]) False records db)"

text \<open>\<open>trips\<close> and \<open>routes\<close> are the rows that the queries of \<open>enrich_ids_jmk_vehicle_records\<close> return.\<close>

definition enrich_ids_jmk_vehicle_records ::
  "string + (string \<rightharpoonup> string \<times> string option) \<Rightarrow> string + (string \<rightharpoonup> string option \<times> string) \<Rightarrow> worker_record list \<Rightarrow>
   string + worker_record list" where
  "enrich_ids_jmk_vehicle_records trips routes records =
     bind_result trips (\<lambda>trips. bind_result routes (\<lambda>routes. Inr (map (enrich_record trips routes) records)))"

definition sync_ids_jmk ::
  "sync_env \<Rightarrow> string \<Rightarrow> string + (string \<rightharpoonup> string \<times> string option) \<Rightarrow> string + (string \<rightharpoonup> string option \<times> string) \<Rightarrow>
   string + feed_message \<Rightarrow> worker_db \<Rightarrow> sync_result \<times> worker_db" where
  "sync_ids_jmk env url trips routes answer db =
     (case bind_result answer (\<lambda>feed. bind_result (enrich_ids_jmk_vehicle_records trips routes (ids_jmk_vehicle_records (se_lib env) feed))
          (\<lambda>records. Inr (feed, records))) of
        Inl e \<Rightarrow> (Inl e, db)
      | Inr (feed, records) \<Rightarrow>
          store_synced env IDS_JMK_SOURCE url (or_feed_time (se_lib env) feed records)
            (JObject [(''entities'', JInt (int (length (fm_entity feed)))), (''format'', JString ''gtfs_realtime''),
               (''capabilities'', JArray [JString ''vehicle_positions''])]) True records db)"

definition sync_duk :: "sync_env \<Rightarrow> duk_library \<Rightarrow> string + xml_event list \<Rightarrow> worker_db \<Rightarrow> sync_result \<times> worker_db" where
  "sync_duk env duk answer db =
     (case bind_result answer (duk_vehicle_records duk) of
        Inl e \<Rightarrow> (Inl e, db)
      | Inr records \<Rightarrow>
          (case persist_records env records db of
             (Inl e, db) \<Rightarrow> (Inl e, db)
           | (Inr written, db) \<Rightarrow> (Inr (length records, written, latest_fetched records, JObject []), db)))"

definition sync_duk_departures_node ::
  "sync_env \<Rightarrow> duk_library \<Rightarrow> string \<times> (string + xml_event list) \<Rightarrow> worker_db \<Rightarrow> sync_result \<times> worker_db" where
  "sync_duk_departures_node env duk = (\<lambda>(node_id, answer) db.
     case bind_result answer (duk_departure_records duk node_id) of
       Inl e \<Rightarrow> (Inl e, db)
     | Inr records \<Rightarrow>
         (case (if records = [] then (Inr 0, db) else persist_records env records db) of
            (Inl e, db) \<Rightarrow> (Inl e, db)
          | (Inr written, db) \<Rightarrow> (Inr (length records, written, latest_fetched records, JObject []), db)))"

text \<open>A node that fails is passed over.\<close>

definition max_time :: "date_time option \<Rightarrow> date_time option \<Rightarrow> date_time option" where
  "max_time latest t = (case (latest, t) of (Some a, Some b) \<Rightarrow> Some (max a b) | (None, _) \<Rightarrow> t | (_, None) \<Rightarrow> latest)"

fun sync_duk_nodes ::
  "sync_env \<Rightarrow> duk_library \<Rightarrow> (string \<times> (string + xml_event list)) list \<Rightarrow> usize \<Rightarrow> usize \<Rightarrow> date_time option \<Rightarrow> worker_db \<Rightarrow>
   sync_result \<times> worker_db" where
  "sync_duk_nodes env duk [] total_received total_written latest db = (Inr (total_received, total_written, latest, JObject []), db)"
| "sync_duk_nodes env duk (node # nodes) total_received total_written latest db =
     (case sync_duk_departures_node env duk node db of
        (Inr (received, written, t, _), db) \<Rightarrow>
          sync_duk_nodes env duk nodes (total_received + received) (total_written + written) (max_time latest t) db
      | (Inl _, db) \<Rightarrow> sync_duk_nodes env duk nodes total_received total_written latest db)"

text \<open>The nodes with their answers, or the error of the query for the nodes.\<close>

definition sync_duk_departures_all_nodes ::
  "sync_env \<Rightarrow> duk_library \<Rightarrow> string + (string \<times> (string + xml_event list)) list \<Rightarrow> worker_db \<Rightarrow> sync_result \<times> worker_db" where
  "sync_duk_departures_all_nodes env duk nodes db =
     (case nodes of Inl e \<Rightarrow> (Inl e, db) | Inr nodes \<Rightarrow> sync_duk_nodes env duk nodes 0 0 None db)"

text \<open>One turn of the loop of a source; \<open>se_recorded\<close> tells whether its status could be written.\<close>

definition sync_turn :: "sync_env \<Rightarrow> string \<Rightarrow> string \<Rightarrow> string \<Rightarrow> (worker_db \<Rightarrow> sync_result \<times> worker_db) \<Rightarrow> worker_db \<Rightarrow> worker_db" where
  "sync_turn env source_id url data_kind sync db =
     (let (result, db) = sync db
      in if se_recorded env then db\<lparr>wd_sync := finish_sync source_id url data_kind (se_now env) result (wd_sync db)\<rparr> else db)"

end
