(* ===== verification/Realtime_Sync_Props.thy ===== *)
theory Realtime_Sync_Props
  imports Realtime_Sync
begin

text \<open>
  What a synchronisation leaves behind: the newest record of every entity in the table, a status that is true to it, and the
  notices of cancelled trips in the queue.
\<close>

section \<open>The table\<close>

definition row_at :: "string \<times> string \<Rightarrow> worker_record list \<Rightarrow> worker_record option" where
  "row_at i rows = find (\<lambda>r. record_identity r = i) rows"

lemma stored_row_identity [simp]: "record_identity (stored_row r) = record_identity r"
  by (simp add: stored_row_def record_identity_def)

lemma row_at_simps [simp]:
  "row_at i [] = None" "row_at i (r # rows) = (if record_identity r = i then Some r else row_at i rows)"
  by (simp_all add: row_at_def)

lemma row_at_append: "row_at i (xs @ ys) = (case row_at i xs of Some r \<Rightarrow> Some r | None \<Rightarrow> row_at i ys)"
  by (induction xs) auto

lemma row_at_None: "row_at i rows = None \<longleftrightarrow> i \<notin> record_identity ` set rows"
  by (induction rows) auto

lemma row_at_map_update:
  "row_at i (map (\<lambda>x. if record_identity x = record_identity r then stored_row r else x) rows) =
   (if record_identity r = i then (if i \<in> record_identity ` set rows then Some (stored_row r) else None) else row_at i rows)"
  by (induction rows) auto

lemma row_at_upsert: "row_at i (upsert_row r rows) = (if record_identity r = i then Some (stored_row r) else row_at i rows)"
proof (cases "list_ex (\<lambda>x. record_identity x = record_identity r) rows")
  case True
  then show ?thesis unfolding upsert_row_def by (auto simp: row_at_map_update list_ex_iff intro: rev_image_eqI)
next
  case False
  then have "row_at (record_identity r) rows = None" by (auto simp: row_at_None list_ex_iff)
  with False show ?thesis by (auto simp: upsert_row_def row_at_append split: option.splits)
qed

lemma row_at_upsert_rows:
  "distinct (map record_identity records) \<Longrightarrow>
   row_at i (upsert_rows records rows) = (case row_at i records of Some r \<Rightarrow> Some (stored_row r) | None \<Rightarrow> row_at i rows)"
proof (induction records arbitrary: rows)
  case (Cons r records)
  have "upsert_rows (r # records) rows = upsert_rows records (upsert_row r rows)" by (simp add: upsert_rows_def)
  moreover have "row_at (record_identity r) records = None" using Cons.prems by (simp add: row_at_None)
  ultimately show ?case using Cons.IH [of "upsert_row r rows"] Cons.prems by (auto simp: row_at_upsert split: option.splits)
qed (simp add: upsert_rows_def)

lemma persist_chunks_Inr:
  "persist_chunks env i chunks n rows = (Inr written, rows') \<Longrightarrow>
   rows' = upsert_rows (concat chunks) rows \<and> written = n + length (concat chunks)"
  by (induction env i chunks n rows rule: persist_chunks.induct)
    (auto simp: upsert_rows_def split: sum.splits option.splits)

lemma row_at_filter: "row_at i xs = (case filter (\<lambda>r. record_identity r = i) xs of [] \<Rightarrow> None | r # _ \<Rightarrow> Some r)"
  by (induction xs) auto

lemma row_at_deduplicated:
  assumes "\<And>xs :: worker_record list. mset (hash_order xs) = mset xs"
  shows "row_at i (deduplicate_records hash_order records) = max_by_key wr_fetched_at (filter (\<lambda>r. record_identity r = i) records)"
  using row_at_filter [of i "deduplicate_records hash_order records"] unfolding deduplicated_one [OF assms]
  by (simp split: option.splits)

lemma length_deduplicated:
  assumes "\<And>xs :: worker_record list. mset (hash_order xs) = mset xs"
  shows "length (deduplicate_records hash_order records) = card (record_identity ` set records)"
proof -
  let ?d = "deduplicate_records hash_order records"
  have "i \<in> record_identity ` set ?d \<longleftrightarrow> i \<in> record_identity ` set records" for i
  proof -
    have "i \<in> record_identity ` set ?d \<longleftrightarrow> filter (\<lambda>r. record_identity r = i) records \<noteq> []"
      using row_at_None [of i ?d] row_at_deduplicated [OF assms, of i records] by simp
    then show ?thesis unfolding image_iff filter_empty_conv by metis
  qed
  then have "record_identity ` set ?d = record_identity ` set records" by blast
  moreover have "card (set (map record_identity ?d)) = length ?d"
    using distinct_card [OF deduplicated_distinct [OF assms]] by simp
  ultimately show ?thesis by simp
qed

definition newest :: "string \<times> string \<Rightarrow> worker_record list \<Rightarrow> worker_record option" where
  "newest i records = max_by_key wr_fetched_at (filter (\<lambda>r. record_identity r = i) records)"

lemma persist_records_Inr:
  assumes "\<And>xs. mset (se_hash_order env xs) = mset xs" and "persist_records env records db = (Inr written, db')"
  shows "row_at i (wd_updates db') = (case newest i records of Some r \<Rightarrow> Some (stored_row r) | None \<Rightarrow> row_at i (wd_updates db))"
    and "written = card (record_identity ` set records)"
    and "wd_push db' = enqueue_push_events (se_now env) (deduplicate_records (se_hash_order env) records) (wd_push db)"
    and "wd_sync db' = wd_sync db"
proof -
  let ?d = "deduplicate_records (se_hash_order env) records"
  obtain rows where rows: "persist_chunks env 0 (chunks_of 2000 ?d) 0 (wd_updates db) = (Inr written, rows)"
    and db': "db' = db\<lparr>wd_updates := rows, wd_push := enqueue_push_events (se_now env) ?d (wd_push db)\<rparr>"
    using assms(2) by (auto simp: persist_records_def Let_def split: prod.splits sum.splits option.splits)
  from persist_chunks_Inr [OF rows] have "rows = upsert_rows ?d (wd_updates db)" "written = length ?d"
    by (simp_all add: concat_chunks_of)
  with db' show "written = card (record_identity ` set records)" "wd_sync db' = wd_sync db"
    "wd_push db' = enqueue_push_events (se_now env) ?d (wd_push db)"
    by (simp_all add: length_deduplicated [OF assms(1)])
  show "row_at i (wd_updates db') = (case newest i records of Some r \<Rightarrow> Some (stored_row r) | None \<Rightarrow> row_at i (wd_updates db))"
    using db' \<open>rows = _\<close>
    by (simp add: row_at_upsert_rows [OF deduplicated_distinct [OF assms(1)]] row_at_deduplicated [OF assms(1)] newest_def)
qed

lemma store_synced_Inr:
  assumes "\<And>xs. mset (se_hash_order env xs) = mset xs" and "store_synced env source_id url t metadata cleanup records db = (Inr result, db')"
  shows "result = (length records, card (record_identity ` set records), t, metadata)"
    and "wd_push db' = enqueue_push_events (se_now env) (deduplicate_records (se_hash_order env) records) (wd_push db)"
    and "\<not> cleanup \<Longrightarrow> row_at i (wd_updates db') = (case newest i records of Some r \<Rightarrow> Some (stored_row r) | None \<Rightarrow> row_at i (wd_updates db))"
proof -
  let ?db0 = "db\<lparr>wd_sync := mark_sync_started (se_now env) source_id url ''gtfs_realtime'' t (length records) metadata (wd_sync db)\<rparr>"
  have started: "se_started env = None" using assms(2) by (auto simp: store_synced_def Let_def split: option.splits)
  obtain outcome db1 where run: "persist_records env records ?db0 = (outcome, db1)" by (cases "persist_records env records ?db0")
  obtain written where outcome: "outcome = Inr written"
    using assms(2) by (cases outcome) (simp_all add: store_synced_def started run)
  have stored: "persist_records env records ?db0 = (Inr written, db1)" using run outcome by simp
  have cleaned: "wd_push (snd (cleanup_expired env db1)) = wd_push db1"
    by (simp add: cleanup_expired_def Let_def split: cleanup_outcome.splits)
  have result: "result = (length records, written, t, metadata)" and end_: "wd_push db' = wd_push db1" "\<not> cleanup \<Longrightarrow> db' = db1"
    using assms(2) cleaned by (auto simp: store_synced_def started stored split: if_splits prod.splits sum.splits)
  note persisted = persist_records_Inr [OF assms(1) stored]
  show "result = (length records, card (record_identity ` set records), t, metadata)" using result persisted(2) by simp
  show "wd_push db' = enqueue_push_events (se_now env) (deduplicate_records (se_hash_order env) records) (wd_push db)"
    using persisted(3) end_(1) by simp
  show "row_at i (wd_updates db') = (case newest i records of Some r \<Rightarrow> Some (stored_row r) | None \<Rightarrow> row_at i (wd_updates db))"
    if "\<not> cleanup" using persisted(1) end_(2) [OF that] by (simp split: option.split)
qed

section \<open>Positions\<close>

lemma finish_sync_status:
  assumes "finish_sync source_id url kind t outcome rows source_id = Some row" and "sy_status row = ''success''"
  obtains received written source_timestamp metadata where "outcome = Inr (received, written, source_timestamp, metadata)"
    and "sy_records_written row = wrap_i32 (int written)"
  using assms by (auto simp: finish_sync_def upsert_sync_def Let_def split: sum.splits)

text \<open>C35: A status is true: when the status of the vehicle positions says success, the records of the answer were read, the table holds for
  each vehicle of the answer its newest record and for every other row what it held, and the count of the
  status is the number of different vehicles.
\<close>

theorem reported_positions_are_stored:
  assumes "\<And>xs. mset (se_hash_order env xs) = mset xs" and "se_recorded env"
    and "db' = sync_turn env ''pid_vehicle_positions'' url kind (sync_pid_vehicle_positions env feed_url json_url has_token document answer) db"
    and "wd_sync db' ''pid_vehicle_positions'' = Some row" and "sy_status row = ''success''"
  shows "\<exists>records entities format. fetched_positions env has_token document answer = Inr (records, entities, format) \<and>
    (\<forall>i. row_at i (wd_updates db') = (case newest i records of Some r \<Rightarrow> Some (stored_row r) | None \<Rightarrow> row_at i (wd_updates db))) \<and>
    sy_records_written row = wrap_i32 (int (card (record_identity ` set records)))"
proof -
  let ?sync = "sync_pid_vehicle_positions env feed_url json_url has_token document answer"
  obtain outcome db1 where run: "?sync db = (outcome, db1)" by (cases "?sync db")
  have "finish_sync ''pid_vehicle_positions'' url kind (se_now env) outcome (wd_sync db1) ''pid_vehicle_positions'' = Some row"
    and updates: "wd_updates db' = wd_updates db1"
    using assms(2-4) run by (simp_all add: sync_turn_def)
  from finish_sync_status [OF this(1) assms(5)] obtain received written t metadata
    where outcome: "outcome = Inr (received, written, t, metadata)" and count: "sy_records_written row = wrap_i32 (int written)" .
  obtain records entities format where fetched: "fetched_positions env has_token document answer = Inr (records, entities, format)"
    using run unfolding outcome sync_pid_vehicle_positions_def by (auto split: sum.splits)
  with run outcome have "store_synced env ''pid_vehicle_positions'' (if has_token then json_url else feed_url) (latest_fetched records)
      (JObject [(''vehicle_position_entities'', JInt (int entities)), (''position_format'', JString format)]) False records db =
      (Inr (received, written, t, metadata), db1)" by (simp add: sync_pid_vehicle_positions_def)
  note stored = store_synced_Inr [OF assms(1) this]
  from stored(1) have "written = card (record_identity ` set records)" by simp
  with fetched stored(3) updates count show ?thesis by auto
qed

section \<open>Cancelled trips\<close>

lemma max_by_key_constant: "\<forall>x \<in> set xs. f x = c \<Longrightarrow> xs \<noteq> [] \<Longrightarrow> max_by_key f xs = Some (last xs)"
  by (induction xs rule: rev_induct) (auto simp: max_by_key_snoc split: option.splits dest: max_by_key_Some(1))

text \<open>The records of an entity speak of its trip, and all records of a feed are of one time.\<close>

lemma entity_records:
  assumes "fe_trip_update entity = Some update" and "tu_trip update = Some trip"
  shows "pid_entity_records lib t entity \<noteq> []"
    and "r \<in> set (pid_entity_records lib t entity) \<Longrightarrow> wr_trip_id r = scoped PID_STATIC_FEED_ID (td_trip_id trip) \<and>
      wr_cancellation_status r = cancellation_of (td_schedule_relationship trip) \<and>
      wr_service_date r = Option.bind (td_start_date trip) (wl_parse_ymd lib)"
  using assms by (auto simp: pid_entity_records_def whole_trip_record_def stop_update_record_def pid_base_record_def Let_def split: if_splits)

lemma entity_records_time: "r \<in> set (pid_entity_records lib t entity) \<Longrightarrow> wr_fetched_at r = t"
  by (auto simp: pid_entity_records_def whole_trip_record_def stop_update_record_def pid_base_record_def Let_def
      split: option.splits if_splits)

text \<open>Of the records under one identity, one of the last entity that has such records is kept.\<close>

lemma last_entity_kept:
  assumes hash: "\<And>xs :: worker_record list. mset (hash_order xs) = mset xs"
    and feed: "fm_entity feed = before @ entity # later"
    and r: "r \<in> set (pid_trip_records lib (feed\<lparr>fm_entity := [entity]\<rparr>))"
    and last: "record_identity r \<notin> record_identity ` set (pid_trip_records lib (feed\<lparr>fm_entity := later\<rparr>))"
  obtains k where "k \<in> set (deduplicate_records hash_order (pid_trip_records lib feed))"
    and "k \<in> set (pid_trip_records lib (feed\<lparr>fm_entity := [entity]\<rparr>))"
proof -
  define t where "t = (case feed_timestamp lib feed of Some t \<Rightarrow> t | None \<Rightarrow> wl_now lib)"
  have records: "pid_trip_records lib (feed\<lparr>fm_entity := es\<rparr>) = concat (map (pid_entity_records lib t) es)" for es
    by (simp add: pid_trip_records_def Let_def t_def feed_timestamp_def)
  let ?P = "\<lambda>x. record_identity x = record_identity r"
  let ?all = "pid_trip_records lib feed" and ?E = "pid_entity_records lib t entity"
  have all: "?all = concat (map (pid_entity_records lib t) (before @ entity # later))"
    by (simp add: pid_trip_records_def Let_def t_def feed)
  have none: "filter ?P (concat (map (pid_entity_records lib t) later)) = []"
    using last unfolding records by (rule filter_key_none)
  have some: "filter ?P ?E \<noteq> []" using r by (auto simp: records filter_empty_conv)
  have "\<forall>x \<in> set (filter ?P ?all). wr_fetched_at x = t" by (auto simp: all dest: entity_records_time)
  from max_by_key_constant [OF this] some have "max_by_key wr_fetched_at (filter ?P ?all) = Some (last (filter ?P ?all))"
    by (simp add: all)
  moreover have "last (filter ?P ?all) = last (filter ?P ?E)" using none some by (simp add: all)
  ultimately have "filter ?P (deduplicate_records hash_order ?all) = [last (filter ?P ?E)]"
    unfolding deduplicated_one [OF hash] by simp
  from arg_cong [OF this, of set] have "last (filter ?P ?E) \<in> set (deduplicate_records hash_order ?all)" by auto
  moreover have "last (filter ?P ?E) \<in> set ?E" using last_in_set [OF some] by simp
  ultimately show thesis by (intro that) (simp_all add: records)
qed

text \<open>C32: From the feed to the queue: when the trip updates of a feed have been stored, every active subscription of a trip that an
  entity of the feed cancels on the day of the subscription has its notice in the queue of its device. The one condition
  on the feed is that no later entity of it brings a record under the identity of a record of this one, which the GTFS
  realtime rule of unique entity identifiers is for: of several records under one identity only the last is kept.
\<close>

theorem cancellations_reach_the_queue:
  assumes "\<And>xs. mset (se_hash_order env xs) = mset xs"
    and "sync_pid_trip_updates env url (Inr feed) db = (Inr outcome, db')"
    and feed: "fm_entity feed = before @ entity # later"
    and last: "record_identity ` set (pid_trip_records (se_lib env) (feed\<lparr>fm_entity := [entity]\<rparr>)) \<inter>
      record_identity ` set (pid_trip_records (se_lib env) (feed\<lparr>fm_entity := later\<rparr>)) = {}"
    and "fe_trip_update entity = Some update" and "tu_trip update = Some trip"
    and "td_schedule_relationship trip = Some 3" and "td_trip_id trip = Some trip_id"
    and "Option.bind (td_start_date trip) (wl_parse_ymd (se_lib env)) = Some (jb_service_date s)"
    and "s \<in> set (active_subscriptions (se_now env) [''pid_gtfs:'' @ trip_id] (wd_push db))"
  shows "(jb_device_id s, jb_id s @ '':trip_cancelled'') \<in> delivery_key ` set (pq_deliveries (wd_push db'))"
proof -
  let ?one = "pid_trip_records (se_lib env) (feed\<lparr>fm_entity := [entity]\<rparr>)"
  let ?d = "deduplicate_records (se_hash_order env) (pid_trip_records (se_lib env) feed)"
  define t where "t = (case feed_timestamp (se_lib env) feed of Some t \<Rightarrow> t | None \<Rightarrow> wl_now (se_lib env))"
  have one: "?one = pid_entity_records (se_lib env) t entity"
    by (simp add: pid_trip_records_def Let_def t_def feed_timestamp_def)
  obtain k where "k \<in> set ?one" using entity_records(1) [OF assms(5,6)] unfolding one by (metis last_in_set)
  moreover from this last have "record_identity k \<notin> record_identity ` set (pid_trip_records (se_lib env) (feed\<lparr>fm_entity := later\<rparr>))"
    by blast
  ultimately obtain r where d: "r \<in> set ?d" and r: "r \<in> set ?one"
    by (rule last_entity_kept [OF assms(1) feed])
  note facts = entity_records(2) [OF assms(5,6) r [unfolded one]]
  have s: "jb_trip_id s = ''pid_gtfs:'' @ trip_id" using assms(10) by (simp add: active_subscriptions_def)
  have trip: "wr_trip_id r = Some (jb_trip_id s)"
    using facts assms(8) s by (simp add: scoped_def scoped_pid_id_def PID_STATIC_FEED_ID_def)
  have "jb_trip_id s \<in> set (List.map_filter wr_trip_id ?d)" using d trip by (force simp: List.map_filter_def)
  then have active: "s \<in> set (active_subscriptions (se_now env) (List.map_filter wr_trip_id ?d) (wd_push db))"
    using assms(10) by (simp add: active_subscriptions_def)
  have "wr_cancellation_status r = Some ''cancelled''" using facts assms(7) by (simp add: cancellation_of_def)
  then have event: "(jb_id s @ '':trip_cancelled'', ''trip_cancelled'', merge_json (base_payload s r)
      (JObject [(''cancellation_status'', json_string (wr_cancellation_status r))])) \<in> set (push_events (wd_push db) s r)"
    by (simp add: push_events_def Let_def)
  have "wr_service_date r = Some (jb_service_date s)" using facts assms(9) by simp
  from queued_event [OF active d trip this event]
  have "(jb_device_id s, jb_id s @ '':trip_cancelled'') \<in> delivery_key ` set (pq_deliveries (enqueue_push_events (se_now env) ?d (wd_push db)))" .
  moreover from assms(2) obtain t' where "store_synced env PID_SOURCE url t' (JObject [(''trip_update_entities'', JInt (int (length (fm_entity feed))))])
      True (pid_trip_records (se_lib env) feed) db = (Inr outcome, db')" by (simp add: sync_pid_trip_updates_def Let_def)
  from store_synced_Inr(2) [OF assms(1) this]
  have "wd_push db' = enqueue_push_events (se_now env) ?d (wd_push db)" .
  ultimately show ?thesis by simp
qed

section \<open>An outage that is not noticed\<close>

text \<open>
  When no node can be reached, the departures are reported as synchronised: the status is a success of now, so that the
  monitor has nothing to report.
\<close>

lemma unreachable_nodes_are_success:
  assumes "\<forall>node \<in> set nodes. \<exists>e. snd node = Inl e" and "se_recorded env"
  shows "\<exists>row. wd_sync (sync_turn env ''duk_departures'' url ''trip_summaries'' (sync_duk_departures_all_nodes env duk (Inr nodes)) db)
      ''duk_departures'' = Some row \<and> sy_status row = ''success'' \<and> sy_last_success_at row = Some (se_now env)"
proof -
  have "sync_duk_nodes env duk nodes 0 0 None db = (Inr (0, 0, None, JObject []), db)"
    using assms(1)
  proof (induction nodes)
    case (Cons node nodes)
    then obtain n e where "node = (n, Inl e)" by (cases node) auto
    then have "sync_duk_departures_node env duk node db = (Inl e, db)" by (simp add: sync_duk_departures_node_def bind_result_def)
    with Cons show ?case by simp
  qed simp
  with assms(2) show ?thesis
    by (simp add: sync_turn_def sync_duk_departures_all_nodes_def finish_sync_def upsert_sync_def coalesce_def)
qed

section \<open>A cancelled trip and a vehicle\<close>

definition sample_env :: sync_env where
  "sample_env = \<lparr>se_lib = \<lparr>wl_now = 100, wl_timestamp_opt = Some, wl_parse_ymd = (\<lambda>_. Some 5), wl_parse_rfc3339 = (\<lambda>_. None),
       wl_lower = id, wl_show_float = (\<lambda>_. [])\<rparr>,
     se_hash_order = rev, se_probe = (\<lambda>_. \<lparr>sp_configured = False, sp_path = [], sp_exists = False, sp_available = None, sp_required = None\<rparr>),
     se_insert = (\<lambda>_. None), se_enqueue = None, se_started = None, se_cleanup = CleanupBusy, se_recorded = True\<rparr>"

definition sample_db :: worker_db where
  "sample_db = \<lparr>wd_updates = [], wd_push = \<lparr>pq_deliveries = [], pq_devices = [\<lparr>md_id = 1, md_platform = ''android'',
       md_push_token = ''x'', md_enabled = True\<rparr>],
     pq_subscriptions = [sample_subscription\<lparr>jb_trip_id := ''pid_gtfs:t''\<rparr>], pq_calls = []\<rparr>, wd_sync = Map.empty\<rparr>"

definition sample_trip :: trip_descriptor where
  "sample_trip = \<lparr>td_trip_id = Some ''t'', td_start_time = None, td_start_date = Some ''19700106'', td_schedule_relationship = Some 3,
     td_route_id = None\<rparr>"

definition sample_trip_update :: trip_update where
  "sample_trip_update = \<lparr>tu_trip = Some sample_trip, tu_stop_time_update = [], tu_vehicle = None\<rparr>"

definition sample_cancelled :: feed_entity where
  "sample_cancelled = \<lparr>fe_id = ''e'', fe_trip_update = Some sample_trip_update, fe_vehicle = None\<rparr>"

definition sample_vehicle :: feed_entity where
  "sample_vehicle = \<lparr>fe_id = ''v'', fe_trip_update = None, fe_vehicle = Some \<lparr>vp_trip = Some sample_trip, vp_position = None,
     vp_current_stop_sequence = None, vp_current_status = None, vp_timestamp = None, vp_stop_id = None, vp_vehicle = None,
     vp_occupancy_status = None\<rparr>\<rparr>"

definition sample_positions_turn :: worker_db where
  "sample_positions_turn = sync_turn sample_env ''pid_vehicle_positions'' [] ''gtfs_realtime''
     (sync_pid_vehicle_positions sample_env [] [] False (Inl []) (Inr (sample_feed [sample_vehicle]))) sample_db"

lemma reported_positions_are_stored_witness:
  "\<exists>records. fetched_positions sample_env False (Inl []) (Inr (sample_feed [sample_vehicle])) = Inr (records, 1, ''gtfs_realtime'') \<and>
    (\<forall>i. row_at i (wd_updates sample_positions_turn) = map_option stored_row (newest i records)) \<and>
    map_option sy_records_written (wd_sync sample_positions_turn ''pid_vehicle_positions'') = Some 1"
proof -
  have "map_option sy_status (wd_sync sample_positions_turn ''pid_vehicle_positions'') = Some ''success''" by code_simp
  then obtain row where row: "wd_sync sample_positions_turn ''pid_vehicle_positions'' = Some row" "sy_status row = ''success''" by auto
  have count: "map_option sy_records_written (wd_sync sample_positions_turn ''pid_vehicle_positions'') = Some 1" by code_simp
  have "\<And>xs. mset (se_hash_order sample_env xs) = mset xs" "se_recorded sample_env" by (simp_all add: sample_env_def)
  from reported_positions_are_stored [OF this sample_positions_turn_def row]
  obtain records entities format
    where fetched: "fetched_positions sample_env False (Inl []) (Inr (sample_feed [sample_vehicle])) = Inr (records, entities, format)"
      and rows: "\<forall>i. row_at i (wd_updates sample_positions_turn) =
        (case newest i records of Some r \<Rightarrow> Some (stored_row r) | None \<Rightarrow> row_at i (wd_updates sample_db))" by blast
  have "entities = 1 \<and> format = ''gtfs_realtime''"
    using fetched by (auto simp: fetched_positions_def vehicle_feed_records_def sample_feed_def bind_result_def)
  moreover have "\<forall>i. row_at i (wd_updates sample_positions_turn) = map_option stored_row (newest i records)"
    using rows by (simp add: sample_db_def split: option.splits)
  ultimately show ?thesis using fetched count by simp
qed

definition sample_updates_run :: "sync_result \<times> worker_db" where
  "sample_updates_run = sync_pid_trip_updates sample_env [] (Inr (sample_feed [sample_cancelled, sample_cancelled])) sample_db"

lemma cancellations_reach_the_queue_witness:
  "(1, ''s:trip_cancelled'') \<in> delivery_key ` set (pq_deliveries (wd_push (snd sample_updates_run)))"
proof -
  let ?s = "sample_subscription\<lparr>jb_trip_id := ''pid_gtfs:t''\<rparr>"
  let ?feed = "sample_feed [sample_cancelled, sample_cancelled]"
  have "case fst sample_updates_run of Inl e \<Rightarrow> False | Inr _ \<Rightarrow> True" by code_simp
  then obtain outcome where run: "sync_pid_trip_updates sample_env [] (Inr ?feed) sample_db = (Inr outcome, snd sample_updates_run)"
    unfolding sample_updates_run_def by (auto split: sum.splits prod.splits) (metis prod.collapse)
  have "\<And>xs. mset (se_hash_order sample_env xs) = mset xs" by (simp add: sample_env_def)
  moreover have "fm_entity ?feed = [sample_cancelled] @ sample_cancelled # []" by (simp add: sample_feed_def)
  moreover have "pid_trip_records (se_lib sample_env) (?feed\<lparr>fm_entity := []\<rparr>) = []" by (simp add: pid_trip_records_def)
  then have "record_identity ` set (pid_trip_records (se_lib sample_env) (?feed\<lparr>fm_entity := [sample_cancelled]\<rparr>)) \<inter>
      record_identity ` set (pid_trip_records (se_lib sample_env) (?feed\<lparr>fm_entity := []\<rparr>)) = {}" by simp
  moreover have "fe_trip_update sample_cancelled = Some sample_trip_update" "tu_trip sample_trip_update = Some sample_trip"
    "td_schedule_relationship sample_trip = Some 3" "td_trip_id sample_trip = Some ''t''"
    by (simp_all add: sample_cancelled_def sample_trip_update_def sample_trip_def)
  moreover have "Option.bind (td_start_date sample_trip) (wl_parse_ymd (se_lib sample_env)) = Some (jb_service_date ?s)"
    by (simp add: sample_trip_def sample_env_def sample_subscription_def)
  moreover have "?s \<in> set (active_subscriptions (se_now sample_env) [''pid_gtfs:'' @ ''t''] (wd_push sample_db))" by code_simp
  ultimately have "(jb_device_id ?s, jb_id ?s @ '':trip_cancelled'') \<in> delivery_key ` set (pq_deliveries (wd_push (snd sample_updates_run)))"
    by (rule cancellations_reach_the_queue [OF _ run])
  then show ?thesis by (simp add: sample_subscription_def)
qed

end
