(* ===== verification/Schedule_Store.thy ===== *)
theory Schedule_Store
  imports Gtfs_Import Stop_Search Journey_Ranking
begin

text \<open>
  The tables of the timetable as \<^verbatim>\<open>services/data-pipeline/src/main.rs\<close> writes them and \<^verbatim>\<open>services/api/src/lib.rs\<close> reads them: the
  codes of enumerations, the rows that a data set becomes, the insert-or-update statements and the batches they come
  in. A table is the list of its rows by primary key.
\<close>

section \<open>Codes\<close>

definition mode_to_db :: "transport_mode \<Rightarrow> string" where
  "mode_to_db m = (case m of Train \<Rightarrow> ''train'' | Tram \<Rightarrow> ''tram'' | Bus \<Rightarrow> ''bus'' | Metro \<Rightarrow> ''metro'' | Trolleybus \<Rightarrow> ''trolleybus''
     | Ferry \<Rightarrow> ''ferry'' | CableCar \<Rightarrow> ''cable_car'' | UnknownMode \<Rightarrow> ''unknown'')"

definition stop_location_type_to_db :: "stop_location_type \<Rightarrow> string" where
  "stop_location_type_to_db t = (case t of StopLocation \<Rightarrow> ''stop'' | StationLocation \<Rightarrow> ''station'' | EntranceExit \<Rightarrow> ''entrance_exit''
     | GenericNode \<Rightarrow> ''generic_node'' | BoardingArea \<Rightarrow> ''boarding_area'')"

definition accessibility_to_db :: "accessibility_status \<Rightarrow> string" where
  "accessibility_to_db a = (case a of UnknownAccess \<Rightarrow> ''unknown'' | Accessible \<Rightarrow> ''accessible'' | Inaccessible \<Rightarrow> ''inaccessible'')"

definition confidence_to_db :: "coordinate_confidence \<Rightarrow> string" where
  "confidence_to_db c = (case c of ExactConf \<Rightarrow> ''exact'' | HighConf \<Rightarrow> ''high'' | MediumConf \<Rightarrow> ''medium'' | LowConf \<Rightarrow> ''low''
     | UnresolvedConf \<Rightarrow> ''unresolved'')"

definition severity_to_db :: "validation_severity \<Rightarrow> string" where
  "severity_to_db s = (case s of InfoSeverity \<Rightarrow> ''info'' | WarningSeverity \<Rightarrow> ''warning'' | ErrorSeverity \<Rightarrow> ''error'')"

definition transport_mode_to_db :: "transport_mode \<Rightarrow> string option" where
  "transport_mode_to_db m = (case m of Train \<Rightarrow> Some ''train'' | Tram \<Rightarrow> Some ''tram'' | Bus \<Rightarrow> Some ''bus'' | Metro \<Rightarrow> Some ''metro''
     | Trolleybus \<Rightarrow> Some ''trolleybus'' | Ferry \<Rightarrow> Some ''ferry'' | CableCar \<Rightarrow> Some ''cable_car'' | UnknownMode \<Rightarrow> None)"

definition db_route_mode_to_model :: "string \<Rightarrow> i32 option \<Rightarrow> transport_mode" where
  "db_route_mode_to_model mode gtfs_route_type =
     (case gtfs_route_type of
        None \<Rightarrow> db_mode_to_model mode
      | Some n \<Rightarrow>
          if n = 0 \<or> n \<in> {900..999} then Tram
          else if n = 1 then Metro
          else if n = 2 \<or> n \<in> {100..199} \<or> n \<in> {400..499} then Train
          else if n = 3 \<or> n \<in> {200..299} \<or> n \<in> {700..799} then Bus
          else if n = 4 \<or> n \<in> {1000..1099} then Ferry
          else if n = 5 \<or> n \<in> {1300..1399} then CableCar
          else if n = 11 \<or> n \<in> {800..899} then Trolleybus
          else db_mode_to_model mode)"

definition db_confidence_to_model :: "string \<Rightarrow> coordinate_confidence" where
  "db_confidence_to_model c =
     (if c = ''exact'' then ExactConf else if c = ''high'' then HighConf else if c = ''medium'' then MediumConf
      else if c = ''low'' then LowConf else UnresolvedConf)"

definition db_stop_location_type_to_model :: "string \<Rightarrow> stop_location_type" where
  "db_stop_location_type_to_model t =
     (if t = ''station'' then StationLocation else if t = ''entrance_exit'' then EntranceExit else if t = ''generic_node'' then GenericNode
      else if t = ''boarding_area'' then BoardingArea else StopLocation)"

definition db_accessibility_to_model :: "string \<Rightarrow> accessibility_status" where
  "db_accessibility_to_model a = (if a = ''accessible'' then Accessible else if a = ''inaccessible'' then Inaccessible else UnknownAccess)"

lemma codes_read_back [simp]:
  "db_mode_to_model (mode_to_db m) = m"
  "db_stop_location_type_to_model (stop_location_type_to_db t) = t"
  "db_accessibility_to_model (accessibility_to_db a) = a"
  "db_confidence_to_model (confidence_to_db c) = c"
proof -
  show "db_mode_to_model (mode_to_db m) = m" by (cases m) (simp_all add: mode_to_db_def db_mode_to_model_def)
  show "db_stop_location_type_to_model (stop_location_type_to_db t) = t"
    by (cases t) (simp_all add: stop_location_type_to_db_def db_stop_location_type_to_model_def)
  show "db_accessibility_to_model (accessibility_to_db a) = a" by (cases a) (simp_all add: accessibility_to_db_def db_accessibility_to_model_def)
  show "db_confidence_to_model (confidence_to_db c) = c" by (cases c) (simp_all add: confidence_to_db_def db_confidence_to_model_def)
qed

text \<open>The API and the importer read a route type alike, so a route keeps its mode.\<close>

lemma route_mode_read_back: "db_route_mode_to_model (mode_to_db (map_gtfs_route_type t)) t = map_gtfs_route_type t"
  by (cases t) (simp_all add: db_route_mode_to_model_def map_gtfs_route_type_def)

definition scoped_id :: "string \<Rightarrow> string \<Rightarrow> string" where
  "scoped_id feed_id source_id = feed_id @ '':'' @ source_id"

lemma scoped_id_inject [simp]: "scoped_id feed i = scoped_id feed j \<longleftrightarrow> i = j"
  by (simp add: scoped_id_def)

definition czech_city_importance :: "(ustring \<Rightarrow> ustring) \<Rightarrow> ustring \<Rightarrow> i32" where
  "czech_city_importance lower name =
     (let n = normalize_czech_name lower name
      in if n = ascii ''praha'' then 100 else if n = ascii ''brno'' then 90 else if n = ascii ''ostrava'' then 85
         else if n = ascii ''plzen'' then 80 else if n = ascii ''liberec'' \<or> n = ascii ''olomouc'' then 75
         else if n = ascii ''ceske budejovice'' \<or> n = ascii ''hradec kralove'' \<or> n = ascii ''pardubice'' then 70 else 0)"

section \<open>Rows\<close>

record db_agency =
  da_run :: uuid
  da_feed :: string
  da_source_id :: string
  da_name :: string
  da_url :: "string option"
  da_timezone :: "string option"

record db_stop =
  ds_run :: uuid
  ds_feed :: string
  ds_name :: ustring
  ds_normalized_name :: ustring
  ds_municipality :: "ustring option"
  ds_district :: "ustring option"
  ds_region :: "ustring option"
  ds_lat :: "f64 option"
  ds_lon :: "f64 option"
  ds_confidence :: string
  ds_coordinate_source :: "string option"
  ds_stop_area_id :: "string option"
  ds_platform_code :: "ustring option"
  ds_location_type :: string
  ds_parent_station_id :: "string option"
  ds_wheelchair_boarding :: string
  ds_modes :: "string list"
  ds_priority :: i32
  ds_is_active :: bool
  ds_city_id :: "string option"
  ds_station_id :: "string option"
  ds_complex_id :: "string option"
  ds_has_station_layout :: bool
  ds_station_layout_version :: "string option"

record db_source_id =
  dx_stop_id :: string
  dx_run :: uuid
  dx_priority :: i32
  dx_confidence :: string

record db_route =
  dr_run :: uuid
  dr_feed :: string
  dr_source_id :: string
  dr_agency_id :: "string option"
  dr_short_name :: "string option"
  dr_long_name :: "string option"
  dr_mode :: string
  dr_gtfs_route_type :: "i32 option"
  dr_color :: "string option"
  dr_text_color :: "string option"
  dr_priority :: i32

record db_trip =
  dt_run :: uuid
  dt_feed :: string
  dt_source_id :: string
  dt_route_id :: string
  dt_service_id :: string
  dt_headsign :: "string option"
  dt_direction_id :: "int option"
  dt_shape_id :: "string option"
  dt_priority :: i32

record db_shape_point =
  dp_lat :: f64
  dp_lon :: f64
  dp_distance :: "f64 option"
  dp_run :: uuid
  dp_feed :: string

record db_stop_time =
  dc_stop_id :: string
  dc_arrival_time :: i32
  dc_departure_time :: i32
  dc_pickup_type :: "int option"
  dc_drop_off_type :: "int option"
  dc_timepoint :: "bool option"
  dc_stop_headsign :: "string option"
  dc_platform :: "string option"
  dc_raw_notes :: "string option"
  dc_run :: uuid
  dc_feed :: string
  dc_priority :: i32

record db_transfer =
  dw_seconds :: i32
  dw_run :: uuid
  dw_feed :: string
  dw_source :: string

record db_calendar =
  dk_days :: calendar
  dk_run :: uuid
  dk_feed :: string

record db_calendar_date =
  de_exception_type :: int
  de_run :: uuid
  de_feed :: string

record db_issue =
  di_run :: uuid
  di_feed :: string
  di_severity :: string
  di_issue :: validation_issue

record import_run =
  rn_source :: string
  rn_status :: string
  rn_started_at :: date_time
  rn_finished_at :: "date_time option"
  rn_summary :: json

text \<open>
  \<open>sd_subscribed\<close> are the trips that rows of \<open>journey_subscriptions\<close> refer to, \<open>sd_boarded\<close> the stops that
  rows of \<open>journey_subscriptions\<close> and \<open>run_calls\<close> refer to, \<open>sd_matched\<close> the stops of \<open>manual_stop_matches\<close>.
\<close>

record schedule_db =
  sd_runs :: "(uuid \<times> import_run) list"
  sd_agencies :: "(string \<times> db_agency) list"
  sd_stops :: "(string \<times> db_stop) list"
  sd_source_ids :: "((string \<times> string) \<times> db_source_id) list"
  sd_routes :: "(string \<times> db_route) list"
  sd_trips :: "(string \<times> db_trip) list"
  sd_shapes :: "((string \<times> i32) \<times> db_shape_point) list"
  sd_stop_times :: "((string \<times> i32) \<times> db_stop_time) list"
  sd_transfers :: "((string \<times> string) \<times> db_transfer) list"
  sd_calendars :: "(string \<times> db_calendar) list"
  sd_calendar_dates :: "((string \<times> naive_date) \<times> db_calendar_date) list"
  sd_issues :: "db_issue list"
  sd_seen :: "(uuid \<times> string \<times> string \<times> i32) list"
  sd_enabled :: "string list"
  sd_subscribed :: "string list"
  sd_boarded :: "string list"
  sd_matched :: "string list"

section \<open>Statements\<close>

text \<open>
  A run reads and changes the tables and may fail. \<open>faults\<close> tells for the i-th statement of a kind why it cannot run: no space
  is left, or the database reports an error. What ran before stays, since the import is not one transaction.
\<close>

type_synonym faults = "string \<Rightarrow> nat \<Rightarrow> string option"

definition bind_run :: "('d \<Rightarrow> (string + 'a) \<times> 'd) \<Rightarrow> ('a \<Rightarrow> 'd \<Rightarrow> (string + 'b) \<times> 'd) \<Rightarrow> 'd \<Rightarrow> (string + 'b) \<times> 'd" where
  "bind_run m f d = (case m d of (Inl e, d) \<Rightarrow> (Inl e, d) | (Inr x, d) \<Rightarrow> f x d)"

definition return_run :: "'a \<Rightarrow> 'd \<Rightarrow> (string + 'a) \<times> 'd" where
  "return_run x d = (Inr x, d)"

definition execute :: "faults \<Rightarrow> string \<Rightarrow> nat \<Rightarrow> ('d \<Rightarrow> 'd) \<Rightarrow> 'd \<Rightarrow> (string + unit) \<times> 'd" where
  "execute faults name i f d = (case faults name i of Some e \<Rightarrow> (Inl e, d) | None \<Rightarrow> (Inr (), f d))"

fun each_run :: "(nat \<Rightarrow> 'a \<Rightarrow> 'd \<Rightarrow> (string + unit) \<times> 'd) \<Rightarrow> nat \<Rightarrow> 'a list \<Rightarrow> 'd \<Rightarrow> (string + unit) \<times> 'd" where
  "each_run f i [] = return_run ()"
| "each_run f i (x # xs) = bind_run (f i x) (\<lambda>_. each_run f (Suc i) xs)"

lemma bind_run_Inr: "bind_run m f d = (Inr y, d') \<longleftrightarrow> (\<exists>x d1. m d = (Inr x, d1) \<and> f x d1 = (Inr y, d'))"
  by (cases "m d"; cases "fst (m d)") (auto simp: bind_run_def)

lemma return_run_Inr [simp]: "return_run x d = (Inr y, d') \<longleftrightarrow> x = y \<and> d = d'"
  by (auto simp: return_run_def)

lemma execute_Inr: "execute faults name i f d = (Inr u, d') \<longleftrightarrow> faults name i = None \<and> d' = f d"
  by (auto simp: execute_def split: option.splits)

lemma each_run_Inr:
  assumes "each_run f i xs d = (Inr u, d')" and "\<And>i x d u d'. f i x d = (Inr u, d') \<Longrightarrow> d' = g x d"
  shows "d' = foldl (\<lambda>d x. g x d) d xs"
  using assms(1) by (induction xs arbitrary: i d) (auto simp: bind_run_Inr dest!: assms(2))

text \<open>\<open>INSERT ... ON CONFLICT DO UPDATE\<close>; \<open>merge\<close> gives the row that an existing row becomes.\<close>

definition upsert :: "('r \<Rightarrow> 'r \<Rightarrow> 'r) \<Rightarrow> 'k \<Rightarrow> 'r \<Rightarrow> ('k \<times> 'r) list \<Rightarrow> ('k \<times> 'r) list" where
  "upsert merge k r t = AList.update k (case map_of t k of None \<Rightarrow> r | Some old \<Rightarrow> merge old r) t"

definition upsert_batch :: "('r \<Rightarrow> 'r \<Rightarrow> 'r) \<Rightarrow> ('k \<times> 'r) list \<Rightarrow> ('k \<times> 'r) list \<Rightarrow> ('k \<times> 'r) list" where
  "upsert_batch merge batch t = foldl (\<lambda>t (k, r). upsert merge k r t) t batch"

text \<open>
  One statement for a batch of rows: it must not meet a key twice. The batch loops collect rows and flush when the batch is
  full and once more at the end; a batch of column vectors is the list of its rows.
\<close>

definition flush_batch ::
  "faults \<Rightarrow> string \<Rightarrow> (('k \<times> 'r) list \<Rightarrow> 'd \<Rightarrow> 'd) \<Rightarrow> nat \<Rightarrow> ('k \<times> 'r) list \<Rightarrow> 'd \<Rightarrow> (string + nat) \<times> 'd" where
  "flush_batch faults name write i batch d =
     (if batch = [] then (Inr 0, d)
      else (case faults name i of
              Some e \<Rightarrow> (Inl e, d)
            | None \<Rightarrow> if distinct (map fst batch) then (Inr (length batch), write batch d)
                     else (Inl ''ON CONFLICT DO UPDATE command cannot affect row a second time'', d)))"

fun batch_loop ::
  "nat \<Rightarrow> (nat \<Rightarrow> 'x list \<Rightarrow> 'd \<Rightarrow> (string + nat) \<times> 'd) \<Rightarrow> nat \<Rightarrow> 'x list \<Rightarrow> nat \<Rightarrow> 'x list \<Rightarrow> 'd \<Rightarrow> (string + nat) \<times> 'd" where
  "batch_loop capacity flush i batch inserted [] = bind_run (flush i batch) (\<lambda>n. return_run (inserted + n))"
| "batch_loop capacity flush i batch inserted (row # rows) =
     (if capacity \<le> length (batch @ [row])
      then bind_run (flush i (batch @ [row])) (\<lambda>n. batch_loop capacity flush (Suc i) [] (inserted + n) rows)
      else batch_loop capacity flush i (batch @ [row]) inserted rows)"

section \<open>Reading\<close>

definition pid_public_stop_name :: "(ustring \<Rightarrow> ustring) \<Rightarrow> string \<Rightarrow> ustring \<Rightarrow> ustring option \<Rightarrow> ustring" where
  "pid_public_stop_name lower stop_id source_name platform_code =
     (if pid_stop_complex_id stop_id = Some ''pid_gtfs:U237'' \<and> normalize_search_text lower source_name = ascii ''palackeho namesti'' \<and>
         platform_code \<in> {Some (ascii ''I''), Some (ascii ''J'')}
      then ascii ''Palack'' @ [0xE9] @ ascii ''ho n'' @ [0xE1] @ ascii ''m'' @ [0x11B] @ ascii ''st'' @ [0xED] @ ascii '' (n'' @ [0xE1] @
        ascii ''b'' @ [0x159] @ ascii ''e'' @ [0x17E] @ [0xED] @ ascii '')''
      else source_name)"

definition stop_from_row :: "(ustring \<Rightarrow> ustring) \<Rightarrow> string \<Rightarrow> db_stop \<Rightarrow> stop" where
  "stop_from_row lower stop_id row =
     (let name = pid_public_stop_name lower stop_id (ds_name row) (ds_platform_code row)
      in \<lparr>st_id = stop_id,
          st_source_ids = [\<lparr>sr_feed_id = ds_feed row, sr_original_id = stop_id, sr_import_run_id = None, sr_priority = ds_priority row,
            sr_confidence = None, sr_suppressed_as_duplicate = False\<rparr>],
          st_name = name, st_normalized_name = normalize_czech_name lower name, st_municipality = ds_municipality row,
          st_district = ds_district row, st_region = ds_region row, st_lat = ds_lat row, st_lon = ds_lon row,
          st_geom = (case (ds_lat row, ds_lon row) of (Some lat, Some lon) \<Rightarrow> Some (lon, lat) | _ \<Rightarrow> None),
          st_coordinate_confidence = db_confidence_to_model (ds_confidence row), st_coordinate_source = ds_coordinate_source row,
          st_stop_area_id = ds_stop_area_id row, st_platform_code = ds_platform_code row,
          st_location_type = db_stop_location_type_to_model (ds_location_type row), st_parent_station_id = ds_parent_station_id row,
          st_station_id = ds_station_id row, st_complex_id = ds_complex_id row, st_has_station_layout = ds_has_station_layout row,
          st_station_layout_version = ds_station_layout_version row,
          st_wheelchair_boarding = db_accessibility_to_model (ds_wheelchair_boarding row),
          st_modes = map db_mode_to_model (ds_modes row), st_is_active = ds_is_active row\<rparr>)"

end
