(* ===== verification/Schedule_Export.thy ===== *)
theory Schedule_Export
  imports Schedule_Store
begin

text \<open>
  The export of a data set to the database: \<open>export_dataset_to_postgres\<close>, the removal of what the data set no longer has, and the
  decision to skip an import. The SQL statements are the functions on tables that their text describes, with
  the foreign keys that a deletion can break.
\<close>

record export_env =
  xe_faults :: faults
  xe_run :: uuid
  xe_feed :: string
  xe_source :: string
  xe_priority :: i32
  xe_complete :: bool
  xe_sha256 :: "string option"
  xe_details :: "(string \<times> json) list"
  xe_now :: date_time
  xe_runs_to_keep :: nat
  xe_lower :: "ustring \<Rightarrow> ustring"
  xe_city :: "ustring \<Rightarrow> ustring \<Rightarrow> f64 option \<Rightarrow> f64 option \<Rightarrow> string option"
  xe_show_date :: "naive_date \<Rightarrow> string"
  xe_parse_date :: "string \<Rightarrow> naive_date option"

text \<open>The cast \<open>as i32\<close> of a \<open>u32\<close>.\<close>

definition as_i32 :: "u32 \<Rightarrow> i32" where
  "as_i32 n = sint n"

section \<open>Entities\<close>

definition export_agency :: "export_env \<Rightarrow> nat \<Rightarrow> agency \<Rightarrow> schedule_db \<Rightarrow> (string + unit) \<times> schedule_db" where
  "export_agency env i a = execute (xe_faults env) ''agencies'' i (\<lambda>d. d\<lparr>sd_agencies :=
     upsert (\<lambda>old r. r) (scoped_id (xe_feed env) (ag_source_id a))
       \<lparr>da_run = xe_run env, da_feed = xe_feed env, da_source_id = ag_source_id a, da_name = ag_name a, da_url = ag_url a,
        da_timezone = ag_timezone a\<rparr> (sd_agencies d)\<rparr>)"

definition stop_to_row :: "export_env \<Rightarrow> stop \<Rightarrow> db_stop" where
  "stop_to_row env s =
     (let municipality = (case st_municipality s of Some m \<Rightarrow> normalize_czech_name (xe_lower env) m | None \<Rightarrow> [])
      in \<lparr>ds_run = xe_run env, ds_feed = xe_feed env, ds_name = st_name s, ds_normalized_name = st_normalized_name s,
          ds_municipality = st_municipality s, ds_district = st_district s, ds_region = st_region s, ds_lat = st_lat s, ds_lon = st_lon s,
          ds_confidence = confidence_to_db (st_coordinate_confidence s), ds_coordinate_source = st_coordinate_source s,
          ds_stop_area_id = st_stop_area_id s, ds_platform_code = st_platform_code s,
          ds_location_type = stop_location_type_to_db (st_location_type s),
          ds_parent_station_id = map_option (scoped_id (xe_feed env)) (st_parent_station_id s),
          ds_wheelchair_boarding = accessibility_to_db (st_wheelchair_boarding s), ds_modes = map mode_to_db (st_modes s),
          ds_priority = xe_priority env, ds_is_active = st_is_active s,
          ds_city_id = xe_city env municipality (st_normalized_name s) (st_lat s) (st_lon s),
          ds_station_id = None, ds_complex_id = None, ds_has_station_layout = False, ds_station_layout_version = None\<rparr>)"

text \<open>The columns that \<open>DO UPDATE SET\<close> does not name keep their values.\<close>

definition merge_stop :: "db_stop \<Rightarrow> db_stop \<Rightarrow> db_stop" where
  "merge_stop old r = r\<lparr>ds_municipality := ds_municipality old, ds_district := ds_district old, ds_region := ds_region old,
     ds_stop_area_id := ds_stop_area_id old, ds_station_id := ds_station_id old, ds_complex_id := ds_complex_id old,
     ds_has_station_layout := ds_has_station_layout old, ds_station_layout_version := ds_station_layout_version old\<rparr>"

definition export_stop :: "export_env \<Rightarrow> nat \<Rightarrow> stop \<Rightarrow> schedule_db \<Rightarrow> (string + unit) \<times> schedule_db" where
  "export_stop env i s =
     (let stop_id = scoped_id (xe_feed env) (st_id s)
      in bind_run (execute (xe_faults env) ''stops'' i (\<lambda>d. d\<lparr>sd_stops := upsert merge_stop stop_id (stop_to_row env s) (sd_stops d)\<rparr>))
           (\<lambda>_. execute (xe_faults env) ''stop_source_ids'' i (\<lambda>d. d\<lparr>sd_source_ids := upsert (\<lambda>old r. r) (xe_feed env, st_id s)
              \<lparr>dx_stop_id = stop_id, dx_run = xe_run env, dx_priority = xe_priority env,
               dx_confidence = confidence_to_db (st_coordinate_confidence s)\<rparr> (sd_source_ids d)\<rparr>)))"

definition route_to_row :: "export_env \<Rightarrow> string set \<Rightarrow> route \<Rightarrow> db_route" where
  "route_to_row env agencies r = \<lparr>dr_run = xe_run env, dr_feed = xe_feed env, dr_source_id = ro_source_id r,
     dr_agency_id = (case ro_agency_id r of Some a \<Rightarrow> if a \<in> agencies then Some (scoped_id (xe_feed env) a) else None | None \<Rightarrow> None),
     dr_short_name = ro_short_name r, dr_long_name = ro_long_name r, dr_mode = mode_to_db (ro_mode r),
     dr_gtfs_route_type = ro_gtfs_route_type r, dr_color = ro_color r, dr_text_color = ro_text_color r, dr_priority = ro_source_priority r\<rparr>"

definition export_route :: "export_env \<Rightarrow> string set \<Rightarrow> nat \<Rightarrow> route \<Rightarrow> schedule_db \<Rightarrow> (string + unit) \<times> schedule_db" where
  "export_route env agencies i r = execute (xe_faults env) ''routes'' i (\<lambda>d. d\<lparr>sd_routes :=
     upsert (\<lambda>old r. r\<lparr>dr_source_id := dr_source_id old\<rparr>) (scoped_id (xe_feed env) (ro_id r)) (route_to_row env agencies r) (sd_routes d)\<rparr>)"

section \<open>Trips, shapes and stop times\<close>

definition trip_to_row :: "export_env \<Rightarrow> string set \<Rightarrow> gtfs_trip \<Rightarrow> (string \<times> db_trip) option" where
  "trip_to_row env routes t =
     (if gt_route_id t \<notin> routes then None
      else Some (scoped_id (xe_feed env) (gt_trip_id t),
        \<lparr>dt_run = xe_run env, dt_feed = xe_feed env, dt_source_id = gt_trip_id t, dt_route_id = scoped_id (xe_feed env) (gt_route_id t),
         dt_service_id = scoped_id (xe_feed env) (gt_service_id t), dt_headsign = gt_trip_headsign t, dt_direction_id = gt_direction_id t,
         dt_shape_id = map_option (scoped_id (xe_feed env)) (gt_shape_id t), dt_priority = xe_priority env\<rparr>))"

definition merge_trip :: "db_trip \<Rightarrow> db_trip \<Rightarrow> db_trip" where
  "merge_trip old r = r\<lparr>dt_source_id := dt_source_id old\<rparr>"

definition shape_to_row :: "export_env \<Rightarrow> gtfs_shape_point \<Rightarrow> (string \<times> i32) \<times> db_shape_point" where
  "shape_to_row env p = ((scoped_id (xe_feed env) (gs_shape_id p), as_i32 (gs_sequence p)),
     \<lparr>dp_lat = gs_lat p, dp_lon = gs_lon p, dp_distance = gs_distance_traveled p, dp_run = xe_run env, dp_feed = xe_feed env\<rparr>)"

text \<open>A point or a stop time that is as it was is not rewritten: it keeps its older run.\<close>

definition merge_shape :: "db_shape_point \<Rightarrow> db_shape_point \<Rightarrow> db_shape_point" where
  "merge_shape old r = (if old\<lparr>dp_run := dp_run r\<rparr> = r then old else r)"

definition stop_time_to_row :: "export_env \<Rightarrow> string set \<Rightarrow> string set \<Rightarrow> stop_time \<Rightarrow> ((string \<times> i32) \<times> db_stop_time) option" where
  "stop_time_to_row env trips stops t =
     (if sti_trip_id t \<notin> trips \<or> sti_stop_id t \<notin> stops then None
      else Some ((scoped_id (xe_feed env) (sti_trip_id t), as_i32 (sti_stop_sequence t)),
        \<lparr>dc_stop_id = scoped_id (xe_feed env) (sti_stop_id t), dc_arrival_time = as_i32 (sti_arrival_time t),
         dc_departure_time = as_i32 (sti_departure_time t), dc_pickup_type = sti_pickup_type t, dc_drop_off_type = sti_drop_off_type t,
         dc_timepoint = sti_timepoint t, dc_stop_headsign = sti_stop_headsign t, dc_platform = sti_platform t, dc_raw_notes = sti_raw_notes t,
         dc_run = xe_run env, dc_feed = xe_feed env, dc_priority = xe_priority env\<rparr>))"

definition merge_stop_time :: "db_stop_time \<Rightarrow> db_stop_time \<Rightarrow> db_stop_time" where
  "merge_stop_time old r = (if old\<lparr>dc_run := dc_run r\<rparr> = r then old else r)"

text \<open>\<open>ON CONFLICT DO NOTHING\<close> of the keys that this run has seen.\<close>

definition note_seen :: "(uuid \<times> string \<times> string \<times> i32) list \<Rightarrow> schedule_db \<Rightarrow> schedule_db" where
  "note_seen keys d = d\<lparr>sd_seen := fold List.insert keys (sd_seen d)\<rparr>"

definition write_trips :: "export_env \<Rightarrow> (string \<times> db_trip) list \<Rightarrow> schedule_db \<Rightarrow> schedule_db" where
  "write_trips env batch d =
     note_seen (map (\<lambda>(k, _). (xe_run env, ''trip'', k, 0)) batch) (d\<lparr>sd_trips := upsert_batch merge_trip batch (sd_trips d)\<rparr>)"

definition write_shapes :: "export_env \<Rightarrow> ((string \<times> i32) \<times> db_shape_point) list \<Rightarrow> schedule_db \<Rightarrow> schedule_db" where
  "write_shapes env batch d =
     note_seen (map (\<lambda>((k, n), _). (xe_run env, ''shape'', k, n)) batch) (d\<lparr>sd_shapes := upsert_batch merge_shape batch (sd_shapes d)\<rparr>)"

definition write_stop_times :: "export_env \<Rightarrow> ((string \<times> i32) \<times> db_stop_time) list \<Rightarrow> schedule_db \<Rightarrow> schedule_db" where
  "write_stop_times env batch d =
     note_seen (map (\<lambda>((k, n), _). (xe_run env, ''stop_time'', k, n)) batch)
       (d\<lparr>sd_stop_times := upsert_batch merge_stop_time batch (sd_stop_times d)\<rparr>)"

definition flush_trip_batch :: "export_env \<Rightarrow> nat \<Rightarrow> (string \<times> db_trip) list \<Rightarrow> schedule_db \<Rightarrow> (string + nat) \<times> schedule_db" where
  "flush_trip_batch env = flush_batch (xe_faults env) ''trips'' (write_trips env)"

definition flush_shape_batch :: "export_env \<Rightarrow> nat \<Rightarrow> ((string \<times> i32) \<times> db_shape_point) list \<Rightarrow> schedule_db \<Rightarrow> (string + nat) \<times> schedule_db" where
  "flush_shape_batch env = flush_batch (xe_faults env) ''shapes'' (write_shapes env)"

definition flush_stop_time_batch :: "export_env \<Rightarrow> nat \<Rightarrow> ((string \<times> i32) \<times> db_stop_time) list \<Rightarrow> schedule_db \<Rightarrow> (string + nat) \<times> schedule_db" where
  "flush_stop_time_batch env = flush_batch (xe_faults env) ''stop_times'' (write_stop_times env)"

section \<open>Transfers and calendars\<close>

definition is_trip_specific :: "gtfs_transfer \<Rightarrow> bool" where
  "is_trip_specific t \<longleftrightarrow> gx_from_trip_id t \<noteq> None \<or> gx_to_trip_id t \<noteq> None"

definition transfer_to_row :: "export_env \<Rightarrow> string set \<Rightarrow> gtfs_transfer \<Rightarrow> ((string \<times> string) \<times> db_transfer) option" where
  "transfer_to_row env known_stops t =
     (if is_trip_specific t \<or> gx_transfer_type t \<noteq> 2 \<or> gx_from_stop_id t \<notin> known_stops \<or> gx_to_stop_id t \<notin> known_stops then None
      else map_option (\<lambda>seconds. ((scoped_id (xe_feed env) (gx_from_stop_id t), scoped_id (xe_feed env) (gx_to_stop_id t)),
             \<lparr>dw_seconds = as_i32 seconds, dw_run = xe_run env, dw_feed = xe_feed env, dw_source = xe_feed env @ ''_transfer''\<rparr>))
             (gx_min_transfer_time t))"

fun transfer_chunks :: "export_env \<Rightarrow> nat \<Rightarrow> ((string \<times> string) \<times> db_transfer) list list \<Rightarrow> nat \<Rightarrow> schedule_db \<Rightarrow> (string + nat) \<times> schedule_db" where
  "transfer_chunks env i [] inserted = return_run inserted"
| "transfer_chunks env i (chunk # chunks) inserted =
     bind_run (flush_batch (xe_faults env) ''transfers'' (\<lambda>batch d. d\<lparr>sd_transfers := upsert_batch (\<lambda>old r. r) batch (sd_transfers d)\<rparr>) i chunk)
       (\<lambda>n. transfer_chunks env (Suc i) chunks (inserted + n))"

definition export_gtfs_transfers :: "export_env \<Rightarrow> gtfs_dataset \<Rightarrow> string set \<Rightarrow> schedule_db \<Rightarrow> (string + (nat \<times> nat)) \<times> schedule_db" where
  "export_gtfs_transfers env ds known_stops =
     bind_run (transfer_chunks env 0 (chunks_of 10000 (List.map_filter (transfer_to_row env known_stops) (gd_transfers ds))) 0) (\<lambda>inserted.
     bind_run (if xe_complete env
               then execute (xe_faults env) ''transfers_prune'' 0 (\<lambda>d. d\<lparr>sd_transfers :=
                      filter (\<lambda>(_, r). \<not> (dw_feed r = xe_feed env \<and> dw_run r \<noteq> xe_run env)) (sd_transfers d)\<rparr>)
               else return_run ()) (\<lambda>_.
     return_run (inserted, length (filter is_trip_specific (gd_transfers ds)))))"

definition export_calendar :: "export_env \<Rightarrow> nat \<Rightarrow> calendar \<Rightarrow> schedule_db \<Rightarrow> (string + unit) \<times> schedule_db" where
  "export_calendar env i c = execute (xe_faults env) ''calendars'' i (\<lambda>d. d\<lparr>sd_calendars := upsert (\<lambda>old r. r)
     (scoped_id (xe_feed env) (cal_service_id c)) \<lparr>dk_days = c, dk_run = xe_run env, dk_feed = xe_feed env\<rparr> (sd_calendars d)\<rparr>)"

definition export_calendar_date :: "export_env \<Rightarrow> nat \<Rightarrow> calendar_date \<Rightarrow> schedule_db \<Rightarrow> (string + unit) \<times> schedule_db" where
  "export_calendar_date env i c = execute (xe_faults env) ''calendar_dates'' i (\<lambda>d. d\<lparr>sd_calendar_dates := upsert (\<lambda>old r. r)
     (scoped_id (xe_feed env) (cd_service_id c), cd_date c)
     \<lparr>de_exception_type = cd_exception_type c, de_run = xe_run env, de_feed = xe_feed env\<rparr> (sd_calendar_dates d)\<rparr>)"

definition export_service_calendars :: "export_env \<Rightarrow> gtfs_dataset \<Rightarrow> schedule_db \<Rightarrow> (string + (nat \<times> nat)) \<times> schedule_db" where
  "export_service_calendars env ds =
     bind_run (each_run (export_calendar env) 0 (gd_calendars ds)) (\<lambda>_.
     bind_run (each_run (export_calendar_date env) 0 (gd_calendar_dates ds)) (\<lambda>_.
     return_run (length (gd_calendars ds), length (gd_calendar_dates ds))))"

definition export_issue :: "export_env \<Rightarrow> nat \<Rightarrow> validation_issue \<Rightarrow> schedule_db \<Rightarrow> (string + unit) \<times> schedule_db" where
  "export_issue env i issue = execute (xe_faults env) ''validation_issues'' i (\<lambda>d. d\<lparr>sd_issues := sd_issues d @
     [\<lparr>di_run = xe_run env, di_feed = xe_feed env, di_severity = severity_to_db (vi_severity issue), di_issue = issue\<rparr>]\<rparr>)"

end
