(* ===== verification/Schedule_Import.thy ===== *)
theory Schedule_Import
  imports Schedule_Export Ticketing_Model
begin

text \<open>
  The import as a whole: what a complete import removes, which runs are kept, when an import is skipped, and the order of the
  steps of \<open>export_dataset_to_postgres\<close>, \<open>import_pid_gtfs\<close> and \<open>import_ids_jmk_gtfs\<close>.
\<close>

section \<open>Rows that a complete import removes\<close>

definition seen :: "export_env \<Rightarrow> schedule_db \<Rightarrow> string \<Rightarrow> string \<Rightarrow> i32 \<Rightarrow> bool" where
  "seen env d kind k n \<longleftrightarrow> (xe_run env, kind, k, n) \<in> set (sd_seen d)"

text \<open>A deletion fails where a row that stays refers to a row that goes.\<close>

definition delete_checked ::
  "export_env \<Rightarrow> string \<Rightarrow> (schedule_db \<Rightarrow> bool) \<Rightarrow> (schedule_db \<Rightarrow> schedule_db) \<Rightarrow> schedule_db \<Rightarrow> (string + unit) \<times> schedule_db" where
  "delete_checked env name broken f d =
     (case xe_faults env name 0 of
        Some e \<Rightarrow> (Inl e, d)
      | None \<Rightarrow> if broken d then (Inl (''violates foreign key constraint: '' @ name), d) else (Inr (), f d))"

definition stale_stop_time :: "export_env \<Rightarrow> schedule_db \<Rightarrow> (string \<times> i32) \<times> db_stop_time \<Rightarrow> bool" where
  "stale_stop_time env d = (\<lambda>((k, n), r). dc_feed r = xe_feed env \<and> \<not> seen env d ''stop_time'' k n)"

definition stale_trip :: "export_env \<Rightarrow> schedule_db \<Rightarrow> string \<times> db_trip \<Rightarrow> bool" where
  "stale_trip env d = (\<lambda>(k, r). dt_feed r = xe_feed env \<and> \<not> seen env d ''trip'' k 0)"

definition stale_route :: "export_env \<Rightarrow> string \<times> db_route \<Rightarrow> bool" where
  "stale_route env = (\<lambda>(k, r). dr_feed r = xe_feed env \<and> dr_run r \<noteq> xe_run env)"

definition stale_shape :: "export_env \<Rightarrow> schedule_db \<Rightarrow> (string \<times> i32) \<times> db_shape_point \<Rightarrow> bool" where
  "stale_shape env d = (\<lambda>((k, n), r). dp_feed r = xe_feed env \<and> \<not> seen env d ''shape'' k n)"

text \<open>A stop without a call of this import is switched off, and deleted when nothing refers to it.\<close>

definition is_called :: "export_env \<Rightarrow> schedule_db \<Rightarrow> string \<Rightarrow> bool" where
  "is_called env d k = list_ex (\<lambda>((trip, n), r). dc_stop_id r = k \<and> dc_feed r = xe_feed env \<and> seen env d ''stop_time'' trip n) (sd_stop_times d)"

definition preserve_stop :: "export_env \<Rightarrow> schedule_db \<Rightarrow> string \<times> db_stop \<Rightarrow> string \<times> db_stop" where
  "preserve_stop env d = (\<lambda>(k, r).
     if ds_feed r = xe_feed env \<and> is_called env d k \<and> (ds_run r \<noteq> xe_run env \<or> \<not> ds_is_active r)
     then (k, r\<lparr>ds_run := xe_run env, ds_is_active := True\<rparr>) else (k, r))"

definition deactivate_stop :: "export_env \<Rightarrow> string \<times> db_stop \<Rightarrow> string \<times> db_stop" where
  "deactivate_stop env = (\<lambda>(k, r).
     if ds_feed r = xe_feed env \<and> ds_run r \<noteq> xe_run env \<and> ds_is_active r then (k, r\<lparr>ds_is_active := False\<rparr>) else (k, r))"

definition obsolete_stop :: "export_env \<Rightarrow> string \<times> db_stop \<Rightarrow> bool" where
  "obsolete_stop env = (\<lambda>(k, r). ds_feed r = xe_feed env \<and> ds_run r \<noteq> xe_run env \<and> \<not> ds_is_active r)"

definition obsolete_transfer :: "export_env \<Rightarrow> schedule_db \<Rightarrow> (string \<times> string) \<times> db_transfer \<Rightarrow> bool" where
  "obsolete_transfer env d = (\<lambda>((a, b), r). list_ex (\<lambda>s. fst s \<in> {a, b} \<and> obsolete_stop env s) (sd_stops d))"

definition removable_stop :: "export_env \<Rightarrow> schedule_db \<Rightarrow> string \<times> db_stop \<Rightarrow> bool" where
  "removable_stop env d s \<longleftrightarrow> obsolete_stop env s \<and>
     \<not> list_ex (\<lambda>(_, r). dc_stop_id r = fst s) (sd_stop_times d) \<and>
     \<not> list_ex (\<lambda>(_, r). dx_stop_id r = fst s) (sd_source_ids d) \<and>
     \<not> list_ex (\<lambda>((a, b), _). fst s \<in> {a, b}) (sd_transfers d) \<and> fst s \<notin> set (sd_matched d)"

definition removable_agency :: "export_env \<Rightarrow> schedule_db \<Rightarrow> string \<times> db_agency \<Rightarrow> bool" where
  "removable_agency env d = (\<lambda>(k, r). da_feed r = xe_feed env \<and> da_run r \<noteq> xe_run env \<and>
     \<not> list_ex (\<lambda>(_, x). dr_agency_id x = Some k) (sd_routes d))"

definition prune_stop_times :: "export_env \<Rightarrow> schedule_db \<Rightarrow> schedule_db" where
  "prune_stop_times env d = d\<lparr>sd_stop_times := filter (\<lambda>x. \<not> stale_stop_time env d x) (sd_stop_times d)\<rparr>"

definition prune_trips :: "export_env \<Rightarrow> schedule_db \<Rightarrow> schedule_db" where
  "prune_trips env d = d\<lparr>sd_trips := filter (\<lambda>x. \<not> stale_trip env d x) (sd_trips d)\<rparr>"

definition prune_routes :: "export_env \<Rightarrow> schedule_db \<Rightarrow> schedule_db" where
  "prune_routes env d = d\<lparr>sd_routes := filter (\<lambda>x. \<not> stale_route env x) (sd_routes d)\<rparr>"

definition prune_calendars :: "export_env \<Rightarrow> schedule_db \<Rightarrow> schedule_db" where
  "prune_calendars env d = d\<lparr>
     sd_calendar_dates := filter (\<lambda>(_, r). \<not> (de_feed r = xe_feed env \<and> de_run r \<noteq> xe_run env)) (sd_calendar_dates d),
     sd_calendars := filter (\<lambda>(_, r). \<not> (dk_feed r = xe_feed env \<and> dk_run r \<noteq> xe_run env)) (sd_calendars d)\<rparr>"

definition prune_shapes :: "export_env \<Rightarrow> schedule_db \<Rightarrow> schedule_db" where
  "prune_shapes env d = d\<lparr>sd_shapes := filter (\<lambda>x. \<not> stale_shape env d x) (sd_shapes d)\<rparr>"

definition prune_source_ids :: "export_env \<Rightarrow> schedule_db \<Rightarrow> schedule_db" where
  "prune_source_ids env d = d\<lparr>sd_source_ids := filter (\<lambda>((feed, _), r). \<not> (feed = xe_feed env \<and> dx_run r \<noteq> xe_run env)) (sd_source_ids d)\<rparr>"

definition retire_stops :: "export_env \<Rightarrow> schedule_db \<Rightarrow> schedule_db" where
  "retire_stops env d =
     (let d = d\<lparr>sd_stops := map (deactivate_stop env) (map (preserve_stop env d) (sd_stops d))\<rparr>
      in d\<lparr>sd_transfers := filter (\<lambda>x. \<not> obsolete_transfer env d x) (sd_transfers d)\<rparr>)"

definition delete_stops :: "export_env \<Rightarrow> schedule_db \<Rightarrow> schedule_db" where
  "delete_stops env d = d\<lparr>sd_stops := filter (\<lambda>x. \<not> removable_stop env d x) (sd_stops d)\<rparr>"

definition delete_agencies :: "export_env \<Rightarrow> schedule_db \<Rightarrow> schedule_db" where
  "delete_agencies env d = d\<lparr>sd_agencies := filter (\<lambda>x. \<not> removable_agency env d x) (sd_agencies d)\<rparr>"

definition prune_stale_feed_schedule_rows :: "export_env \<Rightarrow> schedule_db \<Rightarrow> (string + unit) \<times> schedule_db" where
  "prune_stale_feed_schedule_rows env =
     bind_run (delete_checked env ''prune_stop_times'' (\<lambda>_. False) (prune_stop_times env)) (\<lambda>_.
     bind_run (delete_checked env ''prune_trips'' (\<lambda>d. list_ex (\<lambda>x. stale_trip env d x \<and>
         (fst x \<in> set (sd_subscribed d) \<or> list_ex (\<lambda>((k, _), _). k = fst x) (sd_stop_times d))) (sd_trips d)) (prune_trips env)) (\<lambda>_.
     bind_run (delete_checked env ''prune_routes'' (\<lambda>d. list_ex (\<lambda>x. stale_route env x \<and>
         list_ex (\<lambda>(_, t). dt_route_id t = fst x) (sd_trips d)) (sd_routes d)) (prune_routes env)) (\<lambda>_.
     bind_run (delete_checked env ''prune_calendars'' (\<lambda>_. False) (prune_calendars env)) (\<lambda>_.
     bind_run (delete_checked env ''prune_shapes'' (\<lambda>_. False) (prune_shapes env)) (\<lambda>_.
     bind_run (delete_checked env ''prune_source_ids'' (\<lambda>_. False) (prune_source_ids env)) (\<lambda>_.
     bind_run (delete_checked env ''retire_stops'' (\<lambda>_. False) (retire_stops env)) (\<lambda>_.
     bind_run (delete_checked env ''delete_stops'' (\<lambda>d. list_ex (\<lambda>x. removable_stop env d x \<and> fst x \<in> set (sd_boarded d)) (sd_stops d))
         (delete_stops env)) (\<lambda>_.
     delete_checked env ''delete_agencies'' (\<lambda>_. False) (delete_agencies env)))))))))"

section \<open>Runs\<close>

text \<open>\<open>LIKE\<close> with a pattern that ends in the only percent sign; an underscore of the feed name matches any character.\<close>

definition like_prefix :: "string \<Rightarrow> string \<Rightarrow> bool" where
  "like_prefix p s \<longleftrightarrow> length p \<le> length s \<and> list_all2 (\<lambda>a c. a = CHR ''_'' \<or> a = c) p (take (length p) s)"

definition run_of_feed :: "string \<Rightarrow> import_run \<Rightarrow> bool" where
  "run_of_feed feed r \<longleftrightarrow> json_get (rn_summary r) ''feed_id'' = Some (JString feed) \<or> like_prefix (feed @ '':'') (rn_source r)"

text \<open>\<open>ORDER BY finished_at DESC NULLS LAST, started_at DESC\<close>.\<close>

definition run_order :: "uuid \<times> import_run \<Rightarrow> nat \<times> int \<times> int" where
  "run_order = (\<lambda>(_, r). case rn_finished_at r of None \<Rightarrow> (1, 0, - rn_started_at r) | Some t \<Rightarrow> (0, - t, - rn_started_at r))"

definition retained_runs :: "export_env \<Rightarrow> schedule_db \<Rightarrow> uuid list" where
  "retained_runs env d =
     (let of_feed = filter (\<lambda>(_, r). run_of_feed (xe_feed env) r) (sd_runs d)
      in map fst (take (max 1 (xe_runs_to_keep env)) (sort_key run_order (filter (\<lambda>(_, r). rn_status r = ''success'') of_feed))) @
         [xe_run env] @ map fst (filter (\<lambda>(_, r). rn_status r = ''running'') of_feed))"

definition run_in_use :: "schedule_db \<Rightarrow> uuid \<Rightarrow> bool" where
  "run_in_use d run \<longleftrightarrow>
     run \<in> set (map (da_run \<circ> snd) (sd_agencies d)) \<union> set (map (ds_run \<circ> snd) (sd_stops d)) \<union> set (map (dx_run \<circ> snd) (sd_source_ids d)) \<union>
       set (map (dr_run \<circ> snd) (sd_routes d)) \<union> set (map (dt_run \<circ> snd) (sd_trips d)) \<union> set (map (dc_run \<circ> snd) (sd_stop_times d)) \<union>
       set (map (dk_run \<circ> snd) (sd_calendars d)) \<union> set (map (de_run \<circ> snd) (sd_calendar_dates d)) \<union>
       set (map (dw_run \<circ> snd) (sd_transfers d)) \<union> set (map (dp_run \<circ> snd) (sd_shapes d)) \<union> set (map di_run (sd_issues d))"

definition prune_obsolete_feed_import_data :: "export_env \<Rightarrow> schedule_db \<Rightarrow> schedule_db" where
  "prune_obsolete_feed_import_data env d =
     (let retained = set (retained_runs env d);
          d = d\<lparr>sd_issues := filter (\<lambda>i. \<not> (di_feed i = xe_feed env \<and> di_run i \<notin> retained)) (sd_issues d)\<rparr>
      in d\<lparr>sd_runs := filter (\<lambda>(i, r). \<not> (run_of_feed (xe_feed env) r \<and> rn_status r \<noteq> ''running'' \<and> i \<notin> retained \<and> \<not> run_in_use d i))
           (sd_runs d)\<rparr>)"

section \<open>The export\<close>

definition gtfs_service_horizon :: "gtfs_dataset \<Rightarrow> naive_date option" where
  "gtfs_service_horizon ds =
     (let dates = map cal_end_date (gd_calendars ds) @ map cd_date (gd_calendar_dates ds)
      in if dates = [] then None else Some (Max (set dates)))"

text \<open>The run is registered; the keys of runs that are not running are dropped.\<close>

definition begin_run :: "export_env \<Rightarrow> schedule_db \<Rightarrow> schedule_db" where
  "begin_run env d = d\<lparr>sd_runs := (xe_run env, \<lparr>rn_source = xe_source env, rn_status = ''running'', rn_started_at = xe_now env,
     rn_finished_at = None, rn_summary = JObject (xe_details env @ [(''feed_id'', JString (xe_feed env)),
       (''complete_dataset'', JBool (xe_complete env)), (''sha256'', (case xe_sha256 env of Some s \<Rightarrow> JString s | None \<Rightarrow> JNull))])\<rparr>) # sd_runs d\<rparr>"

definition prepare_seen_schedule_keys :: "export_env \<Rightarrow> schedule_db \<Rightarrow> schedule_db" where
  "prepare_seen_schedule_keys env d = d\<lparr>sd_seen := filter (\<lambda>(run, _). run \<noteq> xe_run env \<and>
     list_ex (\<lambda>(i, r). i = run \<and> rn_status r = ''running'') (sd_runs d)) (sd_seen d)\<rparr>"

definition clear_seen_schedule_keys :: "export_env \<Rightarrow> schedule_db \<Rightarrow> schedule_db" where
  "clear_seen_schedule_keys env d = d\<lparr>sd_seen := filter (\<lambda>(run, _). run \<noteq> xe_run env) (sd_seen d)\<rparr>"

record export_counts =
  xc_stop_times :: nat
  xc_shapes :: nat
  xc_transfers :: nat
  xc_trip_specific :: nat
  xc_calendars :: nat
  xc_calendar_dates :: nat

definition kept_trips :: "string set \<Rightarrow> gtfs_dataset \<Rightarrow> gtfs_trip list" where
  "kept_trips routes ds = filter (\<lambda>t. gt_route_id t \<in> routes) (gd_trips ds)"

definition trip_rows :: "export_env \<Rightarrow> gtfs_dataset \<Rightarrow> (string \<times> db_trip) list" where
  "trip_rows env ds = List.map_filter (trip_to_row env (ro_id ` set (gd_routes ds))) (gd_trips ds)"

definition stop_time_rows :: "export_env \<Rightarrow> gtfs_dataset \<Rightarrow> ((string \<times> i32) \<times> db_stop_time) list" where
  "stop_time_rows env ds = List.map_filter (stop_time_to_row env (gt_trip_id ` set (kept_trips (ro_id ` set (gd_routes ds)) ds))
     (st_id ` set (gd_stops ds))) (gd_stop_times ds)"

text \<open>All that is written, from the agencies to the validation issues.\<close>

definition write_dataset :: "export_env \<Rightarrow> gtfs_dataset \<Rightarrow> schedule_db \<Rightarrow> (string + export_counts) \<times> schedule_db" where
  "write_dataset env ds =
     bind_run (each_run (export_agency env) 0 (gd_agencies ds)) (\<lambda>_.
     bind_run (each_run (export_stop env) 0 (gd_stops ds)) (\<lambda>_.
     bind_run (each_run (export_route env (ag_source_id ` set (gd_agencies ds))) 0 (gd_routes ds)) (\<lambda>_.
     bind_run (batch_loop 10000 (flush_trip_batch env) 0 [] 0 (trip_rows env ds)) (\<lambda>_.
     bind_run (batch_loop 10000 (flush_shape_batch env) 0 [] 0 (map (shape_to_row env) (gd_shapes ds))) (\<lambda>shapes.
     bind_run (batch_loop 10000 (flush_stop_time_batch env) 0 [] 0 (stop_time_rows env ds)) (\<lambda>stop_times.
     bind_run (if xe_feed env \<in> {''pid_gtfs'', ''ids_jmk_gtfs''} then export_gtfs_transfers env ds (st_id ` set (gd_stops ds))
               else return_run (0, 0)) (\<lambda>(transfers, trip_specific).
     bind_run (export_service_calendars env ds) (\<lambda>(calendars, calendar_dates).
     bind_run (each_run (export_issue env) 0 (gd_validation_issues ds)) (\<lambda>_.
     return_run \<lparr>xc_stop_times = stop_times, xc_shapes = shapes, xc_transfers = transfers, xc_trip_specific = trip_specific,
       xc_calendars = calendars, xc_calendar_dates = calendar_dates\<rparr>)))))))))"

definition json_nat :: "nat \<Rightarrow> json" where
  "json_nat n = JInt (int n)"

text \<open>The summary that replaces the first one.\<close>

definition final_summary :: "export_env \<Rightarrow> gtfs_dataset \<Rightarrow> export_counts \<Rightarrow> json" where
  "final_summary env ds c =
     (let trips = kept_trips (ro_id ` set (gd_routes ds)) ds
      in JObject (xe_details env @ [(''exported'', JBool True), (''import_run_id'', json_nat (xe_run env)), (''source'', JString (xe_source env)),
       (''feed_id'', JString (xe_feed env)), (''sha256'', (case xe_sha256 env of Some s \<Rightarrow> JString s | None \<Rightarrow> JNull)),
       (''agencies'', json_nat (card (ag_source_id ` set (gd_agencies ds)))), (''stops'', json_nat (card (st_id ` set (gd_stops ds)))),
       (''routes'', json_nat (card (ro_id ` set (gd_routes ds)))), (''trips'', json_nat (card (gt_trip_id ` set trips))),
       (''stop_times'', json_nat (xc_stop_times c)), (''shape_points'', json_nat (xc_shapes c)), (''transfers'', json_nat (xc_transfers c)),
       (''trip_specific_transfers_not_generalized'', json_nat (xc_trip_specific c)), (''calendars'', json_nat (xc_calendars c)),
       (''calendar_dates'', json_nat (xc_calendar_dates c)),
       (''service_horizon'', (case gtfs_service_horizon ds of Some t \<Rightarrow> JString (xe_show_date env t) | None \<Rightarrow> JNull)),
       (''skipped_stop_times'', json_nat (length (gd_stop_times ds) - length (stop_time_rows env ds))),
       (''validation_issues'', json_nat (length (gd_validation_issues ds)))]))"

definition end_run :: "export_env \<Rightarrow> json \<Rightarrow> schedule_db \<Rightarrow> schedule_db" where
  "end_run env summary d = d\<lparr>sd_runs := map (\<lambda>(i, r). if i = xe_run env
     then (i, r\<lparr>rn_status := ''success'', rn_finished_at := Some (xe_now env), rn_summary := summary\<rparr>) else (i, r)) (sd_runs d)\<rparr>"

text \<open>
  The repairs in SQL functions that run after an import, of other tables, are left out; so are the vacuum and the counts that
  the report of the retention adds.
\<close>

definition export_dataset_to_postgres :: "export_env \<Rightarrow> gtfs_dataset \<Rightarrow> schedule_db \<Rightarrow> (string + json) \<times> schedule_db" where
  "export_dataset_to_postgres env ds =
     bind_run (execute (xe_faults env) ''import_runs'' 0 (begin_run env)) (\<lambda>_.
     bind_run (execute (xe_faults env) ''seen'' 0 (prepare_seen_schedule_keys env)) (\<lambda>_.
     bind_run (write_dataset env ds) (\<lambda>counts.
     bind_run (if xe_complete env then prune_stale_feed_schedule_rows env else return_run ()) (\<lambda>_.
     bind_run (execute (xe_faults env) ''seen'' 1 (clear_seen_schedule_keys env)) (\<lambda>_.
     bind_run (execute (xe_faults env) ''import_runs'' 1 (end_run env (final_summary env ds counts))) (\<lambda>_.
     bind_run (if xe_complete env then execute (xe_faults env) ''retention'' 0 (prune_obsolete_feed_import_data env) else return_run ()) (\<lambda>_.
     bind_run (if xe_complete env \<and> xe_feed env = ''ids_jmk_gtfs''
               then execute (xe_faults env) ''source_feeds'' 0 (\<lambda>d. d\<lparr>sd_enabled := List.insert (xe_feed env) (sd_enabled d)\<rparr>)
               else return_run ()) (\<lambda>_.
     return_run (final_summary env ds counts)))))))))"

section \<open>Skipping\<close>

definition recover_run :: "export_env \<Rightarrow> uuid \<times> import_run \<Rightarrow> uuid \<times> import_run" where
  "recover_run env = (\<lambda>(i, r).
     if rn_source r = xe_source env \<and> rn_status r = ''running'' \<and> rn_started_at r < xe_now env - 2 * 3600
     then (i, r\<lparr>rn_status := ''failed'', rn_finished_at := Some (xe_now env)\<rparr>) else (i, r))"

definition has_key :: "string \<Rightarrow> json \<Rightarrow> bool" where
  "has_key key v \<longleftrightarrow> json_get v key \<noteq> None"

definition feed_of_source :: "string \<Rightarrow> string" where
  "feed_of_source source = takeWhile (\<lambda>c. c \<noteq> CHR '':'') source"

definition has_core_schedule :: "string \<Rightarrow> uuid \<Rightarrow> schedule_db \<Rightarrow> bool" where
  "has_core_schedule feed run d \<longleftrightarrow>
     list_ex (\<lambda>(_, r). dt_feed r = feed) (sd_trips d) \<and> list_ex (\<lambda>(_, r). dc_feed r = feed) (sd_stop_times d) \<and>
     \<not> list_ex (\<lambda>(_, r). dt_feed r = feed \<and> dt_run r \<noteq> run) (sd_trips d)"

text \<open>Whether what the earlier import of the same file left is still there.\<close>

definition still_imported :: "export_env \<Rightarrow> uuid \<Rightarrow> json \<Rightarrow> schedule_db \<Rightarrow> bool" where
  "still_imported env run summary d =
     (let feed = feed_of_source (xe_source env)
      in json_get summary ''complete_dataset'' \<noteq> Some (JBool False) \<and>
         has_key ''trips'' summary \<and> has_key ''stop_times'' summary \<and> has_core_schedule feed run d \<and>
         has_key ''calendars'' summary \<and>
         (list_ex (\<lambda>(_, r). dk_feed r = feed) (sd_calendars d) \<or> list_ex (\<lambda>(_, r). de_feed r = feed) (sd_calendar_dates d)) \<and>
         (feed = ''ids_jmk_gtfs'' \<longrightarrow>
            (case Option.bind (Option.bind (json_get summary ''service_horizon'') as_str) (xe_parse_date env) of
               Some horizon \<Rightarrow> xe_now env div 86400 \<le> horizon | None \<Rightarrow> False)) \<and>
         (feed \<in> {''pid_gtfs'', ''ids_jmk_gtfs''} \<longrightarrow>
            has_key ''transfers'' summary \<and> list_ex (\<lambda>(_, r). dw_feed r = feed) (sd_transfers d) \<and>
            (feed = ''pid_gtfs'' \<longrightarrow> has_key ''shape_points'' summary \<and> list_ex (\<lambda>(_, r). dp_feed r = feed) (sd_shapes d))))"

definition database_import_skip_reason :: "export_env \<Rightarrow> schedule_db \<Rightarrow> string option \<times> schedule_db" where
  "database_import_skip_reason env d =
     (let d = d\<lparr>sd_runs := map (recover_run env) (sd_runs d)\<rparr>;
          mine = filter (\<lambda>(_, r). rn_source r = xe_source env) (sd_runs d)
      in if list_ex (\<lambda>(_, r). rn_status r = ''running'') mine then (Some ''import_already_running'', d)
         else (case xe_sha256 env of
                 None \<Rightarrow> (None, d)
               | Some checksum \<Rightarrow>
                   (case sort_key run_order (filter (\<lambda>(_, r). rn_status r = ''success'' \<and>
                        json_get (rn_summary r) ''sha256'' = Some (JString checksum)) mine) of
                      [] \<Rightarrow> (None, d)
                    | (run, r) # _ \<Rightarrow> (if still_imported env run (rn_summary r) d then Some ''source_checksum_unchanged'' else None, d))))"

definition validate_ids_jmk_dataset :: "(naive_date \<Rightarrow> string) \<Rightarrow> gtfs_dataset \<Rightarrow> naive_date \<Rightarrow> string + unit" where
  "validate_ids_jmk_dataset show_date ds today =
     (if gd_stops ds = [] \<or> gd_routes ds = [] \<or> gd_trips ds = []
      then Inl ''IDS JMK GTFS is incomplete: stops, routes and trips must be non-empty''
      else if list_ex (\<lambda>i. vi_severity i = ErrorSeverity) (gd_validation_issues ds) then Inl ''IDS JMK GTFS contains blocking validation errors''
      else (case gtfs_service_horizon ds of
              None \<Rightarrow> Inl ''IDS JMK GTFS has no verifiable service horizon''
            | Some horizon \<Rightarrow>
                if horizon < today
                then Inl (''IDS JMK GTFS is stale: service horizon '' @ show_date horizon @ '' is before '' @ show_date today)
                else Inr ()))"

text \<open>The outcome is the reason why the import was skipped, or the summary. \<open>parsed\<close> is what \<open>parse_gtfs_zip\<close> returns.\<close>

definition import_pid_gtfs :: "export_env \<Rightarrow> bool \<Rightarrow> string + gtfs_dataset \<Rightarrow> schedule_db \<Rightarrow> (string + (string + json)) \<times> schedule_db" where
  "import_pid_gtfs env force parsed d =
     (case (if force then (None, d) else database_import_skip_reason env d) of
        (Some reason, d) \<Rightarrow> (Inr (Inl reason), d)
      | (None, d) \<Rightarrow>
          (case parsed of
             Inl e \<Rightarrow> (Inl e, d)
           | Inr ds \<Rightarrow> bind_run (export_dataset_to_postgres env ds) (\<lambda>summary. return_run (Inr summary)) d))"

definition import_ids_jmk_gtfs :: "export_env \<Rightarrow> bool \<Rightarrow> string + gtfs_dataset \<Rightarrow> schedule_db \<Rightarrow> (string + (string + json)) \<times> schedule_db" where
  "import_ids_jmk_gtfs env force parsed d =
     (case (if force then (None, d) else database_import_skip_reason env d) of
        (Some reason, d) \<Rightarrow> (Inr (Inl reason), d)
      | (None, d) \<Rightarrow>
          (case bind_result parsed (\<lambda>ds. if xe_complete env
               then bind_result (validate_ids_jmk_dataset (xe_show_date env) ds (xe_now env div 86400)) (\<lambda>_. Inr ds) else Inr ds) of
             Inl e \<Rightarrow> (Inl e, d)
           | Inr ds \<Rightarrow> bind_run (export_dataset_to_postgres env ds) (\<lambda>summary. return_run (Inr summary)) d))"

end
