(* ===== verification/Schedule_Props.thy ===== *)
theory Schedule_Props
  imports Schedule_Import
begin

text \<open>
  What an import leaves in the tables: the timetable of its feed is the data set, nothing of it is left over and nothing of other
  feeds is touched; its rows refer to rows that are there.
\<close>

section \<open>Tables\<close>

lemma map_of_upsert:
  "map_of (upsert merge k r t) k' =
   (if k' = k then Some (case map_of t k of None \<Rightarrow> r | Some old \<Rightarrow> merge old r) else map_of t k')"
  by (auto simp: upsert_def update_conv')

lemma distinct_upsert: "distinct (map fst t) \<Longrightarrow> distinct (map fst (upsert merge k r t))"
  by (simp add: upsert_def distinct_update)

lemma keys_upsert: "fst ` set (upsert merge k r t) = insert k (fst ` set t)"
  using dom_update [of k _ t] by (simp add: upsert_def dom_map_of_conv_image_fst)

lemma upsert_batch_simps [simp]:
  "upsert_batch merge [] t = t"
  "upsert_batch merge (kr # batch) t = upsert_batch merge batch (upsert merge (fst kr) (snd kr) t)"
  "upsert_batch merge (batch @ batch') t = upsert_batch merge batch' (upsert_batch merge batch t)"
  by (simp_all add: upsert_batch_def split_beta)

lemma distinct_upsert_batch: "distinct (map fst t) \<Longrightarrow> distinct (map fst (upsert_batch merge batch t))"
  by (induction batch arbitrary: t) (simp_all add: distinct_upsert)

lemma keys_upsert_batch: "fst ` set (upsert_batch merge batch t) = fst ` set batch \<union> fst ` set t"
  by (induction batch arbitrary: t) (auto simp: keys_upsert)

lemma map_of_upsert_batch_other: "k \<notin> fst ` set batch \<Longrightarrow> map_of (upsert_batch merge batch t) k = map_of t k"
  by (induction batch arbitrary: t) (auto simp: map_of_upsert)

lemma map_of_filter:
  "distinct (map fst t) \<Longrightarrow> map_of (filter P t) k = (case map_of t k of Some r \<Rightarrow> if P (k, r) then Some r else None | None \<Rightarrow> None)"
proof (induction t)
  case (Cons x t)
  have "map_of (filter P t) (fst x) = None" using Cons.prems by (auto simp: map_of_eq_None_iff)
  with Cons show ?case by (cases x) auto
qed simp

text \<open>A write keeps the content of the new row, whatever it keeps of the old one.\<close>

locale table_write =
  fixes merge :: "'r \<Rightarrow> 'r \<Rightarrow> 'r" and content :: "'r \<Rightarrow> 'c"
  assumes content_merge: "content (merge old r) = content r"
begin

lemma content_upsert:
  "map_option content (map_of (upsert merge k r t) k') = (if k' = k then Some (content r) else map_option content (map_of t k'))"
  by (simp add: map_of_upsert content_merge split: option.split)

lemma content_upsert_batch:
  "map_option content (map_of (upsert_batch merge batch t) k) =
   (case map_of (rev batch) k of Some r \<Rightarrow> Some (content r) | None \<Rightarrow> map_option content (map_of t k))"
  by (induction batch arbitrary: t) (auto simp: content_upsert map_add_def split: option.splits)

text \<open>What is left when the rows that are mine and were not written are removed.\<close>

lemma content_after_prune:
  assumes "distinct (map fst t)"
  shows "map_option content (map_of (filter (\<lambda>x. \<not> (mine (snd x) \<and> fst x \<notin> fst ` set batch)) (upsert_batch merge batch t)) k) =
    map_option content (case map_of (rev batch) k of Some r \<Rightarrow> Some r | None \<Rightarrow> map_of (filter (\<lambda>x. \<not> mine (snd x)) t) k)"
proof (cases "k \<in> fst ` set batch")
  case True
  then obtain r where "map_of (rev batch) k = Some r" by (metis map_of_eq_None_iff not_Some_eq set_rev)
  moreover from this content_upsert_batch [of batch t k] have "map_option content (map_of (upsert_batch merge batch t) k) = Some (content r)"
    by simp
  ultimately show ?thesis using True
    by (cases "map_of (upsert_batch merge batch t) k") (simp_all add: map_of_filter distinct_upsert_batch assms)
next
  case False
  then have "map_of (rev batch) k = None" by (simp add: map_of_eq_None_iff)
  with False show ?thesis
    by (simp add: map_of_filter distinct_upsert_batch assms map_of_upsert_batch_other split: option.splits)
qed

lemma content_all:
  assumes "\<And>k r. (k, r) \<in> set batch \<Longrightarrow> P (content r)" and "map_of (upsert_batch merge batch t) k = Some r" and "k \<in> fst ` set batch"
  shows "P (content r)"
proof -
  obtain r' where r': "map_of (rev batch) k = Some r'" using assms(3) by (metis map_of_eq_None_iff not_Some_eq set_rev)
  with content_upsert_batch [of batch t k] assms(2) have "content r = content r'" by simp
  moreover from map_of_SomeD [OF r'] have "(k, r') \<in> set batch" by simp
  ultimately show ?thesis using assms(1) by simp
qed

end

definition call_content :: "db_stop_time \<Rightarrow> db_stop_time" where
  "call_content r = r\<lparr>dc_run := 0\<rparr>"

definition trip_content :: "db_trip \<Rightarrow> db_trip" where
  "trip_content r = r\<lparr>dt_source_id := []\<rparr>"

interpretation trips: table_write merge_trip trip_content
  by unfold_locales (simp add: merge_trip_def trip_content_def)

interpretation calls: table_write merge_stop_time call_content
proof
  show "call_content (merge_stop_time old r) = call_content r" for old r
  proof (cases "old\<lparr>dc_run := dc_run r\<rparr> = r")
    case True
    then have "merge_stop_time old r = old" by (simp add: merge_stop_time_def)
    moreover from True have "call_content (old\<lparr>dc_run := dc_run r\<rparr>) = call_content r" by (rule arg_cong)
    ultimately show ?thesis by (simp add: call_content_def)
  qed (simp add: merge_stop_time_def)
qed

section \<open>Batches\<close>

lemma flush_batch_Inr: "flush_batch faults name write i batch d = (Inr n, d') \<Longrightarrow> n = length batch \<and> d' = (if batch = [] then d else write batch d)"
  by (auto simp: flush_batch_def split: if_splits option.splits)

text \<open>The batches together are one write of all rows.\<close>

lemma batch_loop_Inr:
  assumes "batch_loop capacity (flush_batch faults name write) i batch inserted rows d = (Inr n, d')"
    and "\<And>d. write [] d = d" and "\<And>xs ys d. write (xs @ ys) d = write ys (write xs d)"
  shows "n = inserted + length (batch @ rows) \<and> d' = write (batch @ rows) d"
  using assms(1)
proof (induction rows arbitrary: i batch inserted d)
  case Nil
  then show ?case by (auto simp: bind_run_Inr assms(2) dest!: flush_batch_Inr split: if_splits)
next
  case (Cons row rows)
  show ?case
  proof (cases "capacity \<le> length (batch @ [row])")
    case True
    with Cons.prems obtain k d1 where "flush_batch faults name write i (batch @ [row]) d = (Inr k, d1)"
      and rest: "batch_loop capacity (flush_batch faults name write) (Suc i) [] (inserted + k) rows d1 = (Inr n, d')"
      by (auto simp: bind_run_Inr)
    from flush_batch_Inr [OF this(1)] have "k = length (batch @ [row])" "d1 = write (batch @ [row]) d" by simp_all
    with Cons.IH [OF rest] assms(3) [of "batch @ [row]" rows d] show ?thesis by simp
  next
    case False
    with Cons.prems have "batch_loop capacity (flush_batch faults name write) i (batch @ [row]) inserted rows d = (Inr n, d')" by simp
    from Cons.IH [OF this] show ?thesis by simp
  qed
qed

lemma set_fold_insert [simp]: "set (fold List.insert xs ys) = set xs \<union> set ys"
  by (induction xs arbitrary: ys) auto

lemma note_seen_simps [simp]:
  "sd_trips (note_seen keys d) = sd_trips d" "sd_stop_times (note_seen keys d) = sd_stop_times d" "sd_routes (note_seen keys d) = sd_routes d"
  "sd_stops (note_seen keys d) = sd_stops d" "sd_subscribed (note_seen keys d) = sd_subscribed d" "sd_boarded (note_seen keys d) = sd_boarded d"
  "set (sd_seen (note_seen keys d)) = set keys \<union> set (sd_seen d)"
  by (simp_all add: note_seen_def)

lemma write_trips_append: "write_trips env (xs @ ys) d = write_trips env ys (write_trips env xs d)" "write_trips env [] d = d"
  by (simp_all add: write_trips_def note_seen_def)

lemma write_shapes_append: "write_shapes env (xs @ ys) d = write_shapes env ys (write_shapes env xs d)" "write_shapes env [] d = d"
  by (simp_all add: write_shapes_def note_seen_def)

lemma write_stop_times_append:
  "write_stop_times env (xs @ ys) d = write_stop_times env ys (write_stop_times env xs d)" "write_stop_times env [] d = d"
  by (simp_all add: write_stop_times_def note_seen_def)

section \<open>The steps of an export\<close>

text \<open>A step that leaves a part of the tables as it is.\<close>

definition keeps :: "('d \<Rightarrow> 'v) \<Rightarrow> ('d \<Rightarrow> (string + 'a) \<times> 'd) \<Rightarrow> bool" where
  "keeps part m \<longleftrightarrow> (\<forall>d x d'. m d = (Inr x, d') \<longrightarrow> part d' = part d)"

lemma keepsD: "keeps part m \<Longrightarrow> m d = (Inr x, d') \<Longrightarrow> part d' = part d"
  by (auto simp: keeps_def)

lemma keeps_bind: "keeps part m \<Longrightarrow> (\<And>x. keeps part (f x)) \<Longrightarrow> keeps part (bind_run m f)"
  unfolding keeps_def bind_run_Inr by metis

lemma keeps_return: "keeps part (return_run x)"
  by (simp add: keeps_def)

lemma keeps_execute: "(\<And>d. part (f d) = part d) \<Longrightarrow> keeps part (execute faults name i f)"
  by (auto simp: keeps_def execute_Inr)

lemma keeps_each: "(\<And>i x. keeps part (f i x)) \<Longrightarrow> keeps part (each_run f i xs)"
  by (induction xs arbitrary: i) (auto intro: keeps_bind keeps_return)

lemma keeps_flush: "(\<And>batch d. part (write batch d) = part d) \<Longrightarrow> keeps part (flush_batch faults name write i batch)"
  by (auto simp: keeps_def dest!: flush_batch_Inr)

lemma keeps_batch_loop: "(\<And>batch d. part (write batch d) = part d) \<Longrightarrow> keeps part (batch_loop capacity (flush_batch faults name write) i batch n rows)"
  by (induction rows arbitrary: i batch n) (auto intro!: keeps_bind keeps_return keeps_flush)

lemma keeps_transfer_chunks:
  "(\<And>d ts. part (d\<lparr>sd_transfers := ts\<rparr>) = part d) \<Longrightarrow> keeps part (transfer_chunks env i chunks n)"
  by (induction chunks arbitrary: i n) (auto intro!: keeps_bind keeps_return keeps_flush)

lemmas keeps_intros = keeps_bind keeps_return keeps_execute keeps_each keeps_batch_loop keeps_transfer_chunks

text \<open>What the properties look at.\<close>

definition timetable :: "schedule_db \<Rightarrow> _" where
  "timetable d = (sd_trips d, sd_stop_times d, sd_routes d, sd_stops d, sd_seen d, sd_subscribed d, sd_boarded d)"

lemma export_agency_keeps: "keeps timetable (export_agency env i a)"
  unfolding export_agency_def by (intro keeps_intros) (simp add: timetable_def)

lemma export_calendars_keep: "keeps timetable (export_service_calendars env ds)"
  unfolding export_service_calendars_def export_calendar_def export_calendar_date_def
  by (intro keeps_intros) (simp_all add: timetable_def)

lemma export_issue_keeps: "keeps timetable (export_issue env i issue)"
  unfolding export_issue_def by (intro keeps_intros) (simp add: timetable_def)

lemma export_transfers_keep: "keeps timetable (export_gtfs_transfers env ds stops)"
  unfolding export_gtfs_transfers_def by (auto intro!: keeps_intros simp: timetable_def)

definition put_stop :: "export_env \<Rightarrow> stop \<Rightarrow> schedule_db \<Rightarrow> schedule_db" where
  "put_stop env s d = d\<lparr>sd_stops := upsert merge_stop (scoped_id (xe_feed env) (st_id s)) (stop_to_row env s) (sd_stops d),
     sd_source_ids := upsert (\<lambda>old r. r) (xe_feed env, st_id s) \<lparr>dx_stop_id = scoped_id (xe_feed env) (st_id s), dx_run = xe_run env,
       dx_priority = xe_priority env, dx_confidence = confidence_to_db (st_coordinate_confidence s)\<rparr> (sd_source_ids d)\<rparr>"

definition put_route :: "export_env \<Rightarrow> string set \<Rightarrow> route \<Rightarrow> schedule_db \<Rightarrow> schedule_db" where
  "put_route env agencies r d = d\<lparr>sd_routes := upsert (\<lambda>old r. r\<lparr>dr_source_id := dr_source_id old\<rparr>)
     (scoped_id (xe_feed env) (ro_id r)) (route_to_row env agencies r) (sd_routes d)\<rparr>"

lemma export_stops_Inr: "each_run (export_stop env) i stops d = (Inr u, d') \<Longrightarrow> d' = foldl (\<lambda>d s. put_stop env s d) d stops"
  by (erule each_run_Inr) (auto simp: export_stop_def put_stop_def bind_run_Inr execute_Inr Let_def)

lemma export_routes_Inr: "each_run (export_route env agencies) i routes d = (Inr u, d') \<Longrightarrow> d' = foldl (\<lambda>d r. put_route env agencies r d) d routes"
  by (erule each_run_Inr) (auto simp: export_route_def put_route_def execute_Inr)

text \<open>The stops and routes that are written, as batches.\<close>

definition stop_rows :: "export_env \<Rightarrow> gtfs_dataset \<Rightarrow> (string \<times> db_stop) list" where
  "stop_rows env ds = map (\<lambda>s. (scoped_id (xe_feed env) (st_id s), stop_to_row env s)) (gd_stops ds)"

definition route_rows :: "export_env \<Rightarrow> gtfs_dataset \<Rightarrow> (string \<times> db_route) list" where
  "route_rows env ds = map (\<lambda>r. (scoped_id (xe_feed env) (ro_id r), route_to_row env (ag_source_id ` set (gd_agencies ds)) r)) (gd_routes ds)"

lemma put_stops:
  "sd_stops (foldl (\<lambda>d s. put_stop env s d) d stops) =
     upsert_batch merge_stop (map (\<lambda>s. (scoped_id (xe_feed env) (st_id s), stop_to_row env s)) stops) (sd_stops d)"
  "sd_trips (foldl (\<lambda>d s. put_stop env s d) d stops) = sd_trips d" "sd_stop_times (foldl (\<lambda>d s. put_stop env s d) d stops) = sd_stop_times d"
  "sd_routes (foldl (\<lambda>d s. put_stop env s d) d stops) = sd_routes d" "sd_seen (foldl (\<lambda>d s. put_stop env s d) d stops) = sd_seen d"
  "sd_subscribed (foldl (\<lambda>d s. put_stop env s d) d stops) = sd_subscribed d"
  "sd_boarded (foldl (\<lambda>d s. put_stop env s d) d stops) = sd_boarded d"
  by (induction stops arbitrary: d) (simp_all add: put_stop_def)

lemma put_routes:
  "sd_routes (foldl (\<lambda>d r. put_route env agencies r d) d routes) = upsert_batch (\<lambda>old r. r\<lparr>dr_source_id := dr_source_id old\<rparr>)
     (map (\<lambda>r. (scoped_id (xe_feed env) (ro_id r), route_to_row env agencies r)) routes) (sd_routes d)"
  "sd_trips (foldl (\<lambda>d r. put_route env agencies r d) d routes) = sd_trips d"
  "sd_stop_times (foldl (\<lambda>d r. put_route env agencies r d) d routes) = sd_stop_times d"
  "sd_stops (foldl (\<lambda>d r. put_route env agencies r d) d routes) = sd_stops d"
  "sd_seen (foldl (\<lambda>d r. put_route env agencies r d) d routes) = sd_seen d"
  "sd_subscribed (foldl (\<lambda>d r. put_route env agencies r d) d routes) = sd_subscribed d"
  "sd_boarded (foldl (\<lambda>d r. put_route env agencies r d) d routes) = sd_boarded d"
  by (induction routes arbitrary: d) (simp_all add: put_route_def)


lemma timetableD:
  assumes "timetable d' = timetable d"
  shows "sd_trips d' = sd_trips d" "sd_stop_times d' = sd_stop_times d" "sd_routes d' = sd_routes d" "sd_stops d' = sd_stops d"
    "sd_seen d' = sd_seen d" "sd_subscribed d' = sd_subscribed d" "sd_boarded d' = sd_boarded d"
  using assms by (simp_all add: timetable_def)

definition route_merge :: "db_route \<Rightarrow> db_route \<Rightarrow> db_route" where
  "route_merge old r = r\<lparr>dr_source_id := dr_source_id old\<rparr>"

text \<open>The timetable after all rows are written.\<close>

definition written :: "export_env \<Rightarrow> gtfs_dataset \<Rightarrow> schedule_db \<Rightarrow> schedule_db \<Rightarrow> bool" where
  "written env ds d d' \<longleftrightarrow>
     sd_trips d' = upsert_batch merge_trip (trip_rows env ds) (sd_trips d) \<and>
     sd_stop_times d' = upsert_batch merge_stop_time (stop_time_rows env ds) (sd_stop_times d) \<and>
     sd_routes d' = upsert_batch route_merge (route_rows env ds) (sd_routes d) \<and>
     sd_stops d' = upsert_batch merge_stop (stop_rows env ds) (sd_stops d) \<and>
     sd_subscribed d' = sd_subscribed d \<and> sd_boarded d' = sd_boarded d \<and>
     set (sd_seen d') = set (sd_seen d) \<union> (\<lambda>x. (xe_run env, ''trip'', fst x, 0)) ` set (trip_rows env ds) \<union>
       (\<lambda>x. (xe_run env, ''shape'', fst x)) ` set (map (shape_to_row env) (gd_shapes ds)) \<union>
       (\<lambda>x. (xe_run env, ''stop_time'', fst x)) ` set (stop_time_rows env ds)"

lemma written_rows:
  assumes "d2 = foldl (\<lambda>d r. put_route env (ag_source_id ` set (gd_agencies ds)) r d) (foldl (\<lambda>d s. put_stop env s d) d1 (gd_stops ds)) (gd_routes ds)"
    and "timetable d1 = timetable d"
    and "d3 = write_stop_times env (stop_time_rows env ds) (write_shapes env (map (shape_to_row env) (gd_shapes ds)) (write_trips env (trip_rows env ds) d2))"
    and "timetable d' = timetable d3"
  shows "written env ds d d'"
  unfolding written_def route_merge_def route_rows_def stop_rows_def timetableD [OF assms(4)] assms(3) assms(1)
  by (simp add: write_stop_times_def write_shapes_def write_trips_def put_stops put_routes timetableD [OF assms(2)] note_seen_def
      image_image split_beta Un_ac)

lemma write_dataset_Inr:
  assumes "write_dataset env ds d = (Inr c, d')"
  shows "written env ds d d'"
proof -
  from assms obtain u1 d1 u2 d2 u3 d3 n4 d4 n5 d5 n6 d6 x7 d7 x8 d8 u9 where
    1: "each_run (export_agency env) 0 (gd_agencies ds) d = (Inr u1, d1)" and
    2: "each_run (export_stop env) 0 (gd_stops ds) d1 = (Inr u2, d2)" and
    3: "each_run (export_route env (ag_source_id ` set (gd_agencies ds))) 0 (gd_routes ds) d2 = (Inr u3, d3)" and
    4: "batch_loop 10000 (flush_trip_batch env) 0 [] 0 (trip_rows env ds) d3 = (Inr n4, d4)" and
    5: "batch_loop 10000 (flush_shape_batch env) 0 [] 0 (map (shape_to_row env) (gd_shapes ds)) d4 = (Inr n5, d5)" and
    6: "batch_loop 10000 (flush_stop_time_batch env) 0 [] 0 (stop_time_rows env ds) d5 = (Inr n6, d6)" and
    7: "(if xe_feed env \<in> {''pid_gtfs'', ''ids_jmk_gtfs''} then export_gtfs_transfers env ds (st_id ` set (gd_stops ds))
         else return_run (0, 0)) d6 = (Inr x7, d7)" and
    8: "export_service_calendars env ds d7 = (Inr x8, d8)" and
    9: "each_run (export_issue env) 0 (gd_validation_issues ds) d8 = (Inr u9, d')"
    unfolding write_dataset_def bind_run_Inr return_run_Inr split_beta by blast
  have d1: "timetable d1 = timetable d" by (rule keepsD [OF keeps_each 1]) (rule export_agency_keeps)
  have "keeps timetable (if xe_feed env \<in> {''pid_gtfs'', ''ids_jmk_gtfs''} then export_gtfs_transfers env ds (st_id ` set (gd_stops ds))
         else return_run (0, 0))" by (auto intro: export_transfers_keep keeps_return)
  from keepsD [OF this 7] keepsD [OF export_calendars_keep 8] keepsD [OF keeps_each 9, of timetable, OF export_issue_keeps]
  have d': "timetable d' = timetable d6" by simp
  have d4: "d4 = write_trips env (trip_rows env ds) d3"
    using batch_loop_Inr [OF 4 [unfolded flush_trip_batch_def] write_trips_append(2) write_trips_append(1)] by simp
  have d5: "d5 = write_shapes env (map (shape_to_row env) (gd_shapes ds)) d4"
    using batch_loop_Inr [OF 5 [unfolded flush_shape_batch_def] write_shapes_append(2) write_shapes_append(1)] by simp
  have d6: "d6 = write_stop_times env (stop_time_rows env ds) d5"
    using batch_loop_Inr [OF 6 [unfolded flush_stop_time_batch_def] write_stop_times_append(2) write_stop_times_append(1)] by simp
  from d6 d5 d4 export_routes_Inr [OF 3] export_stops_Inr [OF 2] d1 d' show ?thesis by (intro written_rows [where ?d1.0 = d1 and ?d2.0 = d3 and ?d3.0 = d6]) simp_all
qed


section \<open>What a complete import removes\<close>

lemma delete_checked_Inr: "delete_checked env name broken f d = (Inr u, d') \<longleftrightarrow> xe_faults env name 0 = None \<and> \<not> broken d \<and> d' = f d"
  by (auto simp: delete_checked_def split: option.splits)

text \<open>The runs, the seen keys and the subscriptions stay as they are while rows are removed.\<close>

lemma stale_trip_simp [simp]: "stale_trip env (prune_stop_times env d) = stale_trip env d"
  by (simp add: stale_trip_def seen_def prune_stop_times_def)

lemma prune_stop_times_simps [simp]:
  "sd_stop_times (prune_stop_times env d) = filter (\<lambda>x. \<not> stale_stop_time env d x) (sd_stop_times d)"
  "sd_trips (prune_stop_times env d) = sd_trips d" "sd_subscribed (prune_stop_times env d) = sd_subscribed d"
  by (simp_all add: prune_stop_times_def)

definition prune_plain :: "export_env \<Rightarrow> schedule_db \<Rightarrow> schedule_db" where
  "prune_plain env d = prune_source_ids env (prune_shapes env (prune_calendars env (prune_routes env (prune_trips env (prune_stop_times env d)))))"

lemma prune_plain_simps [simp]:
  "sd_stop_times (prune_plain env d) = filter (\<lambda>x. \<not> stale_stop_time env d x) (sd_stop_times d)"
  "sd_trips (prune_plain env d) = filter (\<lambda>x. \<not> stale_trip env d x) (sd_trips d)"
  "sd_routes (prune_plain env d) = filter (\<lambda>x. \<not> stale_route env x) (sd_routes d)"
  "sd_stops (prune_plain env d) = sd_stops d" "sd_subscribed (prune_plain env d) = sd_subscribed d"
  "sd_boarded (prune_plain env d) = sd_boarded d"
  by (simp_all add: prune_plain_def prune_source_ids_def prune_shapes_def prune_calendars_def prune_routes_def prune_trips_def)
    (simp_all add: prune_stop_times_def)

lemma prune_Inr:
  assumes "prune_stale_feed_schedule_rows env d = (Inr u, d')"
  shows "d' = delete_agencies env (delete_stops env (retire_stops env (prune_plain env d)))"
    and "x \<in> set (sd_trips d) \<Longrightarrow> stale_trip env d x \<Longrightarrow> fst x \<notin> set (sd_subscribed d)"
proof -
  from assms have 1: "\<not> list_ex (\<lambda>x. stale_trip env (prune_stop_times env d) x \<and> (fst x \<in> set (sd_subscribed (prune_stop_times env d)) \<or>
        list_ex (\<lambda>((k, _), _). k = fst x) (sd_stop_times (prune_stop_times env d)))) (sd_trips (prune_stop_times env d))"
    and 2: "d' = delete_agencies env (delete_stops env (retire_stops env (prune_plain env d)))"
    unfolding prune_stale_feed_schedule_rows_def bind_run_Inr delete_checked_Inr prune_plain_def by blast+
  show "d' = delete_agencies env (delete_stops env (retire_stops env (prune_plain env d)))" by (rule 2)
  show "fst x \<notin> set (sd_subscribed d)" if "x \<in> set (sd_trips d)" "stale_trip env d x"
    using 1 that unfolding list_ex_iff by auto
qed

lemma retired_simps [simp]:
  "sd_stop_times (delete_agencies env d) = sd_stop_times d" "sd_trips (delete_agencies env d) = sd_trips d"
  "sd_routes (delete_agencies env d) = sd_routes d" "sd_stops (delete_agencies env d) = sd_stops d"
  "sd_stop_times (delete_stops env d) = sd_stop_times d" "sd_trips (delete_stops env d) = sd_trips d"
  "sd_routes (delete_stops env d) = sd_routes d"
  "sd_stops (delete_stops env d) = filter (\<lambda>x. \<not> removable_stop env d x) (sd_stops d)"
  "sd_stop_times (retire_stops env d) = sd_stop_times d" "sd_trips (retire_stops env d) = sd_trips d"
  "sd_routes (retire_stops env d) = sd_routes d"
  "sd_boarded (retire_stops env d) = sd_boarded d"
  "sd_stops (retire_stops env d) = map (deactivate_stop env) (map (preserve_stop env d) (sd_stops d))"
  by (simp_all add: delete_agencies_def delete_stops_def retire_stops_def Let_def)

lemma fst_retired [simp]: "fst (deactivate_stop env (preserve_stop env d x)) = fst x"
  by (cases x) (simp add: deactivate_stop_def preserve_stop_def)

text \<open>No stop that a call refers to is deleted.\<close>

lemma called_stop_stays:
  assumes "(k, r) \<in> set (sd_stop_times d)" and "dc_stop_id r \<in> fst ` set (sd_stops d)"
  shows "dc_stop_id r \<in> fst ` set (sd_stops (delete_stops env (retire_stops env d)))"
proof -
  from assms(2) obtain s where s: "s \<in> set (sd_stops d)" "dc_stop_id r = fst s" by blast
  let ?s = "deactivate_stop env (preserve_stop env d s)"
  have "\<not> removable_stop env (retire_stops env d) ?s"
    using assms(1) s(2) by (auto simp: removable_stop_def list_ex_iff)
  moreover have "?s \<in> set (sd_stops (retire_stops env d))" using s(1) by simp
  ultimately have "?s \<in> set (sd_stops (delete_stops env (retire_stops env d)))" by simp
  then show ?thesis by (rule rev_image_eqI) (simp add: s(2))
qed

section \<open>The whole export\<close>

lemma export_Inr:
  assumes "export_dataset_to_postgres env ds d = (Inr summary, d')" and "xe_complete env"
  obtains d2 where "written env ds (prepare_seen_schedule_keys env (begin_run env d)) d2"
    and "\<And>x. x \<in> set (sd_trips d2) \<Longrightarrow> stale_trip env d2 x \<Longrightarrow> fst x \<notin> set (sd_subscribed d2)"
    and "sd_trips d' = sd_trips (prune_plain env d2)" "sd_stop_times d' = sd_stop_times (prune_plain env d2)"
    and "sd_routes d' = sd_routes (prune_plain env d2)" "sd_stops d' = sd_stops (delete_stops env (retire_stops env (prune_plain env d2)))"
proof -
  from assms obtain c d2 u d3 u8 where 1: "write_dataset env ds (prepare_seen_schedule_keys env (begin_run env d)) = (Inr c, d2)"
    and 2: "prune_stale_feed_schedule_rows env d2 = (Inr u, d3)"
    and 3: "(if xe_complete env \<and> xe_feed env = ''ids_jmk_gtfs''
               then execute (xe_faults env) ''source_feeds'' 0 (\<lambda>d. d\<lparr>sd_enabled := List.insert (xe_feed env) (sd_enabled d)\<rparr>)
               else return_run ()) (prune_obsolete_feed_import_data env (end_run env (final_summary env ds c) (clear_seen_schedule_keys env d3)))
            = (Inr u8, d')"
    unfolding export_dataset_to_postgres_def bind_run_Inr execute_Inr return_run_Inr by (auto simp: execute_Inr)
  from 3 have 4: "sd_trips d' = sd_trips d3 \<and> sd_stop_times d' = sd_stop_times d3 \<and> sd_routes d' = sd_routes d3 \<and> sd_stops d' = sd_stops d3"
    by (auto simp: execute_Inr prune_obsolete_feed_import_data_def Let_def end_run_def clear_seen_schedule_keys_def split: if_splits)
  show thesis
    by (rule that [OF write_dataset_Inr [OF 1] prune_Inr(2) [OF 2]]) (simp_all add: 4 prune_Inr(1) [OF 2])
qed

lemma started_simps [simp]:
  "sd_trips (prepare_seen_schedule_keys env (begin_run env d)) = sd_trips d"
  "sd_stop_times (prepare_seen_schedule_keys env (begin_run env d)) = sd_stop_times d"
  "sd_routes (prepare_seen_schedule_keys env (begin_run env d)) = sd_routes d"
  "sd_stops (prepare_seen_schedule_keys env (begin_run env d)) = sd_stops d"
  "sd_subscribed (prepare_seen_schedule_keys env (begin_run env d)) = sd_subscribed d"
  "sd_boarded (prepare_seen_schedule_keys env (begin_run env d)) = sd_boarded d"
  "(xe_run env, x) \<notin> set (sd_seen (prepare_seen_schedule_keys env (begin_run env d)))"
  by (simp_all add: prepare_seen_schedule_keys_def begin_run_def)

lemma seen_written:
  assumes "written env ds (prepare_seen_schedule_keys env (begin_run env d)) d2"
  shows "seen env d2 ''stop_time'' k n \<longleftrightarrow> (k, n) \<in> fst ` set (stop_time_rows env ds)"
    and "seen env d2 ''trip'' k 0 \<longleftrightarrow> k \<in> fst ` set (trip_rows env ds)"
  using assms unfolding written_def seen_def by (auto simp: image_iff)


lemma prune_calls_eq:
  assumes "written env ds (prepare_seen_schedule_keys env (begin_run env d)) d2"
  shows "sd_stop_times (prune_plain env d2) = filter (\<lambda>x. \<not> (dc_feed (snd x) = xe_feed env \<and> fst x \<notin> fst ` set (stop_time_rows env ds)))
    (upsert_batch merge_stop_time (stop_time_rows env ds) (sd_stop_times d))"
proof -
  have "stale_stop_time env d2 x \<longleftrightarrow> dc_feed (snd x) = xe_feed env \<and> fst x \<notin> fst ` set (stop_time_rows env ds)" for x
    by (cases x; cases "fst x") (simp add: stale_stop_time_def seen_written(1) [OF assms])
  then show ?thesis using assms by (simp add: written_def)
qed

lemma prune_trips_eq:
  assumes "written env ds (prepare_seen_schedule_keys env (begin_run env d)) d2"
  shows "sd_trips (prune_plain env d2) = filter (\<lambda>x. \<not> (dt_feed (snd x) = xe_feed env \<and> fst x \<notin> fst ` set (trip_rows env ds)))
    (upsert_batch merge_trip (trip_rows env ds) (sd_trips d))"
proof -
  have "stale_trip env d2 x \<longleftrightarrow> dt_feed (snd x) = xe_feed env \<and> fst x \<notin> fst ` set (trip_rows env ds)" for x
    by (cases x) (simp add: stale_trip_def seen_written(2) [OF assms])
  then show ?thesis using assms by (simp add: written_def)
qed

lemma trip_row_route:
  assumes "(k, r) \<in> set (trip_rows env ds)"
  shows "dt_route_id r \<in> fst ` set (route_rows env ds)"
  using assms unfolding trip_rows_def route_rows_def map_filter_set
  by (auto simp: trip_to_row_def image_image split: if_splits)

lemma call_row_targets:
  assumes "((k, n), r) \<in> set (stop_time_rows env ds)"
  shows "k \<in> fst ` set (trip_rows env ds)" "dc_stop_id r \<in> fst ` set (stop_rows env ds)"
proof -
  from assms obtain t where t: "stop_time_to_row env (gt_trip_id ` set (kept_trips (ro_id ` set (gd_routes ds)) ds)) (st_id ` set (gd_stops ds)) t
    = Some ((k, n), r)" unfolding stop_time_rows_def map_filter_set by auto
  then have "sti_trip_id t \<in> gt_trip_id ` set (kept_trips (ro_id ` set (gd_routes ds)) ds)" and k: "k = scoped_id (xe_feed env) (sti_trip_id t)"
    and s: "sti_stop_id t \<in> st_id ` set (gd_stops ds)" "dc_stop_id r = scoped_id (xe_feed env) (sti_stop_id t)"
    by (auto simp: stop_time_to_row_def split: if_splits)
  then obtain trip where trip: "trip \<in> set (gd_trips ds)" "gt_route_id trip \<in> ro_id ` set (gd_routes ds)" "sti_trip_id t = gt_trip_id trip"
    unfolding kept_trips_def by auto
  then obtain row where "trip_to_row env (ro_id ` set (gd_routes ds)) trip = Some (k, row)" by (simp add: trip_to_row_def k)
  with trip(1) have "(k, row) \<in> set (trip_rows env ds)" unfolding trip_rows_def map_filter_set by (auto intro: rev_image_eqI)
  then show "k \<in> fst ` set (trip_rows env ds)" by (rule rev_image_eqI) simp
  from s show "dc_stop_id r \<in> fst ` set (stop_rows env ds)" by (auto simp: stop_rows_def image_image)
qed

interpretation trip_route: table_write merge_trip dt_route_id
  by unfold_locales (simp add: merge_trip_def)

interpretation call_stop: table_write merge_stop_time dc_stop_id
proof
  fix old r show "dc_stop_id (merge_stop_time old r) = dc_stop_id r"
    using calls.content_merge [of old r] unfolding call_content_def by (rule arg_cong [where f = dc_stop_id, of "_\<lparr>dc_run := _\<rparr>" "_\<lparr>dc_run := _\<rparr>", simplified])
qed

interpretation route_run: table_write route_merge dr_run
  by unfold_locales (simp add: route_merge_def)

interpretation stop_run: table_write merge_stop ds_run
  by unfold_locales (simp add: merge_stop_def)

lemma kept_key:
  assumes "k \<in> fst ` set batch" and "fst ` set t = fst ` set batch \<union> K"
  shows "k \<in> fst ` set (filter (\<lambda>x. \<not> (mine (snd x) \<and> fst x \<notin> fst ` set batch)) t)"
proof -
  from assms obtain x where "x \<in> set t" "fst x = k" by (metis UnI1 imageE)
  with assms(1) show ?thesis by (intro rev_image_eqI [of x]) auto
qed

lemma written_route:
  assumes w: "written env ds (prepare_seen_schedule_keys env (begin_run env d)) d2" and distinct: "distinct (map fst (sd_routes d))"
    and k: "k \<in> fst ` set (route_rows env ds)"
  shows "k \<in> fst ` set (sd_routes (prune_plain env d2))"
proof -
  let ?t = "upsert_batch route_merge (route_rows env ds) (sd_routes d)"
  from k keys_upsert_batch [of route_merge "route_rows env ds" "sd_routes d"] obtain r where r: "(k, r) \<in> set ?t" by force
  then have "map_of ?t k = Some r" by (simp add: distinct_upsert_batch distinct)
  then have "dr_run r = xe_run env"
    by (rule route_run.content_all [rotated]) (use k in \<open>auto simp: route_rows_def route_to_row_def\<close>)
  then have "(k, r) \<in> set (sd_routes (prune_plain env d2))" using r w by (simp add: written_def stale_route_def)
  then show ?thesis by (rule rev_image_eqI) simp
qed

section \<open>Success\<close>

definition succeeds :: "('d \<Rightarrow> (string + 'a) \<times> 'd) \<Rightarrow> bool" where
  "succeeds m \<longleftrightarrow> (\<forall>d. \<exists>x d'. m d = (Inr x, d'))"

definition no_faults :: "export_env \<Rightarrow> bool" where
  "no_faults env \<longleftrightarrow> (\<forall>name i. xe_faults env name i = None)"

lemma succeeds_bind: "succeeds m \<Longrightarrow> (\<And>x. succeeds (f x)) \<Longrightarrow> succeeds (bind_run m f)"
  unfolding succeeds_def bind_run_Inr by metis

lemma succeeds_return: "succeeds (return_run x)"
  by (simp add: succeeds_def)

lemma succeeds_execute: "no_faults env \<Longrightarrow> succeeds (execute (xe_faults env) name i f)"
  by (simp add: succeeds_def execute_Inr no_faults_def)

lemma succeeds_each: "(\<And>i x. succeeds (f i x)) \<Longrightarrow> succeeds (each_run f i xs)"
  by (induction xs arbitrary: i) (auto intro: succeeds_bind succeeds_return)

lemma succeeds_flush: "no_faults env \<Longrightarrow> distinct (map fst batch) \<Longrightarrow> succeeds (flush_batch (xe_faults env) name write i batch)"
  by (simp add: succeeds_def flush_batch_def no_faults_def)

lemma succeeds_batch_loop:
  assumes "no_faults env" and "distinct (map fst (batch @ rows))"
  shows "succeeds (batch_loop capacity (flush_batch (xe_faults env) name write) i batch n rows)"
  using assms(2)
proof (induction rows arbitrary: i batch n)
  case Nil
  then show ?case by (auto intro!: succeeds_bind succeeds_return succeeds_flush assms(1))
next
  case (Cons row rows)
  then have "distinct (map fst (batch @ [row]))" and "distinct (map fst ([] @ rows))" and "distinct (map fst ((batch @ [row]) @ rows))" by auto
  with Cons.IH show ?case by (auto intro!: succeeds_bind succeeds_flush assms(1) simp del: append_Nil)
qed

lemma succeeds_transfer_chunks:
  assumes "no_faults env" and "distinct (map fst (concat chunks))"
  shows "succeeds (transfer_chunks env i chunks n)"
  using assms(2) by (induction chunks arbitrary: i n) (auto intro!: succeeds_bind succeeds_return succeeds_flush assms(1))

lemmas succeeds_intros = succeeds_bind succeeds_return succeeds_execute succeeds_each

definition transfer_rows :: "export_env \<Rightarrow> gtfs_dataset \<Rightarrow> ((string \<times> string) \<times> db_transfer) list" where
  "transfer_rows env ds = List.map_filter (transfer_to_row env (st_id ` set (gd_stops ds))) (gd_transfers ds)"

lemma succeeds_write_dataset:
  assumes "no_faults env" and "distinct (map fst (trip_rows env ds))" and "distinct (map fst (stop_time_rows env ds))"
    and "distinct (map fst (map (shape_to_row env) (gd_shapes ds)))" and "distinct (map fst (transfer_rows env ds))"
  shows "succeeds (write_dataset env ds)"
proof -
  have 1: "succeeds (batch_loop 10000 (flush_trip_batch env) 0 [] 0 (trip_rows env ds))"
    "succeeds (batch_loop 10000 (flush_shape_batch env) 0 [] 0 (map (shape_to_row env) (gd_shapes ds)))"
    "succeeds (batch_loop 10000 (flush_stop_time_batch env) 0 [] 0 (stop_time_rows env ds))"
    unfolding flush_trip_batch_def flush_shape_batch_def flush_stop_time_batch_def
    by (rule succeeds_batch_loop [OF assms(1)]; use assms in simp)+
  have 2: "succeeds (export_gtfs_transfers env ds (st_id ` set (gd_stops ds)))"
    unfolding export_gtfs_transfers_def transfer_rows_def [symmetric]
    by (auto intro!: succeeds_intros succeeds_transfer_chunks assms simp: concat_chunks_of)
  show ?thesis
    unfolding write_dataset_def export_agency_def export_stop_def export_route_def export_service_calendars_def export_calendar_def
      export_calendar_date_def export_issue_def Let_def split_beta
    by (intro succeeds_intros assms(1) 1) (auto intro!: succeeds_intros 2)
qed

text \<open>Nothing outside the feed and no subscription refers to what the data set does not have.\<close>

definition unattached :: "export_env \<Rightarrow> gtfs_dataset \<Rightarrow> schedule_db \<Rightarrow> bool" where
  "unattached env ds d \<longleftrightarrow>
     (\<forall>(k, r) \<in> set (sd_trips d). dt_feed r = xe_feed env \<longrightarrow> k \<notin> fst ` set (trip_rows env ds) \<longrightarrow> k \<notin> set (sd_subscribed d) \<and>
        (\<forall>((trip, n), c) \<in> set (sd_stop_times d). dc_feed c \<noteq> xe_feed env \<longrightarrow> trip \<noteq> k)) \<and>
     (\<forall>(k, r) \<in> set (sd_routes d). dr_feed r = xe_feed env \<longrightarrow> k \<notin> fst ` set (route_rows env ds) \<longrightarrow>
        (\<forall>(trip, t) \<in> set (sd_trips d). dt_feed t \<noteq> xe_feed env \<longrightarrow> dt_route_id t \<noteq> k)) \<and>
     (\<forall>(k, r) \<in> set (sd_stops d). ds_feed r = xe_feed env \<longrightarrow> k \<notin> fst ` set (stop_rows env ds) \<longrightarrow> k \<notin> set (sd_boarded d))"

lemma upsert_other: "(k', r') \<in> set (upsert merge k r t) \<Longrightarrow> k' \<noteq> k \<Longrightarrow> (k', r') \<in> set t"
proof -
  have "(k', r') \<in> set (AList.update k v t) \<Longrightarrow> k' \<noteq> k \<Longrightarrow> (k', r') \<in> set t" for v
    by (induction t) (auto split: if_splits)
  then show "(k', r') \<in> set (upsert merge k r t) \<Longrightarrow> k' \<noteq> k \<Longrightarrow> (k', r') \<in> set t" by (simp add: upsert_def)
qed

lemma upsert_batch_other: "(k, r) \<in> set (upsert_batch merge batch t) \<Longrightarrow> k \<notin> fst ` set batch \<Longrightarrow> (k, r) \<in> set t"
  by (induction batch arbitrary: t) (auto dest: upsert_other)

lemma prune_succeeds:
  assumes "no_faults env"
    and "\<And>k r. (k, r) \<in> set (sd_trips d) \<Longrightarrow> stale_trip env d (k, r) \<Longrightarrow> k \<notin> set (sd_subscribed d)"
    and "\<And>k r n c. (k, r) \<in> set (sd_trips d) \<Longrightarrow> stale_trip env d (k, r) \<Longrightarrow> ((k, n), c) \<in> set (sd_stop_times d) \<Longrightarrow> stale_stop_time env d ((k, n), c)"
    and "\<And>k r t. (k, r) \<in> set (sd_routes d) \<Longrightarrow> stale_route env (k, r) \<Longrightarrow> t \<in> set (sd_trips d) \<Longrightarrow> dt_route_id (snd t) = k \<Longrightarrow> stale_trip env d t"
    and "\<And>k r. (k, r) \<in> set (sd_stops d) \<Longrightarrow> ds_feed r = xe_feed env \<Longrightarrow> ds_run r \<noteq> xe_run env \<Longrightarrow> k \<notin> set (sd_boarded d)"
  shows "\<exists>d'. prune_stale_feed_schedule_rows env d = (Inr (), d')"
proof -
  have 1: "\<not> list_ex (\<lambda>x. stale_trip env (prune_stop_times env d) x \<and> (fst x \<in> set (sd_subscribed (prune_stop_times env d)) \<or>
      list_ex (\<lambda>((k, _), _). k = fst x) (sd_stop_times (prune_stop_times env d)))) (sd_trips (prune_stop_times env d))"
    unfolding list_ex_iff using assms(2,3) by auto
  have 2: "\<not> list_ex (\<lambda>x. stale_route env x \<and> list_ex (\<lambda>(_, t). dt_route_id t = fst x) (sd_trips (prune_trips env (prune_stop_times env d))))
      (sd_routes (prune_trips env (prune_stop_times env d)))"
    unfolding list_ex_iff using assms(4) by (fastforce simp: prune_stop_times_def prune_trips_def stale_trip_def seen_def)
  let ?d = "retire_stops env (prune_plain env d)"
  have 3: "\<not> list_ex (\<lambda>x. removable_stop env ?d x \<and> fst x \<in> set (sd_boarded ?d)) (sd_stops ?d)"
  proof -
    have "fst x \<notin> set (sd_boarded ?d)" if x: "x \<in> set (sd_stops ?d)" "removable_stop env ?d x" for x
    proof -
      from x(1) obtain k r where kr: "(k, r) \<in> set (sd_stops d)" "x = deactivate_stop env (preserve_stop env (prune_plain env d) (k, r))" by auto
      with x(2) have "ds_feed r = xe_feed env \<and> ds_run r \<noteq> xe_run env"
        by (auto simp: removable_stop_def obsolete_stop_def deactivate_stop_def preserve_stop_def split: if_splits)
      with kr assms(5) show ?thesis by simp
    qed
    then show ?thesis unfolding list_ex_iff by blast
  qed
  show ?thesis
    unfolding prune_stale_feed_schedule_rows_def bind_run_Inr delete_checked_Inr
    using assms(1) 1 2 3 [unfolded prune_plain_def] by (simp add: no_faults_def del: prune_stop_times_simps stale_trip_simp)
qed

lemma import_without_conflicts:
  assumes "no_faults env" and "distinct (map fst (trip_rows env ds))" and "distinct (map fst (stop_time_rows env ds))"
    and "distinct (map fst (map (shape_to_row env) (gd_shapes ds)))" and "distinct (map fst (transfer_rows env ds))"
    and distinct: "distinct (map fst (sd_trips d))" "distinct (map fst (sd_routes d))" "distinct (map fst (sd_stops d))"
    and un: "unattached env ds d"
  shows "\<exists>summary. fst (export_dataset_to_postgres env ds d) = Inr summary"
proof -
  let ?d = "prepare_seen_schedule_keys env (begin_run env d)"
  from succeeds_write_dataset [OF assms(1-5)] obtain c d2 where wr: "write_dataset env ds ?d = (Inr c, d2)"
    unfolding succeeds_def by blast
  from write_dataset_Inr [OF this] have w: "written env ds ?d d2" .
  have "\<exists>d3. prune_stale_feed_schedule_rows env d2 = (Inr (), d3)"
  proof (rule prune_succeeds [OF assms(1)])
    fix k r
    assume r: "(k, r) \<in> set (sd_trips d2)" "stale_trip env d2 (k, r)"
    then have k: "dt_feed r = xe_feed env" "k \<notin> fst ` set (trip_rows env ds)" using seen_written(2) [OF w] by (auto simp: stale_trip_def)
    then have old: "(k, r) \<in> set (sd_trips d)" using r(1) w by (auto simp: written_def dest: upsert_batch_other)
    with k un show "k \<notin> set (sd_subscribed d2)" using w unfolding written_def unattached_def by fastforce
    show "stale_stop_time env d2 ((k, n), c)" if c: "((k, n), c) \<in> set (sd_stop_times d2)" for n c
    proof -
      have key: "(k, n) \<notin> fst ` set (stop_time_rows env ds)" using call_row_targets(1) k(2) by fastforce
      with c w have "((k, n), c) \<in> set (sd_stop_times d)" by (auto simp: written_def dest: upsert_batch_other)
      with k old un have "dc_feed c = xe_feed env" unfolding unattached_def by fastforce
      with key show ?thesis using seen_written(1) [OF w] by (simp add: stale_stop_time_def)
    qed
  next
    fix k r t
    assume r: "(k, r) \<in> set (sd_routes d2)" "stale_route env (k, r)" and t: "t \<in> set (sd_trips d2)" "dt_route_id (snd t) = k"
    have k: "k \<notin> fst ` set (route_rows env ds)"
    proof
      assume key: "k \<in> fst ` set (route_rows env ds)"
      have row: "map_of (upsert_batch route_merge (route_rows env ds) (sd_routes d)) k = Some r"
        using r(1) w by (simp add: written_def distinct_upsert_batch distinct)
      have "dr_run r = xe_run env" by (rule route_run.content_all [OF _ row key]) (auto simp: route_rows_def route_to_row_def)
      with r(2) show False by (simp add: stale_route_def)
    qed
    have key: "fst t \<notin> fst ` set (trip_rows env ds)"
    proof
      assume key: "fst t \<in> fst ` set (trip_rows env ds)"
      have row: "map_of (upsert_batch merge_trip (trip_rows env ds) (sd_trips d)) (fst t) = Some (snd t)"
        using t(1) w by (simp add: written_def distinct_upsert_batch distinct)
      have "dt_route_id (snd t) \<in> fst ` set (route_rows env ds)"
        by (rule trip_route.content_all [OF _ row key]) (rule trip_row_route)
      with t(2) k show False by simp
    qed
    have "t \<in> set (sd_trips d)" using t(1) w upsert_batch_other [OF _ key, of "snd t"] by (simp add: written_def)
    moreover from r k w have "(k, r) \<in> set (sd_routes d)" "dr_feed r = xe_feed env"
      by (auto simp: written_def stale_route_def dest: upsert_batch_other)
    ultimately have "dt_feed (snd t) = xe_feed env" using un k t(2) unfolding unattached_def by fastforce
    then show "stale_trip env d2 t" using key seen_written(2) [OF w] by (simp add: stale_trip_def split_beta)
  next
    fix k r
    assume r: "(k, r) \<in> set (sd_stops d2)" "ds_feed r = xe_feed env" "ds_run r \<noteq> xe_run env"
    have k: "k \<notin> fst ` set (stop_rows env ds)"
    proof
      assume key: "k \<in> fst ` set (stop_rows env ds)"
      have row: "map_of (upsert_batch merge_stop (stop_rows env ds) (sd_stops d)) k = Some r"
        using r(1) w by (simp add: written_def distinct_upsert_batch distinct)
      have "ds_run r = xe_run env" by (rule stop_run.content_all [OF _ row key]) (auto simp: stop_rows_def stop_to_row_def)
      with r(3) show False ..
    qed
    with r(1) w have "(k, r) \<in> set (sd_stops d)" by (auto simp: written_def dest: upsert_batch_other)
    with r(2) k un w show "k \<notin> set (sd_boarded d2)" unfolding unattached_def written_def by fastforce
  qed
  then obtain d3 where prune: "prune_stale_feed_schedule_rows env d2 = (Inr (), d3)" ..
  have "\<exists>summary d'. export_dataset_to_postgres env ds d = (Inr summary, d')"
    unfolding export_dataset_to_postgres_def bind_run_Inr execute_Inr
    using assms(1) wr prune by (auto simp: no_faults_def execute_Inr)
  then show ?thesis by (metis fst_conv)
qed

section \<open>Properties\<close>





text \<open>C9: C3: as long as a journey subscription, ended or not, refers to a trip of the feed that the data set no longer has, every complete
  import of the feed ends in an error.
\<close>

theorem vanished_subscribed_trip_blocks_import:
  assumes "xe_complete env" and "map_of (sd_trips d) k = Some r" and "dt_feed r = xe_feed env" and "k \<in> set (sd_subscribed d)"
    and "k \<notin> fst ` set (trip_rows env ds)"
  shows "\<exists>e. fst (export_dataset_to_postgres env ds d) = Inl e"
proof (rule ccontr)
  assume "\<not> ?thesis"
  then obtain summary d' where "export_dataset_to_postgres env ds d = (Inr summary, d')"
    by (metis old.sum.exhaust prod.collapse)
  from export_Inr [OF this assms(1)] obtain d2 where w: "written env ds (prepare_seen_schedule_keys env (begin_run env d)) d2"
    and kept: "\<And>x. x \<in> set (sd_trips d2) \<Longrightarrow> stale_trip env d2 x \<Longrightarrow> fst x \<notin> set (sd_subscribed d2)" by metis
  from w assms(5) have "map_of (sd_trips d2) k = Some r" by (simp add: written_def map_of_upsert_batch_other assms(2))
  then have "(k, r) \<in> set (sd_trips d2)" by (rule map_of_SomeD)
  moreover have "stale_trip env d2 (k, r)" using seen_written(2) [OF w] assms(3,5) by (simp add: stale_trip_def)
  ultimately have "k \<notin> set (sd_subscribed d2)" using kept by fastforce
  with w assms(4) show False by (simp add: written_def)
qed

text \<open>C10: C4: a forced PID import whose data set has no key twice ends with the summary, when no statement fails and nothing outside the feed
  refers to what the data set no longer has.
\<close>

theorem forced_import_succeeds:
  assumes "no_faults env" and "distinct (map fst (trip_rows env ds))" and "distinct (map fst (stop_time_rows env ds))"
    and "distinct (map fst (map (shape_to_row env) (gd_shapes ds)))" and "distinct (map fst (transfer_rows env ds))"
    and "distinct (map fst (sd_trips d))" "distinct (map fst (sd_routes d))" "distinct (map fst (sd_stops d))"
    and "unattached env ds d"
  shows "\<exists>summary. fst (import_pid_gtfs env True (Inr ds) d) = Inr (Inr summary)"
proof -
  from import_without_conflicts [OF assms] obtain summary where "fst (export_dataset_to_postgres env ds d) = Inr summary" ..
  then obtain d' where "export_dataset_to_postgres env ds d = (Inr summary, d')" by (metis prod.collapse)
  then show ?thesis by (simp add: import_pid_gtfs_def bind_run_def return_run_def)
qed


text \<open>
  The summary of a finished import does not tell whether it was complete, so the check for \<open>complete_dataset\<close> in the decision to skip
  never fires: the complete import of a file after a partial one can be skipped as unchanged.
\<close>

lemma completeness_not_recorded:
  assumes "map_of (xe_details env) ''complete_dataset'' = None"
  shows "json_get (final_summary env ds c) ''complete_dataset'' = None"
  using assms by (simp add: final_summary_def Let_def map_add_def)

section \<open>Examples\<close>

definition sample_env :: "bool \<Rightarrow> export_env" where
  "sample_env whole = \<lparr>xe_faults = \<lambda>_ _. None, xe_run = 7, xe_feed = ''pid_gtfs'', xe_source = ''pid_gtfs:a'', xe_priority = 1, xe_complete = whole,
     xe_sha256 = Some ''f'', xe_details = [], xe_now = 900, xe_runs_to_keep = 2, xe_lower = \<lambda>s. s, xe_city = \<lambda>_ _ _ _. None,
     xe_show_date = \<lambda>_. [], xe_parse_date = \<lambda>_. None\<rparr>"

definition sample_stop :: "string \<Rightarrow> stop" where
  "sample_stop i = \<lparr>st_id = i, st_source_ids = [], st_name = [], st_normalized_name = [], st_municipality = None, st_district = None, st_region = None,
     st_lat = None, st_lon = None, st_geom = None, st_coordinate_confidence = UnresolvedConf, st_coordinate_source = None,
     st_stop_area_id = None, st_platform_code = None, st_location_type = StopLocation, st_parent_station_id = None, st_station_id = None,
     st_complex_id = None, st_has_station_layout = False, st_station_layout_version = None, st_wheelchair_boarding = UnknownAccess,
     st_modes = [Tram], st_is_active = True\<rparr>"

definition sample_call :: "string \<Rightarrow> string \<Rightarrow> u32 \<Rightarrow> stop_time" where
  "sample_call trip s n = \<lparr>sti_trip_id = trip, sti_stop_id = s, sti_stop_sequence = n, sti_arrival_time = 60 * n, sti_departure_time = 60 * n,
     sti_pickup_type = None, sti_drop_off_type = None, sti_timepoint = None, sti_stop_headsign = None, sti_platform = None, sti_raw_notes = None\<rparr>"

definition sample_dataset :: "string \<Rightarrow> gtfs_dataset" where
  "sample_dataset trip = empty_dataset\<lparr>gd_stops := [sample_stop ''a'', sample_stop ''b''],
     gd_routes := [\<lparr>ro_id = ''22'', ro_source_id = ''22'', ro_agency_id = None, ro_operator_id = None, ro_short_name = None, ro_long_name = None,
       ro_mode = Tram, ro_gtfs_route_type = Some 0, ro_color = None, ro_text_color = None, ro_source_priority = 1, ro_is_active = True\<rparr>],
     gd_trips := [\<lparr>gt_route_id = ''22'', gt_service_id = ''w'', gt_trip_id = trip, gt_trip_headsign = None, gt_direction_id = None, gt_shape_id = None\<rparr>],
     gd_stop_times := [sample_call trip ''a'' 1, sample_call trip ''b'' 2]\<rparr>"

text \<open>An older import left the trip \<open>t1\<close>; \<open>x:t9\<close> is of another feed.\<close>

definition sample_trip :: "string \<Rightarrow> string \<Rightarrow> string \<times> db_trip" where
  "sample_trip feed trip = (scoped_id feed trip, \<lparr>dt_run = 3, dt_feed = feed, dt_source_id = trip, dt_route_id = scoped_id feed ''9'',
     dt_service_id = scoped_id feed ''w'', dt_headsign = None, dt_direction_id = None, dt_shape_id = None, dt_priority = 1\<rparr>)"

definition sample_row :: "string \<Rightarrow> string \<Rightarrow> (string \<times> i32) \<times> db_stop_time" where
  "sample_row feed trip = ((scoped_id feed trip, 1), \<lparr>dc_stop_id = scoped_id feed ''c'', dc_arrival_time = 60, dc_departure_time = 60, dc_pickup_type = None,
     dc_drop_off_type = None, dc_timepoint = None, dc_stop_headsign = None, dc_platform = None, dc_raw_notes = None, dc_run = 3, dc_feed = feed,
     dc_priority = 1\<rparr>)"

definition sample_db :: "string list \<Rightarrow> schedule_db" where
  "sample_db subscribed = \<lparr>sd_runs = [], sd_agencies = [], sd_stops = [], sd_source_ids = [], sd_routes = [],
     sd_trips = [sample_trip ''pid_gtfs'' ''t1'', sample_trip ''x'' ''t9''], sd_shapes = [],
     sd_stop_times = [sample_row ''pid_gtfs'' ''t1'', sample_row ''x'' ''t9''], sd_transfers = [], sd_calendars = [], sd_calendar_dates = [],
     sd_issues = [], sd_seen = [], sd_enabled = [], sd_subscribed = subscribed, sd_boarded = [], sd_matched = []\<rparr>"

lemmas sample_simps = sample_env_def sample_dataset_def sample_db_def empty_dataset_def sample_stop_def sample_call_def sample_trip_def sample_row_def
  scoped_id_def as_i32_def

lemmas row_simps = trip_rows_def stop_time_rows_def kept_trips_def map_filter_simps trip_to_row_def stop_time_to_row_def

lemma sample_imported:
  obtains summary d' where "export_dataset_to_postgres (sample_env True) (sample_dataset ''t2'') (sample_db []) = (Inr summary, d')"
proof -
  have "\<exists>summary. fst (export_dataset_to_postgres (sample_env True) (sample_dataset ''t2'') (sample_db [])) = Inr summary"
    by (rule import_without_conflicts) (simp_all add: row_simps sample_simps no_faults_def unattached_def transfer_rows_def stop_rows_def route_rows_def)
  with that show thesis by (metis prod.collapse)
qed



theorem vanished_subscribed_trip_blocks_import_witness:
  "\<exists>e. fst (export_dataset_to_postgres (sample_env True) (sample_dataset ''t2'') (sample_db [''pid_gtfs:t1''])) = Inl e"
  by (rule vanished_subscribed_trip_blocks_import [where k = "''pid_gtfs:t1''" and r = "snd (sample_trip ''pid_gtfs'' ''t1'')"])
    (simp_all add: sample_simps row_simps)

theorem forced_import_succeeds_witness:
  "\<exists>summary. fst (import_pid_gtfs (sample_env True) True (Inr (sample_dataset ''t2'')) (sample_db [])) = Inr (Inr summary)"
  by (rule forced_import_succeeds)
    (simp_all add: row_simps sample_simps no_faults_def unattached_def transfer_rows_def stop_rows_def route_rows_def)


end
