(* ===== verification/Raw_Runs.thy ===== *)
theory Raw_Runs
  imports Prelude
begin

text \<open>
  The downloaded archives of \<^verbatim>\<open>services/data-pipeline/src/main.rs\<close>: the directories \<open>raw/<source>/latest/<time>\<close> with their manifests, when
  a file is used again instead of downloaded, the downloads of the PID, the IDS JMK and the GGU archives, and the removal of old
  directories. The HTTP client, the checksum and the reading of directory names as times are parameters.
\<close>

section \<open>Directories and manifests\<close>

record manifest_entry =
  me_file :: string
  me_downloaded :: "bool option"
  me_size_bytes :: "nat option"
  me_sha256 :: "string option"
  me_etag :: "string option"
  me_last_modified :: "string option"
  me_content_length :: "nat option"

record remote_file =
  rf_http_status :: nat
  rf_etag :: "string option"
  rf_last_modified :: "string option"
  rf_content_length :: "nat option"

text \<open>
  An entry of a source's directory: its files by name, \<open>download-manifest.json\<close> apart, which may be missing or unreadable, and the
  seconds at which it was changed.
\<close>

record raw_run =
  rr_name :: string
  rr_is_dir :: bool
  rr_files :: "(string \<times> string) list"
  rr_manifest :: "(string + manifest_entry list) option"
  rr_modified :: nat

definition ggu_files :: "(string \<times> string \<times> int) list" where
  "ggu_files = [(''JDF_merged_GTFS.zip'', ''ggu_jdf_gtfs_latest'', 30), (''CZPTT_GTFS.zip'', ''ggu_czptt_gtfs_latest'', 20),
     (''JDF_merged.zip'', ''ggu_jdf_raw_latest'', 40), (''jdf-to-gtfs.log.json'', ''ggu_log'', 30), (''czptt-to-gtfs.log.json'', ''ggu_log'', 20),
     (''fixing.log.json'', ''ggu_log'', 30), (''merging.log.json'', ''ggu_log'', 30), (''main.log'', ''ggu_log'', 30)]"

definition has_file :: "raw_run \<Rightarrow> string \<Rightarrow> bool" where
  "has_file run file \<longleftrightarrow> file \<in> fst ` set (rr_files run)"

text \<open>Of two entries for a file the map keeps the later one.\<close>

definition manifest_by_file :: "manifest_entry list \<Rightarrow> string \<Rightarrow> manifest_entry option" where
  "manifest_by_file entries = map_of (rev (map (\<lambda>e. (me_file e, e)) entries))"

definition download_manifest_by_file :: "raw_run \<Rightarrow> string + (string \<Rightarrow> manifest_entry option)" where
  "download_manifest_by_file run = (case rr_manifest run of None \<Rightarrow> Inr (\<lambda>_. None) | Some (Inl e) \<Rightarrow> Inl e
     | Some (Inr entries) \<Rightarrow> Inr (manifest_by_file entries))"

definition file_checksum :: "(string \<Rightarrow> string) \<Rightarrow> raw_run \<Rightarrow> string \<Rightarrow> manifest_entry option \<Rightarrow> string option" where
  "file_checksum sha256_file run file entry =
     (case Option.bind entry me_sha256 of
        Some checksum \<Rightarrow> Some checksum
      | None \<Rightarrow> map_option sha256_file (map_of (rr_files run) file))"

definition raw_run_is_complete :: "string \<Rightarrow> raw_run \<Rightarrow> bool" where
  "raw_run_is_complete source run \<longleftrightarrow> rr_manifest run \<noteq> None \<and>
     (if source = ''pid'' then has_file run ''PID_GTFS.zip''
      else if source = ''ggu'' then list_all (\<lambda>(file, _). has_file run file) ggu_files
      else False)"

type_synonym reusable_run = "raw_run \<times> (string \<Rightarrow> manifest_entry option)"

definition same_size :: "manifest_entry \<Rightarrow> remote_file \<Rightarrow> bool" where
  "same_size previous remote =
     (case (case me_size_bytes previous of Some n \<Rightarrow> Some n | None \<Rightarrow> me_content_length previous, rf_content_length remote) of
        (Some a, Some b) \<Rightarrow> a = b
      | (_, None) \<Rightarrow> True
      | _ \<Rightarrow> False)"

definition can_reuse_file :: "reusable_run \<Rightarrow> string \<Rightarrow> remote_file option \<Rightarrow> bool" where
  "can_reuse_file run file remote =
     (case remote of
        None \<Rightarrow> False
      | Some remote \<Rightarrow>
          if rf_http_status remote \<noteq> 304 \<and> \<not> (200 \<le> rf_http_status remote \<and> rf_http_status remote < 300) then False
          else if \<not> has_file (fst run) file then False
          else (case snd run file of
                  None \<Rightarrow> False
                | Some previous \<Rightarrow>
                    if me_downloaded previous = Some False \<and> me_sha256 previous = None then False
                    else if rf_http_status remote = 304 then True
                    else (case (me_etag previous, rf_etag remote) of
                            (Some a, Some b) \<Rightarrow> a = b \<and> same_size previous remote
                          | (Some _, None) \<Rightarrow> False
                          | _ \<Rightarrow>
                              (case (me_last_modified previous, rf_last_modified remote) of
                                 (Some a, Some b) \<Rightarrow> a = b \<and> same_size previous remote
                               | _ \<Rightarrow> False))))"

section \<open>The newest usable directory\<close>

definition newest_first :: "raw_run list \<Rightarrow> raw_run list" where
  "newest_first runs = rev (sort_key rr_name (filter rr_is_dir runs))"

fun latest_run_with :: "string \<Rightarrow> raw_run list \<Rightarrow> string + reusable_run option" where
  "latest_run_with file [] = Inr None"
| "latest_run_with file (run # runs) =
     (if \<not> has_file run file then latest_run_with file runs
      else (case rr_manifest run of
              None \<Rightarrow> latest_run_with file runs
            | Some (Inl e) \<Rightarrow> Inl e
            | Some (Inr entries) \<Rightarrow> Inr (Some (run, manifest_by_file entries))))"

definition latest_reusable_pid_run :: "raw_run list \<Rightarrow> string + reusable_run option" where
  "latest_reusable_pid_run runs = latest_run_with ''PID_GTFS.zip'' (newest_first runs)"

definition latest_reusable_ids_jmk_run :: "raw_run list \<Rightarrow> string + reusable_run option" where
  "latest_reusable_ids_jmk_run runs = latest_run_with ''IDS_JMK_GTFS.zip'' (newest_first runs)"

fun latest_run_with_all :: "raw_run list \<Rightarrow> string + reusable_run option" where
  "latest_run_with_all [] = Inr None"
| "latest_run_with_all (run # runs) =
     (case rr_manifest run of
        None \<Rightarrow> latest_run_with_all runs
      | Some (Inl e) \<Rightarrow> Inl e
      | Some (Inr entries) \<Rightarrow>
          if list_all (\<lambda>(file, _). has_file run file) ggu_files then Inr (Some (run, manifest_by_file entries)) else latest_run_with_all runs)"

definition latest_reusable_ggu_run :: "raw_run list \<Rightarrow> string + reusable_run option" where
  "latest_reusable_ggu_run runs = latest_run_with_all (newest_first runs)"

definition latest_pid_run_dir :: "raw_run list \<Rightarrow> string + raw_run" where
  "latest_pid_run_dir runs = (case latest_reusable_pid_run runs of Inl e \<Rightarrow> Inl e
     | Inr None \<Rightarrow> Inl ''no PID GTFS downloads found; run download pid first'' | Inr (Some (run, _)) \<Rightarrow> Inr run)"

definition latest_ids_jmk_run_dir :: "raw_run list \<Rightarrow> string + raw_run" where
  "latest_ids_jmk_run_dir runs = (case latest_reusable_ids_jmk_run runs of Inl e \<Rightarrow> Inl e
     | Inr None \<Rightarrow> Inl ''no IDS JMK GTFS downloads found; run download ids-jmk first'' | Inr (Some (run, _)) \<Rightarrow> Inr run)"

definition latest_run_dir :: "raw_run list \<Rightarrow> string + raw_run" where
  "latest_run_dir runs = (case newest_first runs of [] \<Rightarrow> Inl ''no GGU latest run directories found'' | run # _ \<Rightarrow> Inr run)"

section \<open>Removal of old directories\<close>

text \<open>The argument is what the environment variable holds, when it is set and a number.\<close>

definition raw_runs_to_keep :: "nat option \<Rightarrow> nat" where
  "raw_runs_to_keep configured = max 1 (case configured of Some n \<Rightarrow> n | None \<Rightarrow> 3)"

definition db_import_runs_to_keep :: "nat option \<Rightarrow> nat" where
  "db_import_runs_to_keep configured = max 1 (case configured of Some n \<Rightarrow> n | None \<Rightarrow> 1)"

definition minimum_database_free_bytes :: "nat option \<Rightarrow> nat" where
  "minimum_database_free_bytes configured = (case configured of Some n \<Rightarrow> n | None \<Rightarrow> 5 * 1024 * 1024 * 1024)"

definition incomplete_raw_run_max_age :: "nat option \<Rightarrow> nat" where
  "incomplete_raw_run_max_age configured = min (2 ^ 64 - 1) ((case configured of Some n \<Rightarrow> n | None \<Rightarrow> 24) * (60 * 60))"

record retention_env =
  re_is_timestamp :: "string \<Rightarrow> bool"
  re_remove_fault :: "string \<Rightarrow> string option"
  re_runs_to_keep :: nat
  re_incomplete_max_age :: nat
  re_now :: nat

fun remove_runs :: "retention_env \<Rightarrow> string list \<Rightarrow> raw_run list \<Rightarrow> (string + unit) \<times> raw_run list" where
  "remove_runs env [] runs = (Inr (), runs)"
| "remove_runs env (x # xs) runs =
     (case re_remove_fault env x of
        Some e \<Rightarrow> (Inl e, runs)
      | None \<Rightarrow> remove_runs env xs (filter (\<lambda>r. rr_name r \<noteq> x) runs))"

definition stamped_runs :: "retention_env \<Rightarrow> raw_run list \<Rightarrow> raw_run list" where
  "stamped_runs env runs = filter (\<lambda>r. rr_is_dir r \<and> re_is_timestamp env (rr_name r)) runs"

definition complete_runs :: "retention_env \<Rightarrow> string \<Rightarrow> raw_run list \<Rightarrow> string list" where
  "complete_runs env source runs = sort (map rr_name (filter (raw_run_is_complete source) (stamped_runs env runs)))"

definition retained_names :: "retention_env \<Rightarrow> string \<Rightarrow> string \<Rightarrow> raw_run list \<Rightarrow> string set" where
  "retained_names env source protected runs =
     insert protected (set (take (max (re_runs_to_keep env) 1) (rev (complete_runs env source runs))))"

definition stale_incomplete_runs :: "retention_env \<Rightarrow> string \<Rightarrow> string \<Rightarrow> raw_run list \<Rightarrow> string list" where
  "stale_incomplete_runs env source protected runs = map rr_name (filter (\<lambda>r. \<not> raw_run_is_complete source r \<and> rr_name r \<noteq> protected \<and>
     re_incomplete_max_age env \<le> re_now env - rr_modified r) (stamped_runs env runs))"

definition prune_raw_run_directories_with_policy :: "retention_env \<Rightarrow> string \<Rightarrow> string \<Rightarrow> raw_run list \<Rightarrow> (string + unit) \<times> raw_run list" where
  "prune_raw_run_directories_with_policy env source protected runs =
     remove_runs env (filter (\<lambda>x. x \<notin> retained_names env source protected runs) (complete_runs env source runs) @
       stale_incomplete_runs env source protected runs) runs"

text \<open>A removal that fails is reported and does not stop the caller.\<close>

definition prune_raw_run_directories_best_effort :: "retention_env \<Rightarrow> string \<Rightarrow> string \<Rightarrow> raw_run list \<Rightarrow> bool \<times> raw_run list" where
  "prune_raw_run_directories_best_effort env source protected runs =
     (case prune_raw_run_directories_with_policy env source protected runs of (Inr _, runs) \<Rightarrow> (True, runs) | (Inl _, runs) \<Rightarrow> (False, runs))"

section \<open>Downloads\<close>

text \<open>
  \<open>ft_head\<close> is what \<open>fetch_remote_file_metadata\<close> learns with the validators of an earlier entry, \<open>ft_get\<close> the answer to the request: its
  status, headers and body, or the part of the body before the connection broke. \<open>ft_stamp\<close> is the name of the new directory.
\<close>

record fetch_env =
  ft_head :: "string \<Rightarrow> manifest_entry option \<Rightarrow> string + remote_file option"
  ft_get :: "string \<Rightarrow> string + remote_file \<times> (string \<times> string + string)"
  ft_sha256 :: "string \<Rightarrow> string"
  ft_stamp :: string
  ft_now :: nat
  ft_retention :: retention_env

definition put_run :: "raw_run \<Rightarrow> raw_run list \<Rightarrow> raw_run list" where
  "put_run run runs = filter (\<lambda>r. rr_name r \<noteq> rr_name run) runs @ [run]"

definition new_run :: "fetch_env \<Rightarrow> (string \<times> string) list \<Rightarrow> (string + manifest_entry list) option \<Rightarrow> raw_run" where
  "new_run env files manifest = \<lparr>rr_name = ft_stamp env, rr_is_dir = True, rr_files = files, rr_manifest = manifest, rr_modified = ft_now env\<rparr>"

definition fetched_entry :: "fetch_env \<Rightarrow> string \<Rightarrow> remote_file \<Rightarrow> string \<Rightarrow> manifest_entry" where
  "fetched_entry env file answer body = \<lparr>me_file = file, me_downloaded = Some True, me_size_bytes = Some (length body),
     me_sha256 = Some (ft_sha256 env body), me_etag = rf_etag answer, me_last_modified = rf_last_modified answer,
     me_content_length = rf_content_length answer\<rparr>"

definition fetch_single :: "fetch_env \<Rightarrow> string \<Rightarrow> string \<Rightarrow> raw_run list \<Rightarrow> (string + string) \<times> raw_run list" where
  "fetch_single env source file runs =
     (case ft_get env file of
        Inl e \<Rightarrow> (Inl e, runs)
      | Inr (answer, body) \<Rightarrow>
          if 400 \<le> rf_http_status answer \<and> rf_http_status answer < 600 then (Inl (''download '' @ file), runs)
          else (case body of
                  Inl (e, part) \<Rightarrow> (Inl e, put_run (new_run env [(file, part)] None) runs)
                | Inr body \<Rightarrow>
                    (Inr (ft_stamp env), snd (prune_raw_run_directories_best_effort (ft_retention env) source (ft_stamp env)
                       (put_run (new_run env [(file, body)] (Some (Inr [fetched_entry env file answer body]))) runs)))))"

definition download_single ::
  "fetch_env \<Rightarrow> string \<Rightarrow> string \<Rightarrow> string + reusable_run option \<Rightarrow> raw_run list \<Rightarrow> (string + string) \<times> raw_run list" where
  "download_single env source file reusable runs =
     (case reusable of
        Inl e \<Rightarrow> (Inl e, runs)
      | Inr reusable \<Rightarrow>
          (case ft_head env file (Option.bind reusable (\<lambda>run. snd run file)) of
             Inl e \<Rightarrow> (Inl e, runs)
           | Inr remote \<Rightarrow>
               (case reusable of
                  Some run \<Rightarrow>
                    if can_reuse_file run file remote
                    then (Inr (rr_name (fst run)),
                          snd (prune_raw_run_directories_best_effort (ft_retention env) source (rr_name (fst run)) runs))
                    else fetch_single env source file runs
                | None \<Rightarrow> fetch_single env source file runs)))"

definition download_pid_gtfs :: "fetch_env \<Rightarrow> raw_run list \<Rightarrow> (string + string) \<times> raw_run list" where
  "download_pid_gtfs env runs = download_single env ''pid'' ''PID_GTFS.zip'' (latest_reusable_pid_run runs) runs"

definition download_ids_jmk_gtfs :: "fetch_env \<Rightarrow> raw_run list \<Rightarrow> (string + string) \<times> raw_run list" where
  "download_ids_jmk_gtfs env runs = download_single env ''ids-jmk'' ''IDS_JMK_GTFS.zip'' (latest_reusable_ids_jmk_run runs) runs"

end
