(* ===== verification/Raw_Runs_Props.thy ===== *)
theory Raw_Runs_Props
  imports Raw_Runs
begin

text \<open>
  A file is used again only with a validator; a download that ends leaves a directory that the import can use; the removal of old
  directories spares the newest complete ones, what is being written, and everything that is not a download.
\<close>

section \<open>Reuse\<close>

lemma reuse_needs_validator:
  assumes "can_reuse_file run file (Some remote)"
  obtains previous where "snd run file = Some previous" and "has_file (fst run) file"
    and "rf_http_status remote = 304 \<or>
      (same_size previous remote \<and>
       (me_etag previous \<noteq> None \<and> me_etag previous = rf_etag remote \<or>
        me_last_modified previous \<noteq> None \<and> me_last_modified previous = rf_last_modified remote))"
  using assms by (auto simp: can_reuse_file_def split: if_splits option.splits)

section \<open>Removal\<close>

lemma remove_runs_spares:
  assumes "r \<in> set runs" and "rr_name r \<notin> set xs"
  shows "r \<in> set (snd (remove_runs env xs runs))"
  using assms by (induction env xs runs rule: remove_runs.induct) (auto split: option.splits)

lemma remove_runs_subset: "set (snd (remove_runs env xs runs)) \<subseteq> set runs"
  by (induction env xs runs rule: remove_runs.induct) (auto split: option.splits)

lemma prune_best_effort_snd:
  "snd (prune_raw_run_directories_best_effort env source protected runs) = snd (prune_raw_run_directories_with_policy env source protected runs)"
  by (auto simp: prune_raw_run_directories_best_effort_def split: prod.split sum.split)

lemma protected_spared:
  "r \<in> set runs \<Longrightarrow> rr_name r = protected \<Longrightarrow> r \<in> set (snd (prune_raw_run_directories_with_policy env source protected runs))"
  unfolding prune_raw_run_directories_with_policy_def
  by (rule remove_runs_spares) (auto simp: retained_names_def stale_incomplete_runs_def)

text \<open>
  Whether or not a removal fails, what stays are the protected directory, what is no download, the incomplete downloads that are
  younger than the limit and the newest complete ones, as many as are to be kept.
\<close>

theorem newest_runs_survive:
  assumes "r \<in> set runs" and "distinct (map rr_name runs)"
    and "rr_name r = protected \<or> \<not> rr_is_dir r \<or> \<not> re_is_timestamp env (rr_name r) \<or>
      (\<not> raw_run_is_complete source r \<and> re_now env - rr_modified r < re_incomplete_max_age env) \<or>
      (raw_run_is_complete source r \<and> rr_name r \<in> set (take (max (re_runs_to_keep env) 1) (rev (complete_runs env source runs))))"
  shows "r \<in> set (snd (prune_raw_run_directories_with_policy env source protected runs))"
proof -
  have same: "s = r" if "s \<in> set runs" "rr_name s = rr_name r" for s
    using assms(1,2) that by (metis distinct_map inj_onD)
  have "rr_name r \<notin> set (filter (\<lambda>x. x \<notin> retained_names env source protected runs) (complete_runs env source runs))"
    using assms(3) by (auto simp: retained_names_def complete_runs_def stamped_runs_def dest: same)
  moreover have "rr_name r \<notin> set (stale_incomplete_runs env source protected runs)"
    using assms(3) by (auto simp: stale_incomplete_runs_def stamped_runs_def dest: same)
  ultimately show ?thesis
    unfolding prune_raw_run_directories_with_policy_def by (intro remove_runs_spares assms(1)) simp
qed

text \<open>No directory of IDS JMK counts as complete, so however many are to be kept, only young ones and the protected one stay.\<close>

lemma ids_jmk_runs_not_kept:
  assumes "r \<in> set runs" and "rr_is_dir r" and "re_is_timestamp env (rr_name r)" and "rr_name r \<noteq> protected"
    and "re_incomplete_max_age env \<le> re_now env - rr_modified r" and "\<And>x. re_remove_fault env x = None"
  shows "r \<notin> set (snd (prune_raw_run_directories_with_policy env ''ids-jmk'' protected runs))"
proof -
  have gone: "r \<notin> set (snd (remove_runs env xs rs))" if "rr_name r \<in> set xs" for xs rs
    using that
  proof (induction xs arbitrary: rs)
    case (Cons x xs)
    show ?case
    proof (cases "rr_name r = x")
      case True
      then have "r \<notin> set (filter (\<lambda>r. rr_name r \<noteq> x) rs)" by simp
      with remove_runs_subset [of env xs "filter (\<lambda>r. rr_name r \<noteq> x) rs"] show ?thesis by (auto simp: assms(6))
    next
      case False
      with Cons show ?thesis by (simp add: assms(6))
    qed
  qed simp
  have "\<not> raw_run_is_complete ''ids-jmk'' r" by (simp add: raw_run_is_complete_def)
  with assms(1-5) have "rr_name r \<in> set (stale_incomplete_runs env ''ids-jmk'' protected runs)"
    by (auto simp: stale_incomplete_runs_def stamped_runs_def)
  then show ?thesis unfolding prune_raw_run_directories_with_policy_def by (intro gone) simp
qed

section \<open>Downloads\<close>

lemma newest_first_dir: "run \<in> set (newest_first runs) \<Longrightarrow> run \<in> set runs \<and> rr_is_dir run"
  by (auto simp: newest_first_def)

lemma latest_run_with_usable:
  assumes "latest_run_with file runs = Inr (Some (run, manifest))"
  shows "run \<in> set runs \<and> has_file run file \<and> rr_manifest run \<noteq> None"
  using assms by (induction runs) (auto split: if_splits option.splits sum.splits)

text \<open>A PID download that ends well names a directory that is there, with its manifest and its archive.\<close>

theorem downloaded_run_is_usable:
  assumes "download_pid_gtfs env runs = (Inr name, runs')"
  shows "\<exists>run \<in> set runs'. rr_name run = name \<and> rr_is_dir run \<and> raw_run_is_complete ''pid'' run"
proof -
  have *: "run \<in> set (snd (prune_raw_run_directories_best_effort (ft_retention env) ''pid'' (rr_name run) rs))" if "run \<in> set rs" for run rs
    unfolding prune_best_effort_snd using that by (rule protected_spared) simp
  let ?new = "\<lambda>answer body. new_run env [(''PID_GTFS.zip'', body)] (Some (Inr [fetched_entry env ''PID_GTFS.zip'' answer body]))"
  have fetched: ?thesis if "fetch_single env ''pid'' ''PID_GTFS.zip'' runs = (Inr name, runs')"
  proof -
    from that obtain answer body where name: "name = rr_name (?new answer body)"
      and runs': "runs' = snd (prune_raw_run_directories_best_effort (ft_retention env) ''pid'' (rr_name (?new answer body)) (put_run (?new answer body) runs))"
      by (auto simp: fetch_single_def new_run_def split: sum.splits prod.splits if_splits)
    have "?new answer body \<in> set runs'" unfolding runs' by (rule *) (simp add: put_run_def)
    then show ?thesis
      by (rule rev_bexI) (simp add: name raw_run_is_complete_def has_file_def new_run_def)
  qed
  from assms consider "fetch_single env ''pid'' ''PID_GTFS.zip'' runs = (Inr name, runs')"
    | run manifest where "latest_run_with ''PID_GTFS.zip'' (newest_first runs) = Inr (Some (run, manifest))" "name = rr_name run"
        "runs' = snd (prune_raw_run_directories_best_effort (ft_retention env) ''pid'' (rr_name run) runs)"
    by (auto simp: download_pid_gtfs_def download_single_def latest_reusable_pid_run_def split: sum.splits option.splits if_splits)
  then show ?thesis
  proof cases
    case 1
    then show ?thesis by (rule fetched)
  next
    case 2
    from latest_run_with_usable [OF 2(1)] newest_first_dir [of run runs]
    have run: "run \<in> set runs" "rr_is_dir run" "raw_run_is_complete ''pid'' run" by (auto simp: raw_run_is_complete_def)
    from * [OF run(1)] run(2,3) 2(2,3) show ?thesis by blast
  qed
qed

end
