(* ===== verification/Spec2Isabelle.thy ===== *)
theory Spec2Isabelle
  imports Raptor_Correct Direct_Correct Connection_Scan Transit_Props Ranking_Results Range_Results Ticketing_World
    Admission Accounts_Revocation Gtfs_Props Stop_Hierarchy Stop_Search_Props Realtime_Sync_Props Schedule_Props Raw_Runs_Props
begin

text \<open>
  A verification development for the Cesta public transport service.

  \<^bold>\<open>The program.\<close> Timetables are imported from GTFS feeds (\<^verbatim>\<open>crates/gtfs-importer\<close>, \<^verbatim>\<open>services/data-pipeline\<close>)
  into a database whose entities are the types of \<^verbatim>\<open>crates/transit-model\<close>. The API service (\<^verbatim>\<open>services/api\<close>)
  loads the trips of a service day into the RAPTOR router of \<^verbatim>\<open>crates/routing-core\<close>, adds the delays that
  \<^verbatim>\<open>services/realtime-worker\<close> has stored, searches journeys for one departure or a range of departures, filters,
  merges and ranks them, and answers. Beside the search it keeps accounts, sells railway tickets through an
  upstream operator and a payment provider, and protects itself by an admission control.

  \<^bold>\<open>How the code is represented.\<close> A struct is a record, an enum a datatype, a handler one function on the
  explicit state with a result \<open>Inl\<close> error or \<open>Inr\<close> answer, a panic the value \<open>None\<close>. \<open>u32\<close> is \<open>32 word\<close>, with
  saturating and wrapping arithmetic as in the code; \<open>usize\<close> is \<open>nat\<close> and \<open>i32\<close> is \<open>int\<close>, with the bounds written
  out where a theorem needs them; \<open>f64\<close> is the type of theory Float64, whose operations round to the nearest
  even double. Text that is only compared is a \<open>string\<close> of UTF-8 bytes, text whose characters are inspected a
  \<open>ustring\<close>, the list of its scalar values. A map that is only read by key is a partial map, a \<open>HashMap\<close> that
  is iterated is an association list or set with its order a parameter \<open>hash_order\<close>, so that the theorems hold
  for every order.

  \<^bold>\<open>The theories.\<close>

  \<^item> Prelude, Float64, Net_Address: the operations of the standard library that the code uses.
  \<^item> Transit_Model, Transit_Props: \<^verbatim>\<open>crates/transit-model/src/lib.rs\<close>, its types and its four functions; names are
    normalised to words joined by single spaces, and times survive printing and parsing.
  \<^item> Raptor_Model, Raptor_Realtime, Raptor_Timetable (the construction \<open>RaptorTimetable::new\<close>), Raptor_Catch
    (\<open>earliest_catchable_trip\<close>), Raptor_Search (the rounds), Raptor_Window (the departures a range search probes),
    Direct_Journeys and Connection_Scan: \<^verbatim>\<open>crates/routing-core/src/lib.rs\<close>. Raptor_Timetable_Props shows that
    construction establishes the invariants of the index; Raptor_Sound and Raptor_Rounds define reachability of a stop
    at a time without the data structures of the search and show that every label is reachable and no slice
    access panics; Raptor_Journeys follows the parents back to a journey; Raptor_Correct, Direct_Correct state the
    properties, with a small network on which each of them is run.
  \<^item> Routing_Config, Journey_Ranking, Ranking_Props, Ranking_Results: the configuration of the search and the treatment
    of found journeys in \<^verbatim>\<open>services/api/src/lib.rs\<close> (plausibility, dominance, ranking, the next service day).
  \<^item> Range_Search, Range_Results: \<open>run_raptor_searches\<close> and \<open>run_adaptive_raptor_searches\<close>, the pool of two workers
    around RAPTOR; the order in which they end is a parameter.
  \<^item> Ticketing_Model, Ticketing_Orders, Ticketing_Steps, Ticketing_Props, Ticketing_Replay, Ticketing_Privacy,
    Ticketing_World: \<^verbatim>\<open>services/api/src/ticketing.rs\<close> and the parts of \<^verbatim>\<open>cd.rs\<close> it needs. Every request is shown to
    be a sequence of small steps on orders and on the log of outside calls; the invariants are proved over these steps.
  \<^item> App_Config, Admission: \<^verbatim>\<open>config.rs\<close>, \<^verbatim>\<open>error.rs\<close> and \<^verbatim>\<open>http/security.rs\<close>.
  \<^item> Request_Validation, Accounts, Account_Service, Accounts_Props, Accounts_Safety, Accounts_Revocation:
    \<^verbatim>\<open>http/validation.rs\<close>, \<^verbatim>\<open>services/auth.rs\<close> and \<^verbatim>\<open>controllers/account.rs\<close>, with an abstract step relation on the
    store of users and sessions that every handler refines.
  \<^item> Gtfs_Import, Gtfs_Props, Stop_Hierarchy: \<^verbatim>\<open>crates/gtfs-importer\<close> and \<^verbatim>\<open>crates/geodata-matcher\<close>.

  \<^item> Edit_Distance, Stop_Search, Stop_Handlers, Stop_Search_Props: the search of stops and cities in \<^verbatim>\<open>services/api/src/lib.rs\<close>
    and \<^verbatim>\<open>controllers/transit.rs\<close>, from the normalisation of the query to the ranked suggestions; the edit distance is the least
    number of edits, and paging through the stops of a map shows each once.
  \<^item> Realtime_Feed, Realtime_Props, Duk_Feed: from the decoded answers of the providers to realtime records
    (\<^verbatim>\<open>services/realtime-worker\<close>).
  \<^item> Push_Queue, Push_Props: the events of subscribed journeys and the queue of push notifications with its claims, retries and
    leases; Sync_Status: the alerts of \<^verbatim>\<open>services/api/src/operations.rs\<close> over the status of the sources.
  \<^item> Realtime_Sync, Realtime_Sync_Props: one turn of the realtime worker, from the answer of a source to the stored rows, the queue and
    the status, with every failure in between.
  \<^item> Schedule_Store, Schedule_Export, Schedule_Import, Schedule_Props: the import of timetables in \<^verbatim>\<open>services/data-pipeline/src/main.rs\<close>: rows
    and codes, the batches of statements, the removal of what a file no longer has under the foreign keys of the schema, runs and
    skipping. Schedule_Props shows what a complete import leaves in the tables and when it can succeed.
  \<^item> Raw_Runs, Raw_Runs_Props: the downloaded archives, their reuse and their removal.

  \<^bold>\<open>Parameters.\<close> Code that is not in the repository is an argument: the railway API and the payment provider of the
  ticketing model (records of operations), password hashing, token codec, digest and UUIDs of the accounts (a record
  \<open>library\<close>, with the few laws the theorems name as hypotheses), the lower-casing of Unicode text, the parsing of dates,
  the decoding of CSV rows, the iteration order of hash maps, the order in which parallel workers end, the trigonometric
  functions (\<open>float_library\<close>), the decoders and parsers of the realtime worker (\<open>worker_library\<close>, \<open>duk_library\<close>), the answers of
  providers and download servers (\<open>sync_env\<close>, \<open>fetch_env\<close>), the queries of the stop search (\<open>place_db\<close>) and which statement of an
  import fails (\<open>export_env\<close>). Each
  property with such a hypothesis has a witness with a concrete instance.

  \<^bold>\<open>Bounds and termination.\<close> No definition has fuel. The rounds of RAPTOR run over the list of allowed rounds. The
  walking relaxation of the connection scan terminates because each pass lowers a label; the walk back along the
  parents is a partial function whose value \<open>None\<close> means that it runs forever, and it is shown to return
  from every label of a search. The pools of the range search recurse on the jobs that are left.

  \<^bold>\<open>Not modelled.\<close> Migrations, pools, caches and snapshots on disk; the SQL of handlers that only map rows to JSON, among them departure
  boards, station layouts and train formation; HTTP routing, middleware order, telemetry; the HTTP clients of the railway API and of the
  providers with the signing of their tokens; in the data pipeline the command
  line, the import of cities and of the geometry of lines, the download of the GGU files and the report on their logs; health reports and
  the OpenAPI document; the fixtures of \<^verbatim>\<open>crates/offline-pack\<close>.
\<close>

end
